(* ===== verification/Prelude.thy ===== *)
theory Prelude
  imports Complex_Main "HOL-Library.Word"
begin

text \<open>
  Shared vocabulary of the development: the widths of the C integer types, little-endian byte
  strings, reachability of transition systems with the interface for their invariants, and a
  few list facts about counting loops and bounded histories that several components use.
\<close>

unbundle bit_operations_syntax

named_theorems byte_simps \<open>lengths and bits of little-endian encodings\<close>
named_theorems loop_simps \<open>closed forms of the source's counting loops\<close>

section \<open>C integer types\<close>

type_synonym u8 = "8 word"
type_synonym u16 = "16 word"
type_synonym u32 = "32 word"
type_synonym u64 = "64 word"

abbreviation UINT64_MAX :: u64 where "UINT64_MAX \<equiv> 0xFFFFFFFFFFFFFFFF"
abbreviation UINT32_MAX :: u32 where "UINT32_MAX \<equiv> 0xFFFFFFFF"
abbreviation UINT8_MAX :: u8 where "UINT8_MAX \<equiv> 0xFF"

section \<open>Little-endian byte strings\<close>

definition le_bytes :: "nat \<Rightarrow> 'a::len word \<Rightarrow> u8 list" where
  "le_bytes n w = map (\<lambda>i. ucast (drop_bit (8 * i) w)) [0..<n]"

fun le_word :: "u8 list \<Rightarrow> 'a::len word" where
  "le_word [] = 0"
| "le_word (b # bs) = ucast b OR push_bit 8 (le_word bs)"

lemma length_le_bytes [simp, byte_simps]: "length (le_bytes n w) = n"
  by (simp add: le_bytes_def)

lemma nth_le_bytes [byte_simps]: "i < n \<Longrightarrow> le_bytes n w ! i = ucast (drop_bit (8 * i) w)"
  by (simp add: le_bytes_def)

lemma bit_le_word [byte_simps]:
  "bit (le_word bs :: 'a::len word) k \<longleftrightarrow>
     k < LENGTH('a) \<and> k div 8 < length bs \<and> bit (bs ! (k div 8)) (k mod 8)"
proof (induction bs arbitrary: k)
  case Nil
  then show ?case by simp
next
  case (Cons b bs)
  show ?case
  proof (cases "k < 8")
    case True
    then show ?thesis by (auto simp: bit_simps)
  next
    case False
    then have k: "k div 8 = Suc ((k - 8) div 8)" "k mod 8 = (k - 8) mod 8"
      by (auto simp: le_div_geq le_mod_geq)
    have "\<not> bit b k" using False bit_imp_le_length[of b k] by auto
    then show ?thesis using False Cons.IH[of "k - 8"] by (auto simp: bit_simps k)
  qed
qed


lemma le_word_le_bytes:
  "le_word (le_bytes n (w :: 'a::len word)) = take_bit (8 * n) w"
proof (rule bit_word_eqI)
  fix k
  assume "k < LENGTH('a)"
  have "k div 8 < n \<longleftrightarrow> k < 8 * n" by auto
  moreover have "8 * (k div 8) + k mod 8 = k" by simp
  ultimately show "bit (le_word (le_bytes n w) :: 'a word) k = bit (take_bit (8 * n) w) k"
    using \<open>k < LENGTH('a)\<close> by (auto simp: byte_simps bit_simps)
qed

lemma le_bytes_le_word:
  assumes "length bs = n" and "8 * n \<le> LENGTH('a::len)"
  shows "le_bytes n (le_word bs :: 'a word) = bs"
proof (rule nth_equalityI)
  fix i
  assume "i < length (le_bytes n (le_word bs :: 'a word))"
  then have i: "i < n" by simp
  show "le_bytes n (le_word bs :: 'a word) ! i = bs ! i"
  proof (rule bit_word_eqI)
    fix k
    assume "k < LENGTH(8)"
    then have k: "k < 8" by simp
    then have "(8 * i + k) div 8 = i" "(8 * i + k) mod 8 = k" "8 * i + k < LENGTH('a)"
      using i assms(2) by auto
    then show "bit (le_bytes n (le_word bs :: 'a word) ! i) k = bit (bs ! i) k"
      using i k assms(1) by (simp add: byte_simps bit_simps)
  qed
qed (use assms in simp)

lemma le_word_full:
  "8 * n = LENGTH('a::len) \<Longrightarrow> le_word (le_bytes n (w :: 'a word)) = w"
  by (simp add: le_word_le_bytes)

lemma unat_ucast_u64 [simp]: "unat (ucast (w :: u32) :: u64) = unat w"
proof -
  have "unat w < 2 ^ 64" using unsigned_less[of w, where ?'a = nat] by simp
  then show ?thesis by (simp add: unsigned_ucast_eq take_bit_nat_eq_self)
qed

section \<open>Transition systems\<close>

inductive reachable :: "('s \<Rightarrow> bool) \<Rightarrow> ('s \<Rightarrow> 's \<Rightarrow> bool) \<Rightarrow> 's \<Rightarrow> bool" for init step where
  start: "init s \<Longrightarrow> reachable init step s"
| step: "reachable init step s \<Longrightarrow> step s t \<Longrightarrow> reachable init step t"

text \<open>The interface a component offers to show that a predicate holds in all its states.\<close>

locale invariant_system =
  fixes init :: "'s \<Rightarrow> bool" and step :: "'s \<Rightarrow> 's \<Rightarrow> bool" and inv :: "'s \<Rightarrow> bool"
  assumes inv_init: "init s \<Longrightarrow> inv s"
    and inv_step: "inv s \<Longrightarrow> step s t \<Longrightarrow> inv t"
begin

lemma reachable_inv: "reachable init step s \<Longrightarrow> inv s"
  by (induction rule: reachable.induct) (auto intro: inv_init inv_step)

lemma reachable_consequence: "(\<And>s. inv s \<Longrightarrow> P s) \<Longrightarrow> reachable init step s \<Longrightarrow> P s"
  by (auto dest: reachable_inv)

end

section \<open>Bounded histories\<close>

lemma mod_Suc_wrap: "k < n \<Longrightarrow> Suc k mod n = (if Suc k = n then 0 else Suc k)"
  by auto

definition last_n :: "nat \<Rightarrow> 'a list \<Rightarrow> 'a list" where
  "last_n n xs = drop (length xs - n) xs"

lemma length_last_n [simp]: "length (last_n n xs) = min n (length xs)"
  by (auto simp: last_n_def)

lemma last_n_all [simp]: "length xs \<le> n \<Longrightarrow> last_n n xs = xs"
  by (simp add: last_n_def)

lemma last_n_last_n_append: "last_n n (last_n n xs @ ys) = last_n n (xs @ ys)"
proof (cases "length xs \<le> n")
  case False
  then have "n \<le> length xs" by simp
  then show ?thesis by (auto simp: last_n_def drop_append add.commute)
qed simp

lemma last_n_full: "length ys = n \<Longrightarrow> 0 < n \<Longrightarrow> last_n n (ys @ [x]) = tl ys @ [x]"
  by (cases ys) (auto simp: last_n_def)

lemma set_last_n: "set (last_n n xs) \<subseteq> set xs"
  by (auto simp: last_n_def dest: in_set_dropD)

text \<open>
  The interface of a ring that keeps the most recent \<open>cap\<close> items: pushing appends to the
  chronological view and drops the oldest item once the ring is full.
\<close>

locale bounded_history =
  fixes push :: "'a \<Rightarrow> 's \<Rightarrow> 's" and view :: "'s \<Rightarrow> 'a list" and cap :: nat and inv :: "'s \<Rightarrow> bool"
  assumes push_inv: "inv s \<Longrightarrow> inv (push x s)"
    and view_push: "inv s \<Longrightarrow> view (push x s) = last_n cap (view s @ [x])"
    and view_bound: "inv s \<Longrightarrow> length (view s) \<le> cap"
begin

lemma fold_push_inv: "inv s \<Longrightarrow> inv (fold push xs s)"
  by (induction xs arbitrary: s) (auto intro: push_inv)

lemma view_fold_push: "inv s \<Longrightarrow> view (fold push xs s) = last_n cap (view s @ xs)"
proof (induction xs arbitrary: s)
  case Nil
  then show ?case by (simp add: view_bound)
next
  case (Cons x xs)
  then show ?case using last_n_last_n_append[of cap "view s @ [x]" xs] by (simp add: push_inv view_push)
qed

lemma recent_member: "inv s \<Longrightarrow> length xs < cap \<Longrightarrow> x \<in> set (view (fold push xs (push x s)))"
  by (simp add: view_fold_push push_inv view_push last_n_last_n_append) (auto simp: last_n_def)

end

text \<open>An array of \<open>length a\<close> cells with a write position and a fill count, as the source's rings
  keep it, and its chronological view.\<close>

definition ring_view :: "'a list \<Rightarrow> nat \<Rightarrow> nat \<Rightarrow> 'a list" where
  "ring_view a nxt len = map (\<lambda>i. a ! ((nxt + length a - len + i) mod length a)) [0..<len]"

definition ring_ok :: "'a list \<Rightarrow> nat \<Rightarrow> nat \<Rightarrow> bool" where
  "ring_ok a nxt len \<longleftrightarrow> 0 < length a \<and> nxt < length a \<and> len \<le> length a"

lemma ring_push_ok:
  "ring_ok a nxt len \<Longrightarrow> ring_ok (a[nxt := x]) ((nxt + 1) mod length a) (if len < length a then len + 1 else len)"
  by (auto simp: ring_ok_def)

lemma mod_shift_ne:
  assumes "nxt < n" and "len \<le> n" and "i < len" and "len < n \<or> 0 < i"
  shows "(nxt + n - len + i) mod n \<noteq> (nxt::nat)"
proof
  assume eq: "(nxt + n - len + i) mod n = nxt"
  define d where "d = n - len + i"
  have d: "0 < d" "d < n" using assms by (auto simp: d_def)
  have "nxt + n - len + i = nxt + d" using assms by (simp add: d_def)
  with eq have "(nxt + d) mod n = nxt" by simp
  moreover have "(nxt + d) mod n = (if nxt + d < n then nxt + d else nxt + d - n)"
    using assms(1) d by (auto simp: mod_if)
  ultimately show False using d by (auto split: if_splits)
qed

lemma ring_push_view:
  assumes "ring_ok a nxt len"
  shows "ring_view (a[nxt := x]) ((nxt + 1) mod length a) (if len < length a then len + 1 else len) =
         last_n (length a) (ring_view a nxt len @ [x])"
proof -
  let ?n = "length a"
  have n: "nxt < ?n" "len \<le> ?n" using assms by (auto simp: ring_ok_def)
  show ?thesis
  proof (cases "len < ?n")
    case True
    have idx: "((nxt + 1) mod ?n + ?n - (len + 1) + i) mod ?n = (nxt + ?n - len + i) mod ?n" if "i \<le> len" for i
    proof (cases "nxt + 1 < ?n")
      case False
      then have "nxt + 1 = ?n" using n by simp
      then have "nxt + ?n - len + i = (?n - (len + 1) + i) + ?n" using True by simp
      then have "(nxt + ?n - len + i) mod ?n = (?n - (len + 1) + i) mod ?n" by (metis mod_add_self2)
      then show ?thesis using \<open>nxt + 1 = ?n\<close> by simp
    qed (use True in simp)
    have lastpos: "(nxt + ?n - len + len) mod ?n = nxt" using n by simp
    have ne: "(nxt + ?n - len + i) mod ?n \<noteq> nxt" if "i < len" for i
      using mod_shift_ne[OF n that] True by simp
    have "ring_view (a[nxt := x]) ((nxt + 1) mod ?n) (len + 1) =
        map (\<lambda>i. a[nxt := x] ! ((nxt + ?n - len + i) mod ?n)) [0..<len + 1]"
      unfolding ring_view_def length_list_update 
      by (rule map_cong[OF refl]) (use idx in \<open>metis (no_types, lifting) atLeastLessThan_iff set_upt less_Suc_eq_le Suc_eq_plus1\<close>)
    also have "\<dots> = map (\<lambda>i. a[nxt := x] ! ((nxt + ?n - len + i) mod ?n)) [0..<len] @ [x]"
      using n lastpos by simp
    also have "map (\<lambda>i. a[nxt := x] ! ((nxt + ?n - len + i) mod ?n)) [0..<len] = ring_view a nxt len"
      unfolding ring_view_def by (rule map_cong[OF refl], rule nth_list_update_neq) (metis ne atLeastLessThan_iff set_upt)
    finally have "ring_view (a[nxt := x]) ((nxt + 1) mod ?n) (len + 1) = ring_view a nxt len @ [x]" .
    then show ?thesis using True by (simp add: ring_view_def)
  next
    case False
    then have len: "len = ?n" using n by simp
    have idx: "((nxt + 1) mod ?n + i) mod ?n = (nxt + Suc i) mod ?n" for i
      by (simp add: mod_add_left_eq)
    have last: "(nxt + ?n) mod ?n = nxt" using n by simp
    have "ring_view (a[nxt := x]) ((nxt + 1) mod ?n) ?n = tl (ring_view a nxt ?n) @ [x]"
    proof (rule nth_equalityI)
      fix i
      assume "i < length (ring_view (a[nxt := x]) ((nxt + 1) mod ?n) ?n)"
      then have i: "i < ?n" by (simp add: ring_view_def)
      show "ring_view (a[nxt := x]) ((nxt + 1) mod ?n) ?n ! i = (tl (ring_view a nxt ?n) @ [x]) ! i"
        using i n idx[of i] last mod_shift_ne[of nxt ?n ?n "Suc i"]
        by (cases "Suc i = ?n") (auto simp: ring_view_def nth_append nth_tl nth_list_update)
    qed (use n in \<open>simp add: ring_view_def\<close>)
    moreover have "last_n ?n (ring_view a nxt ?n @ [x]) = tl (ring_view a nxt ?n) @ [x]"
      using n by (intro last_n_full) (auto simp: ring_view_def)
    ultimately show ?thesis using False len by simp
  qed
qed

section \<open>Counters of consecutive events\<close>

text \<open>A byte that saturates instead of wrapping, and the length of the run of \<open>True\<close> that ends a
  history.\<close>

definition sat_inc :: "u8 \<Rightarrow> u8" where
  "sat_inc c = (if c < UINT8_MAX then c + 1 else c)"

definition trailing_run :: "bool list \<Rightarrow> nat" where
  "trailing_run bs = length (takeWhile id (rev bs))"

lemma unat_sat_inc: "unat (sat_inc c) = min 255 (unat c + 1)"
proof -
  have "unat c < 2 ^ 8" using unsigned_less[of c, where ?'a = nat] by simp
  then show ?thesis by (auto simp: sat_inc_def word_less_nat_alt unat_word_ariths)
qed

lemma trailing_run_simps [simp]:
  "trailing_run [] = 0" "trailing_run (bs @ [b]) = (if b then Suc (trailing_run bs) else 0)"
  by (simp_all add: trailing_run_def)

lemma trailing_run_pos: "0 < trailing_run bs \<longleftrightarrow> bs \<noteq> [] \<and> last bs"
  by (cases bs rule: rev_cases) auto

lemma trailing_run_le: "trailing_run bs \<le> length bs"
  unfolding trailing_run_def using length_takeWhile_le[of id "rev bs"] by simp

lemma trailing_run_ge: "n \<le> trailing_run bs \<longleftrightarrow> n \<le> length bs \<and> list_all id (drop (length bs - n) bs)"
proof (induction bs arbitrary: n rule: rev_induct)
  case (snoc b bs)
  then show ?case
    by (cases n) (auto simp: Suc_diff_le)
qed simp

text \<open>The events seen by a machine while it works through a list of observations, and whether it
  accepts each of them.\<close>

fun events :: "('s \<Rightarrow> 'o \<Rightarrow> 's) \<Rightarrow> ('s \<Rightarrow> 'o \<Rightarrow> bool) \<Rightarrow> 's \<Rightarrow> 'o list \<Rightarrow> bool list" where
  "events step hit s [] = []"
| "events step hit s (x # xs) = hit s x # events step hit (step s x) xs"

lemma events_append: "events step hit s (xs @ ys) = events step hit s xs @ events step hit (foldl step s xs) ys"
  by (induction xs arbitrary: s) simp_all

lemma length_events [simp]: "length (events step hit s xs) = length xs"
  by (induction xs arbitrary: s) simp_all

text \<open>A relation between each observation of a history and the one before it.\<close>

fun successive :: "('o \<Rightarrow> 'o \<Rightarrow> 'b) \<Rightarrow> 'o \<Rightarrow> 'o list \<Rightarrow> 'b list" where
  "successive R p [] = []"
| "successive R p (x # xs) = R p x # successive R x xs"

lemma successive_snoc: "successive R p (xs @ [x]) = successive R p xs @ [R (last (p # xs)) x]"
  by (induction xs arbitrary: p) simp_all

lemma length_successive [simp]: "length (successive R p xs) = length xs"
  by (induction xs arbitrary: p) simp_all

text \<open>
  The interface of a machine that keeps a saturating count of consecutive events: every accepted
  observation with the event increments it, every other accepted observation clears it.
\<close>

locale run_counter =
  fixes step :: "'s \<Rightarrow> 'o \<Rightarrow> 's" and accepts :: "'s \<Rightarrow> 'o \<Rightarrow> bool" and hit :: "'s \<Rightarrow> 'o \<Rightarrow> bool"
    and count :: "'s \<Rightarrow> u8" and inv :: "'s \<Rightarrow> bool"
  assumes inv_step: "inv s \<Longrightarrow> inv (step s x)"
    and count_step: "inv s \<Longrightarrow> accepts s x \<Longrightarrow> count (step s x) = (if hit s x then sat_inc (count s) else 0)"
begin

lemma inv_run: "inv s \<Longrightarrow> inv (foldl step s xs)"
  by (induction xs rule: rev_induct) (auto intro: inv_step)

lemma count_run:
  "inv s \<Longrightarrow> count s = 0 \<Longrightarrow> list_all id (events step accepts s xs) \<Longrightarrow>
   unat (count (foldl step s xs)) = min 255 (trailing_run (events step hit s xs))"
proof (induction xs rule: rev_induct)
  case (snoc x xs)
  then show ?case by (auto simp: events_append count_step unat_sat_inc inv_run)
qed simp

end

lemma events_map: "events step (\<lambda>s x. h x) s xs = map h xs"
  by (induction xs arbitrary: s) simp_all

end
