(* ===== verification/Topology.thy ===== *)
theory Topology
  imports Prelude
begin

text \<open>
  The Bonanza engine topology (\<open>components/asic/bzm_topology.c\<close>): four ASICs on spaced wire
  addresses, and on each a grid of 20 rows and 12 columns of hashing engines with four holes.
  An engine has several identifiers (coordinate, grid id, physical id, compact topology index,
  index within its voltage stack); the functions here translate between them and define the
  balanced activation order. Rows and columns are the values of the source's \<open>uint8_t\<close>.
\<close>

section \<open>Model\<close>

abbreviation BZM_MAX_ASIC_COUNT :: nat where "BZM_MAX_ASIC_COUNT \<equiv> 4"
abbreviation BZM_TOPOLOGY_ROWS :: nat where "BZM_TOPOLOGY_ROWS \<equiv> 20"
abbreviation BZM_TOPOLOGY_COLUMNS :: nat where "BZM_TOPOLOGY_COLUMNS \<equiv> 12"
abbreviation BZM_TOPOLOGY_GRID_ENGINE_COUNT :: u16 where "BZM_TOPOLOGY_GRID_ENGINE_COUNT \<equiv> 240"
abbreviation BZM_TOPOLOGY_ENGINE_COUNT :: u16 where "BZM_TOPOLOGY_ENGINE_COUNT \<equiv> 236"
abbreviation BZM_TOPOLOGY_STACK_ENGINE_COUNT :: u16 where "BZM_TOPOLOGY_STACK_ENGINE_COUNT \<equiv> 118"
abbreviation BZM_TOPOLOGY_PAIR_COUNT :: u16 where "BZM_TOPOLOGY_PAIR_COUNT \<equiv> 118"
abbreviation BZM_LAST_ASIC_ID :: u8 where "BZM_LAST_ASIC_ID \<equiv> 0x28"

datatype bzm_engine_stack_t = BZM_ENGINE_STACK_BOTTOM | BZM_ENGINE_STACK_TOP | BZM_ENGINE_STACK_COUNT

record bzm_engine_location_t =
  el_row :: nat
  el_column :: nat
  el_stack :: bzm_engine_stack_t
  el_physical_id :: u16
  el_grid_id :: u16
  el_topology_index :: u16
  el_stack_index :: u16

record bzm_engine_pair_t =
  ep_pair_index :: u16
  ep_bottom :: bzm_engine_location_t
  ep_top :: bzm_engine_location_t

definition bzm_asic_wire_ids :: "u8 list" where
  "bzm_asic_wire_ids = [0x0a, 0x14, 0x1e, 0x28]"

definition bzm_topology_asic_id_at :: "nat \<Rightarrow> u8 option" where
  "bzm_topology_asic_id_at logical_index =
     (if logical_index \<ge> BZM_MAX_ASIC_COUNT then None else Some (bzm_asic_wire_ids ! logical_index))"

fun asic_index_loop :: "nat \<Rightarrow> u8 list \<Rightarrow> u8 \<Rightarrow> nat option" where
  "asic_index_loop index [] asic_id = None"
| "asic_index_loop index (w # ws) asic_id =
     (if w = asic_id then Some index else asic_index_loop (Suc index) ws asic_id)"

definition bzm_topology_asic_index :: "u8 \<Rightarrow> nat option" where
  "bzm_topology_asic_index asic_id = asic_index_loop 0 bzm_asic_wire_ids asic_id"

definition stack_is_valid :: "bzm_engine_stack_t \<Rightarrow> bool" where
  "stack_is_valid stack \<longleftrightarrow> stack = BZM_ENGINE_STACK_BOTTOM \<or> stack = BZM_ENGINE_STACK_TOP"

definition stack_for_row :: "nat \<Rightarrow> bzm_engine_stack_t" where
  "stack_for_row row =
     (if row < BZM_TOPOLOGY_ROWS div 2 then BZM_ENGINE_STACK_BOTTOM else BZM_ENGINE_STACK_TOP)"

definition bzm_topology_coordinate_is_valid :: "nat \<Rightarrow> nat \<Rightarrow> bool" where
  "bzm_topology_coordinate_is_valid row column =
     (if row \<ge> BZM_TOPOLOGY_ROWS \<or> column \<ge> BZM_TOPOLOGY_COLUMNS then False
      else \<not> ((row = 0 \<and> (column = 4 \<or> column = 5)) \<or> (row = 19 \<and> (column = 5 \<or> column = 11))))"

text \<open>The nested loops of the source visit the grid column by column.\<close>

definition grid_scan :: "(nat \<times> nat) list" where
  "grid_scan = concat (map (\<lambda>column. map (\<lambda>row. (row, column)) [0..<BZM_TOPOLOGY_ROWS])
                           [0..<BZM_TOPOLOGY_COLUMNS])"

fun locate_loop :: "(nat \<times> nat) list \<Rightarrow> u16 \<Rightarrow> u16 \<Rightarrow> u16 \<Rightarrow> nat \<Rightarrow> nat \<Rightarrow> bzm_engine_location_t option" where
  "locate_loop [] topology_index bottom_index top_index requested_row requested_column = None"
| "locate_loop ((row, column) # rest) topology_index bottom_index top_index requested_row requested_column =
     (if \<not> bzm_topology_coordinate_is_valid row column
      then locate_loop rest topology_index bottom_index top_index requested_row requested_column
      else
        (let stack = stack_for_row row;
             stack_index = (if stack = BZM_ENGINE_STACK_BOTTOM then bottom_index else top_index)
         in if row = requested_row \<and> column = requested_column
            then Some \<lparr> el_row = row, el_column = column, el_stack = stack,
                        el_physical_id = push_bit 6 (of_nat column) OR of_nat row,
                        el_grid_id = of_nat column * of_nat BZM_TOPOLOGY_ROWS + of_nat row,
                        el_topology_index = topology_index, el_stack_index = stack_index \<rparr>
            else if stack = BZM_ENGINE_STACK_BOTTOM
            then locate_loop rest (topology_index + 1) (bottom_index + 1) top_index requested_row requested_column
            else locate_loop rest (topology_index + 1) bottom_index (top_index + 1) requested_row requested_column))"

definition locate_coordinate :: "nat \<Rightarrow> nat \<Rightarrow> bzm_engine_location_t option" where
  "locate_coordinate requested_row requested_column =
     (if \<not> bzm_topology_coordinate_is_valid requested_row requested_column then None
      else locate_loop grid_scan 0 0 0 requested_row requested_column)"

definition bzm_topology_from_coordinate :: "nat \<Rightarrow> nat \<Rightarrow> bzm_engine_location_t option" where
  "bzm_topology_from_coordinate row column = locate_coordinate row column"

definition bzm_topology_from_grid_id :: "u16 \<Rightarrow> bzm_engine_location_t option" where
  "bzm_topology_from_grid_id grid_id =
     (if grid_id \<ge> BZM_TOPOLOGY_GRID_ENGINE_COUNT then None
      else locate_coordinate (unat (grid_id mod of_nat BZM_TOPOLOGY_ROWS))
                             (unat (grid_id div of_nat BZM_TOPOLOGY_ROWS)))"

definition bzm_topology_from_physical_id :: "u16 \<Rightarrow> bzm_engine_location_t option" where
  "bzm_topology_from_physical_id physical_id =
     (let row = unat (physical_id AND 0x3f); column = unat (drop_bit 6 physical_id)
      in if column \<ge> BZM_TOPOLOGY_COLUMNS then None else locate_coordinate row column)"

fun engine_at_loop :: "(nat \<times> nat) list \<Rightarrow> u16 \<Rightarrow> u16 \<Rightarrow> bzm_engine_location_t option" where
  "engine_at_loop [] current topology_index = None"
| "engine_at_loop ((row, column) # rest) current topology_index =
     (if \<not> bzm_topology_coordinate_is_valid row column then engine_at_loop rest current topology_index
      else if current = topology_index then locate_coordinate row column
      else engine_at_loop rest (current + 1) topology_index)"

definition bzm_topology_engine_at :: "u16 \<Rightarrow> bzm_engine_location_t option" where
  "bzm_topology_engine_at topology_index =
     (if topology_index \<ge> BZM_TOPOLOGY_ENGINE_COUNT then None
      else engine_at_loop grid_scan 0 topology_index)"

fun stack_engine_at_loop ::
    "(nat \<times> nat) list \<Rightarrow> u16 \<Rightarrow> bzm_engine_stack_t \<Rightarrow> u16 \<Rightarrow> bzm_engine_location_t option" where
  "stack_engine_at_loop [] current stack stack_index = None"
| "stack_engine_at_loop ((row, column) # rest) current stack stack_index =
     (if \<not> bzm_topology_coordinate_is_valid row column \<or> stack_for_row row \<noteq> stack
      then stack_engine_at_loop rest current stack stack_index
      else if current = stack_index then locate_coordinate row column
      else stack_engine_at_loop rest (current + 1) stack stack_index)"

definition bzm_topology_stack_engine_at :: "bzm_engine_stack_t \<Rightarrow> u16 \<Rightarrow> bzm_engine_location_t option" where
  "bzm_topology_stack_engine_at stack stack_index =
     (if \<not> stack_is_valid stack \<or> stack_index \<ge> BZM_TOPOLOGY_STACK_ENGINE_COUNT then None
      else stack_engine_at_loop grid_scan 0 stack stack_index)"

definition bzm_topology_balanced_pair_at :: "u16 \<Rightarrow> bzm_engine_pair_t option" where
  "bzm_topology_balanced_pair_at pair_index =
     (if pair_index \<ge> BZM_TOPOLOGY_PAIR_COUNT then None
      else case bzm_topology_stack_engine_at BZM_ENGINE_STACK_BOTTOM pair_index of
             None \<Rightarrow> None
           | Some bottom_e \<Rightarrow>
               (case bzm_topology_stack_engine_at BZM_ENGINE_STACK_TOP pair_index of
                  None \<Rightarrow> None
                | Some top_e \<Rightarrow> Some \<lparr> ep_pair_index = pair_index, ep_bottom = bottom_e, ep_top = top_e \<rparr>))"

definition bzm_topology_activation_at :: "u16 \<Rightarrow> bzm_engine_stack_t \<Rightarrow> bzm_engine_location_t option" where
  "bzm_topology_activation_at activation_index first_stack =
     (if \<not> stack_is_valid first_stack \<or> activation_index \<ge> BZM_TOPOLOGY_ENGINE_COUNT then None
      else
        (let pair_index = activation_index div 2;
             second_member = (activation_index mod 2 \<noteq> 0);
             stack = (if second_member
                      then if first_stack = BZM_ENGINE_STACK_BOTTOM then BZM_ENGINE_STACK_TOP
                           else BZM_ENGINE_STACK_BOTTOM
                      else first_stack)
         in bzm_topology_stack_engine_at stack pair_index))"

section \<open>Wire addresses\<close>

lemma asic_index_Some_iff:
  "bzm_topology_asic_index asic_id = Some i \<longleftrightarrow> i < BZM_MAX_ASIC_COUNT \<and> bzm_asic_wire_ids ! i = asic_id"
  by (auto simp: bzm_topology_asic_index_def bzm_asic_wire_ids_def nth_Cons' split: if_splits)

lemma asic_index_lt: "bzm_topology_asic_index asic_id = Some i \<Longrightarrow> i < 4"
  by (simp add: asic_index_Some_iff)

lemma asic_index_wire_id:
  "i < BZM_MAX_ASIC_COUNT \<Longrightarrow> bzm_topology_asic_index (bzm_asic_wire_ids ! i) = Some i"
  by (simp add: asic_index_Some_iff)

section \<open>Closed forms of the scanning loops\<close>

text \<open>
  The scanning loops enumerate the usable coordinates in scan order; \<open>usable\<close> is that list,
  and \<open>usable_in stack\<close> its part in one voltage stack.
\<close>

definition usable :: "(nat \<times> nat) list" where
  "usable = filter (\<lambda>(row, column). bzm_topology_coordinate_is_valid row column) grid_scan"

definition usable_in :: "bzm_engine_stack_t \<Rightarrow> (nat \<times> nat) list" where
  "usable_in stack = filter (\<lambda>(row, column). stack_for_row row = stack) usable"

definition location_of :: "nat \<times> nat \<Rightarrow> nat \<Rightarrow> nat \<Rightarrow> bzm_engine_location_t" where
  "location_of rc i j = \<lparr> el_row = fst rc, el_column = snd rc, el_stack = stack_for_row (fst rc),
     el_physical_id = push_bit 6 (of_nat (snd rc)) OR of_nat (fst rc),
     el_grid_id = of_nat (snd rc) * of_nat BZM_TOPOLOGY_ROWS + of_nat (fst rc),
     el_topology_index = of_nat i, el_stack_index = of_nat j \<rparr>"

lemma set_grid_scan: "(row, column) \<in> set grid_scan \<longleftrightarrow> row < 20 \<and> column < 12"
  by (force simp: grid_scan_def)

lemma scan_ranges:
  "[0..<BZM_TOPOLOGY_ROWS] = [0, 1, 2, 3, 4, 5, 6, 7, 8, 9, 10, 11, 12, 13, 14, 15, 16, 17, 18, 19]"
  "[0..<BZM_TOPOLOGY_COLUMNS] = [0, 1, 2, 3, 4, 5, 6, 7, 8, 9, 10, 11]"
  by code_simp+

lemma distinct_grid_scan: "distinct grid_scan"
  by (auto simp: grid_scan_def distinct_map inj_on_def intro!: distinct_concat) (metis zero_less_numeral)

lemma set_usable: "(row, column) \<in> set usable \<longleftrightarrow> bzm_topology_coordinate_is_valid row column"
  by (auto simp: usable_def set_grid_scan bzm_topology_coordinate_is_valid_def split: if_splits)

lemma distinct_usable: "distinct usable"
  by (simp add: usable_def distinct_grid_scan)

lemma length_usable: "length usable = 236"
  by (simp add: usable_def grid_scan_def bzm_topology_coordinate_is_valid_def scan_ranges)

lemma length_usable_in:
  "stack_is_valid stack \<Longrightarrow> length (usable_in stack) = 118"
  by (auto simp: stack_is_valid_def usable_in_def usable_def grid_scan_def
      bzm_topology_coordinate_is_valid_def stack_for_row_def scan_ranges)

lemma locate_loop_before:
  assumes "(r, c) \<notin> set xs"
  shows "locate_loop (xs @ rest) t b u r c =
    locate_loop rest
      (t + of_nat (length (filter (\<lambda>(r, c). bzm_topology_coordinate_is_valid r c) xs)))
      (b + of_nat (length (filter (\<lambda>(r, c). bzm_topology_coordinate_is_valid r c \<and> stack_for_row r = BZM_ENGINE_STACK_BOTTOM) xs)))
      (u + of_nat (length (filter (\<lambda>(r, c). bzm_topology_coordinate_is_valid r c \<and> stack_for_row r = BZM_ENGINE_STACK_TOP) xs)))
      r c"
  using assms
proof (induction xs arbitrary: t b u)
  case Nil
  then show ?case by simp
next
  case (Cons x xs)
  obtain r' c' where x: "x = (r', c')" by (cases x)
  with Cons.prems have ne: "\<not> (r' = r \<and> c' = c)" by auto
  have "stack_for_row r' = BZM_ENGINE_STACK_BOTTOM \<or> stack_for_row r' = BZM_ENGINE_STACK_TOP"
    by (simp add: stack_for_row_def)
  with Cons ne show ?case by (auto simp: x Let_def algebra_simps)
qed

lemma locate_usable:
  assumes "(r, c) \<in> set usable"
  shows "\<exists>i j. i < length usable \<and> usable ! i = (r, c) \<and>
           j < length (usable_in (stack_for_row r)) \<and> usable_in (stack_for_row r) ! j = (r, c) \<and>
           locate_coordinate r c = Some (location_of (r, c) i j)"
proof -
  let ?v = "\<lambda>(r, c). bzm_topology_coordinate_is_valid r c"
  from assms have valid: "bzm_topology_coordinate_is_valid r c" and mem: "(r, c) \<in> set grid_scan"
    by (auto simp: usable_def)
  from split_list_first[OF mem] obtain xs ys
    where split: "grid_scan = xs @ (r, c) # ys" and notin: "(r, c) \<notin> set xs" by blast
  define i where "i = length (filter ?v xs)"
  define j where "j = length (filter (\<lambda>(r', c'). stack_for_row r' = stack_for_row r) (filter ?v xs))"
  have u: "usable = filter ?v xs @ (r, c) # filter ?v ys" using valid by (simp add: usable_def split)
  have si: "usable_in (stack_for_row r) =
      filter (\<lambda>(r', c'). stack_for_row r' = stack_for_row r) (filter ?v xs) @ (r, c) #
      filter (\<lambda>(r', c'). stack_for_row r' = stack_for_row r) (filter ?v ys)"
    by (simp add: usable_in_def u)
  have j': "length (filter (\<lambda>(r', c'). bzm_topology_coordinate_is_valid r' c' \<and> stack_for_row r' = stack_for_row r) xs) = j"
    unfolding j_def filter_filter by (rule arg_cong[of _ _ length], rule filter_cong) auto
  have "stack_for_row r = BZM_ENGINE_STACK_BOTTOM \<or> stack_for_row r = BZM_ENGINE_STACK_TOP"
    by (simp add: stack_for_row_def)
  then have loc: "locate_coordinate r c = Some (location_of (r, c) i j)"
    using valid j'
    by (auto simp: locate_coordinate_def split locate_loop_before[OF notin] Let_def location_of_def i_def)
  have "i < length usable \<and> usable ! i = (r, c)" by (simp add: u i_def nth_append)
  moreover have "j < length (usable_in (stack_for_row r)) \<and> usable_in (stack_for_row r) ! j = (r, c)"
    by (simp add: si j_def nth_append)
  ultimately show ?thesis using loc by blast
qed

lemma locate_None: "(r, c) \<notin> set usable \<Longrightarrow> locate_coordinate r c = None"
  by (simp add: set_usable locate_coordinate_def)

lemma engine_at_loop_nth:
  assumes "n + length xs < 2 ^ 16" and "k < 2 ^ 16"
  shows "engine_at_loop xs (of_nat n) (of_nat k) =
    (let ys = filter (\<lambda>(r, c). bzm_topology_coordinate_is_valid r c) xs
     in if n \<le> k \<and> k - n < length ys then case ys ! (k - n) of (r, c) \<Rightarrow> locate_coordinate r c else None)"
  using assms
proof (induction xs arbitrary: n)
  case Nil
  then show ?case by simp
next
  case (Cons x xs)
  obtain r c where x: "x = (r, c)" by (cases x)
  have eq: "(of_nat n :: u16) = of_nat k \<longleftrightarrow> n = k"
    using Cons.prems by (auto simp: of_nat_eq_iff take_bit_eq_mod word_unat_eq_iff unat_of_nat)
  have IH1: "engine_at_loop xs (of_nat n) (of_nat k) = (let ys = filter (\<lambda>(r, c). bzm_topology_coordinate_is_valid r c) xs
     in if n \<le> k \<and> k - n < length ys then case ys ! (k - n) of (r, c) \<Rightarrow> locate_coordinate r c else None)"
    using Cons by simp
  have IH2: "engine_at_loop xs (of_nat n + 1) (of_nat k) = (let ys = filter (\<lambda>(r, c). bzm_topology_coordinate_is_valid r c) xs
     in if Suc n \<le> k \<and> k - Suc n < length ys then case ys ! (k - Suc n) of (r, c) \<Rightarrow> locate_coordinate r c else None)"
    using Cons.IH[of "Suc n"] Cons.prems by (simp add: add.commute)
  show ?case
    using IH1 IH2 by (cases "n = k") (auto simp: x eq Let_def nth_Cons' Suc_diff_le)
qed

lemma stack_engine_at_loop_nth:
  assumes "n + length xs < 2 ^ 16" and "k < 2 ^ 16"
  shows "stack_engine_at_loop xs (of_nat n) st (of_nat k) =
    (let ys = filter (\<lambda>(r, c). bzm_topology_coordinate_is_valid r c \<and> stack_for_row r = st) xs
     in if n \<le> k \<and> k - n < length ys then case ys ! (k - n) of (r, c) \<Rightarrow> locate_coordinate r c else None)"
  using assms
proof (induction xs arbitrary: n)
  case Nil
  then show ?case by simp
next
  case (Cons x xs)
  obtain r c where x: "x = (r, c)" by (cases x)
  have eq: "(of_nat n :: u16) = of_nat k \<longleftrightarrow> n = k"
    using Cons.prems by (auto simp: word_unat_eq_iff unat_of_nat)
  note IH1 = Cons.IH[of n] and IH2 = Cons.IH[of "Suc n"]
  show ?case
    using IH1 IH2 Cons.prems by (cases "n = k") (auto simp: x eq Let_def nth_Cons' Suc_diff_le add.commute)
qed

lemma usable_in_filter:
  "usable_in st = filter (\<lambda>(r, c). bzm_topology_coordinate_is_valid r c \<and> stack_for_row r = st) grid_scan"
  unfolding usable_in_def usable_def filter_filter by (rule filter_cong) auto

lemma length_grid_scan: "length grid_scan = 240"
  by (simp add: grid_scan_def length_concat o_def sum_list_triv)

lemma engine_at_nth:
  "i < 236 \<Longrightarrow> bzm_topology_engine_at (of_nat i) = (case usable ! i of (r, c) \<Rightarrow> locate_coordinate r c)"
  using engine_at_loop_nth[of 0 grid_scan i]
  by (simp add: bzm_topology_engine_at_def Let_def length_grid_scan length_usable
      word_le_nat_alt unat_of_nat flip: usable_def)

lemma stack_engine_at_nth:
  "stack_is_valid st \<Longrightarrow> j < 118 \<Longrightarrow>
     bzm_topology_stack_engine_at st (of_nat j) = (case usable_in st ! j of (r, c) \<Rightarrow> locate_coordinate r c)"
  using stack_engine_at_loop_nth[of 0 grid_scan j st] length_usable_in[of st]
  by (simp add: bzm_topology_stack_engine_at_def Let_def length_grid_scan
      word_le_nat_alt unat_of_nat flip: usable_in_filter)

lemma id_decoding:
  "list_all (\<lambda>(r, c).
      unat ((push_bit 6 (of_nat c) OR of_nat r :: u16) AND 0x3f) = r \<and>
      unat (drop_bit 6 (push_bit 6 (of_nat c) OR of_nat r :: u16)) = c \<and>
      of_nat c * of_nat BZM_TOPOLOGY_ROWS + of_nat r < BZM_TOPOLOGY_GRID_ENGINE_COUNT \<and>
      unat ((of_nat c * of_nat BZM_TOPOLOGY_ROWS + of_nat r :: u16) mod of_nat BZM_TOPOLOGY_ROWS) = r \<and>
      unat ((of_nat c * of_nat BZM_TOPOLOGY_ROWS + of_nat r :: u16) div of_nat BZM_TOPOLOGY_ROWS) = c) grid_scan"
  unfolding grid_scan_def by code_simp

lemma decode_physical_id:
  assumes "row < 20" and "column < 12"
  shows "bzm_topology_from_physical_id (push_bit 6 (of_nat column) OR of_nat row) = locate_coordinate row column"
  using id_decoding assms set_grid_scan[of row column]
  by (auto simp: list_all_iff bzm_topology_from_physical_id_def Let_def)

lemma decode_grid_id:
  assumes "row < 20" and "column < 12"
  shows "bzm_topology_from_grid_id (of_nat column * 20 + of_nat row) = locate_coordinate row column"
  using id_decoding assms set_grid_scan[of row column]
  by (auto simp: list_all_iff bzm_topology_from_grid_id_def Let_def simp flip: not_less)

lemma usable_coordinates: "(row, column) \<in> set usable \<Longrightarrow> row < 20 \<and> column < 12"
  by (auto simp: set_usable bzm_topology_coordinate_is_valid_def split: if_splits)

section \<open>Properties\<close>

lemma usable_location:
  assumes "i < 236" and rc: "usable ! i = (r, c)"
  shows "\<exists>j<118. locate_coordinate r c = Some (location_of (r, c) i j) \<and>
           usable_in (stack_for_row r) ! j = (r, c)"
proof -
  from assms have "(r, c) \<in> set usable" by (metis length_usable nth_mem)
  from locate_usable[OF this] obtain i' j where
    i': "i' < length usable" "usable ! i' = (r, c)" and
    j: "j < length (usable_in (stack_for_row r))" "usable_in (stack_for_row r) ! j = (r, c)" and
    loc: "locate_coordinate r c = Some (location_of (r, c) i' j)" by blast
  have "i' = i" using i' assms nth_eq_iff_index_eq[OF distinct_usable, of i' i] by (simp add: length_usable)
  moreover have "stack_is_valid (stack_for_row r)" by (simp add: stack_is_valid_def stack_for_row_def)
  ultimately show ?thesis using loc j length_usable_in by fastforce
qed

text \<open>C31. Every topology index below 236 names an engine, and all of that engine's identifiers
  (coordinate, grid id, physical id, and stack with index inside the stack) lead back to it.\<close>

theorem engine_identifiers_roundtrip:
  assumes "i < BZM_TOPOLOGY_ENGINE_COUNT"
  shows "\<exists>e. bzm_topology_engine_at i = Some e \<and> el_topology_index e = i \<and>
    bzm_topology_from_coordinate (el_row e) (el_column e) = Some e \<and>
    bzm_topology_from_grid_id (el_grid_id e) = Some e \<and>
    bzm_topology_from_physical_id (el_physical_id e) = Some e \<and>
    bzm_topology_stack_engine_at (el_stack e) (el_stack_index e) = Some e"
proof -
  define n where "n = unat i"
  have n: "n < 236" "i = of_nat n" using assms by (auto simp: n_def word_less_nat_alt)
  obtain r c where rc: "usable ! n = (r, c)" by (cases "usable ! n")
  from usable_location[OF n(1) rc] obtain j where j: "j < 118"
    and loc: "locate_coordinate r c = Some (location_of (r, c) n j)"
    and uj: "usable_in (stack_for_row r) ! j = (r, c)" by blast
  have "row < 20 \<and> column < 12" if "(row, column) = (r, c)" for row column
    using usable_coordinates[of r c] rc n(1) that by (metis length_usable nth_mem prod.inject)
  then have "r < 20" "c < 12" by auto
  moreover have "stack_is_valid (stack_for_row r)" by (simp add: stack_is_valid_def stack_for_row_def)
  ultimately show ?thesis
    using n rc loc j uj
    by (simp add: engine_at_nth location_of_def bzm_topology_from_coordinate_def decode_grid_id
        decode_physical_id stack_engine_at_nth)
qed

theorem engine_identifiers_roundtrip_witness:
  "\<exists>e. bzm_topology_engine_at 17 = Some e \<and> el_topology_index e = 17 \<and>
    bzm_topology_from_physical_id (el_physical_id e) = Some e"
  using engine_identifiers_roundtrip[of 17] by auto

definition activation_stack :: "bzm_engine_stack_t \<Rightarrow> nat \<Rightarrow> bzm_engine_stack_t" where
  "activation_stack first_stack i =
     (if even i then first_stack
      else if first_stack = BZM_ENGINE_STACK_BOTTOM then BZM_ENGINE_STACK_TOP else BZM_ENGINE_STACK_BOTTOM)"

lemma activation_stack_valid: "stack_is_valid st \<Longrightarrow> stack_is_valid (activation_stack st i)"
  by (auto simp: activation_stack_def stack_is_valid_def)

lemma stack_engine_at_Some:
  assumes "stack_is_valid st" and "j < 118"
  shows "\<exists>e. bzm_topology_stack_engine_at st (of_nat j) = Some e \<and> el_stack e = st \<and>
             el_stack_index e = of_nat j \<and> (el_row e, el_column e) = usable_in st ! j"
proof -
  obtain r c where rc: "usable_in st ! j = (r, c)" by (cases "usable_in st ! j")
  have "usable_in st ! j \<in> set (usable_in st)" using assms by (simp add: length_usable_in)
  with rc have mem: "(r, c) \<in> set usable" and st: "stack_for_row r = st" by (auto simp: usable_in_def)
  from locate_usable[OF mem] obtain i j' where j': "j' < length (usable_in st)" "usable_in st ! j' = (r, c)"
    and loc: "locate_coordinate r c = Some (location_of (r, c) i j')" using st by blast
  have "distinct (usable_in st)" by (simp add: usable_in_def distinct_usable)
  then have "j' = j" using j' rc assms nth_eq_iff_index_eq[of "usable_in st" j' j]
    by (simp add: length_usable_in)
  with loc rc st assms show ?thesis by (simp add: stack_engine_at_nth location_of_def)
qed

lemma activation_Some:
  assumes "stack_is_valid st" and "i < 236"
  shows "\<exists>e. bzm_topology_activation_at (of_nat i) st = Some e \<and> el_stack e = activation_stack st i \<and>
             (el_row e, el_column e) = usable_in (activation_stack st i) ! (i div 2)"
proof -
  have "(of_nat i :: u16) div 2 = of_nat (i div 2)" and "(of_nat i :: u16) mod 2 \<noteq> 0 \<longleftrightarrow> odd i"
    and "\<not> BZM_TOPOLOGY_ENGINE_COUNT \<le> of_nat i"
    using assms(2)
    by (auto simp: word_unat_eq_iff unat_div unat_mod unat_of_nat word_le_nat_alt odd_iff_mod_2_eq_one)
  then have "bzm_topology_activation_at (of_nat i) st =
      bzm_topology_stack_engine_at (activation_stack st i) (of_nat (i div 2))"
    using assms(1) by (simp add: bzm_topology_activation_at_def Let_def activation_stack_def)
  moreover have "i div 2 < 118" using assms(2) by simp
  ultimately show ?thesis
    using stack_engine_at_Some[OF activation_stack_valid[OF assms(1), of i], of "i div 2"] by auto
qed

lemma activation_inj:
  assumes st: "stack_is_valid st" and "i < 236" "k < 236"
    and eq: "bzm_topology_activation_at (of_nat i) st = bzm_topology_activation_at (of_nat k) st"
  shows "i = k"
proof -
  let ?st = "activation_stack st"
  from activation_Some[OF st assms(2)] activation_Some[OF st assms(3)] eq
  have same: "?st i = ?st k" and us: "usable_in (?st i) ! (i div 2) = usable_in (?st i) ! (k div 2)" by auto
  have "distinct (usable_in (?st i))" by (simp add: usable_in_def distinct_usable)
  then have "i div 2 = k div 2"
    using us assms length_usable_in[OF activation_stack_valid[OF st, of i]]
      nth_eq_iff_index_eq[of "usable_in (?st i)" "i div 2" "k div 2"] by auto
  moreover have "even i \<longleftrightarrow> even k"
    using same st by (auto simp: activation_stack_def stack_is_valid_def split: if_splits)
  ultimately show ?thesis by presburger
qed

text \<open>A located engine is found again under its physical id, and its index determines it.\<close>

lemma located:
  assumes "locate_coordinate r c = Some e"
  shows "unat (el_topology_index e) < 236" "usable ! unat (el_topology_index e) = (r, c)"
    "bzm_topology_from_physical_id (el_physical_id e) = Some e"
proof -
  have mem: "(r, c) \<in> set usable" using assms locate_None[of r c] by fastforce
  from locate_usable[OF mem] obtain i j where i: "i < 236" "usable ! i = (r, c)"
    and e: "e = location_of (r, c) i j" using assms by (auto simp: length_usable)
  then show "unat (el_topology_index e) < 236" "usable ! unat (el_topology_index e) = (r, c)"
    by (simp_all add: location_of_def unat_of_nat)
  show "bzm_topology_from_physical_id (el_physical_id e) = Some e"
    using assms usable_coordinates[OF mem] by (simp add: e location_of_def decode_physical_id)
qed

lemma activation_located:
  assumes "stack_is_valid st" "i < 236"
  obtains e r c where "bzm_topology_activation_at (of_nat i) st = Some e" "locate_coordinate r c = Some e"
proof -
  obtain e where e: "bzm_topology_activation_at (of_nat i) st = Some e" using activation_Some[OF assms] by blast
  then obtain k stack where k: "bzm_topology_stack_engine_at stack k = Some e"
    by (auto simp: bzm_topology_activation_at_def Let_def split: if_splits)
  then have "stack_is_valid stack" "unat k < 118" "k = of_nat (unat k)"
    by (auto simp: bzm_topology_stack_engine_at_def word_le_nat_alt split: if_splits)
  then have "(case usable_in stack ! unat k of (r, c) \<Rightarrow> locate_coordinate r c) = Some e"
    using stack_engine_at_nth[of stack "unat k"] k by simp
  then show thesis using that e by (cases "usable_in stack ! unat k") auto
qed

lemma length_filter_even: "length (filter even [0..<n]) = (n + 1) div 2"
  by (induction n) auto

lemma length_filter_odd: "length (filter odd [0..<n]) = n div 2"
  by (induction n) (auto elim: oddE)

text \<open>C30. The activation order is balanced: for either starting stack every prefix of it consists
  of existing, pairwise distinct engines, and the numbers of active engines of the two voltage
  stacks differ by at most one.\<close>

theorem activation_prefix_balanced:
  assumes "stack_is_valid first_stack" and "n \<le> 236"
  shows "let order = map (\<lambda>i. bzm_topology_activation_at (of_nat i) first_stack) [0..<n];
             engines = map the order;
             count = (\<lambda>st. int (length (filter (\<lambda>e. el_stack e = st) engines)))
         in None \<notin> set order \<and> distinct engines \<and>
            \<bar>count BZM_ENGINE_STACK_BOTTOM - count BZM_ENGINE_STACK_TOP\<bar> \<le> 1"
proof -
  let ?act = "\<lambda>i. bzm_topology_activation_at (of_nat i) first_stack"
  let ?st = "activation_stack first_stack"
  let ?es = "map (the \<circ> ?act) [0..<n]"
  have act: "?act i \<noteq> None \<and> el_stack (the (?act i)) = ?st i \<and>
      (el_row (the (?act i)), el_column (the (?act i))) = usable_in (?st i) ! (i div 2)" if "i < n" for i
    using activation_Some[OF assms(1), of i] that assms(2) by fastforce
  have "distinct ?es"
  proof (rule distinct_map[THEN iffD2], intro conjI inj_onI)
    fix i k
    assume "i \<in> set [0..<n]" "k \<in> set [0..<n]" and eq: "(the \<circ> ?act) i = (the \<circ> ?act) k"
    then have lt: "i < n" "k < n" by auto
    with eq act[of i] act[of k] have "?act i = ?act k" by (metis comp_apply option.expand)
    then show "i = k" using activation_inj[OF assms(1)] lt assms(2) by simp
  qed simp
  moreover have count: "length (filter (\<lambda>e. el_stack e = st) ?es) = length (filter (\<lambda>i. ?st i = st) [0..<n])" for st
    unfolding filter_map length_map o_def
    by (rule arg_cong[of _ _ length], rule filter_cong) (use act in auto)
  have "\<bar>int (length (filter (\<lambda>i. ?st i = BZM_ENGINE_STACK_BOTTOM) [0..<n])) -
         int (length (filter (\<lambda>i. ?st i = BZM_ENGINE_STACK_TOP) [0..<n]))\<bar> \<le> 1"
    using assms(1) length_filter_even[of n] length_filter_odd[of n]
    by (auto simp: activation_stack_def stack_is_valid_def)
  moreover have "None \<notin> set (map ?act [0..<n])"
  proof
    assume "None \<in> set (map ?act [0..<n])"
    then obtain i where "i < n" "None = ?act i" by auto
    with act[of i] show False by simp
  qed
  ultimately show ?thesis unfolding Let_def map_map count by blast
qed

theorem activation_prefix_balanced_witness:
  "let order = map (\<lambda>i. bzm_topology_activation_at (of_nat i) BZM_ENGINE_STACK_TOP) [0..<3];
       engines = map the order;
       count = (\<lambda>st. int (length (filter (\<lambda>e. el_stack e = st) engines)))
   in None \<notin> set order \<and> distinct engines \<and>
      \<bar>count BZM_ENGINE_STACK_BOTTOM - count BZM_ENGINE_STACK_TOP\<bar> \<le> 1"
  using activation_prefix_balanced[of BZM_ENGINE_STACK_TOP 3] by (simp add: stack_is_valid_def)

end
