(* ===== verification/FrameParser.thy ===== *)
theory FrameParser
  imports Topology
begin

text \<open>
  The TDM frame parser (\<open>components/asic/bzm_frame_parser.c\<close>). It reassembles frames from the
  UART byte stream of the four ASICs, resynchronises byte by byte after corruption and keeps a
  ring of the most recently discarded bytes. The source's fixed buffer with its fill count is
  the list of buffered bytes; calls of the frame handler are the list of frames an operation
  returns, in call order. The number the source's operations return is the length of that list.
\<close>

section \<open>Model\<close>

abbreviation BZM_TDM_BROADCAST_ASIC_ID :: u8 where "BZM_TDM_BROADCAST_ASIC_ID \<equiv> 0xfa"
abbreviation BZM_TDM_HEADER_SIZE :: nat where "BZM_TDM_HEADER_SIZE \<equiv> 2"
abbreviation BZM_RESULT_FRAME_SIZE :: nat where "BZM_RESULT_FRAME_SIZE \<equiv> 8"
abbreviation BZM_TDM_TELEMETRY_PAYLOAD_SIZE :: nat where "BZM_TDM_TELEMETRY_PAYLOAD_SIZE \<equiv> 8"
abbreviation BZM_TDM_NOOP_PAYLOAD_SIZE :: nat where "BZM_TDM_NOOP_PAYLOAD_SIZE \<equiv> 3"
abbreviation BZM_TDM_MAX_REGISTER_PAYLOAD_SIZE :: nat where "BZM_TDM_MAX_REGISTER_PAYLOAD_SIZE \<equiv> 32"
abbreviation BZM_TDM_MAX_FRAME_SIZE :: nat where "BZM_TDM_MAX_FRAME_SIZE \<equiv> 34"
abbreviation BZM_FRAME_PARSER_DISCARD_TRACE_SIZE :: nat where "BZM_FRAME_PARSER_DISCARD_TRACE_SIZE \<equiv> 16"

datatype bzm_frame_type_t = BZM_FRAME_RESULT | BZM_FRAME_REGISTER | BZM_FRAME_TELEMETRY | BZM_FRAME_NOOP

definition frame_type_code :: "bzm_frame_type_t \<Rightarrow> u8" where
  "frame_type_code t = (case t of BZM_FRAME_RESULT \<Rightarrow> 0x01 | BZM_FRAME_REGISTER \<Rightarrow> 0x03
     | BZM_FRAME_TELEMETRY \<Rightarrow> 0x0d | BZM_FRAME_NOOP \<Rightarrow> 0x0f)"

definition frame_type_of :: "u8 \<Rightarrow> bzm_frame_type_t option" where
  "frame_type_of b = (if b = 0x01 then Some BZM_FRAME_RESULT else if b = 0x03 then Some BZM_FRAME_REGISTER
     else if b = 0x0d then Some BZM_FRAME_TELEMETRY else if b = 0x0f then Some BZM_FRAME_NOOP else None)"

record bzm_frame_t =
  fr_type :: bzm_frame_type_t
  fr_asic_id :: u8
  fr_payload :: "u8 list"
  fr_timestamp_us :: u64

record bzm_frame_parser_t =
  fp_buffer :: "u8 list"
  fp_expected_register_length :: "u8 list"
  fp_emitted_frames :: u32
  fp_discarded_bytes :: u32
  fp_emitted_frames_at_last_discard :: u32
  fp_unexpected_register_headers :: u32
  fp_discard_trace :: "u8 list"
  fp_discard_trace_next :: nat
  fp_discard_trace_length :: nat

definition valid_wire_asic_id :: "u8 \<Rightarrow> bool" where
  "valid_wire_asic_id asic_id \<longleftrightarrow> bzm_topology_asic_index asic_id \<noteq> None \<or> asic_id = BZM_TDM_BROADCAST_ASIC_ID"

definition bzm_frame_parser_init :: bzm_frame_parser_t where
  "bzm_frame_parser_init = \<lparr> fp_buffer = [], fp_expected_register_length = replicate BZM_MAX_ASIC_COUNT 0,
     fp_emitted_frames = 0, fp_discarded_bytes = 0, fp_emitted_frames_at_last_discard = 0,
     fp_unexpected_register_headers = 0,
     fp_discard_trace = replicate BZM_FRAME_PARSER_DISCARD_TRACE_SIZE 0,
     fp_discard_trace_next = 0, fp_discard_trace_length = 0 \<rparr>"

definition bzm_frame_parser_expect_register ::
    "bzm_frame_parser_t \<Rightarrow> u8 \<Rightarrow> nat \<Rightarrow> bool \<times> bzm_frame_parser_t" where
  "bzm_frame_parser_expect_register p asic_id payload_length =
     (case bzm_topology_asic_index asic_id of
        None \<Rightarrow> (False, p)
      | Some index \<Rightarrow>
          if payload_length = 0 \<or> payload_length > BZM_TDM_MAX_REGISTER_PAYLOAD_SIZE
             \<or> fp_expected_register_length p ! index \<noteq> 0
          then (False, p)
          else (True, p\<lparr> fp_expected_register_length :=
                         (fp_expected_register_length p)[index := of_nat payload_length] \<rparr>))"

definition bzm_frame_parser_cancel_register :: "bzm_frame_parser_t \<Rightarrow> u8 \<Rightarrow> bool \<times> bzm_frame_parser_t" where
  "bzm_frame_parser_cancel_register p asic_id =
     (case bzm_topology_asic_index asic_id of
        None \<Rightarrow> (False, p)
      | Some index \<Rightarrow>
          if fp_expected_register_length p ! index = 0 then (False, p)
          else (True, p\<lparr> fp_expected_register_length := (fp_expected_register_length p)[index := 0] \<rparr>))"

definition discard_prefix :: "nat \<Rightarrow> bzm_frame_parser_t \<Rightarrow> bzm_frame_parser_t" where
  "discard_prefix count p = p\<lparr> fp_buffer := drop count (fp_buffer p) \<rparr>"

definition record_discard :: "u8 \<Rightarrow> bzm_frame_parser_t \<Rightarrow> bzm_frame_parser_t" where
  "record_discard val p = p\<lparr>
     fp_emitted_frames_at_last_discard := fp_emitted_frames p,
     fp_discard_trace := (fp_discard_trace p)[fp_discard_trace_next p := val],
     fp_discard_trace_next := (fp_discard_trace_next p + 1) mod BZM_FRAME_PARSER_DISCARD_TRACE_SIZE,
     fp_discard_trace_length :=
       (if fp_discard_trace_length p < BZM_FRAME_PARSER_DISCARD_TRACE_SIZE
        then fp_discard_trace_length p + 1 else fp_discard_trace_length p) \<rparr>"

text \<open>The frame length announced by the buffered header; \<open>None\<close> is an invalid header. The
  parser is returned too because rejected register headers are counted.\<close>

definition expected_frame_length :: "bzm_frame_parser_t \<Rightarrow> nat option \<times> bzm_frame_parser_t" where
  "expected_frame_length p =
     (if length (fp_buffer p) < BZM_TDM_HEADER_SIZE then (None, p)
      else
        (let addressed_asic = bzm_topology_asic_index (fp_buffer p ! 0);
             unexpected = p\<lparr> fp_unexpected_register_headers := fp_unexpected_register_headers p + 1 \<rparr>
         in if \<not> valid_wire_asic_id (fp_buffer p ! 0) then (None, p)
            else case frame_type_of (fp_buffer p ! 1) of
                   None \<Rightarrow> (None, p)
                 | Some BZM_FRAME_RESULT \<Rightarrow> (Some (BZM_TDM_HEADER_SIZE + BZM_RESULT_FRAME_SIZE), p)
                 | Some BZM_FRAME_REGISTER \<Rightarrow>
                     (case addressed_asic of
                        None \<Rightarrow> (None, unexpected)
                      | Some index \<Rightarrow>
                          if fp_expected_register_length p ! index = 0 then (None, unexpected)
                          else (Some (BZM_TDM_HEADER_SIZE + unat (fp_expected_register_length p ! index)), p))
                 | Some BZM_FRAME_TELEMETRY \<Rightarrow> (Some (BZM_TDM_HEADER_SIZE + BZM_TDM_TELEMETRY_PAYLOAD_SIZE), p)
                 | Some BZM_FRAME_NOOP \<Rightarrow> (Some (BZM_TDM_HEADER_SIZE + BZM_TDM_NOOP_PAYLOAD_SIZE), p)))"

definition discard_first :: "bzm_frame_parser_t \<Rightarrow> bzm_frame_parser_t" where
  "discard_first p =
     (let q = discard_prefix 1 (record_discard (fp_buffer p ! 0) p)
      in q\<lparr> fp_discarded_bytes := fp_discarded_bytes q + 1 \<rparr>)"

definition emit :: "bzm_frame_parser_t \<Rightarrow> bzm_frame_parser_t" where
  "emit p = p\<lparr> fp_emitted_frames := fp_emitted_frames p + 1 \<rparr>"

lemma expected_frame_length_shape:
  "expected_frame_length p = (r, q) \<Longrightarrow>
     fp_buffer q = fp_buffer p \<and> (\<forall>n. r = Some n \<longrightarrow> q = p \<and> 2 < n \<and> 2 \<le> length (fp_buffer p))"
  by (auto simp: expected_frame_length_def Let_def unat_gt_0
      split: if_splits option.splits bzm_frame_type_t.splits)

lemma expected_frame_length_buffer:
  "expected_frame_length p = (r, q) \<Longrightarrow> fp_buffer q = fp_buffer p"
  by (drule expected_frame_length_shape) simp

lemma expected_frame_length_Some:
  "expected_frame_length p = (Some n, q) \<Longrightarrow> q = p \<and> 2 < n \<and> 2 \<le> length (fp_buffer p)"
  by (drule expected_frame_length_shape) simp

function parse_buffer :: "bzm_frame_parser_t \<Rightarrow> u64 \<Rightarrow> bzm_frame_parser_t \<times> bzm_frame_t list" where
  "parse_buffer p timestamp_us =
     (if length (fp_buffer p) < BZM_TDM_HEADER_SIZE then (p, [])
      else case expected_frame_length p of
        (None, q) \<Rightarrow> parse_buffer (discard_first q) timestamp_us
      | (Some frame_length, q) \<Rightarrow>
          if length (fp_buffer q) < frame_length then (q, [])
          else
            (let frame = \<lparr> fr_type = the (frame_type_of (fp_buffer q ! 1)), fr_asic_id = fp_buffer q ! 0,
                           fr_payload = take (frame_length - BZM_TDM_HEADER_SIZE)
                                             (drop BZM_TDM_HEADER_SIZE (fp_buffer q)),
                           fr_timestamp_us = timestamp_us \<rparr>;
                 r = discard_prefix frame_length q
             in if fr_type frame = BZM_FRAME_REGISTER
                then case bzm_topology_asic_index (fr_asic_id frame) of
                       None \<Rightarrow> parse_buffer r timestamp_us
                     | Some index \<Rightarrow>
                         (case parse_buffer (emit (r\<lparr> fp_expected_register_length :=
                                  (fp_expected_register_length r)[index := 0] \<rparr>)) timestamp_us of
                            (p', frames) \<Rightarrow> (p', frame # frames))
                else (case parse_buffer (emit r) timestamp_us of
                        (p', frames) \<Rightarrow> (p', frame # frames))))"
  by pat_completeness auto
termination
  by (relation "measure (\<lambda>(p, _). length (fp_buffer p))")
    (auto simp: discard_first_def discard_prefix_def record_discard_def emit_def Let_def
      dest!: expected_frame_length_shape[OF sym])

declare parse_buffer.simps [simp del]

fun feed_loop :: "bzm_frame_parser_t \<Rightarrow> u8 list \<Rightarrow> u64 \<Rightarrow> bzm_frame_parser_t \<times> bzm_frame_t list" where
  "feed_loop p [] timestamp_us = (p, [])"
| "feed_loop p (b # bs) timestamp_us =
     (let p1 = (if length (fp_buffer p) = BZM_TDM_MAX_FRAME_SIZE then discard_first p else p);
          (p2, emitted) = parse_buffer (p1\<lparr> fp_buffer := fp_buffer p1 @ [b] \<rparr>) timestamp_us;
          (p3, more) = feed_loop p2 bs timestamp_us
      in (p3, emitted @ more))"

definition bzm_frame_parser_feed ::
    "bzm_frame_parser_t \<Rightarrow> u8 list \<Rightarrow> u64 \<Rightarrow> bzm_frame_parser_t \<times> bzm_frame_t list" where
  "bzm_frame_parser_feed p bytes timestamp_us = feed_loop p bytes timestamp_us"

definition bzm_frame_parser_pending_bytes :: "bzm_frame_parser_t \<Rightarrow> nat" where
  "bzm_frame_parser_pending_bytes p = length (fp_buffer p)"

definition bzm_frame_parser_recent_discards :: "bzm_frame_parser_t \<Rightarrow> nat \<Rightarrow> u8 list" where
  "bzm_frame_parser_recent_discards p capacity =
     (if capacity = 0 then []
      else
        (let len = (if fp_discard_trace_length p < capacity then fp_discard_trace_length p else capacity);
             oldest = (fp_discard_trace_next p + BZM_FRAME_PARSER_DISCARD_TRACE_SIZE - fp_discard_trace_length p)
                      mod BZM_FRAME_PARSER_DISCARD_TRACE_SIZE;
             skip = fp_discard_trace_length p - len
         in map (\<lambda>index. fp_discard_trace p ! ((oldest + skip + index) mod BZM_FRAME_PARSER_DISCARD_TRACE_SIZE))
                [0..<len]))"

section \<open>Well-formed parser states\<close>

definition parser_core :: "bzm_frame_parser_t \<Rightarrow> bool" where
  "parser_core p \<longleftrightarrow> length (fp_expected_register_length p) = BZM_MAX_ASIC_COUNT
     \<and> (\<forall>e \<in> set (fp_expected_register_length p). unat e \<le> BZM_TDM_MAX_REGISTER_PAYLOAD_SIZE)
     \<and> length (fp_discard_trace p) = BZM_FRAME_PARSER_DISCARD_TRACE_SIZE
     \<and> ring_ok (fp_discard_trace p) (fp_discard_trace_next p) (fp_discard_trace_length p)"

definition parser_inv :: "bzm_frame_parser_t \<Rightarrow> bool" where
  "parser_inv p \<longleftrightarrow> parser_core p \<and> length (fp_buffer p) < BZM_TDM_MAX_FRAME_SIZE"

text \<open>Feeding stops with a buffer that holds no complete frame: too short for a header, or a
  valid header whose payload is still incomplete.\<close>

definition waiting :: "bzm_frame_parser_t \<Rightarrow> bool" where
  "waiting p \<longleftrightarrow> length (fp_buffer p) < BZM_TDM_HEADER_SIZE
     \<or> (\<exists>n. expected_frame_length p = (Some n, p) \<and> length (fp_buffer p) < n)"

inductive parser_step :: "bzm_frame_parser_t \<Rightarrow> bzm_frame_parser_t \<Rightarrow> bool" where
  expect: "parser_step p (snd (bzm_frame_parser_expect_register p asic_id payload_length))"
| cancel: "parser_step p (snd (bzm_frame_parser_cancel_register p asic_id))"
| feed: "parser_step p (fst (bzm_frame_parser_feed p bytes timestamp_us))"

definition discard_view :: "bzm_frame_parser_t \<Rightarrow> u8 list" where
  "discard_view p = ring_view (fp_discard_trace p) (fp_discard_trace_next p) (fp_discard_trace_length p)"

interpretation discards: bounded_history record_discard discard_view BZM_FRAME_PARSER_DISCARD_TRACE_SIZE parser_core
proof
  fix p :: bzm_frame_parser_t and b :: u8
  assume p: "parser_core p"
  note p' = p[unfolded parser_core_def]
  show "parser_core (record_discard b p)"
    using p' ring_push_ok[of "fp_discard_trace p" "fp_discard_trace_next p" "fp_discard_trace_length p" b]
    by (simp add: parser_core_def record_discard_def split del: if_split)
  show "discard_view (record_discard b p) = last_n BZM_FRAME_PARSER_DISCARD_TRACE_SIZE (discard_view p @ [b])"
    using p' ring_push_view[of "fp_discard_trace p" "fp_discard_trace_next p" "fp_discard_trace_length p" b]
    by (simp add: discard_view_def record_discard_def split del: if_split)
  show "length (discard_view p) \<le> BZM_FRAME_PARSER_DISCARD_TRACE_SIZE"
    using p' by (simp add: discard_view_def ring_view_def ring_ok_def)
qed

lemma expected_frame_length_le:
  "expected_frame_length p = (Some n, q) \<Longrightarrow> parser_core p \<Longrightarrow> n \<le> BZM_TDM_MAX_FRAME_SIZE"
  by (auto simp: expected_frame_length_def Let_def parser_core_def asic_index_Some_iff
      split: if_splits option.splits bzm_frame_type_t.splits)

lemma expected_frame_length_core:
  "expected_frame_length p = (r, q) \<Longrightarrow> parser_core q = parser_core p \<and> discard_view q = discard_view p
     \<and> fp_emitted_frames q = fp_emitted_frames p \<and> fp_discarded_bytes q = fp_discarded_bytes p"
  by (auto simp: expected_frame_length_def Let_def parser_core_def discard_view_def
      split: if_splits option.splits bzm_frame_type_t.splits)

lemma core_simps [simp]:
  "parser_core (p\<lparr> fp_buffer := bs \<rparr>) = parser_core p"
  "parser_core (p\<lparr> fp_discarded_bytes := d \<rparr>) = parser_core p"
  "parser_core (emit p) = parser_core p"
  "discard_view (p\<lparr> fp_buffer := bs \<rparr>) = discard_view p"
  "discard_view (p\<lparr> fp_discarded_bytes := d \<rparr>) = discard_view p"
  "discard_view (p\<lparr> fp_expected_register_length := es \<rparr>) = discard_view p"
  "discard_view (emit p) = discard_view p"
  "fp_buffer (emit p) = fp_buffer p"
  "fp_discarded_bytes (emit p) = fp_discarded_bytes p"
  "fp_emitted_frames (emit p) = fp_emitted_frames p + 1"
  by (simp_all add: parser_core_def discard_view_def emit_def)

lemma core_clear [simp]:
  "parser_core p \<Longrightarrow> parser_core (p\<lparr> fp_expected_register_length := (fp_expected_register_length p)[i := 0] \<rparr>)"
  by (auto simp: parser_core_def dest!: set_update_subset_insert[THEN subsetD])

lemma discard_first_simps [simp]:
  "fp_buffer (discard_first p) = tl (fp_buffer p)"
  "fp_discarded_bytes (discard_first p) = fp_discarded_bytes p + 1"
  "fp_emitted_frames (discard_first p) = fp_emitted_frames p"
  "fp_expected_register_length (discard_first p) = fp_expected_register_length p"
  "parser_core p \<Longrightarrow> parser_core (discard_first p)"
  "parser_core p \<Longrightarrow> discard_view (discard_first p) =
     last_n BZM_FRAME_PARSER_DISCARD_TRACE_SIZE (discard_view p @ [fp_buffer p ! 0])"
  using discards.push_inv[of p "fp_buffer p ! 0"] discards.view_push[of p "fp_buffer p ! 0"]
  by (simp_all add: discard_first_def discard_prefix_def Let_def drop_Suc)
    (simp_all add: record_discard_def)

section \<open>One iteration of the parsing loop\<close>

text \<open>The wire image of a frame, and what the parser's header checks amount to for it.\<close>

definition wire_frame :: "bzm_frame_t \<Rightarrow> u8 list" where
  "wire_frame f = fr_asic_id f # frame_type_code (fr_type f) # fr_payload f"

lemma frame_type_of_code [simp]: "frame_type_of (frame_type_code t) = Some t"
  by (cases t) (simp_all add: frame_type_of_def frame_type_code_def)

lemma frame_type_code_of: "frame_type_of b = Some t \<Longrightarrow> frame_type_code t = b"
  by (auto simp: frame_type_of_def frame_type_code_def split: if_splits)

definition awaited :: "u8 list \<Rightarrow> bzm_frame_t \<Rightarrow> bool" where
  "awaited expectations f \<longleftrightarrow>
     (case fr_type f of
        BZM_FRAME_RESULT \<Rightarrow> valid_wire_asic_id (fr_asic_id f) \<and> length (fr_payload f) = BZM_RESULT_FRAME_SIZE
      | BZM_FRAME_TELEMETRY \<Rightarrow> valid_wire_asic_id (fr_asic_id f) \<and> length (fr_payload f) = BZM_TDM_TELEMETRY_PAYLOAD_SIZE
      | BZM_FRAME_NOOP \<Rightarrow> valid_wire_asic_id (fr_asic_id f) \<and> length (fr_payload f) = BZM_TDM_NOOP_PAYLOAD_SIZE
      | BZM_FRAME_REGISTER \<Rightarrow>
          (case bzm_topology_asic_index (fr_asic_id f) of None \<Rightarrow> False
           | Some i \<Rightarrow> fr_payload f \<noteq> [] \<and> length (fr_payload f) = unat (expectations ! i)))"

text \<open>What a delivered frame does to the outstanding register expectations.\<close>

definition consume :: "bzm_frame_t \<Rightarrow> u8 list \<Rightarrow> u8 list" where
  "consume f expectations =
     (if fr_type f = BZM_FRAME_REGISTER
      then case bzm_topology_asic_index (fr_asic_id f) of None \<Rightarrow> expectations | Some i \<Rightarrow> expectations[i := 0]
      else expectations)"

definition deliver :: "bzm_frame_t \<Rightarrow> bzm_frame_parser_t \<Rightarrow> bzm_frame_parser_t" where
  "deliver f p = p\<lparr> fp_buffer := drop (length (wire_frame f)) (fp_buffer p),
     fp_expected_register_length := consume f (fp_expected_register_length p),
     fp_emitted_frames := fp_emitted_frames p + 1 \<rparr>"

lemma deliver_simps [simp]:
  "fp_buffer (deliver f p) = drop (length (wire_frame f)) (fp_buffer p)"
  "fp_expected_register_length (deliver f p) = consume f (fp_expected_register_length p)"
  "fp_emitted_frames (deliver f p) = fp_emitted_frames p + 1"
  "fp_discarded_bytes (deliver f p) = fp_discarded_bytes p"
  "discard_view (deliver f p) = discard_view p"
  by (simp_all add: deliver_def discard_view_def)

lemma consume_ok:
  assumes "length es = 4" and "\<forall>e \<in> set es. unat e \<le> 32"
  shows "length (consume f es) = 4 \<and> (\<forall>e \<in> set (consume f es). unat e \<le> 32)"
  using assms by (auto simp: consume_def split: option.splits dest!: set_update_subset_insert[THEN subsetD])

lemma deliver_core [simp]: "parser_core p \<Longrightarrow> parser_core (deliver f p)"
  using consume_ok[of "fp_expected_register_length p" f] by (simp add: parser_core_def deliver_def)

lemma expected_frame_length_awaited:
  assumes "awaited (fp_expected_register_length p) f"
    and "2 \<le> length (fp_buffer p)" and "take 2 (fp_buffer p) = take 2 (wire_frame f)"
  shows "expected_frame_length p = (Some (length (wire_frame f)), p)"
proof -
  obtain bs where bs: "fp_buffer p = fr_asic_id f # frame_type_code (fr_type f) # bs"
    using assms(2,3) by (cases "fp_buffer p"; cases "tl (fp_buffer p)") (auto simp: wire_frame_def)
  show ?thesis using assms(1)
    by (auto simp: expected_frame_length_def Let_def bs wire_frame_def awaited_def valid_wire_asic_id_def
        split: bzm_frame_type_t.splits option.splits)
qed

lemma parse_buffer_short [simp]: "length (fp_buffer p) < 2 \<Longrightarrow> parse_buffer p ts = (p, [])"
  by (subst parse_buffer.simps) simp

lemma parse_buffer_complete:
  assumes "2 \<le> length (fp_buffer p)" "expected_frame_length p = (Some n, p)" "\<not> length (fp_buffer p) < n"
  shows "parse_buffer p ts = (let f = \<lparr> fr_type = the (frame_type_of (fp_buffer p ! 1)), fr_asic_id = fp_buffer p ! 0,
                           fr_payload = take (n - 2) (drop 2 (fp_buffer p)), fr_timestamp_us = ts \<rparr>
           in if fr_type f = BZM_FRAME_REGISTER \<and> bzm_topology_asic_index (fr_asic_id f) = None
              then parse_buffer (discard_prefix n p) ts
              else let (p', fs) = parse_buffer (p\<lparr> fp_buffer := drop n (fp_buffer p),
                 fp_expected_register_length := consume f (fp_expected_register_length p),
                fp_emitted_frames := fp_emitted_frames p + 1 \<rparr>) ts in (p', f # fs))"
proof -
  have "\<not> length (fp_buffer p) < 2" using assms by simp
  then show ?thesis using assms(2,3)
    by (subst parse_buffer.simps, simp only: if_False prod.case option.case Let_def)
      (simp add: consume_def emit_def discard_prefix_def split: option.splits)
qed

lemma parse_buffer_deliver:
  assumes aw: "awaited (fp_expected_register_length p) f" and ts: "fr_timestamp_us f = ts"
    and buf: "fp_buffer p = wire_frame f @ rest"
  shows "parse_buffer p ts = (let (p', frames) = parse_buffer (deliver f p) ts in (p', f # frames))"
proof -
  have len: "2 \<le> length (fp_buffer p)" "\<not> length (fp_buffer p) < length (wire_frame f)"
    using buf by (auto simp: wire_frame_def)
  then have e: "expected_frame_length p = (Some (length (wire_frame f)), p)"
    using aw buf by (intro expected_frame_length_awaited) (auto simp: wire_frame_def)
  have neg: "\<not> (fr_type f = BZM_FRAME_REGISTER \<and> bzm_topology_asic_index (fr_asic_id f) = None)"
    using aw by (auto simp: awaited_def split: option.splits)
  have "\<lparr> fr_type = the (frame_type_of (fp_buffer p ! 1)), fr_asic_id = fp_buffer p ! 0,
      fr_payload = take (length (wire_frame f) - 2) (drop 2 (fp_buffer p)), fr_timestamp_us = ts \<rparr> = f"
    using ts by (simp add: buf wire_frame_def)
  from parse_buffer_complete[OF len(1) e len(2), of ts, unfolded this]
  show ?thesis by (simp only: Let_def if_not_P[OF neg] deliver_def)
qed

text \<open>The three things one iteration can do.\<close>

lemma parse_buffer_cases:
  assumes "2 \<le> length (fp_buffer p)"
  obtains (invalid) q where "expected_frame_length p = (None, q)"
      "parse_buffer p ts = parse_buffer (discard_first q) ts"
  | (incomplete) n where "expected_frame_length p = (Some n, p)" "length (fp_buffer p) < n"
      "parse_buffer p ts = (p, [])"
  | (frame) f where "awaited (fp_expected_register_length p) f" "fr_timestamp_us f = ts"
      "fp_buffer p = wire_frame f @ drop (length (wire_frame f)) (fp_buffer p)"
      "parse_buffer p ts = (let (p', frames) = parse_buffer (deliver f p) ts in (p', f # frames))"
proof -
  obtain r q where e: "expected_frame_length p = (r, q)" by fastforce
  show thesis
  proof (cases r)
    case None
    then show thesis using e assms by (intro invalid) (auto simp: parse_buffer.simps[of p])
  next
    case (Some n)
    then have q: "q = p" "2 < n" using expected_frame_length_Some[of p n q] e by auto
    show thesis
    proof (cases "length (fp_buffer p) < n")
      case True
      then show thesis using e assms Some q by (intro incomplete) (auto simp: parse_buffer.simps[of p])
    next
      case False
      obtain a t bs where b: "fp_buffer p = a # t # bs" using assms
        by (cases "fp_buffer p"; cases "tl (fp_buffer p)") auto
      define f where "f = \<lparr> fr_type = the (frame_type_of t), fr_asic_id = a, fr_payload = take (n - 2) bs,
                             fr_timestamp_us = ts \<rparr>"
      have len: "length (take (n - 2) bs) = n - 2" using False b by auto
      have t: "frame_type_of t = Some (fr_type f)"
        using e Some b by (auto simp: expected_frame_length_def Let_def f_def split: if_splits option.splits)
      have w: "length (wire_frame f) = n" using q len by (simp add: wire_frame_def f_def)
      have aw: "awaited (fp_expected_register_length p) f"
        using e Some b t len q(2)
        by (auto simp: expected_frame_length_def Let_def awaited_def f_def unat_gt_0
            split: if_splits option.splits bzm_frame_type_t.splits simp flip: length_greater_0_conv)
      have buf: "fp_buffer p = wire_frame f @ drop (length (wire_frame f)) (fp_buffer p)"
        unfolding w using frame_type_code_of[OF t] b q(2) 
        by (simp add: wire_frame_def f_def drop_Cons' numeral_2_eq_2)
      have "parse_buffer p ts = (let (p', frames) = parse_buffer (deliver f p) ts in (p', f # frames))"
        by (rule parse_buffer_deliver[OF aw _ buf]) (simp add: f_def)
      with aw buf show thesis by (intro frame) (auto simp: f_def)
    qed
  qed
qed

section \<open>Accounting for every byte\<close>

text \<open>The fate of the bytes of a stream: delivered in a frame or discarded singly.\<close>

datatype wire_item = Delivered bzm_frame_t | Discarded u8

fun item_bytes :: "wire_item \<Rightarrow> u8 list" where
  "item_bytes (Delivered f) = wire_frame f"
| "item_bytes (Discarded b) = [b]"

fun item_frame :: "wire_item \<Rightarrow> bzm_frame_t option" where
  "item_frame (Delivered f) = Some f"
| "item_frame (Discarded b) = None"

fun item_junk :: "wire_item \<Rightarrow> u8 option" where
  "item_junk (Delivered f) = None"
| "item_junk (Discarded b) = Some b"

definition stream_bytes :: "wire_item list \<Rightarrow> u8 list" where
  "stream_bytes items = concat (map item_bytes items)"

definition stream_frames :: "wire_item list \<Rightarrow> bzm_frame_t list" where
  "stream_frames items = List.map_filter item_frame items"

definition stream_junk :: "wire_item list \<Rightarrow> u8 list" where
  "stream_junk items = List.map_filter item_junk items"

lemma stream_simps [simp]:
  "stream_bytes [] = []" "stream_frames [] = []" "stream_junk [] = []"
  "stream_bytes (Delivered f # items) = wire_frame f @ stream_bytes items"
  "stream_bytes (Discarded b # items) = b # stream_bytes items"
  "stream_frames (Delivered f # items) = f # stream_frames items"
  "stream_frames (Discarded b # items) = stream_frames items"
  "stream_junk (Delivered f # items) = stream_junk items"
  "stream_junk (Discarded b # items) = b # stream_junk items"
  by (simp_all add: stream_bytes_def stream_frames_def stream_junk_def map_filter_simps)

lemma stream_append [simp]:
  "stream_bytes (xs @ ys) = stream_bytes xs @ stream_bytes ys"
  "stream_frames (xs @ ys) = stream_frames xs @ stream_frames ys"
  "stream_junk (xs @ ys) = stream_junk xs @ stream_junk ys"
  by (simp_all add: stream_bytes_def stream_frames_def stream_junk_def List.map_filter_def)

text \<open>\<open>accounts p bs items q\<close>: reading the bytes \<open>bs\<close> took the parser from \<open>p\<close> to \<open>q\<close> and their
  fate, together with what was already buffered, is \<open>items\<close>.\<close>

definition accounts :: "bzm_frame_parser_t \<Rightarrow> u8 list \<Rightarrow> wire_item list \<Rightarrow> bzm_frame_parser_t \<Rightarrow> bool" where
  "accounts p bs items q \<longleftrightarrow>
     fp_buffer p @ bs = stream_bytes items @ fp_buffer q
     \<and> fp_emitted_frames q = fp_emitted_frames p + of_nat (length (stream_frames items))
     \<and> fp_discarded_bytes q = fp_discarded_bytes p + of_nat (length (stream_junk items))
     \<and> discard_view q = last_n BZM_FRAME_PARSER_DISCARD_TRACE_SIZE (discard_view p @ stream_junk items)"

lemma accounts_refl: "parser_core p \<Longrightarrow> accounts p [] [] p"
  by (simp add: accounts_def discards.view_bound)

lemma accounts_trans:
  assumes "accounts p xs is q" and "accounts q ys js r"
  shows "accounts p (xs @ ys) (is @ js) r"
proof -
  have "fp_buffer p @ xs @ ys = stream_bytes is @ fp_buffer q @ ys"
    using assms(1) by (metis accounts_def append_assoc)
  also have "fp_buffer q @ ys = stream_bytes js @ fp_buffer r"
    using assms(2) by (simp add: accounts_def)
  finally have "fp_buffer p @ xs @ ys = stream_bytes (is @ js) @ fp_buffer r" by simp
  moreover have "discard_view r = last_n 16 (discard_view p @ stream_junk (is @ js))"
    using assms last_n_last_n_append[of 16 "discard_view p @ stream_junk is" "stream_junk js"]
    by (simp add: accounts_def)
  ultimately show ?thesis using assms by (auto simp: accounts_def)
qed

lemma accounts_discard:
  "parser_core p \<Longrightarrow> fp_buffer p \<noteq> [] \<Longrightarrow> accounts p [] [Discarded (fp_buffer p ! 0)] (discard_first p)"
  by (cases "fp_buffer p") (simp_all add: accounts_def)

lemma accounts_deliver:
  "parser_core p \<Longrightarrow> fp_buffer p = wire_frame f @ drop (length (wire_frame f)) (fp_buffer p) \<Longrightarrow>
     accounts p [] [Delivered f] (deliver f p)"
  by (simp add: accounts_def discards.view_bound)

lemma accounts_header:
  "expected_frame_length p = (r, q) \<Longrightarrow> accounts q bs items q' \<Longrightarrow> accounts p bs items q'"
  using expected_frame_length_core[of p r q] expected_frame_length_buffer[of p r q] by (simp add: accounts_def)

lemma parse_buffer_accounts:
  assumes "parser_core p"
  shows "\<exists>items. accounts p [] items (fst (parse_buffer p ts))
      \<and> stream_frames items = snd (parse_buffer p ts)
      \<and> parser_core (fst (parse_buffer p ts)) \<and> waiting (fst (parse_buffer p ts))
      \<and> (\<forall>f \<in> set (snd (parse_buffer p ts)). fr_timestamp_us f = ts)"
  using assms
proof (induction "length (fp_buffer p)" arbitrary: p rule: less_induct)
  case less
  show ?case
  proof (cases "length (fp_buffer p) < 2")
    case True
    then have "waiting p" by (simp add: waiting_def)
    then show ?thesis using True less.prems by (intro exI[of _ "[]"]) (simp add: accounts_refl)
  next
    case False
    then have "2 \<le> length (fp_buffer p)" by simp
    then show ?thesis
    proof (cases rule: parse_buffer_cases[where ts = ts])
      case (invalid q)
      have q: "fp_buffer q = fp_buffer p" "parser_core q"
        using expected_frame_length_core[OF invalid(1)] expected_frame_length_buffer[OF invalid(1)] less.prems by auto
      obtain items where "accounts (discard_first q) [] items (fst (parse_buffer p ts))"
          "stream_frames items = snd (parse_buffer p ts)"
          "parser_core (fst (parse_buffer p ts))" "waiting (fst (parse_buffer p ts))"
          "\<forall>f \<in> set (snd (parse_buffer p ts)). fr_timestamp_us f = ts"
        using less.hyps[of "discard_first q"] q False invalid(2) by fastforce
      moreover have "accounts p [] [Discarded (fp_buffer q ! 0)] (discard_first q)"
        using q False by (intro accounts_header[OF invalid(1)] accounts_discard) auto
      ultimately show ?thesis
        using accounts_trans[of p "[]" "[Discarded (fp_buffer q ! 0)]" "discard_first q" "[]" items]
        by (intro exI[of _ "Discarded (fp_buffer q ! 0) # items"]) simp
    next
      case (incomplete n)
      then have "waiting p" by (auto simp: waiting_def)
      then show ?thesis using incomplete less.prems by (intro exI[of _ "[]"]) (simp add: accounts_refl)
    next
      case (frame f)
      have "length (fp_buffer (deliver f p)) < length (fp_buffer p)"
        using False by (simp add: wire_frame_def)
      then obtain items where i: "accounts (deliver f p) [] items (fst (parse_buffer (deliver f p) ts))"
          "stream_frames items = snd (parse_buffer (deliver f p) ts)"
          "parser_core (fst (parse_buffer (deliver f p) ts))" "waiting (fst (parse_buffer (deliver f p) ts))"
          "\<forall>f \<in> set (snd (parse_buffer (deliver f p) ts)). fr_timestamp_us f = ts"
        using less.hyps[of "deliver f p"] less.prems by auto
      moreover have "accounts p [] [Delivered f] (deliver f p)"
        using frame less.prems by (intro accounts_deliver)
      ultimately show ?thesis using frame(2,4)
          accounts_trans[of p "[]" "[Delivered f]" "deliver f p" "[]" items "fst (parse_buffer (deliver f p) ts)"]
        by (intro exI[of _ "Delivered f # items"]) (simp add: case_prod_beta Let_def)
    qed
  qed
qed

lemma waiting_bound: "waiting p \<Longrightarrow> parser_core p \<Longrightarrow> length (fp_buffer p) < BZM_TDM_MAX_FRAME_SIZE"
  using expected_frame_length_le by (fastforce simp: waiting_def)

lemma feed_loop_accounts:
  assumes "parser_inv p"
  shows "\<exists>items. accounts p bs items (fst (feed_loop p bs ts))
      \<and> stream_frames items = snd (feed_loop p bs ts)
      \<and> parser_inv (fst (feed_loop p bs ts)) \<and> (bs \<noteq> [] \<longrightarrow> waiting (fst (feed_loop p bs ts)))
      \<and> (\<forall>f \<in> set (snd (feed_loop p bs ts)). fr_timestamp_us f = ts)"
  using assms
proof (induction bs arbitrary: p)
  case Nil
  then show ?case by (intro exI[of _ "[]"]) (simp add: accounts_refl parser_inv_def)
next
  case (Cons b bs)
  define p1 where "p1 = p\<lparr> fp_buffer := fp_buffer p @ [b] \<rparr>"
  define p2 where "p2 = fst (parse_buffer p1 ts)"
  have core: "parser_core p1" using Cons.prems by (simp add: p1_def parser_inv_def)
  obtain is1 where 1: "accounts p1 [] is1 p2" "stream_frames is1 = snd (parse_buffer p1 ts)"
      "parser_core p2" "waiting p2" "\<forall>f \<in> set (snd (parse_buffer p1 ts)). fr_timestamp_us f = ts"
    using parse_buffer_accounts[OF core, of ts] by (auto simp: p2_def)
  have a: "accounts p [b] is1 p2" using 1(1) by (simp add: accounts_def p1_def)
  have "parser_inv p2" using 1 waiting_bound by (simp add: parser_inv_def)
  from Cons.IH[OF this] obtain is2 where 2: "accounts p2 bs is2 (fst (feed_loop p2 bs ts))"
      "stream_frames is2 = snd (feed_loop p2 bs ts)" "parser_inv (fst (feed_loop p2 bs ts))"
      "bs \<noteq> [] \<longrightarrow> waiting (fst (feed_loop p2 bs ts))"
      "\<forall>f \<in> set (snd (feed_loop p2 bs ts)). fr_timestamp_us f = ts" by auto
  have f: "feed_loop p (b # bs) ts =
      (fst (feed_loop p2 bs ts), snd (parse_buffer p1 ts) @ snd (feed_loop p2 bs ts))"
    using Cons.prems by (simp add: p1_def p2_def parser_inv_def Let_def case_prod_beta)
  have "waiting (fst (feed_loop p2 bs ts))" using 1(4) 2(4) by (cases bs) auto
  then show ?case using f 1 2 accounts_trans[OF a 2(1)]
    by (intro exI[of _ "is1 @ is2"]) auto
qed

interpretation parser: invariant_system "\<lambda>p. p = bzm_frame_parser_init" parser_step parser_inv
proof
  fix p q
  show "p = bzm_frame_parser_init \<Longrightarrow> parser_inv p"
    by (simp add: parser_inv_def parser_core_def bzm_frame_parser_init_def ring_ok_def)
  assume p: "parser_inv p" and "parser_step p q"
  from this(2) show "parser_inv q"
  proof cases
    case (expect asic_id len)
    then show ?thesis using p
      by (auto simp: bzm_frame_parser_expect_register_def parser_inv_def parser_core_def unat_of_nat
          split: option.splits dest!: set_update_subset_insert[THEN subsetD])
  next
    case (cancel asic_id)
    then show ?thesis using p
      by (auto simp: bzm_frame_parser_cancel_register_def parser_inv_def split: option.splits)
  next
    case (feed bytes ts)
    then show ?thesis using feed_loop_accounts[OF p, of bytes ts] by (auto simp: bzm_frame_parser_feed_def)
  qed
qed

section \<open>Reading a well-formed stream\<close>

text \<open>The frames of a stream, each preceded by noise none of whose bytes is a wire address, and
  each of a length the parser expects when it arrives.\<close>

fun expected_stream :: "u8 list \<Rightarrow> (u8 list \<times> bzm_frame_t) list \<Rightarrow> bool" where
  "expected_stream expectations [] = True"
| "expected_stream expectations ((noise, f) # items) =
     ((\<forall>b \<in> set noise. \<not> valid_wire_asic_id b) \<and> awaited expectations f
      \<and> expected_stream (consume f expectations) items)"

definition noisy_bytes :: "(u8 list \<times> bzm_frame_t) list \<Rightarrow> u8 list" where
  "noisy_bytes items = concat (map (\<lambda>(noise, f). noise @ wire_frame f) items)"

lemma feed_loop_append:
  "feed_loop p (xs @ ys) ts =
     (let (q, fs) = feed_loop p xs ts; (r, gs) = feed_loop q ys ts in (r, fs @ gs))"
  by (induction xs arbitrary: p) (auto simp: Let_def split: prod.splits)

lemma awaited_length:
  "awaited es f \<Longrightarrow> parser_core p \<Longrightarrow> es = fp_expected_register_length p \<Longrightarrow>
     2 < length (wire_frame f) \<and> length (wire_frame f) \<le> BZM_TDM_MAX_FRAME_SIZE"
  by (auto simp: awaited_def wire_frame_def parser_core_def asic_index_Some_iff
      split: bzm_frame_type_t.splits option.splits)

lemma parse_buffer_awaited:
  assumes "parser_core p" and aw: "awaited (fp_expected_register_length p) f" and ts: "fr_timestamp_us f = ts"
    and w: "wire_frame f = fp_buffer p @ ys"
  shows "parse_buffer p ts = (if ys = [] then (deliver f p, [f]) else (p, []))"
proof (cases "length (fp_buffer p) < 2")
  case True
  then show ?thesis using awaited_length[OF aw assms(1)] w by auto
next
  case False
  then have e: "expected_frame_length p = (Some (length (wire_frame f)), p)"
    using aw w by (intro expected_frame_length_awaited) auto
  show ?thesis
  proof (cases "ys = []")
    case True
    then have "fp_buffer p = wire_frame f @ []" using w by simp
    from parse_buffer_deliver[OF aw ts this] show ?thesis using True w by simp
  next
    case True: False
    then have "length (fp_buffer p) < length (wire_frame f)" using w by simp
    then show ?thesis using True False e by (subst parse_buffer.simps) simp
  qed
qed

lemma feed_loop_awaited:
  assumes "parser_core p" and "awaited (fp_expected_register_length p) f" and "fr_timestamp_us f = ts"
    and "wire_frame f = fp_buffer p @ ys" and "ys \<noteq> []"
  shows "feed_loop p ys ts = (deliver f (p\<lparr> fp_buffer := wire_frame f \<rparr>), [f])"
  using assms
proof (induction ys arbitrary: p)
  case (Cons b ys)
  define p1 where "p1 = p\<lparr> fp_buffer := fp_buffer p @ [b] \<rparr>"
  have "length (fp_buffer p) \<noteq> 34"
    using awaited_length[OF Cons.prems(2,1)] Cons.prems(4) by auto
  then have f: "feed_loop p (b # ys) ts =
      (let (q, fs) = parse_buffer p1 ts; (r, gs) = feed_loop q ys ts in (r, fs @ gs))"
    by (simp add: p1_def)
  have p1: "parser_core p1" "awaited (fp_expected_register_length p1) f" "wire_frame f = fp_buffer p1 @ ys"
      "p1\<lparr> fp_buffer := wire_frame f \<rparr> = p\<lparr> fp_buffer := wire_frame f \<rparr>"
    using Cons.prems by (auto simp: p1_def)
  then have "parse_buffer p1 ts = (if ys = [] then (deliver f p1, [f]) else (p1, []))"
    using Cons.prems(3) by (intro parse_buffer_awaited)
  moreover have "ys = [] \<Longrightarrow> p1 = p\<lparr> fp_buffer := wire_frame f \<rparr>" by (simp add: p1_def Cons.prems(4))
  moreover have "ys \<noteq> [] \<Longrightarrow> feed_loop p1 ys ts = (deliver f (p\<lparr> fp_buffer := wire_frame f \<rparr>), [f])"
    using Cons.IH[of p1] p1 Cons.prems(3) by simp
  ultimately show ?case using f by (cases "ys = []") auto
qed simp

lemma feed_loop_noise:
  assumes "parser_inv p" and "fp_buffer p = []" and "\<not> valid_wire_asic_id j"
  shows "feed_loop p (j # b # bs) ts = feed_loop (discard_first (p\<lparr> fp_buffer := [j] \<rparr>)) (b # bs) ts"
proof -
  let ?p = "p\<lparr> fp_buffer := [j, b] \<rparr>"
  have "expected_frame_length ?p = (None, ?p)" using assms(3) by (simp add: expected_frame_length_def Let_def)
  then have "parse_buffer ?p ts = parse_buffer (discard_first ?p) ts" by (subst parse_buffer.simps) simp
  moreover have "discard_first ?p = discard_first (p\<lparr> fp_buffer := [j] \<rparr>)\<lparr> fp_buffer := [b] \<rparr>"
    by (simp add: discard_first_def discard_prefix_def record_discard_def Let_def)
  ultimately show ?thesis using assms(2) by (simp add: Let_def)
qed

text \<open>The state after a stream of noise and frames: every noise byte discarded, every frame
  delivered, nothing pending.\<close>

definition discard_all :: "u8 list \<Rightarrow> bzm_frame_parser_t \<Rightarrow> bzm_frame_parser_t" where
  "discard_all noise p = fold (\<lambda>j q. discard_first (q\<lparr> fp_buffer := [j] \<rparr>)) noise p"

lemma discard_all_simps:
  assumes "parser_inv p" and "fp_buffer p = []"
  shows "parser_inv (discard_all noise p) \<and> fp_buffer (discard_all noise p) = []
    \<and> fp_expected_register_length (discard_all noise p) = fp_expected_register_length p
    \<and> fp_discarded_bytes (discard_all noise p) = fp_discarded_bytes p + of_nat (length noise)"
  using assms
proof (induction noise arbitrary: p)
  case (Cons j noise)
  define q where "q = discard_first (p\<lparr> fp_buffer := [j] \<rparr>)"
  have "parser_inv q" "fp_buffer q = []" "fp_discarded_bytes q = fp_discarded_bytes p + 1"
      "fp_expected_register_length q = fp_expected_register_length p"
    using Cons.prems by (auto simp: q_def parser_inv_def)
  then show ?case using Cons.IH[of q] by (simp add: discard_all_def q_def[symmetric])
qed (simp add: discard_all_def)

lemma feed_loop_noisy:
  assumes "parser_inv p" and "fp_buffer p = []" and "\<forall>j \<in> set noise. \<not> valid_wire_asic_id j" and "bs \<noteq> []"
  shows "feed_loop p (noise @ bs) ts = feed_loop (discard_all noise p) bs ts"
  using assms
proof (induction noise arbitrary: p)
  case (Cons j noise)
  define q where "q = discard_first (p\<lparr> fp_buffer := [j] \<rparr>)"
  have "parser_inv q" "fp_buffer q = []" using Cons.prems by (auto simp: q_def parser_inv_def)
  moreover have "feed_loop p (j # noise @ bs) ts = feed_loop q (noise @ bs) ts"
    using feed_loop_noise[of p j "hd (noise @ bs)" "tl (noise @ bs)" ts] Cons.prems
    by (cases "noise @ bs") (auto simp: q_def)
  ultimately show ?case using Cons.IH[of q] Cons.prems by (simp add: discard_all_def q_def[symmetric])
qed (simp add: discard_all_def)

lemma feed_loop_stream:
  assumes "parser_inv p" and "fp_buffer p = []" and "expected_stream (fp_expected_register_length p) items"
    and "\<forall>(noise, f) \<in> set items. fr_timestamp_us f = ts"
  shows "\<exists>q. feed_loop p (noisy_bytes items) ts = (q, map snd items) \<and> parser_inv q \<and> fp_buffer q = []
     \<and> fp_discarded_bytes q = fp_discarded_bytes p + of_nat (length (concat (map fst items)))"
  using assms
proof (induction items arbitrary: p)
  case (Cons item items)
  obtain noise f where item: "item = (noise, f)" by fastforce
  define q where "q = discard_all noise p"
  define r where "r = deliver f (q\<lparr> fp_buffer := wire_frame f \<rparr>)"
  have q: "parser_inv q" "fp_buffer q = []" "fp_expected_register_length q = fp_expected_register_length p"
      "fp_discarded_bytes q = fp_discarded_bytes p + of_nat (length noise)"
    using discard_all_simps[OF Cons.prems(1,2)] by (auto simp: q_def)
  have aw: "awaited (fp_expected_register_length q) f" "fr_timestamp_us f = ts"
    using Cons.prems q by (auto simp: item)
  have "feed_loop p (noise @ wire_frame f) ts = feed_loop q (wire_frame f) ts"
    using Cons.prems unfolding q_def by (intro feed_loop_noisy) (auto simp: item wire_frame_def)
  also have "\<dots> = (r, [f])"
    using q aw unfolding r_def by (intro feed_loop_awaited) (auto simp: parser_inv_def wire_frame_def)
  finally have first: "feed_loop p (noise @ wire_frame f) ts = (r, [f])" .
  have "parser_inv r" "fp_buffer r = []" "fp_discarded_bytes r = fp_discarded_bytes q"
      "fp_expected_register_length r = consume f (fp_expected_register_length p)"
    using q by (auto simp: r_def parser_inv_def)
  then obtain q' where "feed_loop r (noisy_bytes items) ts = (q', map snd items)" "parser_inv q'" "fp_buffer q' = []"
      "fp_discarded_bytes q' = fp_discarded_bytes r + of_nat (length (concat (map fst items)))"
    using Cons.IH[of r] Cons.prems by (auto simp: item)
  moreover have "noisy_bytes (item # items) = (noise @ wire_frame f) @ noisy_bytes items"
    by (simp add: noisy_bytes_def item)
  ultimately show ?case using first q \<open>fp_discarded_bytes r = _\<close>
    by (intro exI[of _ q']) (simp add: feed_loop_append item del: append_assoc)
qed (simp add: noisy_bytes_def)

section \<open>Properties\<close>

lemma recent_discards_view:
  assumes "parser_core p"
  shows "bzm_frame_parser_recent_discards p capacity = last_n capacity (discard_view p)"
proof -
  define l where "l = fp_discard_trace_length p"
  define s where "s = l - min l capacity"
  define base where "base = fp_discard_trace_next p + 16 - l"
  have l: "l \<le> 16" "length (fp_discard_trace p) = 16" using assms by (auto simp: parser_core_def ring_ok_def l_def)
  have s: "l - s = min l capacity" by (simp add: s_def)
  have "last_n capacity (discard_view p) =
      map (\<lambda>i. fp_discard_trace p ! ((base + i) mod 16)) (drop s [0..<l])"
    using l by (simp add: last_n_def discard_view_def ring_view_def drop_map min_def s_def base_def l_def)
  also have "drop s [0..<l] = map (\<lambda>i. s + i) [0..<min l capacity]"
    by (rule nth_equalityI) (simp_all add: s[symmetric])
  also have "map (\<lambda>i. fp_discard_trace p ! ((base + i) mod 16)) (map (\<lambda>i. s + i) [0..<min l capacity]) =
      map (\<lambda>i. fp_discard_trace p ! ((base mod 16 + s + i) mod 16)) [0..<min l capacity]"
    by (simp add: comp_def add.assoc mod_add_left_eq)
  finally show ?thesis
    by (cases "capacity = 0") 
      (simp_all add: bzm_frame_parser_recent_discards_def Let_def min_def s_def base_def l_def)
qed

text \<open>C32. In every state the parser can reach, the buffer is shorter than the longest frame (so the
  overflow branch of feeding never runs), the ring position and fill stay inside the ring, and
  each outstanding register length fits a frame. Feeding at least one more byte from there always stops with
  no complete frame held back. (Between two calls, announcing or cancelling a register reply can make the buffered bytes
  a complete frame; the next feed delivers it.)\<close>

theorem parser_bounds:
  assumes "reachable (\<lambda>p. p = bzm_frame_parser_init) parser_step p"
  shows "bzm_frame_parser_pending_bytes p < BZM_TDM_MAX_FRAME_SIZE
    \<and> fp_discard_trace_next p < length (fp_discard_trace p)
    \<and> fp_discard_trace_length p \<le> length (fp_discard_trace p)
    \<and> length (fp_expected_register_length p) = BZM_MAX_ASIC_COUNT
    \<and> (\<forall>e \<in> set (fp_expected_register_length p). unat e \<le> BZM_TDM_MAX_REGISTER_PAYLOAD_SIZE)
    \<and> (bytes \<noteq> [] \<longrightarrow> waiting (fst (bzm_frame_parser_feed p bytes ts)))"
proof -
  have p: "parser_inv p" by (rule parser.reachable_inv[OF assms])
  then show ?thesis using feed_loop_accounts[OF p, of bytes ts]
    by (auto simp: bzm_frame_parser_pending_bytes_def parser_inv_def parser_core_def ring_ok_def
        bzm_frame_parser_feed_def)
qed

theorem parser_bounds_witness:
  "bzm_frame_parser_pending_bytes (snd (bzm_frame_parser_expect_register bzm_frame_parser_init 0x14 4))
     < BZM_TDM_MAX_FRAME_SIZE \<and>
   waiting (fst (bzm_frame_parser_feed (snd (bzm_frame_parser_expect_register bzm_frame_parser_init 0x14 4)) [0x14, 3, 1, 2, 3] 9))"
  using parser_bounds[of "snd (bzm_frame_parser_expect_register bzm_frame_parser_init 0x14 4)" "[0x14, 3, 1, 2, 3]" 9]
  by (blast intro: reachable.intros parser_step.intros)

text \<open>C24. Feeding loses, duplicates and reorders nothing: the buffered and the fed bytes are the wire
  images of the delivered frames and the discarded bytes, in order, followed by what stays
  buffered; the 32-bit counters advance by the number of frames and of discarded bytes; the
  diagnostic trace is the latest 16 discarded bytes, and a caller sees the newest of them that fit;
  every frame has the timestamp of the call.\<close>

theorem feed_accounts_for_every_byte:
  assumes "reachable (\<lambda>p. p = bzm_frame_parser_init) parser_step p"
    and "bzm_frame_parser_feed p bytes ts = (q, frames)"
  shows "\<exists>items. fp_buffer p @ bytes = stream_bytes items @ fp_buffer q
    \<and> frames = stream_frames items
    \<and> fp_emitted_frames q = fp_emitted_frames p + of_nat (length frames)
    \<and> fp_discarded_bytes q = fp_discarded_bytes p + of_nat (length (stream_junk items))
    \<and> bzm_frame_parser_recent_discards q capacity =
        last_n capacity (last_n 16 (bzm_frame_parser_recent_discards p 16 @ stream_junk items))
    \<and> (\<forall>f \<in> set frames. fr_timestamp_us f = ts)"
proof -
  have p: "parser_inv p" by (rule parser.reachable_inv[OF assms(1)])
  then have core: "parser_core p" by (simp add: parser_inv_def)
  obtain items where i: "accounts p bytes items q" "stream_frames items = frames" "parser_inv q"
      "\<forall>f \<in> set frames. fr_timestamp_us f = ts"
    using feed_loop_accounts[OF p, of bytes ts] assms(2) by (auto simp: bzm_frame_parser_feed_def)
  have "bzm_frame_parser_recent_discards q capacity = last_n capacity (discard_view q)"
      "bzm_frame_parser_recent_discards p 16 = discard_view p"
    using i(3) core by (simp_all add: recent_discards_view parser_inv_def discards.view_bound)
  then show ?thesis using i by (intro exI[of _ items]) (simp add: accounts_def)
qed

theorem feed_accounts_for_every_byte_witness:
  "\<exists>q items. [0x55, 0x0a, 0x0f, 1, 2, 3, 7::u8] = stream_bytes items @ fp_buffer q
     \<and> bzm_frame_parser_feed bzm_frame_parser_init [0x55, 0x0a, 0x0f, 1, 2, 3, 7] 9 = (q, stream_frames items)"
  using feed_accounts_for_every_byte[OF reachable.start[where init = "\<lambda>p. p = bzm_frame_parser_init", OF refl],
      of "[0x55, 0x0a, 0x0f, 1, 2, 3, 7]" 9 "fst (bzm_frame_parser_feed bzm_frame_parser_init [0x55, 0x0a, 0x0f, 1, 2, 3, 7] 9)"
        "snd (bzm_frame_parser_feed bzm_frame_parser_init [0x55, 0x0a, 0x0f, 1, 2, 3, 7] 9)" 4]
  by (auto simp: bzm_frame_parser_init_def prod_eq_iff)

text \<open>C5. Round trip through the wire with noise: when every frame has the length the parser expects as
  it arrives (register replies must have been announced) and the noise between frames contains no
  wire address, feeding the byte stream to a reachable parser with nothing pending delivers
  exactly these frames in order, discards exactly the noise and leaves nothing pending.\<close>

theorem noisy_stream_roundtrip:
  assumes "reachable (\<lambda>p. p = bzm_frame_parser_init) parser_step p"
    and "bzm_frame_parser_pending_bytes p = 0"
    and "expected_stream (fp_expected_register_length p) items"
    and "\<forall>(noise, f) \<in> set items. fr_timestamp_us f = ts"
  shows "\<exists>q. bzm_frame_parser_feed p (noisy_bytes items) ts = (q, map snd items)
    \<and> bzm_frame_parser_pending_bytes q = 0
    \<and> fp_discarded_bytes q = fp_discarded_bytes p + of_nat (length (concat (map fst items)))"
  using feed_loop_stream[OF parser.reachable_inv[OF assms(1)] _ assms(3,4)] assms(2)
  by (auto simp: bzm_frame_parser_feed_def bzm_frame_parser_pending_bytes_def)

theorem noisy_stream_roundtrip_witness:
  "\<exists>q. bzm_frame_parser_feed (snd (bzm_frame_parser_expect_register bzm_frame_parser_init 0x14 2))
      (noisy_bytes [([0xff, 0x03], \<lparr> fr_type = BZM_FRAME_REGISTER, fr_asic_id = 0x14, fr_payload = [7, 8], fr_timestamp_us = 5 \<rparr>),
                    ([], \<lparr> fr_type = BZM_FRAME_NOOP, fr_asic_id = 0x0a, fr_payload = [1, 2, 3], fr_timestamp_us = 5 \<rparr>)]) 5 =
      (q, [\<lparr> fr_type = BZM_FRAME_REGISTER, fr_asic_id = 0x14, fr_payload = [7, 8], fr_timestamp_us = 5 \<rparr>,
           \<lparr> fr_type = BZM_FRAME_NOOP, fr_asic_id = 0x0a, fr_payload = [1, 2, 3], fr_timestamp_us = 5 \<rparr>])
    \<and> bzm_frame_parser_pending_bytes q = 0"
proof -
  let ?p = "snd (bzm_frame_parser_expect_register bzm_frame_parser_init 0x14 2)"
  have idx: "bzm_topology_asic_index 0x14 = Some 1" "bzm_topology_asic_index 0x0a = Some 0"
      "bzm_topology_asic_index 0xff = None" "bzm_topology_asic_index 3 = None"
    by (simp_all add: bzm_topology_asic_index_def bzm_asic_wire_ids_def)
  have "reachable (\<lambda>p. p = bzm_frame_parser_init) parser_step ?p"
    by (blast intro: reachable.intros parser_step.intros)
  from noisy_stream_roundtrip[OF this, of
      "[([0xff, 0x03], \<lparr> fr_type = BZM_FRAME_REGISTER, fr_asic_id = 0x14, fr_payload = [7, 8], fr_timestamp_us = 5 \<rparr>),
        ([], \<lparr> fr_type = BZM_FRAME_NOOP, fr_asic_id = 0x0a, fr_payload = [1, 2, 3], fr_timestamp_us = 5 \<rparr>)]" 5]
  show ?thesis
    by (auto simp: idx bzm_frame_parser_expect_register_def bzm_frame_parser_init_def awaited_def
        valid_wire_asic_id_def bzm_frame_parser_pending_bytes_def)
qed

end
