(* ===== verification/Validation.thy ===== *)
theory Validation
  imports Prelude
begin

text \<open>
  Staged power-on validation (\<open>components/asic/bzm_validation.c\<close>): a policy is checked, then the
  stages up to the requested one run in order until one is not GOOD; every exit that does not
  hold the board energised ends with a safe-off. The two operations the caller supplies
  (\<open>run_stage\<close>, \<open>force_safe_off\<close>) are functions that take and return the caller's context, so
  the sequence of hardware calls is visible in the context. A NULL policy, table or operation is
  \<open>None\<close>; the report is never NULL. Detail strings are cut to the source's buffer.
\<close>

section \<open>Model\<close>

datatype bzm_validation_stage_t =
    BZM_STAGE_OFF_SAFE | BZM_STAGE_CONTROLS | BZM_STAGE_POWER_RAIL | BZM_STAGE_CHAIN_4
  | BZM_STAGE_SENSORS | BZM_STAGE_CLOCKS | BZM_STAGE_BALANCED_RAMP | BZM_STAGE_RUNNING | BZM_STAGE_COUNT

primrec stage_index :: "bzm_validation_stage_t \<Rightarrow> nat" where
  "stage_index BZM_STAGE_OFF_SAFE = 0"
| "stage_index BZM_STAGE_CONTROLS = 1"
| "stage_index BZM_STAGE_POWER_RAIL = 2"
| "stage_index BZM_STAGE_CHAIN_4 = 3"
| "stage_index BZM_STAGE_SENSORS = 4"
| "stage_index BZM_STAGE_CLOCKS = 5"
| "stage_index BZM_STAGE_BALANCED_RAMP = 6"
| "stage_index BZM_STAGE_RUNNING = 7"
| "stage_index BZM_STAGE_COUNT = 8"

instantiation bzm_validation_stage_t :: linorder
begin

definition less_eq_bzm_validation_stage_t :: "bzm_validation_stage_t \<Rightarrow> bzm_validation_stage_t \<Rightarrow> bool" where
  "s \<le> t \<longleftrightarrow> stage_index s \<le> stage_index t"

definition less_bzm_validation_stage_t :: "bzm_validation_stage_t \<Rightarrow> bzm_validation_stage_t \<Rightarrow> bool" where
  "s < t \<longleftrightarrow> stage_index s < stage_index t"

instance
proof
  fix x y :: bzm_validation_stage_t
  show "x \<le> y \<Longrightarrow> y \<le> x \<Longrightarrow> x = y"
    by (cases x; cases y) (simp_all add: less_eq_bzm_validation_stage_t_def)
qed (auto simp: less_eq_bzm_validation_stage_t_def less_bzm_validation_stage_t_def)

end

lemmas stage_order = less_eq_bzm_validation_stage_t_def less_bzm_validation_stage_t_def

datatype bzm_check_status_t = BZM_CHECK_NOT_RUN | BZM_CHECK_RUNNING | BZM_CHECK_GOOD | BZM_CHECK_BAD
  | BZM_CHECK_BLOCKED | BZM_CHECK_SKIPPED

datatype bzm_validation_code_t =
    BZM_VALIDATION_CODE_NONE | BZM_VALIDATION_CODE_STAGE_OK | BZM_VALIDATION_CODE_STAGE_FAILED
  | BZM_VALIDATION_CODE_INVALID_CONFIGURATION | BZM_VALIDATION_CODE_BUILD_CEILING
  | BZM_VALIDATION_CODE_NOT_IMPLEMENTED | BZM_VALIDATION_CODE_POWER_NOT_COMPILED
  | BZM_VALIDATION_CODE_LOCAL_ARM_REQUIRED | BZM_VALIDATION_CODE_INDEPENDENT_KILL_REQUIRED
  | BZM_VALIDATION_CODE_POWER_LEASE_REQUIRED | BZM_VALIDATION_CODE_PREREQUISITE_FAILED
  | BZM_VALIDATION_CODE_SAFE_OFF_FAILED

datatype bzm_validation_state_t = BZM_VALIDATION_IDLE | BZM_VALIDATION_EXECUTING | BZM_VALIDATION_OFF_SAFE
  | BZM_VALIDATION_HOLDING | BZM_VALIDATION_FAULT_LATCHED | BZM_VALIDATION_SHUTDOWN_UNVERIFIED

abbreviation BZM_VALIDATION_DETAIL_LENGTH :: nat where "BZM_VALIDATION_DETAIL_LENGTH \<equiv> 160"

record bzm_stage_result_t =
  sr_status :: bzm_check_status_t
  sr_code :: bzm_validation_code_t
  sr_detail :: string

record bzm_validation_policy_t =
  vp_run_id :: u32
  vp_requested_stage :: bzm_validation_stage_t
  vp_build_max_stage :: bzm_validation_stage_t
  vp_implemented_max_stage :: bzm_validation_stage_t
  vp_powered_stages_compiled :: bool
  vp_local_arm_present :: bool
  vp_production_mode :: bool
  vp_independent_kill_available :: bool
  vp_allow_esp_only_kill_in_lab :: bool
  vp_board_managed_safety :: bool
  vp_hold_after_success :: bool
  vp_lease_ms :: u32

record 'c bzm_validation_ops_t =
  vo_run_stage :: "('c \<Rightarrow> bzm_validation_stage_t \<Rightarrow> bzm_stage_result_t \<times> 'c) option"
  vo_force_safe_off :: "('c \<Rightarrow> bzm_stage_result_t \<times> 'c) option"

record bzm_validation_report_t =
  rp_schema_version :: u8
  rp_run_id :: u32
  rp_requested_stage :: bzm_validation_stage_t
  rp_build_max_stage :: bzm_validation_stage_t
  rp_implemented_max_stage :: bzm_validation_stage_t
  rp_reached_stage :: bzm_validation_stage_t
  rp_overall :: bzm_check_status_t
  rp_state :: bzm_validation_state_t
  rp_energized :: bool
  rp_lease_ms :: u32
  rp_stages :: "bzm_stage_result_t list"
  rp_final_safe_off :: bzm_stage_result_t

definition copy_detail :: "string \<Rightarrow> string" where
  "copy_detail detail = take (BZM_VALIDATION_DETAIL_LENGTH - 1) detail"

definition valid_stage :: "bzm_validation_stage_t \<Rightarrow> bool" where
  "valid_stage stage \<longleftrightarrow> stage \<ge> BZM_STAGE_OFF_SAFE \<and> stage < BZM_STAGE_COUNT"

definition bzm_validation_stage_name :: "bzm_validation_stage_t \<Rightarrow> string" where
  "bzm_validation_stage_name stage = (case stage of
     BZM_STAGE_OFF_SAFE \<Rightarrow> ''OFF_SAFE''
   | BZM_STAGE_CONTROLS \<Rightarrow> ''CONTROLS''
   | BZM_STAGE_POWER_RAIL \<Rightarrow> ''POWER_RAIL''
   | BZM_STAGE_CHAIN_4 \<Rightarrow> ''CHAIN_4''
   | BZM_STAGE_SENSORS \<Rightarrow> ''SENSORS''
   | BZM_STAGE_CLOCKS \<Rightarrow> ''CLOCKS''
   | BZM_STAGE_BALANCED_RAMP \<Rightarrow> ''BALANCED_RAMP''
   | BZM_STAGE_RUNNING \<Rightarrow> ''RUNNING''
   | BZM_STAGE_COUNT \<Rightarrow> ''INVALID_STAGE'')"

definition bzm_validation_status_name :: "bzm_check_status_t \<Rightarrow> string" where
  "bzm_validation_status_name status = (case status of
     BZM_CHECK_NOT_RUN \<Rightarrow> ''NOT_RUN''
   | BZM_CHECK_RUNNING \<Rightarrow> ''RUNNING''
   | BZM_CHECK_GOOD \<Rightarrow> ''GOOD''
   | BZM_CHECK_BAD \<Rightarrow> ''BAD''
   | BZM_CHECK_BLOCKED \<Rightarrow> ''BLOCKED''
   | BZM_CHECK_SKIPPED \<Rightarrow> ''SKIPPED'')"

definition bzm_validation_code_name :: "bzm_validation_code_t \<Rightarrow> string" where
  "bzm_validation_code_name code = (case code of
     BZM_VALIDATION_CODE_NONE \<Rightarrow> ''NONE''
   | BZM_VALIDATION_CODE_STAGE_OK \<Rightarrow> ''STAGE_OK''
   | BZM_VALIDATION_CODE_STAGE_FAILED \<Rightarrow> ''STAGE_FAILED''
   | BZM_VALIDATION_CODE_INVALID_CONFIGURATION \<Rightarrow> ''INVALID_CONFIGURATION''
   | BZM_VALIDATION_CODE_BUILD_CEILING \<Rightarrow> ''BUILD_CEILING''
   | BZM_VALIDATION_CODE_NOT_IMPLEMENTED \<Rightarrow> ''NOT_IMPLEMENTED''
   | BZM_VALIDATION_CODE_POWER_NOT_COMPILED \<Rightarrow> ''POWER_NOT_COMPILED''
   | BZM_VALIDATION_CODE_LOCAL_ARM_REQUIRED \<Rightarrow> ''LOCAL_ARM_REQUIRED''
   | BZM_VALIDATION_CODE_INDEPENDENT_KILL_REQUIRED \<Rightarrow> ''INDEPENDENT_KILL_REQUIRED''
   | BZM_VALIDATION_CODE_POWER_LEASE_REQUIRED \<Rightarrow> ''POWER_LEASE_REQUIRED''
   | BZM_VALIDATION_CODE_PREREQUISITE_FAILED \<Rightarrow> ''PREREQUISITE_FAILED''
   | BZM_VALIDATION_CODE_SAFE_OFF_FAILED \<Rightarrow> ''SAFE_OFF_FAILED'')"

definition bzm_validation_result ::
    "bzm_check_status_t \<Rightarrow> bzm_validation_code_t \<Rightarrow> string \<Rightarrow> bzm_stage_result_t" where
  "bzm_validation_result status code detail =
     \<lparr> sr_status = status, sr_code = code, sr_detail = copy_detail detail \<rparr>"

definition blocked :: "bzm_validation_code_t \<Rightarrow> string \<Rightarrow> bzm_stage_result_t" where
  "blocked code detail = bzm_validation_result BZM_CHECK_BLOCKED code detail"

definition initialize_report :: "bzm_validation_policy_t option \<Rightarrow> bzm_validation_report_t" where
  "initialize_report policy = \<lparr>
     rp_schema_version = 1,
     rp_run_id = (case policy of Some p \<Rightarrow> vp_run_id p | None \<Rightarrow> 0),
     rp_requested_stage = (case policy of Some p \<Rightarrow> vp_requested_stage p | None \<Rightarrow> BZM_STAGE_OFF_SAFE),
     rp_build_max_stage = (case policy of Some p \<Rightarrow> vp_build_max_stage p | None \<Rightarrow> BZM_STAGE_OFF_SAFE),
     rp_implemented_max_stage = (case policy of Some p \<Rightarrow> vp_implemented_max_stage p | None \<Rightarrow> BZM_STAGE_OFF_SAFE),
     rp_reached_stage = BZM_STAGE_OFF_SAFE,
     rp_overall = BZM_CHECK_NOT_RUN,
     rp_state = BZM_VALIDATION_IDLE,
     rp_energized = False,
     rp_lease_ms = (case policy of Some p \<Rightarrow> vp_lease_ms p | None \<Rightarrow> 0),
     rp_stages = replicate (stage_index BZM_STAGE_COUNT)
                   (bzm_validation_result BZM_CHECK_NOT_RUN BZM_VALIDATION_CODE_NONE ''not requested''),
     rp_final_safe_off =
       bzm_validation_result BZM_CHECK_NOT_RUN BZM_VALIDATION_CODE_NONE ''final safe-off has not run'' \<rparr>"

definition normalize_stage_result :: "bzm_stage_result_t \<Rightarrow> bzm_stage_result_t" where
  "normalize_stage_result result =
     (if sr_status result = BZM_CHECK_GOOD
      then (if sr_code result = BZM_VALIDATION_CODE_NONE
            then result\<lparr> sr_code := BZM_VALIDATION_CODE_STAGE_OK \<rparr> else result)
      else if sr_status result = BZM_CHECK_BAD \<or> sr_status result = BZM_CHECK_BLOCKED
      then (if sr_code result = BZM_VALIDATION_CODE_NONE
            then result\<lparr> sr_code := BZM_VALIDATION_CODE_STAGE_FAILED \<rparr> else result)
      else bzm_validation_result BZM_CHECK_BAD BZM_VALIDATION_CODE_STAGE_FAILED
             ''stage runner returned an invalid terminal status'')"

definition force_safe_off ::
    "'c bzm_validation_ops_t option \<Rightarrow> 'c \<Rightarrow> bzm_validation_report_t \<Rightarrow> bool \<times> bzm_validation_report_t \<times> 'c" where
  "force_safe_off ops ctx report =
     (let (result, ctx') =
        (case Option.bind ops vo_force_safe_off of
           Some safe_off \<Rightarrow> (case safe_off ctx of (r, c) \<Rightarrow> (normalize_stage_result r, c))
         | None \<Rightarrow> (bzm_validation_result BZM_CHECK_BAD BZM_VALIDATION_CODE_SAFE_OFF_FAILED
                      ''safe-off operation is unavailable'', ctx))
      in if sr_status result \<noteq> BZM_CHECK_GOOD
         then
           (let result = result\<lparr> sr_status := BZM_CHECK_BAD, sr_code := BZM_VALIDATION_CODE_SAFE_OFF_FAILED,
                  sr_detail := (if sr_detail result = [] then copy_detail ''safe-off could not be verified''
                                else sr_detail result) \<rparr>
            in (False, report\<lparr> rp_final_safe_off := result, rp_overall := BZM_CHECK_BAD,
                         rp_state := BZM_VALIDATION_SHUTDOWN_UNVERIFIED, rp_energized := True \<rparr>, ctx'))
         else (True, report\<lparr> rp_final_safe_off := result,
                 rp_state := (if rp_overall report = BZM_CHECK_BAD then BZM_VALIDATION_FAULT_LATCHED
                              else BZM_VALIDATION_OFF_SAFE),
                 rp_energized := False \<rparr>, ctx'))"

definition set_stage :: "bzm_validation_stage_t \<Rightarrow> bzm_stage_result_t \<Rightarrow> bzm_validation_report_t \<Rightarrow> bzm_validation_report_t" where
  "set_stage stage result report = report\<lparr> rp_stages := (rp_stages report)[stage_index stage := result] \<rparr>"

text \<open>The stages in the order of the source's stage counter.\<close>

definition all_stages :: "bzm_validation_stage_t list" where
  "all_stages = [BZM_STAGE_OFF_SAFE, BZM_STAGE_CONTROLS, BZM_STAGE_POWER_RAIL, BZM_STAGE_CHAIN_4,
     BZM_STAGE_SENSORS, BZM_STAGE_CLOCKS, BZM_STAGE_BALANCED_RAMP, BZM_STAGE_RUNNING]"

definition skip_after :: "bzm_validation_report_t \<Rightarrow> bzm_validation_stage_t \<Rightarrow> bzm_validation_report_t" where
  "skip_after report failed_stage =
     fold (\<lambda>stage. set_stage stage (bzm_validation_result BZM_CHECK_SKIPPED BZM_VALIDATION_CODE_PREREQUISITE_FAILED
             ''an earlier startup step did not complete GOOD''))
       (filter (\<lambda>stage. failed_stage < stage \<and> stage \<le> rp_requested_stage report) all_stages) report"

definition validate_policy :: "bzm_validation_policy_t option \<Rightarrow> bzm_stage_result_t" where
  "validate_policy policy_option =
     (case policy_option of
        None \<Rightarrow> blocked BZM_VALIDATION_CODE_INVALID_CONFIGURATION ''stage values are outside the validation schema''
      | Some policy \<Rightarrow>
     if \<not> valid_stage (vp_requested_stage policy) \<or> \<not> valid_stage (vp_build_max_stage policy)
        \<or> \<not> valid_stage (vp_implemented_max_stage policy)
     then blocked BZM_VALIDATION_CODE_INVALID_CONFIGURATION ''stage values are outside the validation schema''
     else if vp_build_max_stage policy > vp_implemented_max_stage policy
     then blocked BZM_VALIDATION_CODE_NOT_IMPLEMENTED ''build ceiling exceeds the implemented stage ceiling''
     else if vp_requested_stage policy > vp_build_max_stage policy
     then blocked BZM_VALIDATION_CODE_BUILD_CEILING ''requested stage exceeds this image's build ceiling''
     else if vp_requested_stage policy \<ge> BZM_STAGE_POWER_RAIL \<and> \<not> vp_powered_stages_compiled policy
     then blocked BZM_VALIDATION_CODE_POWER_NOT_COMPILED ''this image cannot energize the ASIC rail''
     else if vp_requested_stage policy \<ge> BZM_STAGE_POWER_RAIL \<and> \<not> vp_local_arm_present policy
     then blocked BZM_VALIDATION_CODE_LOCAL_ARM_REQUIRED ''powered startup requires local controller authority''
     else if vp_requested_stage policy \<ge> BZM_STAGE_POWER_RAIL
        \<and> \<not> vp_independent_kill_available policy \<and> \<not> vp_board_managed_safety policy
        \<and> \<not> (\<not> vp_production_mode policy \<and> vp_allow_esp_only_kill_in_lab policy)
     then blocked BZM_VALIDATION_CODE_INDEPENDENT_KILL_REQUIRED
            ''neither independent kill nor accepted board-managed fixed-voltage safety is configured''
     else if vp_requested_stage policy \<ge> BZM_STAGE_POWER_RAIL \<and> vp_lease_ms policy = 0
     then blocked BZM_VALIDATION_CODE_POWER_LEASE_REQUIRED ''powered startup requires a bounded watchdog''
     else bzm_validation_result BZM_CHECK_GOOD BZM_VALIDATION_CODE_STAGE_OK ''validation policy accepted'')"

text \<open>The stage loop; the flag says whether every stage was GOOD.\<close>

fun execute_loop ::
    "('c \<Rightarrow> bzm_validation_stage_t \<Rightarrow> bzm_stage_result_t \<times> 'c) \<Rightarrow> bzm_validation_stage_t list \<Rightarrow>
     bzm_validation_report_t \<Rightarrow> 'c \<Rightarrow> bool \<times> bzm_validation_report_t \<times> 'c" where
  "execute_loop run [] report ctx = (True, report, ctx)"
| "execute_loop run (stage # stages) report ctx =
     (let report = set_stage stage (bzm_validation_result BZM_CHECK_RUNNING BZM_VALIDATION_CODE_NONE ''stage is executing'') report;
          (raw, ctx') = run ctx stage;
          result = normalize_stage_result raw;
          report = set_stage stage result report
      in if sr_status result \<noteq> BZM_CHECK_GOOD
         then (False, skip_after (report\<lparr> rp_overall := sr_status result \<rparr>) stage, ctx')
         else execute_loop run stages
                (report\<lparr> rp_reached_stage := stage,
                   rp_energized := (if stage \<ge> BZM_STAGE_POWER_RAIL then True else rp_energized report) \<rparr>) ctx')"

definition bzm_validation_execute ::
    "bzm_validation_policy_t option \<Rightarrow> 'c bzm_validation_ops_t option \<Rightarrow> 'c \<Rightarrow> bool \<times> bzm_validation_report_t \<times> 'c" where
  "bzm_validation_execute policy ops ctx =
     (let report = initialize_report policy in
      case Option.bind ops vo_run_stage of
        None \<Rightarrow>
          (case force_safe_off ops ctx
             (set_stage BZM_STAGE_OFF_SAFE
                (blocked BZM_VALIDATION_CODE_INVALID_CONFIGURATION ''startup step runner is unavailable'')
                (report\<lparr> rp_overall := BZM_CHECK_BLOCKED \<rparr>)) of
             (_, report, ctx) \<Rightarrow> (False, report, ctx))
      | Some run \<Rightarrow>
          (let policy_result = validate_policy policy in
           if sr_status policy_result \<noteq> BZM_CHECK_GOOD
           then
             (let blocked_stage = (case policy of
                    Some p \<Rightarrow> if valid_stage (vp_requested_stage p) then vp_requested_stage p else BZM_STAGE_OFF_SAFE
                  | None \<Rightarrow> BZM_STAGE_OFF_SAFE)
              in case force_safe_off ops ctx
                   (set_stage blocked_stage policy_result (report\<lparr> rp_overall := BZM_CHECK_BLOCKED \<rparr>)) of
                   (_, report, ctx) \<Rightarrow> (False, report, ctx))
           else
             (let p = the policy;
                  (all_good, report, ctx) =
                    execute_loop run (filter (\<lambda>stage. stage \<le> vp_requested_stage p) all_stages)
                      (report\<lparr> rp_state := BZM_VALIDATION_EXECUTING, rp_overall := BZM_CHECK_GOOD \<rparr>) ctx
              in if \<not> all_good
                 then (case force_safe_off ops ctx report of (_, report, ctx) \<Rightarrow> (False, report, ctx))
                 else if vp_requested_stage p \<ge> BZM_STAGE_POWER_RAIL \<and> vp_hold_after_success p
                 then (True, report\<lparr> rp_state := BZM_VALIDATION_HOLDING, rp_energized := True \<rparr>, ctx)
                 else force_safe_off ops ctx report)))"

section \<open>The stage loop\<close>

abbreviation status_at :: "bzm_validation_report_t \<Rightarrow> bzm_validation_stage_t \<Rightarrow> bzm_check_status_t" where
  "status_at report stage \<equiv> sr_status (rp_stages report ! stage_index stage)"

text \<open>The caller's context after running stages in order.\<close>

definition run_stages :: "('c \<Rightarrow> bzm_validation_stage_t \<Rightarrow> bzm_stage_result_t \<times> 'c) \<Rightarrow> bzm_validation_stage_t list \<Rightarrow> 'c \<Rightarrow> 'c" where
  "run_stages run stages ctx = fold (\<lambda>stage c. snd (run c stage)) stages ctx"

lemma run_stages_simps [simp]:
  "run_stages run [] ctx = ctx"
  "run_stages run (s # ss) ctx = run_stages run ss (snd (run ctx s))"
  by (simp_all add: run_stages_def)

lemma stage_index_inj [simp]: "stage_index s = stage_index t \<longleftrightarrow> s = t"
  by (cases s; cases t) simp_all

lemma valid_stage_iff: "valid_stage s \<longleftrightarrow> stage_index s < 8"
  by (cases s) (simp_all add: valid_stage_def stage_order)

lemma set_all_stages: "s \<in> set all_stages \<longleftrightarrow> valid_stage s"
  by (cases s) (simp_all add: all_stages_def valid_stage_iff)

lemma distinct_all_stages: "distinct all_stages"
  by (simp add: all_stages_def)

lemma set_stage_simps [simp]:
  "rp_stages (set_stage s r rep) = (rp_stages rep)[stage_index s := r]"
  "rp_requested_stage (set_stage s r rep) = rp_requested_stage rep"
  "rp_reached_stage (set_stage s r rep) = rp_reached_stage rep"
  "rp_overall (set_stage s r rep) = rp_overall rep"
  "rp_state (set_stage s r rep) = rp_state rep"
  "rp_energized (set_stage s r rep) = rp_energized rep"
  "rp_run_id (set_stage s r rep) = rp_run_id rep"
  "rp_final_safe_off (set_stage s r rep) = rp_final_safe_off rep"
  "rp_lease_ms (set_stage s r rep) = rp_lease_ms rep"
  by (simp_all add: set_stage_def)

lemma normalize_terminal:
  "sr_status (normalize_stage_result r) = BZM_CHECK_GOOD \<or> sr_status (normalize_stage_result r) = BZM_CHECK_BAD
     \<or> sr_status (normalize_stage_result r) = BZM_CHECK_BLOCKED"
  by (auto simp: normalize_stage_result_def bzm_validation_result_def)

lemma normalize_good [simp]:
  "sr_status (normalize_stage_result r) = BZM_CHECK_GOOD \<longleftrightarrow> sr_status r = BZM_CHECK_GOOD"
  by (auto simp: normalize_stage_result_def bzm_validation_result_def)

lemma set_stages_fold:
  assumes "length (rp_stages rep) = 8"
  shows "rp_requested_stage (fold (\<lambda>s. set_stage s r) ss rep) = rp_requested_stage rep
    \<and> rp_reached_stage (fold (\<lambda>s. set_stage s r) ss rep) = rp_reached_stage rep
    \<and> rp_overall (fold (\<lambda>s. set_stage s r) ss rep) = rp_overall rep
    \<and> rp_state (fold (\<lambda>s. set_stage s r) ss rep) = rp_state rep
    \<and> rp_energized (fold (\<lambda>s. set_stage s r) ss rep) = rp_energized rep
    \<and> rp_run_id (fold (\<lambda>s. set_stage s r) ss rep) = rp_run_id rep
    \<and> length (rp_stages (fold (\<lambda>s. set_stage s r) ss rep)) = 8
    \<and> (\<forall>t. valid_stage t \<longrightarrow> rp_stages (fold (\<lambda>s. set_stage s r) ss rep) ! stage_index t =
            (if t \<in> set ss then r else rp_stages rep ! stage_index t))"
  using assms by (induction ss arbitrary: rep) (auto simp: valid_stage_iff nth_list_update)

lemma skip_after_facts:
  assumes "length (rp_stages rep) = 8"
  shows "rp_requested_stage (skip_after rep s) = rp_requested_stage rep
    \<and> rp_overall (skip_after rep s) = rp_overall rep
    \<and> rp_state (skip_after rep s) = rp_state rep
    \<and> rp_run_id (skip_after rep s) = rp_run_id rep
    \<and> length (rp_stages (skip_after rep s)) = 8
    \<and> (\<forall>t. valid_stage t \<longrightarrow> status_at (skip_after rep s) t =
            (if s < t \<and> t \<le> rp_requested_stage rep then BZM_CHECK_SKIPPED else status_at rep t))"
  using set_stages_fold[OF assms, of "bzm_validation_result BZM_CHECK_SKIPPED BZM_VALIDATION_CODE_PREREQUISITE_FAILED
             ''an earlier startup step did not complete GOOD''"
        "filter (\<lambda>stage. s < stage \<and> stage \<le> rp_requested_stage rep) all_stages"]
  by (auto simp: skip_after_def set_all_stages bzm_validation_result_def)

text \<open>What the loop leaves when all stages were GOOD.\<close>

lemma execute_loop_good:
  assumes "execute_loop run ss rep ctx = (True, rep', ctx')"
    and "length (rp_stages rep) = 8" and "\<forall>s \<in> set ss. valid_stage s" and "distinct ss"
  shows "ctx' = run_stages run ss ctx \<and> rp_requested_stage rep' = rp_requested_stage rep
    \<and> rp_overall rep' = rp_overall rep \<and> rp_run_id rep' = rp_run_id rep \<and> length (rp_stages rep') = 8
    \<and> rp_reached_stage rep' = (if ss = [] then rp_reached_stage rep else last ss)
    \<and> (\<forall>t. valid_stage t \<longrightarrow> status_at rep' t = (if t \<in> set ss then BZM_CHECK_GOOD else status_at rep t))"
  using assms
proof (induction ss arbitrary: rep ctx)
  case (Cons s ss)
  obtain raw c where run: "run ctx s = (raw, c)" by fastforce
  define rep1 where "rep1 = set_stage s (normalize_stage_result raw) (set_stage s
      (bzm_validation_result BZM_CHECK_RUNNING BZM_VALIDATION_CODE_NONE ''stage is executing'') rep)"
  define rep2 where "rep2 = rep1\<lparr> rp_reached_stage := s,
      rp_energized := (if s \<ge> BZM_STAGE_POWER_RAIL then True else rp_energized rep1) \<rparr>"
  have loop: "execute_loop run ss rep2 c = (True, rep', ctx')" and raw: "sr_status raw = BZM_CHECK_GOOD"
    using Cons.prems(1) run unfolding rep2_def rep1_def by (auto simp: Let_def split: if_splits)
  have "valid_stage t \<Longrightarrow> status_at rep2 t = (if t = s then BZM_CHECK_GOOD else status_at rep t)" for t
    using Cons.prems(2,3) raw by (auto simp: rep1_def rep2_def valid_stage_iff nth_list_update)
  then show ?case using Cons.IH[OF loop] Cons.prems(2-) run
    by (auto simp: rep2_def rep1_def)
qed simp

text \<open>What it leaves when stage \<open>s\<close> failed after the stages \<open>pre\<close>.\<close>

lemma execute_loop_bad:
  assumes "execute_loop run ss rep ctx = (False, rep', ctx')"
    and "length (rp_stages rep) = 8" and "\<forall>s \<in> set ss. valid_stage s" and "distinct ss"
  shows "\<exists>pre s post. ss = pre @ s # post \<and> ctx' = run_stages run (pre @ [s]) ctx
    \<and> rp_requested_stage rep' = rp_requested_stage rep \<and> rp_run_id rep' = rp_run_id rep
    \<and> length (rp_stages rep') = 8
    \<and> (rp_overall rep' = BZM_CHECK_BAD \<or> rp_overall rep' = BZM_CHECK_BLOCKED)
    \<and> (\<forall>t. valid_stage t \<longrightarrow> status_at rep' t =
         (if s < t \<and> t \<le> rp_requested_stage rep then BZM_CHECK_SKIPPED
          else if t = s then rp_overall rep' else if t \<in> set pre then BZM_CHECK_GOOD else status_at rep t))"
  using assms
proof (induction ss arbitrary: rep ctx)
  case (Cons s ss)
  obtain raw c where run: "run ctx s = (raw, c)" by fastforce
  let ?n = "normalize_stage_result raw"
  define rep1 where "rep1 = set_stage s ?n (set_stage s (bzm_validation_result BZM_CHECK_RUNNING BZM_VALIDATION_CODE_NONE ''stage is executing'') rep)"
  have len: "length (rp_stages rep1) = 8" using Cons.prems(2) by (simp add: rep1_def)
  have st: "valid_stage t \<Longrightarrow> status_at rep1 t = (if t = s then sr_status ?n else status_at rep t)" for t
    using Cons.prems(2,3) by (auto simp: rep1_def valid_stage_iff nth_list_update)
  show ?case
  proof (cases "sr_status ?n = BZM_CHECK_GOOD")
    case False
    then have rep': "rep' = skip_after (rep1\<lparr> rp_overall := sr_status ?n \<rparr>) s" "ctx' = c"
      using Cons.prems(1) run by (auto simp: Let_def rep1_def)
    have "\<forall>t. valid_stage t \<longrightarrow> status_at rep' t =
         (if s < t \<and> t \<le> rp_requested_stage rep then BZM_CHECK_SKIPPED
          else if t = s then rp_overall rep' else status_at rep t)"
      using skip_after_facts[of "rep1\<lparr> rp_overall := sr_status ?n \<rparr>" s] len st by (auto simp: rep' rep1_def)
    moreover have "rp_requested_stage rep' = rp_requested_stage rep" "rp_run_id rep' = rp_run_id rep"
        "length (rp_stages rep') = 8" "rp_overall rep' = sr_status ?n"
      using skip_after_facts[of "rep1\<lparr> rp_overall := sr_status ?n \<rparr>" s] len by (auto simp: rep' rep1_def)
    ultimately show ?thesis using False normalize_terminal[of raw] run
      by (intro exI[of _ "[]"] exI[of _ s] exI[of _ ss]) (auto simp: rep')
  next
    case True
    define rep2 where "rep2 = rep1\<lparr> rp_reached_stage := s,
        rp_energized := (if s \<ge> BZM_STAGE_POWER_RAIL then True else rp_energized rep1) \<rparr>"
    have "execute_loop run ss rep2 c = (False, rep', ctx')"
      using Cons.prems(1) run True unfolding rep2_def rep1_def by (simp add: Let_def)
    then obtain pre s' post where ih: "ss = pre @ s' # post" "ctx' = run_stages run (pre @ [s']) c"
        "rp_requested_stage rep' = rp_requested_stage rep2" "rp_run_id rep' = rp_run_id rep2"
        "length (rp_stages rep') = 8" "rp_overall rep' = BZM_CHECK_BAD \<or> rp_overall rep' = BZM_CHECK_BLOCKED"
        "\<forall>t. valid_stage t \<longrightarrow> status_at rep' t =
         (if s' < t \<and> t \<le> rp_requested_stage rep2 then BZM_CHECK_SKIPPED
          else if t = s' then rp_overall rep' else if t \<in> set pre then BZM_CHECK_GOOD else status_at rep2 t)"
      using Cons.IH[of rep2 c] len Cons.prems(3,4) by (auto simp: rep2_def)
    then show ?thesis using run True Cons.prems(4) st
      by (intro exI[of _ "s # pre"] exI[of _ s'] exI[of _ post]) (auto simp: rep2_def rep1_def)
  qed
qed simp

section \<open>Execution\<close>

text \<open>The authority a powered request needs, and the whole acceptance condition of the policy.\<close>

definition powered_authority :: "bzm_validation_policy_t \<Rightarrow> bool" where
  "powered_authority p \<longleftrightarrow> vp_powered_stages_compiled p \<and> vp_local_arm_present p
     \<and> (vp_independent_kill_available p \<or> vp_board_managed_safety p
        \<or> (\<not> vp_production_mode p \<and> vp_allow_esp_only_kill_in_lab p))
     \<and> vp_lease_ms p \<noteq> 0"

definition policy_accepted :: "bzm_validation_policy_t \<Rightarrow> bool" where
  "policy_accepted p \<longleftrightarrow> valid_stage (vp_implemented_max_stage p)
     \<and> vp_requested_stage p \<le> vp_build_max_stage p \<and> vp_build_max_stage p \<le> vp_implemented_max_stage p
     \<and> (BZM_STAGE_POWER_RAIL \<le> vp_requested_stage p \<longrightarrow> powered_authority p)"

lemma validate_policy_good:
  "sr_status (validate_policy (Some p)) = BZM_CHECK_GOOD \<longleftrightarrow> policy_accepted p"
  by (auto simp: validate_policy_def policy_accepted_def powered_authority_def blocked_def
      bzm_validation_result_def valid_stage_def stage_order)

definition safe_off_call :: "'c bzm_validation_ops_t \<Rightarrow> 'c \<Rightarrow> bzm_stage_result_t \<times> 'c" where
  "safe_off_call ops ctx = the (vo_force_safe_off ops) ctx"

lemma force_safe_off_facts:
  assumes "force_safe_off (Some ops) ctx rep = (b, rep', ctx')" and "vo_force_safe_off ops \<noteq> None"
  shows "ctx' = snd (safe_off_call ops ctx)
    \<and> b = (sr_status (fst (safe_off_call ops ctx)) = BZM_CHECK_GOOD)
    \<and> rp_energized rep' = (\<not> b) \<and> (sr_status (rp_final_safe_off rep') = BZM_CHECK_GOOD) = b
    \<and> rp_state rep' = (if b then if rp_overall rep = BZM_CHECK_BAD then BZM_VALIDATION_FAULT_LATCHED
                                  else BZM_VALIDATION_OFF_SAFE
                      else BZM_VALIDATION_SHUTDOWN_UNVERIFIED)
    \<and> rp_overall rep' = (if b then rp_overall rep else BZM_CHECK_BAD)
    \<and> rp_stages rep' = rp_stages rep \<and> rp_requested_stage rep' = rp_requested_stage rep
    \<and> rp_reached_stage rep' = rp_reached_stage rep \<and> rp_run_id rep' = rp_run_id rep"
  using assms by (auto simp: force_safe_off_def safe_off_call_def Let_def split: prod.splits if_splits)

definition requested_stages :: "bzm_validation_policy_t \<Rightarrow> bzm_validation_stage_t list" where
  "requested_stages p = filter (\<lambda>stage. stage \<le> vp_requested_stage p) all_stages"

lemma requested_stages_facts:
  "set (requested_stages p) = {s. valid_stage s \<and> s \<le> vp_requested_stage p}" "distinct (requested_stages p)"
  by (auto simp: requested_stages_def set_all_stages distinct_all_stages)

lemma requested_stages_last:
  "valid_stage (vp_requested_stage p) \<Longrightarrow> requested_stages p \<noteq> [] \<and> last (requested_stages p) = vp_requested_stage p"
  by (cases "vp_requested_stage p") (simp_all add: requested_stages_def all_stages_def stage_order valid_stage_def)

lemma initialize_report_facts [simp]:
  "length (rp_stages (initialize_report q)) = 8"
  "rp_energized (initialize_report q) = False"
  "rp_requested_stage (initialize_report (Some p)) = vp_requested_stage p"
  "rp_run_id (initialize_report (Some p)) = vp_run_id p"
  "valid_stage t \<Longrightarrow> status_at (initialize_report q) t = BZM_CHECK_NOT_RUN"
  by (simp_all add: initialize_report_def valid_stage_iff bzm_validation_result_def)

text \<open>The ways a run with both operations present can go.\<close>

lemma execute_cases:
  assumes "vo_run_stage ops = Some run" and "vo_force_safe_off ops \<noteq> None"
    and "bzm_validation_execute (Some p) (Some ops) ctx = (b, rep, ctx')"
  obtains (rejected) rep0 b0 where "\<not> policy_accepted p" "\<not> b" "force_safe_off (Some ops) ctx rep0 = (b0, rep, ctx')"
      "rp_overall rep0 = BZM_CHECK_BLOCKED" "rp_requested_stage rep0 = vp_requested_stage p"
      "\<forall>t. valid_stage t \<longrightarrow> status_at rep0 t \<noteq> BZM_CHECK_GOOD" "length (rp_stages rep0) = 8"
  | (failed) rep1 c1 b1 where "policy_accepted p" "\<not> b" 
      "execute_loop run (requested_stages p) (initialize_report (Some p)
         \<lparr> rp_state := BZM_VALIDATION_EXECUTING, rp_overall := BZM_CHECK_GOOD \<rparr>) ctx = (False, rep1, c1)"
      "force_safe_off (Some ops) c1 rep1 = (b1, rep, ctx')"
  | (held) rep1 where "policy_accepted p" b "BZM_STAGE_POWER_RAIL \<le> vp_requested_stage p" "vp_hold_after_success p"
      "execute_loop run (requested_stages p) (initialize_report (Some p)
         \<lparr> rp_state := BZM_VALIDATION_EXECUTING, rp_overall := BZM_CHECK_GOOD \<rparr>) ctx = (True, rep1, ctx')"
      "rep = rep1\<lparr> rp_state := BZM_VALIDATION_HOLDING, rp_energized := True \<rparr>"
  | (released) rep1 c1 where "policy_accepted p"
      "\<not> (BZM_STAGE_POWER_RAIL \<le> vp_requested_stage p \<and> vp_hold_after_success p)"
      "execute_loop run (requested_stages p) (initialize_report (Some p)
         \<lparr> rp_state := BZM_VALIDATION_EXECUTING, rp_overall := BZM_CHECK_GOOD \<rparr>) ctx = (True, rep1, c1)"
      "force_safe_off (Some ops) c1 rep1 = (b, rep, ctx')"
proof (cases "policy_accepted p")
  case False
  define rep0 where "rep0 = set_stage
      (if valid_stage (vp_requested_stage p) then vp_requested_stage p else BZM_STAGE_OFF_SAFE)
      (validate_policy (Some p)) (initialize_report (Some p)\<lparr> rp_overall := BZM_CHECK_BLOCKED \<rparr>)"
  have ng: "sr_status (validate_policy (Some p)) \<noteq> BZM_CHECK_GOOD" using False by (simp add: validate_policy_good)
  obtain b0 where "force_safe_off (Some ops) ctx rep0 = (b0, rep, ctx')" "\<not> b"
    using assms(1,3) ng
    by (auto simp: bzm_validation_execute_def Let_def rep0_def split: prod.splits if_splits)
  moreover have "\<forall>t. valid_stage t \<longrightarrow> status_at rep0 t \<noteq> BZM_CHECK_GOOD"
    using ng by (auto simp: rep0_def nth_list_update valid_stage_iff)
  ultimately show thesis using False by (intro rejected) (auto simp: rep0_def)
next
  case True
  obtain g rep1 c1 where loop: "execute_loop run (requested_stages p) (initialize_report (Some p)
         \<lparr> rp_state := BZM_VALIDATION_EXECUTING, rp_overall := BZM_CHECK_GOOD \<rparr>) ctx = (g, rep1, c1)"
    by (cases rule: prod_cases3)
  note unfolded = assms(3)[unfolded bzm_validation_execute_def Let_def]
  show thesis
  proof (cases g)
    case False
    then obtain b1 where "force_safe_off (Some ops) c1 rep1 = (b1, rep, ctx')" "\<not> b"
      using unfolded True loop assms(1)
      by (auto simp: validate_policy_good requested_stages_def split: prod.splits if_splits)
    then show thesis using True loop False by (intro failed[of rep1 c1 b1]) auto
  next
    case g: True
    show thesis
    proof (cases "BZM_STAGE_POWER_RAIL \<le> vp_requested_stage p \<and> vp_hold_after_success p")
      case hold: True
      then show thesis using unfolded True loop g assms(1)
        by (intro held) (auto simp: validate_policy_good requested_stages_def split: prod.splits if_splits)
    next
      case hold: False
      then show thesis using unfolded True loop g assms(1)
        by (intro released[of rep1 c1]) (auto simp: validate_policy_good requested_stages_def split: prod.splits if_splits)
    qed
  qed
qed

lemma execute_shape:
  assumes "vo_run_stage ops = Some run" and "vo_force_safe_off ops = Some safe_off"
    and "bzm_validation_execute (Some p) (Some ops) ctx = (b, rep, ctx')"
  shows "length (rp_stages rep) = 8 \<and> rp_requested_stage rep = vp_requested_stage p
    \<and> (\<exists>c. b \<longrightarrow> rp_state rep \<noteq> BZM_VALIDATION_HOLDING \<longrightarrow>
            ctx' = snd (safe_off c) \<and> sr_status (fst (safe_off c)) = BZM_CHECK_GOOD)
    \<and> (rp_energized rep \<longleftrightarrow> rp_state rep \<in> {BZM_VALIDATION_HOLDING, BZM_VALIDATION_SHUTDOWN_UNVERIFIED})
    \<and> (\<not> b \<longrightarrow> rp_state rep \<noteq> BZM_VALIDATION_HOLDING)
    \<and> (rp_state rep = BZM_VALIDATION_SHUTDOWN_UNVERIFIED \<longrightarrow> \<not> b \<and> rp_overall rep = BZM_CHECK_BAD)"
proof -
  have "vo_force_safe_off ops \<noteq> None" using assms(2) by simp
  from assms(1) this assms(3) show ?thesis
  proof (cases rule: execute_cases)
    case (rejected rep0 b0)
    then show ?thesis using force_safe_off_facts[OF rejected(3)] assms(2) by (auto simp: safe_off_call_def)
  next
    case (failed rep1 c1 b1)
    then show ?thesis using force_safe_off_facts[OF failed(4)] assms(2) execute_loop_bad[OF failed(3)]
        requested_stages_facts[of p] by (auto simp: safe_off_call_def)
  next
    case (held rep1)
    then show ?thesis using execute_loop_good[OF held(5)] requested_stages_facts[of p] by auto
  next
    case (released rep1 c1)
    then show ?thesis using force_safe_off_facts[OF released(4)] assms(2) execute_loop_good[OF released(3)]
        requested_stages_facts[of p] by (auto simp: safe_off_call_def)
  qed
qed

section \<open>Properties\<close>

text \<open>A concrete caller for the witnesses: its context logs the calls, stage \<open>bad\<close> fails.\<close>

definition good_result :: bzm_stage_result_t where
  "good_result = bzm_validation_result BZM_CHECK_GOOD BZM_VALIDATION_CODE_STAGE_OK ''good''"

definition logging_ops :: "bzm_validation_stage_t option \<Rightarrow> bzm_validation_stage_t list bzm_validation_ops_t" where
  "logging_ops bad = \<lparr>
     vo_run_stage = Some (\<lambda>log s. (if Some s = bad then good_result\<lparr> sr_status := BZM_CHECK_BAD \<rparr> else good_result, log @ [s])),
     vo_force_safe_off = Some (\<lambda>log. (good_result, log @ [BZM_STAGE_COUNT])) \<rparr>"

definition running_policy :: bzm_validation_policy_t where
  "running_policy = \<lparr> vp_run_id = 1, vp_requested_stage = BZM_STAGE_RUNNING, vp_build_max_stage = BZM_STAGE_RUNNING,
     vp_implemented_max_stage = BZM_STAGE_RUNNING, vp_powered_stages_compiled = True, vp_local_arm_present = True,
     vp_production_mode = True, vp_independent_kill_available = True, vp_allow_esp_only_kill_in_lab = False,
     vp_board_managed_safety = False, vp_hold_after_success = True, vp_lease_ms = 500 \<rparr>"

lemma execute_True:
  assumes "vo_run_stage ops = Some run" and "vo_force_safe_off ops = Some safe_off"
    and "bzm_validation_execute (Some p) (Some ops) ctx = (True, rep, ctx')"
  shows "policy_accepted p \<and> rp_overall rep = BZM_CHECK_GOOD \<and> rp_reached_stage rep = vp_requested_stage p
    \<and> (\<forall>t. valid_stage t \<longrightarrow> status_at rep t = (if t \<le> vp_requested_stage p then BZM_CHECK_GOOD else BZM_CHECK_NOT_RUN))
    \<and> (if BZM_STAGE_POWER_RAIL \<le> vp_requested_stage p \<and> vp_hold_after_success p
       then rp_state rep = BZM_VALIDATION_HOLDING \<and> rp_energized rep
         \<and> ctx' = run_stages run (requested_stages p) ctx
       else rp_state rep = BZM_VALIDATION_OFF_SAFE \<and> \<not> rp_energized rep
         \<and> sr_status (rp_final_safe_off rep) = BZM_CHECK_GOOD
         \<and> ctx' = snd (safe_off (run_stages run (requested_stages p) ctx)))"
proof -
  have "vo_force_safe_off ops \<noteq> None" using assms(2) by simp
  from assms(1) this assms(3) show ?thesis
  proof (cases rule: execute_cases)
    case (held rep1)
    note l = execute_loop_good[OF held(5)] requested_stages_facts[of p]
    have "valid_stage (vp_requested_stage p)" using held(1) by (auto simp: policy_accepted_def valid_stage_iff stage_order)
    then show ?thesis using held l requested_stages_last[of p] by auto
  next
    case (released rep1 c1)
    note l = execute_loop_good[OF released(3)] requested_stages_facts[of p]
    have "valid_stage (vp_requested_stage p)" using released(1) by (auto simp: policy_accepted_def valid_stage_iff stage_order)
    then show ?thesis using released l requested_stages_last[of p] force_safe_off_facts[OF released(4)] assms(2)
      by (auto simp: safe_off_call_def)
  qed simp_all
qed

text \<open>C12. A run that reports success had an accepted policy and ran every stage up to the requested one, in
  order and once, all GOOD, and no later stage. It either holds the board energised, which it
  does only for a powered request that asked for it, or it has called safe-off last, which
  verified the board as off.\<close>

theorem execute_success:
  assumes "vo_run_stage ops = Some run" and "vo_force_safe_off ops = Some safe_off"
    and "bzm_validation_execute (Some p) (Some ops) ctx = (True, rep, ctx')"
  shows "policy_accepted p \<and> rp_overall rep = BZM_CHECK_GOOD \<and> rp_reached_stage rep = vp_requested_stage p
    \<and> (\<forall>t. valid_stage t \<longrightarrow> status_at rep t = (if t \<le> vp_requested_stage p then BZM_CHECK_GOOD else BZM_CHECK_NOT_RUN))
    \<and> (if BZM_STAGE_POWER_RAIL \<le> vp_requested_stage p \<and> vp_hold_after_success p
       then rp_state rep = BZM_VALIDATION_HOLDING \<and> rp_energized rep
         \<and> ctx' = run_stages run (requested_stages p) ctx
       else rp_state rep = BZM_VALIDATION_OFF_SAFE \<and> \<not> rp_energized rep
         \<and> sr_status (rp_final_safe_off rep) = BZM_CHECK_GOOD
         \<and> ctx' = snd (safe_off (run_stages run (requested_stages p) ctx)))"
  by (rule execute_True[OF assms])

theorem execute_success_witness:
  "\<exists>rep ctx'. bzm_validation_execute (Some running_policy) (Some (logging_ops None)) [] = (True, rep, ctx')
     \<and> rp_state rep = BZM_VALIDATION_HOLDING \<and> ctx' = run_stages (the (vo_run_stage (logging_ops None))) all_stages []"
proof -
  obtain rep ctx' where e: "bzm_validation_execute (Some running_policy) (Some (logging_ops None)) [] = (True, rep, ctx')"
    by (simp add: bzm_validation_execute_def running_policy_def logging_ops_def good_result_def all_stages_def
        validate_policy_def valid_stage_def stage_order Let_def bzm_validation_result_def)
  have "requested_stages running_policy = all_stages"
    by (simp add: requested_stages_def running_policy_def all_stages_def stage_order)
  then show ?thesis using execute_success[OF _ _ e] e
    by (simp add: logging_ops_def running_policy_def stage_order)
qed

lemma execute_False:
  assumes "vo_run_stage ops = Some run" and "vo_force_safe_off ops = Some safe_off"
    and "bzm_validation_execute (Some p) (Some ops) ctx = (False, rep, ctx')"
  shows "\<exists>ran. ctx' = snd (safe_off (run_stages run ran ctx))
    \<and> (if policy_accepted p
       then (\<exists>s. s \<in> set (requested_stages p) \<and> ran = filter (\<lambda>t. t \<le> s) (requested_stages p)
              \<and> status_at rep s \<in> {BZM_CHECK_BAD, BZM_CHECK_BLOCKED}
              \<and> (\<forall>t. valid_stage t \<and> t \<noteq> s \<longrightarrow> status_at rep t =
                   (if t < s then BZM_CHECK_GOOD else if t \<le> vp_requested_stage p then BZM_CHECK_SKIPPED
                    else BZM_CHECK_NOT_RUN)))
          \<or> ran = requested_stages p \<and> rp_state rep = BZM_VALIDATION_SHUTDOWN_UNVERIFIED
       else ran = [])
    \<and> rp_overall rep \<in> {BZM_CHECK_BAD, BZM_CHECK_BLOCKED}
    \<and> (if sr_status (fst (safe_off (run_stages run ran ctx))) = BZM_CHECK_GOOD
       then \<not> rp_energized rep \<and> sr_status (rp_final_safe_off rep) = BZM_CHECK_GOOD
         \<and> rp_state rep \<in> {BZM_VALIDATION_OFF_SAFE, BZM_VALIDATION_FAULT_LATCHED}
       else rp_energized rep \<and> rp_overall rep = BZM_CHECK_BAD
         \<and> rp_state rep = BZM_VALIDATION_SHUTDOWN_UNVERIFIED)"
proof -
  have "vo_force_safe_off ops \<noteq> None" using assms(2) by simp
  from assms(1) this assms(3) show ?thesis
  proof (cases rule: execute_cases)
    case (rejected rep0 b0)
    then show ?thesis using force_safe_off_facts[OF rejected(3)] assms(2)
      by (intro exI[of _ "[]"]) (auto simp: safe_off_call_def)
  next
    case (failed rep1 c1 b1)
    obtain pre s post where l: "requested_stages p = pre @ s # post" "c1 = run_stages run (pre @ [s]) ctx"
        "rp_overall rep1 \<in> {BZM_CHECK_BAD, BZM_CHECK_BLOCKED}" "rp_requested_stage rep1 = vp_requested_stage p"
        "\<And>t. valid_stage t \<Longrightarrow> status_at rep1 t =
           (if s < t \<and> t \<le> vp_requested_stage p then BZM_CHECK_SKIPPED
            else if t = s then rp_overall rep1 else if t \<in> set pre then BZM_CHECK_GOOD else BZM_CHECK_NOT_RUN)"
      using execute_loop_bad[OF failed(3)] requested_stages_facts[of p] by fastforce
    have srt: "sorted_wrt (<) (requested_stages p)"
      by (simp add: requested_stages_def all_stages_def stage_order)
    then have "\<forall>t \<in> set pre. t \<le> s" "\<forall>t \<in> set post. \<not> t \<le> s"
      by (auto simp: l(1) sorted_wrt_append)
    then have ord: "filter (\<lambda>t. t \<le> s) (requested_stages p) = pre @ [s]"
      by (simp add: l(1) filter_id_conv)
    have pre: "t \<in> set pre \<longleftrightarrow> t < s" if "valid_stage t" for t
    proof -
      have sp: "s \<le> vp_requested_stage p" "s \<notin> set pre"
        using requested_stages_facts[of p] l(1) by auto
      have "t < s \<Longrightarrow> t \<in> set (filter (\<lambda>t. t \<le> s) (requested_stages p))"
        using that sp(1) requested_stages_facts(1)[of p] by (simp add: stage_order)
      then have "t < s \<Longrightarrow> t \<in> set pre" unfolding ord by auto
      moreover have "t \<in> set pre \<Longrightarrow> t < s"
        using \<open>\<forall>t \<in> set pre. t \<le> s\<close> sp(2) by (metis order_less_le)
      ultimately show ?thesis by blast
    qed
    note off = force_safe_off_facts[OF failed(4)]
    have call: "safe_off_call ops c1 = safe_off (run_stages run (pre @ [s]) ctx)"
      using assms(2) l(2) by (simp add: safe_off_call_def)
    have st: "rp_stages rep = rp_stages rep1" using off assms(2) by simp
    have s: "valid_stage s" "s \<in> set (requested_stages p)" using requested_stages_facts(1)[of p] l(1) by auto
    have "\<forall>t. valid_stage t \<and> t \<noteq> s \<longrightarrow> status_at rep t =
        (if t < s then BZM_CHECK_GOOD else if t \<le> vp_requested_stage p then BZM_CHECK_SKIPPED else BZM_CHECK_NOT_RUN)"
      using l(5) pre by (auto simp: st)
    moreover have "status_at rep s \<in> {BZM_CHECK_BAD, BZM_CHECK_BLOCKED}"
      using l(3) l(5)[OF s(1)] by (simp add: st)
    ultimately have ex: "\<exists>u. u \<in> set (requested_stages p) \<and> pre @ [s] = filter (\<lambda>t. t \<le> u) (requested_stages p)
        \<and> status_at rep u \<in> {BZM_CHECK_BAD, BZM_CHECK_BLOCKED}
        \<and> (\<forall>t. valid_stage t \<and> t \<noteq> u \<longrightarrow> status_at rep t =
             (if t < u then BZM_CHECK_GOOD else if t \<le> vp_requested_stage p then BZM_CHECK_SKIPPED
              else BZM_CHECK_NOT_RUN))"
      using s(2) ord by (intro exI[of _ s] conjI) (simp_all only: simp_thms)
    have "ctx' = snd (safe_off (run_stages run (pre @ [s]) ctx))"
        "rp_overall rep \<in> {BZM_CHECK_BAD, BZM_CHECK_BLOCKED}"
        "if sr_status (fst (safe_off (run_stages run (pre @ [s]) ctx))) = BZM_CHECK_GOOD
         then \<not> rp_energized rep \<and> sr_status (rp_final_safe_off rep) = BZM_CHECK_GOOD
           \<and> rp_state rep \<in> {BZM_VALIDATION_OFF_SAFE, BZM_VALIDATION_FAULT_LATCHED}
         else rp_energized rep \<and> rp_overall rep = BZM_CHECK_BAD \<and> rp_state rep = BZM_VALIDATION_SHUTDOWN_UNVERIFIED"
      using off assms(2) l(3) unfolding call by auto
    then show ?thesis using ex failed(1) by (intro exI[of _ "pre @ [s]"] conjI) (simp_all only: if_True simp_thms)
  next
    case (released rep1 c1)
    then show ?thesis using force_safe_off_facts[OF released(4)] assms(2) execute_loop_good[OF released(3)]
        requested_stages_facts[of p]
      by (intro exI[of _ "requested_stages p"]) (auto simp: safe_off_call_def)
  qed simp_all
qed

text \<open>C25. A run that reports failure leaves no hold: either the policy was not accepted and no stage ran at
  all, or some stage was not GOOD and the stages before it are GOOD, those after it up to the
  requested one SKIPPED, and the rest NOT_RUN, or all stages were GOOD and only the final
  safe-off failed. In each case safe-off is the last hardware call, and unless it verified the
  board as off the report says SHUTDOWN_UNVERIFIED, energised and BAD.\<close>

theorem execute_failure:
  assumes "vo_run_stage ops = Some run" and "vo_force_safe_off ops = Some safe_off"
    and "bzm_validation_execute (Some p) (Some ops) ctx = (False, rep, ctx')"
  shows "\<exists>ran. ctx' = snd (safe_off (run_stages run ran ctx))
    \<and> (if policy_accepted p
       then (\<exists>s. s \<in> set (requested_stages p) \<and> ran = filter (\<lambda>t. t \<le> s) (requested_stages p)
              \<and> status_at rep s \<in> {BZM_CHECK_BAD, BZM_CHECK_BLOCKED}
              \<and> (\<forall>t. valid_stage t \<and> t \<noteq> s \<longrightarrow> status_at rep t =
                   (if t < s then BZM_CHECK_GOOD else if t \<le> vp_requested_stage p then BZM_CHECK_SKIPPED
                    else BZM_CHECK_NOT_RUN)))
          \<or> ran = requested_stages p \<and> rp_state rep = BZM_VALIDATION_SHUTDOWN_UNVERIFIED
       else ran = [])
    \<and> rp_overall rep \<in> {BZM_CHECK_BAD, BZM_CHECK_BLOCKED}
    \<and> (if sr_status (fst (safe_off (run_stages run ran ctx))) = BZM_CHECK_GOOD
       then \<not> rp_energized rep \<and> sr_status (rp_final_safe_off rep) = BZM_CHECK_GOOD
         \<and> rp_state rep \<in> {BZM_VALIDATION_OFF_SAFE, BZM_VALIDATION_FAULT_LATCHED}
       else rp_energized rep \<and> rp_overall rep = BZM_CHECK_BAD
         \<and> rp_state rep = BZM_VALIDATION_SHUTDOWN_UNVERIFIED)"
  by (rule execute_False[OF assms])

theorem execute_failure_witness:
  "\<exists>rep ctx'. bzm_validation_execute (Some running_policy) (Some (logging_ops (Some BZM_STAGE_CHAIN_4))) [] = (False, rep, ctx')
     \<and> \<not> rp_energized rep"
proof -
  let ?ops = "logging_ops (Some BZM_STAGE_CHAIN_4)"
  have "\<not> fst (bzm_validation_execute (Some running_policy) (Some ?ops) [])"
    by (simp add: bzm_validation_execute_def running_policy_def logging_ops_def good_result_def all_stages_def
        validate_policy_def valid_stage_def stage_order Let_def bzm_validation_result_def normalize_stage_result_def
        case_prod_beta)
  then obtain rep ctx' where e: "bzm_validation_execute (Some running_policy) (Some ?ops) [] = (False, rep, ctx')"
    by (cases "bzm_validation_execute (Some running_policy) (Some ?ops) []") auto
  obtain run safe_off where o: "vo_run_stage ?ops = Some run" "vo_force_safe_off ?ops = Some safe_off"
      "\<And>c. sr_status (fst (safe_off c)) = BZM_CHECK_GOOD"
    by (simp add: logging_ops_def good_result_def bzm_validation_result_def)
  then show ?thesis using execute_failure[OF o(1,2) e] e by auto
qed

end
