(* ===== verification/Supervisor.thy ===== *)
theory Supervisor
  imports Validation
begin

text \<open>
  The Bonanza supervisor (\<open>components/asic/bzm_supervisor.c\<close>): it owns the board, runs staged
  validation, leases the energised board to validation or mining, latches faults, and hands the
  board to one maintenance owner at a time after a verified safe-off. The supervisor's
  \<open>ops_context\<close> is the context the hardware operations transform; an optional string is a
  possibly NULL \<open>const char *\<close>. Calling a NULL operation has no defined result in the source and
  none here (\<open>the None\<close>); the invariant shows it does not happen.
\<close>

section \<open>Model\<close>

datatype bzm_supervisor_owner_t =
    BZM_SUPERVISOR_OWNER_NONE | BZM_SUPERVISOR_OWNER_VALIDATION | BZM_SUPERVISOR_OWNER_MINING
  | BZM_SUPERVISOR_OWNER_BRIDGE_UPDATE | BZM_SUPERVISOR_OWNER_FACTORY_TEST
  | BZM_SUPERVISOR_OWNER_ESP_OTA | BZM_SUPERVISOR_OWNER_ESP_RESTART

abbreviation BZM_SUPERVISOR_FAULT_DETAIL_LENGTH :: nat where "BZM_SUPERVISOR_FAULT_DETAIL_LENGTH \<equiv> 160"

record bzm_supervisor_config_t =
  sc_build_max_stage :: bzm_validation_stage_t
  sc_implemented_max_stage :: bzm_validation_stage_t
  sc_powered_stages_compiled :: bool
  sc_production_mode :: bool
  sc_independent_kill_available :: bool
  sc_allow_esp_only_kill_in_lab :: bool
  sc_board_managed_safety :: bool
  sc_maximum_lease_ms :: u32

record 'c bzm_supervisor_t =
  sv_config :: bzm_supervisor_config_t
  sv_validation_ops :: "'c bzm_validation_ops_t"
  sv_ops_context :: 'c
  sv_report :: bzm_validation_report_t
  sv_owner :: bzm_supervisor_owner_t
  sv_next_run_id :: u32
  sv_lease_deadline_ms :: u64
  sv_initialized :: bool
  sv_fault_latched :: bool
  sv_fault_code :: u32
  sv_fault_detail :: string

definition maintenance_owner :: "bzm_supervisor_owner_t \<Rightarrow> bool" where
  "maintenance_owner owner \<longleftrightarrow>
     owner = BZM_SUPERVISOR_OWNER_BRIDGE_UPDATE \<or> owner = BZM_SUPERVISOR_OWNER_FACTORY_TEST
     \<or> owner = BZM_SUPERVISOR_OWNER_ESP_OTA \<or> owner = BZM_SUPERVISOR_OWNER_ESP_RESTART"

definition good :: "bzm_stage_result_t \<Rightarrow> bool" where
  "good result \<longleftrightarrow> sr_status result = BZM_CHECK_GOOD"

definition set_fault_detail :: "string option \<Rightarrow> 'c bzm_supervisor_t \<Rightarrow> 'c bzm_supervisor_t" where
  "set_fault_detail detail s = s\<lparr> sv_fault_detail := take (BZM_SUPERVISOR_FAULT_DETAIL_LENGTH - 1)
     (case detail of Some d \<Rightarrow> d | None \<Rightarrow> ''unspecified Bonanza fault'') \<rparr>"

definition bzm_supervisor_owner_name :: "bzm_supervisor_owner_t \<Rightarrow> string" where
  "bzm_supervisor_owner_name owner = (case owner of
     BZM_SUPERVISOR_OWNER_NONE \<Rightarrow> ''NONE''
   | BZM_SUPERVISOR_OWNER_VALIDATION \<Rightarrow> ''VALIDATION''
   | BZM_SUPERVISOR_OWNER_MINING \<Rightarrow> ''MINING''
   | BZM_SUPERVISOR_OWNER_BRIDGE_UPDATE \<Rightarrow> ''BRIDGE_UPDATE''
   | BZM_SUPERVISOR_OWNER_FACTORY_TEST \<Rightarrow> ''FACTORY_TEST''
   | BZM_SUPERVISOR_OWNER_ESP_OTA \<Rightarrow> ''ESP_OTA''
   | BZM_SUPERVISOR_OWNER_ESP_RESTART \<Rightarrow> ''ESP_RESTART'')"

definition zero_result :: bzm_stage_result_t where
  "zero_result = \<lparr> sr_status = BZM_CHECK_NOT_RUN, sr_code = BZM_VALIDATION_CODE_NONE, sr_detail = [] \<rparr>"

text \<open>A report cleared by \<open>memset\<close>.\<close>

definition zero_report :: bzm_validation_report_t where
  "zero_report = \<lparr> rp_schema_version = 0, rp_run_id = 0, rp_requested_stage = BZM_STAGE_OFF_SAFE,
     rp_build_max_stage = BZM_STAGE_OFF_SAFE, rp_implemented_max_stage = BZM_STAGE_OFF_SAFE,
     rp_reached_stage = BZM_STAGE_OFF_SAFE, rp_overall = BZM_CHECK_NOT_RUN, rp_state = BZM_VALIDATION_IDLE,
     rp_energized = False, rp_lease_ms = 0, rp_stages = replicate (stage_index BZM_STAGE_COUNT) zero_result,
     rp_final_safe_off = zero_result \<rparr>"

definition bzm_supervisor_init ::
    "bzm_supervisor_config_t \<Rightarrow> 'c bzm_validation_ops_t \<Rightarrow> 'c \<Rightarrow> 'c bzm_supervisor_t option" where
  "bzm_supervisor_init config validation_ops ops_context =
     (if vo_run_stage validation_ops = None \<or> vo_force_safe_off validation_ops = None
         \<or> \<not> valid_stage (sc_build_max_stage config) \<or> \<not> valid_stage (sc_implemented_max_stage config)
         \<or> sc_build_max_stage config > sc_implemented_max_stage config \<or> sc_maximum_lease_ms config = 0
      then None
      else Some \<lparr> sv_config = config, sv_validation_ops = validation_ops, sv_ops_context = ops_context,
             sv_report = zero_report, sv_owner = BZM_SUPERVISOR_OWNER_NONE, sv_next_run_id = 1,
             sv_lease_deadline_ms = 0, sv_initialized = True, sv_fault_latched = False, sv_fault_code = 0,
             sv_fault_detail = [] \<rparr>)"

definition block_report :: "bzm_validation_stage_t \<Rightarrow> string \<Rightarrow> 'c bzm_supervisor_t \<Rightarrow> 'c bzm_supervisor_t" where
  "block_report target_stage detail s =
     s\<lparr> sv_report := set_stage target_stage
          (bzm_validation_result BZM_CHECK_BLOCKED BZM_VALIDATION_CODE_PREREQUISITE_FAILED detail)
          (zero_report\<lparr> rp_schema_version := 1, rp_run_id := sv_next_run_id s,
             rp_requested_stage := target_stage, rp_build_max_stage := sc_build_max_stage (sv_config s),
             rp_implemented_max_stage := sc_implemented_max_stage (sv_config s),
             rp_overall := BZM_CHECK_BLOCKED, rp_state := BZM_VALIDATION_OFF_SAFE,
             rp_final_safe_off := bzm_validation_result BZM_CHECK_NOT_RUN BZM_VALIDATION_CODE_NONE
               ''request was blocked before hardware execution'' \<rparr>),
        sv_next_run_id := sv_next_run_id s + 1 \<rparr>"

definition safe_off_failed_code :: u32 where "safe_off_failed_code = 11"
definition stage_failed_code :: u32 where "stage_failed_code = 2"

definition stop_internal ::
    "'c bzm_supervisor_t \<Rightarrow> string option \<Rightarrow> bool \<Rightarrow> bool \<times> 'c bzm_supervisor_t" where
  "stop_internal s reason preempt_maintenance =
     (if \<not> sv_initialized s \<or> (\<not> preempt_maintenance \<and> maintenance_owner (sv_owner s)) then (False, s)
      else
        (let (safe_off, ctx) = the (vo_force_safe_off (sv_validation_ops s)) (sv_ops_context s);
             s = s\<lparr> sv_ops_context := ctx,
                    sv_report := sv_report s\<lparr> rp_final_safe_off := safe_off,
                      rp_energized := (sr_status safe_off \<noteq> BZM_CHECK_GOOD) \<rparr>,
                    sv_lease_deadline_ms := 0, sv_owner := BZM_SUPERVISOR_OWNER_NONE \<rparr>
         in if sr_status safe_off \<noteq> BZM_CHECK_GOOD
            then
              (let s = s\<lparr> sv_fault_latched := True \<rparr>;
                   s = (if sv_fault_code s = 0
                        then set_fault_detail (if sr_detail safe_off \<noteq> [] then Some (sr_detail safe_off) else reason)
                               (s\<lparr> sv_fault_code := safe_off_failed_code \<rparr>)
                        else s)
               in (False, s\<lparr> sv_report := sv_report s\<lparr> rp_overall := BZM_CHECK_BAD,
                            rp_state := BZM_VALIDATION_SHUTDOWN_UNVERIFIED \<rparr> \<rparr>))
            else (True, s\<lparr> sv_report := sv_report s\<lparr> rp_state :=
                   (if sv_fault_latched s then BZM_VALIDATION_FAULT_LATCHED else BZM_VALIDATION_OFF_SAFE) \<rparr> \<rparr>)))"

definition bzm_supervisor_stop :: "'c bzm_supervisor_t \<Rightarrow> string option \<Rightarrow> bool \<times> 'c bzm_supervisor_t" where
  "bzm_supervisor_stop s reason = stop_internal s reason False"

definition request_policy ::
    "'c bzm_supervisor_t \<Rightarrow> bzm_validation_stage_t \<Rightarrow> bool \<Rightarrow> bool \<Rightarrow> u32 \<Rightarrow> bzm_validation_policy_t" where
  "request_policy s target_stage local_arm_present hold_after_success lease_ms = \<lparr>
     vp_run_id = sv_next_run_id s,
     vp_requested_stage = target_stage,
     vp_build_max_stage = sc_build_max_stage (sv_config s),
     vp_implemented_max_stage = sc_implemented_max_stage (sv_config s),
     vp_powered_stages_compiled = sc_powered_stages_compiled (sv_config s),
     vp_local_arm_present = local_arm_present,
     vp_production_mode = sc_production_mode (sv_config s),
     vp_independent_kill_available = sc_independent_kill_available (sv_config s),
     vp_allow_esp_only_kill_in_lab = sc_allow_esp_only_kill_in_lab (sv_config s),
     vp_board_managed_safety = sc_board_managed_safety (sv_config s),
     vp_hold_after_success = hold_after_success,
     vp_lease_ms = lease_ms \<rparr>"

text \<open>The part of a validation request that follows its guards.\<close>

definition run_request ::
    "'c bzm_supervisor_t \<Rightarrow> bzm_validation_stage_t \<Rightarrow> bool \<Rightarrow> bool \<Rightarrow> u32 \<Rightarrow> u64 \<Rightarrow> bool \<times> 'c bzm_supervisor_t" where
  "run_request s target_stage local_arm_present hold_after_success lease_ms now_ms =
     (let policy = request_policy s target_stage local_arm_present hold_after_success lease_ms;
          (completed, report, ctx) =
            bzm_validation_execute (Some policy) (Some (sv_validation_ops s)) (sv_ops_context s);
          s = s\<lparr> sv_next_run_id := sv_next_run_id s + 1, sv_report := report, sv_ops_context := ctx \<rparr>
      in if \<not> completed
         then
           (let s = s\<lparr> sv_owner := BZM_SUPERVISOR_OWNER_NONE, sv_lease_deadline_ms := 0 \<rparr>;
                s = (if rp_overall (sv_report s) = BZM_CHECK_BAD
                     then
                       (let s = s\<lparr> sv_fault_latched := True \<rparr>
                        in if sv_fault_code s = 0
                           then set_fault_detail (Some ''startup step failed'') (s\<lparr> sv_fault_code := stage_failed_code \<rparr>)
                           else s)
                     else s);
                s = (if sv_fault_latched s \<and> rp_state (sv_report s) \<noteq> BZM_VALIDATION_SHUTDOWN_UNVERIFIED
                     then s\<lparr> sv_report := sv_report s\<lparr> rp_state := BZM_VALIDATION_FAULT_LATCHED \<rparr> \<rparr> else s)
            in (False, s))
         else
           (let s = (if rp_state (sv_report s) = BZM_VALIDATION_HOLDING
                     then s\<lparr> sv_owner := (if target_stage = BZM_STAGE_RUNNING then BZM_SUPERVISOR_OWNER_MINING
                                         else BZM_SUPERVISOR_OWNER_VALIDATION),
                            sv_lease_deadline_ms := now_ms + ucast lease_ms \<rparr>
                     else s\<lparr> sv_owner := BZM_SUPERVISOR_OWNER_NONE, sv_lease_deadline_ms := 0 \<rparr>);
                s = (if sv_fault_latched s
                     then s\<lparr> sv_report := sv_report s\<lparr> rp_state := BZM_VALIDATION_FAULT_LATCHED \<rparr> \<rparr> else s)
            in (True, s)))"

definition bzm_supervisor_request_validation ::
    "'c bzm_supervisor_t \<Rightarrow> bzm_validation_stage_t \<Rightarrow> bool \<Rightarrow> bool \<Rightarrow> u32 \<Rightarrow> u64 \<Rightarrow> bool \<times> 'c bzm_supervisor_t" where
  "bzm_supervisor_request_validation s target_stage local_arm_present hold_after_success lease_ms now_ms =
     (if \<not> sv_initialized s \<or> \<not> valid_stage target_stage then (False, s)
      else if maintenance_owner (sv_owner s)
      then (False, block_report target_stage ''exclusive maintenance lease is active'' s)
      else if sv_fault_latched s \<and> target_stage \<noteq> BZM_STAGE_OFF_SAFE
      then (False, snd (bzm_supervisor_stop
              (block_report target_stage ''latched fault requires a new OFF_SAFE proof and clear'' s)
              (Some ''fault-latched start rejected'')))
      else if lease_ms > sc_maximum_lease_ms (sv_config s)
      then (False, snd (bzm_supervisor_stop
              (block_report target_stage ''requested lease exceeds the compiled maximum'' s)
              (Some ''invalid validation lease'')))
      else if sv_owner s \<noteq> BZM_SUPERVISOR_OWNER_NONE
      then (case bzm_supervisor_stop s (Some ''replacing active validation'') of
              (stopped, s) \<Rightarrow>
                if \<not> stopped then (False, s)
                else run_request s target_stage local_arm_present hold_after_success lease_ms now_ms)
      else run_request s target_stage local_arm_present hold_after_success lease_ms now_ms)"

definition bzm_supervisor_tick :: "'c bzm_supervisor_t \<Rightarrow> u64 \<Rightarrow> bool \<times> 'c bzm_supervisor_t" where
  "bzm_supervisor_tick s now_ms =
     (if \<not> sv_initialized s then (False, s)
      else if (sv_owner s = BZM_SUPERVISOR_OWNER_VALIDATION \<or> sv_owner s = BZM_SUPERVISOR_OWNER_MINING)
              \<and> sv_lease_deadline_ms s \<noteq> 0 \<and> now_ms \<ge> sv_lease_deadline_ms s
      then bzm_supervisor_stop s (Some ''validation lease expired'')
      else (True, s))"

definition bzm_supervisor_heartbeat :: "'c bzm_supervisor_t \<Rightarrow> u32 \<Rightarrow> u64 \<Rightarrow> bool \<times> 'c bzm_supervisor_t" where
  "bzm_supervisor_heartbeat s lease_ms now_ms =
     (if \<not> sv_initialized s
         \<or> (sv_owner s \<noteq> BZM_SUPERVISOR_OWNER_VALIDATION \<and> sv_owner s \<noteq> BZM_SUPERVISOR_OWNER_MINING)
         \<or> rp_state (sv_report s) \<noteq> BZM_VALIDATION_HOLDING \<or> lease_ms = 0
         \<or> lease_ms > sc_maximum_lease_ms (sv_config s) \<or> now_ms \<ge> sv_lease_deadline_ms s
      then (False, s)
      else (True, s\<lparr> sv_lease_deadline_ms := now_ms + ucast lease_ms,
                     sv_report := sv_report s\<lparr> rp_lease_ms := lease_ms \<rparr> \<rparr>))"

definition bzm_supervisor_latch_fault ::
    "'c bzm_supervisor_t \<Rightarrow> u32 \<Rightarrow> string option \<Rightarrow> bool \<times> 'c bzm_supervisor_t" where
  "bzm_supervisor_latch_fault s fault_code detail =
     (if \<not> sv_initialized s \<or> fault_code = 0 then (False, s)
      else
        (let s = (if \<not> sv_fault_latched s then set_fault_detail detail (s\<lparr> sv_fault_code := fault_code \<rparr>) else s);
             (off, s) = stop_internal (s\<lparr> sv_fault_latched := True \<rparr>) detail True;
             s = s\<lparr> sv_report := sv_report s\<lparr> rp_overall := BZM_CHECK_BAD,
                    rp_state := (if off then BZM_VALIDATION_FAULT_LATCHED else rp_state (sv_report s)) \<rparr> \<rparr>
         in (off, s)))"

definition bzm_supervisor_safe_off_verified :: "'c bzm_supervisor_t \<Rightarrow> bool" where
  "bzm_supervisor_safe_off_verified s \<longleftrightarrow>
     sv_initialized s \<and> \<not> rp_energized (sv_report s)
     \<and> sr_status (rp_stages (sv_report s) ! stage_index BZM_STAGE_OFF_SAFE) = BZM_CHECK_GOOD
     \<and> good (rp_final_safe_off (sv_report s))
     \<and> (rp_state (sv_report s) = BZM_VALIDATION_OFF_SAFE \<or> rp_state (sv_report s) = BZM_VALIDATION_FAULT_LATCHED)"

definition bzm_supervisor_clear_fault :: "'c bzm_supervisor_t \<Rightarrow> bool \<times> 'c bzm_supervisor_t" where
  "bzm_supervisor_clear_fault s =
     (if \<not> sv_initialized s \<or> \<not> sv_fault_latched s
         \<or> rp_requested_stage (sv_report s) \<noteq> BZM_STAGE_OFF_SAFE \<or> \<not> bzm_supervisor_safe_off_verified s
      then (False, s)
      else (True, s\<lparr> sv_fault_latched := False, sv_fault_code := 0, sv_fault_detail := [],
                     sv_report := sv_report s\<lparr> rp_state := BZM_VALIDATION_OFF_SAFE \<rparr> \<rparr>))"

definition bzm_supervisor_acquire_maintenance ::
    "'c bzm_supervisor_t \<Rightarrow> bzm_supervisor_owner_t \<Rightarrow> u64 \<Rightarrow> bool \<times> 'c bzm_supervisor_t" where
  "bzm_supervisor_acquire_maintenance s owner now_ms =
     (if \<not> sv_initialized s \<or> \<not> maintenance_owner owner \<or> maintenance_owner (sv_owner s) then (False, s)
      else
        (let (safe, s) =
           (if sv_owner s = BZM_SUPERVISOR_OWNER_NONE
            then bzm_supervisor_request_validation s BZM_STAGE_OFF_SAFE False False 0 now_ms
            else bzm_supervisor_stop s (Some ''maintenance requested''))
         in if \<not> safe \<or> \<not> bzm_supervisor_safe_off_verified s then (False, s)
            else if sv_fault_latched s
            then (case bzm_supervisor_clear_fault s of
                    (cleared, s) \<Rightarrow> if cleared then (True, s\<lparr> sv_owner := owner \<rparr>) else (False, s))
            else (True, s\<lparr> sv_owner := owner \<rparr>)))"

definition bzm_supervisor_acquire_bridge_recovery :: "'c bzm_supervisor_t \<Rightarrow> bool \<times> 'c bzm_supervisor_t" where
  "bzm_supervisor_acquire_bridge_recovery s =
     (if \<not> sv_initialized s \<or> sv_owner s \<noteq> BZM_SUPERVISOR_OWNER_NONE \<or> \<not> sv_fault_latched s
         \<or> rp_state (sv_report s) \<noteq> BZM_VALIDATION_SHUTDOWN_UNVERIFIED
      then (False, s)
      else (True, s\<lparr> sv_owner := BZM_SUPERVISOR_OWNER_BRIDGE_UPDATE, sv_lease_deadline_ms := 0 \<rparr>))"

definition bzm_supervisor_release_maintenance ::
    "'c bzm_supervisor_t \<Rightarrow> bzm_supervisor_owner_t \<Rightarrow> bool \<times> 'c bzm_supervisor_t" where
  "bzm_supervisor_release_maintenance s owner =
     (if \<not> sv_initialized s \<or> \<not> maintenance_owner owner \<or> sv_owner s \<noteq> owner then (False, s)
      else
        (let bridge_recovery = (owner = BZM_SUPERVISOR_OWNER_BRIDGE_UPDATE \<and> sv_fault_latched s
               \<and> rp_state (sv_report s) = BZM_VALIDATION_SHUTDOWN_UNVERIFIED);
             (off, s) = stop_internal s (Some ''maintenance released'') True;
             s = (if bridge_recovery \<and> off
                  then s\<lparr> sv_report := set_stage BZM_STAGE_OFF_SAFE (rp_final_safe_off (sv_report s))
                         (sv_report s\<lparr> rp_requested_stage := BZM_STAGE_OFF_SAFE,
                                        rp_reached_stage := BZM_STAGE_OFF_SAFE \<rparr>) \<rparr>
                  else s)
         in (off, s\<lparr> sv_owner := BZM_SUPERVISOR_OWNER_NONE \<rparr>)))"

definition bzm_supervisor_prepare_restart :: "'c bzm_supervisor_t \<Rightarrow> bool \<times> 'c bzm_supervisor_t" where
  "bzm_supervisor_prepare_restart s =
     (if \<not> sv_initialized s \<or> maintenance_owner (sv_owner s) then (False, s)
      else case bzm_supervisor_stop s (Some ''ESP restart requested'') of
        (stopped, s) \<Rightarrow>
          if \<not> stopped \<or> \<not> bzm_supervisor_safe_off_verified s then (False, s)
          else (True, s\<lparr> sv_owner := BZM_SUPERVISOR_OWNER_ESP_RESTART \<rparr>))"

definition bzm_supervisor_dispatch_allowed :: "'c bzm_supervisor_t \<Rightarrow> u64 \<Rightarrow> bool" where
  "bzm_supervisor_dispatch_allowed s now_ms \<longleftrightarrow>
     sv_initialized s \<and> \<not> sv_fault_latched s \<and> sv_owner s = BZM_SUPERVISOR_OWNER_MINING
     \<and> rp_state (sv_report s) = BZM_VALIDATION_HOLDING \<and> rp_overall (sv_report s) = BZM_CHECK_GOOD
     \<and> rp_reached_stage (sv_report s) = BZM_STAGE_RUNNING \<and> sv_lease_deadline_ms s > now_ms"

definition bzm_supervisor_report :: "'c bzm_supervisor_t \<Rightarrow> bzm_validation_report_t option" where
  "bzm_supervisor_report s = (if sv_initialized s then Some (sv_report s) else None)"

section \<open>Invariant\<close>

definition leased :: "'c bzm_supervisor_t \<Rightarrow> bool" where
  "leased s \<longleftrightarrow> sv_owner s = BZM_SUPERVISOR_OWNER_VALIDATION \<or> sv_owner s = BZM_SUPERVISOR_OWNER_MINING"

definition kill_authority :: "bzm_supervisor_config_t \<Rightarrow> bool" where
  "kill_authority c \<longleftrightarrow> sc_powered_stages_compiled c
     \<and> (sc_independent_kill_available c \<or> sc_board_managed_safety c
        \<or> (\<not> sc_production_mode c \<and> sc_allow_esp_only_kill_in_lab c))"

text \<open>What holds even in the middle of an operation.\<close>

definition sup_base :: "'c bzm_supervisor_t \<Rightarrow> bool" where
  "sup_base s \<longleftrightarrow> sv_initialized s \<and> vo_run_stage (sv_validation_ops s) \<noteq> None
     \<and> vo_force_safe_off (sv_validation_ops s) \<noteq> None
     \<and> (sv_fault_latched s \<longleftrightarrow> sv_fault_code s \<noteq> 0) \<and> length (rp_stages (sv_report s)) = 8"

text \<open>A board held energised under a lease.\<close>

definition holding :: "'c bzm_supervisor_t \<Rightarrow> bool" where
  "holding s \<longleftrightarrow> leased s \<and> \<not> sv_fault_latched s \<and> rp_overall (sv_report s) = BZM_CHECK_GOOD
     \<and> rp_energized (sv_report s) \<and> BZM_STAGE_POWER_RAIL \<le> rp_reached_stage (sv_report s)
     \<and> rp_reached_stage (sv_report s) \<le> sc_build_max_stage (sv_config s)
     \<and> (\<forall>t \<le> rp_reached_stage (sv_report s). status_at (sv_report s) t = BZM_CHECK_GOOD)
     \<and> kill_authority (sv_config s)
     \<and> (sv_owner s = BZM_SUPERVISOR_OWNER_MINING \<longleftrightarrow> rp_reached_stage (sv_report s) = BZM_STAGE_RUNNING)"

definition sup_inv :: "'c bzm_supervisor_t \<Rightarrow> bool" where
  "sup_inv s \<longleftrightarrow> sup_base s
     \<and> (leased s \<longrightarrow> rp_state (sv_report s) = BZM_VALIDATION_HOLDING)
     \<and> (rp_state (sv_report s) = BZM_VALIDATION_HOLDING \<longrightarrow> holding s)
     \<and> (rp_energized (sv_report s) \<longrightarrow> rp_state (sv_report s) = BZM_VALIDATION_HOLDING
          \<or> rp_state (sv_report s) = BZM_VALIDATION_SHUTDOWN_UNVERIFIED)
     \<and> (rp_state (sv_report s) = BZM_VALIDATION_SHUTDOWN_UNVERIFIED \<longrightarrow> sv_fault_latched s \<and> rp_energized (sv_report s))
     \<and> (\<not> leased s \<longrightarrow> sv_lease_deadline_ms s = 0)"

lemma owner_kinds: "maintenance_owner w \<Longrightarrow> w \<noteq> BZM_SUPERVISOR_OWNER_NONE \<and> w \<noteq> BZM_SUPERVISOR_OWNER_VALIDATION
    \<and> w \<noteq> BZM_SUPERVISOR_OWNER_MINING"
  by (auto simp: maintenance_owner_def)

lemma set_fault_detail_simps [simp]:
  "sv_config (set_fault_detail d s) = sv_config s" "sv_validation_ops (set_fault_detail d s) = sv_validation_ops s"
  "sv_ops_context (set_fault_detail d s) = sv_ops_context s" "sv_report (set_fault_detail d s) = sv_report s"
  "sv_owner (set_fault_detail d s) = sv_owner s" "sv_lease_deadline_ms (set_fault_detail d s) = sv_lease_deadline_ms s"
  "sv_initialized (set_fault_detail d s) = sv_initialized s" "sv_fault_latched (set_fault_detail d s) = sv_fault_latched s"
  "sv_fault_code (set_fault_detail d s) = sv_fault_code s" "sv_next_run_id (set_fault_detail d s) = sv_next_run_id s"
  by (simp_all add: set_fault_detail_def)

text \<open>The hardware safe-off of the supervisor's operation table.\<close>

abbreviation sup_safe_off :: "'c bzm_supervisor_t \<Rightarrow> bzm_stage_result_t \<times> 'c" where
  "sup_safe_off s \<equiv> the (vo_force_safe_off (sv_validation_ops s)) (sv_ops_context s)"

lemma stop_internal_facts:
  assumes "sup_base s" and "preempt \<or> \<not> maintenance_owner (sv_owner s)"
    and "stop_internal s reason preempt = (off, s')"
  shows "sv_config s' = sv_config s \<and> sv_validation_ops s' = sv_validation_ops s
    \<and> sv_ops_context s' = snd (sup_safe_off s) \<and> off = good (fst (sup_safe_off s))
    \<and> sv_owner s' = BZM_SUPERVISOR_OWNER_NONE \<and> sv_lease_deadline_ms s' = 0
    \<and> sv_fault_latched s' = (sv_fault_latched s \<or> \<not> off)
    \<and> sv_fault_code s' = (if off \<or> sv_fault_code s \<noteq> 0 then sv_fault_code s else safe_off_failed_code)
    \<and> rp_energized (sv_report s') = (\<not> off) \<and> good (rp_final_safe_off (sv_report s')) = off
    \<and> rp_state (sv_report s') = (if \<not> off then BZM_VALIDATION_SHUTDOWN_UNVERIFIED
         else if sv_fault_latched s then BZM_VALIDATION_FAULT_LATCHED else BZM_VALIDATION_OFF_SAFE)
    \<and> rp_stages (sv_report s') = rp_stages (sv_report s)
    \<and> rp_requested_stage (sv_report s') = rp_requested_stage (sv_report s)
    \<and> rp_reached_stage (sv_report s') = rp_reached_stage (sv_report s)
    \<and> sup_base s'"
  using assms
  by (auto simp: stop_internal_def sup_base_def good_def Let_def safe_off_failed_code_def
      split: prod.splits if_splits)

lemma stop_internal_inv:
  "sup_base s \<Longrightarrow> preempt \<or> \<not> maintenance_owner (sv_owner s) \<Longrightarrow> sup_inv (snd (stop_internal s reason preempt))"
  using stop_internal_facts[of s preempt reason "fst (stop_internal s reason preempt)" "snd (stop_internal s reason preempt)"]
  by (auto simp: sup_inv_def leased_def)

lemma block_report_simps [simp]:
  "sup_base s \<Longrightarrow> sup_base (block_report t d s)"
  "sv_owner (block_report t d s) = sv_owner s" "sv_config (block_report t d s) = sv_config s"
  "sv_validation_ops (block_report t d s) = sv_validation_ops s" "sv_ops_context (block_report t d s) = sv_ops_context s"
  "sv_fault_latched (block_report t d s) = sv_fault_latched s" "sv_fault_code (block_report t d s) = sv_fault_code s"
  "sv_lease_deadline_ms (block_report t d s) = sv_lease_deadline_ms s"
  "rp_state (sv_report (block_report t d s)) = BZM_VALIDATION_OFF_SAFE"
  "rp_energized (sv_report (block_report t d s)) = False"
  "sv_initialized (block_report t d s) = sv_initialized s"
  by (auto simp: block_report_def sup_base_def zero_report_def)

text \<open>The last hardware call was a safe-off that reported GOOD.\<close>

definition fresh_off :: "'c bzm_supervisor_t \<Rightarrow> bool" where
  "fresh_off s \<longleftrightarrow> (\<exists>c. sv_ops_context s = snd (the (vo_force_safe_off (sv_validation_ops s)) c)
     \<and> good (fst (the (vo_force_safe_off (sv_validation_ops s)) c)))"



text \<open>What a validation request leaves behind once its guards have passed.\<close>

lemma run_request_facts:
  assumes "sup_base s" and "sv_fault_latched s \<longrightarrow> target = BZM_STAGE_OFF_SAFE"
    and "run_request s target arm hold lease now = (done, s')"
  shows "sup_inv s' \<and> sv_config s' = sv_config s \<and> sv_validation_ops s' = sv_validation_ops s
    \<and> \<not> maintenance_owner (sv_owner s') \<and> (sv_fault_latched s \<longrightarrow> sv_fault_latched s' \<and> sv_fault_code s' = sv_fault_code s)
    \<and> rp_requested_stage (sv_report s') = target
    \<and> (leased s' \<longrightarrow> done \<and> arm \<and> hold \<and> lease \<noteq> 0 \<and> rp_reached_stage (sv_report s') = target
         \<and> sv_lease_deadline_ms s' = now + ucast lease)
    \<and> (done \<and> \<not> leased s' \<longrightarrow> good (rp_final_safe_off (sv_report s')) \<and> \<not> rp_energized (sv_report s')
         \<and> status_at (sv_report s') BZM_STAGE_OFF_SAFE = BZM_CHECK_GOOD
         \<and> fresh_off s')
    \<and> (sv_fault_latched s \<and> target = BZM_STAGE_OFF_SAFE \<and> done \<longrightarrow> rp_state (sv_report s') = BZM_VALIDATION_FAULT_LATCHED)"
proof -
  let ?p = "request_policy s target arm hold lease"
  obtain run off where ops: "vo_run_stage (sv_validation_ops s) = Some run" "vo_force_safe_off (sv_validation_ops s) = Some off"
    using assms(1) by (auto simp: sup_base_def)
  obtain b rep ctx where e: "bzm_validation_execute (Some ?p) (Some (sv_validation_ops s)) (sv_ops_context s) = (b, rep, ctx)"
    by (cases rule: prod_cases3)
  note shape = execute_shape[OF ops e]
  show ?thesis
  proof (cases b)
    case True
    have "bzm_validation_execute (Some ?p) (Some (sv_validation_ops s)) (sv_ops_context s) = (True, rep, ctx)"
      using e True by simp
    note t = execute_True[OF ops this]
    have p: "vp_requested_stage ?p = target" "vp_hold_after_success ?p = hold" "vp_lease_ms ?p = lease"
        "vp_local_arm_present ?p = arm"
      by (simp_all add: request_policy_def)
    have st: "\<forall>u \<le> target. status_at rep u = BZM_CHECK_GOOD"
      using t p(1) by (auto simp: policy_accepted_def valid_stage_iff stage_order)
    show ?thesis
    proof (cases "rp_state rep = BZM_VALIDATION_HOLDING")
      case hold: True
      then have h: "BZM_STAGE_POWER_RAIL \<le> target" "hold" using t p by (auto split: if_splits)
      then have "target \<noteq> BZM_STAGE_OFF_SAFE" by (auto simp: stage_order)
      then have s': "\<not> sv_fault_latched s" "done" "s' = s\<lparr> sv_next_run_id := sv_next_run_id s + 1, sv_report := rep,
          sv_ops_context := ctx, sv_owner := (if target = BZM_STAGE_RUNNING then BZM_SUPERVISOR_OWNER_MINING
             else BZM_SUPERVISOR_OWNER_VALIDATION), sv_lease_deadline_ms := now + ucast lease \<rparr>"
        using assms(2,3) hold True e by (auto simp: run_request_def Let_def)
      have "powered_authority ?p" "target \<le> sc_build_max_stage (sv_config s)"
        using t h p by (auto simp: policy_accepted_def request_policy_def)
      then show ?thesis using s' h t st shape p assms(1) hold
        by (auto simp: sup_inv_def sup_base_def leased_def holding_def kill_authority_def powered_authority_def
            request_policy_def maintenance_owner_def)
    next
      case nohold: False
      then have off: "\<not> rp_energized rep" "rp_state rep = BZM_VALIDATION_OFF_SAFE" "good (rp_final_safe_off rep)"
        using t by (auto simp: good_def split: if_splits)
      have s': "done" "s' = s\<lparr> sv_next_run_id := sv_next_run_id s + 1,
          sv_report := (if sv_fault_latched s then rep\<lparr> rp_state := BZM_VALIDATION_FAULT_LATCHED \<rparr> else rep),
          sv_ops_context := ctx, sv_owner := BZM_SUPERVISOR_OWNER_NONE, sv_lease_deadline_ms := 0 \<rparr>"
        using assms(3) nohold True e by (auto simp: run_request_def Let_def)
      have "status_at rep BZM_STAGE_OFF_SAFE = BZM_CHECK_GOOD" using st[THEN spec, of BZM_STAGE_OFF_SAFE] by (simp add: stage_order)
      moreover have "fresh_off s'" using s' shape True nohold ops by (auto simp: fresh_off_def good_def)
      ultimately show ?thesis using s' off shape p assms(1)
        by (auto simp: sup_inv_def sup_base_def leased_def maintenance_owner_def)
    qed
  next
    case False
    have "bzm_validation_execute (Some ?p) (Some (sv_validation_ops s)) (sv_ops_context s) = (False, rep, ctx)"
      using e False by simp
    note f = execute_False[OF ops this]
    have ov: "rp_overall rep \<in> {BZM_CHECK_BAD, BZM_CHECK_BLOCKED}" using f by blast
    have "sup_inv s' \<and> sv_config s' = sv_config s \<and> sv_validation_ops s' = sv_validation_ops s
        \<and> sv_owner s' = BZM_SUPERVISOR_OWNER_NONE \<and> (sv_fault_latched s \<longrightarrow> sv_fault_latched s' \<and> sv_fault_code s' = sv_fault_code s)
        \<and> rp_requested_stage (sv_report s') = target \<and> \<not> done"
      using assms(1,3) False e shape ov
      by (auto simp: run_request_def Let_def sup_inv_def sup_base_def leased_def stage_failed_code_def request_policy_def
          split: if_splits)
    then show ?thesis by (auto simp: leased_def maintenance_owner_def)
  qed
qed

section \<open>Operations as steps\<close>

inductive sup_step :: "'c bzm_supervisor_t \<Rightarrow> 'c bzm_supervisor_t \<Rightarrow> bool" where
  request: "sup_step s (snd (bzm_supervisor_request_validation s stage arm hold lease now))"
| stop: "sup_step s (snd (bzm_supervisor_stop s reason))"
| tick: "sup_step s (snd (bzm_supervisor_tick s now))"
| heartbeat: "sup_step s (snd (bzm_supervisor_heartbeat s lease now))"
| latch: "sup_step s (snd (bzm_supervisor_latch_fault s code detail))"
| clear: "sup_step s (snd (bzm_supervisor_clear_fault s))"
| acquire: "sup_step s (snd (bzm_supervisor_acquire_maintenance s w now))"
| recovery: "sup_step s (snd (bzm_supervisor_acquire_bridge_recovery s))"
| release: "sup_step s (snd (bzm_supervisor_release_maintenance s w))"
| restart: "sup_step s (snd (bzm_supervisor_prepare_restart s))"

definition sup_start :: "'c bzm_supervisor_t \<Rightarrow> bool" where
  "sup_start s \<longleftrightarrow> (\<exists>config ops ctx. bzm_supervisor_init config ops ctx = Some s)"

lemma sup_inv_base: "sup_inv s \<Longrightarrow> sup_base s"
  by (simp add: sup_inv_def)

lemma stop_inv: "sup_inv s \<Longrightarrow> sup_inv (snd (bzm_supervisor_stop s reason))"
  using stop_internal_inv[of s False reason]
  by (cases "maintenance_owner (sv_owner s)") (auto simp: bzm_supervisor_stop_def sup_inv_base stop_internal_def)

lemma stop_base_inv:
  "sup_base s \<Longrightarrow> \<not> maintenance_owner (sv_owner s) \<Longrightarrow> sup_inv (snd (bzm_supervisor_stop s reason))"
  by (simp add: bzm_supervisor_stop_def stop_internal_inv)

lemma stop_base:
  assumes "sup_inv s" and "bzm_supervisor_stop s reason = (b, s')"
  shows "sup_base s' \<and> (b \<and> \<not> sv_fault_latched s \<longrightarrow> \<not> sv_fault_latched s')"
proof (cases "maintenance_owner (sv_owner s)")
  case True
  then show ?thesis using assms by (auto simp: bzm_supervisor_stop_def stop_internal_def sup_inv_base)
next
  case False
  then show ?thesis
    using stop_internal_facts[of s False reason b s'] assms by (auto simp: bzm_supervisor_stop_def sup_inv_base)
qed

lemma request_inv:
  assumes "sup_inv s"
  shows "sup_inv (snd (bzm_supervisor_request_validation s stage arm hold lease now))"
proof -
  let ?r = "bzm_supervisor_request_validation s stage arm hold lease now"
  have base: "sup_base s" using assms by (rule sup_inv_base)
  consider "\<not> sv_initialized s \<or> \<not> valid_stage stage"
    | (maint) "sv_initialized s" "valid_stage stage" "maintenance_owner (sv_owner s)"
    | (blocked) d r where "snd ?r = snd (bzm_supervisor_stop (block_report stage d s) r)" "\<not> maintenance_owner (sv_owner s)"
    | (run) s1 where "snd ?r = snd (run_request s1 stage arm hold lease now)" "sup_base s1"
        "sv_fault_latched s1 \<longrightarrow> stage = BZM_STAGE_OFF_SAFE"
    | (stopfail) r where "snd ?r = snd (bzm_supervisor_stop s r)"
  proof (cases "sv_initialized s \<and> valid_stage stage \<and> \<not> maintenance_owner (sv_owner s)")
    case True
    show thesis
    proof (cases "sv_fault_latched s \<and> stage \<noteq> BZM_STAGE_OFF_SAFE \<or> lease > sc_maximum_lease_ms (sv_config s)")
      case bad: True
      then have "\<exists>d r. snd ?r = snd (bzm_supervisor_stop (block_report stage d s) r)"
        using True by (auto simp: bzm_supervisor_request_validation_def)
      then show thesis using True blocked by blast
    next
      case ok: False
      obtain b s1 where st: "bzm_supervisor_stop s (Some ''replacing active validation'') = (b, s1)" by fastforce
      show thesis
      proof (cases "sv_owner s \<noteq> BZM_SUPERVISOR_OWNER_NONE")
        case owned: True
        then have r: "?r = (if \<not> b then (False, s1) else run_request s1 stage arm hold lease now)"
          using True ok st by (auto simp: bzm_supervisor_request_validation_def)
        show thesis
        proof (cases b)
          case True
          then show thesis using r stop_base[OF assms st] ok run[of s1] by auto
        next
          case False
          then show thesis using r st stopfail by (metis snd_conv)
        qed
      next
        case False
        then show thesis using True ok base run[of s] by (auto simp: bzm_supervisor_request_validation_def)
      qed
    qed
  qed (use that in auto)
  then show ?thesis
  proof cases
    case 1
    then show ?thesis using assms by (auto simp: bzm_supervisor_request_validation_def)
  next
    case maint
    then have "snd ?r = block_report stage ''exclusive maintenance lease is active'' s"
      by (simp add: bzm_supervisor_request_validation_def)
    then show ?thesis using assms owner_kinds[OF maint(3)] by (auto simp: sup_inv_def leased_def)
  next
    case blocked
    then show ?thesis using base by (auto intro: stop_base_inv)
  next
    case run
    then show ?thesis using run_request_facts[of s1 stage arm hold lease now] by (metis prod.collapse)
  next
    case stopfail
    then show ?thesis using assms stop_inv by auto
  qed
qed

lemma stop_base_latched:
  assumes "sup_base s" and "sv_fault_latched s"
  shows "sv_fault_latched (snd (bzm_supervisor_stop s reason)) \<and> sv_fault_code (snd (bzm_supervisor_stop s reason)) = sv_fault_code s"
proof (cases "maintenance_owner (sv_owner s)")
  case True
  then show ?thesis using assms(2) by (auto simp: bzm_supervisor_stop_def stop_internal_def)
next
  case False
  then show ?thesis
    using stop_internal_facts[OF assms(1), of False reason "fst (bzm_supervisor_stop s reason)" "snd (bzm_supervisor_stop s reason)"]
      assms by (auto simp: bzm_supervisor_stop_def sup_base_def)
qed

lemmas stop_latched = stop_base_latched[OF sup_inv_base]

lemma stop_fresh:
  assumes "sup_inv s" and "fst (bzm_supervisor_stop s reason)"
  shows "fresh_off (snd (bzm_supervisor_stop s reason))"
proof -
  have "\<not> maintenance_owner (sv_owner s)" using assms(2) by (auto simp: bzm_supervisor_stop_def stop_internal_def)
  then show ?thesis
    using stop_internal_facts[OF sup_inv_base[OF assms(1)], of False reason "fst (bzm_supervisor_stop s reason)" "snd (bzm_supervisor_stop s reason)"]
      assms(2) by (auto simp: bzm_supervisor_stop_def fresh_off_def)
qed

lemma blocked_stop_latched:
  assumes "sup_inv s" and "sv_fault_latched s"
  shows "sv_fault_latched (snd (bzm_supervisor_stop (block_report stage d s) r))
    \<and> sv_fault_code (snd (bzm_supervisor_stop (block_report stage d s) r)) = sv_fault_code s"
  using stop_base_latched[of "block_report stage d s" r] assms sup_inv_base[OF assms(1)] by simp

lemma latched_unowned: "sup_inv s \<Longrightarrow> sv_fault_latched s \<Longrightarrow> maintenance_owner (sv_owner s) \<or> sv_owner s = BZM_SUPERVISOR_OWNER_NONE"
  by (cases "sv_owner s") (auto simp: sup_inv_def holding_def leased_def maintenance_owner_def)

lemma request_latched:
  assumes "sup_inv s" and "sv_fault_latched s"
  shows "sv_fault_latched (snd (bzm_supervisor_request_validation s stage arm hold lease now))
    \<and> sv_fault_code (snd (bzm_supervisor_request_validation s stage arm hold lease now)) = sv_fault_code s"
  using latched_unowned[OF assms] assms blocked_stop_latched[OF assms]
    run_request_facts[OF sup_inv_base[OF assms(1)], of BZM_STAGE_OFF_SAFE arm hold lease now
      "fst (run_request s BZM_STAGE_OFF_SAFE arm hold lease now)" "snd (run_request s BZM_STAGE_OFF_SAFE arm hold lease now)"]
  by (cases "stage = BZM_STAGE_OFF_SAFE") (auto simp: bzm_supervisor_request_validation_def)

lemma request_off_safe_fresh:
  assumes "sup_inv s" and "fst (bzm_supervisor_request_validation s BZM_STAGE_OFF_SAFE False False 0 now)"
    and "sv_owner s = BZM_SUPERVISOR_OWNER_NONE"
  shows "fresh_off (snd (bzm_supervisor_request_validation s BZM_STAGE_OFF_SAFE False False 0 now))"
  using assms run_request_facts[OF sup_inv_base[OF assms(1)], of BZM_STAGE_OFF_SAFE False False 0 now
      "fst (run_request s BZM_STAGE_OFF_SAFE False False 0 now)" "snd (run_request s BZM_STAGE_OFF_SAFE False False 0 now)"]
  by (auto simp: bzm_supervisor_request_validation_def split: if_splits)





lemma clear_inv: "sup_inv s \<Longrightarrow> sup_inv (snd (bzm_supervisor_clear_fault s))"
  by (auto simp: bzm_supervisor_clear_fault_def sup_inv_def sup_base_def leased_def bzm_supervisor_safe_off_verified_def)

lemma verified_unleased: "sup_inv s \<Longrightarrow> bzm_supervisor_safe_off_verified s \<Longrightarrow> \<not> leased s"
  by (auto simp: sup_inv_def bzm_supervisor_safe_off_verified_def)

lemma own_inv:
  "sup_inv s \<Longrightarrow> \<not> leased s \<Longrightarrow> maintenance_owner w \<Longrightarrow> sup_inv (s\<lparr> sv_owner := w \<rparr>)"
  by (auto simp: sup_inv_def sup_base_def leased_def holding_def maintenance_owner_def)

lemma latch_facts:
  assumes "sup_inv s" and "code \<noteq> 0" and "bzm_supervisor_latch_fault s code detail = (off, s')"
  shows "sup_inv s' \<and> sv_fault_latched s' \<and> sv_owner s' = BZM_SUPERVISOR_OWNER_NONE
    \<and> sv_ops_context s' = snd (sup_safe_off s) \<and> off = good (fst (sup_safe_off s))
    \<and> sv_fault_code s' = (if sv_fault_latched s then sv_fault_code s else code)
    \<and> rp_energized (sv_report s') = (\<not> off) \<and> rp_overall (sv_report s') = BZM_CHECK_BAD"
proof -
  define s1 where "s1 = (if \<not> sv_fault_latched s then set_fault_detail detail (s\<lparr> sv_fault_code := code \<rparr>) else s)\<lparr> sv_fault_latched := True \<rparr>"
  obtain off1 s2 where st: "stop_internal s1 detail True = (off1, s2)" by fastforce
  have s': "off = off1" "s' = s2\<lparr> sv_report := sv_report s2\<lparr> rp_overall := BZM_CHECK_BAD,
      rp_state := (if off1 then BZM_VALIDATION_FAULT_LATCHED else rp_state (sv_report s2)) \<rparr> \<rparr>"
    using assms st by (auto simp: bzm_supervisor_latch_fault_def Let_def s1_def sup_inv_def sup_base_def split: if_splits)
  have s1: "sup_base s1" "sv_fault_latched s1" "sup_safe_off s1 = sup_safe_off s"
      "sv_fault_code s1 = (if sv_fault_latched s then sv_fault_code s else code)" "sv_fault_code s1 \<noteq> 0"
    using assms(1,2) by (auto simp: s1_def sup_inv_def sup_base_def)
  note f = stop_internal_facts[OF s1(1) _ st]
  show ?thesis using f s1 unfolding s' by (auto simp: sup_inv_def leased_def sup_base_def)
qed

lemma release_facts:
  assumes "sup_inv s" and "bzm_supervisor_release_maintenance s w = (off, s')" and "maintenance_owner w" and "sv_owner s = w"
  shows "sup_inv s' \<and> sv_owner s' = BZM_SUPERVISOR_OWNER_NONE \<and> sv_ops_context s' = snd (sup_safe_off s)
    \<and> off = good (fst (sup_safe_off s)) \<and> rp_energized (sv_report s') = (\<not> off)
    \<and> sv_fault_latched s' = (sv_fault_latched s \<or> \<not> off)
    \<and> (off \<and> rp_state (sv_report s) = BZM_VALIDATION_SHUTDOWN_UNVERIFIED \<and> w = BZM_SUPERVISOR_OWNER_BRIDGE_UPDATE
         \<longrightarrow> bzm_supervisor_safe_off_verified s')"
proof -
  obtain off1 s2 where st: "stop_internal s (Some ''maintenance released'') True = (off1, s2)" by fastforce
  have base: "sup_base s" "sv_initialized s" using assms(1) by (auto simp: sup_inv_def sup_base_def)
  define bridge where "bridge \<longleftrightarrow> w = BZM_SUPERVISOR_OWNER_BRIDGE_UPDATE \<and> sv_fault_latched s
      \<and> rp_state (sv_report s) = BZM_VALIDATION_SHUTDOWN_UNVERIFIED"
  have s': "off = off1" "s' = (if bridge \<and> off1
      then s2\<lparr> sv_report := set_stage BZM_STAGE_OFF_SAFE (rp_final_safe_off (sv_report s2))
                 (sv_report s2\<lparr> rp_requested_stage := BZM_STAGE_OFF_SAFE, rp_reached_stage := BZM_STAGE_OFF_SAFE \<rparr>) \<rparr>
      else s2)\<lparr> sv_owner := BZM_SUPERVISOR_OWNER_NONE \<rparr>"
    using assms st base by (auto simp: bzm_supervisor_release_maintenance_def Let_def bridge_def split: if_splits)
  note f = stop_internal_facts[OF base(1) _ st]
  have latched: "rp_state (sv_report s) = BZM_VALIDATION_SHUTDOWN_UNVERIFIED \<longrightarrow> sv_fault_latched s"
    using assms(1) by (simp add: sup_inv_def)
  show ?thesis using f latched unfolding s'
    by (auto simp: sup_inv_def leased_def sup_base_def bzm_supervisor_safe_off_verified_def bridge_def good_def)
qed

lemma acquire_facts:
  assumes "sup_inv s" and "bzm_supervisor_acquire_maintenance s w now = (ok, s')"
  shows "sup_inv s' \<and> (ok \<longrightarrow> maintenance_owner w \<and> \<not> maintenance_owner (sv_owner s) \<and> sv_owner s' = w
     \<and> bzm_supervisor_safe_off_verified s' \<and> \<not> sv_fault_latched s' \<and> fresh_off s')
     \<and> (sv_fault_latched s \<longrightarrow> sv_fault_latched s' \<and> sv_fault_code s' = sv_fault_code s
          \<or> bzm_supervisor_safe_off_verified s' \<and> \<not> sv_fault_latched s')"
proof (cases "maintenance_owner w \<and> \<not> maintenance_owner (sv_owner s)")
  case True
  define r where "r = (if sv_owner s = BZM_SUPERVISOR_OWNER_NONE
      then bzm_supervisor_request_validation s BZM_STAGE_OFF_SAFE False False 0 now
      else bzm_supervisor_stop s (Some ''maintenance requested''))"
  obtain safe s1 where r1: "r = (safe, s1)" by fastforce
  have inv: "sup_inv s1"
    using request_inv[OF assms(1), of BZM_STAGE_OFF_SAFE False False 0 now] stop_inv[OF assms(1), of "Some ''maintenance requested''"] r1
    by (auto simp: r_def split: if_splits)
  have latched: "sv_fault_latched s \<longrightarrow> sv_fault_latched s1 \<and> sv_fault_code s1 = sv_fault_code s"
    using request_latched[OF assms(1), of BZM_STAGE_OFF_SAFE False False 0 now]
      stop_latched[OF assms(1), of "Some ''maintenance requested''"] r1 by (auto simp: r_def split: if_splits)
  have fresh: "safe \<Longrightarrow> fresh_off s1"
    using request_off_safe_fresh[OF assms(1), of now] stop_fresh[OF assms(1), of "Some ''maintenance requested''"] r1
    by (auto simp: r_def split: if_splits)
  obtain cleared s2 where c: "bzm_supervisor_clear_fault s1 = (cleared, s2)" by fastforce
  have i2: "sup_inv s2" using clear_inv[OF inv] c by simp
  have c2: "cleared \<Longrightarrow> \<not> sv_fault_latched s2 \<and> (bzm_supervisor_safe_off_verified s1 \<longrightarrow> bzm_supervisor_safe_off_verified s2)"
    using c by (auto simp: bzm_supervisor_clear_fault_def bzm_supervisor_safe_off_verified_def split: if_splits)
  have c3: "fresh_off s1 \<Longrightarrow> fresh_off s2" "\<not> cleared \<Longrightarrow> s2 = s1"
    using c by (auto simp: bzm_supervisor_clear_fault_def fresh_off_def split: if_splits)
  have fr: "fresh_off (t\<lparr> sv_owner := w \<rparr>) = fresh_off t" for t :: "'a bzm_supervisor_t"
    by (simp add: fresh_off_def)
  have "sv_initialized s" using assms(1) by (simp add: sup_inv_def sup_base_def)
  then have res: "(ok, s') = (if \<not> safe \<or> \<not> bzm_supervisor_safe_off_verified s1 then (False, s1)
      else if sv_fault_latched s1 then if cleared then (True, s2\<lparr> sv_owner := w \<rparr>) else (False, s2)
      else (True, s1\<lparr> sv_owner := w \<rparr>))"
    using assms(2) True r1 c by (simp add: bzm_supervisor_acquire_maintenance_def r_def Let_def cong: if_cong)
  have v: "bzm_supervisor_safe_off_verified (t\<lparr> sv_owner := w \<rparr>) = bzm_supervisor_safe_off_verified t" for t :: "'a bzm_supervisor_t"
    by (simp add: bzm_supervisor_safe_off_verified_def)
  show ?thesis using res inv i2 c2 c3 fr fresh latched True v verified_unleased[OF inv] verified_unleased[OF i2] own_inv[of s1 w] own_inv[of s2 w]
    by (auto split: if_splits)
next
  case False
  then show ?thesis using assms by (auto simp: bzm_supervisor_acquire_maintenance_def split: if_splits)
qed

lemma restart_facts:
  assumes "sup_inv s" and "bzm_supervisor_prepare_restart s = (ok, s')"
  shows "sup_inv s' \<and> (ok \<longrightarrow> \<not> maintenance_owner (sv_owner s) \<and> sv_owner s' = BZM_SUPERVISOR_OWNER_ESP_RESTART
     \<and> bzm_supervisor_safe_off_verified s')"
proof -
  obtain b s1 where st: "bzm_supervisor_stop s (Some ''ESP restart requested'') = (b, s1)" by fastforce
  have inv: "sup_inv s1" using stop_inv[OF assms(1)] st by (metis snd_conv)
  have v: "bzm_supervisor_safe_off_verified (t\<lparr> sv_owner := w \<rparr>) = bzm_supervisor_safe_off_verified t" for t :: "'a bzm_supervisor_t" and w
    by (simp add: bzm_supervisor_safe_off_verified_def)
  show ?thesis using assms st inv verified_unleased[OF inv] own_inv[OF inv, of BZM_SUPERVISOR_OWNER_ESP_RESTART] v
    by (auto simp: bzm_supervisor_prepare_restart_def maintenance_owner_def split: if_splits)
qed

lemma heartbeat_inv: "sup_inv s \<Longrightarrow> sup_inv (snd (bzm_supervisor_heartbeat s lease now))"
  by (auto simp: bzm_supervisor_heartbeat_def sup_inv_def sup_base_def leased_def holding_def)

lemma recovery_inv: "sup_inv s \<Longrightarrow> sup_inv (snd (bzm_supervisor_acquire_bridge_recovery s))"
  by (auto simp: bzm_supervisor_acquire_bridge_recovery_def sup_inv_def sup_base_def leased_def holding_def)

interpretation supervisor: invariant_system sup_start sup_step sup_inv
proof
  fix s t :: "'a bzm_supervisor_t"
  show "sup_start s \<Longrightarrow> sup_inv s"
    by (auto simp: sup_start_def bzm_supervisor_init_def sup_inv_def sup_base_def leased_def zero_report_def split: if_splits)
  assume i: "sup_inv s" and "sup_step s t"
  from this(2) show "sup_inv t"
  proof cases
    case (tick now)
    then show ?thesis using i stop_inv by (auto simp: bzm_supervisor_tick_def)
  next
    case (latch code detail)
    show ?thesis
    proof (cases "code = 0")
      case True
      then show ?thesis using latch i by (simp add: bzm_supervisor_latch_fault_def)
    next
      case False
      then show ?thesis using latch latch_facts[OF i False, of detail] by (metis prod.collapse)
    qed
  next
    case (acquire w now)
    then show ?thesis using acquire_facts[OF i, of w now] by (metis prod.collapse)
  next
    case (release w)
    show ?thesis
    proof (cases "maintenance_owner w \<and> sv_owner s = w")
      case True
      then show ?thesis using release release_facts[OF i, of w] by (metis prod.collapse)
    next
      case False
      then show ?thesis using release i by (auto simp: bzm_supervisor_release_maintenance_def)
    qed
  next
    case restart
    then show ?thesis using restart_facts[OF i] by (metis prod.collapse)
  qed (use i request_inv stop_inv heartbeat_inv clear_inv recovery_inv in auto)
qed

section \<open>Properties\<close>

lemma sup_step_latched:
  assumes i: "sup_inv s" and l: "sv_fault_latched s" and "sup_step s t"
  shows "sv_fault_latched t \<and> sv_fault_code t = sv_fault_code s
    \<or> \<not> sv_fault_latched t \<and> bzm_supervisor_safe_off_verified t"
  using assms(3)
proof cases
  case (request stage arm hold lease now)
  then show ?thesis using request_latched[OF i l] by simp
next
  case (stop reason)
  then show ?thesis using stop_latched[OF i l] by simp
next
  case (tick now)
  then show ?thesis using stop_latched[OF i l] l by (auto simp: bzm_supervisor_tick_def)
next
  case (heartbeat lease now)
  then show ?thesis using l by (auto simp: bzm_supervisor_heartbeat_def)
next
  case (latch code detail)
  show ?thesis
  proof (cases "code = 0")
    case True
    then show ?thesis using latch l by (simp add: bzm_supervisor_latch_fault_def)
  next
    case False
    then show ?thesis using latch latch_facts[OF i False, of detail] l by (metis prod.collapse)
  qed
next
  case clear
  then show ?thesis using l
    by (auto simp: bzm_supervisor_clear_fault_def bzm_supervisor_safe_off_verified_def)
next
  case (acquire w now)
  then show ?thesis using acquire_facts[OF i, of w now] l by (metis prod.collapse)
next
  case recovery
  then show ?thesis using l by (auto simp: bzm_supervisor_acquire_bridge_recovery_def)
next
  case (release w)
  show ?thesis
  proof (cases "maintenance_owner w \<and> sv_owner s = w")
    case True
    obtain off s2 where st: "stop_internal s (Some ''maintenance released'') True = (off, s2)" by fastforce
    note f = stop_internal_facts[OF sup_inv_base[OF i] _ st]
    have "sv_fault_code s \<noteq> 0" "sv_initialized s" using sup_inv_base[OF i] l by (auto simp: sup_base_def)
    then show ?thesis using release True st f l
      by (auto simp: bzm_supervisor_release_maintenance_def Let_def)
  next
    case False
    then show ?thesis using release l by (auto simp: bzm_supervisor_release_maintenance_def)
  qed
next
  case restart
  then show ?thesis using stop_latched[OF i l, of "Some ''ESP restart requested''"] l
    by (auto simp: bzm_supervisor_prepare_restart_def split: prod.splits)
qed

text \<open>Concrete states for the witnesses: a production board whose hardware calls are logged, idle, mining,
  under factory test, and in bridge recovery after a failed safe-off.\<close>

definition demo_config :: bzm_supervisor_config_t where
  "demo_config = \<lparr> sc_build_max_stage = BZM_STAGE_RUNNING, sc_implemented_max_stage = BZM_STAGE_RUNNING,
     sc_powered_stages_compiled = True, sc_production_mode = True, sc_independent_kill_available = False,
     sc_allow_esp_only_kill_in_lab = False, sc_board_managed_safety = True, sc_maximum_lease_ms = 5000 \<rparr>"

definition demo_idle :: "bzm_validation_stage_t list bzm_supervisor_t" where
  "demo_idle = the (bzm_supervisor_init demo_config (logging_ops None) [])"

definition demo_mining :: "bzm_validation_stage_t list bzm_supervisor_t" where
  "demo_mining = snd (bzm_supervisor_request_validation demo_idle BZM_STAGE_RUNNING True True 500 0)"

definition demo_test :: "bzm_validation_stage_t list bzm_supervisor_t" where
  "demo_test = snd (bzm_supervisor_acquire_maintenance demo_idle BZM_SUPERVISOR_OWNER_FACTORY_TEST 0)"

definition flaky_ops :: "nat bzm_validation_ops_t" where
  "flaky_ops = \<lparr> vo_run_stage = Some (\<lambda>n s. (good_result, n)),
     vo_force_safe_off = Some (\<lambda>n. (if n = 0 then good_result\<lparr> sr_status := BZM_CHECK_BAD \<rparr> else good_result, n + 1)) \<rparr>"

definition demo_recovery :: "nat bzm_supervisor_t" where
  "demo_recovery = snd (bzm_supervisor_acquire_bridge_recovery
     (snd (bzm_supervisor_stop (the (bzm_supervisor_init demo_config flaky_ops 0)) None)))"

lemma demo_idle_reachable: "reachable sup_start sup_step demo_idle"
proof -
  have "bzm_supervisor_init demo_config (logging_ops None) [] = Some demo_idle"
    by (simp add: demo_idle_def bzm_supervisor_init_def demo_config_def logging_ops_def valid_stage_iff stage_order)
  then show ?thesis by (intro reachable.start) (auto simp: sup_start_def)
qed

lemma demo_mining_reachable: "reachable sup_start sup_step demo_mining"
  unfolding demo_mining_def by (rule reachable.step[OF demo_idle_reachable sup_step.request])

lemma demo_test_reachable: "reachable sup_start sup_step demo_test"
  unfolding demo_test_def by (rule reachable.step[OF demo_idle_reachable sup_step.acquire])

lemma demo_recovery_reachable: "reachable sup_start sup_step demo_recovery"
proof -
  have "bzm_supervisor_init demo_config flaky_ops 0 = Some (the (bzm_supervisor_init demo_config flaky_ops 0))"
    by (simp add: bzm_supervisor_init_def demo_config_def flaky_ops_def valid_stage_iff stage_order)
  then have "reachable sup_start sup_step (the (bzm_supervisor_init demo_config flaky_ops 0))"
    by (intro reachable.start) (auto simp: sup_start_def)
  then show ?thesis unfolding demo_recovery_def
    by (blast intro: reachable.step sup_step.recovery sup_step.stop)
qed

lemma demo_facts:
  "bzm_supervisor_dispatch_allowed demo_mining 100" "leased demo_mining" "sv_lease_deadline_ms demo_mining = 500"
  "sv_owner demo_test = BZM_SUPERVISOR_OWNER_FACTORY_TEST"
  "fst (bzm_supervisor_acquire_maintenance demo_idle BZM_SUPERVISOR_OWNER_FACTORY_TEST 0)"
  "sv_owner demo_recovery = BZM_SUPERVISOR_OWNER_BRIDGE_UPDATE" "sv_fault_latched demo_recovery"
  "rp_state (sv_report demo_recovery) = BZM_VALIDATION_SHUTDOWN_UNVERIFIED" "good (fst (sup_safe_off demo_recovery))"
  by code_simp+

text \<open>C1. Mining work may be dispatched only from a board in proven condition: whatever sequence of supervisor
  operations led here, if dispatch is allowed then no fault is latched, the mining lease is
  current, the board is recorded as energised, all eight validation stages are GOOD, and the
  configuration has powered stages and a kill authority.\<close>

theorem dispatch_requires_validated_board:
  assumes "reachable sup_start sup_step s" and "bzm_supervisor_dispatch_allowed s now"
  shows "sv_owner s = BZM_SUPERVISOR_OWNER_MINING \<and> \<not> sv_fault_latched s \<and> sv_fault_code s = 0
    \<and> now < sv_lease_deadline_ms s \<and> rp_energized (sv_report s)
    \<and> (\<forall>t. valid_stage t \<longrightarrow> status_at (sv_report s) t = BZM_CHECK_GOOD)
    \<and> sc_build_max_stage (sv_config s) \<ge> BZM_STAGE_RUNNING \<and> kill_authority (sv_config s)"
proof -
  have "holding s" "sup_base s"
    using supervisor.reachable_inv[OF assms(1)] assms(2)
    by (auto simp: sup_inv_def bzm_supervisor_dispatch_allowed_def)
  then show ?thesis using assms(2)
    by (auto simp: holding_def sup_base_def bzm_supervisor_dispatch_allowed_def valid_stage_iff stage_order)
qed

theorem dispatch_requires_validated_board_witness:
  "bzm_supervisor_dispatch_allowed demo_mining 100 \<and> rp_energized (sv_report demo_mining)
     \<and> status_at (sv_report demo_mining) BZM_STAGE_CLOCKS = BZM_CHECK_GOOD"
proof -
  have "valid_stage BZM_STAGE_CLOCKS" by (simp add: valid_stage_iff)
  then show ?thesis using dispatch_requires_validated_board[OF demo_mining_reachable demo_facts(1)] demo_facts(1) by blast
qed

text \<open>An operation refused without any effect on ownership or hardware.\<close>

definition refused :: "'c bzm_supervisor_t \<Rightarrow> bool \<times> 'c bzm_supervisor_t \<Rightarrow> bool" where
  "refused s r \<longleftrightarrow> \<not> fst r \<and> sv_owner (snd r) = sv_owner s \<and> sv_ops_context (snd r) = sv_ops_context s
     \<and> sv_fault_latched (snd r) = sv_fault_latched s"

text \<open>C19. A maintenance owner is exclusive: while one holds the board, validation requests, stop, heartbeat,
  restart, both ways to acquire and a release by anybody else are refused without touching the
  hardware, the lease tick does nothing and no dispatch is allowed.\<close>

theorem maintenance_is_exclusive:
  assumes "reachable sup_start sup_step s" and "maintenance_owner (sv_owner s)"
  shows "refused s (bzm_supervisor_request_validation s stage arm hold lease now)
    \<and> refused s (bzm_supervisor_stop s reason)
    \<and> refused s (bzm_supervisor_heartbeat s lease now)
    \<and> refused s (bzm_supervisor_prepare_restart s)
    \<and> refused s (bzm_supervisor_acquire_maintenance s w now)
    \<and> refused s (bzm_supervisor_acquire_bridge_recovery s)
    \<and> (w \<noteq> sv_owner s \<longrightarrow> refused s (bzm_supervisor_release_maintenance s w))
    \<and> bzm_supervisor_tick s now = (True, s)
    \<and> \<not> bzm_supervisor_dispatch_allowed s now"
  using supervisor.reachable_inv[OF assms(1)] assms(2) owner_kinds[OF assms(2)]
  by (auto simp: refused_def sup_inv_def sup_base_def
      bzm_supervisor_request_validation_def bzm_supervisor_stop_def stop_internal_def
      bzm_supervisor_tick_def bzm_supervisor_heartbeat_def bzm_supervisor_dispatch_allowed_def
      bzm_supervisor_acquire_maintenance_def bzm_supervisor_acquire_bridge_recovery_def
      bzm_supervisor_prepare_restart_def bzm_supervisor_release_maintenance_def)

theorem maintenance_is_exclusive_witness:
  "maintenance_owner (sv_owner demo_test) \<and> refused demo_test (bzm_supervisor_stop demo_test None)"
proof -
  have "maintenance_owner (sv_owner demo_test)" using demo_facts(4) by (simp add: maintenance_owner_def)
  then show ?thesis using maintenance_is_exclusive[OF demo_test_reachable] by blast
qed



text \<open>C20. A latched fault stays: from a state with a latched fault, every operation keeps the fault and its
  first code, or ends in a state where the fault is cleared and the board verified off. No
  dispatch is allowed meanwhile.\<close>

theorem fault_stays_latched:
  assumes "reachable sup_start sup_step s" and "sv_fault_latched s" and "sup_step s t"
  shows "(sv_fault_latched t \<and> sv_fault_code t = sv_fault_code s
    \<or> \<not> sv_fault_latched t \<and> bzm_supervisor_safe_off_verified t) \<and> \<not> bzm_supervisor_dispatch_allowed t now"
  using sup_step_latched[OF supervisor.reachable_inv[OF assms(1)] assms(2,3)]
  by (auto simp: bzm_supervisor_dispatch_allowed_def bzm_supervisor_safe_off_verified_def)

theorem fault_stays_latched_witness:
  "sv_fault_latched demo_recovery \<and> \<not> bzm_supervisor_dispatch_allowed (snd (bzm_supervisor_tick demo_recovery 7)) 7"
  using fault_stays_latched[OF demo_recovery_reachable demo_facts(7) sup_step.tick, of 7 7] demo_facts(7) by blast

text \<open>Reporting a fault stops the board in every reachable state, whoever owns it: safe-off is called, the
  owner is removed, the fault is latched under the first reported code, and the report shows BAD,
  energised exactly when safe-off was not verified.\<close>

theorem latch_fault_stops:
  assumes "reachable sup_start sup_step s" and "code \<noteq> 0"
    and "bzm_supervisor_latch_fault s code detail = (off, t)"
  shows "sv_ops_context t = snd (sup_safe_off s) \<and> off = good (fst (sup_safe_off s))
    \<and> sv_owner t = BZM_SUPERVISOR_OWNER_NONE \<and> sv_fault_latched t
    \<and> sv_fault_code t = (if sv_fault_latched s then sv_fault_code s else code)
    \<and> rp_overall (sv_report t) = BZM_CHECK_BAD \<and> rp_energized (sv_report t) = (\<not> off)
    \<and> (\<forall>now. \<not> bzm_supervisor_dispatch_allowed t now)"
  using latch_facts[OF supervisor.reachable_inv[OF assms(1)] assms(2,3)]
  by (auto simp: bzm_supervisor_dispatch_allowed_def)

theorem latch_fault_stops_witness:
  "sv_owner (snd (bzm_supervisor_latch_fault demo_mining 7 None)) = BZM_SUPERVISOR_OWNER_NONE
     \<and> sv_fault_code (snd (bzm_supervisor_latch_fault demo_mining 7 None)) = 7"
proof -
  have "\<not> sv_fault_latched demo_mining" using demo_facts(1) by (simp add: bzm_supervisor_dispatch_allowed_def)
  moreover have "(7::u32) \<noteq> 0" by simp
  ultimately show ?thesis
    using latch_fault_stops[OF demo_mining_reachable, of 7 None "fst (bzm_supervisor_latch_fault demo_mining 7 None)"
        "snd (bzm_supervisor_latch_fault demo_mining 7 None)"] by simp
qed

text \<open>The lease bounds unattended operation: ticking at or after the deadline of a lease calls safe-off and
  takes the board from its holder, ticking earlier changes nothing, and a heartbeat before the
  deadline extends a mining lease, with dispatch allowed for as long as the new lease lasts
  (unless the 64-bit deadline wraps). A late heartbeat is refused.\<close>

theorem lease_expiry:
  assumes "reachable sup_start sup_step s" and "leased s" and "sv_lease_deadline_ms s \<noteq> 0"
  shows "if now < sv_lease_deadline_ms s
    then bzm_supervisor_tick s now = (True, s)
      \<and> (lease \<noteq> 0 \<and> lease \<le> sc_maximum_lease_ms (sv_config s) \<longrightarrow>
          fst (bzm_supervisor_heartbeat s lease now)
          \<and> sv_lease_deadline_ms (snd (bzm_supervisor_heartbeat s lease now)) = now + ucast lease
          \<and> (sv_owner s = BZM_SUPERVISOR_OWNER_MINING \<and> later < now + ucast lease \<longrightarrow>
               bzm_supervisor_dispatch_allowed (snd (bzm_supervisor_heartbeat s lease now)) later))
    else sv_owner (snd (bzm_supervisor_tick s now)) = BZM_SUPERVISOR_OWNER_NONE
      \<and> sv_ops_context (snd (bzm_supervisor_tick s now)) = snd (sup_safe_off s)
      \<and> fst (bzm_supervisor_tick s now) = good (fst (sup_safe_off s))
      \<and> \<not> bzm_supervisor_dispatch_allowed (snd (bzm_supervisor_tick s now)) later
      \<and> bzm_supervisor_heartbeat s lease now = (False, s)"
proof -
  have i: "sup_inv s" by (rule supervisor.reachable_inv[OF assms(1)])
  then have h: "rp_state (sv_report s) = BZM_VALIDATION_HOLDING" "holding s" "sv_initialized s"
    using assms(2) by (auto simp: sup_inv_def sup_base_def)
  have own: "sv_owner s = BZM_SUPERVISOR_OWNER_VALIDATION \<or> sv_owner s = BZM_SUPERVISOR_OWNER_MINING"
    using assms(2) by (simp add: leased_def)
  show ?thesis
  proof (cases "now < sv_lease_deadline_ms s")
    case True
    then have "\<not> sv_lease_deadline_ms s \<le> now" by simp
    then show ?thesis using True h own
      by (auto simp: bzm_supervisor_tick_def bzm_supervisor_heartbeat_def holding_def bzm_supervisor_dispatch_allowed_def)
  next
    case False
    then have late: "sv_lease_deadline_ms s \<le> now" by simp
    then have tick: "bzm_supervisor_tick s now = stop_internal s (Some ''validation lease expired'') False"
      using own assms(3) h(3) by (auto simp: bzm_supervisor_tick_def bzm_supervisor_stop_def)
    have "\<not> maintenance_owner (sv_owner s)" using own by (auto simp: maintenance_owner_def)
    then show ?thesis using False late own
        stop_internal_facts[OF sup_inv_base[OF i], of False "Some ''validation lease expired''"
          "fst (bzm_supervisor_tick s now)" "snd (bzm_supervisor_tick s now)"]
      by (auto simp: tick bzm_supervisor_dispatch_allowed_def bzm_supervisor_heartbeat_def)
  qed
qed

theorem lease_expiry_witness:
  "sv_owner (snd (bzm_supervisor_tick demo_mining 500)) = BZM_SUPERVISOR_OWNER_NONE
     \<and> bzm_supervisor_heartbeat demo_mining 100 500 = (False, demo_mining)"
  using lease_expiry[OF demo_mining_reachable demo_facts(2), of 500 100] by (simp add: demo_facts(3))

text \<open>C33. Bridge recovery loses its evidence when a validation request arrives meanwhile. Releasing a recovery
  whose shutdown was unverified, with a GOOD safe-off, yields a verified safe-off. But a request in
  between, though refused, replaces the report: it then claims OFF_SAFE and not energised although
  nothing was verified, and the same release no longer yields a verified safe-off, so a restart
  cannot be prepared.\<close>

theorem refused_request_erases_recovery:
  assumes "reachable sup_start sup_step s" and "sv_owner s = BZM_SUPERVISOR_OWNER_BRIDGE_UPDATE"
    and "rp_state (sv_report s) = BZM_VALIDATION_SHUTDOWN_UNVERIFIED" and "good (fst (sup_safe_off s))"
    and "bzm_supervisor_request_validation s BZM_STAGE_OFF_SAFE arm hold lease now = (b, t)"
  shows "bzm_supervisor_safe_off_verified (snd (bzm_supervisor_release_maintenance s BZM_SUPERVISOR_OWNER_BRIDGE_UPDATE))
    \<and> rp_energized (sv_report s) \<and> \<not> b \<and> sv_ops_context t = sv_ops_context s
    \<and> rp_state (sv_report t) = BZM_VALIDATION_OFF_SAFE \<and> \<not> rp_energized (sv_report t)
    \<and> \<not> bzm_supervisor_safe_off_verified (snd (bzm_supervisor_release_maintenance t BZM_SUPERVISOR_OWNER_BRIDGE_UPDATE))"
proof -
  have i: "sup_inv s" by (rule supervisor.reachable_inv[OF assms(1)])
  have m: "maintenance_owner BZM_SUPERVISOR_OWNER_BRIDGE_UPDATE" by (simp add: maintenance_owner_def)
  have base: "sup_base s" "sv_initialized s" using i by (auto simp: sup_inv_def sup_base_def)
  have t: "\<not> b" "t = block_report BZM_STAGE_OFF_SAFE ''exclusive maintenance lease is active'' s"
    using assms(2,5) m base by (auto simp: bzm_supervisor_request_validation_def valid_stage_iff)
  have "bzm_supervisor_safe_off_verified (snd (bzm_supervisor_release_maintenance s BZM_SUPERVISOR_OWNER_BRIDGE_UPDATE))"
    using release_facts[OF i _ m assms(2)] assms(3,4) by (metis prod.collapse)
  moreover have "\<not> bzm_supervisor_safe_off_verified (snd (bzm_supervisor_release_maintenance t BZM_SUPERVISOR_OWNER_BRIDGE_UPDATE))"
  proof -
    obtain off t2 where st: "stop_internal t (Some ''maintenance released'') True = (off, t2)" by fastforce
    have "rp_stages (sv_report t2) = rp_stages (sv_report t)"
      using stop_internal_facts[OF _ _ st] base t(2) by simp
    moreover have "status_at (sv_report t) BZM_STAGE_OFF_SAFE = BZM_CHECK_BLOCKED"
      by (simp add: t(2) block_report_def zero_report_def bzm_validation_result_def)
    ultimately show ?thesis using t(2) st
      by (auto simp: bzm_supervisor_release_maintenance_def bzm_supervisor_safe_off_verified_def Let_def)
  qed
  moreover have "rp_energized (sv_report s)" using i assms(3) by (simp add: sup_inv_def)
  ultimately show ?thesis using t by simp
qed

theorem refused_request_erases_recovery_witness:
  "\<not> bzm_supervisor_safe_off_verified (snd (bzm_supervisor_release_maintenance
       (snd (bzm_supervisor_request_validation demo_recovery BZM_STAGE_OFF_SAFE False False 0 1)) BZM_SUPERVISOR_OWNER_BRIDGE_UPDATE))
   \<and> bzm_supervisor_safe_off_verified (snd (bzm_supervisor_release_maintenance demo_recovery BZM_SUPERVISOR_OWNER_BRIDGE_UPDATE))"
  using refused_request_erases_recovery[OF demo_recovery_reachable demo_facts(6,8,9), of False False 0 1] by (metis prod.collapse)

end
