(* ===== verification/JobStore.thy ===== *)
theory JobStore
  imports Prelude
begin

text \<open>
  Mining jobs (\<open>components/mining_job/asic_job.c\<close>) and the job store that keeps the jobs given to
  the hardware (\<open>components/asic/asic_job_store.c\<close>). A \<open>char\<close> array is the list of its bytes, a
  borrowed job pointer is a job with the reference it is known by (the source compares
  pointers). Each operation is atomic under the store's lock; the submission lock is a flag, and
  beginning a submission while it is taken has no result (\<open>None\<close>: the caller blocks). Allocation
  and mutex creation succeed or fail as given by arguments. Difficulties are kept as opaque
  values of a type parameter.
\<close>

section \<open>Model\<close>

abbreviation ASIC_JOB_ID_LEN :: nat where "ASIC_JOB_ID_LEN \<equiv> 32"
abbreviation ASIC_JOB_EXTRANONCE2_SIZE :: nat where "ASIC_JOB_EXTRANONCE2_SIZE \<equiv> 32"
abbreviation ASIC_JOB_EXTRANONCE2_HEX_SIZE :: nat where "ASIC_JOB_EXTRANONCE2_HEX_SIZE \<equiv> 65"
abbreviation ASIC_JOB_STORE_CAPACITY :: nat where "ASIC_JOB_STORE_CAPACITY \<equiv> 256"
abbreviation ASIC_WORK_HANDLE_INVALID :: u64 where "ASIC_WORK_HANDLE_INVALID \<equiv> UINT64_MAX"

datatype mining_job_source_t = JOB_TYPE_V1 | JOB_TYPE_SV2_STANDARD | JOB_TYPE_SV2_EXTENDED

record 'd asic_job_t =
  aj_version :: u32
  aj_version_mask :: u32
  aj_prev_hash :: "u8 list"
  aj_merkle_root :: "u8 list"
  aj_ntime :: u32
  aj_nbits :: u32
  aj_starting_nonce :: u32
  aj_pool_diff :: 'd
  aj_pool_id :: u8
  aj_source_type :: mining_job_source_t
  aj_job_id :: "u8 list"
  aj_extranonce2 :: "u8 list"

record asic_job_context_t =
  jc_work_generation :: u64
  jc_job_version :: u32
  jc_clean_jobs :: bool
  jc_pool_work :: bool

type_synonym asic_work_handle_t = u64

definition write_le32 :: "u32 \<Rightarrow> u8 list" where
  "write_le32 v = le_bytes 4 v"

definition asic_job_header :: "'d asic_job_t \<Rightarrow> u32 \<Rightarrow> u32 \<Rightarrow> u8 list" where
  "asic_job_header job nonce version =
     write_le32 version @ aj_prev_hash job @ aj_merkle_root job @ write_le32 (aj_ntime job)
     @ write_le32 (aj_nbits job) @ write_le32 nonce"

text \<open>An entry cleared by \<open>memset\<close> is invalid; the rest of its bytes is never read.\<close>

record 'd asic_job_store_entry_t =
  en_valid :: bool
  en_handle :: asic_work_handle_t
  en_template :: "'d asic_job_t option"
  en_context :: asic_job_context_t

type_synonym 'd job_ref = "nat \<times> 'd asic_job_t"

record 'd asic_job_store_t =
  js_submission_locked :: bool
  js_submission_job :: "nat option"
  js_submission_context :: asic_job_context_t
  js_entries :: "'d asic_job_store_entry_t list option"
  js_capacity :: u16
  js_next_slot :: u16
  js_next_generation :: u64

definition zero_context :: asic_job_context_t where
  "zero_context = \<lparr> jc_work_generation = 0, jc_job_version = 0, jc_clean_jobs = False, jc_pool_work = False \<rparr>"

definition clear_entry :: "'d asic_job_store_entry_t" where
  "clear_entry = \<lparr> en_valid = False, en_handle = 0, en_template = None, en_context = zero_context \<rparr>"

definition zero_store :: "'d asic_job_store_t" where
  "zero_store = \<lparr> js_submission_locked = False, js_submission_job = None, js_submission_context = zero_context,
     js_entries = None, js_capacity = 0, js_next_slot = 0, js_next_generation = 0 \<rparr>"

definition asic_job_store_init_with_caps :: "bool \<Rightarrow> bool \<Rightarrow> bool \<Rightarrow> bool \<times> 'd asic_job_store_t" where
  "asic_job_store_init_with_caps alloc_ok lock_ok submission_lock_ok =
     (if \<not> alloc_ok then (False, zero_store)
      else if \<not> lock_ok then (False, zero_store)
      else if \<not> submission_lock_ok then (False, zero_store)
      else (True, zero_store\<lparr> js_entries := Some (replicate ASIC_JOB_STORE_CAPACITY clear_entry),
                    js_capacity := of_nat ASIC_JOB_STORE_CAPACITY, js_next_generation := 1 \<rparr>))"

definition asic_job_store_init :: "bool \<Rightarrow> bool \<Rightarrow> bool \<Rightarrow> bool \<times> 'd asic_job_store_t" where
  "asic_job_store_init alloc_ok lock_ok submission_lock_ok =
     asic_job_store_init_with_caps alloc_ok lock_ok submission_lock_ok"

definition asic_job_store_begin_submission ::
    "'d asic_job_store_t \<Rightarrow> 'd job_ref \<Rightarrow> asic_job_context_t \<Rightarrow> 'd asic_job_store_t option" where
  "asic_job_store_begin_submission s job context =
     (if js_submission_locked s then None
      else Some (s\<lparr> js_submission_locked := True, js_submission_job := Some (fst job),
                    js_submission_context := context \<rparr>))"

definition asic_job_store_end_submission :: "'d asic_job_store_t \<Rightarrow> 'd asic_job_store_t" where
  "asic_job_store_end_submission s =
     s\<lparr> js_submission_job := None, js_submission_context := zero_context, js_submission_locked := False \<rparr>"

text \<open>The context a job is submitted under: the bound one, or a default carrying its version.\<close>

definition context_for :: "'d asic_job_store_t \<Rightarrow> 'd job_ref \<Rightarrow> asic_job_context_t" where
  "context_for s job =
     (if js_submission_job s = Some (fst job) then js_submission_context s
      else zero_context\<lparr> jc_job_version := aj_version (snd job) \<rparr>)"

definition asic_job_store_submission_context ::
    "'d asic_job_store_t \<Rightarrow> 'd job_ref \<Rightarrow> (bool \<times> asic_job_context_t) option" where
  "asic_job_store_submission_context s job =
     (if js_entries s = None then None
      else Some (js_submission_job s = Some (fst job), context_for s job))"

definition store_entry ::
    "'d asic_job_store_t \<Rightarrow> u8 \<Rightarrow> asic_work_handle_t \<Rightarrow> 'd job_ref \<Rightarrow> 'd asic_job_store_t" where
  "store_entry s slot handle job =
     s\<lparr> js_entries := map_option (\<lambda>entries. entries[unat slot :=
          \<lparr> en_valid = True, en_handle = handle, en_template = Some (snd job), en_context = context_for s job \<rparr>])
        (js_entries s) \<rparr>"

definition asic_job_store_store_slot ::
    "'d asic_job_store_t \<Rightarrow> u8 \<Rightarrow> 'd job_ref \<Rightarrow> (asic_work_handle_t \<times> 'd asic_job_store_t) option" where
  "asic_job_store_store_slot s slot job =
     (if js_entries s = None \<or> ucast slot \<ge> js_capacity s then None
      else Some (ucast slot, store_entry s slot (ucast slot) job))"

definition asic_job_store_store_generated ::
    "'d asic_job_store_t \<Rightarrow> 'd job_ref \<Rightarrow> (asic_work_handle_t \<times> 'd asic_job_store_t) option" where
  "asic_job_store_store_generated s job =
     (if js_entries s = None \<or> js_capacity s = 0 then None
      else
        (let slot = ucast (js_next_slot s mod js_capacity s) :: u8;
             generation = js_next_generation s;
             next_generation = (if generation + 1 = 0 then 1 else generation + 1);
             generated = push_bit 8 generation OR ucast slot
         in Some (generated, store_entry (s\<lparr> js_next_slot := js_next_slot s + 1,
                                              js_next_generation := next_generation \<rparr>) slot generated job)))"

text \<open>The entry a handle denotes, if it is still there.\<close>

definition find_entry :: "'d asic_job_store_t \<Rightarrow> asic_work_handle_t \<Rightarrow> 'd asic_job_store_entry_t option" where
  "find_entry s handle =
     (case js_entries s of
        None \<Rightarrow> None
      | Some entries \<Rightarrow>
          if handle = ASIC_WORK_HANDLE_INVALID then None
          else if ucast (ucast handle :: u8) \<ge> js_capacity s then None
          else
            (let entry = entries ! unat (ucast handle :: u8)
             in if en_valid entry \<and> en_handle entry = handle then Some entry else None))"

definition asic_job_store_snapshot_with_context ::
    "'d asic_job_store_t \<Rightarrow> asic_work_handle_t \<Rightarrow> ('d asic_job_t \<times> asic_job_context_t) option" where
  "asic_job_store_snapshot_with_context s handle =
     map_option (\<lambda>entry. (the (en_template entry), en_context entry)) (find_entry s handle)"

definition asic_job_store_snapshot :: "'d asic_job_store_t \<Rightarrow> asic_work_handle_t \<Rightarrow> 'd asic_job_t option" where
  "asic_job_store_snapshot s handle = map_option fst (asic_job_store_snapshot_with_context s handle)"

definition asic_job_store_contains :: "'d asic_job_store_t \<Rightarrow> asic_work_handle_t \<Rightarrow> bool" where
  "asic_job_store_contains s handle \<longleftrightarrow> find_entry s handle \<noteq> None"

definition asic_job_store_release :: "'d asic_job_store_t \<Rightarrow> asic_work_handle_t \<Rightarrow> bool \<times> 'd asic_job_store_t" where
  "asic_job_store_release s handle =
     (if find_entry s handle = None then (False, s)
      else (True, s\<lparr> js_entries := map_option (\<lambda>entries. entries[unat (ucast handle :: u8) := clear_entry]) (js_entries s) \<rparr>))"

definition asic_job_store_invalidate_all :: "'d asic_job_store_t \<Rightarrow> 'd asic_job_store_t" where
  "asic_job_store_invalidate_all s =
     (if js_entries s = None then s
      else s\<lparr> js_entries := map_option (\<lambda>entries. replicate (unat (js_capacity s)) clear_entry @ drop (unat (js_capacity s)) entries)
                (js_entries s),
              js_next_slot := 0,
              js_next_generation := (if js_next_generation s + 1 = 0 then 1 else js_next_generation s + 1) \<rparr>)"

definition asic_job_store_destroy :: "'d asic_job_store_t \<Rightarrow> 'd asic_job_store_t" where
  "asic_job_store_destroy s = zero_store"

section \<open>A store as a map from handles to jobs\<close>

text \<open>
  The contract clients rely on. Every handle belongs to a slot; storing replaces whatever the slot
  held and yields a handle that leads to the stored work, releasing and invalidating only remove.
\<close>

locale handle_store =
  fixes look :: "'s \<Rightarrow> 'h \<Rightarrow> 'w option" and slot_of :: "'h \<Rightarrow> 'k"
    and put :: "'s \<Rightarrow> 'j \<Rightarrow> ('h \<times> 's) option" and work :: "'s \<Rightarrow> 'j \<Rightarrow> 'w"
    and remove :: "'s \<Rightarrow> 'h \<Rightarrow> 's" and wipe :: "'s \<Rightarrow> 's"
    and ok :: "'s \<Rightarrow> bool" and issued :: "'s \<Rightarrow> 'h \<Rightarrow> bool"
  assumes put_new: "ok s \<Longrightarrow> put s j = Some (h, t) \<Longrightarrow> \<not> issued s h \<and> issued t h"
    and put_look: "ok s \<Longrightarrow> put s j = Some (h, t) \<Longrightarrow>
        look t = (\<lambda>g. if g = h then Some (work s j) else if slot_of g = slot_of h then None else look s g)"
    and put_issued: "ok s \<Longrightarrow> put s j = Some (h, t) \<Longrightarrow> issued s g \<Longrightarrow> issued t g"
    and remove_look: "ok s \<Longrightarrow> look (remove s h) = (look s)(h := None)"
    and remove_issued: "issued (remove s h) g = issued s g"
    and wipe_look: "ok s \<Longrightarrow> look (wipe s) = Map.empty"
    and wipe_issued: "ok s \<Longrightarrow> issued s g \<Longrightarrow> issued (wipe s) g"
begin

text \<open>Work that is gone does not come back under its old handle.\<close>

lemma put_keeps_gone: "ok s \<Longrightarrow> put s j = Some (h, t) \<Longrightarrow> issued s g \<Longrightarrow> look s g = None \<Longrightarrow> look t g = None"
  using put_new[of s j h t] put_look[of s j h t] by auto

lemma remove_keeps_gone: "ok s \<Longrightarrow> look s g = None \<Longrightarrow> look (remove s h) g = None"
  by (simp add: remove_look)

lemma wipe_all_gone: "ok s \<Longrightarrow> look (wipe s) g = None"
  by (simp add: wipe_look)

lemma put_displaces:
  "ok s \<Longrightarrow> put s j = Some (h, t) \<Longrightarrow> issued s g \<Longrightarrow> slot_of g = slot_of h \<Longrightarrow> look t g = None"
  using put_new[of s j h t] put_look[of s j h t] by auto

lemma look_put_same: "ok s \<Longrightarrow> put s j = Some (h, t) \<Longrightarrow> look t h = Some (work s j)"
  by (simp add: put_look)

end

section \<open>Handles\<close>

definition handle_slot :: "asic_work_handle_t \<Rightarrow> u8" where
  "handle_slot h = ucast h"

definition handle_generation :: "asic_work_handle_t \<Rightarrow> u64" where
  "handle_generation h = drop_bit 8 h"

lemma generated_slot: "handle_slot (push_bit 8 g OR ucast (slot :: u8)) = slot"
proof (rule bit_word_eqI)
  fix n
  assume n: "n < LENGTH(8)"
  then show "bit (handle_slot (push_bit 8 g OR ucast slot)) n = bit slot n"
    by (simp add: handle_slot_def bit_simps)
qed

lemma generated_generation:
  assumes "g < 2 ^ 56"
  shows "handle_generation (push_bit 8 g OR ucast (slot :: u8)) = (g :: u64)"
proof (rule bit_word_eqI)
  fix n
  assume n: "n < LENGTH(64)"
  have "g = take_bit 56 g"
    using assms by (simp add: word_unat_eq_iff unsigned_take_bit_eq word_less_nat_alt take_bit_nat_eq_self)
  then have high: "\<not> bit g n" if "56 \<le> n" using that by (metis bit_take_bit_iff not_le)
  have "\<not> bit slot (8 + n)" using bit_imp_le_length[of slot "8 + n"] by auto
  then show "bit (handle_generation (push_bit 8 g OR ucast slot)) n = bit g n"
    using n high by (cases "n < 56") (auto simp: handle_generation_def bit_simps)
qed

lemma invalid_generation: "handle_generation ASIC_WORK_HANDLE_INVALID = 0xFFFFFFFFFFFFFF"
  by (simp add: handle_generation_def)

section \<open>Well-formed stores\<close>

text \<open>The store below its last usable generation, \<open>2^56 - 2\<close>: handles keep 56 bits of the generation.\<close>

definition store_inv :: "'d asic_job_store_t \<Rightarrow> bool" where
  "store_inv s \<longleftrightarrow> (\<exists>es. js_entries s = Some es \<and> length es = 256
      \<and> (\<forall>i < 256. en_valid (es ! i) \<longrightarrow> unat (handle_slot (en_handle (es ! i))) = i
            \<and> handle_generation (en_handle (es ! i)) < js_next_generation s \<and> en_template (es ! i) \<noteq> None))
    \<and> js_capacity s = 256 \<and> 0 < js_next_generation s"

definition store_ok :: "'d asic_job_store_t \<Rightarrow> bool" where
  "store_ok s \<longleftrightarrow> store_inv s \<and> js_next_generation s < 0xFFFFFFFFFFFFFF"

definition issued :: "'d asic_job_store_t \<Rightarrow> asic_work_handle_t \<Rightarrow> bool" where
  "issued s h \<longleftrightarrow> handle_generation h < js_next_generation s"

lemma unat_slot: "unat (x :: u8) < 256"
proof -
  have "unat x < 2 ^ LENGTH(8)" by (rule unsigned_less)
  then show ?thesis by simp
qed

lemma slot_in_range: "\<not> (256 :: u16) \<le> ucast (x :: u8)"
proof -
  have "unat (ucast x :: u16) \<le> unat x" by (simp add: unsigned_ucast_eq)
  then have "unat (ucast x :: u16) < 256" using unat_slot[of x] by linarith
  then show ?thesis by (simp add: word_le_nat_alt)
qed

lemma find_entry_eq:
  assumes "store_inv s" and "js_entries s = Some es"
  shows "find_entry s h = (let e = es ! unat (handle_slot h) in
     if h \<noteq> ASIC_WORK_HANDLE_INVALID \<and> en_valid e \<and> en_handle e = h then Some e else None)"
  using assms slot_in_range[of "ucast h"] by (simp add: find_entry_def store_inv_def handle_slot_def Let_def)

lemma unat_slot_eq: "unat (x :: u8) = unat y \<longleftrightarrow> x = y"
  by (simp add: word_unat_eq_iff)

lemma next_generation:
  assumes "g < (0xFFFFFFFFFFFFFF :: u64)"
  shows "(if g + 1 = 0 then 1 else g + 1) = g + 1" "g < g + 1" "0 < g + 1" "g < 2 ^ 56"
proof -
  have n: "unat g < 0xFFFFFFFFFFFFFF" using assms by (simp add: word_less_nat_alt)
  then have "unat (g + 1) = unat g + 1" by (simp add: unat_word_ariths)
  then show "(if g + 1 = 0 then 1 else g + 1) = g + 1" "g < g + 1" "0 < g + 1" "g < 2 ^ 56"
    using n by (auto simp: word_less_nat_alt word_unat_eq_iff)
qed

lemma store_entry_inv:
  assumes "store_inv s" and "js_entries s = Some es" and "handle_slot h = slot"
    and "handle_generation h < g" and "js_next_generation s \<le> g"
  shows "store_inv (store_entry (s\<lparr> js_next_slot := n, js_next_generation := g \<rparr>) slot h job)"
proof -
  have "0 < g" using assms(1,5) by (auto simp: store_inv_def)
  then show ?thesis using assms unat_slot[of slot]
    by (auto simp: store_inv_def store_entry_def nth_list_update)
qed

lemma store_entry_find:
  assumes "store_inv s" and "js_entries s = Some es" and "handle_slot h = slot" and "h \<noteq> ASIC_WORK_HANDLE_INVALID"
    and "js_entries t = js_entries s" and "js_capacity t = js_capacity s"
  shows "find_entry (store_entry t slot h job) g =
    (if g = h then Some \<lparr> en_valid = True, en_handle = h, en_template = Some (snd job), en_context = context_for t job \<rparr>
     else if handle_slot g = slot then None else find_entry s g)"
proof -
  have es: "length es = 256" "js_capacity s = 256" using assms(1,2) by (auto simp: store_inv_def)
  show ?thesis using assms es unat_slot[of slot] slot_in_range[of "ucast g"] slot_in_range[of "ucast h"]
    by (auto simp: find_entry_def store_entry_def Let_def handle_slot_def nth_list_update unat_slot_eq)
qed

lemma release_find:
  assumes "store_inv s" and "js_entries s = Some es" and "find_entry s h \<noteq> None"
  shows "find_entry (s\<lparr> js_entries := Some (es[unat (ucast h :: u8) := clear_entry]) \<rparr>) g =
    (if g = h then None else find_entry s g)"
proof -
  have es: "length es = 256" "js_capacity s = 256" using assms(1,2) by (auto simp: store_inv_def)
  have "en_handle (es ! unat (handle_slot h)) = h"
    using assms(3) by (auto simp: find_entry_eq[OF assms(1,2)] Let_def split: if_splits)
  note handle = this
  have upd: "find_entry (s\<lparr> js_entries := Some es' \<rparr>) g = (let e = es' ! unat (handle_slot g) in
      if g \<noteq> ASIC_WORK_HANDLE_INVALID \<and> en_valid e \<and> en_handle e = g then Some e else None)" for es'
    using es(2) slot_in_range[of "ucast g"] by (simp add: find_entry_def handle_slot_def Let_def)
  show ?thesis
  proof (cases "handle_slot g = handle_slot h")
    case True
    then have "find_entry s g = None" if "g \<noteq> h"
      using that handle by (auto simp: find_entry_eq[OF assms(1,2)] Let_def)
    moreover have "es[unat (ucast h :: u8) := clear_entry] ! unat (handle_slot g) = clear_entry"
      using True es(1) unat_slot[of "handle_slot h"] by (simp add: handle_slot_def)
    ultimately show ?thesis unfolding upd Let_def by (simp add: clear_entry_def)
  next
    case False
    then have "es[unat (ucast h :: u8) := clear_entry] ! unat (handle_slot g) = es ! unat (handle_slot g)"
      using unat_slot_eq[of "handle_slot h" "handle_slot g"] by (simp add: handle_slot_def)
    then show ?thesis using False unfolding upd find_entry_eq[OF assms(1,2)] by auto
  qed
qed

interpretation jobs: handle_store asic_job_store_snapshot_with_context handle_slot
    asic_job_store_store_generated "\<lambda>s job. (snd job, context_for s job)"
    "\<lambda>s h. snd (asic_job_store_release s h)" asic_job_store_invalidate_all store_ok issued
proof (unfold_locales, goal_cases)
  case (1 s j h t)
  then have ok: "store_inv s" "js_next_generation s < 0xFFFFFFFFFFFFFF" by (auto simp: store_ok_def)
  note g = next_generation[OF ok(2)]
  have "h = push_bit 8 (js_next_generation s) OR ucast (ucast (js_next_slot s mod js_capacity s) :: u8)"
      "js_next_generation t = js_next_generation s + 1"
    using 1 g by (auto simp: asic_job_store_store_generated_def Let_def store_entry_def split: if_splits)
  then show ?case using g generated_generation[OF g(4)] by (simp add: issued_def)
next
  case (2 s j h t)
  then have ok: "store_inv s" "js_next_generation s < 0xFFFFFFFFFFFFFF" by (auto simp: store_ok_def)
  note g = next_generation[OF ok(2)]
  define slot :: u8 where "slot = ucast (js_next_slot s mod js_capacity s)"
  define s1 where "s1 = s\<lparr> js_next_slot := js_next_slot s + 1, js_next_generation := js_next_generation s + 1 \<rparr>"
  have h: "h = push_bit 8 (js_next_generation s) OR ucast slot" and t: "t = store_entry s1 slot h j"
    using 2 g by (auto simp: asic_job_store_store_generated_def Let_def slot_def s1_def split: if_splits)
  obtain es where es: "js_entries s = Some es" using ok(1) by (auto simp: store_inv_def)
  have sl: "handle_slot h = slot" by (simp add: h generated_slot)
  have "h \<noteq> ASIC_WORK_HANDLE_INVALID"
    using generated_generation[OF g(4), of slot] ok(2) h invalid_generation by auto
  from store_entry_find[OF ok(1) es sl this, of s1 j] show ?case
    by (auto simp: asic_job_store_snapshot_with_context_def t s1_def sl context_for_def)
next
  case (3 s j h t g)
  then have ok: "js_next_generation s < 0xFFFFFFFFFFFFFF" by (auto simp: store_ok_def)
  then show ?case using 3 next_generation[OF ok]
    by (auto simp: asic_job_store_store_generated_def Let_def store_entry_def issued_def split: if_splits)
next
  case (4 s h)
  then have ok: "store_inv s" by (simp add: store_ok_def)
  then obtain es where es: "js_entries s = Some es" "length es = 256" by (auto simp: store_inv_def)
  show ?case
  proof (cases "find_entry s h")
    case None
    then show ?thesis by (auto simp: asic_job_store_release_def asic_job_store_snapshot_with_context_def)
  next
    case (Some e)
    then have "find_entry (snd (asic_job_store_release s h)) g = ((find_entry s)(h := None)) g" for g
      using release_find[OF ok es(1), of h g] es(1) by (auto simp: asic_job_store_release_def)
    then show ?thesis by (auto simp: fun_eq_iff asic_job_store_snapshot_with_context_def)
  qed
next
  case (5 s h g)
  then show ?case by (simp add: issued_def asic_job_store_release_def)
next
  case (6 s)
  then obtain es where es: "js_entries s = Some es" "length es = 256" "js_capacity s = 256"
    by (auto simp: store_ok_def store_inv_def)
  then show ?case
    by (auto simp: fun_eq_iff asic_job_store_snapshot_with_context_def asic_job_store_invalidate_all_def find_entry_def
        Let_def clear_entry_def unat_slot)
next
  case (7 s g)
  then have ok: "js_next_generation s < 0xFFFFFFFFFFFFFF" by (simp add: store_ok_def)
  then show ?case using 7(2) next_generation[OF ok] by (auto simp: issued_def asic_job_store_invalidate_all_def)
qed

section \<open>Reachable stores\<close>

inductive js_step :: "'d asic_job_store_t \<Rightarrow> 'd asic_job_store_t \<Rightarrow> bool" where
  generate: "js_next_generation s < 0xFFFFFFFFFFFFFF \<Longrightarrow> asic_job_store_store_generated s job = Some (h, t) \<Longrightarrow> js_step s t"
| slot: "asic_job_store_store_slot s slot job = Some (h, t) \<Longrightarrow> js_step s t"
| release: "js_step s (snd (asic_job_store_release s h))"
| invalidate: "js_next_generation s < 0xFFFFFFFFFFFFFF \<Longrightarrow> js_step s (asic_job_store_invalidate_all s)"
| begin_submission: "asic_job_store_begin_submission s job context = Some t \<Longrightarrow> js_step s t"
| end_submission: "js_step s (asic_job_store_end_submission s)"

inductive_cases js_stepE: "js_step s t"

definition js_start :: "'d asic_job_store_t \<Rightarrow> bool" where
  "js_start s \<longleftrightarrow> asic_job_store_init True True True = (True, s)"

lemma slot_handle: "handle_slot (ucast (slot :: u8)) = slot" "handle_generation (ucast (slot :: u8)) = 0"
proof -
  show "handle_slot (ucast slot) = slot"
    using generated_slot[of 0 slot] by simp
  show "handle_generation (ucast slot) = 0"
  proof (rule bit_word_eqI)
    fix n
    have "\<not> bit slot (8 + n)" using bit_imp_le_length[of slot "8 + n"] by auto
    then show "bit (handle_generation (ucast slot)) n = bit (0 :: u64) n"
      by (simp add: handle_generation_def bit_simps)
  qed
qed

lemma store_slot_inv:
  assumes "store_inv s" and "asic_job_store_store_slot s slot job = Some (h, t)"
  shows "store_inv t"
proof -
  obtain es where es: "js_entries s = Some es" using assms(1) by (auto simp: store_inv_def)
  have t: "t = store_entry (s\<lparr> js_next_slot := js_next_slot s, js_next_generation := js_next_generation s \<rparr>) slot (ucast slot) job"
    using assms(2) by (auto simp: asic_job_store_store_slot_def split: if_splits)
  show ?thesis unfolding t using assms(1)
    by (intro store_entry_inv[OF assms(1) es]) (auto simp: slot_handle store_inv_def)
qed

lemma store_generated_inv:
  assumes "store_ok s" and "asic_job_store_store_generated s job = Some (h, t)"
  shows "store_inv t"
proof -
  have ok: "store_inv s" "js_next_generation s < 0xFFFFFFFFFFFFFF" using assms(1) by (auto simp: store_ok_def)
  note g = next_generation[OF ok(2)]
  obtain es where es: "js_entries s = Some es" using ok(1) by (auto simp: store_inv_def)
  define slot :: u8 where "slot = ucast (js_next_slot s mod js_capacity s)"
  have h: "h = push_bit 8 (js_next_generation s) OR ucast slot"
    and t: "t = store_entry (s\<lparr> js_next_slot := js_next_slot s + 1, js_next_generation := js_next_generation s + 1 \<rparr>) slot h job"
    using assms(2) g by (auto simp: asic_job_store_store_generated_def Let_def slot_def split: if_splits)
  show ?thesis unfolding t using g generated_generation[OF g(4), of slot]
    by (intro store_entry_inv[OF ok(1) es]) (simp_all add: h generated_slot)
qed

interpretation store: invariant_system js_start js_step store_inv
proof
  fix s t :: "'a asic_job_store_t"
  show "js_start s \<Longrightarrow> store_inv s"
    by (auto simp: js_start_def asic_job_store_init_def asic_job_store_init_with_caps_def store_inv_def zero_store_def clear_entry_def)
  assume i: "store_inv s" and "js_step s t"
  from this(2) show "store_inv t"
  proof cases
    case (generate job h)
    then have "store_ok s" using i by (simp add: store_ok_def)
    then show ?thesis using generate(2) by (rule store_generated_inv)
  next
    case (slot slot job h)
    then show ?thesis using i store_slot_inv by blast
  next
    case (release h)
    then show ?thesis using i unat_slot[of "ucast h"]
      by (auto simp: asic_job_store_release_def store_inv_def clear_entry_def nth_list_update split: if_splits)
  next
    case invalidate
    then show ?thesis using i next_generation[of "js_next_generation s"]
      by (auto simp: asic_job_store_invalidate_all_def store_inv_def clear_entry_def)
  qed (use i in \<open>auto simp: asic_job_store_begin_submission_def asic_job_store_end_submission_def store_inv_def split: if_splits\<close>)
qed

text \<open>A step keeps the work of an issued handle or loses it; it never replaces it.\<close>

lemma step_look:
  assumes i: "store_inv s" and g: "issued s g" "handle_generation g \<noteq> 0" and "js_step s t"
  shows "issued t g \<and> (asic_job_store_snapshot_with_context t g = None \<or>
    asic_job_store_snapshot_with_context t g = asic_job_store_snapshot_with_context s g)"
  using assms(4)
proof cases
  case (generate job h)
  then have ok: "store_ok s" using i by (simp add: store_ok_def)
  have "g \<noteq> h" using jobs.put_new[OF ok generate(2)] g(1) by auto
  then show ?thesis using jobs.put_look[OF ok generate(2)] jobs.put_issued[OF ok generate(2) g(1)] by simp
next
  case (slot slot job h)
  obtain es where es: "js_entries s = Some es" using i by (auto simp: store_inv_def)
  have t: "t = store_entry s slot (ucast slot) job"
    using slot by (auto simp: asic_job_store_store_slot_def split: if_splits)
  have "ucast slot \<noteq> ASIC_WORK_HANDLE_INVALID" "g \<noteq> ucast slot"
    using slot_handle(2)[of slot] invalid_generation g(2) by auto
  then have "find_entry t g = (if handle_slot g = slot then None else find_entry s g)"
    unfolding t by (subst store_entry_find[OF i es slot_handle(1)]) auto
  moreover have "js_next_generation t = js_next_generation s" by (simp add: t store_entry_def)
  ultimately show ?thesis using g(1) by (simp add: asic_job_store_snapshot_with_context_def issued_def)
next
  case (release h)
  obtain es where es: "js_entries s = Some es" using i by (auto simp: store_inv_def)
  have "find_entry t g = None \<or> find_entry t g = find_entry s g"
    using release release_find[OF i es, of h g] by (auto simp: asic_job_store_release_def es)
  then show ?thesis using g(1) release
    by (auto simp: asic_job_store_snapshot_with_context_def issued_def asic_job_store_release_def)
next
  case invalidate
  then have ok: "store_ok s" using i by (simp add: store_ok_def)
  then show ?thesis using invalidate jobs.wipe_all_gone[OF ok, of g] jobs.wipe_issued[OF ok g(1)] by simp
qed (use g in \<open>auto simp: asic_job_store_begin_submission_def asic_job_store_end_submission_def issued_def
      asic_job_store_snapshot_with_context_def find_entry_def split: if_splits option.splits\<close>)

lemma step_keeps_gone:
  assumes "store_inv s" and "issued s g" "handle_generation g \<noteq> 0"
    and "asic_job_store_snapshot_with_context s g = None" and "js_step s t"
  shows "issued t g \<and> asic_job_store_snapshot_with_context t g = None"
  using step_look[OF assms(1-3,5)] assms(4) by auto

text \<open>What a store can still tell of a handle: the work \<open>v\<close> it was issued for, or nothing.\<close>

definition remembers :: "'d asic_job_store_t \<Rightarrow> asic_work_handle_t \<Rightarrow> 'd asic_job_t \<times> asic_job_context_t \<Rightarrow> bool" where
  "remembers s h v \<longleftrightarrow> issued s h \<and> handle_generation h \<noteq> 0 \<and>
     (asic_job_store_snapshot_with_context s h = None \<or> asic_job_store_snapshot_with_context s h = Some v)"

lemma remembers_step: "store_inv s \<Longrightarrow> js_step s t \<Longrightarrow> remembers s h v \<Longrightarrow> remembers t h v"
  using step_look[of s h t] by (auto simp: remembers_def)

lemma remembers_generated:
  assumes "store_ok s" "asic_job_store_store_generated s job = Some (h, t)"
  shows "remembers t h (snd job, context_for s job)"
proof -
  have g: "js_next_generation s < 0xFFFFFFFFFFFFFF" "0 < js_next_generation s"
    using assms(1) by (auto simp: store_ok_def store_inv_def)
  have "handle_generation h = js_next_generation s"
    using assms(2) generated_generation[OF next_generation(4)[OF g(1)]]
    by (auto simp: asic_job_store_store_generated_def Let_def split: if_splits)
  then show ?thesis
    using jobs.put_new[OF assms] jobs.look_put_same[OF assms] g(2) by (auto simp: remembers_def)
qed

section \<open>Properties\<close>

text \<open>A job and stores for the witnesses.\<close>

definition demo_job :: "nat job_ref" where
  "demo_job = (3, \<lparr> aj_version = 0x20000000, aj_version_mask = 0x1fffe000, aj_prev_hash = replicate 32 7,
     aj_merkle_root = replicate 32 9, aj_ntime = 5, aj_nbits = 6, aj_starting_nonce = 0, aj_pool_diff = 1, aj_pool_id = 0,
     aj_source_type = JOB_TYPE_V1, aj_job_id = replicate 32 0, aj_extranonce2 = replicate 65 0 \<rparr>)"

definition demo_store :: "nat asic_job_store_t" where
  "demo_store = snd (asic_job_store_init True True True)"

lemma demo_store_reachable: "reachable js_start js_step demo_store"
  by (rule reachable.start)
    (simp add: js_start_def demo_store_def asic_job_store_init_def asic_job_store_init_with_caps_def)

lemma demo_store_facts: "js_next_generation demo_store = 1"
  by (simp add: demo_store_def asic_job_store_init_def asic_job_store_init_with_caps_def)

text \<open>Work stored in it, and all work invalidated after that.\<close>

lemma demo_invalidated:
  obtains h u where "asic_job_store_store_generated demo_store demo_job = Some (h, u)"
    "reachable js_start js_step (asic_job_store_invalidate_all u)"
    "issued (asic_job_store_invalidate_all u) h" "handle_generation h \<noteq> 0"
    "\<not> asic_job_store_contains (asic_job_store_invalidate_all u) h"
proof -
  have ok: "store_ok demo_store"
    using store.reachable_inv[OF demo_store_reachable] by (simp add: store_ok_def demo_store_facts)
  obtain h u where put: "asic_job_store_store_generated demo_store demo_job = Some (h, u)"
    by (auto simp: asic_job_store_store_generated_def demo_store_def asic_job_store_init_def
        asic_job_store_init_with_caps_def Let_def)
  have u: "reachable js_start js_step u"
    by (rule reachable.step[OF demo_store_reachable]) (rule js_step.generate[OF _ put], simp add: demo_store_facts)
  have gen: "js_next_generation u = 2"
    using put by (auto simp: asic_job_store_store_generated_def store_entry_def Let_def demo_store_facts split: if_splits)
  then have ok_u: "store_ok u" using store.reachable_inv[OF u] by (simp add: store_ok_def)
  have h: "issued u h" "handle_generation h \<noteq> 0"
    using remembers_generated[OF ok put] by (simp_all add: remembers_def)
  show thesis
  proof (rule that[OF put _ _ h(2)])
    show "reachable js_start js_step (asic_job_store_invalidate_all u)"
      by (rule reachable.step[OF u]) (rule js_step.invalidate, simp add: gen)
    show "issued (asic_job_store_invalidate_all u) h" by (rule jobs.wipe_issued[OF ok_u h(1)])
    show "\<not> asic_job_store_contains (asic_job_store_invalidate_all u) h"
      using jobs.wipe_all_gone[OF ok_u, of h]
      by (simp add: asic_job_store_contains_def asic_job_store_snapshot_with_context_def)
  qed
qed

text \<open>C15. Storing generated work implements a map keyed by handles: in every reachable store below the last
  56-bit generation it succeeds, the new handle was never issued before and is not the invalid
  handle, looking it up yields exactly the stored job with its submission context, the previous
  work of that slot is gone and all other work is untouched.\<close>

theorem store_generated_refines_map:
  assumes "reachable js_start js_step s" and "js_next_generation s < 0xFFFFFFFFFFFFFF"
  shows "\<exists>h t. asic_job_store_store_generated s job = Some (h, t) \<and> \<not> issued s h \<and> issued t h
    \<and> h \<noteq> ASIC_WORK_HANDLE_INVALID
    \<and> asic_job_store_snapshot_with_context t =
        (\<lambda>g. if g = h then Some (snd job, context_for s job)
             else if handle_slot g = handle_slot h then None else asic_job_store_snapshot_with_context s g)"
proof -
  have ok: "store_ok s" using store.reachable_inv[OF assms(1)] assms(2) by (simp add: store_ok_def)
  then obtain h t where p: "asic_job_store_store_generated s job = Some (h, t)"
    by (auto simp: asic_job_store_store_generated_def Let_def store_ok_def store_inv_def)
  have "asic_job_store_snapshot_with_context t h \<noteq> None" by (simp add: jobs.look_put_same[OF ok p])
  then have "h \<noteq> ASIC_WORK_HANDLE_INVALID"
    by (auto simp: asic_job_store_snapshot_with_context_def find_entry_def split: option.splits)
  then show ?thesis using p jobs.put_new[OF ok p] jobs.put_look[OF ok p] by blast
qed

theorem store_generated_refines_map_witness:
  "\<exists>h t. asic_job_store_store_generated demo_store demo_job = Some (h, t) \<and> asic_job_store_snapshot t h = Some (snd demo_job)"
  using store_generated_refines_map[OF demo_store_reachable, of demo_job] demo_store_facts
  by (auto simp: asic_job_store_snapshot_def)

text \<open>C27. Stale results are rejected for good. Storing generated work gives a valid handle that carries a generation already counted.
  Once the work of such a handle has been replaced, released or invalidated, no later sequence of store operations makes the
  handle valid again. (The handles of fixed slots carry no generation: such a slot can be filled anew.)\<close>

theorem stale_handle_stays_stale:
  assumes "reachable js_start js_step s" and "issued s g" and "handle_generation g \<noteq> 0"
    and "\<not> asic_job_store_contains s g" and "js_step\<^sup>*\<^sup>* s t"
  shows "\<not> asic_job_store_contains t g \<and>
    (js_next_generation s < 0xFFFFFFFFFFFFFF \<and> asic_job_store_store_generated s job = Some (h, u) \<longrightarrow>
       issued u h \<and> handle_generation h \<noteq> 0 \<and> asic_job_store_contains u h)"
proof -
  have gone: "(asic_job_store_snapshot_with_context u g = None) = (\<not> asic_job_store_contains u g)" for u :: "'a asic_job_store_t" and g
    by (auto simp: asic_job_store_snapshot_with_context_def asic_job_store_contains_def)
  from assms(5) have "reachable js_start js_step t \<and> issued t g \<and> \<not> asic_job_store_contains t g"
  proof (induction rule: rtranclp_induct)
    case (step u v)
    then show ?case using step_keeps_gone[OF store.reachable_inv, of u g v] assms(3) gone
      by (auto intro: reachable.step)
  qed (use assms in auto)
  moreover have "issued u h \<and> handle_generation h \<noteq> 0 \<and> asic_job_store_contains u h"
    if "js_next_generation s < 0xFFFFFFFFFFFFFF" and put: "asic_job_store_store_generated s job = Some (h, u)"
  proof -
    have ok: "store_ok s" using store.reachable_inv[OF assms(1)] that(1) by (simp add: store_ok_def)
    show ?thesis
      using remembers_generated[OF ok put] jobs.look_put_same[OF ok put] gone[of u h] by (simp add: remembers_def)
  qed
  ultimately show ?thesis by blast
qed

theorem stale_handle_stays_stale_witness:
  "\<exists>h u. asic_job_store_store_generated demo_store demo_job = Some (h, u) \<and> asic_job_store_contains u h \<and>
     \<not> asic_job_store_contains (asic_job_store_end_submission (asic_job_store_invalidate_all u)) h"
proof -
  obtain h u where u: "asic_job_store_store_generated demo_store demo_job = Some (h, u)"
    "reachable js_start js_step (asic_job_store_invalidate_all u)"
    "issued (asic_job_store_invalidate_all u) h" "handle_generation h \<noteq> 0"
    "\<not> asic_job_store_contains (asic_job_store_invalidate_all u) h"
    by (rule demo_invalidated)
  have "store_ok demo_store"
    using store.reachable_inv[OF demo_store_reachable] by (simp add: store_ok_def demo_store_facts)
  from jobs.look_put_same[OF this u(1)] have "asic_job_store_contains u h"
    by (auto simp: asic_job_store_snapshot_with_context_def asic_job_store_contains_def)
  moreover have "\<not> asic_job_store_contains (asic_job_store_end_submission (asic_job_store_invalidate_all u)) h"
    using stale_handle_stays_stale[OF u(2-5), of "asic_job_store_end_submission (asic_job_store_invalidate_all u)"]
    by (blast intro: js_step.end_submission)
  ultimately show ?thesis using u(1) by blast
qed

text \<open>Releasing a handle reports whether its work was present and removes exactly that work; invalidation
  removes all work, and every handle issued before stays issued, hence stale.\<close>

theorem removal_refines_map:
  assumes "reachable js_start js_step s" and "js_next_generation s < 0xFFFFFFFFFFFFFF"
  shows "fst (asic_job_store_release s h) = asic_job_store_contains s h
    \<and> asic_job_store_snapshot_with_context (snd (asic_job_store_release s h)) =
        (asic_job_store_snapshot_with_context s)(h := None)
    \<and> asic_job_store_snapshot_with_context (asic_job_store_invalidate_all s) = Map.empty
    \<and> (issued s g \<longrightarrow> issued (asic_job_store_invalidate_all s) g)"
proof -
  have ok: "store_ok s" using store.reachable_inv[OF assms(1)] assms(2) by (simp add: store_ok_def)
  show ?thesis using jobs.remove_look[OF ok] jobs.wipe_look[OF ok] jobs.wipe_issued[OF ok, of g]
    by (auto simp: asic_job_store_release_def asic_job_store_contains_def)
qed

theorem removal_refines_map_witness:
  "asic_job_store_snapshot_with_context (asic_job_store_invalidate_all demo_store) = Map.empty"
  using removal_refines_map[OF demo_store_reachable] demo_store_facts by simp

end
