(* ===== verification/Mining.thy ===== *)
theory Mining
  imports Prelude
begin

text \<open>
  Work construction helpers of the Stratum component: hexadecimal text, byte order of hashes, the
  SHA-256 midstate (\<open>components/stratum/utils.c\<close>, \<open>hash_bytes.c\<close>), coinbase and merkle hashing,
  extranonces and version rolling (\<open>mining.c\<close>). C strings are the lists of their bytes before the
  terminating zero. SHA-256 itself is a PSA crypto call and so a parameter \<open>sha256\<close>; a failing
  call gives 32 zero bytes. Buffers that the source fills on the stack are lists.
\<close>

section \<open>Hexadecimal text\<close>

definition hex_table :: "u8 list" where
  "hex_table = [0x30, 0x31, 0x32, 0x33, 0x34, 0x35, 0x36, 0x37, 0x38, 0x39, 0x61, 0x62, 0x63, 0x64, 0x65, 0x66]"

text \<open>The decoding table; \<open>None\<close> is its entry \<open>-1\<close>.\<close>

definition hex_val_table :: "u8 \<Rightarrow> u8 option" where
  "hex_val_table c =
     (if 0x30 \<le> c \<and> c \<le> 0x39 then Some (c - 0x30)
      else if 0x61 \<le> c \<and> c \<le> 0x66 then Some (c - 0x61 + 10)
      else if 0x41 \<le> c \<and> c \<le> 0x46 then Some (c - 0x41 + 10)
      else None)"

definition bin2hex :: "u8 list \<Rightarrow> nat \<Rightarrow> nat \<times> u8 list" where
  "bin2hex buf hexlen =
     (if hexlen \<le> length buf * 2 then (0, [])
      else (2 * length buf,
            concat (map (\<lambda>b. [hex_table ! unat (drop_bit 4 b), hex_table ! unat (b AND 0x0F)]) buf)))"

fun hex_decode_byte :: "u8 list \<Rightarrow> u8 option" where
  "hex_decode_byte (h # l # hex) =
     (case (hex_val_table h, hex_val_table l) of
        (Some high, Some low) \<Rightarrow> Some (push_bit 4 high OR low)
      | _ \<Rightarrow> None)"
| "hex_decode_byte _ = None"

text \<open>\<open>hex2bin hex bin_len\<close>: the bytes written when decoding succeeds, \<open>None\<close> for the result 0 of
  an invalid or odd-length text.\<close>

fun hex2bin_loop :: "u8 list \<Rightarrow> nat \<Rightarrow> u8 list \<Rightarrow> u8 list option" where
  "hex2bin_loop hex 0 bin = Some bin"
| "hex2bin_loop [] (Suc n) bin = Some bin"
| "hex2bin_loop (c # hex) (Suc n) bin =
     (case hex_decode_byte (c # hex) of
        None \<Rightarrow> None
      | Some byte \<Rightarrow> hex2bin_loop (drop 1 hex) n (bin @ [byte]))"

definition hex2bin :: "u8 list \<Rightarrow> nat \<Rightarrow> nat \<times> u8 list" where
  "hex2bin hex bin_len =
     (case hex2bin_loop hex bin_len [] of None \<Rightarrow> (0, []) | Some bin \<Rightarrow> (length bin, bin))"

fun url_decode :: "u8 list \<Rightarrow> u8 list" where
  "url_decode [] = []"
| "url_decode (c # src) =
     (case (if c = 0x25 \<and> src \<noteq> [] then hex_decode_byte src else None) of
        Some byte \<Rightarrow> byte # url_decode (drop 2 src)
      | None \<Rightarrow> (if c = 0x2B then 0x20 # url_decode src else c # url_decode src))"

lemma hex_digit_value: "i < 16 \<Longrightarrow> hex_val_table (hex_table ! i) = Some (of_nat i)"
proof -
  assume "i < 16"
  then have "i \<in> set [0..<16]" by simp
  then show ?thesis by (simp add: upt_rec hex_table_def) (elim disjE; simp add: hex_val_table_def)
qed

lemma nibbles:
  fixes b :: u8
  shows "unat (drop_bit 4 b) < 16" "unat (b AND 0x0F) < 16" "push_bit 4 (drop_bit 4 b) OR (b AND 0x0F) = b"
proof -
  have "unat (drop_bit 4 b) = unat b div 16" by (simp add: drop_bit_eq_div unat_div)
  moreover have "unat b < 2 ^ LENGTH(8)" by (rule unsigned_less)
  ultimately show "unat (drop_bit 4 b) < 16" by simp
  have m: "(0x0F :: u8) = mask 4" by (simp add: mask_eq_exp_minus_1)
  have "unat (b AND 0x0F) = unat b mod 16" unfolding m
    by (simp add: take_bit_eq_mod unat_mod flip: take_bit_eq_mask)
  then show "unat (b AND 0x0F) < 16" by simp
  show "push_bit 4 (drop_bit 4 b) OR (b AND 0x0F) = b"
    unfolding m by (rule bit_word_eqI) (auto simp: bit_simps)
qed

lemma hex_decode_digits:
  "hex_decode_byte (hex_table ! unat (drop_bit 4 b) # hex_table ! unat (b AND 0x0F) # rest) = Some b"
  using nibbles[of b] by (simp add: hex_digit_value)

lemma hex2bin_loop_encoded:
  "hex2bin_loop (concat (map (\<lambda>b. [hex_table ! unat (drop_bit 4 b), hex_table ! unat (b AND 0x0F)]) bs)) n acc =
     Some (acc @ take n bs)"
proof (induction bs arbitrary: n acc)
  case Nil
  then show ?case by (cases n) simp_all
next
  case (Cons b bs)
  then show ?case by (cases n) (simp_all add: hex_decode_digits del: hex_decode_byte.simps)
qed

section \<open>Byte order and hashing\<close>

text \<open>A 32-byte buffer copied into eight 32-bit words of a little-endian machine and back.\<close>

definition words_of :: "u8 list \<Rightarrow> u32 list" where
  "words_of bs = map (\<lambda>i. le_word (take 4 (drop (4 * i) bs))) [0..<8]"

definition bytes_of :: "u32 list \<Rightarrow> u8 list" where
  "bytes_of ws = concat (map (le_bytes 4) ws)"

definition reverse_32bit_words :: "u8 list \<Rightarrow> u8 list" where
  "reverse_32bit_words src =
     (let source = words_of src
      in bytes_of [source ! 7, source ! 6, source ! 5, source ! 4, source ! 3, source ! 2, source ! 1, source ! 0])"

definition bswap32 :: "u32 \<Rightarrow> u32" where
  "bswap32 w = le_word (rev (le_bytes 4 w))"

definition reverse_endianness_per_word :: "u8 list \<Rightarrow> u8 list" where
  "reverse_endianness_per_word data =
     (let w = words_of data
      in bytes_of [bswap32 (w ! 0), bswap32 (w ! 1), bswap32 (w ! 2), bswap32 (w ! 3),
                   bswap32 (w ! 4), bswap32 (w ! 5), bswap32 (w ! 6), bswap32 (w ! 7)])"

definition load_le64 :: "u8 list \<Rightarrow> u64" where
  "load_le64 data = fold (\<lambda>i v. v OR push_bit (8 * i) (ucast (data ! i))) [0..<8] 0"

text \<open>The PSA hash as a parameter: \<open>None\<close> is a failed call.\<close>

type_synonym sha256_fn = "u8 list \<Rightarrow> u8 list option"

definition sha256_bin :: "sha256_fn \<Rightarrow> u8 list \<Rightarrow> u8 list" where
  "sha256_bin psa data =
     (case psa data of Some d \<Rightarrow> if length d = 32 then d else replicate 32 0 | None \<Rightarrow> replicate 32 0)"

definition double_sha256_bin :: "sha256_fn \<Rightarrow> u8 list \<Rightarrow> u8 list" where
  "double_sha256_bin psa data = sha256_bin psa (sha256_bin psa data)"

definition calculate_coinbase_tx_hash_bin ::
    "sha256_fn \<Rightarrow> bool \<Rightarrow> u8 list \<Rightarrow> u8 list \<Rightarrow> u8 list \<Rightarrow> u8 list \<Rightarrow> bool \<times> u8 list" where
  "calculate_coinbase_tx_hash_bin psa malloc_ok pre extranonce_prefix extranonce_2 suf =
     (let buf = pre @ extranonce_prefix @ extranonce_2 @ suf
      in if length buf > 1024 \<and> \<not> malloc_ok then (False, replicate 32 0)
         else (True, double_sha256_bin psa buf))"

fun merkle_loop :: "sha256_fn \<Rightarrow> u8 list list \<Rightarrow> u8 list \<Rightarrow> u8 list" where
  "merkle_loop psa [] acc = acc"
| "merkle_loop psa (branch # branches) acc = merkle_loop psa branches (double_sha256_bin psa (acc @ branch))"

definition calculate_merkle_root_hash :: "sha256_fn \<Rightarrow> u8 list \<Rightarrow> u8 list list \<Rightarrow> u8 list" where
  "calculate_merkle_root_hash psa coinbase_tx_hash merkle_branches = merkle_loop psa merkle_branches coinbase_tx_hash"

definition extranonce_2_generate :: "u64 \<Rightarrow> nat \<Rightarrow> u8 list" where
  "extranonce_2_generate extranonce_2 len =
     concat (map (\<lambda>i. let byte = (if i < 8 then ucast (drop_bit (8 * i) extranonce_2) else 0) :: u8
                      in [hex_table ! unat (drop_bit 4 byte), hex_table ! unat (byte AND 0x0F)]) [0..<len])"

definition increment_bitmask :: "u32 \<Rightarrow> u32 \<Rightarrow> u32" where
  "increment_bitmask v m = (v AND NOT m) OR (((v OR NOT m) + 1) AND m)"

section \<open>The SHA-256 midstate\<close>

definition sha256_rotr :: "u32 \<Rightarrow> nat \<Rightarrow> u32" where
  "sha256_rotr v shift = drop_bit shift v OR push_bit (32 - shift) v"

definition sha256_load_be32 :: "u8 list \<Rightarrow> u32" where
  "sha256_load_be32 data = push_bit 24 (ucast (data ! 0)) OR push_bit 16 (ucast (data ! 1))
     OR push_bit 8 (ucast (data ! 2)) OR ucast (data ! 3)"

definition sha256_store_be32 :: "u32 \<Rightarrow> u8 list" where
  "sha256_store_be32 v = [ucast (drop_bit 24 v), ucast (drop_bit 16 v), ucast (drop_bit 8 v), ucast v]"

definition sha256_round_constants :: "u32 list" where
  "sha256_round_constants = concat [
    [0x428a2f98, 0x71374491, 0xb5c0fbcf, 0xe9b5dba5], [0x3956c25b, 0x59f111f1, 0x923f82a4, 0xab1c5ed5],
    [0xd807aa98, 0x12835b01, 0x243185be, 0x550c7dc3], [0x72be5d74, 0x80deb1fe, 0x9bdc06a7, 0xc19bf174],
    [0xe49b69c1, 0xefbe4786, 0x0fc19dc6, 0x240ca1cc], [0x2de92c6f, 0x4a7484aa, 0x5cb0a9dc, 0x76f988da],
    [0x983e5152, 0xa831c66d, 0xb00327c8, 0xbf597fc7], [0xc6e00bf3, 0xd5a79147, 0x06ca6351, 0x14292967],
    [0x27b70a85, 0x2e1b2138, 0x4d2c6dfc, 0x53380d13], [0x650a7354, 0x766a0abb, 0x81c2c92e, 0x92722c85],
    [0xa2bfe8a1, 0xa81a664b, 0xc24b8b70, 0xc76c51a3], [0xd192e819, 0xd6990624, 0xf40e3585, 0x106aa070],
    [0x19a4c116, 0x1e376c08, 0x2748774c, 0x34b0bcb5], [0x391c0cb3, 0x4ed8aa4a, 0x5b9cca4f, 0x682e6ff3],
    [0x748f82ee, 0x78a5636f, 0x84c87814, 0x8cc70208], [0x90befffa, 0xa4506ceb, 0xbef9a3f7, 0xc67178f2]]"

definition sha256_initial_state :: "u32 list" where
  "sha256_initial_state = [0x6a09e667, 0xbb67ae85, 0x3c6ef372, 0xa54ff53a]
     @ [0x510e527f, 0x9b05688c, 0x1f83d9ab, 0x5be0cd19]"

text \<open>The message schedule, filled in increasing order of the index.\<close>

definition schedule_step :: "u32 list \<Rightarrow> u32 list" where
  "schedule_step w =
     (let i = length w;
          s0 = sha256_rotr (w ! (i - 15)) 7 XOR sha256_rotr (w ! (i - 15)) 18 XOR drop_bit 3 (w ! (i - 15));
          s1 = sha256_rotr (w ! (i - 2)) 17 XOR sha256_rotr (w ! (i - 2)) 19 XOR drop_bit 10 (w ! (i - 2))
      in w @ [w ! (i - 16) + s0 + w ! (i - 7) + s1])"

definition sha256_schedule :: "u8 list \<Rightarrow> u32 list" where
  "sha256_schedule data = (schedule_step ^^ 48) (map (\<lambda>i. sha256_load_be32 (drop (4 * i) data)) [0..<16])"

type_synonym sha_state = "u32 \<times> u32 \<times> u32 \<times> u32 \<times> u32 \<times> u32 \<times> u32 \<times> u32"

fun sha256_round :: "u32 list \<Rightarrow> nat \<Rightarrow> sha_state \<Rightarrow> sha_state" where
  "sha256_round schedule i (a, b, c, d, e, f, g, h) =
     (let sum1 = sha256_rotr e 6 XOR sha256_rotr e 11 XOR sha256_rotr e 25;
          choice = (e AND f) XOR (NOT e AND g);
          temp1 = h + sum1 + choice + sha256_round_constants ! i + schedule ! i;
          sum0 = sha256_rotr a 2 XOR sha256_rotr a 13 XOR sha256_rotr a 22;
          majority = (a AND b) XOR (a AND c) XOR (b AND c);
          temp2 = sum0 + majority
      in (temp1 + temp2, a, b, c, d + temp1, e, f, g))"

definition midstate_sha256_bin :: "u8 list \<Rightarrow> u8 list" where
  "midstate_sha256_bin data =
     (if length data \<noteq> 64 then replicate 32 0
      else
        (let schedule = sha256_schedule data;
             (a, b, c, d, e, f, g, h) = fold (sha256_round schedule) [0..<64]
               (sha256_initial_state ! 0, sha256_initial_state ! 1, sha256_initial_state ! 2, sha256_initial_state ! 3,
                sha256_initial_state ! 4, sha256_initial_state ! 5, sha256_initial_state ! 6, sha256_initial_state ! 7)
         in concat (map (\<lambda>(i, w). sha256_store_be32 (sha256_initial_state ! i + w))
              (enumerate 0 [a, b, c, d, e, f, g, h]))))"

section \<open>Version rolling\<close>

text \<open>Adding one flips exactly the trailing ones and the zero above them.\<close>

lemma bit_Suc_nat: "bit (Suc n) k \<longleftrightarrow> bit n k \<noteq> (\<forall>j<k. bit n j)"
proof (induction k arbitrary: n)
  case 0
  then show ?case by (simp add: bit_0)
next
  case (Suc k)
  have all: "(\<forall>j<Suc k. bit n j) \<longleftrightarrow> odd n \<and> (\<forall>j<k. bit (n div 2) j)"
    by (metis bit_0 bit_Suc less_Suc_eq_0_disj)
  show ?case
  proof (cases "even n")
    case True
    then have "Suc n div 2 = n div 2" by simp
    then show ?thesis using True all by (simp add: bit_Suc)
  next
    case False
    then have "Suc n div 2 = Suc (n div 2)" by simp
    then show ?thesis using False all Suc.IH[of "n div 2"] by (simp add: bit_Suc)
  qed
qed

lemma bit_add_one:
  fixes x :: "'a::len word"
  shows "k < LENGTH('a) \<Longrightarrow> bit (x + 1) k \<longleftrightarrow> bit x k \<noteq> (\<forall>j<k. bit x j)"
proof -
  assume k: "k < LENGTH('a)"
  have "unat (x + 1) = take_bit LENGTH('a) (Suc (unat x))"
    by (simp add: unat_word_ariths take_bit_eq_mod mod_Suc_eq)
  then have "bit (unat (x + 1)) k \<longleftrightarrow> bit (Suc (unat x)) k" using k by (simp add: bit_take_bit_iff)
  then have "bit (x + 1) k \<longleftrightarrow> bit (Suc (unat x)) k" by (simp add: bit_unsigned_iff)
  also have "\<dots> \<longleftrightarrow> bit x k \<noteq> (\<forall>j<k. bit x j)"
    by (simp add: bit_Suc_nat bit_unsigned_iff)
  finally show ?thesis .
qed

definition submasks :: "u32 \<Rightarrow> u32 set" where
  "submasks m = {s. s AND NOT m = 0}"

definition roll :: "u32 \<Rightarrow> u32 \<Rightarrow> u32" where
  "roll m s = ((s OR NOT m) + 1) AND m"

lemma submasks_bits: "s \<in> submasks m \<longleftrightarrow> (\<forall>k<32. bit s k \<longrightarrow> bit m k)"
  by (auto simp: submasks_def bit_eq_iff bit_simps)

lemma roll_submask: "roll m s \<in> submasks m"
  by (auto simp: submasks_bits roll_def bit_simps)

lemma bit_roll: "k < 32 \<Longrightarrow> bit (roll m s) k \<longleftrightarrow> bit m k \<and> (bit s k \<noteq> (\<forall>j<k. bit m j \<longrightarrow> bit s j))"
  by (auto simp: roll_def bit_add_one bit_simps)

lemma roll_inj: "inj_on (roll m) (submasks m)"
proof (rule inj_onI)
  fix s t
  assume st: "s \<in> submasks m" "t \<in> submasks m" "roll m s = roll m t"
  have "k < 32 \<Longrightarrow> bit s k = bit t k" for k
  proof (induction k rule: less_induct)
    case (less k)
    then have "(\<forall>j<k. bit m j \<longrightarrow> bit s j) \<longleftrightarrow> (\<forall>j<k. bit m j \<longrightarrow> bit t j)" by auto
    moreover have "bit (roll m s) k = bit (roll m t) k" using st(3) by simp
    ultimately show ?case using st(1,2) less.prems bit_roll[of k m] submasks_bits by auto
  qed
  then show "s = t" by (intro bit_word_eqI) auto
qed

lemma unat_disjoint: "(a :: u32) AND b = 0 \<Longrightarrow> unat (a OR b) = unat a + unat b"
proof -
  assume "a AND b = 0"
  then have "unat a AND unat b = 0" by (metis unsigned_and_eq unsigned_0)
  then show ?thesis by (simp add: unsigned_or_eq disjunctive_add_eq_or)
qed

lemma roll_greater:
  assumes "s \<in> submasks m" and "s \<noteq> m"
  shows "s < roll m s"
proof -
  have d: "s AND NOT m = 0" using assms(1) by (simp add: submasks_def)
  have x: "unat (s OR NOT m) = unat s + unat (NOT m)" by (rule unat_disjoint[OF d])
  obtain k where k: "k < 32" "bit m k" "\<not> bit s k"
    using assms submasks_bits[of s m] bit_word_eqI[of s m] by auto
  have "s OR NOT m \<noteq> - 1" using k by (auto simp: bit_eq_iff bit_simps)
  then have "1 + (s OR NOT m) \<noteq> 0" by (metis add.commute add_eq_0_iff)
  from unatSuc[OF this] have y: "unat ((s OR NOT m) + 1) = unat s + unat (NOT m) + 1"
    using x by (simp add: add.commute)
  have "unat (((s OR NOT m) + 1) AND m) + unat (((s OR NOT m) + 1) AND NOT m) = unat ((s OR NOT m) + 1)"
  proof -
    have "(((s OR NOT m) + 1) AND m) AND (((s OR NOT m) + 1) AND NOT m) = 0"
        "(((s OR NOT m) + 1) AND m) OR (((s OR NOT m) + 1) AND NOT m) = (s OR NOT m) + 1"
      by (rule bit_word_eqI; auto simp: bit_simps)+
    then show ?thesis using unat_disjoint by metis
  qed
  moreover have "unat (((s OR NOT m) + 1) AND NOT m) \<le> unat (NOT m)" by (simp add: word_and_le1 flip: word_le_nat_alt)
  ultimately show ?thesis using y by (simp add: roll_def word_less_nat_alt)
qed

text \<open>An injective map on a finite linear order that goes up everywhere but at the largest element skips
  nothing.\<close>

lemma injective_ascent_skips_nothing:
  fixes f :: "'a::linorder \<Rightarrow> 'a"
  assumes fin: "finite S" and inj: "inj_on f S" and maps: "f ` S \<subseteq> S" and top_el: "\<And>x. x \<in> S \<Longrightarrow> x \<le> m" "m \<in> S"
    and up: "\<And>x. x \<in> S \<Longrightarrow> x \<noteq> m \<Longrightarrow> x < f x" and st: "s \<in> S" "t \<in> S" "s < t"
  shows "f s \<le> t"
proof (rule ccontr)
  assume "\<not> f s \<le> t"
  then have lt: "t < f s" by simp
  define A where "A = {x \<in> S. t \<le> x}"
  define B where "B = {x \<in> S. t < x}"
  have "f x \<in> B" if "x \<in> A - {m}" for x
    using that up[of x] maps by (auto simp: A_def B_def)
  then have "f ` (insert s (A - {m})) \<subseteq> B" using lt maps st(1) by (auto simp: B_def)
  moreover have "inj_on f (insert s (A - {m}))"
    by (rule inj_on_subset[OF inj]) (use st(1) in \<open>auto simp: A_def\<close>)
  ultimately have le: "card (insert s (A - {m})) \<le> card B"
    using fin by (intro card_inj_on_le[of f]) (auto simp: B_def)
  have B: "A = insert t B" "t \<notin> B" "finite B" using fin st(2) by (auto simp: A_def B_def)
  have "s \<notin> A" "m \<in> A" using st top_el by (auto simp: A_def)
  then have "card (insert s (A - {m})) = card A" using B by (simp add: card_Suc_Diff1)
  then show False using le B by simp
qed

text \<open>C34. Version rolling enumerates exactly the negotiated bits: incrementing a version under a mask leaves the
  bits outside the mask alone and moves the bits inside it to the next larger value under the mask,
  with none in between, or back to zero from the largest.\<close>

theorem increment_bitmask_enumerates:
  "increment_bitmask v m AND NOT m = v AND NOT m
   \<and> (if v AND m = m then increment_bitmask v m AND m = 0
      else v AND m < increment_bitmask v m AND m
        \<and> (\<forall>t. t AND NOT m = 0 \<longrightarrow> v AND m < t \<longrightarrow> increment_bitmask v m AND m \<le> t))"
proof -
  define s where "s = v AND m"
  have "increment_bitmask v m AND NOT m = v AND NOT m"
    by (rule bit_word_eqI) (auto simp: increment_bitmask_def bit_simps)
  moreover have "v OR NOT m = s OR NOT m" by (rule bit_word_eqI) (auto simp: s_def bit_simps)
  then have inside: "increment_bitmask v m AND m = roll m s"
    by (intro bit_word_eqI) (auto simp: increment_bitmask_def roll_def bit_simps)
  moreover have "roll m m = 0" by (intro bit_word_eqI) (auto simp: bit_roll)
  moreover have "roll m s \<le> t" if "t \<in> submasks m" "s < t" for t
  proof (rule injective_ascent_skips_nothing[where f = "roll m" and S = "submasks m" and m = m])
    show "x \<in> submasks m \<Longrightarrow> x \<le> m" for x
    proof -
      assume "x \<in> submasks m"
      then have "x AND m = x" by (intro bit_word_eqI) (auto simp: submasks_bits bit_simps)
      then show "x \<le> m" by (metis word_and_le1)
    qed
  qed (use that roll_inj roll_submask roll_greater in \<open>auto simp: s_def submasks_bits bit_simps\<close>)
  moreover have "s \<in> submasks m" by (auto simp: s_def submasks_bits bit_simps)
  ultimately show ?thesis using roll_greater[of s m]
    by (auto simp: submasks_def simp flip: s_def)
qed

theorem increment_bitmask_enumerates_witness:
  "increment_bitmask 0x20000000 0x1fffe000 AND 0x1fffe000 \<le> 0x2000"
  using increment_bitmask_enumerates[of "0x20000000" "0x1fffe000", THEN conjunct2] by simp

section \<open>Reference definition of the SHA-256 compression function\<close>

text \<open>The constants of the standard (FIPS 180-4), from their definition: the first 32 bits of the fractional parts of the
  cube roots of the first 64 primes, and of the square roots of the first eight. The 64th prime is 311.\<close>

definition is_prime :: "nat \<Rightarrow> bool" where
  "is_prime p \<longleftrightarrow> 1 < p \<and> (\<forall>d. d dvd p \<longrightarrow> d = 1 \<or> d = p)"

definition sha_primes :: "nat list" where
  "sha_primes = filter is_prime [2..<312]"

definition sha_fraction :: "nat \<Rightarrow> nat \<Rightarrow> u32" where
  "sha_fraction e p = of_int \<lfloor>2 ^ 32 * frac (root e (real p))\<rfloor>"

definition sha_K :: "nat \<Rightarrow> u32" where
  "sha_K t = sha_fraction 3 (sha_primes ! t)"

definition sha_H :: "nat \<Rightarrow> u32" where
  "sha_H i = sha_fraction 2 (sha_primes ! i)"

definition sigma0 :: "u32 \<Rightarrow> u32" where "sigma0 x = word_rotr 7 x XOR word_rotr 18 x XOR drop_bit 3 x"
definition sigma1 :: "u32 \<Rightarrow> u32" where "sigma1 x = word_rotr 17 x XOR word_rotr 19 x XOR drop_bit 10 x"
definition Sigma0 :: "u32 \<Rightarrow> u32" where "Sigma0 x = word_rotr 2 x XOR word_rotr 13 x XOR word_rotr 22 x"
definition Sigma1 :: "u32 \<Rightarrow> u32" where "Sigma1 x = word_rotr 6 x XOR word_rotr 11 x XOR word_rotr 25 x"

text \<open>The message schedule of the standard, as a function of the round.\<close>

fun sha_W :: "(nat \<Rightarrow> u32) \<Rightarrow> nat \<Rightarrow> u32" where
  "sha_W M t = (if t < 16 then M t else sigma1 (sha_W M (t - 2)) + sha_W M (t - 7) + sigma0 (sha_W M (t - 15)) + sha_W M (t - 16))"

declare sha_W.simps [simp del]

fun sha_rounds :: "(nat \<Rightarrow> u32) \<Rightarrow> nat \<Rightarrow> sha_state \<Rightarrow> sha_state" where
  "sha_rounds M 0 st = st"
| "sha_rounds M (Suc t) st =
     (case sha_rounds M t st of (a, b, c, d, e, f, g, h) \<Rightarrow>
        (let t1 = h + Sigma1 e + ((e AND f) XOR (NOT e AND g)) + sha_K t + sha_W M t;
             t2 = Sigma0 a + ((a AND b) XOR (a AND c) XOR (b AND c))
         in (t1 + t2, a, b, c, d + t1, e, f, g)))"

text \<open>Word \<open>i\<close> of a block is big endian.\<close>

definition block_word :: "u8 list \<Rightarrow> nat \<Rightarrow> u32" where
  "block_word data i = le_word (rev (take 4 (drop (4 * i) data)))"

text \<open>The compression of a block into the initial hash value, with big-endian output.\<close>

definition sha_compress :: "u8 list \<Rightarrow> u8 list" where
  "sha_compress data =
     (case sha_rounds (block_word data) 64 (sha_H 0, sha_H 1, sha_H 2, sha_H 3, sha_H 4, sha_H 5, sha_H 6, sha_H 7) of
        (a, b, c, d, e, f, g, h) \<Rightarrow>
          concat (map (\<lambda>w. rev (le_bytes 4 w))
            [sha_H 0 + a, sha_H 1 + b, sha_H 2 + c, sha_H 3 + d, sha_H 4 + e, sha_H 5 + f, sha_H 6 + g, sha_H 7 + h]))"

text \<open>The tables of the code hold these constants.\<close>

lemma is_prime_small:
  assumes "p < 19 * 19"
  shows "is_prime p \<longleftrightarrow> 1 < p \<and> (\<forall>d\<in>{2, 3, 5, 7, 11, 13, 17}. d dvd p \<longrightarrow> p = d)"
proof
  assume r: "1 < p \<and> (\<forall>d\<in>{2, 3, 5, 7, 11, 13, 17}. d dvd p \<longrightarrow> p = d)"
  have small: "d = 1 \<or> d = p" if d: "d dvd p" "d < 19" for d
  proof -
    have "0 < d" using d(1) r by (metis dvd_0_left gr0I not_less0)
    then have "d = 1 \<or> 2 dvd d \<or> 3 dvd d \<or> 5 dvd d \<or> 7 dvd d \<or> d = 11 \<or> d = 13 \<or> d = 17" using d(2) by presburger
    moreover have "k dvd d \<Longrightarrow> k \<in> {2, 3, 5, 7, 11, 13, 17} \<Longrightarrow> p = k" for k using d(1) r dvd_trans by blast
    ultimately consider "d = 1" | k where "k dvd d" "p = k" by (metis dvd_refl insertCI)
    then show ?thesis using d(1) by cases (auto intro: dvd_antisym)
  qed
  show "is_prime p"
    unfolding is_prime_def
  proof (intro conjI allI impI)
    show "1 < p" using r by blast
    fix d
    assume d: "d dvd p"
    show "d = 1 \<or> d = p"
    proof (cases "d < 19")
      case False
      obtain q where q: "p = d * q" using d by blast
      have "q < 19"
      proof (rule ccontr)
        assume "\<not> q < 19"
        then have "19 * 19 \<le> d * q" using False by (intro mult_le_mono) auto
        then show False using q assms by simp
      qed
      then have "q = 1 \<or> q = p" using small[of q] q by simp
      then show ?thesis using q r by auto
    qed (use small d in blast)
  qed
qed (auto simp: is_prime_def)

lemma sha_primes: "sha_primes = [2, 3, 5, 7, 11, 13, 17, 19, 23, 29, 31, 37, 41, 43, 47, 53, 59, 61, 67, 71, 73, 79, 83, 89, 97,
  101, 103, 107, 109, 113, 127, 131, 137, 139, 149, 151, 157, 163, 167, 173, 179, 181, 191, 193, 197, 199, 211, 223, 227, 229,
  233, 239, 241, 251, 257, 263, 269, 271, 277, 281, 283, 293, 307, 311]"
proof -
  have "sha_primes = filter (\<lambda>p. 1 < p \<and> (\<forall>d\<in>{2, 3, 5, 7, 11, 13, 17}. d dvd p \<longrightarrow> p = d)) [2..<312]"
    unfolding sha_primes_def
    by (rule filter_cong[OF refl], rule is_prime_small) (simp add: atLeastLessThan_iff del: upt_rec_numeral)
  also have "\<dots> = [2, 3, 5, 7, 11, 13, 17, 19, 23, 29, 31, 37, 41, 43, 47, 53, 59, 61, 67, 71, 73, 79, 83, 89, 97,
  101, 103, 107, 109, 113, 127, 131, 137, 139, 149, 151, 157, 163, 167, 173, 179, 181, 191, 193, 197, 199, 211, 223, 227, 229,
  233, 239, 241, 251, 257, 263, 269, 271, 277, 281, 283, 293, 307, 311]"
    by (simp add: upt_rec_numeral)
  finally show ?thesis .
qed

lemma fraction_of_root:
  assumes e: "0 < e" and m: "m ^ e \<le> p" "p < (m + 1) ^ e"
    and k: "(m * 2 ^ 32 + k) ^ e \<le> p * 2 ^ (32 * e)" "p * 2 ^ (32 * e) < (m * 2 ^ 32 + k + 1) ^ e"
  shows "sha_fraction e p = of_nat k"
proof -
  define x where "x = root e (real p)"
  have scaled: "root e (real (p * 2 ^ (32 * e))) = 2 ^ 32 * x"
  proof -
    have "root e (real (p * 2 ^ (32 * e))) = root e (real p) * root e ((2 ^ 32) ^ e)"
      by (simp add: real_root_mult power_mult)
    then show ?thesis using e by (simp add: x_def real_root_power_cancel)
  qed
  have below: "real a \<le> root e (real n)" if "a ^ e \<le> n" for a n
  proof -
    have "real a ^ e \<le> real n" using that by (metis of_nat_le_iff of_nat_power)
    then show ?thesis using e by (metis of_nat_0_le_iff real_root_le_mono real_root_power_cancel)
  qed
  have above: "root e (real n) < real a" if "n < a ^ e" for a n
  proof -
    have "real n < real a ^ e" using that by (metis of_nat_less_iff of_nat_power)
    then show ?thesis using e by (metis of_nat_0_le_iff real_root_less_mono real_root_power_cancel)
  qed
  have fl: "\<lfloor>x\<rfloor> = int m"
    using below[OF m(1)] above[OF m(2)] by (intro floor_unique) (simp_all add: x_def)
  have "real (m * 2 ^ 32 + k) \<le> 2 ^ 32 * x" "2 ^ 32 * x < real (m * 2 ^ 32 + k + 1)"
    using below[OF k(1)] above[OF k(2)] scaled by simp_all
  then have "real k \<le> 2 ^ 32 * (x - real m)" "2 ^ 32 * (x - real m) < real k + 1"
    by (simp_all add: algebra_simps)
  then have "\<lfloor>2 ^ 32 * frac x\<rfloor> = int k"
    by (intro floor_unique) (simp_all add: frac_def fl)
  then show ?thesis by (simp add: sha_fraction_def x_def)
qed

definition root_entry :: "nat \<Rightarrow> nat \<times> nat \<times> nat \<Rightarrow> bool" where
  "root_entry e = (\<lambda>(p, m, k). m ^ e \<le> p \<and> p < (m + 1) ^ e \<and> (m * 2 ^ 32 + k) ^ e \<le> p * 2 ^ (32 * e) \<and>
     p * 2 ^ (32 * e) < (m * 2 ^ 32 + k + 1) ^ e)"

lemma root_entries:
  assumes "0 < e" "list_all (root_entry e) xs"
  shows "map (\<lambda>(p, m, k). sha_fraction e p) xs = map (\<lambda>(p, m, k). of_nat k) xs"
  using assms(2) by (induction xs) (auto simp: root_entry_def fraction_of_root[OF assms(1)])

lemma cube_roots: "list_all (root_entry 3)
  [
   (2, 1, 0x428a2f98), (3, 1, 0x71374491), (5, 1, 0xb5c0fbcf), (7, 1, 0xe9b5dba5), (11, 2, 0x3956c25b),
   (13, 2, 0x59f111f1), (17, 2, 0x923f82a4), (19, 2, 0xab1c5ed5), (23, 2, 0xd807aa98), (29, 3, 0x12835b01),
   (31, 3, 0x243185be), (37, 3, 0x550c7dc3), (41, 3, 0x72be5d74), (43, 3, 0x80deb1fe), (47, 3, 0x9bdc06a7),
   (53, 3, 0xc19bf174), (59, 3, 0xe49b69c1), (61, 3, 0xefbe4786), (67, 4, 0x0fc19dc6), (71, 4, 0x240ca1cc),
   (73, 4, 0x2de92c6f), (79, 4, 0x4a7484aa), (83, 4, 0x5cb0a9dc), (89, 4, 0x76f988da), (97, 4, 0x983e5152),
   (101, 4, 0xa831c66d), (103, 4, 0xb00327c8), (107, 4, 0xbf597fc7), (109, 4, 0xc6e00bf3), (113, 4, 0xd5a79147),
   (127, 5, 0x06ca6351), (131, 5, 0x14292967), (137, 5, 0x27b70a85), (139, 5, 0x2e1b2138), (149, 5, 0x4d2c6dfc),
   (151, 5, 0x53380d13), (157, 5, 0x650a7354), (163, 5, 0x766a0abb), (167, 5, 0x81c2c92e), (173, 5, 0x92722c85),
   (179, 5, 0xa2bfe8a1), (181, 5, 0xa81a664b), (191, 5, 0xc24b8b70), (193, 5, 0xc76c51a3), (197, 5, 0xd192e819),
   (199, 5, 0xd6990624), (211, 5, 0xf40e3585), (223, 6, 0x106aa070), (227, 6, 0x19a4c116), (229, 6, 0x1e376c08),
   (233, 6, 0x2748774c), (239, 6, 0x34b0bcb5), (241, 6, 0x391c0cb3), (251, 6, 0x4ed8aa4a), (257, 6, 0x5b9cca4f),
   (263, 6, 0x682e6ff3), (269, 6, 0x748f82ee), (271, 6, 0x78a5636f), (277, 6, 0x84c87814), (281, 6, 0x8cc70208),
   (283, 6, 0x90befffa), (293, 6, 0xa4506ceb), (307, 6, 0xbef9a3f7), (311, 6, 0xc67178f2)]"
  by (simp add: root_entry_def del: One_nat_def)

lemma square_roots: "list_all (root_entry 2)
  [
   (2, 1, 0x6a09e667), (3, 1, 0xbb67ae85), (5, 2, 0x3c6ef372), (7, 2, 0xa54ff53a),
   (11, 3, 0x510e527f), (13, 3, 0x9b05688c), (17, 4, 0x1f83d9ab), (19, 4, 0x5be0cd19)]"
  by (simp add: root_entry_def del: One_nat_def)

lemma round_constants: "map (sha_fraction 3) sha_primes = sha256_round_constants"
  using root_entries[OF _ cube_roots] by (simp add: sha_primes sha256_round_constants_def)

lemma initial_values: "map (sha_fraction 2) (take 8 sha_primes) = sha256_initial_state"
  using root_entries[OF _ square_roots] by (simp add: sha_primes sha256_initial_state_def)

lemma round_constant: "t < 64 \<Longrightarrow> sha256_round_constants ! t = sha_K t"
proof -
  assume "t < 64"
  then have "t < length sha_primes" by (simp add: sha_primes)
  then show ?thesis by (simp add: round_constants[symmetric] sha_K_def)
qed

lemma initial_state: "i < 8 \<Longrightarrow> sha256_initial_state ! i = sha_H i"
proof -
  assume "i < 8"
  then have "i < length (take 8 sha_primes)" by (simp add: sha_primes)
  then show ?thesis using \<open>i < 8\<close> by (simp add: initial_values[symmetric] sha_H_def)
qed

lemma rotr_word_rotr:
  assumes "0 < n" and "n < 32"
  shows "sha256_rotr v n = word_rotr n v"
proof (rule bit_word_eqI)
  fix k
  assume "k < LENGTH(32)"
  then have k: "k < 32" by simp
  have "bit (word_rotr n v) k = bit v ((k + n) mod 32)" using k by (simp add: bit_word_rotr_iff)
  also have "\<dots> = (bit v (n + k) \<or> 32 - n \<le> k \<and> bit v (k - (32 - n)))"
  proof (cases "k + n < 32")
    case True
    then show ?thesis by (auto simp: add.commute)
  next
    case False
    then have "(k + n) mod 32 = k - (32 - n)" using k assms by (simp add: mod_if)
    moreover have "\<not> bit v (n + k)" using False bit_imp_le_length[of v "n + k"] by auto
    ultimately show ?thesis using False by auto
  qed
  finally show "bit (sha256_rotr v n) k = bit (word_rotr n v) k"
    using k by (auto simp: sha256_rotr_def bit_simps)
qed

lemma four_elements:
  assumes "4 \<le> length xs"
  obtains w x y z rest where "xs = w # x # y # z # rest"
proof -
  have "length xs = Suc (Suc (Suc (Suc (length xs - 4))))" using assms by simp
  then show thesis using that by (auto simp: length_Suc_conv simp del: length_drop)
qed

lemma load_be32_block_word:
  assumes "length data = 64" and "i < 16"
  shows "sha256_load_be32 (drop (4 * i) data) = block_word data i"
proof -
  have "4 \<le> length (drop (4 * i) data)" using assms by simp
  then obtain w x y z rest where d: "drop (4 * i) data = w # x # y # z # rest" by (rule four_elements)
  show ?thesis
    by (rule bit_word_eqI)
      (auto simp: d block_word_def sha256_load_be32_def bit_simps)
qed

lemma schedule_prefix:
  assumes "length data = 64"
  shows "n \<le> 48 \<Longrightarrow> (schedule_step ^^ n) (map (\<lambda>i. sha256_load_be32 (drop (4 * i) data)) [0..<16]) =
    map (sha_W (block_word data)) [0..<16 + n]"
proof (induction n)
  case 0
  then show ?case using load_be32_block_word[OF assms] by (simp add: sha_W.simps)
next
  case (Suc n)
  let ?W = "sha_W (block_word data)"
  have step: "schedule_step (map ?W [0..<16 + n]) = map ?W [0..<16 + n] @ [?W (16 + n)]"
    by (simp add: schedule_step_def Let_def sha_W.simps[of _ "16 + n"] rotr_word_rotr sigma0_def sigma1_def)
  have "[0..<16 + Suc n] = [0..<16 + n] @ [16 + n]" using upt_Suc_append[of 0 "16 + n"] by simp
  then show ?case using Suc by (simp add: step del: upt_Suc)
qed

lemma schedule_nth: "length data = 64 \<Longrightarrow> t < 64 \<Longrightarrow> sha256_schedule data ! t = sha_W (block_word data) t"
  using schedule_prefix[of data 48] by (simp add: sha256_schedule_def)

lemma sha_state_cases: obtains a b c d e f g h where "st = ((a, b, c, d, e, f, g, h) :: sha_state)"
  by (cases st) auto

lemma rounds_eq:
  assumes "length data = 64"
  shows "n \<le> 64 \<Longrightarrow> fold (sha256_round (sha256_schedule data)) [0..<n] st = sha_rounds (block_word data) n st"
proof (induction n)
  case (Suc n)
  then show ?case using schedule_nth[OF assms, of n] round_constant[of n]
    by (cases "sha_rounds (block_word data) n st" rule: sha_state_cases)
      (simp add: Let_def rotr_word_rotr Sigma0_def Sigma1_def)
qed simp

lemma store_be32: "sha256_store_be32 v = rev (le_bytes 4 v)"
  by (simp add: sha256_store_be32_def le_bytes_def upt_rec)

text \<open>C28. The midstate routine computes the SHA-256 compression of one 64-byte block from the initial hash
  value as the standard defines it: message schedule, rotations, round constants and initial value (fractional parts of
  the roots of the first primes), big-endian output.\<close>

theorem midstate_is_sha256_compression:
  assumes "length data = 64"
  shows "midstate_sha256_bin data = sha_compress data"
proof -
  obtain a b c d e f g h where st: "sha_rounds (block_word data) 64 (sha_H 0, sha_H 1, sha_H 2, sha_H 3, sha_H 4, sha_H 5,
      sha_H 6, sha_H 7) = (a, b, c, d, e, f, g, h)" by (rule sha_state_cases)
  have numbers: "enumerate 0 [a, b, c, d, e, f, g, h] = [(0, a), (1, b), (2, c), (3, d), (4, e), (5, f), (6, g), (7, h)]" by simp
  show ?thesis
    using assms rounds_eq[OF assms, of 64, THEN trans[OF _ st]]
    unfolding midstate_sha256_bin_def sha_compress_def st
    by (simp add: Let_def store_be32 initial_state numbers del: enumerate_simps)
qed

theorem midstate_is_sha256_compression_witness:
  "midstate_sha256_bin (replicate 64 7) = sha_compress (replicate 64 7)"
  using midstate_is_sha256_compression[of "replicate 64 7"] by simp

text \<open>C35. Hexadecimal text round trip: decoding the text of a byte string into a buffer that can hold it gives the
  bytes back, whatever their number, and the text of a generated extranonce decodes to the counter's
  little-endian bytes, padded with zeros beyond eight.\<close>

theorem hex_roundtrip:
  assumes "2 * length bs < hexlen" and "length bs \<le> bin_len"
  shows "fst (bin2hex bs hexlen) = 2 * length bs
    \<and> hex2bin (snd (bin2hex bs hexlen)) bin_len = (length bs, bs)
    \<and> (len \<le> bin_len \<longrightarrow> hex2bin (extranonce_2_generate extranonce len) bin_len =
         (len, map (\<lambda>i. if i < 8 then ucast (drop_bit (8 * i) extranonce) else 0) [0..<len]))"
proof -
  have "extranonce_2_generate extranonce len = concat (map (\<lambda>b :: u8. [hex_table ! unat (drop_bit 4 b), hex_table ! unat (b AND 0x0F)])
      (map (\<lambda>i. if i < 8 then ucast (drop_bit (8 * i) extranonce) else 0) [0..<len]))"
    unfolding extranonce_2_generate_def Let_def map_map comp_def by (rule refl)
  then show ?thesis using assms hex2bin_loop_encoded[of bs bin_len "[]"]
      hex2bin_loop_encoded[of "map (\<lambda>i. if i < 8 then ucast (drop_bit (8 * i) extranonce) else 0) [0..<len]" bin_len "[]"]
    by (simp add: bin2hex_def hex2bin_def)
qed

theorem hex_roundtrip_witness:
  "hex2bin (snd (bin2hex [0xde, 0xad] 5)) 4 = (2, [0xde, 0xad :: u8])"
  using hex_roundtrip[of "[0xde, 0xad]" 5 4] by simp

end
