(* ===== verification/Floats.thy ===== *)
theory Floats
  imports Prelude "HOL-Library.Log_Nat"
begin

text \<open>
  Values of the C types \<open>float\<close> and \<open>double\<close>: rationals, two infinities and a NaN. The sign of zero
  is not distinguished, which no code modelled here observes. Comparisons are exact, as in IEEE
  754 (every comparison with a NaN is false); single-precision subtraction rounds to nearest,
  ties to even, with gradual underflow and overflow to infinity.
\<close>

datatype cfloat = Fin rat | PosInf | NegInf | NaN

definition isfinite :: "cfloat \<Rightarrow> bool" where
  "isfinite x \<longleftrightarrow> (case x of Fin _ \<Rightarrow> True | _ \<Rightarrow> False)"

fun flt_le :: "cfloat \<Rightarrow> cfloat \<Rightarrow> bool" where
  "flt_le (Fin a) (Fin b) = (a \<le> b)"
| "flt_le NaN y = False"
| "flt_le x NaN = False"
| "flt_le NegInf y = True"
| "flt_le x PosInf = True"
| "flt_le PosInf y = False"
| "flt_le x NegInf = False"

fun flt_lt :: "cfloat \<Rightarrow> cfloat \<Rightarrow> bool" where
  "flt_lt (Fin a) (Fin b) = (a < b)"
| "flt_lt NaN y = False"
| "flt_lt x NaN = False"
| "flt_lt x NegInf = False"
| "flt_lt PosInf y = False"
| "flt_lt NegInf y = True"
| "flt_lt x PosInf = True"

lemma isfinite_simps [simp]: "isfinite (Fin a)" "\<not> isfinite PosInf" "\<not> isfinite NegInf" "\<not> isfinite NaN"
  by (simp_all add: isfinite_def)

lemma isfiniteE: "isfinite x \<Longrightarrow> (\<And>a. x = Fin a \<Longrightarrow> P) \<Longrightarrow> P"
  by (cases x) auto

lemma flt_le_less: "flt_lt x y \<Longrightarrow> flt_le x y"
  by (cases x; cases y) auto

lemma flt_not_less: "isfinite x \<Longrightarrow> isfinite y \<Longrightarrow> \<not> flt_lt x y \<longleftrightarrow> flt_le y x"
  by (auto elim!: isfiniteE)

section \<open>Rounding to single precision\<close>

text \<open>\<open>2 ^ k\<close> for an integer exponent.\<close>

definition exp2 :: "int \<Rightarrow> rat" where
  "exp2 k = (if 0 \<le> k then 2 ^ nat k else 1 / 2 ^ nat (- k))"

text \<open>The exponent of the leading bit of a positive rational.\<close>

definition lead_exp :: "rat \<Rightarrow> int" where
  "lead_exp x =
     (let (n, d) = quotient_of x; k = int (floorlog 2 (nat n)) - int (floorlog 2 (nat d))
      in if exp2 k \<le> x then k else k - 1)"

definition round_even :: "rat \<Rightarrow> int" where
  "round_even x =
     (let f = \<lfloor>x\<rfloor>; r = x - of_int f
      in if r < 1 / 2 then f else if r > 1 / 2 then f + 1 else if even f then f else f + 1)"

definition round32 :: "rat \<Rightarrow> cfloat" where
  "round32 x =
     (if x = 0 then Fin 0
      else
        (let e = max (lead_exp \<bar>x\<bar> - 23) (- 149);
             y = of_int (round_even (x / exp2 e)) * exp2 e
         in if exp2 128 \<le> y then PosInf else if y \<le> - exp2 128 then NegInf else Fin y))"

fun flt_neg :: "cfloat \<Rightarrow> cfloat" where
  "flt_neg (Fin a) = Fin (- a)"
| "flt_neg PosInf = NegInf"
| "flt_neg NegInf = PosInf"
| "flt_neg NaN = NaN"

fun flt_add :: "cfloat \<Rightarrow> cfloat \<Rightarrow> cfloat" where
  "flt_add (Fin a) (Fin b) = round32 (a + b)"
| "flt_add NaN y = NaN"
| "flt_add x NaN = NaN"
| "flt_add PosInf NegInf = NaN"
| "flt_add NegInf PosInf = NaN"
| "flt_add PosInf y = PosInf"
| "flt_add NegInf y = NegInf"
| "flt_add x PosInf = PosInf"
| "flt_add x NegInf = NegInf"

definition flt_sub :: "cfloat \<Rightarrow> cfloat \<Rightarrow> cfloat" where
  "flt_sub x y = flt_add x (flt_neg y)"

fun fabsf :: "cfloat \<Rightarrow> cfloat" where
  "fabsf (Fin a) = Fin \<bar>a\<bar>"
| "fabsf NegInf = PosInf"
| "fabsf x = x"

text \<open>Multiplication, and division by a non-zero constant.\<close>

fun flt_sign :: "cfloat \<Rightarrow> rat" where
  "flt_sign (Fin a) = a"
| "flt_sign PosInf = 1"
| "flt_sign NegInf = - 1"
| "flt_sign NaN = 0"

definition flt_mul :: "cfloat \<Rightarrow> cfloat \<Rightarrow> cfloat" where
  "flt_mul x y =
     (case (x, y) of
        (Fin a, Fin b) \<Rightarrow> round32 (a * b)
      | _ \<Rightarrow> if x = NaN \<or> y = NaN \<or> flt_sign x * flt_sign y = 0 then NaN
             else if 0 < flt_sign x * flt_sign y then PosInf else NegInf)"

definition flt_divc :: "cfloat \<Rightarrow> rat \<Rightarrow> cfloat" where
  "flt_divc x c =
     (case x of Fin a \<Rightarrow> round32 (a / c) | NaN \<Rightarrow> NaN
      | _ \<Rightarrow> if 0 < flt_sign x * c then PosInf else NegInf)"

lemma round_even_int [simp]: "round_even (of_int k) = k"
  by (simp add: round_even_def Let_def)

lemma round_even_mono: "x \<le> y \<Longrightarrow> round_even x \<le> round_even y"
proof -
  assume xy: "x \<le> y"
  have f: "\<lfloor>x\<rfloor> \<le> \<lfloor>y\<rfloor>" using xy by (rule floor_mono)
  show ?thesis
  proof (cases "\<lfloor>x\<rfloor> = \<lfloor>y\<rfloor>")
    case True
    then show ?thesis using xy by (simp add: round_even_def Let_def)
  next
    case False
    then have "\<lfloor>x\<rfloor> + 1 \<le> \<lfloor>y\<rfloor>" using f by simp
    moreover have "round_even x \<le> \<lfloor>x\<rfloor> + 1" "\<lfloor>y\<rfloor> \<le> round_even y" by (simp_all add: round_even_def Let_def)
    ultimately show ?thesis by linarith
  qed
qed

end
