(* ===== verification/Results.thy ===== *)
theory Results
  imports JobStore Mining Floats
begin

text \<open>
  From hardware results to shares: the event a Bitmain result becomes (\<open>asic/bm_result.c\<close>), the
  handler that validates a result and submits and accounts its share
  (\<open>asic/asic_result_handler.c\<close>), the queue entry of a share (\<open>asic/asic_share.c\<close>) and the
  duplicate filter of the BZM driver (\<open>asic/bzm_result_dedup.c\<close>). Callbacks are optional
  functions on the callback context. SHA-256 (\<open>psa\<close>) and the conversion of a hash to a difficulty
  (\<open>pdiff\<close>, double-precision arithmetic of \<open>hash_to_pdiff\<close>) are parameters.
\<close>

section \<open>Model\<close>

datatype register_type_t = REGISTER_INVALID | REGISTER_HASHRATE | REGISTER_TOTAL_COUNT | REGISTER_DOMAIN_0_COUNT
  | REGISTER_DOMAIN_1_COUNT | REGISTER_DOMAIN_2_COUNT | REGISTER_DOMAIN_3_COUNT | REGISTER_ERROR_COUNT
  | REGISTER_PLL_PARAM

type_synonym job = "cfloat asic_job_t"

record asic_result_t =
  rs_job_valid :: bool
  rs_job :: job
  rs_context :: asic_job_context_t
  rs_work_handle :: asic_work_handle_t
  rs_nonce :: u32
  rs_final_ntime :: u32
  rs_final_version :: u32
  rs_version_bits :: u32
  rs_timestamp_us :: u64
  rs_asic_index :: u8
  rs_core_id :: u8
  rs_small_core_id :: u8
  rs_engine_id :: u16
  rs_sequence_id :: u8
  rs_micro_job_id :: u8
  rs_generation :: u32

record asic_register_result_t =
  rr_register_type :: register_type_t
  rr_asic_index :: u8
  rr_value :: u32
  rr_timestamp_us :: u64

datatype asic_event_t = ASIC_EVENT_NONE | ASIC_EVENT_SHARE_RESULT asic_result_t
  | ASIC_EVENT_REGISTER_RESULT asic_register_result_t

record task_result =
  tr_job :: job
  tr_context :: asic_job_context_t
  tr_job_id :: u8
  tr_nonce :: u32
  tr_ntime :: u32
  tr_rolled_version :: u32
  tr_version_bits :: u32
  tr_register_type :: register_type_t
  tr_asic_nr :: u8
  tr_value :: u32
  tr_core_id :: u8
  tr_small_core_id :: u8
  tr_timestamp_us :: u64

definition bm_result_to_event :: "task_result \<Rightarrow> asic_event_t" where
  "bm_result_to_event r =
     (if tr_register_type r \<noteq> REGISTER_INVALID
      then ASIC_EVENT_REGISTER_RESULT \<lparr> rr_register_type = tr_register_type r, rr_asic_index = tr_asic_nr r,
             rr_value = tr_value r, rr_timestamp_us = tr_timestamp_us r \<rparr>
      else ASIC_EVENT_SHARE_RESULT \<lparr> rs_job_valid = True, rs_job = tr_job r, rs_context = tr_context r,
             rs_work_handle = ucast (tr_job_id r), rs_nonce = tr_nonce r, rs_final_ntime = tr_ntime r,
             rs_final_version = tr_rolled_version r, rs_version_bits = tr_version_bits r,
             rs_timestamp_us = tr_timestamp_us r, rs_asic_index = tr_asic_nr r, rs_core_id = tr_core_id r,
             rs_small_core_id = tr_small_core_id r, rs_engine_id = 0, rs_sequence_id = 0, rs_micro_job_id = 0,
             rs_generation = 0 \<rparr>)"

record asic_share_submission_t =
  sh_result :: "asic_result_t option"
  sh_username :: "u8 list option"
  sh_job_id :: "u8 list option"
  sh_extranonce2 :: "u8 list option"
  sh_extranonce2_bin :: "u8 list"
  sh_extranonce2_len :: u8
  sh_numeric_job_id :: u32
  sh_nonce :: u32
  sh_nonce_diff :: cfloat
  sh_ntime :: u32
  sh_base_version :: u32
  sh_final_version :: u32
  sh_version_bits :: u32
  sh_pool_difficulty :: cfloat
  sh_target :: u32
  sh_protocol :: mining_job_source_t
  sh_pool_id :: u8
  sh_work_generation :: u64
  sh_job_version :: u32

record 'c asic_result_context_t =
  rc_self_test :: bool
  rc_username :: "u8 list option"
  rc_work_is_current :: "('c \<Rightarrow> u64 \<Rightarrow> bool \<times> 'c) option"

record 'c asic_result_callbacks_t =
  cb_record_self_test :: "('c \<Rightarrow> cfloat \<Rightarrow> 'c) option"
  cb_sv1_transport_ready :: "('c \<Rightarrow> asic_share_submission_t \<Rightarrow> bool \<times> 'c) option"
  cb_submit_sv1 :: "('c \<Rightarrow> asic_share_submission_t \<Rightarrow> 'c) option"
  cb_submit_sv2_standard :: "('c \<Rightarrow> asic_share_submission_t \<Rightarrow> 'c) option"
  cb_submit_sv2_extended :: "('c \<Rightarrow> asic_share_submission_t \<Rightarrow> 'c) option"
  cb_account_share :: "('c \<Rightarrow> asic_share_submission_t \<Rightarrow> 'c) option"

datatype asic_result_status_t = ASIC_RESULT_REJECTED_WORK | ASIC_RESULT_STALE_WORK
  | ASIC_RESULT_RECORDED_SELF_TEST | ASIC_RESULT_ACCOUNTED

text \<open>The characters of an array before its first zero.\<close>

definition cstr :: "u8 list \<Rightarrow> u8 list" where
  "cstr a = takeWhile (\<lambda>c. c \<noteq> 0) a"

text \<open>\<open>strtoul (s, NULL, 10)\<close> with a 32-bit \<open>unsigned long\<close>: leading white space, a sign, digits,
  saturation on overflow.\<close>

definition is_digit :: "u8 \<Rightarrow> bool" where "is_digit c \<longleftrightarrow> 0x30 \<le> c \<and> c \<le> 0x39"
definition is_space :: "u8 \<Rightarrow> bool" where "is_space c \<longleftrightarrow> c = 0x20 \<or> 0x09 \<le> c \<and> c \<le> 0x0d"

definition strtoul10 :: "u8 list \<Rightarrow> u32" where
  "strtoul10 s =
     (let s = dropWhile is_space s;
          negative = (s \<noteq> [] \<and> hd s = 0x2D);
          digits = takeWhile is_digit (if s \<noteq> [] \<and> (hd s = 0x2D \<or> hd s = 0x2B) then tl s else s);
          n = foldl (\<lambda>v d. 10 * v + unat (d - 0x30)) (0 :: nat) digits
      in if n > unat UINT32_MAX then UINT32_MAX
         else if negative then - of_nat n else of_nat n)"

definition mining_test_nonce_value ::
    "sha256_fn \<Rightarrow> (u8 list \<Rightarrow> cfloat) \<Rightarrow> job \<Rightarrow> u32 \<Rightarrow> u32 \<Rightarrow> u32 \<Rightarrow> cfloat" where
  "mining_test_nonce_value psa pdiff template nonce final_ntime final_version =
     pdiff (double_sha256_bin psa (asic_job_header (template\<lparr> aj_ntime := final_ntime \<rparr>) nonce final_version))"

definition metadata_valid :: "asic_result_t \<Rightarrow> bool" where
  "metadata_valid r \<longleftrightarrow>
     0 \<in> set (aj_job_id (rs_job r)) \<and> 0 \<in> set (aj_extranonce2 (rs_job r))
     \<and> rs_version_bits r = rs_final_version r XOR aj_version (rs_job r)
     \<and> rs_version_bits r AND NOT (aj_version_mask (rs_job r)) = 0"

text \<open>The share built from a result, before its extranonce is decoded.\<close>

definition make_share ::
    "sha256_fn \<Rightarrow> (u8 list \<Rightarrow> cfloat) \<Rightarrow> asic_result_t \<Rightarrow> u8 list option \<Rightarrow> asic_share_submission_t" where
  "make_share psa pdiff r username =
     (let template = rs_job r; provenance = rs_context r in \<lparr>
       sh_result = Some r,
       sh_username = username,
       sh_job_id = Some (aj_job_id template),
       sh_extranonce2 = Some (aj_extranonce2 template),
       sh_extranonce2_bin = replicate ASIC_JOB_EXTRANONCE2_SIZE 0,
       sh_extranonce2_len = of_nat (length (cstr (aj_extranonce2 template)) div 2),
       sh_numeric_job_id = strtoul10 (cstr (aj_job_id template)),
       sh_nonce = rs_nonce r,
       sh_nonce_diff = mining_test_nonce_value psa pdiff template (rs_nonce r) (rs_final_ntime r) (rs_final_version r),
       sh_ntime = rs_final_ntime r,
       sh_base_version = aj_version template,
       sh_final_version = rs_final_version r,
       sh_version_bits = rs_version_bits r,
       sh_pool_difficulty = aj_pool_diff template,
       sh_target = aj_nbits template,
       sh_protocol = aj_source_type template,
       sh_pool_id = aj_pool_id template,
       sh_work_generation = jc_work_generation provenance,
       sh_job_version = jc_job_version provenance \<rparr>)"

definition work_current :: "'c asic_result_context_t \<Rightarrow> 'c \<Rightarrow> u64 \<Rightarrow> bool \<times> 'c" where
  "work_current context ctx generation =
     (case rc_work_is_current context of None \<Rightarrow> (True, ctx) | Some f \<Rightarrow> f ctx generation)"

definition call_share :: "('c \<Rightarrow> asic_share_submission_t \<Rightarrow> 'c) option \<Rightarrow> 'c \<Rightarrow> asic_share_submission_t \<Rightarrow> 'c" where
  "call_share callback ctx share = (case callback of None \<Rightarrow> ctx | Some f \<Rightarrow> f ctx share)"

definition submit_share :: "'c asic_result_callbacks_t \<Rightarrow> 'c \<Rightarrow> asic_share_submission_t \<Rightarrow> 'c" where
  "submit_share callbacks ctx share =
     (if flt_lt (Fin 0) (sh_pool_difficulty share) \<and> flt_le (sh_pool_difficulty share) (sh_nonce_diff share)
      then (case sh_protocol share of
              JOB_TYPE_V1 \<Rightarrow>
                (let (ready, ctx) = (case cb_sv1_transport_ready callbacks of None \<Rightarrow> (True, ctx) | Some f \<Rightarrow> f ctx share)
                 in if ready then call_share (cb_submit_sv1 callbacks) ctx share else ctx)
            | JOB_TYPE_SV2_STANDARD \<Rightarrow> call_share (cb_submit_sv2_standard callbacks) ctx share
            | JOB_TYPE_SV2_EXTENDED \<Rightarrow> call_share (cb_submit_sv2_extended callbacks) ctx share)
      else ctx)"

definition asic_result_handle ::
    "sha256_fn \<Rightarrow> (u8 list \<Rightarrow> cfloat) \<Rightarrow> asic_result_t \<Rightarrow> 'c asic_result_context_t \<Rightarrow> 'c asic_result_callbacks_t \<Rightarrow> 'c
       \<Rightarrow> asic_result_status_t \<times> 'c" where
  "asic_result_handle psa pdiff r context callbacks ctx =
     (if \<not> rs_job_valid r then (ASIC_RESULT_STALE_WORK, ctx)
      else if \<not> metadata_valid r then (ASIC_RESULT_REJECTED_WORK, ctx)
      else
        (let share = make_share psa pdiff r (rc_username context);
             extranonce2 = cstr (aj_extranonce2 (rs_job r));
             (decoded_len, decoded) = hex2bin extranonce2 ASIC_JOB_EXTRANONCE2_SIZE
         in if length extranonce2 mod 2 \<noteq> 0 \<or> decoded_len \<noteq> unat (sh_extranonce2_len share)
            then (ASIC_RESULT_REJECTED_WORK, ctx)
            else
              (let share = share\<lparr> sh_extranonce2_bin := decoded @ drop decoded_len (sh_extranonce2_bin share) \<rparr>
               in if rc_self_test context
                  then (ASIC_RESULT_RECORDED_SELF_TEST,
                        case cb_record_self_test callbacks of None \<Rightarrow> ctx | Some f \<Rightarrow> f ctx (sh_nonce_diff share))
                  else
                    (case work_current context ctx (sh_work_generation share) of
                       (False, ctx) \<Rightarrow> (ASIC_RESULT_STALE_WORK, ctx)
                     | (True, ctx) \<Rightarrow>
                         (case work_current context (submit_share callbacks ctx share) (sh_work_generation share) of
                            (False, ctx) \<Rightarrow> (ASIC_RESULT_STALE_WORK, ctx)
                          | (True, ctx) \<Rightarrow> (ASIC_RESULT_ACCOUNTED, call_share (cb_account_share callbacks) ctx share))))))"

record asic_share_snapshot_t =
  sn_submission :: asic_share_submission_t
  sn_result :: asic_result_t
  sn_job_id :: "u8 list"
  sn_extranonce2 :: "u8 list"

text \<open>The queue entry's character arrays keep the copied string and its terminator.\<close>

definition asic_share_snapshot_capture :: "asic_share_submission_t \<Rightarrow> asic_share_snapshot_t option" where
  "asic_share_snapshot_capture share =
     (case (sh_result share, sh_job_id share, sh_extranonce2 share) of
        (Some r, Some job_id, Some extranonce2) \<Rightarrow>
          if unat (sh_extranonce2_len share) > ASIC_JOB_EXTRANONCE2_SIZE then None
          else
            (let job_length = min (length (cstr job_id)) ASIC_JOB_ID_LEN;
                 extranonce_length = min (length (cstr extranonce2)) ASIC_JOB_EXTRANONCE2_HEX_SIZE
             in if job_length = ASIC_JOB_ID_LEN \<or> extranonce_length = ASIC_JOB_EXTRANONCE2_HEX_SIZE then None
                else Some \<lparr>
                  sn_submission = share\<lparr> sh_result := None, sh_username := None, sh_job_id := None, sh_extranonce2 := None \<rparr>,
                  sn_result = r,
                  sn_job_id = take job_length job_id @ replicate (ASIC_JOB_ID_LEN - job_length) 0,
                  sn_extranonce2 = take extranonce_length extranonce2
                    @ replicate (ASIC_JOB_EXTRANONCE2_HEX_SIZE - extranonce_length) 0 \<rparr>)
      | _ \<Rightarrow> None)"

definition asic_share_snapshot_view :: "asic_share_snapshot_t \<Rightarrow> asic_share_submission_t" where
  "asic_share_snapshot_view snapshot =
     (sn_submission snapshot)\<lparr> sh_result := Some (sn_result snapshot), sh_job_id := Some (sn_job_id snapshot),
        sh_extranonce2 := Some (sn_extranonce2 snapshot) \<rparr>"

definition BZM_RESULT_DEDUP_CAPACITY :: nat where "BZM_RESULT_DEDUP_CAPACITY = 256"

record bzm_result_identity_t =
  id_valid :: bool
  id_fingerprint :: "u8 list"

record bzm_result_dedup_t =
  dd_entries :: "bzm_result_identity_t list"
  dd_next :: nat

definition dedup_empty :: bzm_result_dedup_t where
  "dedup_empty = \<lparr> dd_entries = replicate BZM_RESULT_DEDUP_CAPACITY \<lparr> id_valid = False, id_fingerprint = replicate 32 0 \<rparr>,
     dd_next = 0 \<rparr>"

definition source_code :: "mining_job_source_t \<Rightarrow> u8" where
  "source_code s = (case s of JOB_TYPE_V1 \<Rightarrow> 0 | JOB_TYPE_SV2_STANDARD \<Rightarrow> 1 | JOB_TYPE_SV2_EXTENDED \<Rightarrow> 2)"

definition result_identity :: "job \<Rightarrow> u64 \<Rightarrow> asic_result_t \<Rightarrow> u8 list" where
  "result_identity job work_generation r =
     asic_job_header (job\<lparr> aj_ntime := rs_final_ntime r \<rparr>) (rs_nonce r) (rs_final_version r)
     @ map (\<lambda>i. ucast (drop_bit (8 * i) work_generation)) [0..<8]
     @ [aj_pool_id job, source_code (aj_source_type job)]
     @ cstr (aj_job_id job) @ replicate (ASIC_JOB_ID_LEN - length (cstr (aj_job_id job))) 0
     @ cstr (aj_extranonce2 job) @ replicate (ASIC_JOB_EXTRANONCE2_HEX_SIZE - length (cstr (aj_extranonce2 job))) 0"

definition remember :: "u8 list \<Rightarrow> bzm_result_dedup_t \<Rightarrow> bzm_result_dedup_t" where
  "remember fingerprint cache =
     cache\<lparr> dd_entries := (dd_entries cache)[dd_next cache := \<lparr> id_valid = True, id_fingerprint = fingerprint \<rparr>],
            dd_next := (dd_next cache + 1) mod BZM_RESULT_DEDUP_CAPACITY \<rparr>"

definition bzm_result_is_duplicate ::
    "sha256_fn \<Rightarrow> bzm_result_dedup_t \<Rightarrow> job \<Rightarrow> u64 \<Rightarrow> asic_result_t \<Rightarrow> bool \<times> bzm_result_dedup_t" where
  "bzm_result_is_duplicate psa cache job work_generation r =
     (if 0 \<notin> set (aj_job_id job) \<or> 0 \<notin> set (aj_extranonce2 job) then (False, cache)
      else
        (let fingerprint = double_sha256_bin psa (result_identity job work_generation r)
         in if \<exists>e \<in> set (dd_entries cache). id_valid e \<and> id_fingerprint e = fingerprint then (True, cache)
            else (False, remember fingerprint cache)))"

section \<open>Result handling observed through its callbacks\<close>

text \<open>Callbacks that log what they are called with; whether work is current and the transport ready may
  depend on everything that happened before.\<close>

datatype share_event = Checked u64 bool | Ready bool | Submitted mining_job_source_t asic_share_submission_t
  | Accounted asic_share_submission_t | SelfTest cfloat

definition log_context ::
    "bool \<Rightarrow> u8 list option \<Rightarrow> (share_event list \<Rightarrow> bool) \<Rightarrow> share_event list asic_result_context_t" where
  "log_context self_test username current = \<lparr> rc_self_test = self_test, rc_username = username,
     rc_work_is_current = Some (\<lambda>evs g. (current evs, evs @ [Checked g (current evs)])) \<rparr>"

definition log_callbacks :: "(share_event list \<Rightarrow> bool) \<Rightarrow> share_event list asic_result_callbacks_t" where
  "log_callbacks ready = \<lparr>
     cb_record_self_test = Some (\<lambda>evs d. evs @ [SelfTest d]),
     cb_sv1_transport_ready = Some (\<lambda>evs s. (ready evs, evs @ [Ready (ready evs)])),
     cb_submit_sv1 = Some (\<lambda>evs s. evs @ [Submitted JOB_TYPE_V1 s]),
     cb_submit_sv2_standard = Some (\<lambda>evs s. evs @ [Submitted JOB_TYPE_SV2_STANDARD s]),
     cb_submit_sv2_extended = Some (\<lambda>evs s. evs @ [Submitted JOB_TYPE_SV2_EXTENDED s]),
     cb_account_share = Some (\<lambda>evs s. evs @ [Accounted s]) \<rparr>"

text \<open>The log of the submission step.\<close>

definition submit_log :: "(share_event list \<Rightarrow> bool) \<Rightarrow> share_event list \<Rightarrow> asic_share_submission_t \<Rightarrow> share_event list" where
  "submit_log ready evs share =
     (if flt_lt (Fin 0) (sh_pool_difficulty share) \<and> flt_le (sh_pool_difficulty share) (sh_nonce_diff share)
      then if sh_protocol share = JOB_TYPE_V1
           then if ready evs then [Ready True, Submitted JOB_TYPE_V1 share] else [Ready False]
           else [Submitted (sh_protocol share) share]
      else [])"

lemma submit_share_log: "submit_share (log_callbacks ready) evs share = evs @ submit_log ready evs share"
  by (auto simp: submit_share_def log_callbacks_def call_share_def submit_log_def Let_def split: mining_job_source_t.splits)

lemma work_current_log:
  "work_current (log_context st u current) evs g = (current evs, evs @ [Checked g (current evs)])"
  by (simp add: work_current_def log_context_def)

text \<open>The share a valid result gives rise to.\<close>

definition final_share :: "sha256_fn \<Rightarrow> (u8 list \<Rightarrow> cfloat) \<Rightarrow> asic_result_t \<Rightarrow> u8 list option \<Rightarrow> asic_share_submission_t" where
  "final_share psa pdiff r username =
     (let share = make_share psa pdiff r username; (n, decoded) = hex2bin (cstr (aj_extranonce2 (rs_job r))) 32
      in share\<lparr> sh_extranonce2_bin := decoded @ drop n (sh_extranonce2_bin share) \<rparr>)"

definition result_acceptable :: "asic_result_t \<Rightarrow> bool" where
  "result_acceptable r \<longleftrightarrow> rs_job_valid r \<and> metadata_valid r
     \<and> even (length (cstr (aj_extranonce2 (rs_job r))))
     \<and> fst (hex2bin (cstr (aj_extranonce2 (rs_job r))) 32) = unat (of_nat (length (cstr (aj_extranonce2 (rs_job r))) div 2) :: u8)"

lemma handle_log:
  "asic_result_handle psa pdiff r (log_context self_test u current) (log_callbacks ready) [] =
     (let s = final_share psa pdiff r u; g = jc_work_generation (rs_context r);
          l1 = [Checked g True] @ submit_log ready [Checked g True] s
      in if \<not> rs_job_valid r then (ASIC_RESULT_STALE_WORK, [])
         else if \<not> result_acceptable r then (ASIC_RESULT_REJECTED_WORK, [])
         else if self_test then (ASIC_RESULT_RECORDED_SELF_TEST, [SelfTest (sh_nonce_diff s)])
         else if \<not> current [] then (ASIC_RESULT_STALE_WORK, [Checked g False])
         else if \<not> current l1 then (ASIC_RESULT_STALE_WORK, l1 @ [Checked g False])
         else (ASIC_RESULT_ACCOUNTED, l1 @ [Checked g True, Accounted s]))"
proof -
  have gen: "sh_work_generation (make_share psa pdiff r u) = jc_work_generation (rs_context r)"
      "sh_extranonce2_len (make_share psa pdiff r u) = of_nat (length (cstr (aj_extranonce2 (rs_job r))) div 2)"
    by (simp_all add: make_share_def Let_def)
  have ctx: "rc_username (log_context self_test u current) = u" "rc_self_test (log_context self_test u current) = self_test"
      "cb_record_self_test (log_callbacks ready) = Some (\<lambda>evs d. evs @ [SelfTest d])"
      "cb_account_share (log_callbacks ready) = Some (\<lambda>evs s. evs @ [Accounted s])"
    by (simp_all add: log_context_def log_callbacks_def)
  obtain n d where hex: "hex2bin (cstr (aj_extranonce2 (rs_job r))) 32 = (n, d)" by fastforce
  define s where "s = final_share psa pdiff r u"
  have s: "(make_share psa pdiff r u)\<lparr> sh_extranonce2_bin := d @ drop n (sh_extranonce2_bin (make_share psa pdiff r u)) \<rparr> = s"
      "sh_work_generation s = jc_work_generation (rs_context r)"
    by (simp_all add: s_def final_share_def hex gen Let_def)
  define l1 where "l1 = [Checked (jc_work_generation (rs_context r)) True]
      @ submit_log ready [Checked (jc_work_generation (rs_context r)) True] s"
  show ?thesis
  proof (cases "rs_job_valid r \<and> metadata_valid r")
    case False
    then show ?thesis by (auto simp: asic_result_handle_def result_acceptable_def)
  next
    case True
    have acc: "result_acceptable r \<longleftrightarrow> \<not> (length (cstr (aj_extranonce2 (rs_job r))) mod 2 \<noteq> 0
        \<or> n \<noteq> unat (sh_extranonce2_len (make_share psa pdiff r u)))"
      using True by (simp add: result_acceptable_def hex gen even_iff_mod_2_eq_zero)
    show ?thesis
      unfolding asic_result_handle_def Let_def hex ctx prod.case s gen(1) acc s_def[symmetric] l1_def[symmetric]
      using True by (cases "current []"; cases "current l1")
        (auto simp: work_current_log submit_share_log call_share_def ctx s l1_def)
  qed
qed

lemma final_share_fields:
  "sh_nonce_diff (final_share psa pdiff r u) = mining_test_nonce_value psa pdiff (rs_job r) (rs_nonce r) (rs_final_ntime r) (rs_final_version r)"
  "sh_protocol (final_share psa pdiff r u) = aj_source_type (rs_job r)"
  "sh_pool_difficulty (final_share psa pdiff r u) = aj_pool_diff (rs_job r)"
  "sh_version_bits (final_share psa pdiff r u) = rs_version_bits r"
  "sh_base_version (final_share psa pdiff r u) = aj_version (rs_job r)"
  "sh_final_version (final_share psa pdiff r u) = rs_final_version r"
  by (simp_all add: final_share_def make_share_def Let_def case_prod_beta)

section \<open>The duplicate filter\<close>

lemma capacity_pos [simp]: "0 < BZM_RESULT_DEDUP_CAPACITY"
  by (simp add: BZM_RESULT_DEDUP_CAPACITY_def)

definition dedup_len :: "bzm_result_dedup_t \<Rightarrow> nat" where
  "dedup_len c = (if id_valid (dd_entries c ! dd_next c) then BZM_RESULT_DEDUP_CAPACITY else dd_next c)"

definition dedup_inv :: "bzm_result_dedup_t \<Rightarrow> bool" where
  "dedup_inv c \<longleftrightarrow> length (dd_entries c) = BZM_RESULT_DEDUP_CAPACITY \<and> dd_next c < BZM_RESULT_DEDUP_CAPACITY
     \<and> (if id_valid (dd_entries c ! dd_next c) then \<forall>i<BZM_RESULT_DEDUP_CAPACITY. id_valid (dd_entries c ! i)
        else \<forall>i<BZM_RESULT_DEDUP_CAPACITY. id_valid (dd_entries c ! i) \<longleftrightarrow> i < dd_next c)"

definition dedup_view :: "bzm_result_dedup_t \<Rightarrow> u8 list list" where
  "dedup_view c = ring_view (map id_fingerprint (dd_entries c)) (dd_next c) (dedup_len c)"

lemma remember_simps:
  "dd_next c < BZM_RESULT_DEDUP_CAPACITY \<Longrightarrow> dd_next (remember f c) = (if Suc (dd_next c) = BZM_RESULT_DEDUP_CAPACITY then 0 else Suc (dd_next c))"
  "dd_entries (remember f c) = (dd_entries c)[dd_next c := \<lparr> id_valid = True, id_fingerprint = f \<rparr>]"
  by (simp_all add: remember_def mod_Suc_wrap)

lemma remember_valid:
  assumes "dedup_inv c" and "i < BZM_RESULT_DEDUP_CAPACITY"
  shows "id_valid (dd_entries (remember f c) ! i) \<longleftrightarrow> i = dd_next c \<or> id_valid (dd_entries c ! i)"
proof -
  have "length (dd_entries c) = BZM_RESULT_DEDUP_CAPACITY" "dd_next c < BZM_RESULT_DEDUP_CAPACITY"
    using assms(1) by (simp_all add: dedup_inv_def)
  then show ?thesis using assms(2) by (simp add: remember_simps(2) nth_list_update)
qed

lemma remember_inv: "dedup_inv c \<Longrightarrow> dedup_inv (remember f c)"
  and remember_len: "dedup_inv c \<Longrightarrow>
    dedup_len (remember f c) = (if dedup_len c < BZM_RESULT_DEDUP_CAPACITY then dedup_len c + 1 else dedup_len c)"
proof -
  assume c: "dedup_inv c"
  define n where "n = dd_next c"
  have l: "length (dd_entries c) = BZM_RESULT_DEDUP_CAPACITY" "n < BZM_RESULT_DEDUP_CAPACITY" using c by (auto simp: dedup_inv_def n_def)
  note v = remember_valid[OF c, of _ f, folded n_def]
  have nxt: "dd_next (remember f c) = (if Suc n = BZM_RESULT_DEDUP_CAPACITY then 0 else Suc n)" using l by (simp add: remember_simps n_def)
  have full: "id_valid (dd_entries c ! n) \<Longrightarrow> i < BZM_RESULT_DEDUP_CAPACITY \<Longrightarrow> id_valid (dd_entries c ! i)" for i
    using c by (auto simp: dedup_inv_def n_def)
  have part: "\<not> id_valid (dd_entries c ! n) \<Longrightarrow> i < BZM_RESULT_DEDUP_CAPACITY \<Longrightarrow> id_valid (dd_entries c ! i) \<longleftrightarrow> i < n" for i
    using c by (auto simp: dedup_inv_def n_def)
  have nl: "dd_next (remember f c) < BZM_RESULT_DEDUP_CAPACITY" using nxt l by auto
  have nv: "id_valid (dd_entries (remember f c) ! dd_next (remember f c)) \<longleftrightarrow> id_valid (dd_entries c ! n) \<or> Suc n = BZM_RESULT_DEDUP_CAPACITY"
    using v[OF nl] full[OF _ nl] part[OF _ nl] nxt l by (cases "Suc n = BZM_RESULT_DEDUP_CAPACITY") auto
  show "dedup_inv (remember f c)"
  proof (cases "id_valid (dd_entries c ! n)")
    case True
    then have "\<forall>i<BZM_RESULT_DEDUP_CAPACITY. id_valid (dd_entries (remember f c) ! i)" using v full by blast
    then show ?thesis using l nl nv by (simp add: dedup_inv_def remember_simps(2))
  next
    case False
    then have "i < BZM_RESULT_DEDUP_CAPACITY \<Longrightarrow> id_valid (dd_entries (remember f c) ! i) \<longleftrightarrow> i < Suc n" for i
      using v part by (auto simp: less_Suc_eq)
    then show ?thesis using l nl nv nxt False by (auto simp: dedup_inv_def remember_simps(2))
  qed
  show "dedup_len (remember f c) = (if dedup_len c < BZM_RESULT_DEDUP_CAPACITY then dedup_len c + 1 else dedup_len c)"
    unfolding dedup_len_def nv using nxt l by (auto simp: n_def[symmetric])
qed

interpretation dedup: bounded_history remember dedup_view BZM_RESULT_DEDUP_CAPACITY dedup_inv
proof
  fix c :: bzm_result_dedup_t and f :: "u8 list"
  assume c: "dedup_inv c"
  let ?a = "map id_fingerprint (dd_entries c)"
  show "dedup_inv (remember f c)" using c by (rule remember_inv)
  have ok: "ring_ok ?a (dd_next c) (dedup_len c)" "length ?a = BZM_RESULT_DEDUP_CAPACITY"
  proof -
    have "length (dd_entries c) = BZM_RESULT_DEDUP_CAPACITY" "dd_next c < BZM_RESULT_DEDUP_CAPACITY"
      using c by (simp_all add: dedup_inv_def)
    then show "ring_ok ?a (dd_next c) (dedup_len c)" "length ?a = BZM_RESULT_DEDUP_CAPACITY"
      by (simp_all add: ring_ok_def dedup_len_def)
  qed
  have "map id_fingerprint (dd_entries (remember f c)) = ?a[dd_next c := f]"
    by (simp add: remember_def map_update)
  then show "dedup_view (remember f c) = last_n BZM_RESULT_DEDUP_CAPACITY (dedup_view c @ [f])"
    using ring_push_view[OF ok(1), of f] ok(2) remember_len[OF c, of f]
    by (simp add: dedup_view_def remember_def split del: if_split)
  show "length (dedup_view c) \<le> BZM_RESULT_DEDUP_CAPACITY"
    using ok by (simp add: dedup_view_def ring_view_def ring_ok_def)
qed

lemma dedup_member:
  assumes c: "dedup_inv c"
  shows "(\<exists>e \<in> set (dd_entries c). id_valid e \<and> id_fingerprint e = f) \<longleftrightarrow> f \<in> set (dedup_view c)"
proof (cases "id_valid (dd_entries c ! dd_next c)")
  case True
  have l: "length (dd_entries c) = BZM_RESULT_DEDUP_CAPACITY" "dd_next c < BZM_RESULT_DEDUP_CAPACITY" using c by (auto simp: dedup_inv_def)
  have all: "\<forall>e \<in> set (dd_entries c). id_valid e"
    using c True by (auto simp: dedup_inv_def in_set_conv_nth)
  have "(\<lambda>i. (dd_next c + i) mod BZM_RESULT_DEDUP_CAPACITY) ` {0..<BZM_RESULT_DEDUP_CAPACITY} = {0..<BZM_RESULT_DEDUP_CAPACITY}"
  proof
    show "{0..<BZM_RESULT_DEDUP_CAPACITY} \<subseteq> (\<lambda>i. (dd_next c + i) mod BZM_RESULT_DEDUP_CAPACITY) ` {0..<BZM_RESULT_DEDUP_CAPACITY}"
    proof
      fix j :: nat
      assume "j \<in> {0..<BZM_RESULT_DEDUP_CAPACITY}"
      then have "(dd_next c + (j + BZM_RESULT_DEDUP_CAPACITY - dd_next c) mod BZM_RESULT_DEDUP_CAPACITY) mod BZM_RESULT_DEDUP_CAPACITY = j"
        using l by (simp add: mod_add_right_eq)
      then show "j \<in> (\<lambda>i. (dd_next c + i) mod BZM_RESULT_DEDUP_CAPACITY) ` {0..<BZM_RESULT_DEDUP_CAPACITY}"
        by (metis atLeastLessThan_iff imageI mod_less_divisor zero_le capacity_pos)
    qed
  qed auto
  moreover have "set (dedup_view c) = (\<lambda>j. id_fingerprint (dd_entries c ! j)) ` ((\<lambda>i. (dd_next c + i) mod BZM_RESULT_DEDUP_CAPACITY) ` {0..<BZM_RESULT_DEDUP_CAPACITY})"
    using True l by (simp add: dedup_view_def ring_view_def dedup_len_def image_image)
  moreover have "(!) (dd_entries c) ` {0..<BZM_RESULT_DEDUP_CAPACITY} = set (dd_entries c)"
    using l nth_image[of BZM_RESULT_DEDUP_CAPACITY "dd_entries c"] by simp
  ultimately have "set (dedup_view c) = id_fingerprint ` set (dd_entries c)" by (metis image_image)
  then show ?thesis using all by auto
next
  case False
  have l: "length (dd_entries c) = BZM_RESULT_DEDUP_CAPACITY" "dd_next c < BZM_RESULT_DEDUP_CAPACITY" using c by (auto simp: dedup_inv_def)
  have v: "i < BZM_RESULT_DEDUP_CAPACITY \<Longrightarrow> id_valid (dd_entries c ! i) \<longleftrightarrow> i < dd_next c" for i using c False by (auto simp: dedup_inv_def)
  have "(dd_next c + BZM_RESULT_DEDUP_CAPACITY - dd_next c + i) mod BZM_RESULT_DEDUP_CAPACITY = i" if "i < dd_next c" for i
    using that l by simp
  then have "set (dedup_view c) = (\<lambda>j. id_fingerprint (dd_entries c ! j)) ` {0..<dd_next c}"
    using False l by (simp add: dedup_view_def ring_view_def dedup_len_def)
  moreover have "(\<exists>e \<in> set (dd_entries c). id_valid e \<and> id_fingerprint e = f) \<longleftrightarrow>
      (\<exists>j < dd_next c. id_fingerprint (dd_entries c ! j) = f)"
    using v l by (auto simp: set_conv_nth) (metis l(2) order_less_trans)
  ultimately show ?thesis by (simp add: image_iff Bex_def) metis
qed

lemma dedup_empty_facts: "dedup_inv dedup_empty" "dedup_view dedup_empty = []"
  by (simp_all add: dedup_inv_def dedup_empty_def dedup_view_def dedup_len_def ring_view_def)

section \<open>Identities\<close>

lemma cstr_pad_inj:
  assumes "cstr a @ replicate (n - length (cstr a)) 0 = cstr b @ replicate (n - length (cstr b)) (0 :: u8)"
  shows "cstr a = cstr b"
proof -
  have "takeWhile (\<lambda>c. c \<noteq> 0) (cstr x @ replicate k (0 :: u8)) = cstr x" for x k
    by (cases k) (auto simp: cstr_def takeWhile_tail takeWhile_append2 dest: set_takeWhileD)
  then show ?thesis using assms by metis
qed

lemma le_bytes_inj: "le_bytes n (v :: 'a::len word) = le_bytes n w \<Longrightarrow> 8 * n = LENGTH('a) \<Longrightarrow> v = w"
  by (metis le_word_full)

lemma header_parts:
  assumes "length (aj_prev_hash j) = 32" "length (aj_merkle_root j) = 32" "length (aj_prev_hash k) = 32" "length (aj_merkle_root k) = 32"
    and "asic_job_header j n v = asic_job_header k n' v'"
  shows "v = v' \<and> n = n' \<and> aj_prev_hash j = aj_prev_hash k \<and> aj_merkle_root j = aj_merkle_root k
    \<and> aj_ntime j = aj_ntime k \<and> aj_nbits j = aj_nbits k"
  using assms by (auto simp: asic_job_header_def write_le32_def dest!: le_bytes_inj)

lemma source_code_inj: "source_code a = source_code b \<Longrightarrow> a = b"
  by (auto simp: source_code_def split: mining_job_source_t.splits)

lemma length_cstr: "0 \<in> set a \<Longrightarrow> length (cstr a) < length a"
proof -
  assume "0 \<in> set a"
  then have "dropWhile (\<lambda>c. c \<noteq> 0) a \<noteq> []" by (simp add: dropWhile_eq_Nil_conv)
  moreover have "a = cstr a @ dropWhile (\<lambda>c. c \<noteq> 0) a" by (simp add: cstr_def)
  ultimately show ?thesis by (metis length_append length_greater_0_conv less_add_same_cancel1)
qed

section \<open>Properties\<close>

definition job_shape :: "'d asic_job_t \<Rightarrow> bool" where
  "job_shape j \<longleftrightarrow> length (aj_prev_hash j) = 32 \<and> length (aj_merkle_root j) = 32
     \<and> length (aj_job_id j) = ASIC_JOB_ID_LEN \<and> length (aj_extranonce2 j) = ASIC_JOB_EXTRANONCE2_HEX_SIZE
     \<and> 0 \<in> set (aj_job_id j) \<and> 0 \<in> set (aj_extranonce2 j)"

text \<open>A result for the witnesses: a version 1 job of difficulty one whose nonce is worth four.\<close>

definition demo_result :: asic_result_t where
  "demo_result = \<lparr> rs_job_valid = True, rs_job = \<lparr> aj_version = 0x20000000, aj_version_mask = 0x1fffe000,
       aj_prev_hash = replicate 32 7, aj_merkle_root = replicate 32 9, aj_ntime = 5, aj_nbits = 6, aj_starting_nonce = 0,
       aj_pool_diff = Fin 1, aj_pool_id = 0, aj_source_type = JOB_TYPE_V1, aj_job_id = 0x37 # replicate 31 0,
       aj_extranonce2 = 0x30 # 0x61 # replicate 63 0 \<rparr>,
     rs_context = zero_context, rs_work_handle = 1, rs_nonce = 77, rs_final_ntime = 5, rs_final_version = 0x20002000,
     rs_version_bits = 0x2000, rs_timestamp_us = 0, rs_asic_index = 0, rs_core_id = 0, rs_small_core_id = 0,
     rs_engine_id = 0, rs_sequence_id = 0, rs_micro_job_id = 0, rs_generation = 0 \<rparr>"

definition demo_psa :: sha256_fn where "demo_psa data = Some (replicate 32 1)"
definition demo_pdiff :: "u8 list \<Rightarrow> cfloat" where "demo_pdiff h = Fin 4"

lemma demo_result_acceptable: "result_acceptable demo_result"
  by code_simp

lemma demo_result_submitted:
  "Submitted JOB_TYPE_V1 (final_share demo_psa demo_pdiff demo_result None) \<in>
     set (snd (asic_result_handle demo_psa demo_pdiff demo_result (log_context False None (\<lambda>_. True)) (log_callbacks (\<lambda>_. True)) []))"
  using demo_result_acceptable
  by (simp add: handle_log Let_def submit_log_def final_share_fields mining_test_nonce_value_def demo_pdiff_def demo_result_def)

text \<open>C4. Every share that is submitted to a pool is real work for it: whatever the callbacks answer, a submitted
  share belongs to a valid result of a job from that protocol, the work was checked to be current
  before, its difficulty is that of the double SHA-256 of its block header and reaches the pool's
  positive difficulty, and its version bits lie within the negotiated mask. At most one
  submission is made, and the share is accounted exactly when the result is reported ACCOUNTED,
  which needs a second check after the submission.\<close>

theorem submitted_shares_are_valid:
  assumes "asic_result_handle psa pdiff r (log_context self_test u current) (log_callbacks ready) [] = (status, evs)"
  shows "(\<forall>p s. Submitted p s \<in> set evs \<longrightarrow>
       rs_job_valid r \<and> \<not> self_test \<and> hd evs = Checked (jc_work_generation (rs_context r)) True
       \<and> p = aj_source_type (rs_job r)
       \<and> sh_nonce_diff s = pdiff (double_sha256_bin psa
            (asic_job_header ((rs_job r)\<lparr> aj_ntime := rs_final_ntime r \<rparr>) (rs_nonce r) (rs_final_version r)))
       \<and> flt_lt (Fin 0) (aj_pool_diff (rs_job r)) \<and> flt_le (aj_pool_diff (rs_job r)) (sh_nonce_diff s)
       \<and> sh_version_bits s AND NOT (aj_version_mask (rs_job r)) = 0
       \<and> sh_version_bits s XOR sh_base_version s = sh_final_version s)
    \<and> length (filter (\<lambda>e. case e of Submitted _ _ \<Rightarrow> True | _ \<Rightarrow> False) evs) \<le> 1
    \<and> (status = ASIC_RESULT_ACCOUNTED \<longleftrightarrow> (\<exists>s. Accounted s \<in> set evs))
    \<and> (status = ASIC_RESULT_ACCOUNTED \<longrightarrow>
         (\<exists>pre s. evs = pre @ [Checked (jc_work_generation (rs_context r)) True, Accounted s]))"
proof -
  have meta: "result_acceptable r \<Longrightarrow> rs_version_bits r AND NOT (aj_version_mask (rs_job r)) = 0
      \<and> rs_version_bits r XOR aj_version (rs_job r) = rs_final_version r"
    by (auto simp: result_acceptable_def metadata_valid_def xor.assoc)
  define s where "s = final_share psa pdiff r u"
  have sub: "Submitted p s' \<in> set (submit_log ready l s) \<Longrightarrow> s' = s \<and> p = aj_source_type (rs_job r)
      \<and> flt_lt (Fin 0) (aj_pool_diff (rs_job r)) \<and> flt_le (aj_pool_diff (rs_job r)) (sh_nonce_diff s)" for p s' l
    by (auto simp: submit_log_def s_def final_share_fields split: if_splits)
  have once: "length (filter (\<lambda>e. case e of Submitted _ _ \<Rightarrow> True | _ \<Rightarrow> False) (submit_log ready l s)) \<le> 1"
      "Accounted x \<notin> set (submit_log ready l s)" for l x
    by (auto simp: submit_log_def)
  define g where "g = jc_work_generation (rs_context r)"
  define sl where "sl = submit_log ready [Checked g True] s"
  consider (none) "status \<noteq> ASIC_RESULT_ACCOUNTED" "evs \<in> {[], [SelfTest (sh_nonce_diff s)], [Checked g False]}"
    | (stale) "result_acceptable r" "\<not> self_test" "status \<noteq> ASIC_RESULT_ACCOUNTED" "evs = Checked g True # sl @ [Checked g False]"
    | (accounted) "result_acceptable r" "\<not> self_test" "status = ASIC_RESULT_ACCOUNTED"
        "evs = Checked g True # sl @ [Checked g True, Accounted s]"
    using assms unfolding handle_log Let_def s_def[symmetric] g_def[symmetric] sl_def[symmetric] append.simps
    by (auto split: if_splits)
  note cases = this
  have valid: "rs_job_valid r \<and> p = aj_source_type (rs_job r)
       \<and> sh_nonce_diff s' = pdiff (double_sha256_bin psa
            (asic_job_header ((rs_job r)\<lparr> aj_ntime := rs_final_ntime r \<rparr>) (rs_nonce r) (rs_final_version r)))
       \<and> flt_lt (Fin 0) (aj_pool_diff (rs_job r)) \<and> flt_le (aj_pool_diff (rs_job r)) (sh_nonce_diff s')
       \<and> sh_version_bits s' AND NOT (aj_version_mask (rs_job r)) = 0
       \<and> sh_version_bits s' XOR sh_base_version s' = sh_final_version s'"
    if "result_acceptable r" "Submitted p s' \<in> set sl" for p s'
    using sub[OF that(2)[unfolded sl_def]] meta[OF that(1)] that(1)
    by (auto simp: s_def final_share_fields mining_test_nonce_value_def result_acceptable_def)
  have none: "Accounted x \<notin> set sl" for x using once by (simp add: sl_def)
  have one: "length (filter (\<lambda>e. case e of Submitted _ _ \<Rightarrow> True | _ \<Rightarrow> False) sl) \<le> 1" using once by (simp add: sl_def)
  from cases show ?thesis
  proof cases
    case none
    then show ?thesis by auto
  next
    case stale
    then show ?thesis using one none by (simp flip: g_def) (blast dest: valid)
  next
    case accounted
    then show ?thesis using one none by (simp flip: g_def) (blast dest: valid)
  qed
qed

theorem submitted_shares_are_valid_witness:
  "flt_le (Fin 1) (sh_nonce_diff (final_share demo_psa demo_pdiff demo_result None))"
proof -
  obtain st evs where h: "asic_result_handle demo_psa demo_pdiff demo_result (log_context False None (\<lambda>_. True))
      (log_callbacks (\<lambda>_. True)) [] = (st, evs)" by fastforce
  then have "Submitted JOB_TYPE_V1 (final_share demo_psa demo_pdiff demo_result None) \<in> set evs"
    using demo_result_submitted by simp
  then have "flt_le (aj_pool_diff (rs_job demo_result)) (sh_nonce_diff (final_share demo_psa demo_pdiff demo_result None))"
    using submitted_shares_are_valid[OF h] by blast
  then show ?thesis by (simp add: demo_result_def)
qed

text \<open>C29. The duplicate filter is exact on the recent past: after recording any sequence of fingerprints in an
  empty cache, a result with a proper job is reported a duplicate exactly when its fingerprint is
  among the 256 latest, and otherwise it is recorded.\<close>

theorem duplicate_filter_exact:
  assumes "0 \<in> set (aj_job_id job)" and "0 \<in> set (aj_extranonce2 job)"
    and "f = double_sha256_bin psa (result_identity job generation r)"
  shows "bzm_result_is_duplicate psa (fold remember fs dedup_empty) job generation r =
    (if f \<in> set (last_n BZM_RESULT_DEDUP_CAPACITY fs) then (True, fold remember fs dedup_empty)
     else (False, fold remember (fs @ [f]) dedup_empty))"
proof -
  have inv: "dedup_inv (fold remember fs dedup_empty)" by (rule dedup.fold_push_inv[OF dedup_empty_facts(1)])
  have "dedup_view (fold remember fs dedup_empty) = last_n BZM_RESULT_DEDUP_CAPACITY fs"
    using dedup.view_fold_push[OF dedup_empty_facts(1), of fs] by (simp add: dedup_empty_facts(2))
  then show ?thesis using dedup_member[OF inv, of f] assms
    by (simp add: bzm_result_is_duplicate_def Let_def)
qed

theorem duplicate_filter_exact_witness:
  "fst (bzm_result_is_duplicate demo_psa (fold remember [replicate 32 1] dedup_empty) (rs_job demo_result) 3 demo_result)"
proof -
  have "double_sha256_bin demo_psa (result_identity (rs_job demo_result) 3 demo_result) = replicate 32 1"
    by (simp add: double_sha256_bin_def sha256_bin_def demo_psa_def)
  moreover have "0 \<in> set (aj_job_id (rs_job demo_result))" "0 \<in> set (aj_extranonce2 (rs_job demo_result))"
    by (simp_all add: demo_result_def)
  ultimately show ?thesis
    using duplicate_filter_exact[of "rs_job demo_result" "replicate 32 1" demo_psa 3 demo_result "[replicate 32 1]"]
    by (simp add: BZM_RESULT_DEDUP_CAPACITY_def)
qed

text \<open>The hashed identity of a result separates results: two results have the same identity only if header
  (version, previous hash, merkle root, time, bits, nonce), work generation, pool, protocol, job id
  and extranonce all agree.\<close>

theorem result_identity_injective:
  assumes "job_shape j" and "job_shape k" and "result_identity j g r = result_identity k h q"
  shows "rs_final_version r = rs_final_version q \<and> rs_nonce r = rs_nonce q \<and> rs_final_ntime r = rs_final_ntime q
    \<and> aj_prev_hash j = aj_prev_hash k \<and> aj_merkle_root j = aj_merkle_root k \<and> aj_nbits j = aj_nbits k
    \<and> g = h \<and> aj_pool_id j = aj_pool_id k \<and> aj_source_type j = aj_source_type k
    \<and> cstr (aj_job_id j) = cstr (aj_job_id k) \<and> cstr (aj_extranonce2 j) = cstr (aj_extranonce2 k)"
proof -
  define hd_j where "hd_j = asic_job_header (j\<lparr> aj_ntime := rs_final_ntime r \<rparr>) (rs_nonce r) (rs_final_version r)"
  define hd_k where "hd_k = asic_job_header (k\<lparr> aj_ntime := rs_final_ntime q \<rparr>) (rs_nonce q) (rs_final_version q)"
  define pad where "pad n s = cstr s @ replicate (n - length (cstr s)) 0" for n and s :: "u8 list"
  have bytes: "map (\<lambda>i. ucast (drop_bit (8 * i) x)) [0..<8] = le_bytes 8 x" for x :: u64 by (simp add: le_bytes_def)
  have len: "length hd_j = 80" "length hd_k = 80" "length (pad 32 (aj_job_id j)) = 32" "length (pad 32 (aj_job_id k)) = 32"
    using assms(1,2) length_cstr[of "aj_job_id j"] length_cstr[of "aj_job_id k"]
    by (auto simp: hd_j_def hd_k_def asic_job_header_def write_le32_def job_shape_def pad_def)
  have "hd_j @ le_bytes 8 g @ [aj_pool_id j, source_code (aj_source_type j)] @ pad 32 (aj_job_id j) @ pad 65 (aj_extranonce2 j) =
      hd_k @ le_bytes 8 h @ [aj_pool_id k, source_code (aj_source_type k)] @ pad 32 (aj_job_id k) @ pad 65 (aj_extranonce2 k)"
    using assms(3) by (simp add: result_identity_def hd_j_def hd_k_def pad_def bytes)
  then have eq: "hd_j = hd_k" "le_bytes 8 g = le_bytes 8 h" "aj_pool_id j = aj_pool_id k"
      "source_code (aj_source_type j) = source_code (aj_source_type k)"
      "pad 32 (aj_job_id j) = pad 32 (aj_job_id k)" "pad 65 (aj_extranonce2 j) = pad 65 (aj_extranonce2 k)"
    using len by (auto simp: append_eq_append_conv)
  have "g = h" using le_bytes_inj[OF eq(2)] by simp
  moreover have "cstr (aj_job_id j) = cstr (aj_job_id k)" "cstr (aj_extranonce2 j) = cstr (aj_extranonce2 k)"
    using cstr_pad_inj eq(5,6) unfolding pad_def by blast+
  moreover have "rs_final_version r = rs_final_version q \<and> rs_nonce r = rs_nonce q \<and> aj_prev_hash j = aj_prev_hash k
      \<and> aj_merkle_root j = aj_merkle_root k \<and> rs_final_ntime r = rs_final_ntime q \<and> aj_nbits j = aj_nbits k"
    using header_parts[OF _ _ _ _ eq(1)[unfolded hd_j_def hd_k_def]] assms(1,2) by (simp add: job_shape_def)
  ultimately show ?thesis using eq(3,4) source_code_inj by blast
qed

theorem result_identity_injective_witness:
  "rs_nonce (demo_result\<lparr> rs_timestamp_us := 9 \<rparr>) = rs_nonce demo_result"
proof -
  have "job_shape (rs_job demo_result)" by (simp add: job_shape_def demo_result_def)
  moreover have "result_identity (rs_job demo_result) 3 (demo_result\<lparr> rs_timestamp_us := 9 \<rparr>) =
      result_identity (rs_job demo_result) 3 demo_result"
    by (simp add: result_identity_def)
  ultimately show ?thesis using result_identity_injective by blast
qed

text \<open>A share put into the submission queue comes out unchanged except for the user name, which is not kept,
  and the bytes after the terminators of its strings.\<close>

theorem share_snapshot_roundtrip:
  assumes "sh_result share = Some r" and "sh_job_id share = Some job_id" and "sh_extranonce2 share = Some ext"
    and "unat (sh_extranonce2_len share) \<le> ASIC_JOB_EXTRANONCE2_SIZE"
    and "length (cstr job_id) < ASIC_JOB_ID_LEN" and "length (cstr ext) < ASIC_JOB_EXTRANONCE2_HEX_SIZE"
  shows "\<exists>snapshot job_id' ext'. asic_share_snapshot_capture share = Some snapshot
    \<and> asic_share_snapshot_view snapshot = share\<lparr> sh_username := None, sh_job_id := Some job_id', sh_extranonce2 := Some ext' \<rparr>
    \<and> cstr job_id' = cstr job_id \<and> cstr ext' = cstr ext
    \<and> length job_id' = ASIC_JOB_ID_LEN \<and> length ext' = ASIC_JOB_EXTRANONCE2_HEX_SIZE"
proof -
  have copy: "cstr (take (length (cstr x)) x @ replicate n 0) = cstr x" if "0 < n" for x :: "u8 list" and n
  proof -
    have "take (length (cstr x)) x = cstr x" by (metis cstr_def takeWhile_eq_take)
    moreover have "\<forall>c \<in> set (cstr x). c \<noteq> 0" by (auto simp: cstr_def dest: set_takeWhileD)
    ultimately show ?thesis using that by (cases n) (auto simp: cstr_def takeWhile_append2)
  qed
  have min: "min (length (cstr job_id)) 32 = length (cstr job_id)" "min (length (cstr ext)) 65 = length (cstr ext)"
      "length (cstr job_id) \<le> length job_id" "length (cstr ext) \<le> length ext"
    using assms(5,6) by (auto simp: cstr_def length_takeWhile_le)
  define job_id' where "job_id' = take (length (cstr job_id)) job_id @ replicate (32 - length (cstr job_id)) 0"
  define ext' where "ext' = take (length (cstr ext)) ext @ replicate (65 - length (cstr ext)) 0"
  define snapshot where "snapshot = \<lparr> sn_submission = share\<lparr> sh_result := None, sh_username := None, sh_job_id := None,
      sh_extranonce2 := None \<rparr>, sn_result = r, sn_job_id = job_id', sn_extranonce2 = ext' \<rparr>"
  have "asic_share_snapshot_capture share = Some snapshot"
    using assms min by (simp add: asic_share_snapshot_capture_def Let_def snapshot_def job_id'_def ext'_def)
  moreover have "asic_share_snapshot_view snapshot =
      share\<lparr> sh_username := None, sh_job_id := Some job_id', sh_extranonce2 := Some ext' \<rparr>"
    using assms(1) by (cases share) (simp add: asic_share_snapshot_view_def snapshot_def)
  moreover have "cstr job_id' = cstr job_id" "cstr ext' = cstr ext" "length job_id' = 32" "length ext' = 65"
    using assms(5,6) min copy[of "32 - length (cstr job_id)" job_id] copy[of "65 - length (cstr ext)" ext]
    by (auto simp: job_id'_def ext'_def)
  ultimately show ?thesis by blast
qed

theorem share_snapshot_roundtrip_witness:
  "\<exists>snapshot. asic_share_snapshot_capture (final_share demo_psa demo_pdiff demo_result None) = Some snapshot"
proof -
  have f: "sh_result (final_share demo_psa demo_pdiff demo_result None) = Some demo_result"
      "sh_job_id (final_share demo_psa demo_pdiff demo_result None) = Some (aj_job_id (rs_job demo_result))"
      "sh_extranonce2 (final_share demo_psa demo_pdiff demo_result None) = Some (aj_extranonce2 (rs_job demo_result))"
      "sh_extranonce2_len (final_share demo_psa demo_pdiff demo_result None) = of_nat (length (cstr (aj_extranonce2 (rs_job demo_result))) div 2)"
    by (simp_all add: final_share_def make_share_def Let_def case_prod_beta)
  have c: "length (cstr (aj_job_id (rs_job demo_result))) = 1" "length (cstr (aj_extranonce2 (rs_job demo_result))) = 2"
    by code_simp+
  show ?thesis using share_snapshot_roundtrip[OF f(1-3)] f(4) c by auto
qed

end
