(* ===== verification/CText.thy ===== *)
theory CText
  imports Floats
begin

text \<open>
  The formatted output the sources write into fixed buffers: \<open>snprintf\<close> keeps what fits before the
  terminating NUL, \<open>%u\<close>, \<open>%lu\<close> and \<open>%llu\<close> print the unsigned value in base ten, \<open>%0nx\<close> in base
  sixteen padded with zeros, \<open>%.nf\<close> a float rounded to \<open>n\<close> decimals.
\<close>

definition snprintf :: "nat \<Rightarrow> string \<Rightarrow> string" where
  "snprintf capacity text = take (capacity - 1) text"

definition digit_char :: "nat \<Rightarrow> char" where
  "digit_char d = char_of (if d < 10 then 48 + d else 87 + d)"

text \<open>The digits of a number in a base of at least two, most significant first.\<close>

function digits :: "nat \<Rightarrow> nat \<Rightarrow> nat list" where
  "digits base n = (if n < base \<or> base < 2 then [n] else digits base (n div base) @ [n mod base])"
  by pat_completeness auto
termination
  by (relation "measure snd") auto

declare digits.simps [simp del]

fun digits_value :: "nat \<Rightarrow> nat list \<Rightarrow> nat" where
  "digits_value base ds = foldl (\<lambda>v d. v * base + d) 0 ds"

lemma digits_value_digits: "2 \<le> base \<Longrightarrow> digits_value base (digits base n) = n"
proof (induction base n rule: digits.induct)
  case (1 base n)
  then show ?case by (subst digits.simps) auto
qed

lemma digits_less: "2 \<le> base \<Longrightarrow> d \<in> set (digits base n) \<Longrightarrow> d < base"
proof (induction base n rule: digits.induct)
  case (1 base n)
  show ?case
  proof (cases "n < base")
    case True
    then show ?thesis using 1(3) by (subst (asm) digits.simps) simp
  next
    case False
    then have "d \<in> set (digits base (n div base)) \<or> d = n mod base"
      using 1(2,3) by (subst (asm) digits.simps) auto
    then show ?thesis using 1 False by auto
  qed
qed

definition fmt_nat :: "nat \<Rightarrow> string" where
  "fmt_nat n = map digit_char (digits 10 n)"

abbreviation fmt_u :: "'a::len word \<Rightarrow> string" where
  "fmt_u w \<equiv> fmt_nat (unat w)"

abbreviation fmt_bool :: "bool \<Rightarrow> string" where
  "fmt_bool b \<equiv> fmt_nat (of_bool b)"

definition fmt_x :: "nat \<Rightarrow> 'a::len word \<Rightarrow> string" where
  "fmt_x width w = (let s = map digit_char (digits 16 (unat w)) in replicate (width - length s) (CHR ''0'') @ s)"

fun fmt_f :: "nat \<Rightarrow> cfloat \<Rightarrow> string" where
  "fmt_f d (Fin x) =
     (let k = nat \<bar>round_even (x * 10 ^ d)\<bar>; frac = fmt_nat (k mod 10 ^ d)
      in (if x < 0 then ''-'' else []) @ fmt_nat (k div 10 ^ d) @ ''.'' @
         replicate (d - length frac) (CHR ''0'') @ frac)"
| "fmt_f d PosInf = ''inf''"
| "fmt_f d NegInf = ''-inf''"
| "fmt_f d NaN = ''nan''"

lemma length_snprintf: "0 < capacity \<Longrightarrow> length (snprintf capacity text) < capacity"
  by (simp add: snprintf_def)

lemma snprintf_fits: "length text < capacity \<Longrightarrow> snprintf capacity text = text"
  by (simp add: snprintf_def)

end
