(* ===== verification/RunningEvidence.thy ===== *)
theory RunningEvidence
  imports CText
begin

text \<open>
  Evidence that the miner is really mining (\<open>components/asic/bzm_running_evidence.c\<close>). Cumulative
  counters are compared with a baseline taken when mining started; \<open>evaluate\<close> classifies one
  comparison and \<open>track\<close> keeps the life cycle: an initial proof with a deadline, then bounded
  recoveries. NULL pointers are \<open>None\<close>; the updated life cycle is returned.
\<close>

section \<open>Model\<close>

abbreviation BZM_RUNNING_EVIDENCE_DETAIL_LENGTH :: nat where
  "BZM_RUNNING_EVIDENCE_DETAIL_LENGTH \<equiv> 160"

record bzm_running_stats_t =
  ev_dispatch_batches :: u64
  ev_dispatched_logical_engines :: u64
  ev_dispatched_chip_engines :: u64
  ev_dispatch_failures :: u64
  ev_mapped_results :: u64
  ev_mapping_rejections :: u64
  ev_mapping_rejection_streak :: u32
  ev_mapping_recovery_pending :: bool
  ev_locally_valid_results :: u64
  ev_locally_rejected_results :: u64
  ev_duplicate_results :: u64
  ev_local_rejection_streak :: u32
  ev_local_recovery_pending :: bool

record bzm_running_evidence_config_t =
  ec_required_chip_engine_writes :: u32
  ec_minimum_valid_results :: u32
  ec_allow_mapping_recovery :: bool
  ec_maximum_mapping_rejections :: u32
  ec_maximum_local_rejections :: u32
  ec_proof_timeout_ms :: u32
  ec_recovery_timeout_ms :: u32

datatype bzm_running_evidence_status_t = BZM_RUNNING_EVIDENCE_PENDING | BZM_RUNNING_EVIDENCE_GOOD
  | BZM_RUNNING_EVIDENCE_BAD

datatype bzm_running_evidence_fault_t = BZM_RUNNING_EVIDENCE_FAULT_NONE
  | BZM_RUNNING_EVIDENCE_FAULT_COUNTER_ROLLBACK | BZM_RUNNING_EVIDENCE_FAULT_DISPATCH
  | BZM_RUNNING_EVIDENCE_FAULT_MAPPING | BZM_RUNNING_EVIDENCE_FAULT_LOCAL_VALIDATION
  | BZM_RUNNING_EVIDENCE_FAULT_TIMEOUT | BZM_RUNNING_EVIDENCE_FAULT_INVALID_CONFIGURATION

record bzm_running_evidence_result_t =
  er_status :: bzm_running_evidence_status_t
  er_fault :: bzm_running_evidence_fault_t
  er_observed :: bzm_running_stats_t
  er_elapsed_ms :: u64
  er_detail :: string

record bzm_running_evidence_lifecycle_t =
  lc_completed_once :: bool
  lc_recovery_active :: bool
  lc_recovery_started_at_ms :: u64
  lc_last_locally_valid_results :: u64

definition zero_stats :: bzm_running_stats_t where
  "zero_stats = \<lparr> ev_dispatch_batches = 0, ev_dispatched_logical_engines = 0,
     ev_dispatched_chip_engines = 0, ev_dispatch_failures = 0, ev_mapped_results = 0,
     ev_mapping_rejections = 0, ev_mapping_rejection_streak = 0, ev_mapping_recovery_pending = False,
     ev_locally_valid_results = 0, ev_locally_rejected_results = 0, ev_duplicate_results = 0,
     ev_local_rejection_streak = 0, ev_local_recovery_pending = False \<rparr>"

definition counter_rolled_back :: "bzm_running_stats_t \<Rightarrow> bzm_running_stats_t \<Rightarrow> bool" where
  "counter_rolled_back baseline current \<longleftrightarrow>
     ev_dispatch_batches current < ev_dispatch_batches baseline \<or>
     ev_dispatched_logical_engines current < ev_dispatched_logical_engines baseline \<or>
     ev_dispatched_chip_engines current < ev_dispatched_chip_engines baseline \<or>
     ev_dispatch_failures current < ev_dispatch_failures baseline \<or>
     ev_mapped_results current < ev_mapped_results baseline \<or>
     ev_mapping_rejections current < ev_mapping_rejections baseline \<or>
     ev_locally_valid_results current < ev_locally_valid_results baseline \<or>
     ev_locally_rejected_results current < ev_locally_rejected_results baseline"

definition subtract_stats :: "bzm_running_stats_t \<Rightarrow> bzm_running_stats_t \<Rightarrow> bzm_running_stats_t" where
  "subtract_stats current baseline = \<lparr>
     ev_dispatch_batches = ev_dispatch_batches current - ev_dispatch_batches baseline,
     ev_dispatched_logical_engines =
       ev_dispatched_logical_engines current - ev_dispatched_logical_engines baseline,
     ev_dispatched_chip_engines = ev_dispatched_chip_engines current - ev_dispatched_chip_engines baseline,
     ev_dispatch_failures = ev_dispatch_failures current - ev_dispatch_failures baseline,
     ev_mapped_results = ev_mapped_results current - ev_mapped_results baseline,
     ev_mapping_rejections = ev_mapping_rejections current - ev_mapping_rejections baseline,
     ev_mapping_rejection_streak = ev_mapping_rejection_streak current,
     ev_mapping_recovery_pending = ev_mapping_recovery_pending current,
     ev_locally_valid_results = ev_locally_valid_results current - ev_locally_valid_results baseline,
     ev_locally_rejected_results = ev_locally_rejected_results current - ev_locally_rejected_results baseline,
     ev_duplicate_results = 0,
     ev_local_rejection_streak = ev_local_rejection_streak current,
     ev_local_recovery_pending = ev_local_recovery_pending current \<rparr>"

definition proof_requirements_met ::
    "bzm_running_stats_t option \<Rightarrow> bzm_running_evidence_config_t option \<Rightarrow> bool" where
  "proof_requirements_met observed config \<longleftrightarrow>
     (case (observed, config) of
        (Some obs, Some cfg) \<Rightarrow>
          ev_dispatch_batches obs \<noteq> 0 \<and>
          ev_dispatched_chip_engines obs \<ge> ucast (ec_required_chip_engine_writes cfg) \<and>
          ev_mapped_results obs \<ge> ucast (ec_minimum_valid_results cfg) \<and>
          ev_locally_valid_results obs \<ge> ucast (ec_minimum_valid_results cfg)
      | _ \<Rightarrow> False)"

definition result_with ::
    "bzm_running_evidence_status_t \<Rightarrow> bzm_running_evidence_fault_t \<Rightarrow> bzm_running_stats_t option \<Rightarrow> u64 \<Rightarrow>
     string \<Rightarrow> bzm_running_evidence_result_t" where
  "result_with status fault observed elapsed_ms detail =
     \<lparr> er_status = status, er_fault = fault,
       er_observed = (case observed of Some obs \<Rightarrow> obs | None \<Rightarrow> zero_stats),
       er_elapsed_ms = elapsed_ms,
       er_detail = snprintf BZM_RUNNING_EVIDENCE_DETAIL_LENGTH detail \<rparr>"

definition bzm_running_result_meets_proof :: "cfloat \<Rightarrow> cfloat \<Rightarrow> bool" where
  "bzm_running_result_meets_proof nonce_difficulty minimum_nonce_difficulty \<longleftrightarrow>
     isfinite nonce_difficulty \<and> isfinite minimum_nonce_difficulty \<and>
     flt_lt (Fin 0) minimum_nonce_difficulty \<and> flt_le minimum_nonce_difficulty nonce_difficulty"

definition configuration_valid :: "bzm_running_evidence_config_t \<Rightarrow> bool" where
  "configuration_valid cfg \<longleftrightarrow>
     \<not> (ec_required_chip_engine_writes cfg = 0 \<or> ec_minimum_valid_results cfg = 0 \<or>
        ec_proof_timeout_ms cfg = 0 \<or> ec_recovery_timeout_ms cfg = 0 \<or>
        ec_maximum_local_rejections cfg = 0 \<or>
        (ec_allow_mapping_recovery cfg \<and> ec_maximum_mapping_rejections cfg = 0))"

definition recovery_text ::
    "string \<Rightarrow> u64 \<Rightarrow> u32 \<Rightarrow> u32 \<Rightarrow> bzm_running_stats_t \<Rightarrow> bzm_running_evidence_config_t \<Rightarrow> string" where
  "recovery_text reason count streak maximum obs cfg =
     ''waiting for valid proof after '' @ reason @ '': total='' @ fmt_u count @ '' streak='' @ fmt_u streak @
     ''/'' @ fmt_u maximum @ '' valid='' @ fmt_u (ev_locally_valid_results obs) @ ''/'' @
     fmt_u (ec_minimum_valid_results cfg)"

definition good_text :: "bzm_running_stats_t \<Rightarrow> bzm_running_evidence_config_t \<Rightarrow> string" where
  "good_text obs cfg =
     ''full dispatch: batches='' @ fmt_u (ev_dispatch_batches obs) @
     '' chipEngines='' @ fmt_u (ev_dispatched_chip_engines obs) @ '' mapped='' @ fmt_u (ev_mapped_results obs) @
     '' mappingRejected='' @ fmt_u (ev_mapping_rejections obs) @
     '' maxStreak='' @ fmt_u (ev_mapping_rejection_streak obs) @ ''/'' @ fmt_u (ec_maximum_mapping_rejections cfg) @
     '' valid='' @ fmt_u (ev_locally_valid_results obs) @
     '' localRejected='' @ fmt_u (ev_locally_rejected_results obs) @
     '' maxStreak='' @ fmt_u (ev_local_rejection_streak obs) @ ''/'' @ fmt_u (ec_maximum_local_rejections cfg)"

definition waiting_text :: "bzm_running_stats_t \<Rightarrow> bzm_running_evidence_config_t \<Rightarrow> string" where
  "waiting_text obs cfg =
     ''waiting: batches='' @ fmt_u (ev_dispatch_batches obs) @
     '' chipEngines='' @ fmt_u (ev_dispatched_chip_engines obs) @ ''/'' @ fmt_u (ec_required_chip_engine_writes cfg) @
     '' mapped='' @ fmt_u (ev_mapped_results obs) @
     '' mappingRejected='' @ fmt_u (ev_mapping_rejections obs) @
     '' streak='' @ fmt_u (ev_mapping_rejection_streak obs) @ ''/'' @ fmt_u (ec_maximum_mapping_rejections cfg) @
     '' valid='' @ fmt_u (ev_locally_valid_results obs) @ ''/'' @ fmt_u (ec_minimum_valid_results cfg) @
     '' localRejected='' @ fmt_u (ev_locally_rejected_results obs) @
     '' streak='' @ fmt_u (ev_local_rejection_streak obs) @ ''/'' @ fmt_u (ec_maximum_local_rejections cfg)"

text \<open>The tail shared by the waiting branches: BAD with the given fault once the timeout has run
  out, PENDING before.\<close>

definition wait_or_fail ::
    "bzm_running_evidence_fault_t \<Rightarrow> bzm_running_stats_t \<Rightarrow> bzm_running_evidence_config_t \<Rightarrow> u64 \<Rightarrow> string \<Rightarrow>
     bzm_running_evidence_result_t" where
  "wait_or_fail fault obs cfg elapsed_ms detail =
     (if elapsed_ms \<ge> ucast (ec_proof_timeout_ms cfg)
      then result_with BZM_RUNNING_EVIDENCE_BAD fault (Some obs) elapsed_ms detail
      else result_with BZM_RUNNING_EVIDENCE_PENDING BZM_RUNNING_EVIDENCE_FAULT_NONE (Some obs) elapsed_ms detail)"

definition evaluate_observed ::
    "bzm_running_stats_t \<Rightarrow> bzm_running_evidence_config_t \<Rightarrow> u64 \<Rightarrow> bzm_running_evidence_result_t" where
  "evaluate_observed obs cfg elapsed_ms =
     (if ev_dispatch_failures obs \<noteq> 0 then
        result_with BZM_RUNNING_EVIDENCE_BAD BZM_RUNNING_EVIDENCE_FAULT_DISPATCH (Some obs) elapsed_ms
          (snprintf BZM_RUNNING_EVIDENCE_DETAIL_LENGTH
            (''mining dispatch failed after '' @ fmt_u (ev_dispatch_batches obs) @ '' complete batches''))
      else if ev_mapping_rejections obs \<noteq> 0 \<and> \<not> ec_allow_mapping_recovery cfg then
        result_with BZM_RUNNING_EVIDENCE_BAD BZM_RUNNING_EVIDENCE_FAULT_MAPPING (Some obs) elapsed_ms
          (snprintf BZM_RUNNING_EVIDENCE_DETAIL_LENGTH
            (fmt_u (ev_mapping_rejections obs) @
             '' ASIC result frame(s) could not be attributed to current work; recovery is disabled''))
      else if ev_mapping_rejections obs \<noteq> 0 \<and> ev_mapping_recovery_pending obs then
        wait_or_fail BZM_RUNNING_EVIDENCE_FAULT_MAPPING obs cfg elapsed_ms
          (snprintf BZM_RUNNING_EVIDENCE_DETAIL_LENGTH
            (recovery_text ''unattributed frames'' (ev_mapping_rejections obs) (ev_mapping_rejection_streak obs)
               (ec_maximum_mapping_rejections cfg) obs cfg))
      else if ev_locally_rejected_results obs \<noteq> 0 \<and> ev_local_recovery_pending obs \<and>
              ev_local_rejection_streak obs \<ge> ec_maximum_local_rejections cfg then
        wait_or_fail BZM_RUNNING_EVIDENCE_FAULT_LOCAL_VALIDATION obs cfg elapsed_ms
          (snprintf BZM_RUNNING_EVIDENCE_DETAIL_LENGTH
            (recovery_text ''local rejection'' (ev_locally_rejected_results obs) (ev_local_rejection_streak obs)
               (ec_maximum_local_rejections cfg) obs cfg))
      else if proof_requirements_met (Some obs) (Some cfg) then
        result_with BZM_RUNNING_EVIDENCE_GOOD BZM_RUNNING_EVIDENCE_FAULT_NONE (Some obs) elapsed_ms
          (snprintf BZM_RUNNING_EVIDENCE_DETAIL_LENGTH (good_text obs cfg))
      else wait_or_fail BZM_RUNNING_EVIDENCE_FAULT_TIMEOUT obs cfg elapsed_ms
             (snprintf BZM_RUNNING_EVIDENCE_DETAIL_LENGTH (waiting_text obs cfg)))"

definition bzm_running_evidence_evaluate ::
    "bzm_running_stats_t option \<Rightarrow> bzm_running_stats_t option \<Rightarrow> bzm_running_evidence_config_t option \<Rightarrow> u64 \<Rightarrow>
     bzm_running_evidence_result_t" where
  "bzm_running_evidence_evaluate baseline current config elapsed_ms =
     (case (baseline, current, config) of
        (Some base, Some cur, Some cfg) \<Rightarrow>
          if \<not> configuration_valid cfg then
            result_with BZM_RUNNING_EVIDENCE_BAD BZM_RUNNING_EVIDENCE_FAULT_INVALID_CONFIGURATION None elapsed_ms
              ''mining evidence configuration is invalid''
          else if counter_rolled_back base cur then
            result_with BZM_RUNNING_EVIDENCE_BAD BZM_RUNNING_EVIDENCE_FAULT_COUNTER_ROLLBACK None elapsed_ms
              ''mining evidence counters moved backwards''
          else evaluate_observed (subtract_stats cur base) cfg elapsed_ms
      | _ \<Rightarrow> result_with BZM_RUNNING_EVIDENCE_BAD BZM_RUNNING_EVIDENCE_FAULT_INVALID_CONFIGURATION None elapsed_ms
              ''mining evidence configuration is invalid'')"

definition bzm_running_evidence_lifecycle_init ::
    "bzm_running_evidence_lifecycle_t option \<Rightarrow> bzm_running_evidence_lifecycle_t option" where
  "bzm_running_evidence_lifecycle_init = map_option (\<lambda>_.
     \<lparr> lc_completed_once = False, lc_recovery_active = False, lc_recovery_started_at_ms = 0,
       lc_last_locally_valid_results = 0 \<rparr>)"

text \<open>Milliseconds from one time to another, saturated when the clock went backwards.\<close>

definition elapsed_since :: "u64 \<Rightarrow> u64 \<Rightarrow> u64" where
  "elapsed_since started_at_ms now_ms = (if now_ms \<ge> started_at_ms then now_ms - started_at_ms else UINT64_MAX)"

text \<open>The first phase of \<open>track\<close>, before the initial proof; \<open>result\<close> is the evaluation at elapsed
  zero.\<close>

definition track_initial ::
    "bzm_running_evidence_lifecycle_t \<Rightarrow> bzm_running_stats_t option \<Rightarrow> bzm_running_stats_t option \<Rightarrow>
     bzm_running_evidence_config_t \<Rightarrow> u64 \<Rightarrow> u64 \<Rightarrow> bzm_running_evidence_result_t \<Rightarrow>
     bzm_running_evidence_result_t \<times> bzm_running_evidence_lifecycle_t" where
  "track_initial lc baseline current cfg now_ms overall result =
     (if overall \<ge> ucast (ec_proof_timeout_ms cfg) then
        (result_with BZM_RUNNING_EVIDENCE_BAD BZM_RUNNING_EVIDENCE_FAULT_TIMEOUT (Some (er_observed result)) overall
           ''initial dispatch and local nonce proof missed its deadline'', lc)
      else if er_status result = BZM_RUNNING_EVIDENCE_GOOD then
        (result, lc\<lparr> lc_completed_once := True, lc_recovery_active := False, lc_recovery_started_at_ms := 0,
                   lc_last_locally_valid_results := ev_locally_valid_results (er_observed result) \<rparr>)
      else if proof_requirements_met (Some (er_observed result)) (Some cfg) then
        (result\<lparr> er_status := BZM_RUNNING_EVIDENCE_GOOD, er_fault := BZM_RUNNING_EVIDENCE_FAULT_NONE,
            er_detail := snprintf BZM_RUNNING_EVIDENCE_DETAIL_LENGTH
              (''proof established; bounded recovery 0/'' @ fmt_u (ec_proof_timeout_ms cfg) @ '' ms: '' @
               take 91 (snprintf BZM_RUNNING_EVIDENCE_DETAIL_LENGTH (er_detail result))) \<rparr>,
         lc\<lparr> lc_completed_once := True, lc_recovery_active := True, lc_recovery_started_at_ms := now_ms,
            lc_last_locally_valid_results := ev_locally_valid_results (er_observed result) \<rparr>)
      else (bzm_running_evidence_evaluate baseline current (Some cfg) overall, lc))"

text \<open>The second phase: a lost condition is retained for one bounded recovery.\<close>

definition track_recovery ::
    "bzm_running_evidence_lifecycle_t \<Rightarrow> bzm_running_stats_t option \<Rightarrow> bzm_running_stats_t option \<Rightarrow>
     bzm_running_evidence_config_t \<Rightarrow> u64 \<Rightarrow> u64 \<Rightarrow> bzm_running_evidence_result_t \<Rightarrow>
     bzm_running_evidence_result_t \<times> bzm_running_evidence_lifecycle_t" where
  "track_recovery lc baseline current cfg now_ms overall result =
     (if er_status result = BZM_RUNNING_EVIDENCE_GOOD then
        (result, lc\<lparr> lc_recovery_active := False, lc_recovery_started_at_ms := 0,
                   lc_last_locally_valid_results := ev_locally_valid_results (er_observed result) \<rparr>)
      else
        (let lc = (if \<not> lc_recovery_active lc \<or>
                      ev_locally_valid_results (er_observed result) > lc_last_locally_valid_results lc
                   then lc\<lparr> lc_recovery_active := True, lc_recovery_started_at_ms := now_ms \<rparr> else lc);
             lc = lc\<lparr> lc_last_locally_valid_results := ev_locally_valid_results (er_observed result) \<rparr>;
             recovery_elapsed_ms = elapsed_since (lc_recovery_started_at_ms lc) now_ms;
             recovery_config = cfg\<lparr> ec_proof_timeout_ms := ec_recovery_timeout_ms cfg \<rparr>;
             result = (bzm_running_evidence_evaluate baseline current (Some recovery_config) recovery_elapsed_ms)
                        \<lparr> er_elapsed_ms := overall \<rparr>
         in (if er_status result = BZM_RUNNING_EVIDENCE_PENDING
             then result\<lparr> er_status := BZM_RUNNING_EVIDENCE_GOOD, er_fault := BZM_RUNNING_EVIDENCE_FAULT_NONE,
                    er_detail := snprintf BZM_RUNNING_EVIDENCE_DETAIL_LENGTH
                      (''proof retained; bounded recovery '' @ fmt_u recovery_elapsed_ms @ ''/'' @
                       fmt_u (ec_recovery_timeout_ms cfg) @ '' ms: '' @
                       take 90 (snprintf BZM_RUNNING_EVIDENCE_DETAIL_LENGTH (er_detail result))) \<rparr>
             else result,
             lc)))"

definition bzm_running_evidence_track ::
    "bzm_running_evidence_lifecycle_t option \<Rightarrow> bzm_running_stats_t option \<Rightarrow> bzm_running_stats_t option \<Rightarrow>
     bzm_running_evidence_config_t option \<Rightarrow> u64 \<Rightarrow> u64 \<Rightarrow>
     bzm_running_evidence_result_t \<times> bzm_running_evidence_lifecycle_t option" where
  "bzm_running_evidence_track lifecycle baseline current config started_at_ms now_ms =
     (let overall = elapsed_since started_at_ms now_ms
      in case lifecycle of
           None \<Rightarrow> (result_with BZM_RUNNING_EVIDENCE_BAD BZM_RUNNING_EVIDENCE_FAULT_INVALID_CONFIGURATION None overall
                     ''mining evidence lifecycle is unavailable'', None)
         | Some lc \<Rightarrow>
             (let result = (bzm_running_evidence_evaluate baseline current config 0)\<lparr> er_elapsed_ms := overall \<rparr>
              in if er_status result = BZM_RUNNING_EVIDENCE_BAD then (result, Some lc)
                 else case config of
                        None \<Rightarrow> (result, Some lc)
                      | Some cfg \<Rightarrow>
                          (if \<not> lc_completed_once lc
                           then apsnd Some (track_initial lc baseline current cfg now_ms overall result)
                           else apsnd Some (track_recovery lc baseline current cfg now_ms overall result))))"

definition bzm_running_evidence_status_name :: "bzm_running_evidence_status_t \<Rightarrow> string" where
  "bzm_running_evidence_status_name status = (case status of
     BZM_RUNNING_EVIDENCE_PENDING \<Rightarrow> ''PENDING''
   | BZM_RUNNING_EVIDENCE_GOOD \<Rightarrow> ''GOOD''
   | BZM_RUNNING_EVIDENCE_BAD \<Rightarrow> ''BAD'')"

definition bzm_running_evidence_fault_name :: "bzm_running_evidence_fault_t \<Rightarrow> string" where
  "bzm_running_evidence_fault_name fault = (case fault of
     BZM_RUNNING_EVIDENCE_FAULT_NONE \<Rightarrow> ''NONE''
   | BZM_RUNNING_EVIDENCE_FAULT_COUNTER_ROLLBACK \<Rightarrow> ''COUNTER_ROLLBACK''
   | BZM_RUNNING_EVIDENCE_FAULT_DISPATCH \<Rightarrow> ''DISPATCH''
   | BZM_RUNNING_EVIDENCE_FAULT_MAPPING \<Rightarrow> ''MAPPING''
   | BZM_RUNNING_EVIDENCE_FAULT_LOCAL_VALIDATION \<Rightarrow> ''LOCAL_VALIDATION''
   | BZM_RUNNING_EVIDENCE_FAULT_TIMEOUT \<Rightarrow> ''TIMEOUT''
   | BZM_RUNNING_EVIDENCE_FAULT_INVALID_CONFIGURATION \<Rightarrow> ''INVALID_CONFIGURATION'')"

section \<open>Counters and deadlines\<close>

text \<open>The increase of the counters since the baseline, as natural numbers.\<close>

definition gained :: "(bzm_running_stats_t \<Rightarrow> u64) \<Rightarrow> bzm_running_stats_t \<Rightarrow> bzm_running_stats_t \<Rightarrow> nat" where
  "gained counter base cur = unat (counter cur) - unat (counter base)"

text \<open>A complete dispatch and enough mapped and locally verified results since the baseline.\<close>

definition full_proof :: "bzm_running_stats_t \<Rightarrow> bzm_running_stats_t \<Rightarrow> bzm_running_evidence_config_t \<Rightarrow> bool" where
  "full_proof base cur cfg \<longleftrightarrow>
     0 < gained ev_dispatch_batches base cur \<and>
     unat (ec_required_chip_engine_writes cfg) \<le> gained ev_dispatched_chip_engines base cur \<and>
     unat (ec_minimum_valid_results cfg) \<le> gained ev_mapped_results base cur \<and>
     unat (ec_minimum_valid_results cfg) \<le> gained ev_locally_valid_results base cur"

text \<open>What must hold of every accepted observation.\<close>

definition sound_observation ::
    "bzm_running_stats_t \<Rightarrow> bzm_running_stats_t \<Rightarrow> bzm_running_evidence_config_t \<Rightarrow> bool" where
  "sound_observation base cur cfg \<longleftrightarrow>
     configuration_valid cfg \<and> \<not> counter_rolled_back base cur \<and>
     ev_dispatch_failures cur = ev_dispatch_failures base \<and>
     (ev_mapping_rejections cur = ev_mapping_rejections base \<or> ec_allow_mapping_recovery cfg)"

text \<open>A recovery in progress: attribution was lost, or the streak of local rejections reached its
  bound.\<close>

definition in_recovery :: "bzm_running_stats_t \<Rightarrow> bzm_running_stats_t \<Rightarrow> bzm_running_evidence_config_t \<Rightarrow> bool" where
  "in_recovery base cur cfg \<longleftrightarrow>
     (ev_mapping_rejections cur \<noteq> ev_mapping_rejections base \<and> ev_mapping_recovery_pending cur) \<or>
     (ev_locally_rejected_results cur \<noteq> ev_locally_rejected_results base \<and> ev_local_recovery_pending cur \<and>
      ec_maximum_local_rejections cfg \<le> ev_local_rejection_streak cur)"

lemma unat_minus_le: "b \<le> c \<Longrightarrow> unat (c - b) = unat c - unat (b :: 'a::len word)"
  by (simp add: unat_sub)

lemma gained_eq:
  assumes "\<not> counter_rolled_back base cur"
  shows "unat (ev_dispatch_batches (subtract_stats cur base)) = gained ev_dispatch_batches base cur"
    and "unat (ev_dispatched_chip_engines (subtract_stats cur base)) = gained ev_dispatched_chip_engines base cur"
    and "unat (ev_mapped_results (subtract_stats cur base)) = gained ev_mapped_results base cur"
    and "unat (ev_locally_valid_results (subtract_stats cur base)) = gained ev_locally_valid_results base cur"
  using assms by (auto simp: counter_rolled_back_def subtract_stats_def gained_def unat_minus_le not_less)

lemma proof_met_eq:
  "\<not> counter_rolled_back base cur \<Longrightarrow>
   proof_requirements_met (Some (subtract_stats cur base)) (Some cfg) = full_proof base cur cfg"
  by (simp add: proof_requirements_met_def full_proof_def gained_eq[symmetric] word_le_nat_alt unat_eq_0 flip: neq0_conv)

lemma subtract_simps [simp]:
  "ev_dispatch_failures (subtract_stats cur base) = 0 \<longleftrightarrow> ev_dispatch_failures cur = ev_dispatch_failures base"
  "ev_mapping_rejections (subtract_stats cur base) = 0 \<longleftrightarrow> ev_mapping_rejections cur = ev_mapping_rejections base"
  "ev_locally_rejected_results (subtract_stats cur base) = 0 \<longleftrightarrow>
     ev_locally_rejected_results cur = ev_locally_rejected_results base"
  "ev_mapping_recovery_pending (subtract_stats cur base) = ev_mapping_recovery_pending cur"
  "ev_local_recovery_pending (subtract_stats cur base) = ev_local_recovery_pending cur"
  "ev_local_rejection_streak (subtract_stats cur base) = ev_local_rejection_streak cur"
  by (simp_all add: subtract_stats_def)

lemma result_with_simps [simp]:
  "er_status (result_with st f obs t d) = st" "er_fault (result_with st f obs t d) = f"
  "er_observed (result_with st f (Some ob) t d) = ob"
  by (simp_all add: result_with_def)

text \<open>The three outcomes of an evaluation.\<close>

lemma evaluate_status:
  fixes base cur cfg t
  defines "r \<equiv> bzm_running_evidence_evaluate (Some base) (Some cur) (Some cfg) t"
  shows "er_status r = BZM_RUNNING_EVIDENCE_GOOD \<longleftrightarrow>
           sound_observation base cur cfg \<and> \<not> in_recovery base cur cfg \<and> full_proof base cur cfg"
    and "er_status r = BZM_RUNNING_EVIDENCE_PENDING \<longleftrightarrow>
           sound_observation base cur cfg \<and> (in_recovery base cur cfg \<or> \<not> full_proof base cur cfg) \<and>
           unat t < unat (ec_proof_timeout_ms cfg)"
    and "er_status r \<noteq> BZM_RUNNING_EVIDENCE_BAD \<Longrightarrow> er_observed r = subtract_stats cur base"
  unfolding r_def
  by (auto simp: bzm_running_evidence_evaluate_def evaluate_observed_def sound_observation_def in_recovery_def
      proof_met_eq wait_or_fail_def word_le_nat_alt not_le)

lemma evaluate_bad_mono:
  "sound_observation base cur cfg \<Longrightarrow> in_recovery base cur cfg \<Longrightarrow>
   er_status (bzm_running_evidence_evaluate (Some base) (Some cur) (Some cfg) t) =
     (if unat t < unat (ec_proof_timeout_ms cfg) then BZM_RUNNING_EVIDENCE_PENDING else BZM_RUNNING_EVIDENCE_BAD)"
  using evaluate_status[of base cur cfg t] by (cases "er_status (bzm_running_evidence_evaluate (Some base) (Some cur) (Some cfg) t)") auto

lemma sound_update [simp]:
  "sound_observation base cur (cfg\<lparr> ec_proof_timeout_ms := ec_recovery_timeout_ms cfg \<rparr>) = sound_observation base cur cfg"
  if "configuration_valid cfg"
  using that by (auto simp: sound_observation_def configuration_valid_def)

lemma sound_update_imp:
  "sound_observation base cur (cfg\<lparr> ec_proof_timeout_ms := ec_recovery_timeout_ms cfg \<rparr>) \<Longrightarrow>
   ec_proof_timeout_ms cfg \<noteq> 0 \<Longrightarrow> sound_observation base cur cfg"
  by (auto simp: sound_observation_def configuration_valid_def)

lemma recovery_update [simp]:
  "in_recovery base cur (cfg\<lparr> ec_proof_timeout_ms := x \<rparr>) = in_recovery base cur cfg"
  "full_proof base cur (cfg\<lparr> ec_proof_timeout_ms := x \<rparr>) = full_proof base cur cfg"
  by (simp_all add: in_recovery_def full_proof_def)

lemma elapsed_less:
  "unat (elapsed_since s t) < unat (n :: u32) \<longleftrightarrow> s \<le> t \<and> unat t < unat s + unat n"
proof -
  have "unat n < 2 ^ 32" using unsigned_less[of n] by simp
  then show ?thesis by (auto simp: elapsed_since_def unat_minus_le word_le_nat_alt)
qed

section \<open>The life cycle\<close>

text \<open>A run of observations against one baseline and configuration.\<close>

definition track_states ::
    "bzm_running_stats_t \<Rightarrow> bzm_running_evidence_config_t \<Rightarrow> u64 \<Rightarrow> (bzm_running_stats_t \<times> u64) list \<Rightarrow>
     bzm_running_evidence_lifecycle_t option \<Rightarrow> bzm_running_evidence_lifecycle_t option" where
  "track_states base cfg started obs lc =
     foldl (\<lambda>l (cur, now). snd (bzm_running_evidence_track l (Some base) (Some cur) (Some cfg) started now)) lc obs"

lemma track_states_simps [simp]:
  "track_states base cfg started [] lc = lc"
  "track_states base cfg started ((cur, now) # obs) lc =
     track_states base cfg started obs (snd (bzm_running_evidence_track lc (Some base) (Some cur) (Some cfg) started now))"
  "track_states base cfg started (obs @ [(cur, now)]) lc =
     snd (bzm_running_evidence_track (track_states base cfg started obs lc) (Some base) (Some cur) (Some cfg) started now)"
  by (simp_all add: track_states_def)

definition fresh_lifecycle :: bzm_running_evidence_lifecycle_t where
  "fresh_lifecycle = \<lparr> lc_completed_once = False, lc_recovery_active = False, lc_recovery_started_at_ms = 0,
     lc_last_locally_valid_results = 0 \<rparr>"

lemma lifecycle_init_fresh: "bzm_running_evidence_lifecycle_init (Some lc) = Some fresh_lifecycle"
  by (simp add: bzm_running_evidence_lifecycle_init_def fresh_lifecycle_def)

text \<open>An observation that can establish the initial proof.\<close>

definition timely_proof ::
    "bzm_running_stats_t \<Rightarrow> bzm_running_evidence_config_t \<Rightarrow> u64 \<Rightarrow> bzm_running_stats_t \<times> u64 \<Rightarrow> bool" where
  "timely_proof base cfg started = (\<lambda>(cur, now).
     sound_observation base cur cfg \<and> full_proof base cur cfg \<and>
     started \<le> now \<and> unat now < unat started + unat (ec_proof_timeout_ms cfg))"

lemma track_none [simp]:
  "snd (bzm_running_evidence_track None b c cfg s n) = None"
  "er_status (fst (bzm_running_evidence_track None b c cfg s n)) = BZM_RUNNING_EVIDENCE_BAD"
  by (simp_all add: bzm_running_evidence_track_def)

lemma track_initial_phase:
  fixes base cur cfg started now
  assumes "\<not> lc_completed_once lc"
  defines "out \<equiv> bzm_running_evidence_track (Some lc) (Some base) (Some cur) (Some cfg) started now"
  shows "er_status (fst out) = BZM_RUNNING_EVIDENCE_GOOD \<longleftrightarrow> timely_proof base cfg started (cur, now)"
    and "snd out = Some lc' \<Longrightarrow> lc_completed_once lc' \<longleftrightarrow> timely_proof base cfg started (cur, now)"
proof -
  let ?r = "bzm_running_evidence_evaluate (Some base) (Some cur) (Some cfg) 0"
  let ?o = "bzm_running_evidence_evaluate (Some base) (Some cur) (Some cfg) (elapsed_since started now)"
  have le: "ucast (ec_proof_timeout_ms cfg) \<le> elapsed_since started now \<longleftrightarrow>
      \<not> (started \<le> now \<and> unat now < unat started + unat (ec_proof_timeout_ms cfg))"
    using elapsed_less[of started now "ec_proof_timeout_ms cfg"] by (auto simp: word_le_nat_alt)
  have met: "er_status ?r \<noteq> BZM_RUNNING_EVIDENCE_BAD \<Longrightarrow>
      proof_requirements_met (Some (er_observed ?r)) (Some cfg) = full_proof base cur cfg \<and> sound_observation base cur cfg"
    using evaluate_status[of base cur cfg 0] proof_met_eq[of base cur cfg]
    by (cases "er_status ?r") (auto simp: sound_observation_def)
  have bad: "er_status ?r = BZM_RUNNING_EVIDENCE_BAD \<Longrightarrow> \<not> timely_proof base cfg started (cur, now)"
    using evaluate_status(1,2)[of base cur cfg 0]
    by (auto simp: timely_proof_def sound_observation_def configuration_valid_def unat_gt_0)
  show "er_status (fst out) = BZM_RUNNING_EVIDENCE_GOOD \<longleftrightarrow> timely_proof base cfg started (cur, now)"
    and "snd out = Some lc' \<Longrightarrow> lc_completed_once lc' \<longleftrightarrow> timely_proof base cfg started (cur, now)"
    unfolding out_def using assms(1) le met bad evaluate_status(1)[of base cur cfg 0] evaluate_status(1)[of base cur cfg "elapsed_since started now"]
    by (auto simp: bzm_running_evidence_track_def track_initial_def timely_proof_def Let_def split: if_splits)
qed

lemma track_some: "\<exists>l. snd (bzm_running_evidence_track (Some lc) b c cfg started now) = Some l"
  by (auto simp: bzm_running_evidence_track_def Let_def split: option.split)

text \<open>After the initial proof: GOOD needs a sound observation, and either proof or a recovery younger
  than its timeout.\<close>

lemma track_later_phase:
  fixes base cur cfg started now
  assumes "lc_completed_once lc"
  defines "out \<equiv> bzm_running_evidence_track (Some lc) (Some base) (Some cur) (Some cfg) started now"
  shows "er_status (fst out) = BZM_RUNNING_EVIDENCE_GOOD \<Longrightarrow> sound_observation base cur cfg \<and>
           (\<exists>l. snd out = Some l \<and>
             (\<not> in_recovery base cur cfg \<and> full_proof base cur cfg \<or>
              lc_recovery_active l \<and> lc_recovery_started_at_ms l \<le> now \<and>
              unat now < unat (lc_recovery_started_at_ms l) + unat (ec_recovery_timeout_ms cfg)))"
    and "\<exists>l. snd out = Some l \<and> lc_completed_once l"
proof -
  let ?cfg = "cfg\<lparr> ec_proof_timeout_ms := ec_recovery_timeout_ms cfg \<rparr>"
  have sound: "sound_observation base cur cfg"
    if "er_status (bzm_running_evidence_evaluate (Some base) (Some cur) (Some cfg) 0) \<noteq> BZM_RUNNING_EVIDENCE_BAD"
    using that evaluate_status(1,2)[of base cur cfg 0]
    by (cases "er_status (bzm_running_evidence_evaluate (Some base) (Some cur) (Some cfg) 0)") auto
  have good: "er_status (bzm_running_evidence_evaluate (Some base) (Some cur) (Some ?cfg) t) = BZM_RUNNING_EVIDENCE_GOOD \<Longrightarrow>
      \<not> in_recovery base cur cfg \<and> full_proof base cur cfg" for t
    using evaluate_status(1)[of base cur ?cfg t] by simp
  have pend: "er_status (bzm_running_evidence_evaluate (Some base) (Some cur) (Some ?cfg) (elapsed_since s now)) =
        BZM_RUNNING_EVIDENCE_PENDING \<Longrightarrow> s \<le> now \<and> unat now < unat s + unat (ec_recovery_timeout_ms cfg)" for s
    using evaluate_status(2)[of base cur ?cfg "elapsed_since s now"] by (simp add: elapsed_less)
  show "er_status (fst out) = BZM_RUNNING_EVIDENCE_GOOD \<Longrightarrow> sound_observation base cur cfg \<and>
           (\<exists>l. snd out = Some l \<and>
             (\<not> in_recovery base cur cfg \<and> full_proof base cur cfg \<or>
              lc_recovery_active l \<and> lc_recovery_started_at_ms l \<le> now \<and>
              unat now < unat (lc_recovery_started_at_ms l) + unat (ec_recovery_timeout_ms cfg)))"
    unfolding out_def bzm_running_evidence_track_def track_recovery_def Let_def
    using assms(1) sound evaluate_status(1)[of base cur cfg 0]
    by (auto split: if_splits dest: good pend)
  show "\<exists>l. snd out = Some l \<and> lc_completed_once l"
    unfolding out_def bzm_running_evidence_track_def track_recovery_def Let_def using assms(1) by auto
qed

lemma track_states_completed:
  "track_states base cfg started obs (Some lc) = Some l \<Longrightarrow> lc_completed_once l \<Longrightarrow>
   lc_completed_once lc \<or> (\<exists>ob\<in>set obs. timely_proof base cfg started ob)"
proof (induction obs arbitrary: lc)
  case (Cons ob obs)
  obtain cur now where ob: "ob = (cur, now)" by (cases ob)
  obtain lc' where lc': "snd (bzm_running_evidence_track (Some lc) (Some base) (Some cur) (Some cfg) started now) = Some lc'"
    using track_some by blast
  have "lc_completed_once lc' \<Longrightarrow> lc_completed_once lc \<or> timely_proof base cfg started ob"
    using track_initial_phase(2)[OF _ lc'] ob by blast
  then show ?case using Cons lc' ob by auto
qed simp

lemma track_states_some: "\<exists>l. track_states base cfg started obs (Some lc) = Some l"
proof (induction obs arbitrary: lc)
  case (Cons ob obs)
  obtain cur now where ob: "ob = (cur, now)" by (cases ob)
  have "\<exists>l. snd (bzm_running_evidence_track (Some lc) (Some base) (Some cur) (Some cfg) started now) = Some l"
    by (rule track_some)
  then show ?case using Cons ob by auto
qed simp

text \<open>An observation inside an unresolved recovery that brings no new locally valid result.\<close>

definition stalled ::
    "bzm_running_stats_t \<Rightarrow> bzm_running_evidence_config_t \<Rightarrow> u64 \<Rightarrow> bzm_running_stats_t \<times> u64 \<Rightarrow> bool" where
  "stalled base cfg valid = (\<lambda>(cur, now).
     sound_observation base cur cfg \<and> in_recovery base cur cfg \<and> ev_locally_valid_results cur = valid)"

lemma track_stalled:
  assumes "lc_completed_once lc" and "stalled base cfg valid (cur, now)"
    and "lc_recovery_active lc \<Longrightarrow> lc_last_locally_valid_results lc = valid - ev_locally_valid_results base"
  defines "s \<equiv> if lc_recovery_active lc then lc_recovery_started_at_ms lc else now"
  shows "er_status (fst (bzm_running_evidence_track (Some lc) (Some base) (Some cur) (Some cfg) started now)) =
           (if s \<le> now \<and> unat now < unat s + unat (ec_recovery_timeout_ms cfg)
            then BZM_RUNNING_EVIDENCE_GOOD else BZM_RUNNING_EVIDENCE_BAD)"
    and "snd (bzm_running_evidence_track (Some lc) (Some base) (Some cur) (Some cfg) started now) =
           Some (lc\<lparr> lc_recovery_active := True, lc_recovery_started_at_ms := s,
                    lc_last_locally_valid_results := valid - ev_locally_valid_results base \<rparr>)"
proof -
  let ?cfg = "cfg\<lparr> ec_proof_timeout_ms := ec_recovery_timeout_ms cfg \<rparr>"
  have st: "sound_observation base cur cfg" "in_recovery base cur cfg" "ev_locally_valid_results cur = valid"
    using assms(2) by (auto simp: stalled_def)
  have valid: "configuration_valid cfg" using st(1) by (simp add: sound_observation_def)
  have first: "er_status (bzm_running_evidence_evaluate (Some base) (Some cur) (Some cfg) 0) = BZM_RUNNING_EVIDENCE_PENDING"
    using evaluate_bad_mono[OF st(1,2)] valid by (simp add: configuration_valid_def unat_gt_0)
  have obs: "er_observed (bzm_running_evidence_evaluate (Some base) (Some cur) (Some cfg) 0) = subtract_stats cur base"
    using evaluate_status(3)[of base cur cfg 0] first by simp
  have lv: "ev_locally_valid_results (subtract_stats cur base) = valid - ev_locally_valid_results base"
    using st(3) by (simp add: subtract_stats_def)
  have later: "er_status (bzm_running_evidence_evaluate (Some base) (Some cur) (Some ?cfg) (elapsed_since s now)) =
      (if s \<le> now \<and> unat now < unat s + unat (ec_recovery_timeout_ms cfg)
       then BZM_RUNNING_EVIDENCE_PENDING else BZM_RUNNING_EVIDENCE_BAD)"
    using evaluate_bad_mono[of base cur ?cfg] st valid by (simp add: elapsed_less)
  show "er_status (fst (bzm_running_evidence_track (Some lc) (Some base) (Some cur) (Some cfg) started now)) =
           (if s \<le> now \<and> unat now < unat s + unat (ec_recovery_timeout_ms cfg)
            then BZM_RUNNING_EVIDENCE_GOOD else BZM_RUNNING_EVIDENCE_BAD)"
    and "snd (bzm_running_evidence_track (Some lc) (Some base) (Some cur) (Some cfg) started now) =
           Some (lc\<lparr> lc_recovery_active := True, lc_recovery_started_at_ms := s,
                    lc_last_locally_valid_results := valid - ev_locally_valid_results base \<rparr>)"
    using assms(1,3) first obs lv later
    by (auto simp: bzm_running_evidence_track_def track_recovery_def Let_def s_def split: if_splits)
qed

lemma track_states_stalled:
  assumes "lc_completed_once lc" and "lc_recovery_active lc"
    and "lc_last_locally_valid_results lc = valid - ev_locally_valid_results base"
    and "list_all (stalled base cfg valid) obs"
  shows "track_states base cfg started obs (Some lc) = Some lc"
  using assms(4)
proof (induction obs)
  case (Cons ob obs)
  obtain cur now where ob: "ob = (cur, now)" by (cases ob)
  have "snd (bzm_running_evidence_track (Some lc) (Some base) (Some cur) (Some cfg) started now) = Some lc"
    using track_stalled(2)[OF assms(1), of base cfg valid cur now started] assms(2,3) Cons.prems ob by simp
  then show ?case using Cons ob by simp
qed simp

lemma track_initial_recovery:
  assumes "\<not> lc_completed_once lc" and "timely_proof base cfg started (cur, now)" and "in_recovery base cur cfg"
  shows "\<exists>l. snd (bzm_running_evidence_track (Some lc) (Some base) (Some cur) (Some cfg) started now) = Some l \<and>
           lc_recovery_active l \<and> lc_recovery_started_at_ms l = now"
proof -
  have so: "sound_observation base cur cfg" "full_proof base cur cfg" "configuration_valid cfg"
    using assms(2) by (auto simp: timely_proof_def sound_observation_def)
  have first: "er_status (bzm_running_evidence_evaluate (Some base) (Some cur) (Some cfg) 0) = BZM_RUNNING_EVIDENCE_PENDING"
    using evaluate_bad_mono[OF so(1) assms(3)] so(3) by (simp add: configuration_valid_def unat_gt_0)
  moreover have "proof_requirements_met (Some (subtract_stats cur base)) (Some cfg)"
    using so proof_met_eq by (auto simp: sound_observation_def)
  moreover have "\<not> ucast (ec_proof_timeout_ms cfg) \<le> elapsed_since started now"
    using assms(2) elapsed_less[of started now "ec_proof_timeout_ms cfg"] by (auto simp: timely_proof_def word_le_nat_alt)
  ultimately show ?thesis
    using assms(1) evaluate_status(3)[of base cur cfg 0]
    by (simp add: bzm_running_evidence_track_def track_initial_def Let_def)
qed

section \<open>Properties\<close>

text \<open>C21. Mining is reported GOOD only on evidence. In any run of observations against one baseline,
  starting from a fresh life cycle, a GOOD answer means: the observation itself is sound (no counter
  below its baseline, no failed dispatch, unattributed results only where recovery is allowed); some
  observation up to now showed a dispatch to all required engines together with enough mapped and
  locally verified results within the initial timeout; and at this moment either the evidence is
  complete and no recovery is pending, or a recovery is younger than its timeout.\<close>

theorem running_good_is_proven:
  assumes "er_status (fst (bzm_running_evidence_track
             (track_states base cfg started obs (bzm_running_evidence_lifecycle_init (Some lc)))
             (Some base) (Some cur) (Some cfg) started now)) = BZM_RUNNING_EVIDENCE_GOOD"
  shows "sound_observation base cur cfg \<and>
         (\<exists>ob\<in>set (obs @ [(cur, now)]). timely_proof base cfg started ob) \<and>
         ((\<not> in_recovery base cur cfg \<and> full_proof base cur cfg) \<or>
         (\<exists>l. snd (bzm_running_evidence_track
                (track_states base cfg started obs (bzm_running_evidence_lifecycle_init (Some lc)))
                (Some base) (Some cur) (Some cfg) started now) = Some l \<and>
              lc_recovery_active l \<and> lc_recovery_started_at_ms l \<le> now \<and>
              unat now < unat (lc_recovery_started_at_ms l) + unat (ec_recovery_timeout_ms cfg)))"
proof -
  obtain l where l: "track_states base cfg started obs (bzm_running_evidence_lifecycle_init (Some lc)) = Some l"
    using track_states_some unfolding lifecycle_init_fresh by blast
  note good = assms[unfolded l]
  have early: "lc_completed_once l \<Longrightarrow> \<exists>ob\<in>set obs. timely_proof base cfg started ob"
    using track_states_completed[OF l[unfolded lifecycle_init_fresh]] by (simp add: fresh_lifecycle_def)
  have now: "\<not> lc_completed_once l \<Longrightarrow> timely_proof base cfg started (cur, now)"
    using track_initial_phase(1) good by blast
  have later: "lc_completed_once l \<Longrightarrow> sound_observation base cur cfg \<and>
      (\<exists>l'. snd (bzm_running_evidence_track (Some l) (Some base) (Some cur) (Some cfg) started now) = Some l' \<and>
        (\<not> in_recovery base cur cfg \<and> full_proof base cur cfg \<or>
         lc_recovery_active l' \<and> lc_recovery_started_at_ms l' \<le> now \<and>
         unat now < unat (lc_recovery_started_at_ms l') + unat (ec_recovery_timeout_ms cfg)))"
    using track_later_phase(1)[OF _ good] .
  have sound: "sound_observation base cur cfg"
    using now later by (cases "lc_completed_once l") (auto simp: timely_proof_def)
  moreover have "\<exists>ob\<in>set (obs @ [(cur, now)]). timely_proof base cfg started ob"
    using now early by (cases "lc_completed_once l") auto
  moreover have "(\<not> in_recovery base cur cfg \<and> full_proof base cur cfg) \<or>
         (\<exists>l. snd (bzm_running_evidence_track
                (track_states base cfg started obs (bzm_running_evidence_lifecycle_init (Some lc)))
                (Some base) (Some cur) (Some cfg) started now) = Some l \<and>
              lc_recovery_active l \<and> lc_recovery_started_at_ms l \<le> now \<and>
              unat now < unat (lc_recovery_started_at_ms l) + unat (ec_recovery_timeout_ms cfg))"
  proof (cases "lc_completed_once l")
    case True
    then show ?thesis using later l by auto
  next
    case False
    have "0 < unat (ec_recovery_timeout_ms cfg)"
      using sound by (auto simp: sound_observation_def configuration_valid_def unat_gt_0)
    then show ?thesis
      using now[OF False] track_initial_recovery[OF False now[OF False]] l
      by (cases "in_recovery base cur cfg") (auto simp: timely_proof_def)
  qed
  ultimately show ?thesis by blast
qed

definition demo_config :: bzm_running_evidence_config_t where
  "demo_config = \<lparr> ec_required_chip_engine_writes = 8, ec_minimum_valid_results = 1,
     ec_allow_mapping_recovery = True, ec_maximum_mapping_rejections = 4, ec_maximum_local_rejections = 2,
     ec_proof_timeout_ms = 1000, ec_recovery_timeout_ms = 300 \<rparr>"

definition demo_proof :: bzm_running_stats_t where
  "demo_proof = zero_stats\<lparr> ev_dispatch_batches := 1, ev_dispatched_chip_engines := 8, ev_mapped_results := 2,
     ev_locally_valid_results := 2 \<rparr>"

definition demo_lost :: bzm_running_stats_t where
  "demo_lost = demo_proof\<lparr> ev_mapping_rejections := 1, ev_mapping_rejection_streak := 1,
     ev_mapping_recovery_pending := True \<rparr>"

lemma running_good_is_proven_witness:
  "timely_proof zero_stats demo_config 0 (demo_proof, 500) \<and> sound_observation zero_stats demo_lost demo_config \<and>
   in_recovery zero_stats demo_lost demo_config \<and>
   (\<exists>ob\<in>set ([(demo_proof, 500)] @ [(demo_lost, 2000)]). timely_proof zero_stats demo_config 0 ob)"
proof -
  have "er_status (fst (bzm_running_evidence_track
          (track_states zero_stats demo_config 0 [(demo_proof, 500)] (bzm_running_evidence_lifecycle_init (Some fresh_lifecycle)))
          (Some zero_stats) (Some demo_lost) (Some demo_config) 0 2000)) = BZM_RUNNING_EVIDENCE_GOOD"
    by code_simp
  from running_good_is_proven[OF this] show ?thesis
    by (auto simp: timely_proof_def sound_observation_def in_recovery_def full_proof_def gained_def configuration_valid_def
        counter_rolled_back_def demo_config_def demo_proof_def demo_lost_def zero_stats_def)
qed

text \<open>C18. A recovery is bounded. Once the initial proof exists, let a recovery begin at \<open>t0\<close> and let no
  observation bring a new locally valid result. Then, however many observations follow, the answer is
  GOOD exactly while less than the recovery timeout has passed since \<open>t0\<close>, and BAD from the first
  observation at or after the deadline; later observations cannot restart the timer.\<close>

theorem stalled_recovery_fails_on_time:
  assumes "lc_completed_once lc" and "\<not> lc_recovery_active lc"
    and "list_all (stalled base cfg valid) ((c0, t0) # obs @ [(cur, now)])"
  shows "er_status (fst (bzm_running_evidence_track (track_states base cfg started ((c0, t0) # obs) (Some lc))
           (Some base) (Some cur) (Some cfg) started now)) =
         (if t0 \<le> now \<and> unat now < unat t0 + unat (ec_recovery_timeout_ms cfg)
          then BZM_RUNNING_EVIDENCE_GOOD else BZM_RUNNING_EVIDENCE_BAD)"
proof -
  define l where "l = lc\<lparr> lc_recovery_active := True, lc_recovery_started_at_ms := t0,
     lc_last_locally_valid_results := valid - ev_locally_valid_results base \<rparr>"
  have l: "lc_completed_once l" "lc_recovery_active l" "lc_recovery_started_at_ms l = t0"
    "lc_last_locally_valid_results l = valid - ev_locally_valid_results base"
    using assms(1) by (simp_all add: l_def)
  have "snd (bzm_running_evidence_track (Some lc) (Some base) (Some c0) (Some cfg) started t0) = Some l"
    using track_stalled(2)[OF assms(1), of base cfg valid c0 t0 started] assms(2,3) by (simp add: l_def)
  moreover have "track_states base cfg started obs (Some l) = Some l"
    using track_states_stalled[OF l(1,2,4)] assms(3) by simp
  ultimately show ?thesis
    using track_stalled(1)[OF l(1), of base cfg valid cur now started] assms(3) l by simp
qed

lemma stalled_recovery_fails_on_time_witness:
  "er_status (fst (bzm_running_evidence_track
      (track_states zero_stats demo_config 0 [(demo_lost, 2000), (demo_lost, 2299)]
        (Some (fresh_lifecycle\<lparr> lc_completed_once := True \<rparr>)))
      (Some zero_stats) (Some demo_lost) (Some demo_config) 0 2300)) = BZM_RUNNING_EVIDENCE_BAD"
  by (subst stalled_recovery_fails_on_time[where valid = 2])
    (simp_all add: fresh_lifecycle_def stalled_def sound_observation_def in_recovery_def configuration_valid_def
      counter_rolled_back_def demo_config_def demo_proof_def demo_lost_def zero_stats_def)

end
