(* ===== verification/Bridge.thy ===== *)
theory Bridge
  imports Floats "HOL-Library.Monad_Syntax"
begin

text \<open>
  The control protocol of the RP2040 bridge (\<open>components/asic/bzm_bridge.c\<close>): request and response
  frames, the decoders of its payloads with their consistency checks, and the command transaction
  over the UART. The UART driver, the timer and the tick conversion of the ESP-IDF are parameters
  (\<open>uart_ops\<close>) acting on a device state; the static variables of the file are \<open>bridge_static\<close>. An
  operation that waits forever is \<open>None\<close>. A result that the source writes through a pointer only on
  success is the right side of a sum.
\<close>

section \<open>Model: frames\<close>

datatype esp_err_t = ESP_OK | ESP_FAIL | ESP_ERR_INVALID_ARG | ESP_ERR_INVALID_STATE | ESP_ERR_INVALID_SIZE
  | ESP_ERR_NOT_SUPPORTED | ESP_ERR_TIMEOUT | ESP_ERR_INVALID_RESPONSE | ESP_ERR_CODE int

abbreviation BZM_BRIDGE_PAGE_GPIO :: u8 where "BZM_BRIDGE_PAGE_GPIO \<equiv> 0x06"
abbreviation BZM_BRIDGE_PAGE_FAN :: u8 where "BZM_BRIDGE_PAGE_FAN \<equiv> 0x09"
abbreviation BZM_BRIDGE_PAGE_SYSTEM :: u8 where "BZM_BRIDGE_PAGE_SYSTEM \<equiv> 0x00"
abbreviation BZM_BRIDGE_INFO_SCHEMA_VERSION :: u8 where "BZM_BRIDGE_INFO_SCHEMA_VERSION \<equiv> 1"
abbreviation BZM_BRIDGE_VERSION_MAX_LENGTH :: nat where "BZM_BRIDGE_VERSION_MAX_LENGTH \<equiv> 63"
abbreviation BZM_BRIDGE_PROTOCOL_MAJOR :: u8 where "BZM_BRIDGE_PROTOCOL_MAJOR \<equiv> 1"
abbreviation BZM_BRIDGE_RX_STATS_SCHEMA_VERSION :: u8 where "BZM_BRIDGE_RX_STATS_SCHEMA_VERSION \<equiv> 1"
abbreviation BZM_BRIDGE_RX_STATS_LENGTH :: nat where "BZM_BRIDGE_RX_STATS_LENGTH \<equiv> 9"
abbreviation BZM_BRIDGE_SAFETY_STATUS_SCHEMA_VERSION :: u8 where "BZM_BRIDGE_SAFETY_STATUS_SCHEMA_VERSION \<equiv> 1"
abbreviation BZM_BRIDGE_SAFETY_STATUS_LENGTH :: nat where "BZM_BRIDGE_SAFETY_STATUS_LENGTH \<equiv> 17"
abbreviation BZM_BRIDGE_MAX_REQUEST_SIZE :: nat where "BZM_BRIDGE_MAX_REQUEST_SIZE \<equiv> 64"
abbreviation BZM_BRIDGE_MAX_RESPONSE_SIZE :: nat where "BZM_BRIDGE_MAX_RESPONSE_SIZE \<equiv> 260"

text \<open>The encoded frame; the empty list is the source's length zero.\<close>

definition bzm_bridge_encode_request :: "u8 \<Rightarrow> u8 \<Rightarrow> u8 \<Rightarrow> u8 list \<Rightarrow> nat \<Rightarrow> u8 list" where
  "bzm_bridge_encode_request ident page command payload encoded_capacity =
     (let frame_length = length payload + 6
      in if frame_length > 65535 \<or> frame_length > encoded_capacity then []
         else [of_nat (frame_length mod 256), of_nat (frame_length div 256 mod 256), ident, 0, page, command] @ payload)"

definition bzm_bridge_decode_response :: "u8 \<Rightarrow> u8 list \<Rightarrow> esp_err_t + u8 list" where
  "bzm_bridge_decode_response expected_id frame =
     (if length frame < 3 then Inl ESP_ERR_INVALID_ARG
      else
        (let declared_length = unat (frame ! 0) + unat (frame ! 1) * 256; payload = drop 3 frame
         in if declared_length \<noteq> length frame \<or> frame ! 2 \<noteq> expected_id then Inl ESP_ERR_INVALID_RESPONSE
            else if length payload = 1 then
              (if payload ! 0 = 0x10 then Inl ESP_ERR_TIMEOUT
               else if payload ! 0 = 0x11 then Inl ESP_ERR_NOT_SUPPORTED
               else if payload ! 0 = 0x12 \<or> payload ! 0 = 0x13 then Inl ESP_ERR_INVALID_STATE
               else Inr payload)
            else Inr payload))"

record bzm_bridge_info_t =
  bi_schema_version :: u8
  bi_protocol_major :: u8
  bi_protocol_minor :: u8
  bi_version :: "u8 list"

definition bzm_bridge_decode_info :: "u8 list \<Rightarrow> esp_err_t + bzm_bridge_info_t" where
  "bzm_bridge_decode_info payload =
     (if length payload < 4 then Inl ESP_ERR_INVALID_ARG
      else
        (let version_length = unat (payload ! 3)
         in if payload ! 0 \<noteq> BZM_BRIDGE_INFO_SCHEMA_VERSION \<or> version_length = 0 \<or>
               version_length > BZM_BRIDGE_VERSION_MAX_LENGTH \<or> length payload \<noteq> 4 + version_length
            then Inl ESP_ERR_INVALID_RESPONSE
            else if list_ex (\<lambda>i. payload ! (4 + i) < 0x20 \<or> payload ! (4 + i) > 0x7e) [0..<version_length]
            then Inl ESP_ERR_INVALID_RESPONSE
            else Inr \<lparr> bi_schema_version = payload ! 0, bi_protocol_major = payload ! 1,
                   bi_protocol_minor = payload ! 2, bi_version = drop 4 payload \<rparr>))"

definition bzm_bridge_info_supports_safety :: "bzm_bridge_info_t option \<Rightarrow> bool" where
  "bzm_bridge_info_supports_safety info \<longleftrightarrow>
     (case info of None \<Rightarrow> False
      | Some i \<Rightarrow> bi_schema_version i = BZM_BRIDGE_INFO_SCHEMA_VERSION \<and> bi_protocol_major i = BZM_BRIDGE_PROTOCOL_MAJOR)"

definition bzm_bridge_info_supports_raw_rx :: "bzm_bridge_info_t option \<Rightarrow> bool" where
  "bzm_bridge_info_supports_raw_rx info = bzm_bridge_info_supports_safety info"

record bzm_bridge_rx_stats_t =
  rx_valid :: bool
  rx_schema_version :: u8
  rx_pio_fifo_overflows :: u32
  rx_software_ring_overflows :: u32

definition invalidate_rx_stats :: bzm_bridge_rx_stats_t where
  "invalidate_rx_stats = \<lparr> rx_valid = False, rx_schema_version = 0, rx_pio_fifo_overflows = 0,
     rx_software_ring_overflows = 0 \<rparr>"

definition read_le16 :: "u8 list \<Rightarrow> u16" where
  "read_le16 value = ucast (value ! 0) OR push_bit 8 (ucast (value ! 1))"

definition read_le32 :: "u8 list \<Rightarrow> u32" where
  "read_le32 value = ucast (value ! 0) OR push_bit 8 (ucast (value ! 1)) OR push_bit 16 (ucast (value ! 2)) OR
     push_bit 24 (ucast (value ! 3))"

definition bzm_bridge_decode_rx_stats :: "u8 list option \<Rightarrow> esp_err_t \<times> bzm_bridge_rx_stats_t" where
  "bzm_bridge_decode_rx_stats payload_opt =
     (case payload_opt of None \<Rightarrow> (ESP_ERR_INVALID_ARG, invalidate_rx_stats)
      | Some payload \<Rightarrow>
          (if length payload \<noteq> BZM_BRIDGE_RX_STATS_LENGTH \<or> payload ! 0 \<noteq> BZM_BRIDGE_RX_STATS_SCHEMA_VERSION
           then (ESP_ERR_INVALID_RESPONSE, invalidate_rx_stats)
           else (ESP_OK, \<lparr> rx_valid = True, rx_schema_version = payload ! 0,
                   rx_pio_fifo_overflows = read_le32 (drop 1 payload),
                   rx_software_ring_overflows = read_le32 (drop 5 payload) \<rparr>)))"

section \<open>Model: safety status\<close>

abbreviation BZM_BRIDGE_SAFETY_CAP_5V_CONTROL :: u16 where "BZM_BRIDGE_SAFETY_CAP_5V_CONTROL \<equiv> 0x01"
abbreviation BZM_BRIDGE_SAFETY_CAP_ASIC_RESET_CONTROL :: u16 where "BZM_BRIDGE_SAFETY_CAP_ASIC_RESET_CONTROL \<equiv> 0x02"
abbreviation BZM_BRIDGE_SAFETY_CAP_FAN_FORCE_FULL :: u16 where "BZM_BRIDGE_SAFETY_CAP_FAN_FORCE_FULL \<equiv> 0x04"
abbreviation BZM_BRIDGE_SAFETY_CAP_TRIP_INPUT_SAMPLED :: u16 where "BZM_BRIDGE_SAFETY_CAP_TRIP_INPUT_SAMPLED \<equiv> 0x08"
abbreviation BZM_BRIDGE_SAFETY_CAP_CORE_POWER_CUTOFF :: u16 where "BZM_BRIDGE_SAFETY_CAP_CORE_POWER_CUTOFF \<equiv> 0x10"
abbreviation BZM_BRIDGE_SAFETY_CAP_FAN_TACH_INTERLOCK :: u16 where "BZM_BRIDGE_SAFETY_CAP_FAN_TACH_INTERLOCK \<equiv> 0x20"
abbreviation BZM_BRIDGE_SAFETY_CAP_INDEPENDENT_TRIP_MONITOR :: u16 where "BZM_BRIDGE_SAFETY_CAP_INDEPENDENT_TRIP_MONITOR \<equiv> 0x40"
abbreviation BZM_BRIDGE_SAFETY_CAP_FAN_CONTROLLED_SPEED :: u16 where "BZM_BRIDGE_SAFETY_CAP_FAN_CONTROLLED_SPEED \<equiv> 0x80"

abbreviation BZM_BRIDGE_SAFETY_EVIDENCE_OUTPUTS_SAFE :: u16 where "BZM_BRIDGE_SAFETY_EVIDENCE_OUTPUTS_SAFE \<equiv> 0x01"
abbreviation BZM_BRIDGE_SAFETY_EVIDENCE_LEASE_VALID :: u16 where "BZM_BRIDGE_SAFETY_EVIDENCE_LEASE_VALID \<equiv> 0x02"
abbreviation BZM_BRIDGE_SAFETY_EVIDENCE_TRIP_CLEAR :: u16 where "BZM_BRIDGE_SAFETY_EVIDENCE_TRIP_CLEAR \<equiv> 0x04"
abbreviation BZM_BRIDGE_SAFETY_EVIDENCE_FAULT_CLEAR :: u16 where "BZM_BRIDGE_SAFETY_EVIDENCE_FAULT_CLEAR \<equiv> 0x08"
abbreviation BZM_BRIDGE_SAFETY_EVIDENCE_CORE_CUTOFF_AVAILABLE :: u16 where
  "BZM_BRIDGE_SAFETY_EVIDENCE_CORE_CUTOFF_AVAILABLE \<equiv> 0x10"
abbreviation BZM_BRIDGE_SAFETY_EVIDENCE_FAN_TACH_INTERLOCK_AVAILABLE :: u16 where
  "BZM_BRIDGE_SAFETY_EVIDENCE_FAN_TACH_INTERLOCK_AVAILABLE \<equiv> 0x20"
abbreviation BZM_BRIDGE_SAFETY_EVIDENCE_INDEPENDENT_TRIP_MONITOR_AVAILABLE :: u16 where
  "BZM_BRIDGE_SAFETY_EVIDENCE_INDEPENDENT_TRIP_MONITOR_AVAILABLE \<equiv> 0x40"

datatype bzm_bridge_safety_stage_t = BZM_BRIDGE_SAFETY_STAGE_BOOT_SAFE | BZM_BRIDGE_SAFETY_STAGE_LEASE
  | BZM_BRIDGE_SAFETY_STAGE_TRIP_LATCH

datatype bzm_bridge_safety_state_t = BZM_BRIDGE_SAFETY_STATE_SAFE_OFF | BZM_BRIDGE_SAFETY_STATE_CONTROLLED
  | BZM_BRIDGE_SAFETY_STATE_FAULT_LATCHED

datatype bzm_bridge_safety_fault_t = BZM_BRIDGE_SAFETY_FAULT_NONE | BZM_BRIDGE_SAFETY_FAULT_LEASE_EXPIRED
  | BZM_BRIDGE_SAFETY_FAULT_ASIC_TRIP | BZM_BRIDGE_SAFETY_FAULT_STATUS_INVALID

datatype bzm_bridge_safety_runtime_verdict_t = BZM_BRIDGE_SAFETY_RUNTIME_GOOD_SAFE_OFF
  | BZM_BRIDGE_SAFETY_RUNTIME_GOOD_CONTROLLED | BZM_BRIDGE_SAFETY_RUNTIME_BAD_FAULT
  | BZM_BRIDGE_SAFETY_RUNTIME_BAD_LEASE | BZM_BRIDGE_SAFETY_RUNTIME_BAD_TRIP_INPUT
  | BZM_BRIDGE_SAFETY_RUNTIME_BAD_UNSAFE_OUTPUTS

datatype bzm_bridge_safety_production_verdict_t = BZM_BRIDGE_SAFETY_PRODUCTION_GOOD
  | BZM_BRIDGE_SAFETY_PRODUCTION_BAD_STAGE_DISABLED | BZM_BRIDGE_SAFETY_PRODUCTION_BAD_CAPABILITY_GAP
  | BZM_BRIDGE_SAFETY_PRODUCTION_BAD_RUNTIME

text \<open>The numbers of the enumerators.\<close>

primrec safety_stage_code :: "bzm_bridge_safety_stage_t \<Rightarrow> u8" where
  "safety_stage_code BZM_BRIDGE_SAFETY_STAGE_BOOT_SAFE = 0"
| "safety_stage_code BZM_BRIDGE_SAFETY_STAGE_LEASE = 1"
| "safety_stage_code BZM_BRIDGE_SAFETY_STAGE_TRIP_LATCH = 2"

primrec safety_state_code :: "bzm_bridge_safety_state_t \<Rightarrow> u8" where
  "safety_state_code BZM_BRIDGE_SAFETY_STATE_SAFE_OFF = 0"
| "safety_state_code BZM_BRIDGE_SAFETY_STATE_CONTROLLED = 1"
| "safety_state_code BZM_BRIDGE_SAFETY_STATE_FAULT_LATCHED = 2"

primrec safety_fault_code :: "bzm_bridge_safety_fault_t \<Rightarrow> u8" where
  "safety_fault_code BZM_BRIDGE_SAFETY_FAULT_NONE = 0"
| "safety_fault_code BZM_BRIDGE_SAFETY_FAULT_LEASE_EXPIRED = 1"
| "safety_fault_code BZM_BRIDGE_SAFETY_FAULT_ASIC_TRIP = 2"
| "safety_fault_code BZM_BRIDGE_SAFETY_FAULT_STATUS_INVALID = 0xff"

primrec runtime_verdict_code :: "bzm_bridge_safety_runtime_verdict_t \<Rightarrow> u8" where
  "runtime_verdict_code BZM_BRIDGE_SAFETY_RUNTIME_GOOD_SAFE_OFF = 0"
| "runtime_verdict_code BZM_BRIDGE_SAFETY_RUNTIME_GOOD_CONTROLLED = 1"
| "runtime_verdict_code BZM_BRIDGE_SAFETY_RUNTIME_BAD_FAULT = 0x80"
| "runtime_verdict_code BZM_BRIDGE_SAFETY_RUNTIME_BAD_LEASE = 0x81"
| "runtime_verdict_code BZM_BRIDGE_SAFETY_RUNTIME_BAD_TRIP_INPUT = 0x82"
| "runtime_verdict_code BZM_BRIDGE_SAFETY_RUNTIME_BAD_UNSAFE_OUTPUTS = 0x83"

primrec production_verdict_code :: "bzm_bridge_safety_production_verdict_t \<Rightarrow> u8" where
  "production_verdict_code BZM_BRIDGE_SAFETY_PRODUCTION_GOOD = 0"
| "production_verdict_code BZM_BRIDGE_SAFETY_PRODUCTION_BAD_STAGE_DISABLED = 0x80"
| "production_verdict_code BZM_BRIDGE_SAFETY_PRODUCTION_BAD_CAPABILITY_GAP = 0x81"
| "production_verdict_code BZM_BRIDGE_SAFETY_PRODUCTION_BAD_RUNTIME = 0x82"

record bzm_bridge_safety_status_t =
  bs_valid :: bool
  bs_schema_version :: u8
  bs_stage :: bzm_bridge_safety_stage_t
  bs_state :: bzm_bridge_safety_state_t
  bs_fault :: bzm_bridge_safety_fault_t
  bs_runtime_verdict :: bzm_bridge_safety_runtime_verdict_t
  bs_production_verdict :: bzm_bridge_safety_production_verdict_t
  bs_capabilities :: u16
  bs_evidence :: u16
  bs_lease_remaining_ms :: u32
  bs_five_volt_enabled :: bool
  bs_asic_reset_asserted :: bool
  bs_fan_full :: bool
  bs_fan_percent :: u8
  bs_trip_input_asserted :: bool

definition invalidate_safety_status :: bzm_bridge_safety_status_t where
  "invalidate_safety_status = \<lparr> bs_valid = False, bs_schema_version = 0,
     bs_stage = BZM_BRIDGE_SAFETY_STAGE_BOOT_SAFE, bs_state = BZM_BRIDGE_SAFETY_STATE_FAULT_LATCHED,
     bs_fault = BZM_BRIDGE_SAFETY_FAULT_STATUS_INVALID,
     bs_runtime_verdict = BZM_BRIDGE_SAFETY_RUNTIME_BAD_FAULT,
     bs_production_verdict = BZM_BRIDGE_SAFETY_PRODUCTION_BAD_RUNTIME,
     bs_capabilities = 0, bs_evidence = 0, bs_lease_remaining_ms = 0, bs_five_volt_enabled = False,
     bs_asic_reset_asserted = False, bs_fan_full = False, bs_fan_percent = 0, bs_trip_input_asserted = False \<rparr>"

definition valid_safety_stage :: "u8 \<Rightarrow> bool" where
  "valid_safety_stage value \<longleftrightarrow> value \<le> safety_stage_code BZM_BRIDGE_SAFETY_STAGE_TRIP_LATCH"

definition valid_safety_state :: "u8 \<Rightarrow> bool" where
  "valid_safety_state value \<longleftrightarrow> value \<le> safety_state_code BZM_BRIDGE_SAFETY_STATE_FAULT_LATCHED"

definition valid_safety_fault :: "u8 \<Rightarrow> bool" where
  "valid_safety_fault value \<longleftrightarrow> value \<le> safety_fault_code BZM_BRIDGE_SAFETY_FAULT_ASIC_TRIP"

definition valid_runtime_verdict :: "u8 \<Rightarrow> bool" where
  "valid_runtime_verdict value \<longleftrightarrow>
     value = runtime_verdict_code BZM_BRIDGE_SAFETY_RUNTIME_GOOD_SAFE_OFF \<or>
     value = runtime_verdict_code BZM_BRIDGE_SAFETY_RUNTIME_GOOD_CONTROLLED \<or>
     value = runtime_verdict_code BZM_BRIDGE_SAFETY_RUNTIME_BAD_FAULT \<or>
     value = runtime_verdict_code BZM_BRIDGE_SAFETY_RUNTIME_BAD_LEASE \<or>
     value = runtime_verdict_code BZM_BRIDGE_SAFETY_RUNTIME_BAD_TRIP_INPUT \<or>
     value = runtime_verdict_code BZM_BRIDGE_SAFETY_RUNTIME_BAD_UNSAFE_OUTPUTS"

definition valid_production_verdict :: "u8 \<Rightarrow> bool" where
  "valid_production_verdict value \<longleftrightarrow>
     value = production_verdict_code BZM_BRIDGE_SAFETY_PRODUCTION_GOOD \<or>
     value = production_verdict_code BZM_BRIDGE_SAFETY_PRODUCTION_BAD_STAGE_DISABLED \<or>
     value = production_verdict_code BZM_BRIDGE_SAFETY_PRODUCTION_BAD_CAPABILITY_GAP \<or>
     value = production_verdict_code BZM_BRIDGE_SAFETY_PRODUCTION_BAD_RUNTIME"

text \<open>The casts of a validated byte to its enumeration.\<close>

definition safety_stage_cast :: "u8 \<Rightarrow> bzm_bridge_safety_stage_t" where
  "safety_stage_cast v = (if v = 0 then BZM_BRIDGE_SAFETY_STAGE_BOOT_SAFE
     else if v = 1 then BZM_BRIDGE_SAFETY_STAGE_LEASE else BZM_BRIDGE_SAFETY_STAGE_TRIP_LATCH)"

definition safety_state_cast :: "u8 \<Rightarrow> bzm_bridge_safety_state_t" where
  "safety_state_cast v = (if v = 0 then BZM_BRIDGE_SAFETY_STATE_SAFE_OFF
     else if v = 1 then BZM_BRIDGE_SAFETY_STATE_CONTROLLED else BZM_BRIDGE_SAFETY_STATE_FAULT_LATCHED)"

definition safety_fault_cast :: "u8 \<Rightarrow> bzm_bridge_safety_fault_t" where
  "safety_fault_cast v = (if v = 0 then BZM_BRIDGE_SAFETY_FAULT_NONE
     else if v = 1 then BZM_BRIDGE_SAFETY_FAULT_LEASE_EXPIRED
     else if v = 2 then BZM_BRIDGE_SAFETY_FAULT_ASIC_TRIP else BZM_BRIDGE_SAFETY_FAULT_STATUS_INVALID)"

definition runtime_verdict_cast :: "u8 \<Rightarrow> bzm_bridge_safety_runtime_verdict_t" where
  "runtime_verdict_cast v = (if v = 0 then BZM_BRIDGE_SAFETY_RUNTIME_GOOD_SAFE_OFF
     else if v = 1 then BZM_BRIDGE_SAFETY_RUNTIME_GOOD_CONTROLLED
     else if v = 0x80 then BZM_BRIDGE_SAFETY_RUNTIME_BAD_FAULT
     else if v = 0x81 then BZM_BRIDGE_SAFETY_RUNTIME_BAD_LEASE
     else if v = 0x82 then BZM_BRIDGE_SAFETY_RUNTIME_BAD_TRIP_INPUT
     else BZM_BRIDGE_SAFETY_RUNTIME_BAD_UNSAFE_OUTPUTS)"

definition production_verdict_cast :: "u8 \<Rightarrow> bzm_bridge_safety_production_verdict_t" where
  "production_verdict_cast v = (if v = 0 then BZM_BRIDGE_SAFETY_PRODUCTION_GOOD
     else if v = 0x80 then BZM_BRIDGE_SAFETY_PRODUCTION_BAD_STAGE_DISABLED
     else if v = 0x81 then BZM_BRIDGE_SAFETY_PRODUCTION_BAD_CAPABILITY_GAP
     else BZM_BRIDGE_SAFETY_PRODUCTION_BAD_RUNTIME)"

definition known_capabilities :: u16 where
  "known_capabilities = BZM_BRIDGE_SAFETY_CAP_5V_CONTROL OR BZM_BRIDGE_SAFETY_CAP_ASIC_RESET_CONTROL OR
     BZM_BRIDGE_SAFETY_CAP_FAN_FORCE_FULL OR BZM_BRIDGE_SAFETY_CAP_TRIP_INPUT_SAMPLED OR
     BZM_BRIDGE_SAFETY_CAP_CORE_POWER_CUTOFF OR BZM_BRIDGE_SAFETY_CAP_FAN_TACH_INTERLOCK OR
     BZM_BRIDGE_SAFETY_CAP_INDEPENDENT_TRIP_MONITOR OR BZM_BRIDGE_SAFETY_CAP_FAN_CONTROLLED_SPEED"

definition known_evidence :: u16 where
  "known_evidence = BZM_BRIDGE_SAFETY_EVIDENCE_OUTPUTS_SAFE OR BZM_BRIDGE_SAFETY_EVIDENCE_LEASE_VALID OR
     BZM_BRIDGE_SAFETY_EVIDENCE_TRIP_CLEAR OR BZM_BRIDGE_SAFETY_EVIDENCE_FAULT_CLEAR OR
     BZM_BRIDGE_SAFETY_EVIDENCE_CORE_CUTOFF_AVAILABLE OR BZM_BRIDGE_SAFETY_EVIDENCE_FAN_TACH_INTERLOCK_AVAILABLE OR
     BZM_BRIDGE_SAFETY_EVIDENCE_INDEPENDENT_TRIP_MONITOR_AVAILABLE"

definition production_capabilities :: u16 where
  "production_capabilities = BZM_BRIDGE_SAFETY_CAP_CORE_POWER_CUTOFF OR BZM_BRIDGE_SAFETY_CAP_FAN_TACH_INTERLOCK OR
     BZM_BRIDGE_SAFETY_CAP_INDEPENDENT_TRIP_MONITOR"

text \<open>The status the fields of a payload stand for, before the consistency checks.\<close>

definition raw_status :: "u8 list \<Rightarrow> bzm_bridge_safety_status_t" where
  "raw_status payload = \<lparr> bs_valid = True, bs_schema_version = payload ! 0,
     bs_stage = safety_stage_cast (payload ! 1), bs_state = safety_state_cast (payload ! 2),
     bs_fault = safety_fault_cast (payload ! 3), bs_runtime_verdict = runtime_verdict_cast (payload ! 4),
     bs_production_verdict = production_verdict_cast (payload ! 5),
     bs_capabilities = read_le16 (drop 6 payload), bs_evidence = read_le16 (drop 8 payload),
     bs_lease_remaining_ms = read_le32 (drop 10 payload),
     bs_five_volt_enabled = (payload ! 14 AND 0x01 \<noteq> 0), bs_asic_reset_asserted = (payload ! 14 AND 0x02 \<noteq> 0),
     bs_fan_full = (payload ! 14 AND 0x04 \<noteq> 0), bs_fan_percent = payload ! 15,
     bs_trip_input_asserted = (payload ! 16 \<noteq> 0) \<rparr>"

definition malformed_status :: "u8 list \<Rightarrow> bool" where
  "malformed_status payload \<longleftrightarrow>
     payload ! 0 \<noteq> BZM_BRIDGE_SAFETY_STATUS_SCHEMA_VERSION \<or> \<not> valid_safety_stage (payload ! 1) \<or>
     \<not> valid_safety_state (payload ! 2) \<or> \<not> valid_safety_fault (payload ! 3) \<or>
     \<not> valid_runtime_verdict (payload ! 4) \<or> \<not> valid_production_verdict (payload ! 5) \<or>
     read_le16 (drop 6 payload) AND NOT known_capabilities \<noteq> 0 \<or>
     read_le16 (drop 8 payload) AND NOT known_evidence \<noteq> 0 \<or>
     payload ! 14 AND NOT 0x07 \<noteq> 0 \<or> payload ! 15 > 100 \<or> payload ! 16 > 1"

definition status_outputs_safe :: "bzm_bridge_safety_status_t \<Rightarrow> bool" where
  "status_outputs_safe s \<longleftrightarrow> \<not> bs_five_volt_enabled s \<and> bs_asic_reset_asserted s \<and> bs_fan_percent s = 100"

definition status_lease_valid :: "bzm_bridge_safety_status_t \<Rightarrow> bool" where
  "status_lease_valid s \<longleftrightarrow> bs_stage s = BZM_BRIDGE_SAFETY_STAGE_BOOT_SAFE \<or>
     (bs_state s = BZM_BRIDGE_SAFETY_STATE_CONTROLLED \<and> bs_lease_remaining_ms s > 0)"

definition evidence_contradicts :: "bzm_bridge_safety_status_t \<Rightarrow> bool" where
  "evidence_contradicts s \<longleftrightarrow>
     bs_fan_full s \<noteq> (bs_fan_percent s = 100) \<or>
     (bs_evidence s AND BZM_BRIDGE_SAFETY_EVIDENCE_OUTPUTS_SAFE \<noteq> 0) \<noteq> status_outputs_safe s \<or>
     (bs_evidence s AND BZM_BRIDGE_SAFETY_EVIDENCE_LEASE_VALID \<noteq> 0) \<noteq> status_lease_valid s \<or>
     (bs_evidence s AND BZM_BRIDGE_SAFETY_EVIDENCE_TRIP_CLEAR \<noteq> 0) = bs_trip_input_asserted s \<or>
     (bs_evidence s AND BZM_BRIDGE_SAFETY_EVIDENCE_FAULT_CLEAR \<noteq> 0) \<noteq> (bs_fault s = BZM_BRIDGE_SAFETY_FAULT_NONE) \<or>
     bs_evidence s AND production_capabilities \<noteq> bs_capabilities s AND production_capabilities"

definition state_contradicts :: "bzm_bridge_safety_status_t \<Rightarrow> bool" where
  "state_contradicts s \<longleftrightarrow>
     (let fault_latched = (bs_state s = BZM_BRIDGE_SAFETY_STATE_FAULT_LATCHED);
          fault_clear = (bs_fault s = BZM_BRIDGE_SAFETY_FAULT_NONE)
      in fault_latched \<noteq> (\<not> fault_clear) \<or>
         (bs_state s = BZM_BRIDGE_SAFETY_STATE_SAFE_OFF \<and> \<not> status_outputs_safe s) \<or>
         (fault_latched \<and> (\<not> status_outputs_safe s \<or> bs_lease_remaining_ms s \<noteq> 0)) \<or>
         (bs_stage s = BZM_BRIDGE_SAFETY_STAGE_BOOT_SAFE \<and> (bs_lease_remaining_ms s \<noteq> 0 \<or> fault_latched)) \<or>
         (bs_stage s \<noteq> BZM_BRIDGE_SAFETY_STAGE_BOOT_SAFE \<and> bs_state s \<noteq> BZM_BRIDGE_SAFETY_STATE_CONTROLLED \<and>
          bs_lease_remaining_ms s \<noteq> 0) \<or>
         (bs_stage s = BZM_BRIDGE_SAFETY_STAGE_LEASE \<and> bs_fault s = BZM_BRIDGE_SAFETY_FAULT_ASIC_TRIP) \<or>
         (bs_stage s = BZM_BRIDGE_SAFETY_STAGE_TRIP_LATCH \<and> bs_trip_input_asserted s \<and> \<not> fault_latched))"

definition expected_runtime :: "bzm_bridge_safety_status_t \<Rightarrow> bzm_bridge_safety_runtime_verdict_t" where
  "expected_runtime s =
     (if bs_fault s \<noteq> BZM_BRIDGE_SAFETY_FAULT_NONE then BZM_BRIDGE_SAFETY_RUNTIME_BAD_FAULT
      else if bs_trip_input_asserted s then BZM_BRIDGE_SAFETY_RUNTIME_BAD_TRIP_INPUT
      else if bs_state s = BZM_BRIDGE_SAFETY_STATE_SAFE_OFF then BZM_BRIDGE_SAFETY_RUNTIME_GOOD_SAFE_OFF
      else if bs_stage s \<noteq> BZM_BRIDGE_SAFETY_STAGE_BOOT_SAFE \<and> \<not> status_lease_valid s
      then BZM_BRIDGE_SAFETY_RUNTIME_BAD_LEASE else BZM_BRIDGE_SAFETY_RUNTIME_GOOD_CONTROLLED)"

definition expected_production :: "bzm_bridge_safety_status_t \<Rightarrow> bzm_bridge_safety_production_verdict_t" where
  "expected_production s =
     (let runtime_good = (bs_runtime_verdict s = BZM_BRIDGE_SAFETY_RUNTIME_GOOD_SAFE_OFF \<or>
                          bs_runtime_verdict s = BZM_BRIDGE_SAFETY_RUNTIME_GOOD_CONTROLLED)
      in if bs_stage s \<noteq> BZM_BRIDGE_SAFETY_STAGE_TRIP_LATCH then BZM_BRIDGE_SAFETY_PRODUCTION_BAD_STAGE_DISABLED
         else if \<not> runtime_good then BZM_BRIDGE_SAFETY_PRODUCTION_BAD_RUNTIME
         else if bs_capabilities s \<noteq> known_capabilities then BZM_BRIDGE_SAFETY_PRODUCTION_BAD_CAPABILITY_GAP
         else BZM_BRIDGE_SAFETY_PRODUCTION_GOOD)"

definition bzm_bridge_decode_safety_status :: "u8 list option \<Rightarrow> esp_err_t \<times> bzm_bridge_safety_status_t" where
  "bzm_bridge_decode_safety_status payload_opt =
     (case payload_opt of None \<Rightarrow> (ESP_ERR_INVALID_ARG, invalidate_safety_status)
      | Some payload \<Rightarrow>
          (if length payload \<noteq> BZM_BRIDGE_SAFETY_STATUS_LENGTH then (ESP_ERR_INVALID_RESPONSE, invalidate_safety_status)
           else if malformed_status payload then (ESP_ERR_INVALID_RESPONSE, invalidate_safety_status)
           else
             (let s = raw_status payload
              in if evidence_contradicts s then (ESP_ERR_INVALID_RESPONSE, invalidate_safety_status)
                 else if state_contradicts s then (ESP_ERR_INVALID_RESPONSE, invalidate_safety_status)
                 else if bs_runtime_verdict s \<noteq> expected_runtime s then (ESP_ERR_INVALID_RESPONSE, invalidate_safety_status)
                 else if bs_production_verdict s \<noteq> expected_production s then (ESP_ERR_INVALID_RESPONSE, invalidate_safety_status)
                 else (ESP_OK, s))))"

definition bzm_bridge_safety_status_allows_fault_clear :: "bzm_bridge_safety_status_t option \<Rightarrow> bool" where
  "bzm_bridge_safety_status_allows_fault_clear status \<longleftrightarrow>
     (case status of None \<Rightarrow> False
      | Some s \<Rightarrow> bs_valid s \<and> \<not> bs_five_volt_enabled s \<and> bs_asic_reset_asserted s \<and> bs_fan_full s \<and>
          bs_fan_percent s = 100 \<and> \<not> bs_trip_input_asserted s)"

section \<open>Model: transactions\<close>

text \<open>
  The driver functions the file calls. \<open>uo_time\<close> is \<open>esp_timer_get_time\<close>; \<open>uo_read\<close> is
  \<open>uart_read_bytes\<close> with a byte limit and a tick limit, \<open>None\<close> for its negative result; \<open>uo_ticks\<close> is
  \<open>pdMS_TO_TICKS\<close>.
\<close>

record 'c uart_ops =
  uo_time :: "'c \<Rightarrow> int \<times> 'c"
  uo_read :: "nat \<Rightarrow> nat \<Rightarrow> 'c \<Rightarrow> u8 list option \<times> 'c"
  uo_flush :: "'c \<Rightarrow> 'c"
  uo_write :: "u8 list \<Rightarrow> 'c \<Rightarrow> int \<times> 'c"
  uo_wait_tx_done :: "nat \<Rightarrow> 'c \<Rightarrow> esp_err_t \<times> 'c"
  uo_param_config :: "'c \<Rightarrow> esp_err_t \<times> 'c"
  uo_set_pin :: "'c \<Rightarrow> esp_err_t \<times> 'c"
  uo_install :: "'c \<Rightarrow> esp_err_t \<times> 'c"
  uo_delete :: "'c \<Rightarrow> 'c"
  uo_delay :: "nat \<Rightarrow> 'c \<Rightarrow> 'c"
  uo_ticks :: "int \<Rightarrow> nat"

record bridge_static =
  st_initialized :: bool
  st_maintenance :: bool
  st_next_command_id :: u8

text \<open>The waiting loop of \<open>read_exact\<close>: the bytes received so far are carried along.\<close>

partial_function (option) read_loop ::
    "'c uart_ops \<Rightarrow> int \<Rightarrow> nat \<Rightarrow> u8 list \<Rightarrow> 'c \<Rightarrow> ((esp_err_t + u8 list) \<times> 'c) option" where
  "read_loop ops deadline n received c =
     (if length received < n
      then
        (let (t, c1) = uo_time ops c; remaining_us = deadline - t
         in if remaining_us \<le> 0 then Some (Inl ESP_ERR_TIMEOUT, c1)
            else
              (let ticks = uo_ticks ops ((remaining_us + 999) div 1000);
                   ticks = (if ticks = 0 then 1 else ticks);
                   (r, c2) = uo_read ops (n - length received) ticks c1
               in case r of None \<Rightarrow> Some (Inl ESP_FAIL, c2)
                  | Some bytes \<Rightarrow> read_loop ops deadline n (received @ bytes) c2))
      else Some (Inr received, c))"

definition read_exact :: "'c uart_ops \<Rightarrow> nat \<Rightarrow> nat \<Rightarrow> 'c \<Rightarrow> ((esp_err_t + u8 list) \<times> 'c) option" where
  "read_exact ops n timeout_ms c =
     (let (t, c1) = uo_time ops c in read_loop ops (t + int timeout_ms * 1000) n [] c1)"

type_synonym ('a, 'c) bridge_op = "bridge_static \<times> 'c \<Rightarrow> ((esp_err_t + 'a) \<times> bridge_static \<times> 'c) option"

text \<open>Receiving and checking the response to command \<open>command_id\<close>.\<close>

definition receive_response :: "'c uart_ops \<Rightarrow> u8 \<Rightarrow> nat \<Rightarrow> nat \<Rightarrow> 'c \<Rightarrow> ((esp_err_t + u8 list) \<times> 'c) option" where
  "receive_response ops command_id response_capacity timeout_ms c =
     do {
       (r, c) \<leftarrow> read_exact ops 3 timeout_ms c;
       (case r of Inl err \<Rightarrow> Some (Inl err, c)
        | Inr header \<Rightarrow>
            (let frame_length = unat (header ! 0) + unat (header ! 1) * 256
             in if frame_length < 3 \<or> frame_length > BZM_BRIDGE_MAX_RESPONSE_SIZE
                then Some (Inl ESP_ERR_INVALID_RESPONSE, c)
                else do {
                  (r, c) \<leftarrow> read_exact ops (frame_length - 3) timeout_ms c;
                  (case r of Inl err \<Rightarrow> Some (Inl err, c)
                   | Inr body \<Rightarrow>
                       (case bzm_bridge_decode_response command_id (header @ body) of
                          Inl err \<Rightarrow> Some (Inl err, c)
                        | Inr payload \<Rightarrow>
                            Some (if length payload > response_capacity then Inl ESP_ERR_INVALID_SIZE else Inr payload, c)))
                }))
     }"

definition transact :: "'c uart_ops \<Rightarrow> u8 \<Rightarrow> u8 \<Rightarrow> u8 list \<Rightarrow> nat \<Rightarrow> nat \<Rightarrow> (u8 list, 'c) bridge_op" where
  "transact ops page command request_payload response_capacity timeout_ms = (\<lambda>(st, c).
     if \<not> st_initialized st \<or> st_maintenance st then Some (Inl ESP_ERR_INVALID_STATE, st, c)
     else
       (let command_id = st_next_command_id st;
            st = st\<lparr> st_next_command_id := command_id + 1 \<rparr>;
            request = bzm_bridge_encode_request command_id page command request_payload BZM_BRIDGE_MAX_REQUEST_SIZE
        in if request = [] then Some (Inl ESP_ERR_INVALID_SIZE, st, c)
           else
             (let c = uo_flush ops c; (written, c) = uo_write ops request c
              in if written \<noteq> int (length request) then Some (Inl ESP_FAIL, st, c)
                 else
                   (let (err, c) = uo_wait_tx_done ops (uo_ticks ops 100) c
                    in if err \<noteq> ESP_OK then Some (Inl err, st, c)
                       else do {
                         (r, c) \<leftarrow> receive_response ops command_id response_capacity timeout_ms c;
                         Some (r, st, c)
                       }))))"

definition set_gpio :: "'c uart_ops \<Rightarrow> u8 \<Rightarrow> bool \<Rightarrow> (unit, 'c) bridge_op" where
  "set_gpio ops command high s =
     (let request = (if high then 1 else 0)
      in do {
        (r, s) \<leftarrow> transact ops BZM_BRIDGE_PAGE_GPIO command [request] 1 200 s;
        Some (case r of Inl err \<Rightarrow> Inl err
              | Inr response \<Rightarrow> (if length response = 1 \<and> response ! 0 = request then Inr ()
                               else Inl ESP_ERR_INVALID_RESPONSE), s)
      })"

definition get_gpio :: "'c uart_ops \<Rightarrow> u8 \<Rightarrow> (bool, 'c) bridge_op" where
  "get_gpio ops command s =
     do {
       (r, s) \<leftarrow> transact ops BZM_BRIDGE_PAGE_GPIO command [] 1 200 s;
       Some (case r of Inl err \<Rightarrow> Inl err
             | Inr response \<Rightarrow> (if length response \<noteq> 1 \<or> response ! 0 > 1 then Inl ESP_ERR_INVALID_RESPONSE
                              else Inr (response ! 0 \<noteq> 0)), s)
     }"

abbreviation BZM_BRIDGE_GPIO_5V_ENABLE :: u8 where "BZM_BRIDGE_GPIO_5V_ENABLE \<equiv> 0x01"
abbreviation BZM_BRIDGE_GPIO_ASIC_RESET :: u8 where "BZM_BRIDGE_GPIO_ASIC_RESET \<equiv> 0x02"
abbreviation BZM_BRIDGE_GPIO_ASIC_TRIP :: u8 where "BZM_BRIDGE_GPIO_ASIC_TRIP \<equiv> 0x03"

definition BZM_bridge_set_5v_enabled :: "'c uart_ops \<Rightarrow> bool \<Rightarrow> (unit, 'c) bridge_op" where
  "BZM_bridge_set_5v_enabled ops enabled = set_gpio ops BZM_BRIDGE_GPIO_5V_ENABLE enabled"

definition BZM_bridge_set_asic_reset :: "'c uart_ops \<Rightarrow> bool \<Rightarrow> (unit, 'c) bridge_op" where
  "BZM_bridge_set_asic_reset ops high = set_gpio ops BZM_BRIDGE_GPIO_ASIC_RESET high"

text \<open>The set-up of the UART driver: each call only after the previous one succeeded.\<close>

definition uart_setup :: "'c uart_ops \<Rightarrow> 'c \<Rightarrow> esp_err_t \<times> 'c" where
  "uart_setup ops c =
     (let (err, c) = uo_param_config ops c;
          (err, c) = (if err = ESP_OK then uo_set_pin ops c else (err, c))
      in if err = ESP_OK then uo_install ops c else (err, c))"

definition BZM_bridge_init :: "'c uart_ops \<Rightarrow> (unit, 'c) bridge_op" where
  "BZM_bridge_init ops = (\<lambda>(st, c).
     if st_maintenance st then Some (Inl ESP_ERR_INVALID_STATE, st, c)
     else if st_initialized st then Some (Inr (), st, c)
     else
       (let (err, c) = uart_setup ops c
        in if err \<noteq> ESP_OK then Some (Inl err, st, c)
           else do {
             (r, st, c) \<leftarrow> BZM_bridge_set_5v_enabled ops False (st\<lparr> st_initialized := True \<rparr>, c);
             (r, st, c) \<leftarrow> (case r of Inr _ \<Rightarrow> BZM_bridge_set_asic_reset ops False (st, c) | Inl err \<Rightarrow> Some (r, st, c));
             (case r of Inl err \<Rightarrow> Some (Inl err, st\<lparr> st_initialized := False \<rparr>, uo_delete ops c)
              | Inr _ \<Rightarrow> Some (Inr (), st, c))
           }))"

definition BZM_bridge_begin_maintenance :: "'c uart_ops \<Rightarrow> (unit, 'c) bridge_op" where
  "BZM_bridge_begin_maintenance ops = (\<lambda>(st, c).
     if st_maintenance st then Some (Inl ESP_ERR_INVALID_STATE, st, c)
     else
       (let st = st\<lparr> st_maintenance := True \<rparr>
        in if st_initialized st then Some (Inr (), st\<lparr> st_initialized := False \<rparr>, uo_delete ops c)
           else Some (Inr (), st, c)))"

definition BZM_bridge_end_maintenance :: "'c uart_ops \<Rightarrow> (unit, 'c) bridge_op" where
  "BZM_bridge_end_maintenance ops = (\<lambda>(st, c).
     if \<not> st_maintenance st then Some (Inl ESP_ERR_INVALID_STATE, st, c)
     else BZM_bridge_init ops (st\<lparr> st_maintenance := False \<rparr>, c))"

definition BZM_bridge_is_initialized :: "bridge_static \<Rightarrow> bool" where
  "BZM_bridge_is_initialized st = st_initialized st"

definition BZM_bridge_get_info :: "'c uart_ops \<Rightarrow> (bzm_bridge_info_t, 'c) bridge_op" where
  "BZM_bridge_get_info ops s =
     do {
       (r, s) \<leftarrow> transact ops BZM_BRIDGE_PAGE_SYSTEM 0x01 [] (BZM_BRIDGE_VERSION_MAX_LENGTH + 4) 500 s;
       Some (case r of Inl err \<Rightarrow> Inl err | Inr response \<Rightarrow> bzm_bridge_decode_info response, s)
     }"

text \<open>The status and statistics commands write their result also on failure, invalidated.\<close>

definition BZM_bridge_get_rx_stats ::
    "'c uart_ops \<Rightarrow> bridge_static \<times> 'c \<Rightarrow> ((esp_err_t \<times> bzm_bridge_rx_stats_t) \<times> bridge_static \<times> 'c) option" where
  "BZM_bridge_get_rx_stats ops s =
     do {
       (r, s) \<leftarrow> transact ops BZM_BRIDGE_PAGE_SYSTEM 0x02 [] BZM_BRIDGE_RX_STATS_LENGTH 500 s;
       Some (case r of
               Inl err \<Rightarrow> (if err = ESP_ERR_INVALID_SIZE then ESP_ERR_INVALID_RESPONSE else err, invalidate_rx_stats)
             | Inr response \<Rightarrow> bzm_bridge_decode_rx_stats (Some response), s)
     }"

definition safety_command ::
    "'c uart_ops \<Rightarrow> u8 \<Rightarrow> bridge_static \<times> 'c \<Rightarrow> ((esp_err_t \<times> bzm_bridge_safety_status_t) \<times> bridge_static \<times> 'c) option" where
  "safety_command ops command s =
     do {
       (r, s) \<leftarrow> transact ops BZM_BRIDGE_PAGE_SYSTEM command [] BZM_BRIDGE_SAFETY_STATUS_LENGTH 500 s;
       Some (case r of
               Inl err \<Rightarrow> (if err = ESP_ERR_INVALID_SIZE then ESP_ERR_INVALID_RESPONSE else err, invalidate_safety_status)
             | Inr response \<Rightarrow> bzm_bridge_decode_safety_status (Some response), s)
     }"

definition BZM_bridge_get_safety_status where "BZM_bridge_get_safety_status ops = safety_command ops 0x10"
definition BZM_bridge_arm_safety where "BZM_bridge_arm_safety ops = safety_command ops 0x11"
definition BZM_bridge_safety_heartbeat where "BZM_bridge_safety_heartbeat ops = safety_command ops 0x12"
definition BZM_bridge_clear_safety_fault where "BZM_bridge_clear_safety_fault ops = safety_command ops 0x13"
definition BZM_bridge_disarm_safety where "BZM_bridge_disarm_safety ops = safety_command ops 0x14"

definition BZM_bridge_pulse_asic_reset :: "'c uart_ops \<Rightarrow> (unit, 'c) bridge_op" where
  "BZM_bridge_pulse_asic_reset ops s =
     do {
       (r, st, c) \<leftarrow> BZM_bridge_set_asic_reset ops False s;
       (case r of Inl err \<Rightarrow> Some (Inl err, st, c)
        | Inr _ \<Rightarrow> do {
            (r, st, c) \<leftarrow> BZM_bridge_set_asic_reset ops True (st, uo_delay ops (uo_ticks ops 100) c);
            (case r of Inl err \<Rightarrow> Some (Inl err, st, c)
             | Inr _ \<Rightarrow> Some (Inr (), st, uo_delay ops (uo_ticks ops 100) c))
          })
     }"

definition BZM_bridge_get_asic_trip :: "'c uart_ops \<Rightarrow> (bool, 'c) bridge_op" where
  "BZM_bridge_get_asic_trip ops = get_gpio ops BZM_BRIDGE_GPIO_ASIC_TRIP"

text \<open>\<open>lroundf\<close>: to nearest, halves away from zero.\<close>

definition lroundf :: "cfloat \<Rightarrow> int" where
  "lroundf x = (case x of Fin a \<Rightarrow> (if 0 \<le> a then \<lfloor>a + 1 / 2\<rfloor> else - \<lfloor>1 / 2 - a\<rfloor>) | _ \<Rightarrow> 0)"

definition BZM_bridge_set_fan_percent :: "'c uart_ops \<Rightarrow> cfloat \<Rightarrow> (unit, 'c) bridge_op" where
  "BZM_bridge_set_fan_percent ops percent s =
     (if \<not> isfinite percent \<or> flt_lt percent (Fin 0) \<or> flt_lt (Fin 1) percent then Some (Inl ESP_ERR_INVALID_ARG, s)
      else do {
        (r, s) \<leftarrow> transact ops BZM_BRIDGE_PAGE_FAN 0x10 [of_int (lroundf (flt_mul percent (Fin 100)))] 1 200 s;
        Some (case r of Inl err \<Rightarrow> Inl err
              | Inr response \<Rightarrow> (if length response = 1 \<and> response ! 0 = 0 then Inr ()
                               else Inl ESP_ERR_INVALID_RESPONSE), s)
      })"

definition BZM_bridge_get_fan_rpm :: "'c uart_ops \<Rightarrow> (u16, 'c) bridge_op" where
  "BZM_bridge_get_fan_rpm ops s =
     do {
       (r, s) \<leftarrow> transact ops BZM_BRIDGE_PAGE_FAN 0x20 [] 2 1000 s;
       Some (case r of Inl err \<Rightarrow> Inl err
             | Inr response \<Rightarrow> (if length response \<noteq> 2 then Inl ESP_ERR_INVALID_RESPONSE
                              else Inr (ucast (response ! 0) OR push_bit 8 (ucast (response ! 1)))), s)
     }"

section \<open>Status payloads\<close>

definition encode_flags :: "bzm_bridge_safety_status_t \<Rightarrow> u8" where
  "encode_flags s = (if bs_five_volt_enabled s then 1 else 0) OR (if bs_asic_reset_asserted s then 2 else 0) OR
     (if bs_fan_full s then 4 else 0)"

text \<open>The payload the bridge sends for a status, its numbers written out.\<close>

definition encode_status :: "bzm_bridge_safety_status_t \<Rightarrow> u8 list" where
  "encode_status s =
     [bs_schema_version s,
      case bs_stage s of BZM_BRIDGE_SAFETY_STAGE_BOOT_SAFE \<Rightarrow> 0 | BZM_BRIDGE_SAFETY_STAGE_LEASE \<Rightarrow> 1
        | BZM_BRIDGE_SAFETY_STAGE_TRIP_LATCH \<Rightarrow> 2,
      case bs_state s of BZM_BRIDGE_SAFETY_STATE_SAFE_OFF \<Rightarrow> 0 | BZM_BRIDGE_SAFETY_STATE_CONTROLLED \<Rightarrow> 1
        | BZM_BRIDGE_SAFETY_STATE_FAULT_LATCHED \<Rightarrow> 2,
      case bs_fault s of BZM_BRIDGE_SAFETY_FAULT_NONE \<Rightarrow> 0 | BZM_BRIDGE_SAFETY_FAULT_LEASE_EXPIRED \<Rightarrow> 1
        | BZM_BRIDGE_SAFETY_FAULT_ASIC_TRIP \<Rightarrow> 2 | BZM_BRIDGE_SAFETY_FAULT_STATUS_INVALID \<Rightarrow> 0xff,
      case bs_runtime_verdict s of BZM_BRIDGE_SAFETY_RUNTIME_GOOD_SAFE_OFF \<Rightarrow> 0
        | BZM_BRIDGE_SAFETY_RUNTIME_GOOD_CONTROLLED \<Rightarrow> 1 | BZM_BRIDGE_SAFETY_RUNTIME_BAD_FAULT \<Rightarrow> 0x80
        | BZM_BRIDGE_SAFETY_RUNTIME_BAD_LEASE \<Rightarrow> 0x81 | BZM_BRIDGE_SAFETY_RUNTIME_BAD_TRIP_INPUT \<Rightarrow> 0x82
        | BZM_BRIDGE_SAFETY_RUNTIME_BAD_UNSAFE_OUTPUTS \<Rightarrow> 0x83,
      case bs_production_verdict s of BZM_BRIDGE_SAFETY_PRODUCTION_GOOD \<Rightarrow> 0
        | BZM_BRIDGE_SAFETY_PRODUCTION_BAD_STAGE_DISABLED \<Rightarrow> 0x80
        | BZM_BRIDGE_SAFETY_PRODUCTION_BAD_CAPABILITY_GAP \<Rightarrow> 0x81 | BZM_BRIDGE_SAFETY_PRODUCTION_BAD_RUNTIME \<Rightarrow> 0x82] @
     le_bytes 2 (bs_capabilities s) @ le_bytes 2 (bs_evidence s) @ le_bytes 4 (bs_lease_remaining_ms s) @
     [encode_flags s, bs_fan_percent s, if bs_trip_input_asserted s then 1 else 0]"

lemma encode_status_codes:
  "encode_status s =
     [bs_schema_version s, safety_stage_code (bs_stage s), safety_state_code (bs_state s), safety_fault_code (bs_fault s),
      runtime_verdict_code (bs_runtime_verdict s), production_verdict_code (bs_production_verdict s)] @
     le_bytes 2 (bs_capabilities s) @ le_bytes 2 (bs_evidence s) @ le_bytes 4 (bs_lease_remaining_ms s) @
     [encode_flags s, bs_fan_percent s, if bs_trip_input_asserted s then 1 else 0]"
proof -
  have "(case st of BZM_BRIDGE_SAFETY_STAGE_BOOT_SAFE \<Rightarrow> 0 | BZM_BRIDGE_SAFETY_STAGE_LEASE \<Rightarrow> 1
      | BZM_BRIDGE_SAFETY_STAGE_TRIP_LATCH \<Rightarrow> 2) = safety_stage_code st" for st by (cases st) simp_all
  moreover have "(case st of BZM_BRIDGE_SAFETY_STATE_SAFE_OFF \<Rightarrow> 0 | BZM_BRIDGE_SAFETY_STATE_CONTROLLED \<Rightarrow> 1
      | BZM_BRIDGE_SAFETY_STATE_FAULT_LATCHED \<Rightarrow> 2) = safety_state_code st" for st by (cases st) simp_all
  moreover have "(case f of BZM_BRIDGE_SAFETY_FAULT_NONE \<Rightarrow> 0 | BZM_BRIDGE_SAFETY_FAULT_LEASE_EXPIRED \<Rightarrow> 1
      | BZM_BRIDGE_SAFETY_FAULT_ASIC_TRIP \<Rightarrow> 2 | BZM_BRIDGE_SAFETY_FAULT_STATUS_INVALID \<Rightarrow> 0xff) = safety_fault_code f" for f
    by (cases f) simp_all
  moreover have "(case v of BZM_BRIDGE_SAFETY_RUNTIME_GOOD_SAFE_OFF \<Rightarrow> 0
      | BZM_BRIDGE_SAFETY_RUNTIME_GOOD_CONTROLLED \<Rightarrow> 1 | BZM_BRIDGE_SAFETY_RUNTIME_BAD_FAULT \<Rightarrow> 0x80
      | BZM_BRIDGE_SAFETY_RUNTIME_BAD_LEASE \<Rightarrow> 0x81 | BZM_BRIDGE_SAFETY_RUNTIME_BAD_TRIP_INPUT \<Rightarrow> 0x82
      | BZM_BRIDGE_SAFETY_RUNTIME_BAD_UNSAFE_OUTPUTS \<Rightarrow> 0x83) = runtime_verdict_code v" for v by (cases v) simp_all
  moreover have "(case v of BZM_BRIDGE_SAFETY_PRODUCTION_GOOD \<Rightarrow> 0
      | BZM_BRIDGE_SAFETY_PRODUCTION_BAD_STAGE_DISABLED \<Rightarrow> 0x80
      | BZM_BRIDGE_SAFETY_PRODUCTION_BAD_CAPABILITY_GAP \<Rightarrow> 0x81
      | BZM_BRIDGE_SAFETY_PRODUCTION_BAD_RUNTIME \<Rightarrow> 0x82) = production_verdict_code v" for v by (cases v) simp_all
  ultimately show ?thesis unfolding encode_status_def by simp
qed

text \<open>
  What each verdict of the bridge says of the board. The runtime verdicts: a fault is latched; no fault, but
  the trip input is asserted; off and safe; controlled under a running lease, which the boot-safe stage does
  not need; controlled although the lease has run out. No status has the verdict of unsafe outputs, since a
  bridge that has lost its outputs latches a fault. The production verdicts are about the trip latch stage
  only, and a good one needs all eight capabilities.
\<close>

primrec runtime_verdict_means :: "bzm_bridge_safety_runtime_verdict_t \<Rightarrow> bzm_bridge_safety_status_t \<Rightarrow> bool" where
  "runtime_verdict_means BZM_BRIDGE_SAFETY_RUNTIME_BAD_FAULT s \<longleftrightarrow> bs_fault s \<noteq> BZM_BRIDGE_SAFETY_FAULT_NONE"
| "runtime_verdict_means BZM_BRIDGE_SAFETY_RUNTIME_BAD_TRIP_INPUT s \<longleftrightarrow>
     bs_fault s = BZM_BRIDGE_SAFETY_FAULT_NONE \<and> bs_trip_input_asserted s"
| "runtime_verdict_means BZM_BRIDGE_SAFETY_RUNTIME_GOOD_SAFE_OFF s \<longleftrightarrow>
     bs_fault s = BZM_BRIDGE_SAFETY_FAULT_NONE \<and> \<not> bs_trip_input_asserted s \<and> bs_state s = BZM_BRIDGE_SAFETY_STATE_SAFE_OFF"
| "runtime_verdict_means BZM_BRIDGE_SAFETY_RUNTIME_GOOD_CONTROLLED s \<longleftrightarrow>
     bs_fault s = BZM_BRIDGE_SAFETY_FAULT_NONE \<and> \<not> bs_trip_input_asserted s \<and> bs_state s = BZM_BRIDGE_SAFETY_STATE_CONTROLLED \<and>
     (bs_stage s = BZM_BRIDGE_SAFETY_STAGE_BOOT_SAFE \<or> 0 < bs_lease_remaining_ms s)"
| "runtime_verdict_means BZM_BRIDGE_SAFETY_RUNTIME_BAD_LEASE s \<longleftrightarrow>
     bs_fault s = BZM_BRIDGE_SAFETY_FAULT_NONE \<and> \<not> bs_trip_input_asserted s \<and> bs_state s = BZM_BRIDGE_SAFETY_STATE_CONTROLLED \<and>
     bs_stage s \<noteq> BZM_BRIDGE_SAFETY_STAGE_BOOT_SAFE \<and> bs_lease_remaining_ms s = 0"
| "runtime_verdict_means BZM_BRIDGE_SAFETY_RUNTIME_BAD_UNSAFE_OUTPUTS s \<longleftrightarrow> False"

primrec production_verdict_means :: "bzm_bridge_safety_production_verdict_t \<Rightarrow> bzm_bridge_safety_status_t \<Rightarrow> bool" where
  "production_verdict_means BZM_BRIDGE_SAFETY_PRODUCTION_BAD_STAGE_DISABLED s \<longleftrightarrow>
     bs_stage s \<noteq> BZM_BRIDGE_SAFETY_STAGE_TRIP_LATCH"
| "production_verdict_means BZM_BRIDGE_SAFETY_PRODUCTION_BAD_RUNTIME s \<longleftrightarrow>
     bs_stage s = BZM_BRIDGE_SAFETY_STAGE_TRIP_LATCH \<and>
     \<not> bs_runtime_verdict s \<in> {BZM_BRIDGE_SAFETY_RUNTIME_GOOD_SAFE_OFF, BZM_BRIDGE_SAFETY_RUNTIME_GOOD_CONTROLLED}"
| "production_verdict_means BZM_BRIDGE_SAFETY_PRODUCTION_BAD_CAPABILITY_GAP s \<longleftrightarrow>
     bs_stage s = BZM_BRIDGE_SAFETY_STAGE_TRIP_LATCH \<and>
     bs_runtime_verdict s \<in> {BZM_BRIDGE_SAFETY_RUNTIME_GOOD_SAFE_OFF, BZM_BRIDGE_SAFETY_RUNTIME_GOOD_CONTROLLED} \<and>
     (\<exists>n < 8. \<not> bit (bs_capabilities s) n)"
| "production_verdict_means BZM_BRIDGE_SAFETY_PRODUCTION_GOOD s \<longleftrightarrow>
     bs_stage s = BZM_BRIDGE_SAFETY_STAGE_TRIP_LATCH \<and>
     bs_runtime_verdict s \<in> {BZM_BRIDGE_SAFETY_RUNTIME_GOOD_SAFE_OFF, BZM_BRIDGE_SAFETY_RUNTIME_GOOD_CONTROLLED} \<and>
     (\<forall>n < 8. bit (bs_capabilities s) n)"

text \<open>A status whose redundant fields agree with each other.\<close>

definition outputs_are_off :: "bzm_bridge_safety_status_t \<Rightarrow> bool" where
  "outputs_are_off s \<longleftrightarrow> bs_asic_reset_asserted s \<and> bs_fan_percent s = 100 \<and> bs_five_volt_enabled s = False"

definition consistent_status :: "bzm_bridge_safety_status_t \<Rightarrow> bool" where
  "consistent_status s \<longleftrightarrow>
     bs_valid s \<and> bs_schema_version s = 1 \<and> bs_fault s \<noteq> BZM_BRIDGE_SAFETY_FAULT_STATUS_INVALID \<and>
     (\<forall>n. bit (bs_capabilities s) n \<longrightarrow> n < 8) \<and> bs_fan_percent s \<le> 100 \<and> (bs_fan_full s \<longleftrightarrow> bs_fan_percent s = 100) \<and>
     (\<forall>n. bit (bs_evidence s) n \<longleftrightarrow>
        (n = 0 \<and> outputs_are_off s) \<or>
        (n = 1 \<and> (bs_stage s = BZM_BRIDGE_SAFETY_STAGE_BOOT_SAFE \<or>
                  bs_state s = BZM_BRIDGE_SAFETY_STATE_CONTROLLED \<and> 0 < bs_lease_remaining_ms s)) \<or>
        (n = 2 \<and> \<not> bs_trip_input_asserted s) \<or>
        (n = 3 \<and> bs_fault s = BZM_BRIDGE_SAFETY_FAULT_NONE) \<or> (n \<in> {4, 5, 6} \<and> bit (bs_capabilities s) n)) \<and>
     (bs_state s = BZM_BRIDGE_SAFETY_STATE_FAULT_LATCHED \<longleftrightarrow> bs_fault s \<noteq> BZM_BRIDGE_SAFETY_FAULT_NONE) \<and>
     (bs_state s \<noteq> BZM_BRIDGE_SAFETY_STATE_CONTROLLED \<longrightarrow> outputs_are_off s \<and> bs_lease_remaining_ms s = 0) \<and>
     (bs_stage s = BZM_BRIDGE_SAFETY_STAGE_BOOT_SAFE \<longrightarrow>
        bs_lease_remaining_ms s = 0 \<and> bs_state s \<noteq> BZM_BRIDGE_SAFETY_STATE_FAULT_LATCHED) \<and>
     (bs_stage s = BZM_BRIDGE_SAFETY_STAGE_LEASE \<longrightarrow> bs_fault s \<noteq> BZM_BRIDGE_SAFETY_FAULT_ASIC_TRIP) \<and>
     (bs_stage s = BZM_BRIDGE_SAFETY_STAGE_TRIP_LATCH \<and> bs_trip_input_asserted s \<longrightarrow>
        bs_state s = BZM_BRIDGE_SAFETY_STATE_FAULT_LATCHED) \<and>
     runtime_verdict_means (bs_runtime_verdict s) s \<and> production_verdict_means (bs_production_verdict s) s"

lemma outputs_are_off_iff: "outputs_are_off s \<longleftrightarrow> status_outputs_safe s"
  by (auto simp: outputs_are_off_def status_outputs_safe_def)

lemma runtime_verdict_iff:
  assumes "bs_state s = BZM_BRIDGE_SAFETY_STATE_FAULT_LATCHED \<longleftrightarrow> bs_fault s \<noteq> BZM_BRIDGE_SAFETY_FAULT_NONE"
  shows "runtime_verdict_means v s \<longleftrightarrow> v = expected_runtime s"
  using assms
  by (cases v; cases "bs_state s") (auto simp: expected_runtime_def status_lease_valid_def word_gt_0)

lemma all_capabilities:
  assumes "\<forall>n. bit w n \<longrightarrow> n < 8"
  shows "w = known_capabilities \<longleftrightarrow> (\<forall>n < 8. bit w n)"
proof -
  have "known_capabilities = mask 8"
    by (simp add: known_capabilities_def mask_eq_exp_minus_1)
  then show ?thesis using assms by (auto simp: bit_eq_iff bit_mask_iff)
qed

lemma production_verdict_iff:
  assumes "\<forall>n. bit (bs_capabilities s) n \<longrightarrow> n < 8"
  shows "production_verdict_means v s \<longleftrightarrow> v = expected_production s"
  using all_capabilities[OF assms] by (cases v) (auto simp: expected_production_def)

lemma read_le16_word: "length bs = 2 \<Longrightarrow> read_le16 bs = le_word bs"
  by (auto simp: read_le16_def length_Suc_conv numeral_2_eq_2)

lemma read_le32_word: "length bs = 4 \<Longrightarrow> read_le32 bs = le_word bs"
  by (auto simp: read_le32_def length_Suc_conv numeral_eq_Suc push_bit_or or.assoc)

lemma code_cast [simp]:
  "safety_stage_cast (safety_stage_code st) = st" "safety_state_cast (safety_state_code sta) = sta"
  "safety_fault_cast (safety_fault_code f) = f" "runtime_verdict_cast (runtime_verdict_code r) = r"
  "production_verdict_cast (production_verdict_code p) = p"
  subgoal by (cases st) (simp_all add: safety_stage_cast_def)
  subgoal by (cases sta) (simp_all add: safety_state_cast_def)
  subgoal by (cases f) (simp_all add: safety_fault_cast_def)
  subgoal by (cases r) (simp_all add: runtime_verdict_cast_def)
  subgoal by (cases p) (simp_all add: production_verdict_cast_def)
  done

lemma u8_le_cases: "(v :: u8) \<le> 1 \<longleftrightarrow> v = 0 \<or> v = 1" "v \<le> 2 \<longleftrightarrow> v = 0 \<or> v = 1 \<or> v = 2"
  by (auto simp: word_le_nat_alt word_unat_eq_iff)

lemma cast_code:
  "valid_safety_stage v \<Longrightarrow> safety_stage_code (safety_stage_cast v) = v"
  "valid_safety_state v \<Longrightarrow> safety_state_code (safety_state_cast v) = v"
  "valid_safety_fault v \<Longrightarrow> safety_fault_code (safety_fault_cast v) = v \<and> safety_fault_cast v \<noteq> BZM_BRIDGE_SAFETY_FAULT_STATUS_INVALID"
  "valid_runtime_verdict v \<Longrightarrow> runtime_verdict_code (runtime_verdict_cast v) = v"
  "valid_production_verdict v \<Longrightarrow> production_verdict_code (production_verdict_cast v) = v"
  by (auto simp: valid_safety_stage_def valid_safety_state_def valid_safety_fault_def valid_runtime_verdict_def
      valid_production_verdict_def u8_le_cases safety_stage_cast_def safety_state_cast_def safety_fault_cast_def
      runtime_verdict_cast_def production_verdict_cast_def)

lemma code_valid:
  "valid_safety_stage (safety_stage_code st)" "valid_safety_state (safety_state_code sta)"
  "f \<noteq> BZM_BRIDGE_SAFETY_FAULT_STATUS_INVALID \<Longrightarrow> valid_safety_fault (safety_fault_code f)"
  "valid_runtime_verdict (runtime_verdict_code r)" "valid_production_verdict (production_verdict_code p)"
  subgoal by (cases st) (simp_all add: valid_safety_stage_def)
  subgoal by (cases sta) (simp_all add: valid_safety_state_def)
  subgoal by (cases f) (simp_all add: valid_safety_fault_def)
  subgoal by (cases r) (simp_all add: valid_runtime_verdict_def)
  subgoal by (cases p) (simp_all add: valid_production_verdict_def)
  done

lemma evidence_masks:
  "(w AND 0x01 = 0) \<longleftrightarrow> \<not> bit w 0" "(w AND 0x02 = 0) \<longleftrightarrow> \<not> bit w 1" "(w AND 0x04 = 0) \<longleftrightarrow> \<not> bit w 2"
  "(w AND 0x08 = 0) \<longleftrightarrow> \<not> bit w 3" for w :: "'a::len word"
  using and_exp_eq_0_iff_not_bit[of w 0] and_exp_eq_0_iff_not_bit[of w 1] and_exp_eq_0_iff_not_bit[of w 2]
    and_exp_eq_0_iff_not_bit[of w 3] by simp_all

lemma mask_constants:
  "known_capabilities = mask 8" "known_evidence = mask 7" "production_capabilities = push_bit 4 (mask 3)" "(0x07 :: u8) = mask 3"
  by (simp_all add: known_capabilities_def known_evidence_def production_capabilities_def mask_eq_exp_minus_1)

lemma within_mask: "(w AND NOT (mask n) = 0) \<longleftrightarrow> (\<forall>k. bit w k \<longrightarrow> k < n)" for w :: "'a::len word"
  by (auto simp: bit_eq_iff bit_simps dest: bit_imp_le_length)

lemma evidence_contradicts_bits:
  "\<not> evidence_contradicts s \<longleftrightarrow>
     (bs_fan_full s \<longleftrightarrow> bs_fan_percent s = 100) \<and> (bit (bs_evidence s) 0 \<longleftrightarrow> status_outputs_safe s) \<and>
     (bit (bs_evidence s) 1 \<longleftrightarrow> status_lease_valid s) \<and> (bit (bs_evidence s) 2 \<longleftrightarrow> \<not> bs_trip_input_asserted s) \<and>
     (bit (bs_evidence s) 3 \<longleftrightarrow> bs_fault s = BZM_BRIDGE_SAFETY_FAULT_NONE) \<and>
     (\<forall>n\<in>{4, 5, 6}. bit (bs_evidence s) n \<longleftrightarrow> bit (bs_capabilities s) n)"
proof -
  have b: "bit (w AND production_capabilities) k \<longleftrightarrow> bit w k \<and> k \<in> {4, 5, 6}" for w k
  proof -
    have "k \<in> {4, 5, 6} \<longleftrightarrow> 4 \<le> k \<and> k - 4 < 3" by auto
    then show ?thesis unfolding mask_constants by (auto simp: bit_and_iff bit_push_bit_iff bit_mask_iff)
  qed
  have "v AND production_capabilities = w AND production_capabilities \<longleftrightarrow>
      (\<forall>k. bit (v AND production_capabilities) k = bit (w AND production_capabilities) k)" for v w
    by (metis bit_word_eqI)
  then have "bs_evidence s AND production_capabilities = bs_capabilities s AND production_capabilities \<longleftrightarrow>
      (\<forall>n\<in>{4, 5, 6}. bit (bs_evidence s) n \<longleftrightarrow> bit (bs_capabilities s) n)"
    unfolding b by blast
  then show ?thesis unfolding evidence_contradicts_def evidence_masks by auto
qed

lemma consistent_iff:
  "consistent_status s \<longleftrightarrow>
     bs_valid s \<and> bs_schema_version s = 1 \<and> bs_fault s \<noteq> BZM_BRIDGE_SAFETY_FAULT_STATUS_INVALID \<and>
     (\<forall>n. bit (bs_capabilities s) n \<longrightarrow> n < 8) \<and> (\<forall>n. bit (bs_evidence s) n \<longrightarrow> n < 7) \<and> bs_fan_percent s \<le> 100 \<and>
     \<not> evidence_contradicts s \<and> \<not> state_contradicts s \<and>
     bs_runtime_verdict s = expected_runtime s \<and> bs_production_verdict s = expected_production s"
proof -
  have "(\<forall>n. bit (bs_evidence s) n \<longleftrightarrow>
        (n = 0 \<and> status_outputs_safe s) \<or> (n = 1 \<and> status_lease_valid s) \<or> (n = 2 \<and> \<not> bs_trip_input_asserted s) \<or>
        (n = 3 \<and> bs_fault s = BZM_BRIDGE_SAFETY_FAULT_NONE) \<or> (n \<in> {4, 5, 6} \<and> bit (bs_capabilities s) n)) \<longleftrightarrow>
     (\<forall>n. bit (bs_evidence s) n \<longrightarrow> n < 7) \<and> (bit (bs_evidence s) 0 \<longleftrightarrow> status_outputs_safe s) \<and>
     (bit (bs_evidence s) 1 \<longleftrightarrow> status_lease_valid s) \<and> (bit (bs_evidence s) 2 \<longleftrightarrow> \<not> bs_trip_input_asserted s) \<and>
     (bit (bs_evidence s) 3 \<longleftrightarrow> bs_fault s = BZM_BRIDGE_SAFETY_FAULT_NONE) \<and>
     (\<forall>n\<in>{4, 5, 6}. bit (bs_evidence s) n \<longleftrightarrow> bit (bs_capabilities s) n)" (is "?L \<longleftrightarrow> ?R")
  proof
    assume ?R
    then have r: "bit (bs_evidence s) 0 \<longleftrightarrow> status_outputs_safe s" "bit (bs_evidence s) 1 \<longleftrightarrow> status_lease_valid s"
      "bit (bs_evidence s) 2 \<longleftrightarrow> \<not> bs_trip_input_asserted s" "bit (bs_evidence s) 3 \<longleftrightarrow> bs_fault s = BZM_BRIDGE_SAFETY_FAULT_NONE"
      "bit (bs_evidence s) 4 \<longleftrightarrow> bit (bs_capabilities s) 4" "bit (bs_evidence s) 5 \<longleftrightarrow> bit (bs_capabilities s) 5"
      "bit (bs_evidence s) 6 \<longleftrightarrow> bit (bs_capabilities s) 6"
      by blast+
    show ?L
    proof
      fix n
      show "bit (bs_evidence s) n \<longleftrightarrow>
        (n = 0 \<and> status_outputs_safe s) \<or> (n = 1 \<and> status_lease_valid s) \<or> (n = 2 \<and> \<not> bs_trip_input_asserted s) \<or>
        (n = 3 \<and> bs_fault s = BZM_BRIDGE_SAFETY_FAULT_NONE) \<or> (n \<in> {4, 5, 6} \<and> bit (bs_capabilities s) n)"
      proof (cases "n < 7")
        case True
        then have "n = 0 \<or> n = 1 \<or> n = 2 \<or> n = 3 \<or> n = 4 \<or> n = 5 \<or> n = 6" by auto
        then show ?thesis by (elim disjE) (simp_all add: r r(2)[simplified])
      next
        case False
        moreover have "\<not> bit (bs_evidence s) n" using \<open>?R\<close> False by blast
        ultimately show ?thesis by auto
      qed
    qed
  next
    assume ?L
    then have bits: "bit (bs_evidence s) n \<longleftrightarrow>
        (n = 0 \<and> status_outputs_safe s) \<or> (n = 1 \<and> status_lease_valid s) \<or> (n = 2 \<and> \<not> bs_trip_input_asserted s) \<or>
        (n = 3 \<and> bs_fault s = BZM_BRIDGE_SAFETY_FAULT_NONE) \<or> (n \<in> {4, 5, 6} \<and> bit (bs_capabilities s) n)" for n
      by blast
    show ?R unfolding bits by auto
  qed
  note evidence = this
  have state: "\<not> state_contradicts s \<longleftrightarrow>
     (bs_state s = BZM_BRIDGE_SAFETY_STATE_FAULT_LATCHED \<longleftrightarrow> bs_fault s \<noteq> BZM_BRIDGE_SAFETY_FAULT_NONE) \<and>
     (bs_state s \<noteq> BZM_BRIDGE_SAFETY_STATE_CONTROLLED \<longrightarrow> status_outputs_safe s \<and> bs_lease_remaining_ms s = 0) \<and>
     (bs_stage s = BZM_BRIDGE_SAFETY_STAGE_BOOT_SAFE \<longrightarrow>
        bs_lease_remaining_ms s = 0 \<and> bs_state s \<noteq> BZM_BRIDGE_SAFETY_STATE_FAULT_LATCHED) \<and>
     (bs_stage s = BZM_BRIDGE_SAFETY_STAGE_LEASE \<longrightarrow> bs_fault s \<noteq> BZM_BRIDGE_SAFETY_FAULT_ASIC_TRIP) \<and>
     (bs_stage s = BZM_BRIDGE_SAFETY_STAGE_TRIP_LATCH \<and> bs_trip_input_asserted s \<longrightarrow>
        bs_state s = BZM_BRIDGE_SAFETY_STATE_FAULT_LATCHED)"
    by (cases "bs_state s"; cases "bs_stage s") (auto simp: state_contradicts_def)
  show ?thesis
    unfolding consistent_status_def evidence_contradicts_bits evidence state
      outputs_are_off_iff status_lease_valid_def[symmetric]
    by (rule iffI; elim conjE; intro conjI;
        (assumption | (rule runtime_verdict_iff[THEN iffD1] runtime_verdict_iff[THEN iffD2]
           production_verdict_iff[THEN iffD1] production_verdict_iff[THEN iffD2]; assumption)))
qed

lemma decode_accepts:
  "bzm_bridge_decode_safety_status (Some payload) = (ESP_OK, s) \<longleftrightarrow>
     length payload = 17 \<and> \<not> malformed_status payload \<and> s = raw_status payload \<and> \<not> evidence_contradicts s \<and>
     \<not> state_contradicts s \<and> bs_runtime_verdict s = expected_runtime s \<and> bs_production_verdict s = expected_production s"
  by (auto simp: bzm_bridge_decode_safety_status_def Let_def)

lemma le_bytes_2: "le_bytes 2 (w :: u16) = [ucast w, ucast (drop_bit 8 w)]"
  by (simp add: le_bytes_def numeral_2_eq_2)

lemma le_bytes_4:
  "le_bytes 4 (w :: u32) = [ucast w, ucast (drop_bit 8 w), ucast (drop_bit 16 w), ucast (drop_bit 24 w)]"
  by (simp add: le_bytes_def numeral_eq_Suc)

lemma read_encoded:
  "read_le16 [ucast w, ucast (drop_bit 8 w), x, y] = (w :: u16)"
  "read_le16 (ucast w # ucast (drop_bit 8 w) # bs) = (w :: u16)"
  "read_le32 (ucast v # ucast (drop_bit 8 v) # ucast (drop_bit 16 v) # ucast (drop_bit 24 v) # bs) = (v :: u32)"
proof -
  have a: "read_le16 (ucast w # ucast (drop_bit 8 w) # bs) = (w :: u16)" for bs
    using le_word_full[of 2 w] read_le16_word[of "le_bytes 2 w"] by (simp add: le_bytes_2 read_le16_def)
  show "read_le16 [ucast w, ucast (drop_bit 8 w), x, y] = w" "read_le16 (ucast w # ucast (drop_bit 8 w) # bs) = w"
    by (rule a)+
  show "read_le32 (ucast v # ucast (drop_bit 8 v) # ucast (drop_bit 16 v) # ucast (drop_bit 24 v) # bs) = v"
    using le_word_full[of 4 v] read_le32_word[of "le_bytes 4 v"] by (simp add: le_bytes_4 read_le32_def)
qed

lemma flag_reads:
  "encode_flags s AND 1 \<noteq> 0 \<longleftrightarrow> bs_five_volt_enabled s" "encode_flags s AND 2 \<noteq> 0 \<longleftrightarrow> bs_asic_reset_asserted s"
  "encode_flags s AND 4 \<noteq> 0 \<longleftrightarrow> bs_fan_full s" "encode_flags s AND NOT 7 = 0"
  by (auto simp: encode_flags_def)

lemma raw_encode:
  "bs_valid s \<Longrightarrow> raw_status (encode_status s) = s"
  by (rule bzm_bridge_safety_status_t.equality)
    (simp_all add: raw_status_def encode_status_codes le_bytes_2 le_bytes_4 read_encoded flag_reads)

lemma well_formed_encode:
  assumes "bs_schema_version s = 1" and "bs_fault s \<noteq> BZM_BRIDGE_SAFETY_FAULT_STATUS_INVALID"
    and "\<forall>n. bit (bs_capabilities s) n \<longrightarrow> n < 8" and "\<forall>n. bit (bs_evidence s) n \<longrightarrow> n < 7" and "bs_fan_percent s \<le> 100"
  shows "\<not> malformed_status (encode_status s)" and "length (encode_status s) = 17"
  using assms
  by (simp_all add: malformed_status_def encode_status_codes le_bytes_2 le_bytes_4 read_encoded flag_reads flag_reads(4)[simplified] code_valid
      mask_constants(1,2) within_mask not_less)

lemma flags_encode:
  assumes "v AND NOT 7 = (0 :: u8)"
  shows "(if v AND 1 \<noteq> 0 then 1 else 0) OR (if v AND 2 \<noteq> 0 then 2 else 0) OR (if v AND 4 \<noteq> 0 then 4 else 0) = v"
proof -
  have "bit v k \<Longrightarrow> k < 3" for k
    using assms unfolding mask_constants(4) within_mask by blast
  then have small: "bit v k \<Longrightarrow> k = 0 \<or> k = 1 \<or> k = 2" for k by fastforce
  have sel: "(if v AND 2 ^ n \<noteq> 0 then 2 ^ n else 0) = v AND 2 ^ n" for n
    by (rule bit_word_eqI) (auto simp: and_exp_eq_0_iff_not_bit bit_simps)
  have "(v AND 1) OR (v AND 2) OR (v AND 4) = v"
  proof (rule bit_word_eqI)
    fix k
    assume "k < LENGTH(8)"
    have "bit (1 :: u8) k \<longleftrightarrow> k = 0" "bit (2 :: u8) k \<longleftrightarrow> k = 1" "bit (4 :: u8) k \<longleftrightarrow> k = 2"
      using bit_exp_iff[of 0 k, where ?'a = u8] bit_exp_iff[of 1 k, where ?'a = u8] bit_exp_iff[of 2 k, where ?'a = u8]
        \<open>k < LENGTH(8)\<close> by auto
    then show "bit ((v AND 1) OR (v AND 2) OR (v AND 4)) k = bit v k"
      using small[of k] by (auto simp: bit_or_iff bit_and_iff)
  qed
  moreover have four: "(2 :: u8) ^ 2 = 4" by simp
  moreover have "(if v AND 1 \<noteq> 0 then 1 else 0) = v AND 1" "(if v AND 2 \<noteq> 0 then 2 else 0) = v AND 2"
    "(if v AND 4 \<noteq> 0 then 4 else 0) = v AND 4"
    using sel[of 0] sel[of 1] sel[of 2] by (simp_all only: power_0 power_one_right four)
  ultimately show ?thesis by (simp only:)
qed

lemma encode_raw:
  assumes "length p = 17" and "\<not> malformed_status p"
  shows "encode_status (raw_status p) = p"
proof -
  obtain p0 p1 p2 p3 p4 p5 p6 p7 p8 p9 p10 p11 p12 p13 p14 p15 p16 where
    p: "p = [p0, p1, p2, p3, p4, p5, p6, p7, p8, p9, p10, p11, p12, p13, p14, p15, p16]"
    using assms(1) by (auto simp: length_Suc_conv numeral_eq_Suc)
  have valid: "valid_safety_stage p1" "valid_safety_state p2" "valid_safety_fault p3" "valid_runtime_verdict p4"
      "valid_production_verdict p5" "p14 AND NOT 7 = 0" "p16 \<le> 1"
    using assms(2) by (simp_all add: p malformed_status_def not_less)
  have two: "le_bytes 2 (read_le16 (a # b # bs)) = [a, b]" for a b bs
    using le_bytes_le_word[of "[a, b]" 2, where ?'a = 16] read_le16_word[of "[a, b]"] by (simp add: read_le16_def)
  have four: "le_bytes 4 (read_le32 (a # b # c # d # bs)) = [a, b, c, d]" for a b c d bs
    using le_bytes_le_word[of "[a, b, c, d]" 4, where ?'a = 32] read_le32_word[of "[a, b, c, d]"] by (simp add: read_le32_def)
  show ?thesis
    using valid flags_encode[OF valid(6)] cast_code(3)[OF valid(3)]
    by (simp add: p encode_status_codes raw_status_def two four cast_code encode_flags_def u8_le_cases) auto
qed

lemma status_roundtrip:
  "bzm_bridge_decode_safety_status (Some payload) = (ESP_OK, s) \<longleftrightarrow> consistent_status s \<and> payload = encode_status s"
proof
  assume "bzm_bridge_decode_safety_status (Some payload) = (ESP_OK, s)"
  then have d: "length payload = 17" "\<not> malformed_status payload" "s = raw_status payload" "\<not> evidence_contradicts s"
      "\<not> state_contradicts s" "bs_runtime_verdict s = expected_runtime s" "bs_production_verdict s = expected_production s"
    unfolding decode_accepts by blast+
  have caps: "\<forall>n. bit (read_le16 (drop 6 payload)) n \<longrightarrow> n < 8" "\<forall>n. bit (read_le16 (drop 8 payload)) n \<longrightarrow> n < 7"
    using d(2) by (simp_all add: malformed_status_def mask_constants(1,2) within_mask)
  have "consistent_status s"
    unfolding consistent_iff using d(2,4-7) caps cast_code(3)[of "payload ! 3"]
    by (simp add: d(3) raw_status_def malformed_status_def not_less)
  then show "consistent_status s \<and> payload = encode_status s" using encode_raw[OF d(1,2)] d(3) by simp
next
  assume c: "consistent_status s \<and> payload = encode_status s"
  then show "bzm_bridge_decode_safety_status (Some payload) = (ESP_OK, s)"
    unfolding decode_accepts using well_formed_encode[of s] raw_encode[of s] by (auto simp: consistent_iff)
qed

section \<open>Waiting for the bridge\<close>

text \<open>
  What the ESP-IDF documents of its driver: the timer never runs backwards, a read returns at most
  the requested bytes, and a read that returns nothing has waited, so that time has passed.
  \<open>clock\<close> is the time of a device state.
\<close>

definition uart_contract :: "('c \<Rightarrow> int) \<Rightarrow> 'c uart_ops \<Rightarrow> bool" where
  "uart_contract clock ops \<longleftrightarrow>
     (\<forall>c. fst (uo_time ops c) = clock (snd (uo_time ops c)) \<and> clock c \<le> clock (snd (uo_time ops c))) \<and>
     (\<forall>n k c. clock c \<le> clock (snd (uo_read ops n k c)) \<and>
        (\<forall>bytes. fst (uo_read ops n k c) = Some bytes \<longrightarrow>
           length bytes \<le> n \<and> (bytes = [] \<longrightarrow> 0 < k \<longrightarrow> clock c < clock (snd (uo_read ops n k c)))))"

lemma uart_contractD:
  assumes "uart_contract clock ops"
  shows "uo_time ops c = (t, c') \<Longrightarrow> t = clock c' \<and> clock c \<le> clock c'"
    and "uo_read ops n k c = (r, c') \<Longrightarrow> clock c \<le> clock c'"
    and "uo_read ops n k c = (Some bytes, c') \<Longrightarrow> length bytes \<le> n \<and> (bytes = [] \<longrightarrow> 0 < k \<longrightarrow> clock c < clock c')"
proof -
  show "uo_time ops c = (t, c') \<Longrightarrow> t = clock c' \<and> clock c \<le> clock c'"
    using assms unfolding uart_contract_def by (metis fst_conv snd_conv)
  show "uo_read ops n k c = (r, c') \<Longrightarrow> clock c \<le> clock c'"
    using assms unfolding uart_contract_def by (metis snd_conv)
  show "uo_read ops n k c = (Some bytes, c') \<Longrightarrow> length bytes \<le> n \<and> (bytes = [] \<longrightarrow> 0 < k \<longrightarrow> clock c < clock c')"
    using assms unfolding uart_contract_def by (metis fst_conv snd_conv)
qed

lemma read_loop_returns:
  assumes "uart_contract clock ops" and "length received \<le> n"
  shows "\<exists>r c'. read_loop ops deadline n received c = Some (r, c') \<and> (\<forall>bs. r = Inr bs \<longrightarrow> length bs = n)"
  using assms(2)
proof (induction "(n - length received) + nat (deadline - clock c)" arbitrary: received c rule: less_induct)
  case less
  obtain t c1 where t: "uo_time ops c = (t, c1)" by fastforce
  have tc: "t = clock c1" "clock c \<le> clock c1" using uart_contractD(1)[OF assms(1) t] by auto
  define ticks where "ticks = (let k = uo_ticks ops ((deadline - t + 999) div 1000) in if k = 0 then 1 else k)"
  have ticks: "0 < ticks" by (simp add: ticks_def Let_def)
  obtain r c2 where r: "uo_read ops (n - length received) ticks c1 = (r, c2)" by fastforce
  have c2: "clock c1 \<le> clock c2" using uart_contractD(2)[OF assms(1) r] .
  have step: "read_loop ops deadline n received c =
      (if length received < n then
         if deadline - t \<le> 0 then Some (Inl ESP_ERR_TIMEOUT, c1)
         else case r of None \<Rightarrow> Some (Inl ESP_FAIL, c2) | Some bytes \<Rightarrow> read_loop ops deadline n (received @ bytes) c2
       else Some (Inr received, c))"
    by (subst read_loop.simps) (use r in \<open>simp add: t ticks_def Let_def split: if_splits\<close>)
  show ?case
  proof (cases "length received < n \<and> deadline - t > 0 \<and> r \<noteq> None")
    case True
    then obtain bytes where b: "r = Some bytes" by auto
    have len: "length bytes \<le> n - length received" and time: "bytes = [] \<Longrightarrow> clock c1 < clock c2"
      using uart_contractD(3)[OF assms(1) r[unfolded b]] ticks by auto
    have "(n - length (received @ bytes)) + nat (deadline - clock c2) < (n - length received) + nat (deadline - clock c)"
    proof (cases "bytes = []")
      case True
      then have "clock c < clock c2" "clock c < deadline"
        using time tc \<open>length received < n \<and> deadline - t > 0 \<and> r \<noteq> None\<close> by auto
      then have "nat (deadline - clock c2) < nat (deadline - clock c)" by simp
      then show ?thesis using True by simp
    next
      case False
      then have "n - length (received @ bytes) < n - length received" using True by (cases bytes) auto
      moreover have "nat (deadline - clock c2) \<le> nat (deadline - clock c)" using tc c2 by (simp add: nat_mono)
      ultimately show ?thesis by (rule add_less_le_mono)
    qed
    from less.hyps[OF this] show ?thesis using len True less.prems by (auto simp: step b)
  next
    case False
    then show ?thesis using less.prems by (auto simp: step)
  qed
qed

lemma read_exact_returns:
  assumes "uart_contract clock ops"
  obtains r c' where "read_exact ops n timeout c = Some (r, c')" "\<And>bs. r = Inr bs \<Longrightarrow> length bs = n"
proof -
  obtain t c1 where "uo_time ops c = (t, c1)" by fastforce
  then show thesis
    using read_loop_returns[OF assms, of "[]" n "t + int timeout * 1000" c1] that by (auto simp: read_exact_def)
qed

lemma receive_response_returns:
  assumes "uart_contract clock ops"
  shows "\<exists>r c'. receive_response ops ident capacity timeout c = Some (r, c') \<and> (\<forall>p. r = Inr p \<longrightarrow> length p \<le> capacity)"
proof -
  obtain r c1 where h: "read_exact ops 3 timeout c = Some (r, c1)" by (rule read_exact_returns[OF assms])
  show ?thesis
  proof (cases r)
    case (Inl err)
    then show ?thesis using h by (auto simp: receive_response_def)
  next
    case (Inr header)
    define len where "len = unat (header ! 0) + unat (header ! 1) * 256"
    obtain r2 c2 where b: "read_exact ops (len - 3) timeout c1 = Some (r2, c2)" by (rule read_exact_returns[OF assms])
    show ?thesis
      using h Inr b[unfolded len_def]
      by (auto simp: receive_response_def Let_def split: sum.splits)
  qed
qed

lemma transact_returns:
  assumes "uart_contract clock ops"
  shows "\<exists>r st' c'. transact ops page command payload capacity timeout (st, c) = Some (r, st', c') \<and>
           (\<forall>p. r = Inr p \<longrightarrow> length p \<le> capacity \<and> st_initialized st \<and> \<not> st_maintenance st)"
proof -
  have rr: "\<exists>r c'. receive_response ops ident capacity timeout c = Some (r, c') \<and> (\<forall>p. r = Inr p \<longrightarrow> length p \<le> capacity)" for ident c
    by (rule receive_response_returns[OF assms])
  show ?thesis
  proof (cases "\<not> st_initialized st \<or> st_maintenance st")
    case False
    obtain w c1 where w: "uo_write ops (bzm_bridge_encode_request (st_next_command_id st) page command payload BZM_BRIDGE_MAX_REQUEST_SIZE)
        (uo_flush ops c) = (w, c1)" by fastforce
    obtain e c2 where e: "uo_wait_tx_done ops (uo_ticks ops 100) c1 = (e, c2)" by fastforce
    obtain r c3 where r: "receive_response ops (st_next_command_id st) capacity timeout c2 = Some (r, c3)"
        "\<forall>p. r = Inr p \<longrightarrow> length p \<le> capacity"
      using rr by blast
    show ?thesis using False w e r by (auto simp: transact_def Let_def)
  qed (auto simp: transact_def)
qed

lemma set_gpio_returns:
  assumes "uart_contract clock ops"
  obtains r st' c' where "set_gpio ops command high (st, c) = Some (r, st', c')"
proof -
  obtain r st' c' where "transact ops BZM_BRIDGE_PAGE_GPIO command [if high then 1 else 0] 1 200 (st, c) = Some (r, st', c')"
    using transact_returns[OF assms] by blast
  then show thesis using that by (simp add: set_gpio_def Let_def)
qed

lemma init_returns:
  assumes "uart_contract clock ops"
  shows "\<exists>r st' c'. BZM_bridge_init ops (st, c) = Some (r, st', c')"
proof -
  obtain e c1 where u: "uart_setup ops c = (e, c1)" by fastforce
  obtain r st1 c2 where v: "BZM_bridge_set_5v_enabled ops False (st\<lparr> st_initialized := True \<rparr>, c1) = Some (r, st1, c2)"
    unfolding BZM_bridge_set_5v_enabled_def by (rule set_gpio_returns[OF assms])
  obtain r2 st2 c3 where w: "BZM_bridge_set_asic_reset ops False (st1, c2) = Some (r2, st2, c3)"
    unfolding BZM_bridge_set_asic_reset_def by (rule set_gpio_returns[OF assms])
  show ?thesis using u v w by (auto simp: BZM_bridge_init_def Let_def split: sum.splits)
qed

section \<open>Properties\<close>

text \<open>C13. The status decoder accepts exactly the consistent statuses. A payload is accepted with status
  \<open>s\<close> precisely when it is the encoding of \<open>s\<close> and the redundant fields of \<open>s\<close> agree: evidence bits
  with outputs, lease, trip and fault, the fault with the latched state, the outputs with the safe
  states, and both verdicts with what they say of the board. Every other payload is refused as an invalid
  response, a missing one as an invalid argument, and yields a status which is marked invalid, reports
  a latched fault and bad verdicts, and claims no capability, no evidence, no lease and no output.\<close>

theorem safety_status_decoding_exact:
  "(bzm_bridge_decode_safety_status (Some payload) = (ESP_OK, s) \<longleftrightarrow> consistent_status s \<and> payload = encode_status s) \<and>
   (case bzm_bridge_decode_safety_status received of (err, status) \<Rightarrow>
      (received = None \<and> err = ESP_ERR_INVALID_ARG \<or> received \<noteq> None \<and> err \<in> {ESP_OK, ESP_ERR_INVALID_RESPONSE}) \<and>
      (err \<noteq> ESP_OK \<longrightarrow>
         status = \<lparr> bs_valid = False, bs_schema_version = 0,
           bs_stage = BZM_BRIDGE_SAFETY_STAGE_BOOT_SAFE, bs_state = BZM_BRIDGE_SAFETY_STATE_FAULT_LATCHED,
           bs_fault = BZM_BRIDGE_SAFETY_FAULT_STATUS_INVALID,
           bs_runtime_verdict = BZM_BRIDGE_SAFETY_RUNTIME_BAD_FAULT,
           bs_production_verdict = BZM_BRIDGE_SAFETY_PRODUCTION_BAD_RUNTIME,
           bs_capabilities = 0, bs_evidence = 0, bs_lease_remaining_ms = 0, bs_five_volt_enabled = False,
           bs_asic_reset_asserted = False, bs_fan_full = False, bs_fan_percent = 0, bs_trip_input_asserted = False \<rparr>))"
proof (rule conjI)
  show "bzm_bridge_decode_safety_status (Some payload) = (ESP_OK, s) \<longleftrightarrow> consistent_status s \<and> payload = encode_status s"
    by (rule status_roundtrip)
qed (auto simp: bzm_bridge_decode_safety_status_def invalidate_safety_status_def Let_def split: option.splits)

definition demo_status_payload :: "u8 list" where
  "demo_status_payload = [1, 2, 1, 0, 1, 0, 0xff, 0, 0x7e, 0, 0xe8, 3, 0, 0, 0x01, 40, 0]"

lemma safety_status_decoding_exact_witness:
  "consistent_status (snd (bzm_bridge_decode_safety_status (Some demo_status_payload))) \<and>
   bs_fault (snd (bzm_bridge_decode_safety_status (Some []))) = BZM_BRIDGE_SAFETY_FAULT_STATUS_INVALID"
proof -
  have "bzm_bridge_decode_safety_status (Some demo_status_payload) =
      (ESP_OK, snd (bzm_bridge_decode_safety_status (Some demo_status_payload)))"
    by code_simp
  moreover have "fst (bzm_bridge_decode_safety_status (Some [])) \<noteq> ESP_OK" by code_simp
  ultimately show ?thesis
    using safety_status_decoding_exact[of demo_status_payload "snd (bzm_bridge_decode_safety_status (Some demo_status_payload))"
        "Some []"] by (auto simp: split_beta)
qed

text \<open>C36. Every bridge command returns. Given the documented behaviour of the UART driver and timer, the
  receive loop cannot wait forever: a transaction, the initialisation, the end of maintenance and every
  status command come back with a result, and a successful one carries no more payload than the caller
  has room for and was made on an initialised bridge outside maintenance.\<close>

theorem bridge_commands_return:
  assumes "uart_contract clock ops"
  shows "(\<exists>r st' c'. transact ops page command payload capacity timeout (st, c) = Some (r, st', c') \<and>
           (\<forall>p. r = Inr p \<longrightarrow> length p \<le> capacity \<and> st_initialized st \<and> \<not> st_maintenance st)) \<and>
         (\<exists>r st' c'. BZM_bridge_init ops (st, c) = Some (r, st', c')) \<and>
         (\<exists>r st' c'. BZM_bridge_end_maintenance ops (st, c) = Some (r, st', c')) \<and>
         (\<exists>r st' c'. safety_command ops command (st, c) = Some (r, st', c'))"
proof (intro conjI)
  show "\<exists>r st' c'. transact ops page command payload capacity timeout (st, c) = Some (r, st', c') \<and>
           (\<forall>p. r = Inr p \<longrightarrow> length p \<le> capacity \<and> st_initialized st \<and> \<not> st_maintenance st)"
    by (rule transact_returns[OF assms])
  show "\<exists>r st' c'. BZM_bridge_init ops (st, c) = Some (r, st', c')"
    by (rule init_returns[OF assms])
  show "\<exists>r st' c'. BZM_bridge_end_maintenance ops (st, c) = Some (r, st', c')"
    using init_returns[OF assms] by (auto simp: BZM_bridge_end_maintenance_def)
  obtain r st' c' where "transact ops BZM_BRIDGE_PAGE_SYSTEM command [] BZM_BRIDGE_SAFETY_STATUS_LENGTH 500 (st, c) = Some (r, st', c')"
    using transact_returns[OF assms] by blast
  then show "\<exists>r st' c'. safety_command ops command (st, c) = Some (r, st', c')"
    by (simp add: safety_command_def)
qed

text \<open>A device whose every call takes a millisecond and whose receive queue holds given bytes.\<close>

definition demo_uart :: "(int \<times> u8 list) uart_ops" where
  "demo_uart = \<lparr> uo_time = (\<lambda>(t, q). (t, t, q)),
     uo_read = (\<lambda>n k (t, q). (Some (take n q), t + 1000, drop n q)),
     uo_flush = (\<lambda>c. c), uo_write = (\<lambda>bytes c. (int (length bytes), c)), uo_wait_tx_done = (\<lambda>k c. (ESP_OK, c)),
     uo_param_config = (\<lambda>c. (ESP_OK, c)), uo_set_pin = (\<lambda>c. (ESP_OK, c)), uo_install = (\<lambda>c. (ESP_OK, c)),
     uo_delete = (\<lambda>c. c), uo_delay = (\<lambda>k c. c), uo_ticks = nat \<rparr>"

lemma bridge_commands_return_witness:
  "(\<exists>r st' c'. transact demo_uart 6 1 [1] 1 200 (\<lparr> st_initialized = True, st_maintenance = False, st_next_command_id = 7 \<rparr>, 0, [4, 0, 7, 1]) =
     Some (r, st', c')) \<and>
   map_option fst (transact demo_uart 6 1 [1] 1 200 (\<lparr> st_initialized = True, st_maintenance = False, st_next_command_id = 7 \<rparr>, 0, [4, 0, 7, 1])) =
     Some (Inr [1]) \<and>
   map_option fst (transact demo_uart 6 1 [1] 1 3 (\<lparr> st_initialized = True, st_maintenance = False, st_next_command_id = 7 \<rparr>, 0, [4, 0])) =
     Some (Inl ESP_ERR_TIMEOUT)"
proof -
  have "uart_contract fst demo_uart"
    by (auto simp: uart_contract_def demo_uart_def)
  from bridge_commands_return[OF this] show ?thesis
    by (intro conjI; simp add: transact_def receive_response_def read_exact_def read_loop.simps demo_uart_def
        bzm_bridge_encode_request_def bzm_bridge_decode_response_def Let_def)
qed

end
