(* ===== verification/Telemetry.thy ===== *)
theory Telemetry
  imports FrameParser Floats
begin

text \<open>
  Sensor telemetry of the four ASICs (\<open>components/asic/bzm_telemetry.c\<close>): decoding of the TDM
  payload, the store of the latest samples, the safety predicates, and the three confirmation
  machines that ask for consecutive fresh samples before an anomaly of an unchecksummed field
  counts as real. Output parameters are results; NULL inputs are \<open>None\<close>. Single-precision
  expressions are rounded after every operation.
\<close>

section \<open>Model\<close>

abbreviation BZM_BRINGUP_ASIC_COUNT :: nat where "BZM_BRINGUP_ASIC_COUNT \<equiv> 4"
abbreviation BZM_CH2_CONFIRM_MAX_SAMPLES :: u8 where "BZM_CH2_CONFIRM_MAX_SAMPLES \<equiv> 10"

record bzm_telemetry_bounds_t =
  tb_temperature_min_c :: cfloat
  tb_temperature_max_c :: cfloat
  tb_ch0_min_mv :: cfloat
  tb_ch0_max_mv :: cfloat
  tb_ch1_min_mv :: cfloat
  tb_ch1_max_mv :: cfloat
  tb_ch2_abs_max_mv :: cfloat
  tb_max_stack_spread_mv :: cfloat

record bzm_telemetry_sample_t =
  ts_asic_id :: u8
  ts_timestamp_us :: u64
  ts_received :: bool
  ts_temperature_code :: u16
  ts_temperature_c :: cfloat
  ts_thermal_enabled :: bool
  ts_thermal_validity :: bool
  ts_thermal_fault :: bool
  ts_thermal_trip :: bool
  ts_thermal_valid :: bool
  ts_ch0_code :: u16
  ts_ch1_code :: u16
  ts_ch2_code :: u16
  ts_ch0_mv :: cfloat
  ts_ch1_mv :: cfloat
  ts_ch2_mv :: cfloat
  ts_voltage_enabled :: bool
  ts_voltage_fault :: bool
  ts_voltage_trip :: bool
  ts_voltage_valid :: bool
  ts_pll_locked :: bool
  ts_valid :: bool
  ts_trip :: bool

type_synonym bzm_telemetry_store_t = "bzm_telemetry_sample_t list"

record bzm_ch2_confirmation_t =
  c2_consecutive_excursions :: "u8 list"
  c2_last_timestamp_us :: "u64 list"

record bzm_telemetry_confirmation_t =
  tc_consecutive_anomalies :: "u8 list"
  tc_last_timestamp_us :: "u64 list"

record bzm_pll_lock_confirmation_t =
  pl_consecutive_unlocks :: "u8 list"
  pl_last_timestamp_us :: "u64 list"

datatype bzm_ch2_confirmation_result_t = BZM_CH2_CONFIRMATION_GOOD | BZM_CH2_CONFIRMATION_PENDING
  | BZM_CH2_CONFIRMATION_CONTINUOUS | BZM_CH2_CONFIRMATION_NO_NEW_SAMPLE | BZM_CH2_CONFIRMATION_INVALID

definition valid_asic_id :: "u8 \<Rightarrow> bool" where
  "valid_asic_id asic_id \<longleftrightarrow> bzm_topology_asic_index asic_id \<noteq> None"

definition bzm_telemetry_temperature_from_code :: "u16 \<Rightarrow> cfloat" where
  "bzm_telemetry_temperature_from_code code =
     flt_add (round32 (- 293.8))
       (flt_divc (flt_mul (round32 631.8) (flt_sub (Fin (of_nat (unat (code AND 0x0fff)))) (Fin (1 / 2)))) 4096)"

definition bzm_telemetry_voltage_from_code_mv :: "u16 \<Rightarrow> cfloat" where
  "bzm_telemetry_voltage_from_code_mv code =
     flt_mul (flt_mul (flt_mul (Fin 1000) (round32 0.4)) (round32 0.7067))
       (flt_sub
         (flt_sub (flt_divc (flt_mul (Fin 6) (Fin (of_nat (unat (code AND 0x3fff))))) 16384)
                  (flt_divc (Fin 3) 16384))
         (Fin 1))"

definition zero_sample :: bzm_telemetry_sample_t where
  "zero_sample = \<lparr> ts_asic_id = 0, ts_timestamp_us = 0, ts_received = False, ts_temperature_code = 0,
     ts_temperature_c = Fin 0, ts_thermal_enabled = False, ts_thermal_validity = False, ts_thermal_fault = False,
     ts_thermal_trip = False, ts_thermal_valid = False, ts_ch0_code = 0, ts_ch1_code = 0, ts_ch2_code = 0,
     ts_ch0_mv = Fin 0, ts_ch1_mv = Fin 0, ts_ch2_mv = Fin 0, ts_voltage_enabled = False,
     ts_voltage_fault = False, ts_voltage_trip = False, ts_voltage_valid = False, ts_pll_locked = False,
     ts_valid = False, ts_trip = False \<rparr>"

definition bzm_telemetry_decode :: "u8 \<Rightarrow> u8 list option \<Rightarrow> u64 \<Rightarrow> bzm_telemetry_sample_t option" where
  "bzm_telemetry_decode asic_id payload_opt timestamp_us =
     (case payload_opt of
        None \<Rightarrow> None
      | Some payload \<Rightarrow>
          (if \<not> valid_asic_id asic_id \<or> length payload \<noteq> BZM_TDM_TELEMETRY_PAYLOAD_SIZE then None
           else
             (let thermal = payload ! 0; voltage = payload ! 2; clocks = payload ! 7;
                  temperature_code = push_bit 8 (ucast (thermal AND 0x0f) :: u16) OR ucast (payload ! 1);
                  ch0_code = push_bit 8 (ucast (voltage AND 0x3f) :: u16) OR ucast (payload ! 3);
                  ch1_code = push_bit 6 (ucast (payload ! 4) :: u16) OR ucast (payload ! 5 AND 0x3f);
                  ch2_code = push_bit 10 (ucast (clocks AND 0x0f) :: u16) OR push_bit 2 (ucast (payload ! 6)) OR
                             ucast (drop_bit 6 (payload ! 5));
                  thermal_enabled = (thermal AND 0x80 \<noteq> 0); thermal_validity = (thermal AND 0x40 \<noteq> 0);
                  thermal_fault = (thermal AND 0x20 \<noteq> 0); thermal_trip = (thermal AND 0x10 \<noteq> 0);
                  voltage_enabled = (voltage AND 0x80 \<noteq> 0); voltage_trip = (voltage AND 0x40 \<noteq> 0);
                  voltage_fault = (clocks AND 0x10 \<noteq> 0); pll_locked = (clocks AND 0x80 \<noteq> 0);
                  thermal_valid = (thermal_enabled \<and> thermal_validity \<and> \<not> thermal_fault);
                  voltage_valid = (voltage_enabled \<and> \<not> voltage_fault)
              in Some \<lparr> ts_asic_id = asic_id, ts_timestamp_us = timestamp_us, ts_received = True,
                   ts_temperature_code = temperature_code,
                   ts_temperature_c = bzm_telemetry_temperature_from_code temperature_code,
                   ts_thermal_enabled = thermal_enabled, ts_thermal_validity = thermal_validity,
                   ts_thermal_fault = thermal_fault, ts_thermal_trip = thermal_trip, ts_thermal_valid = thermal_valid,
                   ts_ch0_code = ch0_code, ts_ch1_code = ch1_code, ts_ch2_code = ch2_code,
                   ts_ch0_mv = bzm_telemetry_voltage_from_code_mv ch0_code,
                   ts_ch1_mv = bzm_telemetry_voltage_from_code_mv ch1_code,
                   ts_ch2_mv = bzm_telemetry_voltage_from_code_mv ch2_code,
                   ts_voltage_enabled = voltage_enabled, ts_voltage_fault = voltage_fault,
                   ts_voltage_trip = voltage_trip, ts_voltage_valid = voltage_valid, ts_pll_locked = pll_locked,
                   ts_valid = (thermal_valid \<and> voltage_valid), ts_trip = (thermal_trip \<or> voltage_trip) \<rparr>)))"

definition bzm_telemetry_sample_is_fresh :: "bzm_telemetry_sample_t option \<Rightarrow> u64 \<Rightarrow> u64 \<Rightarrow> bool" where
  "bzm_telemetry_sample_is_fresh sample now_us max_age_us \<longleftrightarrow>
     (case sample of None \<Rightarrow> False
      | Some s \<Rightarrow> ts_received s \<and> now_us \<ge> ts_timestamp_us s \<and> now_us - ts_timestamp_us s \<le> max_age_us)"

text \<open>The loop over the ASICs returns \<open>None\<close> for the early \<open>false\<close>.\<close>

fun max_temperature_loop :: "bzm_telemetry_store_t \<Rightarrow> u64 \<Rightarrow> u64 \<Rightarrow> nat list \<Rightarrow> cfloat \<Rightarrow> cfloat option" where
  "max_temperature_loop store now_us max_age_us [] hottest_c = Some hottest_c"
| "max_temperature_loop store now_us max_age_us (index # is) hottest_c =
     (let sample = store ! index
      in if ts_asic_id sample \<noteq> bzm_asic_wire_ids ! index \<or> \<not> ts_thermal_valid sample \<or>
            \<not> isfinite (ts_temperature_c sample) \<or>
            \<not> bzm_telemetry_sample_is_fresh (Some sample) now_us max_age_us
         then None
         else max_temperature_loop store now_us max_age_us is
                (if flt_lt hottest_c (ts_temperature_c sample) then ts_temperature_c sample else hottest_c))"

definition bzm_telemetry_max_temperature :: "bzm_telemetry_store_t option \<Rightarrow> u64 \<Rightarrow> u64 \<Rightarrow> bool \<times> cfloat option" where
  "bzm_telemetry_max_temperature store now_us max_age_us =
     (case store of None \<Rightarrow> (False, None)
      | Some st \<Rightarrow>
          (case max_temperature_loop st now_us max_age_us [0..<BZM_MAX_ASIC_COUNT] NegInf of
             None \<Rightarrow> (False, None)
           | Some hottest_c \<Rightarrow> (isfinite hottest_c, Some hottest_c)))"

definition bzm_telemetry_store_init :: bzm_telemetry_store_t where
  "bzm_telemetry_store_init =
     map (\<lambda>i. zero_sample\<lparr> ts_asic_id := bzm_asic_wire_ids ! i \<rparr>) [0..<BZM_MAX_ASIC_COUNT]"

definition bzm_telemetry_store_apply_frame ::
    "bzm_telemetry_store_t \<Rightarrow> bzm_frame_t option \<Rightarrow> bool \<times> bzm_telemetry_store_t" where
  "bzm_telemetry_store_apply_frame store frame_opt =
     (case frame_opt of
        None \<Rightarrow> (False, store)
      | Some frame \<Rightarrow>
          (if fr_type frame \<noteq> BZM_FRAME_TELEMETRY \<or> \<not> valid_asic_id (fr_asic_id frame) then (False, store)
           else case bzm_topology_asic_index (fr_asic_id frame) of
                  None \<Rightarrow> (False, store)
                | Some index \<Rightarrow>
                    (case bzm_telemetry_decode (fr_asic_id frame) (Some (fr_payload frame)) (fr_timestamp_us frame) of
                       None \<Rightarrow> (False, store)
                     | Some sample \<Rightarrow> (True, store[index := sample]))))"

definition bzm_telemetry_store_get :: "bzm_telemetry_store_t option \<Rightarrow> u8 \<Rightarrow> bzm_telemetry_sample_t option" where
  "bzm_telemetry_store_get store asic_id =
     (case (store, bzm_topology_asic_index asic_id) of (Some st, Some index) \<Rightarrow> Some (st ! index) | _ \<Rightarrow> None)"

definition bzm_telemetry_value_in_bounds :: "cfloat \<Rightarrow> cfloat \<Rightarrow> cfloat \<Rightarrow> bool" where
  "bzm_telemetry_value_in_bounds value minimum maximum \<longleftrightarrow>
     isfinite value \<and> isfinite minimum \<and> isfinite maximum \<and> flt_le minimum maximum \<and>
     flt_le minimum value \<and> flt_le value maximum"

definition bzm_telemetry_sample_has_immediate_trip :: "bzm_telemetry_sample_t option \<Rightarrow> bool" where
  "bzm_telemetry_sample_has_immediate_trip sample \<longleftrightarrow>
     (case sample of None \<Rightarrow> False | Some s \<Rightarrow> ts_received s \<and> ts_trip s)"

definition bounds_are_valid :: "bzm_telemetry_bounds_t option \<Rightarrow> bool" where
  "bounds_are_valid bounds \<longleftrightarrow>
     (case bounds of None \<Rightarrow> False
      | Some b \<Rightarrow>
          isfinite (tb_temperature_min_c b) \<and> isfinite (tb_temperature_max_c b) \<and>
          flt_le (tb_temperature_min_c b) (tb_temperature_max_c b) \<and>
          isfinite (tb_ch0_min_mv b) \<and> isfinite (tb_ch0_max_mv b) \<and> flt_le (tb_ch0_min_mv b) (tb_ch0_max_mv b) \<and>
          isfinite (tb_ch1_min_mv b) \<and> isfinite (tb_ch1_max_mv b) \<and> flt_le (tb_ch1_min_mv b) (tb_ch1_max_mv b) \<and>
          isfinite (tb_ch2_abs_max_mv b) \<and> flt_le (Fin 0) (tb_ch2_abs_max_mv b) \<and>
          isfinite (tb_max_stack_spread_mv b) \<and> flt_le (Fin 0) (tb_max_stack_spread_mv b))"

definition sample_is_within_non_ch2_bounds ::
    "bzm_telemetry_sample_t option \<Rightarrow> bzm_telemetry_bounds_t option \<Rightarrow> bool" where
  "sample_is_within_non_ch2_bounds sample bounds \<longleftrightarrow>
     (case (sample, bounds) of
        (Some s, Some b) \<Rightarrow>
          bounds_are_valid bounds \<and> isfinite (ts_ch2_mv s) \<and>
          bzm_telemetry_value_in_bounds (ts_temperature_c s) (tb_temperature_min_c b) (tb_temperature_max_c b) \<and>
          bzm_telemetry_value_in_bounds (ts_ch0_mv s) (tb_ch0_min_mv b) (tb_ch0_max_mv b) \<and>
          bzm_telemetry_value_in_bounds (ts_ch1_mv s) (tb_ch1_min_mv b) (tb_ch1_max_mv b) \<and>
          flt_le (fabsf (flt_sub (ts_ch0_mv s) (ts_ch1_mv s))) (tb_max_stack_spread_mv b)
      | _ \<Rightarrow> False)"

definition bzm_telemetry_sample_is_safe_except_ch2 ::
    "bzm_telemetry_sample_t option \<Rightarrow> u64 \<Rightarrow> u64 \<Rightarrow> bzm_telemetry_bounds_t option \<Rightarrow> bool \<Rightarrow> bool" where
  "bzm_telemetry_sample_is_safe_except_ch2 sample now_us max_age_us bounds require_clock_locks \<longleftrightarrow>
     (case sample of None \<Rightarrow> False
      | Some s \<Rightarrow>
          if ts_trip s \<or> \<not> ts_thermal_valid s \<or> \<not> ts_voltage_enabled s \<or>
             \<not> bzm_telemetry_sample_is_fresh sample now_us max_age_us \<or>
             \<not> sample_is_within_non_ch2_bounds sample bounds \<or> (require_clock_locks \<and> \<not> ts_pll_locked s)
          then False
          else if ts_voltage_valid s then True
          else ts_voltage_fault s \<and> isfinite (ts_ch2_mv s) \<and>
               (case bounds of Some b \<Rightarrow> flt_lt (tb_ch2_abs_max_mv b) (fabsf (ts_ch2_mv s)) | None \<Rightarrow> False))"

definition bzm_telemetry_sample_is_within_bounds ::
    "bzm_telemetry_sample_t option \<Rightarrow> bzm_telemetry_bounds_t option \<Rightarrow> bool" where
  "bzm_telemetry_sample_is_within_bounds sample bounds \<longleftrightarrow>
     sample_is_within_non_ch2_bounds sample bounds \<and>
     (case (sample, bounds) of (Some s, Some b) \<Rightarrow> flt_le (fabsf (ts_ch2_mv s)) (tb_ch2_abs_max_mv b) | _ \<Rightarrow> False)"

definition bzm_telemetry_sample_is_safe ::
    "bzm_telemetry_sample_t option \<Rightarrow> u64 \<Rightarrow> u64 \<Rightarrow> bzm_telemetry_bounds_t option \<Rightarrow> bool \<Rightarrow> bool" where
  "bzm_telemetry_sample_is_safe sample now_us max_age_us bounds require_clock_locks \<longleftrightarrow>
     (case sample of None \<Rightarrow> False
      | Some s \<Rightarrow> ts_valid s \<and> \<not> ts_trip s \<and> bzm_telemetry_sample_is_fresh sample now_us max_age_us \<and>
          bzm_telemetry_sample_is_within_bounds sample bounds \<and> (\<not> require_clock_locks \<or> ts_pll_locked s))"

definition bzm_ch2_confirmation_init :: bzm_ch2_confirmation_t where
  "bzm_ch2_confirmation_init =
     \<lparr> c2_consecutive_excursions = replicate BZM_MAX_ASIC_COUNT 0, c2_last_timestamp_us = replicate BZM_MAX_ASIC_COUNT 0 \<rparr>"

text \<open>A sample no confirmation accepts: not received, misaddressed, untimed, or older than the last.\<close>

definition sample_unusable :: "bzm_telemetry_store_t \<Rightarrow> u64 list \<Rightarrow> nat \<Rightarrow> bool" where
  "sample_unusable store last_timestamps index \<longleftrightarrow>
     (let sample = store ! index
      in \<not> ts_received sample \<or> ts_asic_id sample \<noteq> bzm_asic_wire_ids ! index \<or> ts_timestamp_us sample = 0 \<or>
         ts_timestamp_us sample < last_timestamps ! index)"

text \<open>One iteration of the counting loop; the state is the confirmation with the reported culprit,
  count and result.\<close>

definition ch2_count_step ::
    "bzm_telemetry_store_t \<Rightarrow> bzm_telemetry_bounds_t \<Rightarrow> u8 \<Rightarrow> nat \<Rightarrow>
     bzm_ch2_confirmation_t \<times> u8 \<times> u8 \<times> bzm_ch2_confirmation_result_t \<Rightarrow>
     bzm_ch2_confirmation_t \<times> u8 \<times> u8 \<times> bzm_ch2_confirmation_result_t" where
  "ch2_count_step store bounds required index = (\<lambda>(conf, culprit, observed, result).
     (let sample = store ! index;
          conf = conf\<lparr> c2_last_timestamp_us := (c2_last_timestamp_us conf)[index := ts_timestamp_us sample] \<rparr>
      in if flt_le (fabsf (ts_ch2_mv sample)) (tb_ch2_abs_max_mv bounds)
         then (conf\<lparr> c2_consecutive_excursions := (c2_consecutive_excursions conf)[index := 0] \<rparr>, culprit, observed, result)
         else
           (let count = sat_inc (c2_consecutive_excursions conf ! index)
            in (conf\<lparr> c2_consecutive_excursions := (c2_consecutive_excursions conf)[index := count] \<rparr>,
                (if culprit = 0 \<or> count \<ge> required then bzm_asic_wire_ids ! index else culprit),
                (if count > observed then count else observed),
                (if count \<ge> required then BZM_CH2_CONFIRMATION_CONTINUOUS
                 else if result = BZM_CH2_CONFIRMATION_GOOD then BZM_CH2_CONFIRMATION_PENDING else result)))))"

definition bzm_ch2_confirmation_observe ::
    "bzm_ch2_confirmation_t option \<Rightarrow> bzm_telemetry_store_t option \<Rightarrow> bzm_telemetry_bounds_t option \<Rightarrow> u8 \<Rightarrow>
     bzm_ch2_confirmation_t option \<times> u8 \<times> u8 \<times> bzm_ch2_confirmation_result_t" where
  "bzm_ch2_confirmation_observe confirmation store bounds required =
     (case (confirmation, store, bounds) of
        (Some conf, Some st, Some b) \<Rightarrow>
          if \<not> bounds_are_valid bounds \<or> required = 0 \<or> required > BZM_CH2_CONFIRM_MAX_SAMPLES
          then (confirmation, 0, 0, BZM_CH2_CONFIRMATION_INVALID)
          else if list_ex (\<lambda>index. sample_unusable st (c2_last_timestamp_us conf) index \<or>
                                  \<not> isfinite (ts_ch2_mv (st ! index))) [0..<BZM_MAX_ASIC_COUNT]
          then (confirmation, 0, 0, BZM_CH2_CONFIRMATION_INVALID)
          else if list_ex (\<lambda>index. ts_timestamp_us (st ! index) = c2_last_timestamp_us conf ! index) [0..<BZM_MAX_ASIC_COUNT]
          then (case find (\<lambda>index. c2_consecutive_excursions conf ! index \<noteq> 0) [0..<BZM_MAX_ASIC_COUNT] of
                  Some index \<Rightarrow> (confirmation, bzm_asic_wire_ids ! index, c2_consecutive_excursions conf ! index,
                                 BZM_CH2_CONFIRMATION_NO_NEW_SAMPLE)
                | None \<Rightarrow> (confirmation, 0, 0, BZM_CH2_CONFIRMATION_NO_NEW_SAMPLE))
          else (case fold (ch2_count_step st b required) [0..<BZM_MAX_ASIC_COUNT]
                       (conf, 0, 0, BZM_CH2_CONFIRMATION_GOOD) of
                  (conf', culprit, observed, result) \<Rightarrow> (Some conf', culprit, observed, result))
      | _ \<Rightarrow> (confirmation, 0, 0, BZM_CH2_CONFIRMATION_INVALID))"

definition bzm_telemetry_confirmation_init :: bzm_telemetry_confirmation_t where
  "bzm_telemetry_confirmation_init =
     \<lparr> tc_consecutive_anomalies = replicate BZM_MAX_ASIC_COUNT 0, tc_last_timestamp_us = replicate BZM_MAX_ASIC_COUNT 0 \<rparr>"

text \<open>The anomaly count of one ASIC after a fresh sample.\<close>

definition anomaly_count ::
    "bzm_telemetry_sample_t \<Rightarrow> u64 \<Rightarrow> u64 \<Rightarrow> bzm_telemetry_bounds_t option \<Rightarrow> bool \<Rightarrow> u8 \<Rightarrow> u8 \<Rightarrow> u8" where
  "anomaly_count sample now_us max_age_us bounds require_clock_locks required count =
     (if bzm_telemetry_sample_has_immediate_trip (Some sample) then required
      else if bzm_telemetry_sample_is_safe (Some sample) now_us max_age_us bounds require_clock_locks then 0
      else sat_inc count)"

text \<open>The first loop: it stops at an unusable sample with \<open>True\<close>, the ASICs before it already counted.\<close>

fun telemetry_count_loop ::
    "bzm_telemetry_store_t \<Rightarrow> u64 \<Rightarrow> u64 \<Rightarrow> bzm_telemetry_bounds_t option \<Rightarrow> bool \<Rightarrow> u8 \<Rightarrow> nat list \<Rightarrow>
     bzm_telemetry_confirmation_t \<Rightarrow> bool \<Rightarrow> bool \<times> bzm_telemetry_confirmation_t \<times> bool" where
  "telemetry_count_loop store now_us max_age_us bounds locks required [] conf any_new = (False, conf, any_new)"
| "telemetry_count_loop store now_us max_age_us bounds locks required (index # is) conf any_new =
     (let sample = store ! index
      in if sample_unusable store (tc_last_timestamp_us conf) index then (True, conf, any_new)
         else if ts_timestamp_us sample = tc_last_timestamp_us conf ! index
         then telemetry_count_loop store now_us max_age_us bounds locks required is conf any_new
         else telemetry_count_loop store now_us max_age_us bounds locks required is
                (conf\<lparr> tc_last_timestamp_us := (tc_last_timestamp_us conf)[index := ts_timestamp_us sample],
                      tc_consecutive_anomalies := (tc_consecutive_anomalies conf)[index :=
                        anomaly_count sample now_us max_age_us bounds locks required
                          (tc_consecutive_anomalies conf ! index)] \<rparr>) True)"

text \<open>The scan for the highest count: count, index and whether some count reached the requirement.\<close>

definition highest_step :: "u8 list \<Rightarrow> u8 \<Rightarrow> nat \<Rightarrow> u8 \<times> nat \<times> bool \<Rightarrow> u8 \<times> nat \<times> bool" where
  "highest_step counts required index = (\<lambda>(highest_count, highest_index, sustained).
     (if counts ! index > highest_count then counts ! index else highest_count,
      if counts ! index > highest_count then index else highest_index,
      sustained \<or> counts ! index \<ge> required))"

definition confirmation_verdict :: "bool \<Rightarrow> bool \<Rightarrow> u8 \<Rightarrow> bzm_ch2_confirmation_result_t" where
  "confirmation_verdict sustained any_new_sample highest_count =
     (if sustained then BZM_CH2_CONFIRMATION_CONTINUOUS
      else if \<not> any_new_sample then BZM_CH2_CONFIRMATION_NO_NEW_SAMPLE
      else if highest_count = 0 then BZM_CH2_CONFIRMATION_GOOD else BZM_CH2_CONFIRMATION_PENDING)"

definition bzm_telemetry_confirmation_observe ::
    "bzm_telemetry_confirmation_t option \<Rightarrow> bzm_telemetry_store_t option \<Rightarrow> u64 \<Rightarrow> u64 \<Rightarrow>
     bzm_telemetry_bounds_t option \<Rightarrow> bool \<Rightarrow> u8 \<Rightarrow>
     bzm_telemetry_confirmation_t option \<times> u8 \<times> u8 \<times> bzm_ch2_confirmation_result_t" where
  "bzm_telemetry_confirmation_observe confirmation store now_us max_age_us bounds require_clock_locks required =
     (case (confirmation, store) of
        (Some conf, Some st) \<Rightarrow>
          if now_us = 0 \<or> max_age_us = 0 \<or> \<not> bounds_are_valid bounds \<or> required = 0 \<or>
             required > BZM_CH2_CONFIRM_MAX_SAMPLES
          then (confirmation, 0, 0, BZM_CH2_CONFIRMATION_INVALID)
          else
            (case telemetry_count_loop st now_us max_age_us bounds require_clock_locks required
                    [0..<BZM_MAX_ASIC_COUNT] conf False of
               (invalid, conf', any_new_sample) \<Rightarrow>
                 if invalid then (Some conf', 0, 0, BZM_CH2_CONFIRMATION_INVALID)
                 else
                   (case fold (highest_step (tc_consecutive_anomalies conf') required) [0..<BZM_MAX_ASIC_COUNT]
                           (0, 0, False) of
                      (highest_count, highest_index, sustained) \<Rightarrow>
                        (Some conf',
                         (if highest_count \<noteq> 0 then bzm_asic_wire_ids ! highest_index else 0),
                         (if highest_count \<noteq> 0 then highest_count else 0),
                         confirmation_verdict sustained any_new_sample highest_count)))
      | _ \<Rightarrow> (confirmation, 0, 0, BZM_CH2_CONFIRMATION_INVALID))"

definition bzm_pll_lock_confirmation_init :: bzm_pll_lock_confirmation_t where
  "bzm_pll_lock_confirmation_init =
     \<lparr> pl_consecutive_unlocks = replicate BZM_MAX_ASIC_COUNT 0, pl_last_timestamp_us = replicate BZM_MAX_ASIC_COUNT 0 \<rparr>"

definition pll_count_step ::
    "bzm_telemetry_store_t \<Rightarrow> nat \<Rightarrow> bzm_pll_lock_confirmation_t \<Rightarrow> bzm_pll_lock_confirmation_t" where
  "pll_count_step store index conf =
     (let sample = store ! index
      in if ts_timestamp_us sample \<noteq> pl_last_timestamp_us conf ! index
         then conf\<lparr> pl_last_timestamp_us := (pl_last_timestamp_us conf)[index := ts_timestamp_us sample],
                   pl_consecutive_unlocks := (pl_consecutive_unlocks conf)[index :=
                     (if ts_pll_locked sample then 0 else sat_inc (pl_consecutive_unlocks conf ! index))] \<rparr>
         else conf)"

text \<open>The loop carries the confirmation, whether a sample was new, and the scan for the highest
  count; the first component of the result is the early INVALID.\<close>

fun pll_loop ::
    "bzm_telemetry_store_t \<Rightarrow> u64 \<Rightarrow> u64 \<Rightarrow> u8 \<Rightarrow> nat list \<Rightarrow> bzm_pll_lock_confirmation_t \<Rightarrow> bool \<Rightarrow> u8 \<times> nat \<times> bool \<Rightarrow>
     bool \<times> bzm_pll_lock_confirmation_t \<times> bool \<times> u8 \<times> nat \<times> bool" where
  "pll_loop store now_us max_age_us required [] conf any_new scan = (False, conf, any_new, scan)"
| "pll_loop store now_us max_age_us required (index # is) conf any_new scan =
     (if sample_unusable store (pl_last_timestamp_us conf) index \<or>
         \<not> bzm_telemetry_sample_is_fresh (Some (store ! index)) now_us max_age_us
      then (True, conf, any_new, scan)
      else
        (let fresh = (ts_timestamp_us (store ! index) \<noteq> pl_last_timestamp_us conf ! index);
             conf' = pll_count_step store index conf
         in pll_loop store now_us max_age_us required is conf' (any_new \<or> fresh)
              (highest_step (pl_consecutive_unlocks conf') required index scan)))"

definition bzm_pll_lock_confirmation_observe ::
    "bzm_pll_lock_confirmation_t option \<Rightarrow> bzm_telemetry_store_t option \<Rightarrow> u64 \<Rightarrow> u64 \<Rightarrow> u8 \<Rightarrow>
     bzm_pll_lock_confirmation_t option \<times> u8 \<times> u8 \<times> bzm_ch2_confirmation_result_t" where
  "bzm_pll_lock_confirmation_observe confirmation store now_us max_age_us required =
     (case (confirmation, store) of
        (Some conf, Some st) \<Rightarrow>
          if now_us = 0 \<or> max_age_us = 0 \<or> required = 0 \<or> required > BZM_CH2_CONFIRM_MAX_SAMPLES
          then (confirmation, 0, 0, BZM_CH2_CONFIRMATION_INVALID)
          else
            (case pll_loop st now_us max_age_us required [0..<BZM_MAX_ASIC_COUNT] conf False (0, 0, False) of
               (invalid, conf', any_new_sample, highest_count, highest_index, sustained) \<Rightarrow>
                 if invalid then (Some conf', 0, 0, BZM_CH2_CONFIRMATION_INVALID)
                 else (Some conf',
                       (if highest_count \<noteq> 0 then bzm_asic_wire_ids ! highest_index else 0),
                       (if highest_count \<noteq> 0 then highest_count else 0),
                       confirmation_verdict sustained any_new_sample highest_count))
      | _ \<Rightarrow> (confirmation, 0, 0, BZM_CH2_CONFIRMATION_INVALID))"

section \<open>Decoding\<close>

text \<open>The layout of the eight payload bytes: four status flags over the temperature code, two over the
  first channel, the channels packed across bytes 3 to 7, fault and lock in the last byte.\<close>

definition flag :: "nat \<Rightarrow> bool \<Rightarrow> u8" where
  "flag n b = (if b then push_bit n 1 else 0)"

definition telemetry_payload ::
    "bool \<Rightarrow> bool \<Rightarrow> bool \<Rightarrow> bool \<Rightarrow> u16 \<Rightarrow> bool \<Rightarrow> bool \<Rightarrow> u16 \<Rightarrow> u16 \<Rightarrow> u16 \<Rightarrow> bool \<Rightarrow> bool \<Rightarrow> u8 list" where
  "telemetry_payload t_enabled t_validity t_fault t_trip temperature v_enabled v_trip ch0 ch1 ch2 v_fault locked =
     [flag 7 t_enabled OR flag 6 t_validity OR flag 5 t_fault OR flag 4 t_trip OR ucast (drop_bit 8 temperature),
      ucast temperature,
      flag 7 v_enabled OR flag 6 v_trip OR ucast (drop_bit 8 ch0),
      ucast ch0,
      ucast (drop_bit 6 ch1),
      push_bit 6 (ucast ch2) OR (ucast ch1 AND 0x3f),
      ucast (drop_bit 2 ch2),
      flag 7 locked OR flag 4 v_fault OR ucast (drop_bit 10 ch2)]"

lemma bit_flag: "bit (flag n b) k \<longleftrightarrow> b \<and> k = n \<and> n < 8"
  by (auto simp: flag_def bit_simps)

lemma flag_tests:
  "(w AND 0x80 = (0 :: u8)) \<longleftrightarrow> \<not> bit w 7" "(w AND 0x40 = (0 :: u8)) \<longleftrightarrow> \<not> bit w 6"
  "(w AND 0x20 = (0 :: u8)) \<longleftrightarrow> \<not> bit w 5" "(w AND 0x10 = (0 :: u8)) \<longleftrightarrow> \<not> bit w 4"
  using and_exp_eq_0_iff_not_bit[of w 7] and_exp_eq_0_iff_not_bit[of w 6]
    and_exp_eq_0_iff_not_bit[of w 5] and_exp_eq_0_iff_not_bit[of w 4]
  by simp_all

lemma code_bound: "w < 2 ^ n \<Longrightarrow> n < LENGTH('a) \<Longrightarrow> bit w k \<Longrightarrow> k < n" for w :: "'a::len word"
  by (metis bit_take_bit_iff less_mask_eq take_bit_eq_mask)

lemma mask_bits:
  "(0x0f :: u8) = mask 4" "(0x3f :: u8) = mask 6"
  by (simp_all add: mask_eq_exp_minus_1)

lemma code_bits:
  fixes t c0 c1 c2 :: u16
  assumes "t < 2 ^ 12" and "c0 < 2 ^ 14" and "c1 < 2 ^ 14" and "c2 < 2 ^ 14"
  shows "push_bit 8 (ucast ((flag 7 a OR flag 6 b OR flag 5 c OR flag 4 d OR ucast (drop_bit 8 t)) AND 0x0f) :: u16) OR
           ucast (ucast t :: u8) = t"
    and "push_bit 8 (ucast ((flag 7 a OR flag 6 b OR ucast (drop_bit 8 c0)) AND 0x3f) :: u16) OR ucast (ucast c0 :: u8) = c0"
    and "push_bit 6 (ucast (ucast (drop_bit 6 c1) :: u8) :: u16) OR ucast ((push_bit 6 (ucast c2 :: u8) OR (ucast c1 AND 0x3f)) AND 0x3f) = c1"
    and "push_bit 10 (ucast ((flag 7 a OR flag 4 b OR ucast (drop_bit 10 c2)) AND 0x0f) :: u16) OR
           push_bit 2 (ucast (ucast (drop_bit 2 c2) :: u8)) OR
           ucast (drop_bit 6 (push_bit 6 (ucast c2 :: u8) OR (ucast c1 AND 0x3f))) = c2"
proof -
  have t: "bit t k \<Longrightarrow> k < 12" and c0: "bit c0 k \<Longrightarrow> k < 14" and c1: "bit c1 k \<Longrightarrow> k < 14" and c2: "bit c2 k \<Longrightarrow> k < 14" for k
    using code_bound[OF assms(1)] code_bound[OF assms(2)] code_bound[OF assms(3)] code_bound[OF assms(4)] by simp_all
  have two: "\<not> k < 2 \<Longrightarrow> Suc (Suc (k - 2)) = k" for k :: nat by simp
  show "push_bit 8 (ucast ((flag 7 a OR flag 6 b OR flag 5 c OR flag 4 d OR ucast (drop_bit 8 t)) AND 0x0f) :: u16) OR
           ucast (ucast t :: u8) = t"
    unfolding mask_bits by (rule bit_word_eqI) (auto simp: bit_simps bit_flag dest: t)
  show "push_bit 8 (ucast ((flag 7 a OR flag 6 b OR ucast (drop_bit 8 c0)) AND 0x3f) :: u16) OR ucast (ucast c0 :: u8) = c0"
    unfolding mask_bits by (rule bit_word_eqI) (auto simp: bit_simps bit_flag dest: c0)
  show "push_bit 6 (ucast (ucast (drop_bit 6 c1) :: u8) :: u16) OR ucast ((push_bit 6 (ucast c2 :: u8) OR (ucast c1 AND 0x3f)) AND 0x3f) = c1"
    unfolding mask_bits by (rule bit_word_eqI) (auto simp: bit_simps bit_flag dest: c1)
  show "push_bit 10 (ucast ((flag 7 a OR flag 4 b OR ucast (drop_bit 10 c2)) AND 0x0f) :: u16) OR
           push_bit 2 (ucast (ucast (drop_bit 2 c2) :: u8)) OR
           ucast (drop_bit 6 (push_bit 6 (ucast c2 :: u8) OR (ucast c1 AND 0x3f))) = c2"
    unfolding mask_bits by (rule bit_word_eqI) (auto simp: bit_simps bit_flag two not_less dest: c2)
qed

lemma payload_flags:
  "bit (flag 7 a OR flag 6 b OR flag 5 c OR flag 4 d OR ucast (drop_bit 8 (t :: u16))) 7 \<longleftrightarrow> a \<or> bit t 15"
  "bit (flag 7 a OR flag 6 b OR flag 5 c OR flag 4 d OR ucast (drop_bit 8 t)) 6 \<longleftrightarrow> b \<or> bit t 14"
  "bit (flag 7 a OR flag 6 b OR flag 5 c OR flag 4 d OR ucast (drop_bit 8 t)) 5 \<longleftrightarrow> c \<or> bit t 13"
  "bit (flag 7 a OR flag 6 b OR flag 5 c OR flag 4 d OR ucast (drop_bit 8 t)) 4 \<longleftrightarrow> d \<or> bit t 12"
  "bit (flag 7 a OR flag 6 b OR ucast (drop_bit 8 t)) 7 \<longleftrightarrow> a \<or> bit t 15"
  "bit (flag 7 a OR flag 6 b OR ucast (drop_bit 8 t)) 6 \<longleftrightarrow> b \<or> bit t 14"
  "bit (flag 7 a OR flag 4 b OR ucast (drop_bit 10 t)) 7 \<longleftrightarrow> a \<or> bit t 17"
  "bit (flag 7 a OR flag 4 b OR ucast (drop_bit 10 t)) 4 \<longleftrightarrow> b \<or> bit t 14"
  by (auto simp: bit_simps bit_flag)

lemma telemetry_decode_payload:
  assumes "t < 2 ^ 12" and "c0 < 2 ^ 14" and "c1 < 2 ^ 14" and "c2 < 2 ^ 14" and "valid_asic_id asic_id"
  shows "bzm_telemetry_decode asic_id
           (Some (telemetry_payload t_enabled t_validity t_fault t_trip t v_enabled v_trip c0 c1 c2 v_fault locked)) ts =
         Some \<lparr> ts_asic_id = asic_id, ts_timestamp_us = ts, ts_received = True, ts_temperature_code = t,
           ts_temperature_c = bzm_telemetry_temperature_from_code t,
           ts_thermal_enabled = t_enabled, ts_thermal_validity = t_validity, ts_thermal_fault = t_fault,
           ts_thermal_trip = t_trip, ts_thermal_valid = (t_enabled \<and> t_validity \<and> \<not> t_fault),
           ts_ch0_code = c0, ts_ch1_code = c1, ts_ch2_code = c2,
           ts_ch0_mv = bzm_telemetry_voltage_from_code_mv c0, ts_ch1_mv = bzm_telemetry_voltage_from_code_mv c1,
           ts_ch2_mv = bzm_telemetry_voltage_from_code_mv c2,
           ts_voltage_enabled = v_enabled, ts_voltage_fault = v_fault, ts_voltage_trip = v_trip,
           ts_voltage_valid = (v_enabled \<and> \<not> v_fault), ts_pll_locked = locked,
           ts_valid = (t_enabled \<and> t_validity \<and> \<not> t_fault \<and> v_enabled \<and> \<not> v_fault), ts_trip = (t_trip \<or> v_trip) \<rparr>"
proof -
  have no: "\<not> bit t 12" "\<not> bit t 13" "\<not> bit t 14" "\<not> bit t 15" "\<not> bit c0 14" "\<not> bit c0 15" "\<not> bit c2 14" "\<not> bit c2 17"
    using code_bound[OF assms(1), of 12] code_bound[OF assms(1), of 13] code_bound[OF assms(1), of 14]
      code_bound[OF assms(1), of 15] code_bound[OF assms(2), of 14] code_bound[OF assms(2), of 15]
      code_bound[OF assms(4), of 14] code_bound[OF assms(4), of 17] by auto
  define b0 b2 b5 b7 where b: "b0 = flag 7 t_enabled OR flag 6 t_validity OR flag 5 t_fault OR flag 4 t_trip OR ucast (drop_bit 8 t)"
    "b2 = flag 7 v_enabled OR flag 6 v_trip OR ucast (drop_bit 8 c0)"
    "b5 = (push_bit 6 (ucast c2) :: u8) OR (ucast c1 AND 0x3f)"
    "b7 = flag 7 locked OR flag 4 v_fault OR ucast (drop_bit 10 c2)"
  have payload: "telemetry_payload t_enabled t_validity t_fault t_trip t v_enabled v_trip c0 c1 c2 v_fault locked =
      [b0, ucast t, b2, ucast c0, ucast (drop_bit 6 c1), b5, ucast (drop_bit 2 c2), b7]"
    by (simp add: telemetry_payload_def b)
  have codes: "push_bit 8 (ucast (b0 AND 0x0f) :: u16) OR ucast (ucast t :: u8) = t"
    "push_bit 8 (ucast (b2 AND 0x3f) :: u16) OR ucast (ucast c0 :: u8) = c0"
    "push_bit 6 (ucast (ucast (drop_bit 6 c1) :: u8) :: u16) OR ucast (b5 AND 0x3f) = c1"
    "push_bit 10 (ucast (b7 AND 0x0f) :: u16) OR push_bit 2 (ucast (ucast (drop_bit 2 c2) :: u8)) OR ucast (drop_bit 6 b5) = c2"
    unfolding b by (rule code_bits[OF assms(1-4)])+
  have flags: "bit b0 7 = t_enabled" "bit b0 6 = t_validity" "bit b0 5 = t_fault" "bit b0 4 = t_trip"
    "bit b2 7 = v_enabled" "bit b2 6 = v_trip" "bit b7 7 = locked" "bit b7 4 = v_fault"
    unfolding b payload_flags using no by simp_all
  show ?thesis
    using assms(5) unfolding payload bzm_telemetry_decode_def Let_def flag_tests by (simp add: codes flags conj_assoc)
qed

section \<open>Confirmation of channel-two excursions\<close>

text \<open>A store whose samples a confirmation accepts as new, and the excursion it looks for.\<close>

definition all_new :: "u64 list \<Rightarrow> bzm_telemetry_store_t \<Rightarrow> bool" where
  "all_new last_timestamps store \<longleftrightarrow>
     (\<forall>i<4. \<not> sample_unusable store last_timestamps i \<and> last_timestamps ! i < ts_timestamp_us (store ! i))"

definition excursion :: "bzm_telemetry_bounds_t \<Rightarrow> nat \<Rightarrow> bzm_telemetry_store_t \<Rightarrow> bool" where
  "excursion bounds i store \<longleftrightarrow> \<not> flt_le (fabsf (ts_ch2_mv (store ! i))) (tb_ch2_abs_max_mv bounds)"

definition ch2_counted :: "bzm_telemetry_bounds_t \<Rightarrow> bzm_telemetry_store_t \<Rightarrow> bzm_ch2_confirmation_t \<Rightarrow> nat \<Rightarrow> u8" where
  "ch2_counted bounds store conf i =
     (if excursion bounds i store then sat_inc (c2_consecutive_excursions conf ! i) else 0)"

definition ch2_ok :: "bzm_ch2_confirmation_t \<Rightarrow> bool" where
  "ch2_ok conf \<longleftrightarrow> length (c2_consecutive_excursions conf) = 4 \<and> length (c2_last_timestamp_us conf) = 4"

lemma ch2_fold:
  assumes "ch2_ok conf" and "k \<le> 4"
    and "fold (ch2_count_step store bounds required) [0..<k] (conf, 0, 0, BZM_CH2_CONFIRMATION_GOOD) = (conf', cu, ob, r)"
  shows "ch2_ok conf' \<and>
    (\<forall>i<4. c2_consecutive_excursions conf' ! i =
       (if i < k then ch2_counted bounds store conf i else c2_consecutive_excursions conf ! i)) \<and>
    (\<forall>i<4. c2_last_timestamp_us conf' ! i = (if i < k then ts_timestamp_us (store ! i) else c2_last_timestamp_us conf ! i)) \<and>
    r = (if \<exists>i<k. excursion bounds i store \<and> required \<le> ch2_counted bounds store conf i then BZM_CH2_CONFIRMATION_CONTINUOUS
         else if \<exists>i<k. excursion bounds i store then BZM_CH2_CONFIRMATION_PENDING else BZM_CH2_CONFIRMATION_GOOD)"
  using assms(2,3)
proof (induction k arbitrary: conf' cu ob r)
  case 0
  then show ?case using assms(1) by auto
next
  case (Suc k)
  obtain c1 cu1 ob1 r1 where f: "fold (ch2_count_step store bounds required) [0..<k] (conf, 0, 0, BZM_CH2_CONFIRMATION_GOOD) = (c1, cu1, ob1, r1)"
    by (metis prod_cases4)
  note IH = Suc.IH[OF _ f]
  have step: "(conf', cu, ob, r) = ch2_count_step store bounds required k (c1, cu1, ob1, r1)"
    using Suc.prems(2) f by simp
  have c1k: "c2_consecutive_excursions c1 ! k = c2_consecutive_excursions conf ! k" "k < 4"
    using IH Suc.prems(1) by auto
  have len: "length (c2_consecutive_excursions c1) = 4" "length (c2_last_timestamp_us c1) = 4"
    using IH Suc.prems(1) by (auto simp: ch2_ok_def)
  have nf: "flt_le (fabsf (ts_ch2_mv (store ! k))) (tb_ch2_abs_max_mv bounds) = (\<not> excursion bounds k store)"
    by (simp add: excursion_def)
  have out: "c2_consecutive_excursions conf' = (c2_consecutive_excursions c1)[k := ch2_counted bounds store conf k]"
    "c2_last_timestamp_us conf' = (c2_last_timestamp_us c1)[k := ts_timestamp_us (store ! k)]"
    "r = (if excursion bounds k store then
            if required \<le> ch2_counted bounds store conf k then BZM_CH2_CONFIRMATION_CONTINUOUS
            else if r1 = BZM_CH2_CONFIRMATION_GOOD then BZM_CH2_CONFIRMATION_PENDING else r1 else r1)"
    using step c1k by (simp_all add: ch2_count_step_def nf Let_def ch2_counted_def split: if_splits)
  show ?case unfolding ch2_ok_def out
    using IH Suc.prems(1) len by (auto simp: nth_list_update less_Suc_eq)
qed

definition ch2_step :: "bzm_telemetry_bounds_t \<Rightarrow> u8 \<Rightarrow> bzm_ch2_confirmation_t \<Rightarrow> bzm_telemetry_store_t \<Rightarrow> bzm_ch2_confirmation_t" where
  "ch2_step bounds required conf store = the (fst (bzm_ch2_confirmation_observe (Some conf) (Some store) (Some bounds) required))"

definition ch2_result :: "bzm_telemetry_bounds_t \<Rightarrow> u8 \<Rightarrow> bzm_ch2_confirmation_t \<Rightarrow> bzm_telemetry_store_t \<Rightarrow> bzm_ch2_confirmation_result_t" where
  "ch2_result bounds required conf store =
     snd (snd (snd (bzm_ch2_confirmation_observe (Some conf) (Some store) (Some bounds) required)))"

definition ch2_accepts :: "bzm_telemetry_bounds_t \<Rightarrow> u8 \<Rightarrow> bzm_ch2_confirmation_t \<Rightarrow> bzm_telemetry_store_t \<Rightarrow> bool" where
  "ch2_accepts bounds required conf store \<longleftrightarrow>
     ch2_result bounds required conf store \<notin> {BZM_CH2_CONFIRMATION_INVALID, BZM_CH2_CONFIRMATION_NO_NEW_SAMPLE}"

lemma ch2_observe_cases:
  assumes "ch2_ok conf"
  obtains "ch2_step bounds required conf store = conf" "\<not> ch2_accepts bounds required conf store"
  | cu ob where "fold (ch2_count_step store bounds required) [0..<4] (conf, 0, 0, BZM_CH2_CONFIRMATION_GOOD) =
      (ch2_step bounds required conf store, cu, ob, ch2_result bounds required conf store)"
proof (cases "ch2_accepts bounds required conf store")
  case True
  obtain c cu ob r where f: "fold (ch2_count_step store bounds required) [0..<4] (conf, 0, 0, BZM_CH2_CONFIRMATION_GOOD) = (c, cu, ob, r)"
    by (metis prod_cases4)
  have "bzm_ch2_confirmation_observe (Some conf) (Some store) (Some bounds) required = (Some c, cu, ob, r)"
    using True f unfolding ch2_accepts_def ch2_result_def bzm_ch2_confirmation_observe_def
    by (simp del: upt_rec_numeral split: if_splits option.splits)
  then show thesis using f that(2) by (simp add: ch2_step_def ch2_result_def)
next
  case False
  obtain c cu ob r where f: "fold (ch2_count_step store bounds required) [0..<4] (conf, 0, 0, BZM_CH2_CONFIRMATION_GOOD) = (c, cu, ob, r)"
    by (metis prod_cases4)
  have "r \<notin> {BZM_CH2_CONFIRMATION_INVALID, BZM_CH2_CONFIRMATION_NO_NEW_SAMPLE}"
    using ch2_fold[OF assms _ f] by (auto split: if_splits)
  then have "ch2_step bounds required conf store = conf"
    using False f unfolding ch2_accepts_def ch2_result_def ch2_step_def bzm_ch2_confirmation_observe_def
    by (auto simp del: upt_rec_numeral split: if_splits option.splits)
  then show thesis using False that(1) by blast
qed

lemma ch2_step_ok:
  assumes "ch2_ok conf"
  shows "ch2_ok (ch2_step bounds required conf store)"
  using assms ch2_observe_cases[OF assms, of bounds required store] by (metis ch2_fold[OF assms] order_refl)

lemma ch2_accepted:
  assumes "ch2_ok conf" and "ch2_accepts bounds required conf store"
  shows "i < 4 \<Longrightarrow> c2_consecutive_excursions (ch2_step bounds required conf store) ! i = ch2_counted bounds store conf i"
    and "ch2_result bounds required conf store =
      (if \<exists>i<4. excursion bounds i store \<and> required \<le> ch2_counted bounds store conf i then BZM_CH2_CONFIRMATION_CONTINUOUS
       else if \<exists>i<4. excursion bounds i store then BZM_CH2_CONFIRMATION_PENDING else BZM_CH2_CONFIRMATION_GOOD)"
  using ch2_observe_cases[OF assms(1), of bounds required store] assms(2)
  by (metis ch2_fold[OF assms(1)] order_refl)+

interpretation ch2: run_counter "ch2_step bounds required"
    "\<lambda>conf store. ch2_accepts bounds required conf store \<and> i < 4" "\<lambda>_. excursion bounds i"
    "\<lambda>conf. c2_consecutive_excursions conf ! i" ch2_ok for bounds required i
  by unfold_locales (simp_all add: ch2_step_ok ch2_accepted ch2_counted_def)

lemma ch2_init_ok: "ch2_ok bzm_ch2_confirmation_init"
  by (simp add: ch2_ok_def bzm_ch2_confirmation_init_def)

section \<open>Confirmation of telemetry anomalies\<close>

text \<open>An observation is a store and its time. The fresh samples of one ASIC in a run, oldest first,
  each with the time it was judged; a sample is fresh when its timestamp differs from the last one.\<close>

type_synonym observation = "bzm_telemetry_store_t \<times> u64"

definition fresh_step :: "nat \<Rightarrow> observation \<Rightarrow> u64 \<times> (bzm_telemetry_sample_t \<times> u64) list \<Rightarrow>
    u64 \<times> (bzm_telemetry_sample_t \<times> u64) list" where
  "fresh_step i = (\<lambda>(store, now) (last_ts, h).
     (if ts_timestamp_us (store ! i) = last_ts then (last_ts, h)
      else (ts_timestamp_us (store ! i), h @ [(store ! i, now)])))"

definition fresh_samples :: "nat \<Rightarrow> observation list \<Rightarrow> (bzm_telemetry_sample_t \<times> u64) list" where
  "fresh_samples i obs = snd (fold (fresh_step i) obs (0, []))"

text \<open>The unbroken run of unsafe samples that ends a history.\<close>

definition unsafe_sample ::
    "u64 \<Rightarrow> bzm_telemetry_bounds_t \<Rightarrow> bool \<Rightarrow> bzm_telemetry_sample_t \<times> u64 \<Rightarrow> bool" where
  "unsafe_sample max_age bounds locks = (\<lambda>(sample, now). \<not> bzm_telemetry_sample_is_safe (Some sample) now max_age (Some bounds) locks)"

definition unsafe_run ::
    "u64 \<Rightarrow> bzm_telemetry_bounds_t \<Rightarrow> bool \<Rightarrow> (bzm_telemetry_sample_t \<times> u64) list \<Rightarrow> (bzm_telemetry_sample_t \<times> u64) list" where
  "unsafe_run max_age bounds locks h = takeWhile (unsafe_sample max_age bounds locks) (rev h)"

definition tripped :: "bzm_telemetry_sample_t \<times> u64 \<Rightarrow> bool" where
  "tripped x \<longleftrightarrow> bzm_telemetry_sample_has_immediate_trip (Some (fst x))"

text \<open>A real anomaly: enough unsafe samples in a row, or a trip among them.\<close>

definition anomaly_confirmed ::
    "u64 \<Rightarrow> bzm_telemetry_bounds_t \<Rightarrow> bool \<Rightarrow> u8 \<Rightarrow> (bzm_telemetry_sample_t \<times> u64) list \<Rightarrow> bool" where
  "anomaly_confirmed max_age bounds locks required h \<longleftrightarrow>
     unat required \<le> length (unsafe_run max_age bounds locks h) \<or> list_ex tripped (unsafe_run max_age bounds locks h)"

definition anomaly_total ::
    "u64 \<Rightarrow> bzm_telemetry_bounds_t \<Rightarrow> bool \<Rightarrow> u8 \<Rightarrow> (bzm_telemetry_sample_t \<times> u64) list \<Rightarrow> u8" where
  "anomaly_total max_age bounds locks required h =
     fold (\<lambda>(sample, now) c. anomaly_count sample now max_age (Some bounds) locks required c) h 0"

lemma tripped_unsafe: "tripped x \<Longrightarrow> unsafe_sample max_age bounds locks x"
  by (cases x) (auto simp: tripped_def unsafe_sample_def bzm_telemetry_sample_is_safe_def bzm_telemetry_sample_has_immediate_trip_def)

lemma anomaly_total_snoc:
  "anomaly_total max_age bounds locks required (h @ [x]) =
     (if tripped x then required
      else if unsafe_sample max_age bounds locks x then sat_inc (anomaly_total max_age bounds locks required h) else 0)"
  by (cases x) (simp add: anomaly_total_def anomaly_count_def tripped_def unsafe_sample_def)

lemma anomaly_total_confirmed:
  assumes "0 < required" and "required \<le> BZM_CH2_CONFIRM_MAX_SAMPLES"
  shows "(required \<le> anomaly_total max_age bounds locks required h \<longleftrightarrow> anomaly_confirmed max_age bounds locks required h) \<and>
    (anomaly_total max_age bounds locks required h = 0 \<longleftrightarrow> unsafe_run max_age bounds locks h = []) \<and>
    (\<not> list_ex tripped (unsafe_run max_age bounds locks h) \<longrightarrow>
      unat (anomaly_total max_age bounds locks required h) = min 255 (length (unsafe_run max_age bounds locks h)))"
proof -
  have req: "0 < unat required" "unat required \<le> 10"
    using assms by (auto simp: word_less_nat_alt word_le_nat_alt unat_gt_0)
  show ?thesis
  proof (induction h rule: rev_induct)
    case Nil
    then show ?case using req by (simp add: anomaly_total_def anomaly_confirmed_def unsafe_run_def word_le_nat_alt)
  next
    case (snoc x h)
    have "unat (anomaly_total max_age bounds locks required h) \<le> 255"
      using unsigned_less[of "anomaly_total max_age bounds locks required h", where ?'a = nat] by simp
    then show ?case
      using snoc req tripped_unsafe[of x max_age bounds locks]
      by (auto simp: anomaly_total_snoc unsafe_run_def anomaly_confirmed_def word_le_nat_alt unat_sat_inc unat_eq_0[symmetric])
  qed
qed

definition tc_ok :: "bzm_telemetry_confirmation_t \<Rightarrow> bool" where
  "tc_ok conf \<longleftrightarrow> length (tc_consecutive_anomalies conf) = 4 \<and> length (tc_last_timestamp_us conf) = 4"

lemma telemetry_loop:
  "telemetry_count_loop store now max_age bounds locks required is conf any = (False, conf', any') \<Longrightarrow>
   tc_ok conf \<Longrightarrow> distinct is \<Longrightarrow> set is \<subseteq> {..<4} \<Longrightarrow>
   tc_ok conf' \<and>
   (\<forall>i<4. tc_last_timestamp_us conf' ! i = (if i \<in> set is then ts_timestamp_us (store ! i) else tc_last_timestamp_us conf ! i)) \<and>
   (\<forall>i<4. tc_consecutive_anomalies conf' ! i =
      (if i \<in> set is \<and> ts_timestamp_us (store ! i) \<noteq> tc_last_timestamp_us conf ! i
       then anomaly_count (store ! i) now max_age bounds locks required (tc_consecutive_anomalies conf ! i)
       else tc_consecutive_anomalies conf ! i))"
proof (induction "is" arbitrary: conf any)
  case (Cons k ks)
  show ?case
  proof (cases "ts_timestamp_us (store ! k) = tc_last_timestamp_us conf ! k")
    case True
    then have "telemetry_count_loop store now max_age bounds locks required ks conf any = (False, conf', any')"
      using Cons.prems(1) by (simp add: Let_def split: if_splits)
    from Cons.IH[OF this Cons.prems(2)] show ?thesis using Cons.prems(3,4) True by auto
  next
    case False
    define c where "c = conf\<lparr> tc_last_timestamp_us := (tc_last_timestamp_us conf)[k := ts_timestamp_us (store ! k)],
        tc_consecutive_anomalies := (tc_consecutive_anomalies conf)[k :=
          anomaly_count (store ! k) now max_age bounds locks required (tc_consecutive_anomalies conf ! k)] \<rparr>"
    have "telemetry_count_loop store now max_age bounds locks required ks c True = (False, conf', any')"
      using Cons.prems(1) False by (simp add: Let_def c_def split: if_splits)
    from Cons.IH[OF this] show ?thesis using Cons.prems(2-4) False
      by (auto simp: c_def tc_ok_def nth_list_update)
  qed
qed auto

lemma highest_scan:
  "fold (highest_step counts required) is (h0, j0, c0) = (h, j, c) \<Longrightarrow>
   (c \<longleftrightarrow> c0 \<or> (\<exists>i\<in>set is. required \<le> counts ! i)) \<and> (h = 0 \<longleftrightarrow> h0 = 0 \<and> (\<forall>i\<in>set is. counts ! i = 0))"
proof (induction "is" arbitrary: h0 j0 c0)
  case (Cons k ks)
  have "counts ! k > h0 \<Longrightarrow> counts ! k \<noteq> 0" by auto
  moreover have "\<not> counts ! k > h0 \<Longrightarrow> h0 = 0 \<Longrightarrow> counts ! k = 0" by (auto simp: word_gt_0)
  ultimately show ?case
    using Cons.IH[of "if counts ! k > h0 then counts ! k else h0" "if counts ! k > h0 then k else j0" "c0 \<or> counts ! k \<ge> required"]
      Cons.prems by (auto simp: highest_step_def split: if_splits)
qed auto

definition tc_step ::
    "u64 \<Rightarrow> bzm_telemetry_bounds_t \<Rightarrow> bool \<Rightarrow> u8 \<Rightarrow> bzm_telemetry_confirmation_t \<Rightarrow> observation \<Rightarrow> bzm_telemetry_confirmation_t" where
  "tc_step max_age bounds locks required conf = (\<lambda>(store, now).
     the (fst (bzm_telemetry_confirmation_observe (Some conf) (Some store) now max_age (Some bounds) locks required)))"

definition tc_result ::
    "u64 \<Rightarrow> bzm_telemetry_bounds_t \<Rightarrow> bool \<Rightarrow> u8 \<Rightarrow> bzm_telemetry_confirmation_t \<Rightarrow> observation \<Rightarrow> bzm_ch2_confirmation_result_t" where
  "tc_result max_age bounds locks required conf = (\<lambda>(store, now).
     snd (snd (snd (bzm_telemetry_confirmation_observe (Some conf) (Some store) now max_age (Some bounds) locks required))))"

definition tc_valid ::
    "u64 \<Rightarrow> bzm_telemetry_bounds_t \<Rightarrow> bool \<Rightarrow> u8 \<Rightarrow> bzm_telemetry_confirmation_t \<Rightarrow> observation \<Rightarrow> bool" where
  "tc_valid max_age bounds locks required conf ob \<longleftrightarrow>
     tc_result max_age bounds locks required conf ob \<noteq> BZM_CH2_CONFIRMATION_INVALID"

lemma verdict_not_invalid: "confirmation_verdict a b c \<noteq> BZM_CH2_CONFIRMATION_INVALID"
  by (simp add: confirmation_verdict_def)

lemma tc_observe:
  assumes "tc_valid max_age bounds locks required conf (store, now)"
  obtains any h j c where
    "telemetry_count_loop store now max_age (Some bounds) locks required [0..<4] conf False =
       (False, tc_step max_age bounds locks required conf (store, now), any)"
    "fold (highest_step (tc_consecutive_anomalies (tc_step max_age bounds locks required conf (store, now))) required) [0..<4]
       (0, 0, False) = (h, j, c)"
    "tc_result max_age bounds locks required conf (store, now) = confirmation_verdict c any h"
    "0 < required" "required \<le> BZM_CH2_CONFIRM_MAX_SAMPLES"
proof -
  obtain inv conf' any where l: "telemetry_count_loop store now max_age (Some bounds) locks required [0..<4] conf False = (inv, conf', any)"
    by (metis prod_cases3)
  obtain h j c where f: "fold (highest_step (tc_consecutive_anomalies conf') required) [0..<4] (0, 0, False) = (h, j, c)"
    by (metis prod_cases3)
  have ob: "bzm_telemetry_confirmation_observe (Some conf) (Some store) now max_age (Some bounds) locks required =
      (Some conf', if h \<noteq> 0 then bzm_asic_wire_ids ! j else 0, if h \<noteq> 0 then h else 0, confirmation_verdict c any h)"
    and "\<not> inv" "0 < required" "required \<le> BZM_CH2_CONFIRM_MAX_SAMPLES"
    using assms l f
    by (auto simp: tc_valid_def tc_result_def bzm_telemetry_confirmation_observe_def word_gt_0 simp del: upt_rec_numeral split: if_splits)
  then show thesis using l f that[of any h j c] by (simp add: tc_step_def tc_result_def del: upt_rec_numeral)
qed

lemma tc_init_ok: "tc_ok bzm_telemetry_confirmation_init"
  by (simp add: tc_ok_def bzm_telemetry_confirmation_init_def)

lemma tc_run:
  assumes "list_all id (events (tc_step max_age bounds locks required) (tc_valid max_age bounds locks required)
      bzm_telemetry_confirmation_init obs)"
  defines "conf \<equiv> foldl (tc_step max_age bounds locks required) bzm_telemetry_confirmation_init obs"
  shows "tc_ok conf \<and> (\<forall>i<4. fst (fold (fresh_step i) obs (0, [])) = tc_last_timestamp_us conf ! i \<and>
    tc_consecutive_anomalies conf ! i = anomaly_total max_age bounds locks required (fresh_samples i obs))"
  using assms(1) unfolding conf_def
proof (induction obs rule: rev_induct)
  case Nil
  then show ?case
    by (auto simp: tc_ok_def bzm_telemetry_confirmation_init_def fresh_samples_def anomaly_total_def)
next
  case (snoc ob obs)
  obtain store now where ob: "ob = (store, now)" by (cases ob)
  let ?c = "foldl (tc_step max_age bounds locks required) bzm_telemetry_confirmation_init obs"
  have v: "tc_valid max_age bounds locks required ?c (store, now)" and IH: "tc_ok ?c \<and>
      (\<forall>i<4. fst (fold (fresh_step i) obs (0, [])) = tc_last_timestamp_us ?c ! i \<and>
        tc_consecutive_anomalies ?c ! i = anomaly_total max_age bounds locks required (fresh_samples i obs))"
    using snoc ob by (auto simp: events_append)
  obtain any h j c where l: "telemetry_count_loop store now max_age (Some bounds) locks required [0..<4] ?c False =
      (False, tc_step max_age bounds locks required ?c (store, now), any)"
    using tc_observe[OF v] by metis
  have "set [0..<4] \<subseteq> {..<4::nat}" by auto
  note step = telemetry_loop[OF l conjunct1[OF IH] distinct_upt this]
  have fresh: "fold (fresh_step i) (obs @ [ob]) (0, []) =
      (ts_timestamp_us (store ! i),
       if ts_timestamp_us (store ! i) = tc_last_timestamp_us ?c ! i then fresh_samples i obs
       else fresh_samples i obs @ [(store ! i, now)])" if "i < 4" for i
    using IH that by (cases "fold (fresh_step i) obs (0, [])") (auto simp: fresh_step_def ob fresh_samples_def)
  have total: "anomaly_total max_age bounds locks required (H @ [(store ! i, now)]) =
      anomaly_count (store ! i) now max_age (Some bounds) locks required (anomaly_total max_age bounds locks required H)" for H i
    by (simp add: anomaly_total_def)
  show ?case using step IH fresh by (auto simp: ob fresh_samples_def total)
qed

lemma tc_run_result:
  assumes "list_all id (events (tc_step max_age bounds locks required) (tc_valid max_age bounds locks required)
      bzm_telemetry_confirmation_init (obs @ [ob]))"
  defines "r \<equiv> tc_result max_age bounds locks required
      (foldl (tc_step max_age bounds locks required) bzm_telemetry_confirmation_init obs) ob"
  shows "r = BZM_CH2_CONFIRMATION_CONTINUOUS \<longleftrightarrow>
      (\<exists>i<4. anomaly_confirmed max_age bounds locks required (fresh_samples i (obs @ [ob])))"
    and "r = BZM_CH2_CONFIRMATION_GOOD \<Longrightarrow> i < 4 \<Longrightarrow> unsafe_run max_age bounds locks (fresh_samples i (obs @ [ob])) = []"
proof -
  obtain store now where ob: "ob = (store, now)" by (cases ob)
  let ?c = "foldl (tc_step max_age bounds locks required) bzm_telemetry_confirmation_init obs"
  let ?d = "tc_step max_age bounds locks required ?c (store, now)"
  have v: "tc_valid max_age bounds locks required ?c (store, now)"
    using assms(1) ob by (simp add: events_append)
  obtain any h j c where o: "fold (highest_step (tc_consecutive_anomalies ?d) required) [0..<4] (0, 0, False) = (h, j, c)"
      "tc_result max_age bounds locks required ?c (store, now) = confirmation_verdict c any h"
      "0 < required" "required \<le> BZM_CH2_CONFIRM_MAX_SAMPLES"
    using tc_observe[OF v] by metis
  have run: "tc_consecutive_anomalies ?d ! i = anomaly_total max_age bounds locks required (fresh_samples i (obs @ [ob]))"
    if "i < 4" for i
    using tc_run[OF assms(1)] that ob by simp
  have scan: "c \<longleftrightarrow> (\<exists>i<4. required \<le> tc_consecutive_anomalies ?d ! i)" "h = 0 \<longleftrightarrow> (\<forall>i<4. tc_consecutive_anomalies ?d ! i = 0)"
    using highest_scan[OF o(1)] by auto
  note confirmed = anomaly_total_confirmed[OF o(3,4), of max_age bounds locks]
  show "r = BZM_CH2_CONFIRMATION_CONTINUOUS \<longleftrightarrow>
      (\<exists>i<4. anomaly_confirmed max_age bounds locks required (fresh_samples i (obs @ [ob])))"
    unfolding r_def using o(2) scan(1) run confirmed ob by (auto simp: confirmation_verdict_def)
  show "r = BZM_CH2_CONFIRMATION_GOOD \<Longrightarrow> i < 4 \<Longrightarrow> unsafe_run max_age bounds locks (fresh_samples i (obs @ [ob])) = []"
    unfolding r_def using o(2) scan(2) run confirmed ob by (auto simp: confirmation_verdict_def split: if_splits)
qed

section \<open>Properties\<close>

text \<open>Decoding a telemetry payload inverts the layout of the TDM frame: from the payload built out
  of any twelve-bit temperature code, three fourteen-bit channel codes and eight status flags, the
  decoder recovers every code and flag, converts the codes, and derives validity (enabled, valid, no
  fault) and trip from the flags. A payload of another length, a missing payload or an unknown ASIC
  is refused.\<close>

theorem telemetry_decode_inverts_layout:
  assumes "t < 2 ^ 12" and "c0 < 2 ^ 14" and "c1 < 2 ^ 14" and "c2 < 2 ^ 14" and "valid_asic_id asic_id"
  shows "(bzm_telemetry_decode asic_id payload ts \<noteq> None \<longleftrightarrow> (\<exists>p. payload = Some p \<and> length p = 8)) \<and>
         bzm_telemetry_decode asic_id
           (Some (telemetry_payload t_enabled t_validity t_fault t_trip t v_enabled v_trip c0 c1 c2 v_fault locked)) ts =
         Some \<lparr> ts_asic_id = asic_id, ts_timestamp_us = ts, ts_received = True, ts_temperature_code = t,
           ts_temperature_c = bzm_telemetry_temperature_from_code t,
           ts_thermal_enabled = t_enabled, ts_thermal_validity = t_validity, ts_thermal_fault = t_fault,
           ts_thermal_trip = t_trip, ts_thermal_valid = (t_enabled \<and> t_validity \<and> \<not> t_fault),
           ts_ch0_code = c0, ts_ch1_code = c1, ts_ch2_code = c2,
           ts_ch0_mv = bzm_telemetry_voltage_from_code_mv c0, ts_ch1_mv = bzm_telemetry_voltage_from_code_mv c1,
           ts_ch2_mv = bzm_telemetry_voltage_from_code_mv c2,
           ts_voltage_enabled = v_enabled, ts_voltage_fault = v_fault, ts_voltage_trip = v_trip,
           ts_voltage_valid = (v_enabled \<and> \<not> v_fault), ts_pll_locked = locked,
           ts_valid = (t_enabled \<and> t_validity \<and> \<not> t_fault \<and> v_enabled \<and> \<not> v_fault), ts_trip = (t_trip \<or> v_trip) \<rparr>"
  using assms telemetry_decode_payload
  by (intro conjI; (simp; fail)?) (auto simp: bzm_telemetry_decode_def Let_def split: option.splits)

lemma telemetry_decode_inverts_layout_witness:
  "map_option ts_ch2_code (bzm_telemetry_decode 0x14
     (Some (telemetry_payload True True False False 0xabc True False 0x1234 0x2345 0x3456 False True)) 7) = Some 0x3456 \<and>
   bzm_telemetry_decode 0x14 (Some []) 7 = None"
proof -
  have v: "valid_asic_id 0x14" by (simp add: valid_asic_id_def bzm_topology_asic_index_def bzm_asic_wire_ids_def)
  show ?thesis
    using telemetry_decode_inverts_layout[of "0xabc" "0x1234" "0x2345" "0x3456" "0x14" "Some []" 7 True True False False True False False True] v
    by simp
qed

text \<open>The channel-two confirmation counts consecutive excursions exactly: over any run of accepted
  observations from the initial state, the verdict on the last one is CONTINUOUS exactly when some
  ASIC has exceeded the limit in at least the required number of observations in a row up to now,
  PENDING when some ASIC exceeds it now but none for long enough, and GOOD otherwise. A single clean
  sample clears an ASIC.\<close>

theorem ch2_confirmation_exact:
  assumes "0 < required" and "required \<le> BZM_CH2_CONFIRM_MAX_SAMPLES"
    and "list_all id (events (ch2_step bounds required) (ch2_accepts bounds required) bzm_ch2_confirmation_init (stores @ [store]))"
  shows "ch2_result bounds required (foldl (ch2_step bounds required) bzm_ch2_confirmation_init stores) store =
     (if \<exists>i<4. unat required \<le> trailing_run (map (excursion bounds i) (stores @ [store])) then BZM_CH2_CONFIRMATION_CONTINUOUS
      else if \<exists>i<4. excursion bounds i store then BZM_CH2_CONFIRMATION_PENDING else BZM_CH2_CONFIRMATION_GOOD)"
proof -
  let ?c = "foldl (ch2_step bounds required) bzm_ch2_confirmation_init stores"
  have acc: "ch2_accepts bounds required ?c store"
    and before: "list_all id (events (ch2_step bounds required) (ch2_accepts bounds required) bzm_ch2_confirmation_init stores)"
    using assms(3) by (simp_all add: events_append)
  have ok: "ch2_ok ?c" using ch2.inv_run[OF ch2_init_ok] .
  have count: "unat (c2_consecutive_excursions ?c ! i) = min 255 (trailing_run (map (excursion bounds i) stores))" if "i < 4" for i
    using ch2.count_run[OF ch2_init_ok, of i bounds required stores] before that
    by (simp add: bzm_ch2_confirmation_init_def events_map[of _ "excursion bounds i"])
  have req: "0 < unat required" "unat required \<le> 10"
    using assms(1,2) by (auto simp: word_less_nat_alt word_le_nat_alt)
  have each: "excursion bounds i store \<and> required \<le> ch2_counted bounds store ?c i \<longleftrightarrow>
      unat required \<le> trailing_run (map (excursion bounds i) (stores @ [store]))" if "i < 4" for i
    using that req by (auto simp: ch2_counted_def word_le_nat_alt unat_sat_inc count)
  have "(\<exists>i<4. excursion bounds i store \<and> required \<le> ch2_counted bounds store ?c i) =
      (\<exists>i<4. unat required \<le> trailing_run (map (excursion bounds i) (stores @ [store])))"
    using each by blast
  then show ?thesis unfolding ch2_accepted(2)[OF ok acc] by simp
qed

text \<open>C26. The telemetry confirmation reports a continuous anomaly exactly when one is there: over any
  run of observations it did not call invalid, the verdict is CONTINUOUS exactly when for some ASIC the
  unbroken run of unsafe fresh samples up to now has the required length or contains a trip, and GOOD
  only when the newest fresh sample of every ASIC was safe. Repeated samples are not counted twice.\<close>

theorem telemetry_confirmation_exact:
  assumes "list_all id (events (tc_step max_age bounds locks required) (tc_valid max_age bounds locks required)
      bzm_telemetry_confirmation_init (obs @ [ob]))"
  defines "r \<equiv> tc_result max_age bounds locks required
      (foldl (tc_step max_age bounds locks required) bzm_telemetry_confirmation_init obs) ob"
  shows "(r = BZM_CH2_CONFIRMATION_CONTINUOUS \<longleftrightarrow>
      (\<exists>i<4. anomaly_confirmed max_age bounds locks required (fresh_samples i (obs @ [ob])))) \<and>
    (r = BZM_CH2_CONFIRMATION_GOOD \<longrightarrow> (\<forall>i<4. unsafe_run max_age bounds locks (fresh_samples i (obs @ [ob])) = []))"
  unfolding r_def using tc_run_result[OF assms(1)] by blast

definition demo_bounds :: bzm_telemetry_bounds_t where
  "demo_bounds = \<lparr> tb_temperature_min_c = Fin 0, tb_temperature_max_c = Fin 90, tb_ch0_min_mv = Fin 100, tb_ch0_max_mv = Fin 400,
     tb_ch1_min_mv = Fin 100, tb_ch1_max_mv = Fin 400, tb_ch2_abs_max_mv = Fin 50, tb_max_stack_spread_mv = Fin 100 \<rparr>"

definition demo_store :: "u64 \<Rightarrow> cfloat \<Rightarrow> bzm_telemetry_store_t" where
  "demo_store ts ch2 = map (\<lambda>i. zero_sample\<lparr> ts_asic_id := bzm_asic_wire_ids ! i, ts_timestamp_us := ts, ts_received := True,
     ts_temperature_c := Fin 40, ts_ch0_mv := Fin 300, ts_ch1_mv := Fin 300, ts_ch2_mv := (if i = 2 then ch2 else Fin 1),
     ts_thermal_valid := True, ts_voltage_valid := True, ts_valid := True \<rparr>) [0..<4]"

lemma ch2_confirmation_exact_witness:
  "ch2_result demo_bounds 2 (foldl (ch2_step demo_bounds 2) bzm_ch2_confirmation_init [demo_store 10 (Fin 60)])
     (demo_store 20 (Fin 70)) = BZM_CH2_CONFIRMATION_CONTINUOUS"
proof -
  have "list_all id (events (ch2_step demo_bounds 2) (ch2_accepts demo_bounds 2) bzm_ch2_confirmation_init
      ([demo_store 10 (Fin 60)] @ [demo_store 20 (Fin 70)]))"
    by code_simp
  moreover have "\<exists>i<4. unat (2 :: u8) \<le> trailing_run (map (excursion demo_bounds i) ([demo_store 10 (Fin 60)] @ [demo_store 20 (Fin 70)]))"
    by (rule exI[of _ 2]) code_simp
  ultimately show ?thesis
    using ch2_confirmation_exact[of 2 demo_bounds "[demo_store 10 (Fin 60)]" "demo_store 20 (Fin 70)"] by simp
qed

lemma telemetry_confirmation_exact_witness:
  "(\<exists>i<4. anomaly_confirmed 100 demo_bounds False 2 (fresh_samples i ([(demo_store 10 (Fin 60), 15)] @ [(demo_store 20 (Fin 70), 25)]))) \<and>
   unsafe_run 100 demo_bounds False (fresh_samples 0 ([] @ [(demo_store 10 (Fin 1), 15)])) = []"
proof -
  have v: "list_all id (events (tc_step 100 demo_bounds False 2) (tc_valid 100 demo_bounds False 2)
      bzm_telemetry_confirmation_init ([(demo_store 10 (Fin 60), 15)] @ [(demo_store 20 (Fin 70), 25)]))"
    "list_all id (events (tc_step 100 demo_bounds False 2) (tc_valid 100 demo_bounds False 2)
      bzm_telemetry_confirmation_init ([] @ [(demo_store 10 (Fin 1), 15)]))"
    by code_simp+
  have r: "tc_result 100 demo_bounds False 2 (foldl (tc_step 100 demo_bounds False 2) bzm_telemetry_confirmation_init
        [(demo_store 10 (Fin 60), 15)]) (demo_store 20 (Fin 70), 25) = BZM_CH2_CONFIRMATION_CONTINUOUS"
    "tc_result 100 demo_bounds False 2 (foldl (tc_step 100 demo_bounds False 2) bzm_telemetry_confirmation_init [])
        (demo_store 10 (Fin 1), 15) = BZM_CH2_CONFIRMATION_GOOD"
    by code_simp+
  show ?thesis
    using telemetry_confirmation_exact[OF v(1)] telemetry_confirmation_exact[OF v(2)] r zero_less_numeral by blast
qed

end
