(* ===== verification/Transport.thy ===== *)
theory Transport
  imports Telemetry
begin

text \<open>
  The statistics that the serial transport of the ASIC chain reports (\<open>components/asic/include/bzm_transport.h\<close>).
\<close>

section \<open>Model: parser statistics\<close>

record bzm_serial_parser_stats_t =
  ps_emitted_frames :: u32
  ps_discarded_bytes :: u32
  ps_emitted_frames_at_last_discard :: u32
  ps_unexpected_register_headers :: u32
  ps_dropped_results :: u32
  ps_rejected_result_frames :: u32
  ps_unmatched_register_frames :: u32
  ps_unsolicited_noop_frames :: u32
  ps_invalid_noop_frames :: u32
  ps_telemetry_decode_failures :: u32
  ps_buffered_bytes :: nat
  ps_queued_results :: nat
  ps_recent_discarded_bytes :: "u8 list"
  ps_recent_discarded_length :: nat

end
