(* ===== verification/ParserWindows.thy ===== *)
theory ParserWindows
  imports Transport
begin

text \<open>
  The two machines of \<open>components/asic/bzm_runtime_health.c\<close> that watch the parser's counters window by
  window: settling before dispatch, and the bounded realignment while running. NULL is \<open>None\<close>.
\<close>

section \<open>Model: parser windows\<close>

text \<open>The counters that must stay exact in every settling and realignment window.\<close>

definition window_counters_equal :: "bzm_serial_parser_stats_t \<Rightarrow> bzm_serial_parser_stats_t \<Rightarrow> bool" where
  "window_counters_equal baseline current \<longleftrightarrow>
     ps_dropped_results current = ps_dropped_results baseline \<and>
     ps_rejected_result_frames current = ps_rejected_result_frames baseline \<and>
     ps_unmatched_register_frames current = ps_unmatched_register_frames baseline \<and>
     ps_unsolicited_noop_frames current = ps_unsolicited_noop_frames baseline \<and>
     ps_invalid_noop_frames current = ps_invalid_noop_frames baseline \<and>
     ps_telemetry_decode_failures current = ps_telemetry_decode_failures baseline"

definition bzm_runtime_health_parser_window_is_clean ::
    "bzm_serial_parser_stats_t option \<Rightarrow> bzm_serial_parser_stats_t option \<Rightarrow> bool" where
  "bzm_runtime_health_parser_window_is_clean baseline_opt current_opt \<longleftrightarrow>
     (case (baseline_opt, current_opt) of
        (Some baseline, Some current) \<Rightarrow>
          ps_emitted_frames current \<ge> ps_emitted_frames baseline \<and>
          ps_discarded_bytes current = ps_discarded_bytes baseline \<and>
          ps_unexpected_register_headers current = ps_unexpected_register_headers baseline \<and>
          window_counters_equal baseline current \<and> ps_buffered_bytes current = 0 \<and> ps_queued_results current = 0
      | _ \<Rightarrow> False)"

definition bzm_runtime_health_parser_window_is_discard_transition ::
    "bzm_serial_parser_stats_t option \<Rightarrow> bzm_serial_parser_stats_t option \<Rightarrow> bool" where
  "bzm_runtime_health_parser_window_is_discard_transition baseline_opt current_opt \<longleftrightarrow>
     (case (baseline_opt, current_opt) of
        (Some baseline, Some current) \<Rightarrow>
          ps_emitted_frames current \<ge> ps_emitted_frames baseline \<and>
          ps_discarded_bytes current \<ge> ps_discarded_bytes baseline \<and>
          ps_unexpected_register_headers current = ps_unexpected_register_headers baseline \<and>
          window_counters_equal baseline current \<and> ps_buffered_bytes current = 0 \<and> ps_queued_results current = 0
      | _ \<Rightarrow> False)"

definition bzm_parser_settling_snapshot_at_frame_boundary :: "bzm_serial_parser_stats_t option \<Rightarrow> bool" where
  "bzm_parser_settling_snapshot_at_frame_boundary stats \<longleftrightarrow>
     (case stats of None \<Rightarrow> False | Some s \<Rightarrow> ps_buffered_bytes s = 0)"

definition zero_parser_stats :: bzm_serial_parser_stats_t where
  "zero_parser_stats = \<lparr> ps_emitted_frames = 0, ps_discarded_bytes = 0, ps_emitted_frames_at_last_discard = 0,
     ps_unexpected_register_headers = 0, ps_dropped_results = 0, ps_rejected_result_frames = 0,
     ps_unmatched_register_frames = 0, ps_unsolicited_noop_frames = 0, ps_invalid_noop_frames = 0,
     ps_telemetry_decode_failures = 0, ps_buffered_bytes = 0, ps_queued_results = 0,
     ps_recent_discarded_bytes = replicate BZM_FRAME_PARSER_DISCARD_TRACE_SIZE 0, ps_recent_discarded_length = 0 \<rparr>"

record bzm_parser_settling_t =
  se_baseline :: bzm_serial_parser_stats_t
  se_clean_windows :: u8
  se_initialized :: bool

datatype bzm_parser_settling_result_t = BZM_PARSER_SETTLING_BAD | BZM_PARSER_SETTLING_PENDING | BZM_PARSER_SETTLING_COMPLETE

definition bzm_parser_settling_init :: "bzm_serial_parser_stats_t option \<Rightarrow> bzm_parser_settling_t" where
  "bzm_parser_settling_init baseline_opt =
     (let zero = \<lparr> se_baseline = zero_parser_stats, se_clean_windows = 0, se_initialized = False \<rparr>
      in case baseline_opt of
           Some baseline \<Rightarrow>
             (if ps_queued_results baseline = 0 \<and> ps_buffered_bytes baseline = 0
              then zero\<lparr> se_baseline := baseline, se_initialized := True \<rparr> else zero)
         | None \<Rightarrow> zero)"

definition bzm_parser_settling_observe ::
    "bzm_parser_settling_t option \<Rightarrow> bzm_serial_parser_stats_t option \<Rightarrow> u8 \<Rightarrow>
     bzm_parser_settling_result_t \<times> bzm_parser_settling_t option" where
  "bzm_parser_settling_observe settling_opt current_opt required_clean_windows =
     (case (settling_opt, current_opt) of
        (Some settling, Some current) \<Rightarrow>
          if \<not> se_initialized settling \<or> required_clean_windows = 0 \<or>
             \<not> bzm_runtime_health_parser_window_is_discard_transition (Some (se_baseline settling)) current_opt
          then (BZM_PARSER_SETTLING_BAD, settling_opt)
          else
            (let settling = settling\<lparr> se_clean_windows :=
                   (if ps_discarded_bytes current = ps_discarded_bytes (se_baseline settling)
                    then sat_inc (se_clean_windows settling) else 0) \<rparr>;
                 settling = settling\<lparr> se_baseline := current \<rparr>
             in (if se_clean_windows settling \<ge> required_clean_windows then BZM_PARSER_SETTLING_COMPLETE
                 else BZM_PARSER_SETTLING_PENDING, Some settling))
      | _ \<Rightarrow> (BZM_PARSER_SETTLING_BAD, settling_opt))"

record bzm_parser_realign_t =
  ra_accepted :: bzm_serial_parser_stats_t
  ra_last :: bzm_serial_parser_stats_t
  ra_burst_discard_baseline :: u32
  ra_burst_unexpected_register_baseline :: u32
  ra_clean_windows :: u8
  ra_observed_windows :: u8
  ra_episode_bursts :: u8
  ra_initialized :: bool
  ra_recovering :: bool

datatype bzm_parser_realign_result_t = BZM_PARSER_REALIGN_BAD | BZM_PARSER_REALIGN_CLEAN | BZM_PARSER_REALIGN_PENDING
  | BZM_PARSER_REALIGN_RECOVERED

definition bzm_parser_realign_init :: "bzm_serial_parser_stats_t option \<Rightarrow> bzm_parser_realign_t" where
  "bzm_parser_realign_init baseline_opt =
     (let zero = \<lparr> ra_accepted = zero_parser_stats, ra_last = zero_parser_stats, ra_burst_discard_baseline = 0,
            ra_burst_unexpected_register_baseline = 0, ra_clean_windows = 0, ra_observed_windows = 0,
            ra_episode_bursts = 0, ra_initialized = False, ra_recovering = False \<rparr>
      in case baseline_opt of
           Some baseline \<Rightarrow>
             (if ps_queued_results baseline = 0 \<and> ps_buffered_bytes baseline = 0
              then zero\<lparr> ra_accepted := baseline, ra_last := baseline, ra_initialized := True \<rparr> else zero)
         | None \<Rightarrow> zero)"

definition parser_realign_transition_is_valid :: "bzm_serial_parser_stats_t \<Rightarrow> bzm_serial_parser_stats_t \<Rightarrow> bool" where
  "parser_realign_transition_is_valid baseline current \<longleftrightarrow>
     (if ps_discarded_bytes current < ps_discarded_bytes baseline \<or>
         ps_unexpected_register_headers current < ps_unexpected_register_headers baseline
      then False
      else
        (let discarded_delta = ps_discarded_bytes current - ps_discarded_bytes baseline;
             unexpected_register_delta =
               ps_unexpected_register_headers current - ps_unexpected_register_headers baseline
         in ps_emitted_frames current \<ge> ps_emitted_frames baseline \<and>
            unexpected_register_delta \<le> discarded_delta \<and> window_counters_equal baseline current))"

text \<open>An observation inside an episode; the flag is the early BAD on one burst too many.\<close>

definition realign_window ::
    "bzm_parser_realign_t \<Rightarrow> bzm_serial_parser_stats_t \<Rightarrow> u8 \<Rightarrow> bzm_parser_realign_t \<times> bool" where
  "realign_window r current maximum_events =
     (let r = r\<lparr> ra_observed_windows := sat_inc (ra_observed_windows r) \<rparr>
      in if ps_discarded_bytes current \<noteq> ps_discarded_bytes (ra_last r) \<or>
            ps_unexpected_register_headers current \<noteq> ps_unexpected_register_headers (ra_last r)
         then if ra_episode_bursts r \<ge> maximum_events then (r, True)
              else (r\<lparr> ra_episode_bursts := ra_episode_bursts r + 1, ra_clean_windows := 0, ra_last := current \<rparr>, False)
         else if ps_buffered_bytes current = 0 \<and>
                 ps_emitted_frames current > ps_emitted_frames_at_last_discard current
         then (r\<lparr> ra_clean_windows := sat_inc (ra_clean_windows r), ra_last := current \<rparr>, False)
         else (r\<lparr> ra_clean_windows := 0, ra_last := current \<rparr>, False))"

definition realign_start :: "bzm_parser_realign_t \<Rightarrow> bzm_serial_parser_stats_t \<Rightarrow> bzm_parser_realign_t" where
  "realign_start r current =
     r\<lparr> ra_recovering := True, ra_burst_discard_baseline := ps_discarded_bytes (ra_accepted r),
       ra_burst_unexpected_register_baseline := ps_unexpected_register_headers (ra_accepted r),
       ra_episode_bursts := 1, ra_clean_windows := 0, ra_observed_windows := 1, ra_last := current \<rparr>"

definition bzm_parser_realign_observe ::
    "bzm_parser_realign_t option \<Rightarrow> bzm_serial_parser_stats_t option \<Rightarrow> u32 \<Rightarrow> u8 \<Rightarrow> u8 \<Rightarrow> u8 \<Rightarrow>
     bzm_parser_realign_result_t \<times> bzm_parser_realign_t option" where
  "bzm_parser_realign_observe realign_opt current_opt maximum_discarded_bytes required_clean_windows
       maximum_windows maximum_events =
     (case (realign_opt, current_opt) of
        (Some realign, Some current) \<Rightarrow>
          if \<not> ra_initialized realign \<or> maximum_discarded_bytes = 0 \<or> required_clean_windows = 0 \<or>
             maximum_windows < required_clean_windows \<or> maximum_events = 0 \<or>
             \<not> parser_realign_transition_is_valid (ra_accepted realign) current \<or>
             \<not> parser_realign_transition_is_valid (ra_last realign) current
          then (BZM_PARSER_REALIGN_BAD, realign_opt)
          else if \<not> ra_recovering realign \<and>
                  ps_discarded_bytes current = ps_discarded_bytes (ra_accepted realign) \<and>
                  ps_unexpected_register_headers current = ps_unexpected_register_headers (ra_accepted realign)
          then (BZM_PARSER_REALIGN_CLEAN,
                Some (realign\<lparr> ra_accepted := current, ra_last := current, ra_episode_bursts := 0 \<rparr>))
          else
            (let (realign, too_many) =
                   (if \<not> ra_recovering realign then (realign_start realign current, False)
                    else realign_window realign current maximum_events);
                 discarded = ps_discarded_bytes current - ra_burst_discard_baseline realign
             in if too_many then (BZM_PARSER_REALIGN_BAD, Some realign)
                else if discarded > maximum_discarded_bytes \<or> ra_observed_windows realign > maximum_windows
                then (BZM_PARSER_REALIGN_BAD, Some realign)
                else if ra_clean_windows realign \<ge> required_clean_windows
                then (BZM_PARSER_REALIGN_RECOVERED,
                      Some (realign\<lparr> ra_accepted := current, ra_last := current, ra_recovering := False,
                                    ra_episode_bursts := 0 \<rparr>))
                else (BZM_PARSER_REALIGN_PENDING, Some realign))
      | _ \<Rightarrow> (BZM_PARSER_REALIGN_BAD, realign_opt))"

section \<open>Settling\<close>

text \<open>A run of the settling machine from a baseline: the machine after the windows \<open>xs\<close>.\<close>

definition settling_step :: "u8 \<Rightarrow> bzm_parser_settling_t \<Rightarrow> bzm_serial_parser_stats_t \<Rightarrow> bzm_parser_settling_t" where
  "settling_step required s c = the (snd (bzm_parser_settling_observe (Some s) (Some c) required))"

definition settling_run :: "u8 \<Rightarrow> bzm_serial_parser_stats_t \<Rightarrow> bzm_serial_parser_stats_t list \<Rightarrow> bzm_parser_settling_t" where
  "settling_run required b xs = foldl (settling_step required) (bzm_parser_settling_init (Some b)) xs"

definition settling_accepts :: "u8 \<Rightarrow> bzm_parser_settling_t \<Rightarrow> bzm_serial_parser_stats_t \<Rightarrow> bool" where
  "settling_accepts required s c \<longleftrightarrow> required \<noteq> 0 \<and>
     bzm_runtime_health_parser_window_is_discard_transition (Some (se_baseline s)) (Some c)"

definition settling_answer :: "u8 \<Rightarrow> bzm_serial_parser_stats_t \<Rightarrow> bzm_serial_parser_stats_t list \<Rightarrow>
    bzm_serial_parser_stats_t \<Rightarrow> bzm_parser_settling_result_t" where
  "settling_answer required b xs c =
     fst (bzm_parser_settling_observe (Some (settling_run required b xs)) (Some c) required)"

text \<open>Two snapshots with the same number of discarded bytes, and two that differ by discards only.\<close>

definition quiet :: "bzm_serial_parser_stats_t \<Rightarrow> bzm_serial_parser_stats_t \<Rightarrow> bool" where
  "quiet p c \<longleftrightarrow> ps_discarded_bytes c = ps_discarded_bytes p"

definition discards_only :: "bzm_serial_parser_stats_t \<Rightarrow> bzm_serial_parser_stats_t \<Rightarrow> bool" where
  "discards_only p c \<longleftrightarrow> bzm_runtime_health_parser_window_is_discard_transition (Some p) (Some c)"

interpretation settling: run_counter "settling_step required" "settling_accepts required"
    "\<lambda>s. quiet (se_baseline s)" se_clean_windows se_initialized for required
  by unfold_locales
    (auto simp: settling_step_def settling_accepts_def bzm_parser_settling_observe_def quiet_def Let_def)

lemma settling_baseline: "se_initialized s \<Longrightarrow> settling_accepts required s c \<Longrightarrow> se_baseline (settling_step required s c) = c"
  by (simp add: settling_step_def settling_accepts_def bzm_parser_settling_observe_def Let_def)

lemma settling_init: "ps_queued_results b = 0 \<Longrightarrow> ps_buffered_bytes b = 0 \<Longrightarrow>
    se_initialized (bzm_parser_settling_init (Some b)) \<and> se_baseline (bzm_parser_settling_init (Some b)) = b \<and>
    se_clean_windows (bzm_parser_settling_init (Some b)) = 0"
  by (simp add: bzm_parser_settling_init_def)

lemma settling_events:
  assumes "ps_queued_results b = 0" "ps_buffered_bytes b = 0" "required \<noteq> 0" "list_all id (successive discards_only b xs)"
  shows "se_baseline (settling_run required b xs) = last (b # xs) \<and>
    events (settling_step required) (settling_accepts required) (bzm_parser_settling_init (Some b)) xs =
      successive discards_only b xs \<and>
    events (settling_step required) (\<lambda>s. quiet (se_baseline s)) (bzm_parser_settling_init (Some b)) xs =
      successive quiet b xs"
  using assms(4)
proof (induction xs rule: rev_induct)
  case (snoc x xs)
  let ?s = "foldl (settling_step required) (bzm_parser_settling_init (Some b)) xs"
  have ih: "se_baseline ?s = last (b # xs)" "se_initialized ?s"
    using snoc settling_init[OF assms(1,2)] settling.inv_run by (auto simp: settling_run_def successive_snoc)
  then have acc: "settling_accepts required ?s x"
    using snoc.prems assms(3) by (simp add: settling_accepts_def successive_snoc discards_only_def)
  then show ?case
    using snoc settling_baseline[OF ih(2) acc] ih(1)
    by (auto simp: settling_run_def events_append successive_snoc discards_only_def)
qed (simp add: settling_run_def settling_init[OF assms(1,2)])

lemma discards_only_errors: "discards_only p c \<Longrightarrow> window_counters_equal p c \<and>
    ps_unexpected_register_headers c = ps_unexpected_register_headers p \<and> ps_emitted_frames p \<le> ps_emitted_frames c \<and>
    ps_discarded_bytes p \<le> ps_discarded_bytes c"
  by (simp add: discards_only_def bzm_runtime_health_parser_window_is_discard_transition_def)

lemma settling_errors: "list_all id (successive discards_only b xs) \<Longrightarrow> window_counters_equal b (last (b # xs)) \<and>
    ps_unexpected_register_headers (last (b # xs)) = ps_unexpected_register_headers b"
proof (induction xs rule: rev_induct)
  case (snoc x xs)
  then have "discards_only (last (b # xs)) x" by (simp add: successive_snoc)
  then show ?case using snoc discards_only_errors by (simp add: successive_snoc) (simp add: window_counters_equal_def)
qed (simp add: window_counters_equal_def)

lemma settling_observe:
  assumes "se_initialized s" "required \<noteq> 0"
  shows "fst (bzm_parser_settling_observe (Some s) (Some c) required) = BZM_PARSER_SETTLING_BAD \<longleftrightarrow>
      \<not> discards_only (se_baseline s) c"
    and "fst (bzm_parser_settling_observe (Some s) (Some c) required) = BZM_PARSER_SETTLING_COMPLETE \<longleftrightarrow>
      discards_only (se_baseline s) c \<and>
      required \<le> (if quiet (se_baseline s) c then sat_inc (se_clean_windows s) else 0)"
  using assms by (auto simp: bzm_parser_settling_observe_def discards_only_def quiet_def Let_def)

text \<open>Settling is exact. From a baseline at a frame boundary with an empty queue, after any number
  of accepted windows \<open>xs\<close> (each differs from the one before it by emitted frames and discarded bytes
  only), a further window \<open>c\<close> is BAD exactly when some other counter moved, a byte is buffered or a
  result is queued; COMPLETE exactly when, counting it, at least \<open>required\<close> consecutive windows
  discarded nothing; and PENDING otherwise. Whenever settling is COMPLETE no error counter has moved
  since the baseline.\<close>

theorem settling_completes_exactly:
  assumes "ps_queued_results b = 0" "ps_buffered_bytes b = 0" "required \<noteq> 0" "list_all id (successive discards_only b xs)"
  shows "(settling_answer required b xs c = BZM_PARSER_SETTLING_BAD \<longleftrightarrow> \<not> discards_only (last (b # xs)) c) \<and>
    (settling_answer required b xs c = BZM_PARSER_SETTLING_COMPLETE \<longleftrightarrow>
      discards_only (last (b # xs)) c \<and> unat required \<le> trailing_run (successive quiet b (xs @ [c]))) \<and>
    (settling_answer required b xs c = BZM_PARSER_SETTLING_COMPLETE \<longrightarrow>
      window_counters_equal b c \<and> ps_unexpected_register_headers c = ps_unexpected_register_headers b)"
proof -
  let ?s = "settling_run required b xs"
  note e = settling_events[OF assms(1-4)]
  have s: "se_initialized ?s" "se_baseline ?s = last (b # xs)"
    and n: "unat (se_clean_windows ?s) = min 255 (trailing_run (successive quiet b xs))"
    using e settling_init[OF assms(1,2)] settling.inv_run settling.count_run[of "bzm_parser_settling_init (Some b)" required xs] assms(4)
    by (auto simp: settling_run_def)
  have max: "unat required \<le> 255" using unsigned_less[of required, where ?'a = nat] by simp
  have bad: "settling_answer required b xs c = BZM_PARSER_SETTLING_BAD \<longleftrightarrow> \<not> discards_only (last (b # xs)) c"
    unfolding settling_answer_def settling_observe[OF s(1) assms(3)] s(2) by (rule refl)
  have "settling_answer required b xs c = BZM_PARSER_SETTLING_COMPLETE \<longleftrightarrow> discards_only (last (b # xs)) c \<and>
      required \<le> (if quiet (last (b # xs)) c then sat_inc (se_clean_windows ?s) else 0)"
    unfolding settling_answer_def settling_observe[OF s(1) assms(3)] s(2) by (rule refl)
  also have "\<dots> \<longleftrightarrow> discards_only (last (b # xs)) c \<and> unat required \<le> trailing_run (successive quiet b (xs @ [c]))"
    using n max assms(3) by (auto simp: word_le_nat_alt unat_sat_inc successive_snoc)
  finally have complete: "settling_answer required b xs c = BZM_PARSER_SETTLING_COMPLETE \<longleftrightarrow>
      discards_only (last (b # xs)) c \<and> unat required \<le> trailing_run (successive quiet b (xs @ [c]))" .
  show ?thesis
    using bad complete settling_errors[of b "xs @ [c]"] assms(4) by (simp add: successive_snoc)
qed

text \<open>Two windows are asked for. A window with a discarded byte delays the answer to the second quiet
  window after it.\<close>

definition window_after :: "u32 \<Rightarrow> bzm_serial_parser_stats_t" where
  "window_after discarded = zero_parser_stats\<lparr> ps_discarded_bytes := discarded \<rparr>"

theorem settling_completes_exactly_witness:
  "settling_answer 2 zero_parser_stats [window_after 0, window_after 1, window_after 1] (window_after 1) =
     BZM_PARSER_SETTLING_COMPLETE \<and>
   settling_answer 2 zero_parser_stats [window_after 0, window_after 1] (window_after 1) \<noteq> BZM_PARSER_SETTLING_COMPLETE \<and>
   settling_answer 2 zero_parser_stats [window_after 1] (window_after 0) = BZM_PARSER_SETTLING_BAD"
proof -
  note f = bzm_runtime_health_parser_window_is_discard_transition_def discards_only_def quiet_def window_after_def
    zero_parser_stats_def window_counters_equal_def trailing_run_def
  show ?thesis
    using settling_completes_exactly[of zero_parser_stats 2 "[window_after 0, window_after 1, window_after 1]" "window_after 1"]
      settling_completes_exactly[of zero_parser_stats 2 "[window_after 0, window_after 1]" "window_after 1"]
      settling_completes_exactly[of zero_parser_stats 2 "[window_after 1]" "window_after 0"]
    by (simp add: f)
qed

section \<open>Realignment\<close>

record realign_policy =
  rp_bytes :: u32
  rp_clean :: u8
  rp_windows :: u8
  rp_events :: u8

definition realign_answer :: "realign_policy \<Rightarrow> bzm_parser_realign_t \<Rightarrow> bzm_serial_parser_stats_t \<Rightarrow> bzm_parser_realign_result_t" where
  "realign_answer p r c =
     fst (bzm_parser_realign_observe (Some r) (Some c) (rp_bytes p) (rp_clean p) (rp_windows p) (rp_events p))"

definition realign_next :: "realign_policy \<Rightarrow> bzm_parser_realign_t \<Rightarrow> bzm_serial_parser_stats_t \<Rightarrow> bzm_parser_realign_t" where
  "realign_next p r c =
     the (snd (bzm_parser_realign_observe (Some r) (Some c) (rp_bytes p) (rp_clean p) (rp_windows p) (rp_events p)))"

abbreviation realign_pending :: "realign_policy \<Rightarrow> bzm_parser_realign_t \<Rightarrow> bzm_serial_parser_stats_t \<Rightarrow> bool" where
  "realign_pending p r c \<equiv> realign_answer p r c = BZM_PARSER_REALIGN_PENDING"

text \<open>Two successive snapshots with a discard or an unexpected header between them, and a window that
  counts as clean: nothing discarded, nothing buffered and a frame emitted since the last discard.\<close>

definition burst :: "bzm_serial_parser_stats_t \<Rightarrow> bzm_serial_parser_stats_t \<Rightarrow> bool" where
  "burst p c \<longleftrightarrow> ps_discarded_bytes c \<noteq> ps_discarded_bytes p \<or> ps_unexpected_register_headers c \<noteq> ps_unexpected_register_headers p"

definition clean_window :: "bzm_serial_parser_stats_t \<Rightarrow> bzm_serial_parser_stats_t \<Rightarrow> bool" where
  "clean_window p c \<longleftrightarrow> \<not> burst p c \<and> ps_buffered_bytes c = 0 \<and> ps_emitted_frames_at_last_discard c < ps_emitted_frames c"

text \<open>The machine inside an episode that began at the accepted snapshot \<open>a\<close> and has seen \<open>xs\<close>.\<close>

definition in_episode :: "realign_policy \<Rightarrow> bzm_serial_parser_stats_t \<Rightarrow> bzm_serial_parser_stats_t list \<Rightarrow> bzm_parser_realign_t \<Rightarrow> bool" where
  "in_episode p a xs r \<longleftrightarrow>
     ra_initialized r \<and> ra_recovering r \<and> ra_accepted r = a \<and> ra_last r = last xs \<and> xs \<noteq> [] \<and>
     ra_burst_discard_baseline r = ps_discarded_bytes a \<and> unat (ra_observed_windows r) = length xs \<and>
     length xs \<le> unat (rp_windows p) \<and>
     unat (ra_episode_bursts r) = count_list (successive burst a xs) True \<and> ra_episode_bursts r \<le> rp_events p \<and>
     unat (ra_clean_windows r) = trailing_run (successive clean_window a xs) \<and> ra_clean_windows r < rp_clean p \<and>
     ps_discarded_bytes (last xs) - ps_discarded_bytes a \<le> rp_bytes p \<and>
     parser_realign_transition_is_valid a (last xs) \<and>
     rp_bytes p \<noteq> 0 \<and> rp_clean p \<noteq> 0 \<and> rp_clean p \<le> rp_windows p \<and> rp_events p \<noteq> 0"

lemma episode_starts:
  assumes "ra_initialized r" "\<not> ra_recovering r" "realign_pending p r c"
  shows "in_episode p (ra_accepted r) [c] (realign_next p r c)"
  using assms unfolding in_episode_def realign_answer_def realign_next_def bzm_parser_realign_observe_def
  by (auto simp: Let_def realign_start_def burst_def clean_window_def word_le_nat_alt word_less_nat_alt
      Suc_le_eq unat_gt_0 unsigned_eq_0_iff trailing_run_def split: if_splits)

lemma episode_continues:
  assumes e: "in_episode p a xs r" and windows: "rp_windows p < 255" and pending: "realign_pending p r c"
  shows "in_episode p a (xs @ [c]) (realign_next p r c)"
proof -
  have len: "length xs < 255" using e windows by (auto simp: in_episode_def word_less_nat_alt)
  have events: "unat (rp_events p) < 256" using unsigned_less[of "rp_events p", where ?'a = nat] by simp
  moreover have "min 254 (trailing_run (successive clean_window a xs)) = trailing_run (successive clean_window a xs)"
    using trailing_run_le[of "successive clean_window a xs"] len by simp
  ultimately show ?thesis
    using e len pending unfolding in_episode_def realign_answer_def realign_next_def bzm_parser_realign_observe_def
    by (auto simp: Let_def realign_window_def unat_sat_inc burst_def clean_window_def successive_snoc
        word_le_nat_alt word_less_nat_alt unat_word_ariths split: if_splits)
qed


text \<open>A pending run, and the frozen counters along it.\<close>

definition pending_run :: "realign_policy \<Rightarrow> bzm_parser_realign_t \<Rightarrow> bzm_serial_parser_stats_t list \<Rightarrow> bool" where
  "pending_run p r xs \<longleftrightarrow> list_all id (events (realign_next p) (realign_pending p) r xs)"

lemma episode_run:
  assumes "ra_initialized r" "\<not> ra_recovering r" "rp_windows p < 255" "pending_run p r xs" "xs \<noteq> []"
  shows "in_episode p (ra_accepted r) xs (foldl (realign_next p) r xs)"
  using assms(4,5)
proof (induction xs rule: rev_induct)
  case (snoc x xs)
  show ?case
  proof (cases "xs = []")
    case True
    then show ?thesis using episode_starts[OF assms(1,2)] snoc.prems by (simp add: pending_run_def)
  next
    case False
    then show ?thesis
      using episode_continues[OF _ assms(3)] snoc by (simp add: pending_run_def events_append)
  qed
qed simp

text \<open>A concrete episode: one discarded byte, then two windows with a frame each.\<close>

definition example_policy :: realign_policy where
  "example_policy = \<lparr> rp_bytes = 10, rp_clean = 2, rp_windows = 5, rp_events = 2 \<rparr>"

definition example_episode :: "bzm_serial_parser_stats_t list" where
  "example_episode = [window_after 1, (window_after 1)\<lparr> ps_emitted_frames := 1 \<rparr>]"

lemma example_pending:
  "pending_run example_policy (bzm_parser_realign_init (Some zero_parser_stats)) example_episode"
  "ra_initialized (bzm_parser_realign_init (Some zero_parser_stats))"
  "\<not> ra_recovering (bzm_parser_realign_init (Some zero_parser_stats))"
  "ra_accepted (bzm_parser_realign_init (Some zero_parser_stats)) = zero_parser_stats"
  "rp_windows example_policy < 255" "example_episode \<noteq> []"
  by (simp_all add: pending_run_def example_episode_def example_policy_def realign_answer_def realign_next_def
      bzm_parser_realign_observe_def bzm_parser_realign_init_def window_after_def zero_parser_stats_def
      parser_realign_transition_is_valid_def window_counters_equal_def realign_start_def realign_window_def sat_inc_def word_le_nat_alt)

text \<open>A realignment episode is bounded in windows, in bursts and in discarded bytes. From a machine
  that is not recovering, as long as every answer is PENDING: at most \<open>maximum_windows\<close> windows pass
  (for a maximum below 255; the build allows 2 to 20), at most \<open>maximum_events\<close> of them discarded, the
  bytes discarded since the last accepted snapshot stay within the budget, the accepted snapshot does
  not move and every other error counter still equals it.\<close>

theorem realign_episode_bounded:
  assumes "ra_initialized r" "\<not> ra_recovering r" "rp_windows p < 255" "pending_run p r xs" "xs \<noteq> []"
  defines "a \<equiv> ra_accepted r"
  shows "length xs \<le> unat (rp_windows p) \<and> count_list (successive burst a xs) True \<le> unat (rp_events p) \<and>
    ps_discarded_bytes (last xs) - ps_discarded_bytes a \<le> rp_bytes p \<and>
    ra_accepted (foldl (realign_next p) r xs) = a \<and> window_counters_equal a (last xs)"
  using episode_run[OF assms(1-5)]
  by (auto simp: in_episode_def a_def word_le_nat_alt parser_realign_transition_is_valid_def Let_def split: if_splits)

lemma episode_recovers:
  assumes "in_episode p a xs r" "rp_windows p < 255"
  shows "realign_answer p r c = BZM_PARSER_REALIGN_RECOVERED \<longleftrightarrow>
      parser_realign_transition_is_valid a c \<and> parser_realign_transition_is_valid (last xs) c \<and>
      length xs < unat (rp_windows p) \<and> ps_discarded_bytes c - ps_discarded_bytes a \<le> rp_bytes p \<and>
      unat (rp_clean p) \<le> trailing_run (successive clean_window a (xs @ [c]))"
    and "realign_answer p r c = BZM_PARSER_REALIGN_RECOVERED \<Longrightarrow>
      ra_accepted (realign_next p r c) = c \<and> \<not> ra_recovering (realign_next p r c)"
proof -
  have clean: "0 < unat (rp_clean p)" "unat (rp_clean p) < 255" "length xs < 255"
    using assms by (auto simp: in_episode_def word_less_nat_alt word_le_nat_alt unat_gt_0)
  have run: "min 254 (trailing_run (successive clean_window a xs)) = trailing_run (successive clean_window a xs)"
    using trailing_run_le[of "successive clean_window a xs"] clean by simp
  show "realign_answer p r c = BZM_PARSER_REALIGN_RECOVERED \<longleftrightarrow>
      parser_realign_transition_is_valid a c \<and> parser_realign_transition_is_valid (last xs) c \<and>
      length xs < unat (rp_windows p) \<and> ps_discarded_bytes c - ps_discarded_bytes a \<le> rp_bytes p \<and>
      unat (rp_clean p) \<le> trailing_run (successive clean_window a (xs @ [c]))"
    using assms clean run unfolding in_episode_def realign_answer_def bzm_parser_realign_observe_def
    by (auto simp: Let_def realign_window_def unat_sat_inc burst_def clean_window_def successive_snoc
        word_le_nat_alt word_less_nat_alt split: if_splits)
  show "realign_answer p r c = BZM_PARSER_REALIGN_RECOVERED \<Longrightarrow>
      ra_accepted (realign_next p r c) = c \<and> \<not> ra_recovering (realign_next p r c)"
    using assms unfolding in_episode_def realign_answer_def realign_next_def bzm_parser_realign_observe_def
    by (auto simp: Let_def split: if_splits prod.splits)
qed

theorem realign_episode_bounded_witness:
  "length example_episode \<le> 5 \<and> count_list (successive burst zero_parser_stats example_episode) True \<le> 2"
  using realign_episode_bounded[OF example_pending(2,3,5,1,6)] unfolding example_pending(4)
  by (simp add: example_policy_def)

text \<open>C22. Realignment recovers exactly on proof. Inside an episode that has seen the pending windows \<open>xs\<close>,
  a further snapshot \<open>c\<close> is RECOVERED exactly when its counters are valid against the accepted snapshot
  and the last one, the discards stay within the byte budget, the windows within their maximum, and
  \<open>c\<close> completes a run of \<open>required_clean_windows\<close> consecutive clean windows (no discard, no unexpected
  header, nothing buffered, a frame emitted since the last discard); \<open>c\<close> then becomes the accepted
  snapshot.\<close>

theorem realign_recovers_exactly:
  assumes "ra_initialized r" "\<not> ra_recovering r" "rp_windows p < 255" "pending_run p r xs" "xs \<noteq> []"
  defines "a \<equiv> ra_accepted r" and "s \<equiv> foldl (realign_next p) r xs"
  shows "(realign_answer p s c = BZM_PARSER_REALIGN_RECOVERED \<longleftrightarrow>
      parser_realign_transition_is_valid a c \<and> parser_realign_transition_is_valid (last xs) c \<and>
      length xs < unat (rp_windows p) \<and> ps_discarded_bytes c - ps_discarded_bytes a \<le> rp_bytes p \<and>
      unat (rp_clean p) \<le> trailing_run (successive clean_window a (xs @ [c]))) \<and>
    (realign_answer p s c = BZM_PARSER_REALIGN_RECOVERED \<longrightarrow>
      ra_accepted (realign_next p s c) = c \<and> \<not> ra_recovering (realign_next p s c))"
  unfolding a_def s_def using episode_recovers[OF episode_run[OF assms(1-5)] assms(3)] by blast

theorem realign_recovers_exactly_witness:
  "realign_answer example_policy (foldl (realign_next example_policy) (bzm_parser_realign_init (Some zero_parser_stats))
     example_episode) ((window_after 1)\<lparr> ps_emitted_frames := 2 \<rparr>) = BZM_PARSER_REALIGN_RECOVERED"
  unfolding realign_recovers_exactly[OF example_pending(2,3,5,1,6), THEN conjunct1] example_pending(4)
  by (simp add: example_episode_def example_policy_def window_after_def zero_parser_stats_def
      parser_realign_transition_is_valid_def window_counters_equal_def burst_def clean_window_def trailing_run_def)

end
