(* ===== verification/RuntimeHealth.thy ===== *)
theory RuntimeHealth
  imports CText Bridge ParserWindows Validation
begin

text \<open>
  The runtime health interlock (\<open>components/asic/bzm_runtime_health.c\<close>): a pure, fail-closed
  evaluation of one snapshot of the powered board. NULL is \<open>None\<close>. The two machines of the same file
  that watch the parser counters are in \<open>ParserWindows\<close>.
\<close>

section \<open>Model: data\<close>

abbreviation BZM_RUNTIME_HEALTH_DETAIL_LENGTH :: nat where "BZM_RUNTIME_HEALTH_DETAIL_LENGTH \<equiv> 160"
abbreviation BZM_RUNTIME_HEALTH_TPS_OPERATION_ON_MASK :: u8 where "BZM_RUNTIME_HEALTH_TPS_OPERATION_ON_MASK \<equiv> 0x80"
abbreviation BZM_RUNTIME_HEALTH_TPS_STATUS_FAULT_MASK :: u16 where "BZM_RUNTIME_HEALTH_TPS_STATUS_FAULT_MASK \<equiv> 0xffff"

datatype bzm_runtime_health_status_t = BZM_RUNTIME_HEALTH_GOOD | BZM_RUNTIME_HEALTH_BAD

datatype bzm_runtime_health_fault_t =
    BZM_RUNTIME_HEALTH_FAULT_NONE | BZM_RUNTIME_HEALTH_FAULT_INVALID_INPUT | BZM_RUNTIME_HEALTH_FAULT_INVALID_STAGE
  | BZM_RUNTIME_HEALTH_FAULT_BRIDGE_UNAVAILABLE | BZM_RUNTIME_HEALTH_FAULT_BRIDGE_STATUS_INVALID
  | BZM_RUNTIME_HEALTH_FAULT_BRIDGE_CAPABILITY_MISSING | BZM_RUNTIME_HEALTH_FAULT_BRIDGE_STATE
  | BZM_RUNTIME_HEALTH_FAULT_BRIDGE_FAULT | BZM_RUNTIME_HEALTH_FAULT_BRIDGE_LEASE
  | BZM_RUNTIME_HEALTH_FAULT_BRIDGE_OUTPUT | BZM_RUNTIME_HEALTH_FAULT_FAN_NOT_FULL
  | BZM_RUNTIME_HEALTH_FAULT_FAN_TACH_UNAVAILABLE | BZM_RUNTIME_HEALTH_FAULT_FAN_TACH_LOW
  | BZM_RUNTIME_HEALTH_FAULT_TPS_UNAVAILABLE | BZM_RUNTIME_HEALTH_FAULT_TPS_PGOOD_LOW
  | BZM_RUNTIME_HEALTH_FAULT_TPS_OPERATION_OFF | BZM_RUNTIME_HEALTH_FAULT_TPS_STATUS
  | BZM_RUNTIME_HEALTH_FAULT_TPS_VIN_RANGE | BZM_RUNTIME_HEALTH_FAULT_TPS_VOUT_RANGE
  | BZM_RUNTIME_HEALTH_FAULT_TPS_TEMPERATURE_RANGE | BZM_RUNTIME_HEALTH_FAULT_TPS_IOUT_RANGE
  | BZM_RUNTIME_HEALTH_FAULT_TPS_VOUT_COMMAND | BZM_RUNTIME_HEALTH_FAULT_TPS_OVERHEAT
  | BZM_RUNTIME_HEALTH_FAULT_TELEMETRY_UNAVAILABLE | BZM_RUNTIME_HEALTH_FAULT_TELEMETRY_MISSING
  | BZM_RUNTIME_HEALTH_FAULT_TELEMETRY_INVALID | BZM_RUNTIME_HEALTH_FAULT_TELEMETRY_TRIP
  | BZM_RUNTIME_HEALTH_FAULT_TELEMETRY_STALE | BZM_RUNTIME_HEALTH_FAULT_TELEMETRY_BOUNDS
  | BZM_RUNTIME_HEALTH_FAULT_TELEMETRY_CLOCK_UNLOCKED | BZM_RUNTIME_HEALTH_FAULT_ASIC_OVERHEAT
  | BZM_RUNTIME_HEALTH_FAULT_PARSER_UNAVAILABLE | BZM_RUNTIME_HEALTH_FAULT_PARSER_COUNTER_REGRESSED
  | BZM_RUNTIME_HEALTH_FAULT_PARSER_ERROR_DELTA

record bzm_runtime_health_tps_sample_t =
  tp_available :: bool
  tp_pgood :: bool
  tp_operation :: u8
  tp_status_word :: u16
  tp_vout_command_v :: cfloat
  tp_vout_command_matches_expected :: bool
  tp_vin_v :: cfloat
  tp_vout_v :: cfloat
  tp_iout_a :: cfloat
  tp_temperature_c :: cfloat

record bzm_runtime_health_tps_bounds_t =
  tq_vin_min_v :: cfloat
  tq_vin_max_v :: cfloat
  tq_vout_command_v :: cfloat
  tq_vout_command_tolerance_v :: cfloat
  tq_vout_min_v :: cfloat
  tq_vout_max_v :: cfloat
  tq_iout_min_a :: cfloat
  tq_iout_max_a :: cfloat
  tq_temperature_min_c :: cfloat
  tq_temperature_max_c :: cfloat

record bzm_runtime_health_input_t =
  hi_reached_stage :: bzm_validation_stage_t
  hi_holding :: bool
  hi_bridge_status_available :: bool
  hi_bridge_status :: bzm_bridge_safety_status_t
  hi_require_independent_kill :: bool
  hi_fan_tach_available :: bool
  hi_fan_rpm :: u16
  hi_fan_min_rpm :: u16
  hi_require_fan_full :: bool
  hi_tps :: bzm_runtime_health_tps_sample_t
  hi_tps_bounds :: bzm_runtime_health_tps_bounds_t
  hi_telemetry_available :: bool
  hi_telemetry :: bzm_telemetry_store_t
  hi_telemetry_bounds :: bzm_telemetry_bounds_t
  hi_telemetry_now_us :: u64
  hi_telemetry_max_age_us :: u64
  hi_defer_ch2_bounds :: bool
  hi_defer_clock_locks :: bool
  hi_parser_stats_available :: bool
  hi_parser_baseline :: bzm_serial_parser_stats_t
  hi_parser_current :: bzm_serial_parser_stats_t

record bzm_runtime_health_result_t =
  hr_status :: bzm_runtime_health_status_t
  hr_fault :: bzm_runtime_health_fault_t
  hr_detail :: string

section \<open>Model: evaluation\<close>

definition health_result ::
    "bzm_runtime_health_status_t \<Rightarrow> bzm_runtime_health_fault_t \<Rightarrow> string \<Rightarrow> bzm_runtime_health_result_t" where
  "health_result status fault detail =
     \<lparr> hr_status = status, hr_fault = fault, hr_detail = snprintf BZM_RUNTIME_HEALTH_DETAIL_LENGTH detail \<rparr>"

definition health_good :: "string \<Rightarrow> bzm_runtime_health_result_t" where
  "health_good detail = health_result BZM_RUNTIME_HEALTH_GOOD BZM_RUNTIME_HEALTH_FAULT_NONE detail"

definition health_bad :: "bzm_runtime_health_fault_t \<Rightarrow> string \<Rightarrow> bzm_runtime_health_result_t" where
  "health_bad fault detail =
     \<lparr> hr_status = BZM_RUNTIME_HEALTH_BAD, hr_fault = fault,
       hr_detail = snprintf BZM_RUNTIME_HEALTH_DETAIL_LENGTH detail \<rparr>"

definition finite_range :: "cfloat \<Rightarrow> cfloat \<Rightarrow> bool" where
  "finite_range minimum maximum \<longleftrightarrow> isfinite minimum \<and> isfinite maximum \<and> flt_le minimum maximum"

definition in_range :: "cfloat \<Rightarrow> cfloat \<Rightarrow> cfloat \<Rightarrow> bool" where
  "in_range value minimum maximum \<longleftrightarrow>
     isfinite value \<and> finite_range minimum maximum \<and> flt_le minimum value \<and> flt_le value maximum"

definition health_required_capabilities :: u16 where
  "health_required_capabilities = BZM_BRIDGE_SAFETY_CAP_5V_CONTROL OR BZM_BRIDGE_SAFETY_CAP_ASIC_RESET_CONTROL OR
     BZM_BRIDGE_SAFETY_CAP_FAN_FORCE_FULL OR BZM_BRIDGE_SAFETY_CAP_TRIP_INPUT_SAMPLED OR
     BZM_BRIDGE_SAFETY_CAP_FAN_CONTROLLED_SPEED"

definition health_required_evidence :: u16 where
  "health_required_evidence = BZM_BRIDGE_SAFETY_EVIDENCE_LEASE_VALID OR BZM_BRIDGE_SAFETY_EVIDENCE_TRIP_CLEAR OR
     BZM_BRIDGE_SAFETY_EVIDENCE_FAULT_CLEAR"

definition health_production_evidence :: u16 where
  "health_production_evidence = BZM_BRIDGE_SAFETY_EVIDENCE_CORE_CUTOFF_AVAILABLE OR
     BZM_BRIDGE_SAFETY_EVIDENCE_FAN_TACH_INTERLOCK_AVAILABLE OR
     BZM_BRIDGE_SAFETY_EVIDENCE_INDEPENDENT_TRIP_MONITOR_AVAILABLE"

definition independent_kill_missing :: "bzm_bridge_safety_status_t \<Rightarrow> bool" where
  "independent_kill_missing status \<longleftrightarrow>
     bs_stage status \<noteq> BZM_BRIDGE_SAFETY_STAGE_TRIP_LATCH \<or>
     bs_production_verdict status \<noteq> BZM_BRIDGE_SAFETY_PRODUCTION_GOOD \<or>
     bs_capabilities status AND production_capabilities \<noteq> production_capabilities \<or>
     bs_evidence status AND health_production_evidence \<noteq> health_production_evidence"

definition check_bridge_and_fan :: "bzm_runtime_health_input_t \<Rightarrow> bzm_runtime_health_result_t" where
  "check_bridge_and_fan input =
     (let status = hi_bridge_status input;
          outputs_safe = (\<not> bs_five_volt_enabled status \<and> bs_asic_reset_asserted status \<and> bs_fan_full status \<and>
                          bs_fan_percent status = 100);
          outputs_safe_evidence = (bs_evidence status AND BZM_BRIDGE_SAFETY_EVIDENCE_OUTPUTS_SAFE \<noteq> 0)
      in if \<not> hi_bridge_status_available input \<or> \<not> bs_valid status then
           health_bad BZM_RUNTIME_HEALTH_FAULT_BRIDGE_UNAVAILABLE ''bridge safety status is unavailable''
         else if bs_schema_version status \<noteq> BZM_BRIDGE_SAFETY_STATUS_SCHEMA_VERSION \<or>
                 bs_stage status = BZM_BRIDGE_SAFETY_STAGE_BOOT_SAFE then
           health_bad BZM_RUNTIME_HEALTH_FAULT_BRIDGE_STATUS_INVALID
             (''bridge status schema='' @ fmt_u (bs_schema_version status) @ '' safetyStage='' @
              fmt_u (safety_stage_code (bs_stage status)) @ '' is not lease-capable'')
         else if bs_capabilities status AND health_required_capabilities \<noteq> health_required_capabilities then
           health_bad BZM_RUNTIME_HEALTH_FAULT_BRIDGE_CAPABILITY_MISSING
             (''bridge capabilities=0x'' @ fmt_x 4 (bs_capabilities status) @ '' missing required=0x'' @
              fmt_x 4 health_required_capabilities)
         else if hi_require_independent_kill input \<and> independent_kill_missing status then
           health_bad BZM_RUNTIME_HEALTH_FAULT_BRIDGE_CAPABILITY_MISSING
             (''live production independent-kill proof is absent: stage='' @ fmt_u (safety_stage_code (bs_stage status)) @
              '' verdict=0x'' @ fmt_x 2 (production_verdict_code (bs_production_verdict status)) @
              '' capabilities=0x'' @ fmt_x 4 (bs_capabilities status) @ '' evidence=0x'' @ fmt_x 4 (bs_evidence status))
         else if bs_state status \<noteq> BZM_BRIDGE_SAFETY_STATE_CONTROLLED then
           health_bad BZM_RUNTIME_HEALTH_FAULT_BRIDGE_STATE
             (''bridge state='' @ fmt_u (safety_state_code (bs_state status)) @ '' expected CONTROLLED'')
         else if bs_fault status \<noteq> BZM_BRIDGE_SAFETY_FAULT_NONE \<or> bs_trip_input_asserted status \<or>
                 bs_runtime_verdict status \<noteq> BZM_BRIDGE_SAFETY_RUNTIME_GOOD_CONTROLLED then
           health_bad BZM_RUNTIME_HEALTH_FAULT_BRIDGE_FAULT
             (''bridge fault='' @ fmt_u (safety_fault_code (bs_fault status)) @ '' trip='' @
              fmt_bool (bs_trip_input_asserted status) @ '' runtimeVerdict=0x'' @
              fmt_x 2 (runtime_verdict_code (bs_runtime_verdict status)))
         else if bs_lease_remaining_ms status = 0 \<or>
                 bs_evidence status AND health_required_evidence \<noteq> health_required_evidence then
           health_bad BZM_RUNTIME_HEALTH_FAULT_BRIDGE_LEASE
             (''bridge lease='' @ fmt_u (bs_lease_remaining_ms status) @ '' ms evidence=0x'' @
              fmt_x 4 (bs_evidence status) @ '' required=0x'' @ fmt_x 4 health_required_evidence)
         else if outputs_safe \<noteq> outputs_safe_evidence then
           health_bad BZM_RUNTIME_HEALTH_FAULT_BRIDGE_STATUS_INVALID ''bridge output-safe evidence contradicts output readback''
         else if hi_require_fan_full input \<and> (\<not> bs_fan_full status \<or> bs_fan_percent status \<noteq> 100) then
           health_bad BZM_RUNTIME_HEALTH_FAULT_FAN_NOT_FULL
             (''bridge fan full='' @ fmt_bool (bs_fan_full status) @ '' percent='' @ fmt_u (bs_fan_percent status) @
              '' expected 100 percent'')
         else if \<not> hi_fan_tach_available input then
           health_bad BZM_RUNTIME_HEALTH_FAULT_FAN_TACH_UNAVAILABLE ''fresh fan tach is unavailable''
         else if hi_fan_min_rpm input = 0 then
           health_bad BZM_RUNTIME_HEALTH_FAULT_INVALID_INPUT ''fan minimum RPM must be nonzero''
         else if hi_fan_rpm input < hi_fan_min_rpm input then
           health_bad BZM_RUNTIME_HEALTH_FAULT_FAN_TACH_LOW
             (''fan tach='' @ fmt_u (hi_fan_rpm input) @ '' RPM below minimum='' @ fmt_u (hi_fan_min_rpm input) @ '' RPM'')
         else health_good (if hi_require_fan_full input then ''bridge lease/status and full-speed fan tach are GOOD''
                    else ''bridge lease/status and controlled fan tach are GOOD''))"

definition tps_bounds_invalid :: "bzm_runtime_health_tps_bounds_t \<Rightarrow> bool" where
  "tps_bounds_invalid b \<longleftrightarrow>
     \<not> finite_range (tq_vin_min_v b) (tq_vin_max_v b) \<or> \<not> isfinite (tq_vout_command_v b) \<or>
     \<not> isfinite (tq_vout_command_tolerance_v b) \<or> flt_lt (tq_vout_command_tolerance_v b) (Fin 0) \<or>
     \<not> finite_range (tq_vout_min_v b) (tq_vout_max_v b) \<or> \<not> finite_range (tq_iout_min_a b) (tq_iout_max_a b) \<or>
     \<not> finite_range (tq_temperature_min_c b) (tq_temperature_max_c b)"

text \<open>The message of a measured value outside its range.\<close>

definition range_text :: "string \<Rightarrow> nat \<Rightarrow> cfloat \<Rightarrow> string \<Rightarrow> cfloat \<Rightarrow> cfloat \<Rightarrow> string" where
  "range_text name decimals value unit minimum maximum =
     name @ ''='' @ fmt_f decimals value @ '' '' @ unit @ '' outside ['' @ fmt_f decimals minimum @ '', '' @
     fmt_f decimals maximum @ ''] '' @ unit"

definition check_power :: "bzm_runtime_health_input_t \<Rightarrow> bzm_runtime_health_result_t" where
  "check_power input =
     (let bridge = hi_bridge_status input; tps = hi_tps input; b = hi_tps_bounds input;
          expect_5v = (hi_reached_stage input \<ge> BZM_STAGE_CHAIN_4); expect_reset = (\<not> expect_5v);
          fault_bits = tp_status_word tps AND BZM_RUNTIME_HEALTH_TPS_STATUS_FAULT_MASK
      in if bs_five_volt_enabled bridge \<noteq> expect_5v \<or> bs_asic_reset_asserted bridge \<noteq> expect_reset then
           health_bad BZM_RUNTIME_HEALTH_FAULT_BRIDGE_OUTPUT
             (''bridge 5V='' @ fmt_bool (bs_five_volt_enabled bridge) @ '' resetAsserted='' @
              fmt_bool (bs_asic_reset_asserted bridge) @ '' expected 5V='' @ fmt_bool expect_5v @
              '' resetAsserted='' @ fmt_bool expect_reset @ '' for '' @ bzm_validation_stage_name (hi_reached_stage input))
         else if tps_bounds_invalid b then
           health_bad BZM_RUNTIME_HEALTH_FAULT_INVALID_INPUT ''TPS health bounds are invalid''
         else if \<not> tp_available tps then
           health_bad BZM_RUNTIME_HEALTH_FAULT_TPS_UNAVAILABLE ''fresh TPS status and telemetry are unavailable''
         else if isfinite (tp_temperature_c tps) \<and> flt_lt (tq_temperature_max_c b) (tp_temperature_c tps) then
           health_bad BZM_RUNTIME_HEALTH_FAULT_TPS_OVERHEAT
             (''TPS temperature='' @ fmt_f 1 (tp_temperature_c tps) @ '' C above '' @ fmt_f 1 (tq_temperature_max_c b) @
              '' C overheat threshold'')
         else if \<not> tp_pgood tps then
           health_bad BZM_RUNTIME_HEALTH_FAULT_TPS_PGOOD_LOW ''TPS PGOOD is low''
         else if tp_operation tps AND BZM_RUNTIME_HEALTH_TPS_OPERATION_ON_MASK = 0 then
           health_bad BZM_RUNTIME_HEALTH_FAULT_TPS_OPERATION_OFF
             (''TPS OPERATION=0x'' @ fmt_x 2 (tp_operation tps) @ '' does not command conversion on'')
         else if fault_bits \<noteq> 0 then
           health_bad BZM_RUNTIME_HEALTH_FAULT_TPS_STATUS
             (''TPS STATUS_WORD=0x'' @ fmt_x 4 (tp_status_word tps) @ '' faultBits=0x'' @ fmt_x 4 fault_bits)
         else if \<not> tp_vout_command_matches_expected tps \<or> \<not> isfinite (tp_vout_command_v tps) \<or>
                 flt_lt (tq_vout_command_tolerance_v b) (fabsf (flt_sub (tp_vout_command_v tps) (tq_vout_command_v b))) then
           health_bad BZM_RUNTIME_HEALTH_FAULT_TPS_VOUT_COMMAND
             (''TPS VOUT_COMMAND='' @ fmt_f 3 (tp_vout_command_v tps) @ '' V exactRaw='' @
              fmt_bool (tp_vout_command_matches_expected tps) @ '' expected '' @ fmt_f 3 (tq_vout_command_v b) @
              '' +/- '' @ fmt_f 3 (tq_vout_command_tolerance_v b) @ '' V'')
         else if \<not> in_range (tp_vin_v tps) (tq_vin_min_v b) (tq_vin_max_v b) then
           health_bad BZM_RUNTIME_HEALTH_FAULT_TPS_VIN_RANGE
             (range_text ''TPS VIN'' 3 (tp_vin_v tps) ''V'' (tq_vin_min_v b) (tq_vin_max_v b))
         else if \<not> in_range (tp_vout_v tps) (tq_vout_min_v b) (tq_vout_max_v b) then
           health_bad BZM_RUNTIME_HEALTH_FAULT_TPS_VOUT_RANGE
             (range_text ''TPS VOUT'' 3 (tp_vout_v tps) ''V'' (tq_vout_min_v b) (tq_vout_max_v b))
         else if \<not> in_range (tp_iout_a tps) (tq_iout_min_a b) (tq_iout_max_a b) then
           health_bad BZM_RUNTIME_HEALTH_FAULT_TPS_IOUT_RANGE
             (range_text ''TPS IOUT'' 3 (tp_iout_a tps) ''A'' (tq_iout_min_a b) (tq_iout_max_a b))
         else if \<not> in_range (tp_temperature_c tps) (tq_temperature_min_c b) (tq_temperature_max_c b) then
           health_bad BZM_RUNTIME_HEALTH_FAULT_TPS_TEMPERATURE_RANGE
             (range_text ''TPS temperature'' 1 (tp_temperature_c tps) ''C'' (tq_temperature_min_c b) (tq_temperature_max_c b))
         else health_good ''TPS fixed VOUT command, PGOOD, operation, status, VIN, VOUT and temperature are GOOD'')"

text \<open>The counters the parser checks go through, in the order of the source, with their names.\<close>

definition parser_regression :: "string \<Rightarrow> u32 \<Rightarrow> u32 \<Rightarrow> bzm_runtime_health_result_t" where
  "parser_regression name baseline current =
     health_bad BZM_RUNTIME_HEALTH_FAULT_PARSER_COUNTER_REGRESSED
       (''parser counter '' @ name @ '' regressed baseline='' @ fmt_u baseline @ '' current='' @ fmt_u current)"

definition parser_delta :: "string \<Rightarrow> u32 \<Rightarrow> u32 \<Rightarrow> bzm_runtime_health_result_t" where
  "parser_delta name baseline current =
     health_bad BZM_RUNTIME_HEALTH_FAULT_PARSER_ERROR_DELTA
       (''parser error counter '' @ name @ '' increased baseline='' @ fmt_u baseline @ '' current='' @ fmt_u current)"

definition error_counters :: "(string \<times> (bzm_serial_parser_stats_t \<Rightarrow> u32)) list" where
  "error_counters =
     [(''unexpected_register_headers'', ps_unexpected_register_headers), (''dropped_results'', ps_dropped_results),
      (''rejected_result_frames'', ps_rejected_result_frames),
      (''unmatched_register_frames'', ps_unmatched_register_frames),
      (''unsolicited_noop_frames'', ps_unsolicited_noop_frames), (''invalid_noop_frames'', ps_invalid_noop_frames),
      (''telemetry_decode_failures'', ps_telemetry_decode_failures)]"

definition monotone_counters :: "(string \<times> (bzm_serial_parser_stats_t \<Rightarrow> u32)) list" where
  "monotone_counters =
     [(''emitted_frames'', ps_emitted_frames), (''discarded_bytes'', ps_discarded_bytes)] @ error_counters"

text \<open>The text of the recently discarded bytes, cut to a buffer of 49 characters.\<close>

function recent_text :: "u8 list \<Rightarrow> nat \<Rightarrow> nat \<Rightarrow> string \<Rightarrow> string" where
  "recent_text bytes n index acc =
     (if index < n \<and> length acc + 3 < 49
      then
        (let written = (if index = 0 then [] else '' '') @ fmt_x 2 (bytes ! index)
         in if written = [] \<or> length written \<ge> 49 - length acc then acc @ snprintf (49 - length acc) written
            else recent_text bytes n (index + 1) (acc @ written))
      else acc)"
  by pat_completeness auto
termination
  by (relation "measure (\<lambda>(bytes, n, index, acc). n - index)") auto

declare recent_text.simps [simp del]

definition check_parser :: "bzm_runtime_health_input_t \<Rightarrow> bzm_runtime_health_result_t" where
  "check_parser input =
     (let baseline = hi_parser_baseline input; current = hi_parser_current input
      in if \<not> hi_parser_stats_available input then
           health_bad BZM_RUNTIME_HEALTH_FAULT_PARSER_UNAVAILABLE ''parser baseline/current snapshots are unavailable''
         else
           (case find (\<lambda>(name, field). field current < field baseline) monotone_counters of
              Some (name, field) \<Rightarrow> parser_regression name (field baseline) (field current)
            | None \<Rightarrow>
                (case find (\<lambda>(name, field). field current \<noteq> field baseline) error_counters of
                   Some (name, field) \<Rightarrow> parser_delta name (field baseline) (field current)
                 | None \<Rightarrow>
                     (if ps_discarded_bytes current \<noteq> ps_discarded_bytes baseline
                      then health_bad BZM_RUNTIME_HEALTH_FAULT_PARSER_ERROR_DELTA
                             (''parser error counter discarded_bytes increased baseline='' @
                              fmt_u (ps_discarded_bytes baseline) @ '' current='' @ fmt_u (ps_discarded_bytes current) @
                              '' recent=['' @ recent_text (ps_recent_discarded_bytes current)
                                                (ps_recent_discarded_length current) 0 [] @ '']'')
                      else health_good ''UART parser error counters have no runtime delta''))))"

definition valid_telemetry_bounds :: "bzm_telemetry_bounds_t option \<Rightarrow> bool" where
  "valid_telemetry_bounds bounds \<longleftrightarrow>
     (case bounds of None \<Rightarrow> False
      | Some b \<Rightarrow>
          finite_range (tb_temperature_min_c b) (tb_temperature_max_c b) \<and>
          finite_range (tb_ch0_min_mv b) (tb_ch0_max_mv b) \<and> finite_range (tb_ch1_min_mv b) (tb_ch1_max_mv b) \<and>
          isfinite (tb_ch2_abs_max_mv b) \<and> flt_le (Fin 0) (tb_ch2_abs_max_mv b) \<and>
          isfinite (tb_max_stack_spread_mv b) \<and> flt_le (Fin 0) (tb_max_stack_spread_mv b))"

text \<open>The checks of one ASIC; \<open>None\<close> lets the loop go on.\<close>

definition check_sample :: "bzm_runtime_health_input_t \<Rightarrow> bool \<Rightarrow> nat \<Rightarrow> bzm_runtime_health_result_t option" where
  "check_sample input require_clock_locks index =
     (let sample = hi_telemetry input ! index; expected_id = bzm_asic_wire_ids ! index;
          now_us = hi_telemetry_now_us input; max_age_us = hi_telemetry_max_age_us input;
          bounds = hi_telemetry_bounds input;
          asic = ''ASIC 0x'' @ fmt_x 2 expected_id;
          finite_thermal_overheat =
            (ts_thermal_valid sample \<and> isfinite (ts_temperature_c sample) \<and>
             flt_lt (tb_temperature_max_c bounds) (ts_temperature_c sample));
          safe_with_deferred_ch2 =
            (hi_defer_ch2_bounds input \<and>
             bzm_telemetry_sample_is_safe_except_ch2 (Some sample) now_us max_age_us (Some bounds) False);
          within_bounds =
            (if hi_defer_ch2_bounds input then safe_with_deferred_ch2
             else bzm_telemetry_sample_is_within_bounds (Some sample) (Some bounds))
      in if \<not> ts_received sample \<or> ts_asic_id sample \<noteq> expected_id then
           Some (health_bad BZM_RUNTIME_HEALTH_FAULT_TELEMETRY_MISSING
             (asic @ '' telemetry missing or misaddressed as 0x'' @ fmt_x 2 (ts_asic_id sample)))
         else if \<not> bzm_telemetry_sample_is_fresh (Some sample) now_us max_age_us then
           Some (health_bad BZM_RUNTIME_HEALTH_FAULT_TELEMETRY_STALE
             (asic @ '' telemetry timestamp='' @ fmt_u (ts_timestamp_us sample) @ '' now='' @ fmt_u now_us @
              '' maxAge='' @ fmt_u max_age_us @ '' us''))
         else if \<not> ts_voltage_trip sample \<and> (ts_thermal_trip sample \<or> finite_thermal_overheat) then
           Some (health_bad BZM_RUNTIME_HEALTH_FAULT_ASIC_OVERHEAT
             (asic @ '' temperature='' @ fmt_f 1 (ts_temperature_c sample) @ '' C above '' @
              fmt_f 1 (tb_temperature_max_c bounds) @ '' C threshold thermalTrip='' @ fmt_bool (ts_thermal_trip sample)))
         else if ts_trip sample \<or> ts_voltage_trip sample then
           Some (health_bad BZM_RUNTIME_HEALTH_FAULT_TELEMETRY_TRIP (asic @ '' telemetry trip is asserted''))
         else if (\<not> ts_valid sample \<or> \<not> ts_thermal_valid sample \<or> \<not> ts_voltage_valid sample) \<and> \<not> safe_with_deferred_ch2 then
           Some (health_bad BZM_RUNTIME_HEALTH_FAULT_TELEMETRY_INVALID (asic @ '' telemetry validity failed''))
         else if \<not> within_bounds then
           Some (health_bad BZM_RUNTIME_HEALTH_FAULT_TELEMETRY_BOUNDS
             (asic @ '' telemetry outside qualified bounds: temp='' @ fmt_f 1 (ts_temperature_c sample) @ '' C ch=['' @
              fmt_f 1 (ts_ch0_mv sample) @ '','' @ fmt_f 1 (ts_ch1_mv sample) @ '','' @ fmt_f 1 (ts_ch2_mv sample) @ ''] mV''))
         else if require_clock_locks \<and> \<not> hi_defer_clock_locks input \<and> \<not> ts_pll_locked sample then
           Some (health_bad BZM_RUNTIME_HEALTH_FAULT_TELEMETRY_CLOCK_UNLOCKED (asic @ '' combined PLL0/PLL1 telemetry lock is clear''))
         else None)"

fun check_samples :: "bzm_runtime_health_input_t \<Rightarrow> bool \<Rightarrow> nat list \<Rightarrow> bzm_runtime_health_result_t" where
  "check_samples input locks [] =
     health_good (if locks then ''four fresh safe ASIC samples and all clock locks are GOOD''
           else ''four fresh safe ASIC samples are GOOD'')"
| "check_samples input locks (index # is) =
     (case check_sample input locks index of Some result \<Rightarrow> result | None \<Rightarrow> check_samples input locks is)"

definition check_telemetry :: "bzm_runtime_health_input_t \<Rightarrow> bzm_runtime_health_result_t" where
  "check_telemetry input =
     (if \<not> hi_telemetry_available input then
        health_bad BZM_RUNTIME_HEALTH_FAULT_TELEMETRY_UNAVAILABLE ''four-ASIC telemetry snapshot is unavailable''
      else if \<not> valid_telemetry_bounds (Some (hi_telemetry_bounds input)) then
        health_bad BZM_RUNTIME_HEALTH_FAULT_INVALID_INPUT ''ASIC telemetry bounds are invalid''
      else check_samples input (hi_reached_stage input \<ge> BZM_STAGE_CLOCKS) [0..<BZM_MAX_ASIC_COUNT])"

definition bzm_runtime_health_evaluate :: "bzm_runtime_health_input_t option \<Rightarrow> bzm_runtime_health_result_t" where
  "bzm_runtime_health_evaluate input_opt =
     (case input_opt of
        None \<Rightarrow> health_bad BZM_RUNTIME_HEALTH_FAULT_INVALID_INPUT ''runtime health input is NULL''
      | Some input \<Rightarrow>
          (let stage = hi_reached_stage input
           in if \<not> hi_holding input \<or> stage = BZM_STAGE_OFF_SAFE then
                health_good ''no runtime health checks apply while OFF_SAFE or not holding''
              else if stage < BZM_STAGE_OFF_SAFE \<or> stage \<ge> BZM_STAGE_COUNT then
                health_bad BZM_RUNTIME_HEALTH_FAULT_INVALID_STAGE
                  (''reached stage='' @ fmt_nat (stage_index stage) @ '' is outside the validation schema'')
              else
                (let result = check_bridge_and_fan input
                 in if hr_status result \<noteq> BZM_RUNTIME_HEALTH_GOOD then result
                    else if stage \<ge> BZM_STAGE_POWER_RAIL \<and> hr_status (check_power input) \<noteq> BZM_RUNTIME_HEALTH_GOOD
                    then check_power input
                    else if stage \<ge> BZM_STAGE_CHAIN_4 \<and> hr_status (check_parser input) \<noteq> BZM_RUNTIME_HEALTH_GOOD
                    then check_parser input
                    else if stage \<ge> BZM_STAGE_SENSORS \<and> hr_status (check_telemetry input) \<noteq> BZM_RUNTIME_HEALTH_GOOD
                    then check_telemetry input
                    else health_result BZM_RUNTIME_HEALTH_GOOD BZM_RUNTIME_HEALTH_FAULT_NONE
                           (bzm_validation_stage_name stage @ '' runtime health checks are GOOD''))))"

definition bzm_runtime_health_status_name :: "bzm_runtime_health_status_t \<Rightarrow> string" where
  "bzm_runtime_health_status_name status =
     (case status of BZM_RUNTIME_HEALTH_GOOD \<Rightarrow> ''GOOD'' | BZM_RUNTIME_HEALTH_BAD \<Rightarrow> ''BAD'')"

definition bzm_runtime_health_fault_name :: "bzm_runtime_health_fault_t \<Rightarrow> string" where
  "bzm_runtime_health_fault_name fault = (case fault of
       BZM_RUNTIME_HEALTH_FAULT_NONE \<Rightarrow> ''NONE''
     | BZM_RUNTIME_HEALTH_FAULT_INVALID_INPUT \<Rightarrow> ''INVALID_INPUT''
     | BZM_RUNTIME_HEALTH_FAULT_INVALID_STAGE \<Rightarrow> ''INVALID_STAGE''
     | BZM_RUNTIME_HEALTH_FAULT_BRIDGE_UNAVAILABLE \<Rightarrow> ''BRIDGE_UNAVAILABLE''
     | BZM_RUNTIME_HEALTH_FAULT_BRIDGE_STATUS_INVALID \<Rightarrow> ''BRIDGE_STATUS_INVALID''
     | BZM_RUNTIME_HEALTH_FAULT_BRIDGE_CAPABILITY_MISSING \<Rightarrow> ''BRIDGE_CAPABILITY_MISSING''
     | BZM_RUNTIME_HEALTH_FAULT_BRIDGE_STATE \<Rightarrow> ''BRIDGE_STATE''
     | BZM_RUNTIME_HEALTH_FAULT_BRIDGE_FAULT \<Rightarrow> ''BRIDGE_FAULT''
     | BZM_RUNTIME_HEALTH_FAULT_BRIDGE_LEASE \<Rightarrow> ''BRIDGE_LEASE''
     | BZM_RUNTIME_HEALTH_FAULT_BRIDGE_OUTPUT \<Rightarrow> ''BRIDGE_OUTPUT''
     | BZM_RUNTIME_HEALTH_FAULT_FAN_NOT_FULL \<Rightarrow> ''FAN_NOT_FULL''
     | BZM_RUNTIME_HEALTH_FAULT_FAN_TACH_UNAVAILABLE \<Rightarrow> ''FAN_TACH_UNAVAILABLE''
     | BZM_RUNTIME_HEALTH_FAULT_FAN_TACH_LOW \<Rightarrow> ''FAN_TACH_LOW''
     | BZM_RUNTIME_HEALTH_FAULT_TPS_UNAVAILABLE \<Rightarrow> ''TPS_UNAVAILABLE''
     | BZM_RUNTIME_HEALTH_FAULT_TPS_PGOOD_LOW \<Rightarrow> ''TPS_PGOOD_LOW''
     | BZM_RUNTIME_HEALTH_FAULT_TPS_OPERATION_OFF \<Rightarrow> ''TPS_OPERATION_OFF''
     | BZM_RUNTIME_HEALTH_FAULT_TPS_STATUS \<Rightarrow> ''TPS_STATUS''
     | BZM_RUNTIME_HEALTH_FAULT_TPS_VIN_RANGE \<Rightarrow> ''TPS_VIN_RANGE''
     | BZM_RUNTIME_HEALTH_FAULT_TPS_VOUT_RANGE \<Rightarrow> ''TPS_VOUT_RANGE''
     | BZM_RUNTIME_HEALTH_FAULT_TPS_TEMPERATURE_RANGE \<Rightarrow> ''TPS_TEMPERATURE_RANGE''
     | BZM_RUNTIME_HEALTH_FAULT_TPS_IOUT_RANGE \<Rightarrow> ''TPS_IOUT_RANGE''
     | BZM_RUNTIME_HEALTH_FAULT_TPS_VOUT_COMMAND \<Rightarrow> ''TPS_VOUT_COMMAND''
     | BZM_RUNTIME_HEALTH_FAULT_TPS_OVERHEAT \<Rightarrow> ''TPS_OVERHEAT''
     | BZM_RUNTIME_HEALTH_FAULT_TELEMETRY_UNAVAILABLE \<Rightarrow> ''TELEMETRY_UNAVAILABLE''
     | BZM_RUNTIME_HEALTH_FAULT_TELEMETRY_MISSING \<Rightarrow> ''TELEMETRY_MISSING''
     | BZM_RUNTIME_HEALTH_FAULT_TELEMETRY_INVALID \<Rightarrow> ''TELEMETRY_INVALID''
     | BZM_RUNTIME_HEALTH_FAULT_TELEMETRY_TRIP \<Rightarrow> ''TELEMETRY_TRIP''
     | BZM_RUNTIME_HEALTH_FAULT_TELEMETRY_STALE \<Rightarrow> ''TELEMETRY_STALE''
     | BZM_RUNTIME_HEALTH_FAULT_TELEMETRY_BOUNDS \<Rightarrow> ''TELEMETRY_BOUNDS''
     | BZM_RUNTIME_HEALTH_FAULT_TELEMETRY_CLOCK_UNLOCKED \<Rightarrow> ''TELEMETRY_CLOCK_UNLOCKED''
     | BZM_RUNTIME_HEALTH_FAULT_ASIC_OVERHEAT \<Rightarrow> ''ASIC_OVERHEAT''
     | BZM_RUNTIME_HEALTH_FAULT_PARSER_UNAVAILABLE \<Rightarrow> ''PARSER_UNAVAILABLE''
     | BZM_RUNTIME_HEALTH_FAULT_PARSER_COUNTER_REGRESSED \<Rightarrow> ''PARSER_COUNTER_REGRESSED''
     | BZM_RUNTIME_HEALTH_FAULT_PARSER_ERROR_DELTA \<Rightarrow> ''PARSER_ERROR_DELTA'')"

section \<open>A healthy board\<close>

text \<open>What a GOOD answer must mean, in terms of bits, numbers and counters.\<close>

definition between :: "cfloat \<Rightarrow> cfloat \<Rightarrow> cfloat \<Rightarrow> bool" where
  "between lo v hi \<longleftrightarrow> (\<exists>a x b. lo = Fin a \<and> v = Fin x \<and> hi = Fin b \<and> a \<le> x \<and> x \<le> b)"

definition bridge_healthy :: "bzm_runtime_health_input_t \<Rightarrow> bool" where
  "bridge_healthy i \<longleftrightarrow>
     (let s = hi_bridge_status i
      in hi_bridge_status_available i \<and> bs_valid s \<and> bs_schema_version s = 1 \<and>
         bs_stage s \<noteq> BZM_BRIDGE_SAFETY_STAGE_BOOT_SAFE \<and> (\<forall>n\<in>{0, 1, 2, 3, 7}. bit (bs_capabilities s) n) \<and>
         (hi_require_independent_kill i \<longrightarrow>
            bs_stage s = BZM_BRIDGE_SAFETY_STAGE_TRIP_LATCH \<and> bs_production_verdict s = BZM_BRIDGE_SAFETY_PRODUCTION_GOOD \<and>
            (\<forall>n\<in>{4, 5, 6}. bit (bs_capabilities s) n) \<and> (\<forall>n\<in>{4, 5, 6}. bit (bs_evidence s) n)) \<and>
         bs_state s = BZM_BRIDGE_SAFETY_STATE_CONTROLLED \<and> bs_fault s = BZM_BRIDGE_SAFETY_FAULT_NONE \<and>
         \<not> bs_trip_input_asserted s \<and> bs_runtime_verdict s = BZM_BRIDGE_SAFETY_RUNTIME_GOOD_CONTROLLED \<and>
         bs_lease_remaining_ms s \<noteq> 0 \<and> (\<forall>n\<in>{1, 2, 3}. bit (bs_evidence s) n) \<and>
         (bit (bs_evidence s) 0 \<longleftrightarrow> \<not> bs_five_volt_enabled s \<and> bs_asic_reset_asserted s \<and> bs_fan_full s \<and> bs_fan_percent s = 100) \<and>
         (hi_require_fan_full i \<longrightarrow> bs_fan_full s \<and> bs_fan_percent s = 100) \<and>
         hi_fan_tach_available i \<and> 0 < hi_fan_min_rpm i \<and> hi_fan_min_rpm i \<le> hi_fan_rpm i)"

definition power_healthy :: "bzm_runtime_health_input_t \<Rightarrow> bool" where
  "power_healthy i \<longleftrightarrow>
     (let s = hi_bridge_status i; t = hi_tps i; b = hi_tps_bounds i
      in (bs_five_volt_enabled s \<longleftrightarrow> BZM_STAGE_CHAIN_4 \<le> hi_reached_stage i) \<and>
         (bs_asic_reset_asserted s \<longleftrightarrow> hi_reached_stage i < BZM_STAGE_CHAIN_4) \<and>
         tp_available t \<and> tp_pgood t \<and> bit (tp_operation t) 7 \<and> tp_status_word t = 0 \<and>
         tp_vout_command_matches_expected t \<and>
         (\<exists>c e tol. tp_vout_command_v t = Fin c \<and> tq_vout_command_v b = Fin e \<and> tq_vout_command_tolerance_v b = Fin tol \<and>
            0 \<le> tol \<and> flt_le (fabsf (flt_sub (Fin c) (Fin e))) (Fin tol)) \<and>
         between (tq_vin_min_v b) (tp_vin_v t) (tq_vin_max_v b) \<and> between (tq_vout_min_v b) (tp_vout_v t) (tq_vout_max_v b) \<and>
         between (tq_iout_min_a b) (tp_iout_a t) (tq_iout_max_a b) \<and>
         between (tq_temperature_min_c b) (tp_temperature_c t) (tq_temperature_max_c b))"

definition parser_healthy :: "bzm_runtime_health_input_t \<Rightarrow> bool" where
  "parser_healthy i \<longleftrightarrow>
     (let b = hi_parser_baseline i; c = hi_parser_current i
      in hi_parser_stats_available i \<and> ps_emitted_frames b \<le> ps_emitted_frames c \<and>
         ps_discarded_bytes c = ps_discarded_bytes b \<and>
         ps_unexpected_register_headers c = ps_unexpected_register_headers b \<and> window_counters_equal b c)"

definition sample_healthy :: "bzm_runtime_health_input_t \<Rightarrow> nat \<Rightarrow> bool" where
  "sample_healthy i k \<longleftrightarrow>
     (let s = hi_telemetry i ! k; b = hi_telemetry_bounds i
      in ts_received s \<and> ts_asic_id s = bzm_asic_wire_ids ! k \<and>
         ts_timestamp_us s \<le> hi_telemetry_now_us i \<and>
         unat (hi_telemetry_now_us i) - unat (ts_timestamp_us s) \<le> unat (hi_telemetry_max_age_us i) \<and>
         \<not> ts_trip s \<and> \<not> ts_voltage_trip s \<and> \<not> ts_thermal_trip s \<and>
         \<not> (ts_thermal_valid s \<and> isfinite (ts_temperature_c s) \<and> flt_lt (tb_temperature_max_c b) (ts_temperature_c s)) \<and>
         (if hi_defer_ch2_bounds i
          then bzm_telemetry_sample_is_safe_except_ch2 (Some s) (hi_telemetry_now_us i) (hi_telemetry_max_age_us i) (Some b) False
          else ts_valid s \<and> ts_thermal_valid s \<and> ts_voltage_valid s \<and> bzm_telemetry_sample_is_within_bounds (Some s) (Some b)) \<and>
         (BZM_STAGE_CLOCKS \<le> hi_reached_stage i \<longrightarrow> hi_defer_clock_locks i \<or> ts_pll_locked s))"

definition board_healthy :: "bzm_runtime_health_input_t \<Rightarrow> bool" where
  "board_healthy i \<longleftrightarrow>
     bridge_healthy i \<and>
     (BZM_STAGE_POWER_RAIL \<le> hi_reached_stage i \<longrightarrow> power_healthy i) \<and>
     (BZM_STAGE_CHAIN_4 \<le> hi_reached_stage i \<longrightarrow> parser_healthy i) \<and>
     (BZM_STAGE_SENSORS \<le> hi_reached_stage i \<longrightarrow>
        hi_telemetry_available i \<and> valid_telemetry_bounds (Some (hi_telemetry_bounds i)) \<and> (\<forall>k<4. sample_healthy i k))"

lemma hr_status_simps:
  "hr_status (if c then x else y) = (if c then hr_status x else hr_status y)"
  "hr_status (health_bad f d) = BZM_RUNTIME_HEALTH_BAD" "hr_status (health_good d) = BZM_RUNTIME_HEALTH_GOOD"
  "hr_status (health_result st f d) = st"
  by (simp_all add: health_bad_def health_good_def health_result_def)

lemma unless_bad:
  "(if c then BZM_RUNTIME_HEALTH_BAD else r) = BZM_RUNTIME_HEALTH_GOOD \<longleftrightarrow> \<not> c \<and> r = BZM_RUNTIME_HEALTH_GOOD"
  "(if c then BZM_RUNTIME_HEALTH_GOOD else BZM_RUNTIME_HEALTH_GOOD) = BZM_RUNTIME_HEALTH_GOOD"
  "BZM_RUNTIME_HEALTH_GOOD = BZM_RUNTIME_HEALTH_GOOD \<longleftrightarrow> True"
  by simp_all

lemma all_bits: "(w AND m = m) \<longleftrightarrow> (\<forall>n. bit m n \<longrightarrow> bit w n)" for w m :: "'a::len word"
  by (auto simp: bit_eq_iff bit_and_iff possible_bit_word dest: bit_imp_le_length)

lemma required_bits:
  "bit health_required_capabilities n \<longleftrightarrow> n \<in> {0, 1, 2, 3, 7}" "bit health_required_evidence n \<longleftrightarrow> n \<in> {1, 2, 3}"
  "bit health_production_evidence n \<longleftrightarrow> n \<in> {4, 5, 6}" "bit production_capabilities n \<longleftrightarrow> n \<in> {4, 5, 6}"
proof -
  have c: "health_required_capabilities = mask 4 OR push_bit 7 (mask 1)" "health_required_evidence = push_bit 1 (mask 3)"
      "health_production_evidence = push_bit 4 (mask 3)" "production_capabilities = push_bit 4 (mask 3)"
    by (simp_all add: health_required_capabilities_def health_required_evidence_def health_production_evidence_def
        production_capabilities_def mask_eq_exp_minus_1)
  have s: "n < 4 \<or> (7 \<le> n \<and> n - 7 < 1) \<longleftrightarrow> n \<in> {0, 1, 2, 3, 7}" "1 \<le> n \<and> n - 1 < 3 \<longleftrightarrow> n \<in> {1, 2, 3}"
      "4 \<le> n \<and> n - 4 < 3 \<longleftrightarrow> n \<in> {4, 5, 6}"
    by auto
  have p: "bit (mask 4 OR push_bit 7 (mask 1) :: u16) n \<longleftrightarrow> n < 4 \<or> (7 \<le> n \<and> n - 7 < 1)"
      "bit (push_bit 1 (mask 3) :: u16) n \<longleftrightarrow> 1 \<le> n \<and> n - 1 < 3" "bit (push_bit 4 (mask 3) :: u16) n \<longleftrightarrow> 4 \<le> n \<and> n - 4 < 3"
    by (simp_all only: bit_or_iff bit_push_bit_iff bit_mask_iff possible_bit_word) auto
  show "bit health_required_capabilities n \<longleftrightarrow> n \<in> {0, 1, 2, 3, 7}" "bit health_required_evidence n \<longleftrightarrow> n \<in> {1, 2, 3}"
    "bit health_production_evidence n \<longleftrightarrow> n \<in> {4, 5, 6}" "bit production_capabilities n \<longleftrightarrow> n \<in> {4, 5, 6}"
    unfolding c p s by (rule refl)+
qed

lemma check_bridge_good: "hr_status (check_bridge_and_fan i) = BZM_RUNTIME_HEALTH_GOOD \<longleftrightarrow> bridge_healthy i"
proof -
  have pos: "0 < w \<longleftrightarrow> \<not> w = 0" for w :: u16 by (auto simp: word_gt_0)
  have ev: "(bs_evidence s AND 1 \<noteq> 0) = bit (bs_evidence s) 0" for s
    using and_exp_eq_0_iff_not_bit[of "bs_evidence s" 0] by simp
  show ?thesis
    unfolding check_bridge_and_fan_def bridge_healthy_def Let_def hr_status_simps independent_kill_missing_def all_bits
      required_bits ev Ball_def pos unless_bad not_less[symmetric]
    by sat
qed

lemma in_range_between: "in_range v lo hi \<longleftrightarrow> between lo v hi"
  by (cases v; cases lo; cases hi) (auto simp: in_range_def finite_range_def between_def)

lemma between_range: "between lo v hi \<Longrightarrow> finite_range lo hi"
  by (auto simp: between_def finite_range_def)

lemma between_le: "between lo v hi \<Longrightarrow> \<not> flt_lt hi v"
  by (auto simp: between_def)

lemma fabsf_not_less: "isfinite a \<Longrightarrow> isfinite b \<Longrightarrow> isfinite t \<Longrightarrow> \<not> flt_lt t (fabsf (flt_sub a b)) \<longleftrightarrow> flt_le (fabsf (flt_sub a b)) t"
  by (cases a; cases b; cases t) (auto simp: flt_sub_def round32_def Let_def)

lemma check_power_good: "hr_status (check_power i) = BZM_RUNTIME_HEALTH_GOOD \<longleftrightarrow> power_healthy i"
proof -
  let ?t = "hi_tps i" and ?b = "hi_tps_bounds i"
  have op: "(tp_operation ?t AND 0x80 = 0) \<longleftrightarrow> \<not> bit (tp_operation ?t) 7"
    using and_exp_eq_0_iff_not_bit[of "tp_operation ?t" 7] by simp
  have st: "tp_status_word ?t AND 0xffff = tp_status_word ?t"
    using take_bit_eq_mask[of 16 "tp_status_word ?t"] by (simp add: mask_eq_exp_minus_1 take_bit_word_eq_self)
  have cmd: "isfinite (tq_vout_command_v ?b) \<and> isfinite (tq_vout_command_tolerance_v ?b) \<and>
        \<not> flt_lt (tq_vout_command_tolerance_v ?b) (Fin 0) \<and> isfinite (tp_vout_command_v ?t) \<and>
        \<not> flt_lt (tq_vout_command_tolerance_v ?b) (fabsf (flt_sub (tp_vout_command_v ?t) (tq_vout_command_v ?b))) \<longleftrightarrow>
      (\<exists>c e tol. tp_vout_command_v ?t = Fin c \<and> tq_vout_command_v ?b = Fin e \<and> tq_vout_command_tolerance_v ?b = Fin tol \<and>
            0 \<le> tol \<and> flt_le (fabsf (flt_sub (Fin c) (Fin e))) (Fin tol))"
    using fabsf_not_less[of "tp_vout_command_v ?t" "tq_vout_command_v ?b" "tq_vout_command_tolerance_v ?b"]
    by (cases "tp_vout_command_v ?t"; cases "tq_vout_command_v ?b"; cases "tq_vout_command_tolerance_v ?b") auto
  show ?thesis
    unfolding check_power_def power_healthy_def Let_def hr_status_simps op st in_range_between tps_bounds_invalid_def
    using cmd between_range between_le
    by (auto simp: not_le split: if_splits)
qed

lemma check_parser_good: "hr_status (check_parser i) = BZM_RUNTIME_HEALTH_GOOD \<longleftrightarrow> parser_healthy i"
proof -
  let ?b = "hi_parser_baseline i" and ?c = "hi_parser_current i"
  have reg: "hr_status (parser_regression n x y) = BZM_RUNTIME_HEALTH_BAD" "hr_status (parser_delta n x y) = BZM_RUNTIME_HEALTH_BAD" for n x y
    by (simp_all add: parser_regression_def parser_delta_def hr_status_simps)
  have "hr_status (check_parser i) = BZM_RUNTIME_HEALTH_GOOD \<longleftrightarrow>
      hi_parser_stats_available i \<and> (\<forall>(n, f)\<in>set monotone_counters. \<not> f ?c < f ?b) \<and>
      (\<forall>(n, f)\<in>set error_counters. f ?c = f ?b) \<and> ps_discarded_bytes ?c = ps_discarded_bytes ?b"
  proof -
    have a: "hr_status (case find P xs of None \<Rightarrow> y | Some (n, f) \<Rightarrow> parser_regression n (f u) (f v)) = BZM_RUNTIME_HEALTH_GOOD \<longleftrightarrow>
        (\<forall>x\<in>set xs. \<not> P x) \<and> hr_status y = BZM_RUNTIME_HEALTH_GOOD"
      and b: "hr_status (case find P xs of None \<Rightarrow> y | Some (n, f) \<Rightarrow> parser_delta n (f u) (f v)) = BZM_RUNTIME_HEALTH_GOOD \<longleftrightarrow>
        (\<forall>x\<in>set xs. \<not> P x) \<and> hr_status y = BZM_RUNTIME_HEALTH_GOOD"
      for P xs y and u v :: bzm_serial_parser_stats_t
      using find_None_iff[of P xs] by (cases "find P xs"; auto simp: reg)+
    show ?thesis
      unfolding check_parser_def Let_def hr_status_simps(1,2) unless_bad a b
      by (auto simp: hr_status_simps(2,3))
  qed
  also have "\<dots> \<longleftrightarrow> parser_healthy i"
    by (auto simp: parser_healthy_def Let_def window_counters_equal_def monotone_counters_def error_counters_def not_less)
  finally show ?thesis .
qed

lemma check_sample_good: "check_sample i locks k = None \<longleftrightarrow>
    sample_healthy (i\<lparr> hi_reached_stage := if locks then BZM_STAGE_CLOCKS else BZM_STAGE_SENSORS \<rparr>) k"
proof -
  let ?s = "hi_telemetry i ! k"
  have fresh: "ts_received ?s \<Longrightarrow> bzm_telemetry_sample_is_fresh (Some ?s) (hi_telemetry_now_us i) (hi_telemetry_max_age_us i) \<longleftrightarrow>
      ts_timestamp_us ?s \<le> hi_telemetry_now_us i \<and>
      unat (hi_telemetry_now_us i) - unat (ts_timestamp_us ?s) \<le> unat (hi_telemetry_max_age_us i)"
    by (auto simp: bzm_telemetry_sample_is_fresh_def word_le_nat_alt unat_sub)
  have locks: "BZM_STAGE_CLOCKS \<le> (if locks then BZM_STAGE_CLOCKS else BZM_STAGE_SENSORS) \<longleftrightarrow> locks"
    by (simp add: less_eq_bzm_validation_stage_t_def)
  have none: "(if c then Some x else y) = None \<longleftrightarrow> \<not> c \<and> y = None" for c and x :: bzm_runtime_health_result_t and y
    by simp
  show ?thesis
    unfolding check_sample_def Let_def none sample_healthy_def using fresh by (auto simp: locks split: if_splits)
qed

lemma check_samples_good:
  "hr_status (check_samples i locks ks) = BZM_RUNTIME_HEALTH_GOOD \<longleftrightarrow> (\<forall>k\<in>set ks. check_sample i locks k = None)"
proof (induction ks)
  case (Cons k ks)
  have "check_sample i locks k = Some r \<Longrightarrow> hr_status r = BZM_RUNTIME_HEALTH_BAD" for r
    by (auto simp: check_sample_def Let_def hr_status_simps split: if_splits)
  then show ?case using Cons by (auto split: option.splits)
qed (simp add: hr_status_simps)

lemma sample_healthy_stage:
  "sample_healthy (i\<lparr> hi_reached_stage := if BZM_STAGE_CLOCKS \<le> hi_reached_stage i then BZM_STAGE_CLOCKS
      else BZM_STAGE_SENSORS \<rparr>) k \<longleftrightarrow> sample_healthy i k"
  by (simp add: sample_healthy_def Let_def less_eq_bzm_validation_stage_t_def)

lemma check_telemetry_good: "hr_status (check_telemetry i) = BZM_RUNTIME_HEALTH_GOOD \<longleftrightarrow>
    hi_telemetry_available i \<and> valid_telemetry_bounds (Some (hi_telemetry_bounds i)) \<and> (\<forall>k<4. sample_healthy i k)"
  unfolding check_telemetry_def hr_status_simps unless_bad check_samples_good check_sample_good sample_healthy_stage
  by (auto simp: atLeast0LessThan simp del: upt_rec_numeral)

lemmas check_good = check_bridge_good check_power_good check_parser_good check_telemetry_good

section \<open>GOOD means a healthy board\<close>

definition coherent :: "bzm_runtime_health_result_t \<Rightarrow> bool" where
  "coherent r \<longleftrightarrow> (hr_status r = BZM_RUNTIME_HEALTH_GOOD \<longleftrightarrow> hr_fault r = BZM_RUNTIME_HEALTH_FAULT_NONE)"

lemma coherent_simps:
  "coherent (if c then x else y) = (if c then coherent x else coherent y)"
  "coherent (health_bad f d) = (f \<noteq> BZM_RUNTIME_HEALTH_FAULT_NONE)" "coherent (health_good d)"
  "coherent (health_result BZM_RUNTIME_HEALTH_GOOD BZM_RUNTIME_HEALTH_FAULT_NONE d)"
  "coherent (parser_regression n u v)" "coherent (parser_delta n u v)"
  by (simp_all add: coherent_def health_bad_def health_good_def health_result_def parser_regression_def parser_delta_def)

lemma coherent_samples: "coherent (check_samples i locks ks)"
proof (induction ks)
  case (Cons k ks)
  have "check_sample i locks k = Some r \<Longrightarrow> coherent r" for r
    by (auto simp: check_sample_def Let_def coherent_simps split: if_splits)
  then show ?case using Cons by (auto split: option.splits)
qed (simp add: coherent_simps)

lemma coherent_checks:
  "coherent (check_bridge_and_fan i)" "coherent (check_power i)" "coherent (check_parser i)" "coherent (check_telemetry i)"
  by (simp_all add: check_bridge_and_fan_def check_power_def check_parser_def check_telemetry_def Let_def coherent_simps
      coherent_samples split: option.split)

text \<open>C2. The interlock is exact and fails closed. A missing snapshot is BAD. A snapshot is answered
  GOOD exactly when the board holds no stage (not holding, or OFF_SAFE) or when the reached stage is
  one of the schema and the board is healthy up to it: bridge status and fan from the first stage on,
  the regulator from POWER_RAIL on, no parser error delta from CHAIN_4 on and four fresh, untripped,
  in-range ASIC samples from SENSORS on (clock locks from CLOCKS on). A GOOD answer carries the fault
  code NONE and a BAD one never does.\<close>

theorem runtime_health_exact:
  "hr_status (bzm_runtime_health_evaluate None) = BZM_RUNTIME_HEALTH_BAD \<and>
   (hr_status (bzm_runtime_health_evaluate (Some i)) = BZM_RUNTIME_HEALTH_GOOD \<longleftrightarrow>
      \<not> hi_holding i \<or> hi_reached_stage i = BZM_STAGE_OFF_SAFE \<or> (hi_reached_stage i < BZM_STAGE_COUNT \<and> board_healthy i)) \<and>
   (hr_status (bzm_runtime_health_evaluate input) = BZM_RUNTIME_HEALTH_GOOD \<longleftrightarrow>
      hr_fault (bzm_runtime_health_evaluate input) = BZM_RUNTIME_HEALTH_FAULT_NONE)"
proof (intro conjI)
  show "hr_status (bzm_runtime_health_evaluate None) = BZM_RUNTIME_HEALTH_BAD"
    by (simp add: bzm_runtime_health_evaluate_def hr_status_simps)
  have low: "\<not> stage < BZM_STAGE_OFF_SAFE" for stage
    by (cases stage) (simp_all add: less_bzm_validation_stage_t_def)
  show "hr_status (bzm_runtime_health_evaluate (Some i)) = BZM_RUNTIME_HEALTH_GOOD \<longleftrightarrow>
      \<not> hi_holding i \<or> hi_reached_stage i = BZM_STAGE_OFF_SAFE \<or> (hi_reached_stage i < BZM_STAGE_COUNT \<and> board_healthy i)"
    unfolding bzm_runtime_health_evaluate_def board_healthy_def check_good[symmetric]
    by (auto simp: Let_def hr_status_simps low not_less)
  show "hr_status (bzm_runtime_health_evaluate input) = BZM_RUNTIME_HEALTH_GOOD \<longleftrightarrow>
      hr_fault (bzm_runtime_health_evaluate input) = BZM_RUNTIME_HEALTH_FAULT_NONE"
    unfolding coherent_def[symmetric]
    by (simp add: bzm_runtime_health_evaluate_def Let_def coherent_simps coherent_checks split: option.split)
qed

definition example_sample :: "nat \<Rightarrow> bzm_telemetry_sample_t" where
  "example_sample k = \<lparr> ts_asic_id = bzm_asic_wire_ids ! k, ts_timestamp_us = 100, ts_received = True,
     ts_temperature_code = 0, ts_temperature_c = Fin 60, ts_thermal_enabled = True, ts_thermal_validity = True,
     ts_thermal_fault = False, ts_thermal_trip = False, ts_thermal_valid = True, ts_ch0_code = 0, ts_ch1_code = 0,
     ts_ch2_code = 0, ts_ch0_mv = Fin 700, ts_ch1_mv = Fin 700, ts_ch2_mv = Fin 0, ts_voltage_enabled = True,
     ts_voltage_fault = False, ts_voltage_trip = False, ts_voltage_valid = True, ts_pll_locked = True,
     ts_valid = True, ts_trip = False \<rparr>"

definition example_health :: bzm_runtime_health_input_t where
  "example_health = \<lparr> hi_reached_stage = BZM_STAGE_SENSORS, hi_holding = True, hi_bridge_status_available = True,
     hi_bridge_status = invalidate_safety_status\<lparr> bs_valid := True, bs_schema_version := 1,
       bs_stage := BZM_BRIDGE_SAFETY_STAGE_LEASE, bs_state := BZM_BRIDGE_SAFETY_STATE_CONTROLLED,
       bs_fault := BZM_BRIDGE_SAFETY_FAULT_NONE, bs_runtime_verdict := BZM_BRIDGE_SAFETY_RUNTIME_GOOD_CONTROLLED,
       bs_capabilities := 0x8f, bs_evidence := 0x0e, bs_lease_remaining_ms := 2000, bs_five_volt_enabled := True,
       bs_fan_full := True, bs_fan_percent := 100 \<rparr>,
     hi_require_independent_kill = False, hi_fan_tach_available = True, hi_fan_rpm = 4000, hi_fan_min_rpm = 1000,
     hi_require_fan_full = True,
     hi_tps = \<lparr> tp_available = True, tp_pgood = True, tp_operation = 0x80, tp_status_word = 0,
       tp_vout_command_v = Fin 3, tp_vout_command_matches_expected = True, tp_vin_v = Fin 12, tp_vout_v = Fin 3,
       tp_iout_a = Fin 20, tp_temperature_c = Fin 50 \<rparr>,
     hi_tps_bounds = \<lparr> tq_vin_min_v = Fin 11, tq_vin_max_v = Fin 13, tq_vout_command_v = Fin 3,
       tq_vout_command_tolerance_v = Fin 0, tq_vout_min_v = Fin 2, tq_vout_max_v = Fin 4, tq_iout_min_a = Fin 0,
       tq_iout_max_a = Fin 40, tq_temperature_min_c = Fin 0, tq_temperature_max_c = Fin 100 \<rparr>,
     hi_telemetry_available = True, hi_telemetry = map example_sample [0, 1, 2, 3],
     hi_telemetry_bounds = \<lparr> tb_temperature_min_c = Fin 0, tb_temperature_max_c = Fin 100, tb_ch0_min_mv = Fin 600,
       tb_ch0_max_mv = Fin 800, tb_ch1_min_mv = Fin 600, tb_ch1_max_mv = Fin 800, tb_ch2_abs_max_mv = Fin 50,
       tb_max_stack_spread_mv = Fin 50 \<rparr>,
     hi_telemetry_now_us = 150, hi_telemetry_max_age_us = 100, hi_defer_ch2_bounds = False,
     hi_defer_clock_locks = False, hi_parser_stats_available = True, hi_parser_baseline = zero_parser_stats,
     hi_parser_current = zero_parser_stats\<lparr> ps_emitted_frames := 7 \<rparr> \<rparr>"

lemma example_health_bridge: "bridge_healthy example_health"
  by (simp add: example_health_def bridge_healthy_def Let_def invalidate_safety_status_def)

lemma example_health_power: "power_healthy example_health"
  by (simp add: example_health_def power_healthy_def Let_def invalidate_safety_status_def between_def flt_sub_def
      round32_def less_eq_bzm_validation_stage_t_def less_bzm_validation_stage_t_def)

lemma example_health_parser: "parser_healthy example_health"
  by (simp add: example_health_def parser_healthy_def zero_parser_stats_def window_counters_equal_def)

lemma example_health_samples: "k < 4 \<Longrightarrow> sample_healthy example_health k"
proof -
  assume "k < 4"
  then consider "k = 0" | "k = 1" | "k = 2" | "k = 3" by linarith
  then show ?thesis
    by cases (simp_all add: sample_healthy_def example_health_def example_sample_def Let_def
      bzm_telemetry_sample_is_within_bounds_def sample_is_within_non_ch2_bounds_def bounds_are_valid_def
      bzm_telemetry_value_in_bounds_def round32_def flt_sub_def less_eq_bzm_validation_stage_t_def bzm_asic_wire_ids_def)
qed

text \<open>A healthy board is answered GOOD; one discarded byte more than the baseline and the answer is BAD.\<close>

theorem runtime_health_exact_witness:
  "hr_status (bzm_runtime_health_evaluate (Some example_health)) = BZM_RUNTIME_HEALTH_GOOD \<and>
   hr_status (bzm_runtime_health_evaluate (Some (example_health\<lparr> hi_parser_current :=
     (hi_parser_current example_health)\<lparr> ps_discarded_bytes := 1 \<rparr> \<rparr>))) \<noteq> BZM_RUNTIME_HEALTH_GOOD"
proof -
  have "board_healthy example_health"
    using example_health_bridge example_health_power example_health_parser example_health_samples
    by (simp add: board_healthy_def) (simp add: valid_telemetry_bounds_def finite_range_def example_health_def)
  moreover have "\<not> board_healthy (example_health\<lparr> hi_parser_current :=
     (hi_parser_current example_health)\<lparr> ps_discarded_bytes := 1 \<rparr> \<rparr>)"
    by (simp add: board_healthy_def parser_healthy_def example_health_def zero_parser_stats_def
        less_eq_bzm_validation_stage_t_def)
  ultimately show ?thesis
    unfolding runtime_health_exact[THEN conjunct2, THEN conjunct1] by (simp add: example_health_def less_bzm_validation_stage_t_def)
qed

end
