(* ===== verification/Work.thy ===== *)
theory Work
  imports Results Topology
begin

text \<open>
  Bonanza work (\<open>components/asic/bzm.c\<close>) and its register programming (\<open>components/asic/bzm_work.c\<close>):
  a job becomes the midstates, versions and ranges of one engine, written register by register through
  a writer that may fail. A writer is a parameter acting on a device state. NULL is \<open>None\<close>; a result
  decoder that returns false is \<open>None\<close>.
\<close>

section \<open>Model: work and results\<close>

abbreviation BZM_MAX_ENGINE_COUNT :: u16 where "BZM_MAX_ENGINE_COUNT \<equiv> 4096"
abbreviation BZM_VERSION_VARIANTS :: nat where "BZM_VERSION_VARIANTS \<equiv> 4"
abbreviation BZM_ENGINES_PER_ASIC :: u16 where "BZM_ENGINES_PER_ASIC \<equiv> BZM_TOPOLOGY_ENGINE_COUNT"
abbreviation BZM_MAX_ACTIVE_WORK :: nat where "BZM_MAX_ACTIVE_WORK \<equiv> 256"

record asic_work_t =
  aw_handle :: asic_work_handle_t
  aw_template :: "cfloat job_ref option"

record bzm_work_t =
  wk_source :: asic_work_t
  wk_engine_id :: u16
  wk_timestamp_count :: u8
  wk_starting_nonce :: u32
  wk_end_nonce :: u32
  wk_midstate_count :: nat
  wk_midstates :: "u8 list list"
  wk_versions :: "u32 list"
  wk_merkle_residue :: u32
  wk_start_ntime :: u32
  wk_target :: u32
  wk_logical_sequence :: u8
  wk_lead_zeros :: u8

record bzm_raw_result_t =
  raw_asic_id :: u8
  raw_engine_id :: u16
  raw_status :: u8
  raw_nonce :: u32
  raw_sequence_id :: u8
  raw_time :: u8
  raw_timestamp_us :: u64

text \<open>The version variants of a job: their number, and the array behind them (zero beyond the number).\<close>

definition bzm_build_versions :: "u32 \<Rightarrow> u32 \<Rightarrow> bool \<Rightarrow> nat \<times> u32 list" where
  "bzm_build_versions base_version version_mask enhanced_mode =
     (if \<not> enhanced_mode then (1, [base_version, 0, 0, 0])
      else if version_mask = 0 then (BZM_VERSION_VARIANTS, replicate BZM_VERSION_VARIANTS base_version)
      else
        (let v1 = increment_bitmask base_version version_mask; v2 = increment_bitmask v1 version_mask;
             v3 = increment_bitmask v2 version_mask
         in (BZM_VERSION_VARIANTS, [base_version, v1, v2, v3])))"

definition work_midstate :: "cfloat asic_job_t \<Rightarrow> u32 \<Rightarrow> u8 list" where
  "work_midstate template version =
     reverse_endianness_per_word
       (midstate_sha256_bin (take 64 (asic_job_header template (aj_starting_nonce template) version)))"

definition bzm_work_build ::
    "asic_work_t option \<Rightarrow> u16 \<Rightarrow> u8 \<Rightarrow> u8 \<Rightarrow> u8 \<Rightarrow> bool \<Rightarrow> bzm_work_t option" where
  "bzm_work_build source_opt engine_id logical_sequence timestamp_count lead_zeros enhanced_mode =
     (case source_opt of None \<Rightarrow> None
      | Some source \<Rightarrow>
          (case aw_template source of None \<Rightarrow> None
           | Some (_, template) \<Rightarrow>
               if aw_handle source = ASIC_WORK_HANDLE_INVALID \<or> engine_id \<ge> BZM_MAX_ENGINE_COUNT \<or> timestamp_count > 0x7f
               then None
               else
                 (let (count, versions) = bzm_build_versions (aj_version template) (aj_version_mask template) enhanced_mode
                  in Some \<lparr> wk_source = source, wk_engine_id = engine_id, wk_timestamp_count = timestamp_count,
                       wk_starting_nonce = aj_starting_nonce template, wk_end_nonce = UINT32_MAX,
                       wk_midstate_count = count,
                       wk_midstates = map (work_midstate template) (take count versions) @
                                      replicate (BZM_VERSION_VARIANTS - count) (replicate 32 0),
                       wk_versions = versions, wk_merkle_residue = le_word (take 4 (drop 28 (aj_merkle_root template))),
                       wk_start_ntime = aj_ntime template, wk_target = aj_nbits template,
                       wk_logical_sequence = logical_sequence, wk_lead_zeros = lead_zeros \<rparr>)))"

definition bzm_result_decode :: "u8 list \<Rightarrow> u64 \<Rightarrow> bzm_raw_result_t option" where
  "bzm_result_decode frame timestamp_us =
     (let engine_status = push_bit 8 (ucast (frame ! 0)) OR ucast (frame ! 1) :: u16;
          result = \<lparr> raw_asic_id = 0, raw_engine_id = engine_status AND 0x0fff, raw_status = ucast (drop_bit 12 engine_status),
            raw_nonce = ucast (frame ! 2) OR push_bit 8 (ucast (frame ! 3)) OR push_bit 16 (ucast (frame ! 4)) OR
                       push_bit 24 (ucast (frame ! 5)),
            raw_sequence_id = frame ! 6, raw_time = frame ! 7, raw_timestamp_us = timestamp_us \<rparr>
      in if raw_engine_id result < BZM_MAX_ENGINE_COUNT then Some result else None)"

definition bzm_tdm_result_decode :: "u8 list \<Rightarrow> u64 \<Rightarrow> bzm_raw_result_t option" where
  "bzm_tdm_result_decode frame timestamp_us =
     (if frame ! 1 \<noteq> 0x01 then None
      else map_option (\<lambda>result. result\<lparr> raw_asic_id := frame ! 0 \<rparr>) (bzm_result_decode (drop 2 frame) timestamp_us))"

definition bzm_raw_result_has_valid_nonce :: "bzm_raw_result_t option \<Rightarrow> bool" where
  "bzm_raw_result_has_valid_nonce result \<longleftrightarrow> (case result of None \<Rightarrow> False | Some r \<Rightarrow> raw_status r AND 0x08 \<noteq> 0)"

definition bzm_engine_physical_id :: "u16 \<Rightarrow> u16 option" where
  "bzm_engine_physical_id logical_engine_id = map_option el_physical_id (bzm_topology_engine_at logical_engine_id)"

definition bzm_engine_logical_id :: "u16 \<Rightarrow> u16 option" where
  "bzm_engine_logical_id physical_engine_id =
     map_option el_topology_index (bzm_topology_from_physical_id physical_engine_id)"

section \<open>Model: register programming\<close>

abbreviation BZM_REG_MIDSTATE :: u8 where "BZM_REG_MIDSTATE \<equiv> 0x10"
abbreviation BZM_REG_MERKLE_RESIDUE :: u8 where "BZM_REG_MERKLE_RESIDUE \<equiv> 0x30"
abbreviation BZM_REG_START_TIMESTAMP :: u8 where "BZM_REG_START_TIMESTAMP \<equiv> 0x34"
abbreviation BZM_REG_SEQUENCE_ID :: u8 where "BZM_REG_SEQUENCE_ID \<equiv> 0x38"
abbreviation BZM_REG_JOB_CONTROL :: u8 where "BZM_REG_JOB_CONTROL \<equiv> 0x39"
abbreviation BZM_REG_START_NONCE :: u8 where "BZM_REG_START_NONCE \<equiv> 0x3c"
abbreviation BZM_REG_END_NONCE :: u8 where "BZM_REG_END_NONCE \<equiv> 0x40"
abbreviation BZM_REG_TARGET :: u8 where "BZM_REG_TARGET \<equiv> 0x44"
abbreviation BZM_REG_TIMESTAMP_COUNT :: u8 where "BZM_REG_TIMESTAMP_COUNT \<equiv> 0x48"
abbreviation BZM_REG_ZEROS_TO_FIND :: u8 where "BZM_REG_ZEROS_TO_FIND \<equiv> 0x49"
abbreviation BZM_REG_ASIC_ID :: u8 where "BZM_REG_ASIC_ID \<equiv> 0x0b"
abbreviation BZM_TIMESTAMP_AUTO_CLOCK_UNGATE :: u8 where "BZM_TIMESTAMP_AUTO_CLOCK_UNGATE \<equiv> 0x80"

type_synonym 'c register_writer = "u16 \<Rightarrow> u8 \<Rightarrow> u8 list \<Rightarrow> 'c \<Rightarrow> bool \<times> 'c"

text \<open>Writes in order; the first that fails ends the sequence.\<close>

fun write_all :: "'c register_writer \<Rightarrow> u16 \<Rightarrow> (u8 \<times> u8 list) list \<Rightarrow> 'c \<Rightarrow> bool \<times> 'c" where
  "write_all writer engine [] c = (True, c)"
| "write_all writer engine ((offset, data) # writes) c =
     (let (ok, c) = writer engine offset data c in if ok then write_all writer engine writes c else (False, c))"

definition zeros_to_find :: "u8 \<Rightarrow> u8" where
  "zeros_to_find lead_zeros =
     (let zero_count = (if lead_zeros > 32 then lead_zeros - 32 else 0) in if zero_count > 32 then 32 else zero_count)"

text \<open>The sequence identifier written for micro job \<open>i\<close>.\<close>

definition sequence_byte :: "bzm_work_t \<Rightarrow> nat \<Rightarrow> u8" where
  "sequence_byte work i =
     (if wk_midstate_count work > 1 then push_bit 2 (wk_logical_sequence work) OR of_nat i else wk_logical_sequence work)"

definition work_writes :: "bzm_work_t \<Rightarrow> bool \<Rightarrow> (u8 \<times> u8 list) list" where
  "work_writes work include_nonce_range =
     [(BZM_REG_ZEROS_TO_FIND, [zeros_to_find (wk_lead_zeros work)]),
      (BZM_REG_TIMESTAMP_COUNT, [wk_timestamp_count work OR BZM_TIMESTAMP_AUTO_CLOCK_UNGATE])] @
     (if include_nonce_range
      then [(BZM_REG_START_NONCE, le_bytes 4 (wk_starting_nonce work)), (BZM_REG_END_NONCE, le_bytes 4 (wk_end_nonce work))]
      else []) @
     [(BZM_REG_MERKLE_RESIDUE, le_bytes 4 (bswap32 (wk_merkle_residue work))),
      (BZM_REG_START_TIMESTAMP, le_bytes 4 (bswap32 (wk_start_ntime work))),
      (BZM_REG_TARGET, le_bytes 4 (bswap32 (wk_target work)))] @
     map (\<lambda>i. (BZM_REG_MIDSTATE, wk_midstates work ! i)) [0..<wk_midstate_count work] @
     map (\<lambda>i. (BZM_REG_SEQUENCE_ID, [sequence_byte work i])) [0..<wk_midstate_count work] @
     [(BZM_REG_JOB_CONTROL, [3])]"

definition program_work :: "bzm_work_t option \<Rightarrow> 'c register_writer option \<Rightarrow> bool \<Rightarrow> 'c \<Rightarrow> bool \<times> 'c" where
  "program_work work_opt writer_opt include_nonce_range c =
     (case (work_opt, writer_opt) of
        (Some work, Some writer) \<Rightarrow>
          if wk_midstate_count work = 0 \<or> wk_midstate_count work > BZM_VERSION_VARIANTS then (False, c)
          else write_all writer (wk_engine_id work) (work_writes work include_nonce_range) c
      | _ \<Rightarrow> (False, c))"

definition bzm_transport_program_work :: "bzm_work_t option \<Rightarrow> 'c register_writer option \<Rightarrow> 'c \<Rightarrow> bool \<times> 'c" where
  "bzm_transport_program_work work writer c = program_work work writer True c"

definition bzm_transport_program_broadcast_work ::
    "bzm_work_t option \<Rightarrow> 'c register_writer option \<Rightarrow> 'c \<Rightarrow> bool \<times> 'c" where
  "bzm_transport_program_broadcast_work work writer c = program_work work writer False c"

definition flush_writes :: "bool \<Rightarrow> u8 \<Rightarrow> (u8 \<times> u8 list) list" where
  "flush_writes enhanced_mode job_control =
     [(BZM_REG_TIMESTAMP_COUNT, [0xff])] @
     map (\<lambda>i. (BZM_REG_SEQUENCE_ID, [(if enhanced_mode then 0xfc else 0xff) + of_nat i]))
       [0..<(if enhanced_mode then BZM_VERSION_VARIANTS else 1)] @
     [(BZM_REG_JOB_CONTROL, [job_control])]"

definition program_flush_job :: "u16 \<Rightarrow> bool \<Rightarrow> u8 \<Rightarrow> 'c register_writer \<Rightarrow> 'c \<Rightarrow> bool \<times> 'c" where
  "program_flush_job engine enhanced_mode job_control writer c =
     write_all writer engine (flush_writes enhanced_mode job_control) c"

definition sentinel_work :: "u16 \<Rightarrow> bzm_work_t" where
  "sentinel_work engine_id =
     \<lparr> wk_source = \<lparr> aw_handle = 0, aw_template = None \<rparr>, wk_engine_id = engine_id, wk_timestamp_count = 0xff,
       wk_starting_nonce = 0, wk_end_nonce = UINT32_MAX, wk_midstate_count = BZM_VERSION_VARIANTS,
       wk_midstates = map (\<lambda>variant. concat (map (\<lambda>value. le_bytes 4 (value XOR (of_nat variant * 0x01010101)))
         sha256_initial_state)) [0..<BZM_VERSION_VARIANTS],
       wk_versions = replicate BZM_VERSION_VARIANTS 0, wk_merkle_residue = 0x1002b0a0, wk_start_ntime = 0x65010002,
       wk_target = 0x1d00ffff, wk_logical_sequence = 0x3f, wk_lead_zeros = 64 \<rparr>"

definition bzm_transport_program_stage6_sentinel :: "u16 \<Rightarrow> 'c register_writer option \<Rightarrow> 'c \<Rightarrow> bool \<times> 'c" where
  "bzm_transport_program_stage6_sentinel engine_id writer_opt c =
     (case writer_opt of None \<Rightarrow> (False, c)
      | Some writer \<Rightarrow>
          if engine_id \<ge> BZM_MAX_ENGINE_COUNT then (False, c)
          else
            (let (ok, c) = bzm_transport_program_work (Some (sentinel_work engine_id)) writer_opt c
             in if ok then program_flush_job engine_id True 1 writer c else (False, c)))"

fun flush_engines :: "bool \<Rightarrow> 'c register_writer \<Rightarrow> nat list \<Rightarrow> 'c \<Rightarrow> bool \<times> 'c" where
  "flush_engines enhanced_mode writer [] c = (True, c)"
| "flush_engines enhanced_mode writer (logical_engine # rest) c =
     (case bzm_topology_activation_at (of_nat logical_engine) BZM_ENGINE_STACK_BOTTOM of
        None \<Rightarrow> (False, c)
      | Some engine \<Rightarrow>
          (let (ok, c) = program_flush_job (el_physical_id engine) enhanced_mode 3 writer c
           in if \<not> ok then (False, c)
              else
                (let (ok, c) = program_flush_job (el_physical_id engine) enhanced_mode 1 writer c
                 in if \<not> ok then (False, c) else flush_engines enhanced_mode writer rest c)))"

definition bzm_transport_program_flush :: "u16 \<Rightarrow> bool \<Rightarrow> 'c register_writer option \<Rightarrow> 'c \<Rightarrow> bool \<times> 'c" where
  "bzm_transport_program_flush engine_count enhanced_mode writer_opt c =
     (case writer_opt of None \<Rightarrow> (False, c)
      | Some writer \<Rightarrow>
          if engine_count = 0 \<or> engine_count > BZM_ENGINES_PER_ASIC then (False, c)
          else flush_engines enhanced_mode writer [0..<unat engine_count] c)"

end
