(* ===== verification/Reactor.thy ===== *)
theory Reactor
  imports Work
begin

text \<open>
  The reactor (\<open>components/asic/bzm_reactor.c\<close>): it gives every engine work of its own, remembers what
  was written under which hardware identity (engine and sequence number) and attributes the results
  the hardware reports. The reactor pointer and its job store are not NULL (the guards for NULL only
  return); the shared job store is a field of the state; the transport operations are parameters
  acting on the transport context \<open>'c\<close>, an optional one that is NULL is \<open>None\<close>.
\<close>

section \<open>Model: data\<close>

datatype bzm_engine_state_t = BZM_ENGINE_IDLE | BZM_ENGINE_ASSIGNED | BZM_ENGINE_FLUSHING | BZM_ENGINE_RESULT_PENDING
  | BZM_ENGINE_UNHEALTHY

datatype bzm_assign_status_t = BZM_ASSIGN_OK | BZM_ASSIGN_BUSY | BZM_ASSIGN_FLUSH_REQUIRED | BZM_ASSIGN_STORE_ERROR
  | BZM_ASSIGN_TRANSPORT_ERROR | BZM_ASSIGN_INVALID

record 'c bzm_transport_ops_t =
  op_write_work :: "bzm_work_t \<Rightarrow> 'c \<Rightarrow> bool \<times> 'c"
  op_dispatch_checkpoint :: "('c \<Rightarrow> bool \<times> 'c) option"
  op_flush :: "('c \<Rightarrow> bool \<times> 'c) option"

record bzm_reactor_config_t =
  rg_engine_count :: u16
  rg_timestamp_count :: u8
  rg_lead_zeros :: u8
  rg_nonce_offset :: u32
  rg_enhanced_mode :: bool

record bzm_assignment_t =
  ba_active :: bool
  ba_logical_engine_id :: u16
  ba_engine_id :: u16
  ba_state :: bzm_engine_state_t
  ba_logical_sequence :: u8
  ba_epoch :: u32
  ba_handle :: asic_work_handle_t
  ba_timestamp_count :: u8
  ba_base_ntime :: u32
  ba_base_version :: u32
  ba_nonce_offset :: u32
  ba_enhanced_mode :: bool
  ba_version_count :: nat
  ba_versions :: "u32 list"

record 'c bzm_reactor_t =
  re_job_store :: "cfloat asic_job_store_t"
  re_transport :: "'c bzm_transport_ops_t"
  re_config :: bzm_reactor_config_t
  re_assignments :: "bzm_assignment_t list"
  re_previous_assignments :: "bzm_assignment_t list"
  re_next_engine_sequence :: "u8 list"
  re_retired_sequences :: "u64 list list"
  re_previous_batch :: bzm_assignment_t
  re_previous_batch_complete :: bool
  re_current_batch_complete :: bool
  re_next_engine :: u16
  re_next_sequence :: u16
  re_epoch :: u32
  re_flush_pending :: bool
  re_flush_complete :: bool
  re_results_quarantined :: bool

section \<open>Model: bookkeeping\<close>

definition zero_assignment :: bzm_assignment_t where
  "zero_assignment = \<lparr> ba_active = False, ba_logical_engine_id = 0, ba_engine_id = 0, ba_state = BZM_ENGINE_IDLE,
     ba_logical_sequence = 0, ba_epoch = 0, ba_handle = 0, ba_timestamp_count = 0, ba_base_ntime = 0,
     ba_base_version = 0, ba_nonce_offset = 0, ba_enhanced_mode = False, ba_version_count = 0,
     ba_versions = replicate BZM_VERSION_VARIANTS 0 \<rparr>"

definition sequence_space :: "'c bzm_reactor_t \<Rightarrow> u16" where
  "sequence_space r = (if rg_enhanced_mode (re_config r) then 63 else 255)"

definition retire_assignment :: "bzm_assignment_t \<Rightarrow> u64 list list \<Rightarrow> u64 list list" where
  "retire_assignment a retired =
     (if ba_active a
      then
        (let e = unat (ba_logical_engine_id a); s = unat (ba_logical_sequence a)
         in retired[e := (retired ! e)[s div 64 := retired ! e ! (s div 64) OR push_bit (s mod 64) 1]])
      else retired)"

definition batch_sequence_space :: "'c bzm_reactor_t \<Rightarrow> u16" where
  "batch_sequence_space r = (if rg_enhanced_mode (re_config r) then 2 else 256)"

definition partition_nonce_space :: "'c bzm_reactor_t \<Rightarrow> u16 \<Rightarrow> bzm_work_t \<Rightarrow> bzm_work_t" where
  "partition_nonce_space r schedule_index work =
     (let total = 0x100000000 :: u64; step = total div ucast (rg_engine_count (re_config r));
          start = step * ucast schedule_index;
          end_n = (if unat schedule_index + 1 = unat (rg_engine_count (re_config r)) then ucast UINT32_MAX
                   else step * (ucast schedule_index + 1) - 1)
      in work\<lparr> wk_starting_nonce := ucast start, wk_end_nonce := ucast end_n \<rparr>)"

definition scheduled_engine_at :: "u16 \<Rightarrow> bzm_engine_location_t option" where
  "scheduled_engine_at schedule_index = bzm_topology_activation_at schedule_index BZM_ENGINE_STACK_BOTTOM"

definition holds_work :: "u16 \<Rightarrow> u8 \<Rightarrow> bzm_assignment_t \<Rightarrow> bool" where
  "holds_work engine_id logical_sequence a \<longleftrightarrow>
     ba_active a \<and> ba_engine_id a = engine_id \<and> ba_logical_sequence a = logical_sequence"

definition find_assignment :: "'c bzm_reactor_t \<Rightarrow> u16 \<Rightarrow> u8 \<Rightarrow> bzm_assignment_t option" where
  "find_assignment r engine_id logical_sequence =
     (case find (holds_work engine_id logical_sequence) (re_assignments r) of
        Some a \<Rightarrow> Some a
      | None \<Rightarrow> find (holds_work engine_id logical_sequence) (re_previous_assignments r))"

text \<open>A pointer into \<open>assignments\<close> is its index.\<close>

fun find_index :: "('a \<Rightarrow> bool) \<Rightarrow> 'a list \<Rightarrow> nat option" where
  "find_index P [] = None"
| "find_index P (x # xs) = (if P x then Some 0 else map_option Suc (find_index P xs))"

definition find_engine_assignment :: "'c bzm_reactor_t \<Rightarrow> u16 \<Rightarrow> nat option" where
  "find_engine_assignment r engine_id = find_index (\<lambda>a. ba_active a \<and> ba_engine_id a = engine_id) (re_assignments r)"

definition free_assignment :: "'c bzm_reactor_t \<Rightarrow> nat option" where
  "free_assignment r = find_index (\<lambda>a. \<not> ba_active a \<or> ba_state a = BZM_ENGINE_IDLE) (re_assignments r)"

definition has_active_assignment :: "'c bzm_reactor_t \<Rightarrow> bool" where
  "has_active_assignment r \<longleftrightarrow>
     (\<exists>a\<in>set (re_assignments r @ re_previous_assignments r). ba_active a) \<or> re_previous_batch_complete r"

definition retain_current_batch :: "'c bzm_reactor_t \<Rightarrow> 'c bzm_reactor_t" where
  "retain_current_batch r =
     (let r = r\<lparr> re_previous_batch := zero_assignment, re_previous_batch_complete := False \<rparr>
      in if \<not> re_current_batch_complete r then r
         else
           (case find (\<lambda>a. ba_active a \<and> ba_state a = BZM_ENGINE_ASSIGNED) (re_assignments r) of
              Some a \<Rightarrow> r\<lparr> re_previous_batch := a, re_previous_batch_complete := True \<rparr>
            | None \<Rightarrow> r))"

definition next_epoch :: "u32 \<Rightarrow> u32" where
  "next_epoch e = (if e + 1 = 0 then 1 else e + 1)"

section \<open>Model: life cycle\<close>

definition bzm_reactor_init ::
    "cfloat asic_job_store_t option \<Rightarrow> bzm_reactor_config_t option \<Rightarrow> 'c bzm_transport_ops_t option \<Rightarrow>
     'c bzm_reactor_t option" where
  "bzm_reactor_init job_store_opt config_opt transport_opt =
     (case (job_store_opt, config_opt, transport_opt) of
        (Some job_store, Some config, Some transport) \<Rightarrow>
          if rg_engine_count config = 0 \<or> rg_engine_count config > BZM_ENGINES_PER_ASIC \<or> rg_timestamp_count config > 0x7f
          then None
          else Some \<lparr> re_job_store = job_store, re_transport = transport, re_config = config,
                 re_assignments = replicate BZM_MAX_ACTIVE_WORK zero_assignment,
                 re_previous_assignments = replicate BZM_MAX_ACTIVE_WORK zero_assignment,
                 re_next_engine_sequence = replicate BZM_MAX_ACTIVE_WORK 0,
                 re_retired_sequences = replicate BZM_MAX_ACTIVE_WORK (replicate 4 0),
                 re_previous_batch = zero_assignment, re_previous_batch_complete = False,
                 re_current_batch_complete = False, re_next_engine = 0, re_next_sequence = 0, re_epoch = 1,
                 re_flush_pending = False, re_flush_complete = False, re_results_quarantined = False \<rparr>
      | _ \<Rightarrow> None)"

text \<open>The flush of the transport; a transport without one has nothing to flush.\<close>

definition call_flush :: "'c bzm_reactor_t \<Rightarrow> 'c \<Rightarrow> bool \<times> 'c" where
  "call_flush r c = (case op_flush (re_transport r) of None \<Rightarrow> (True, c) | Some flush \<Rightarrow> flush c)"

definition flushing :: "bzm_assignment_t \<Rightarrow> bzm_assignment_t" where
  "flushing a = (if ba_active a then a\<lparr> ba_state := BZM_ENGINE_FLUSHING \<rparr> else a)"

definition bzm_reactor_begin_flush :: "'c bzm_reactor_t \<Rightarrow> 'c \<Rightarrow> bool \<times> 'c bzm_reactor_t \<times> 'c" where
  "bzm_reactor_begin_flush r c =
     (if re_flush_pending r
      then if re_flush_complete r then (True, r, c)
           else (let (ok, c) = call_flush r c in (ok, r\<lparr> re_flush_complete := ok \<rparr>, c))
      else
        (let r = r\<lparr> re_flush_pending := True, re_flush_complete := False, re_epoch := next_epoch (re_epoch r),
               re_job_store := asic_job_store_invalidate_all (re_job_store r),
               re_assignments := map flushing (re_assignments r),
               re_previous_assignments := map flushing (re_previous_assignments r),
               re_previous_batch := (if re_previous_batch_complete r
                 then (re_previous_batch r)\<lparr> ba_state := BZM_ENGINE_FLUSHING \<rparr> else re_previous_batch r) \<rparr>;
             (ok, c) = call_flush r c
         in (ok, r\<lparr> re_flush_complete := ok \<rparr>, c)))"

definition bzm_reactor_finish_flush :: "'c bzm_reactor_t \<Rightarrow> 'c bzm_reactor_t" where
  "bzm_reactor_finish_flush r =
     (if \<not> re_flush_pending r \<or> \<not> re_flush_complete r then r
      else r\<lparr> re_assignments := replicate BZM_MAX_ACTIVE_WORK zero_assignment,
              re_previous_assignments := replicate BZM_MAX_ACTIVE_WORK zero_assignment,
              re_next_engine_sequence := replicate BZM_MAX_ACTIVE_WORK 0,
              re_retired_sequences := replicate BZM_MAX_ACTIVE_WORK (replicate 4 0),
              re_previous_batch := zero_assignment, re_previous_batch_complete := False,
              re_current_batch_complete := False, re_next_engine := 0, re_next_sequence := 0,
              re_flush_pending := False, re_flush_complete := False, re_results_quarantined := True \<rparr>)"

definition bzm_reactor_is_flush_pending :: "'c bzm_reactor_t \<Rightarrow> bool" where
  "bzm_reactor_is_flush_pending r = re_flush_pending r"

definition bzm_reactor_results_quarantined :: "'c bzm_reactor_t \<Rightarrow> bool" where
  "bzm_reactor_results_quarantined r = re_results_quarantined r"

definition bzm_reactor_invalidate_work :: "'c bzm_reactor_t \<Rightarrow> bool \<times> 'c bzm_reactor_t" where
  "bzm_reactor_invalidate_work r =
     (True, r\<lparr> re_job_store := asic_job_store_invalidate_all (re_job_store r),
       re_retired_sequences := fold (\<lambda>i retired. retire_assignment (re_previous_assignments r ! i)
           (retire_assignment (re_assignments r ! i) retired)) [0..<BZM_MAX_ACTIVE_WORK] (re_retired_sequences r),
       re_epoch := next_epoch (re_epoch r) \<rparr>)"

definition raw_sequence :: "'c bzm_reactor_t \<Rightarrow> bzm_raw_result_t \<Rightarrow> u8" where
  "raw_sequence r raw = (if rg_enhanced_mode (re_config r) then drop_bit 2 (raw_sequence_id raw) else raw_sequence_id raw)"

definition retired_bit :: "u64 list list \<Rightarrow> u16 \<Rightarrow> u8 \<Rightarrow> bool" where
  "retired_bit retired engine sequence \<longleftrightarrow>
     retired ! unat engine ! (unat sequence div 64) AND push_bit (unat sequence mod 64) 1 \<noteq> 0"

definition bzm_reactor_result_is_stale :: "'c bzm_reactor_t \<Rightarrow> bzm_raw_result_t \<Rightarrow> bool" where
  "bzm_reactor_result_is_stale r raw \<longleftrightarrow>
     (case bzm_engine_logical_id (raw_engine_id raw) of None \<Rightarrow> False
      | Some engine \<Rightarrow>
          if bzm_topology_asic_index (raw_asic_id raw) = None \<or> \<not> bzm_raw_result_has_valid_nonce (Some raw) then False
          else
            (let sequence = raw_sequence r raw
             in case find_assignment r (raw_engine_id raw) sequence of
                  Some a \<Rightarrow> ba_epoch a \<noteq> re_epoch r \<or> \<not> asic_job_store_contains (re_job_store r) (ba_handle a) \<or>
                            retired_bit (re_retired_sequences r) engine sequence
                | None \<Rightarrow> retired_bit (re_retired_sequences r) engine sequence))"

definition bzm_reactor_clear_work :: "'c bzm_reactor_t \<Rightarrow> 'c \<Rightarrow> bool \<times> 'c bzm_reactor_t \<times> 'c" where
  "bzm_reactor_clear_work r c =
     (if \<not> re_flush_pending r \<and> \<not> has_active_assignment r
      then (True, r\<lparr> re_job_store := asic_job_store_invalidate_all (re_job_store r), re_epoch := next_epoch (re_epoch r),
              re_next_engine := 0, re_next_sequence := 0,
              re_next_engine_sequence := replicate BZM_MAX_ACTIVE_WORK 0, re_results_quarantined := True \<rparr>, c)
      else
        (let (ok, r, c) = bzm_reactor_begin_flush r c
         in if \<not> ok then (False, r, c)
            else (let r = bzm_reactor_finish_flush r in (\<not> bzm_reactor_is_flush_pending r, r, c))))"

section \<open>Model: assignment\<close>

definition assigned :: "'c bzm_reactor_t \<Rightarrow> bzm_engine_location_t \<Rightarrow> u8 \<Rightarrow> asic_work_handle_t \<Rightarrow> u32 \<Rightarrow> bzm_work_t \<Rightarrow>
    bzm_assignment_t" where
  "assigned r engine logical_sequence handle base_version work =
     \<lparr> ba_active = True, ba_logical_engine_id = el_topology_index engine, ba_engine_id = el_physical_id engine,
       ba_state = BZM_ENGINE_ASSIGNED, ba_logical_sequence = logical_sequence, ba_epoch = re_epoch r,
       ba_handle = handle, ba_timestamp_count = wk_timestamp_count work, ba_base_ntime = wk_start_ntime work,
       ba_base_version = base_version, ba_nonce_offset = rg_nonce_offset (re_config r),
       ba_enhanced_mode = (wk_midstate_count work > 1), ba_version_count = wk_midstate_count work,
       ba_versions = wk_versions work \<rparr>"

text \<open>The writes of one engine: the work and then the optional checkpoint.\<close>

definition send_engine :: "'c bzm_reactor_t \<Rightarrow> bzm_work_t \<Rightarrow> 'c \<Rightarrow> bool \<times> 'c" where
  "send_engine r work c =
     (let (ok, c) = op_write_work (re_transport r) work c
      in if \<not> ok then (False, c)
         else (case op_dispatch_checkpoint (re_transport r) of None \<Rightarrow> (True, c) | Some checkpoint \<Rightarrow> checkpoint c))"

text \<open>A failed write drops the handle and flushes symmetrically.\<close>

definition abort_assign :: "'c bzm_reactor_t \<Rightarrow> 'c \<Rightarrow> bool \<times> 'c bzm_reactor_t \<times> 'c" where
  "abort_assign r c =
     (let (flushed, r, c) = bzm_reactor_begin_flush r c
      in (flushed, if flushed then bzm_reactor_finish_flush r else r, c))"

text \<open>The bookkeeping after the work of schedule slot \<open>k\<close> reached the hardware.\<close>

definition commit_assign :: "'c bzm_reactor_t \<Rightarrow> nat \<Rightarrow> bzm_assignment_t \<Rightarrow> 'c bzm_reactor_t" where
  "commit_assign r i a =
     (let previous = re_previous_assignments r ! i; current = re_assignments r ! i; k = re_next_engine r;
          r = (if ba_active previous
               then r\<lparr> re_retired_sequences := retire_assignment previous (re_retired_sequences r),
                       re_job_store := snd (asic_job_store_release (re_job_store r) (ba_handle previous)) \<rparr>
               else r);
          next_e = (k + 1) mod rg_engine_count (re_config r)
      in r\<lparr> re_previous_assignments := (re_previous_assignments r)[i := if ba_active current then current else zero_assignment],
            re_assignments := (re_assignments r)[i := a], re_next_engine := next_e,
            re_results_quarantined := (if next_e = 0 then False else re_results_quarantined r),
            re_next_engine_sequence := (re_next_engine_sequence r)[unat k := ba_logical_sequence a + 1] \<rparr>)"

definition bzm_reactor_assign ::
    "'c bzm_reactor_t \<Rightarrow> cfloat job_ref option \<Rightarrow> 'c \<Rightarrow> bzm_assign_status_t \<times> bzm_work_t option \<times> 'c bzm_reactor_t \<times> 'c" where
  "bzm_reactor_assign r template_opt c =
     (case template_opt of None \<Rightarrow> (BZM_ASSIGN_INVALID, None, r, c)
      | Some template \<Rightarrow>
          if re_flush_pending r then (BZM_ASSIGN_FLUSH_REQUIRED, None, r, c)
          else
            (let schedule_index = re_next_engine r; logical_sequence = re_next_engine_sequence r ! unat schedule_index
             in if ucast logical_sequence \<ge> sequence_space r then (BZM_ASSIGN_FLUSH_REQUIRED, None, r, c)
                else
                  (case scheduled_engine_at schedule_index of None \<Rightarrow> (BZM_ASSIGN_INVALID, None, r, c)
                   | Some engine \<Rightarrow>
                       (case (case find_engine_assignment r (el_physical_id engine) of
                                Some i \<Rightarrow> Some i | None \<Rightarrow> free_assignment r) of
                          None \<Rightarrow> (BZM_ASSIGN_BUSY, None, r, c)
                        | Some i \<Rightarrow>
                            (case asic_job_store_store_generated (re_job_store r) template of
                               None \<Rightarrow> (BZM_ASSIGN_STORE_ERROR, None, r, c)
                             | Some (handle, store) \<Rightarrow>
                                 (let r = r\<lparr> re_job_store := store \<rparr>;
                                      released = r\<lparr> re_job_store := snd (asic_job_store_release store handle) \<rparr>
                                  in case bzm_work_build (Some \<lparr> aw_handle = handle, aw_template = Some template \<rparr>)
                                         (el_physical_id engine) logical_sequence (rg_timestamp_count (re_config r))
                                         (rg_lead_zeros (re_config r)) (rg_enhanced_mode (re_config r)) of
                                       None \<Rightarrow> (BZM_ASSIGN_INVALID, None, released, c)
                                     | Some work \<Rightarrow>
                                         (let work = work\<lparr> wk_starting_nonce := 0, wk_end_nonce := UINT32_MAX \<rparr>;
                                              (sent, c) = send_engine r work c
                                          in if \<not> sent
                                             then (let (flushed, r, c) = abort_assign released c
                                                   in (BZM_ASSIGN_TRANSPORT_ERROR, None, r, c))
                                             else (BZM_ASSIGN_OK, Some work,
                                                   commit_assign r i (assigned r engine logical_sequence handle
                                                     (aj_version (snd template)) work), c))))))))"

fun dispatch_loop :: "asic_work_t \<Rightarrow> u32 \<Rightarrow> nat list \<Rightarrow> nat \<Rightarrow> 'c bzm_reactor_t \<Rightarrow> 'c \<Rightarrow> nat \<times> 'c bzm_reactor_t \<times> 'c" where
  "dispatch_loop source base_version [] completed r c = (completed, r, c)"
| "dispatch_loop source base_version (k # ks) completed r c =
     (case scheduled_engine_at (of_nat k) of None \<Rightarrow> (completed, r, c)
      | Some engine \<Rightarrow>
          (case (case find_engine_assignment r (el_physical_id engine) of Some i \<Rightarrow> Some i | None \<Rightarrow> free_assignment r) of
             None \<Rightarrow> (completed, r, c)
           | Some i \<Rightarrow>
               (case bzm_work_build (Some source) (el_physical_id engine) (ucast (re_next_sequence r))
                       (rg_timestamp_count (re_config r)) (rg_lead_zeros (re_config r)) (rg_enhanced_mode (re_config r)) of
                  None \<Rightarrow> (completed, r, c)
                | Some work \<Rightarrow>
                    (let work = partition_nonce_space r (of_nat k) work; (sent, c) = send_engine r work c
                     in if \<not> sent then (completed, r, c)
                        else dispatch_loop source base_version ks (completed + 1)
                               (r\<lparr> re_assignments := (re_assignments r)[i := assigned r engine (ucast (re_next_sequence r))
                                    (aw_handle source) base_version work] \<rparr>) c))))"

definition bzm_reactor_dispatch ::
    "'c bzm_reactor_t \<Rightarrow> cfloat job_ref option \<Rightarrow> 'c \<Rightarrow> bzm_assign_status_t \<times> nat \<times> 'c bzm_reactor_t \<times> 'c" where
  "bzm_reactor_dispatch r template_opt c =
     (case template_opt of None \<Rightarrow> (BZM_ASSIGN_INVALID, 0, r, c)
      | Some template \<Rightarrow>
          if re_flush_pending r then (BZM_ASSIGN_FLUSH_REQUIRED, 0, r, c)
          else if re_next_sequence r \<ge> batch_sequence_space r
          then (let (ok, r, c) = bzm_reactor_begin_flush r c
                in (if ok then BZM_ASSIGN_FLUSH_REQUIRED else BZM_ASSIGN_TRANSPORT_ERROR, 0, r, c))
          else if unat (rg_engine_count (re_config r)) > BZM_MAX_ACTIVE_WORK then (BZM_ASSIGN_INVALID, 0, r, c)
          else
            (case asic_job_store_store_generated (re_job_store r) template of
               None \<Rightarrow> (BZM_ASSIGN_STORE_ERROR, 0, r, c)
             | Some (handle, store) \<Rightarrow>
                 (let r = (retain_current_batch (r\<lparr> re_job_store := store \<rparr>))\<lparr> re_current_batch_complete := False \<rparr>;
                      (completed, r, c) = dispatch_loop \<lparr> aw_handle = handle, aw_template = Some template \<rparr>
                        (aj_version (snd template)) [0..<unat (rg_engine_count (re_config r))] 0 r c
                  in if completed \<noteq> unat (rg_engine_count (re_config r))
                     then (let (flushed, r, c) = abort_assign r c in (BZM_ASSIGN_TRANSPORT_ERROR, 0, r, c))
                     else (BZM_ASSIGN_OK, completed,
                           r\<lparr> re_next_engine := 0, re_next_sequence := re_next_sequence r + 1,
                              re_current_batch_complete := True, re_results_quarantined := False \<rparr>, c))))"

section \<open>Model: results\<close>

definition bzm_reactor_map_result :: "'c bzm_reactor_t \<Rightarrow> bzm_raw_result_t \<Rightarrow> asic_event_t option" where
  "bzm_reactor_map_result r raw =
     (case bzm_engine_logical_id (raw_engine_id raw) of None \<Rightarrow> None
      | Some logical_engine_id \<Rightarrow>
          if re_flush_pending r \<or> re_results_quarantined r \<or> \<not> bzm_raw_result_has_valid_nonce (Some raw) then None
          else
            (let logical_sequence = raw_sequence r raw;
                 micro_job = (if rg_enhanced_mode (re_config r) then raw_sequence_id raw AND 0x03 else 0);
                 (found, previous_batch) =
                   (case find_assignment r (raw_engine_id raw) logical_sequence of
                      Some a \<Rightarrow> (Some a, False)
                    | None \<Rightarrow>
                        if re_previous_batch_complete r \<and> ba_logical_sequence (re_previous_batch r) = logical_sequence
                        then (Some (re_previous_batch r), True) else (None, False))
             in case found of None \<Rightarrow> None
                | Some a \<Rightarrow>
                    if (\<not> previous_batch \<and> ba_logical_engine_id a \<noteq> logical_engine_id) \<or>
                       ba_state a \<noteq> BZM_ENGINE_ASSIGNED \<or> ba_epoch a \<noteq> re_epoch r
                    then None
                    else if logical_sequence \<noteq> ba_logical_sequence a \<or> unat micro_job \<ge> ba_version_count a \<or>
                            raw_time raw > ba_timestamp_count a
                    then None
                    else
                      (let final_version = ba_versions a ! unat micro_job;
                           ntime_offset = ucast (ba_timestamp_count a - raw_time raw) :: u32
                       in case bzm_topology_asic_index (raw_asic_id raw) of None \<Rightarrow> None
                          | Some asic_index \<Rightarrow>
                              (case asic_job_store_snapshot_with_context (re_job_store r) (ba_handle a) of None \<Rightarrow> None
                               | Some (job, context) \<Rightarrow>
                                   Some (ASIC_EVENT_SHARE_RESULT \<lparr> rs_job_valid = True, rs_job = job, rs_context = context,
                                     rs_work_handle = ba_handle a, rs_nonce = bswap32 (raw_nonce raw - ba_nonce_offset a),
                                     rs_final_ntime = ba_base_ntime a + ntime_offset, rs_final_version = final_version,
                                     rs_version_bits = final_version XOR ba_base_version a,
                                     rs_timestamp_us = raw_timestamp_us raw, rs_asic_index = of_nat asic_index,
                                     rs_core_id = 0, rs_small_core_id = 0, rs_engine_id = ba_logical_engine_id a,
                                     rs_sequence_id = ba_logical_sequence a, rs_micro_job_id = micro_job,
                                     rs_generation = ba_epoch a \<rparr>)))))"

section \<open>The schedule\<close>

text \<open>The engine of a schedule index: its physical id, on the wire, and its topology index.\<close>

definition phys :: "nat \<Rightarrow> u16" where
  "phys k = el_physical_id (the (scheduled_engine_at (of_nat k)))"

definition topo :: "nat \<Rightarrow> u16" where
  "topo k = el_topology_index (the (scheduled_engine_at (of_nat k)))"

lemma schedule:
  assumes "k < 236"
  shows "\<exists>e. scheduled_engine_at (of_nat k) = Some e \<and> el_physical_id e = phys k \<and> el_topology_index e = topo k"
    and "bzm_engine_logical_id (phys k) = Some (topo k)" and "unat (topo k) < 236"
proof -
  have v: "stack_is_valid BZM_ENGINE_STACK_BOTTOM" by (simp add: stack_is_valid_def)
  obtain e r c where e: "bzm_topology_activation_at (of_nat k) BZM_ENGINE_STACK_BOTTOM = Some e"
      "locate_coordinate r c = Some e"
    by (rule activation_located[OF v assms])
  show "\<exists>e. scheduled_engine_at (of_nat k) = Some e \<and> el_physical_id e = phys k \<and> el_topology_index e = topo k"
    using e by (simp add: scheduled_engine_at_def phys_def topo_def)
  show "bzm_engine_logical_id (phys k) = Some (topo k)" "unat (topo k) < 236"
    using located[OF e(2)] e(1) by (simp_all add: bzm_engine_logical_id_def phys_def topo_def scheduled_engine_at_def)
qed

lemma topo_inj: "j < 236 \<Longrightarrow> k < 236 \<Longrightarrow> topo j = topo k \<Longrightarrow> j = k"
proof -
  assume j: "j < 236" and k: "k < 236" and eq: "topo j = topo k"
  have v: "stack_is_valid BZM_ENGINE_STACK_BOTTOM" by (simp add: stack_is_valid_def)
  obtain e r c where e: "bzm_topology_activation_at (of_nat j) BZM_ENGINE_STACK_BOTTOM = Some e"
      "locate_coordinate r c = Some e"
    by (rule activation_located[OF v j])
  obtain f r' c' where f: "bzm_topology_activation_at (of_nat k) BZM_ENGINE_STACK_BOTTOM = Some f"
      "locate_coordinate r' c' = Some f"
    by (rule activation_located[OF v k])
  have "el_topology_index e = el_topology_index f" using e f eq by (simp add: topo_def scheduled_engine_at_def)
  then have "(r, c) = (r', c')" using located(2)[OF e(2)] located(2)[OF f(2)] by simp
  then show "j = k" using activation_inj[OF v j k] e f by simp
qed

lemma phys_inj: "j < 236 \<Longrightarrow> k < 236 \<Longrightarrow> phys j = phys k \<Longrightarrow> j = k"
  using schedule(2)[of j] schedule(2)[of k] topo_inj[of j k] by simp

lemma located_id: "locate_coordinate r c = Some e \<Longrightarrow> el_physical_id e = push_bit 6 (of_nat c) OR of_nat r"
  using locate_None[of r c] locate_usable[of r c] by (fastforce simp: location_of_def)

lemma physical_id_join: "push_bit 6 (of_nat (unat (drop_bit 6 p))) OR of_nat (unat (p AND 0x3f)) = (p :: u16)"
proof (rule bit_word_eqI)
  have "bit (0x3f :: u16) n \<longleftrightarrow> n < 6" if "n < 16" for n
    using that mask_eq_exp_minus_1[of 6, where ?'a = "16 word"] bit_mask_iff[of 6 n, where ?'a = "16 word"] by simp
  then show "n < LENGTH(16) \<Longrightarrow> bit (push_bit 6 (of_nat (unat (drop_bit 6 p))) OR of_nat (unat (p AND 0x3f)) :: u16) n = bit p n" for n
    by (auto simp: bit_simps)
qed

text \<open>The logical id determines the engine.\<close>

lemma logical_inj:
  assumes "bzm_engine_logical_id p = Some t" "bzm_engine_logical_id q = Some t"
  shows "p = q"
proof -
  have id: "\<exists>e. locate_coordinate (fst (usable ! unat t)) (snd (usable ! unat t)) = Some e \<and> el_physical_id e = p"
    if "bzm_engine_logical_id p = Some t" for p
  proof -
    obtain e where e: "locate_coordinate (unat (p AND 0x3f)) (unat (drop_bit 6 p)) = Some e" "el_topology_index e = t"
      using \<open>bzm_engine_logical_id p = Some t\<close>
      by (auto simp: bzm_engine_logical_id_def bzm_topology_from_physical_id_def Let_def split: if_splits)
    show ?thesis using located(2)[OF e(1)] located_id[OF e(1)] physical_id_join[of p] e by simp
  qed
  show ?thesis using id[OF assms(1)] id[OF assms(2)] by auto
qed

lemma find_index_Some: "find_index P xs = Some i \<Longrightarrow> i < length xs \<and> P (xs ! i)"
  by (induction xs arbitrary: i) (auto split: if_splits)

lemma find_index_None: "find_index P xs = None \<longleftrightarrow> (\<forall>x\<in>set xs. \<not> P x)"
  by (induction xs) auto

section \<open>What reached the hardware\<close>

text \<open>
  The ghost of the reactor: the works written since the hardware was last flushed, each with the
  submission context its job was stored under. \<open>identity\<close> is the hardware identity of a work.
\<close>

type_synonym written = "bzm_work_t \<times> asic_job_context_t"

definition identity :: "bzm_work_t \<Rightarrow> u16 \<times> u8" where
  "identity w = (wk_engine_id w, wk_logical_sequence w)"

definition seqn :: "'c bzm_reactor_t \<Rightarrow> nat \<Rightarrow> nat" where
  "seqn r k = unat (re_next_engine_sequence r ! k)"

definition engines :: "'c bzm_reactor_t \<Rightarrow> nat" where
  "engines r = unat (rg_engine_count (re_config r))"

text \<open>An assignment remembers a work.\<close>

definition records :: "bzm_reactor_config_t \<Rightarrow> bzm_assignment_t \<Rightarrow> bzm_work_t \<Rightarrow> bool" where
  "records cfg a w \<longleftrightarrow>
     ba_engine_id a = wk_engine_id w \<and> ba_logical_sequence a = wk_logical_sequence w \<and>
     ba_handle a = aw_handle (wk_source w) \<and> ba_timestamp_count a = wk_timestamp_count w \<and>
     ba_base_ntime a = wk_start_ntime w \<and> ba_nonce_offset a = rg_nonce_offset cfg \<and>
     ba_version_count a = wk_midstate_count w \<and> ba_versions a = wk_versions w \<and>
     (\<exists>job. aw_template (wk_source w) = Some job \<and> ba_base_version a = aj_version (snd job))"

text \<open>A work as the reactor builds it under its configuration.\<close>

definition proper_work :: "bzm_reactor_config_t \<Rightarrow> bzm_work_t \<Rightarrow> bool" where
  "proper_work cfg w \<longleftrightarrow>
     (\<exists>w0. bzm_work_build (Some (wk_source w)) (wk_engine_id w) (wk_logical_sequence w) (rg_timestamp_count cfg)
        (rg_lead_zeros cfg) (rg_enhanced_mode cfg) = Some w0 \<and>
      w = w0\<lparr> wk_starting_nonce := 0, wk_end_nonce := UINT32_MAX \<rparr>)"

text \<open>The tables of the reactor outside a flush.\<close>

definition slots_ok :: "'c bzm_reactor_t \<Rightarrow> bool" where
  "slots_ok r \<longleftrightarrow>
     (\<forall>i<256. let a = re_assignments r ! i in ba_active a \<longrightarrow>
        (\<exists>k<engines r. ba_engine_id a = phys k \<and> ba_logical_engine_id a = topo k \<and>
           unat (ba_logical_sequence a) + 1 = seqn r k)) \<and>
     (\<forall>i<256. let a = re_assignments r ! i; p = re_previous_assignments r ! i in ba_active p \<longrightarrow>
        ba_active a \<and> ba_engine_id p = ba_engine_id a \<and> ba_logical_engine_id p = ba_logical_engine_id a \<and>
        unat (ba_logical_sequence p) + 1 = unat (ba_logical_sequence a)) \<and>
     (\<forall>k<engines r. 0 < seqn r k \<longrightarrow>
        (\<exists>i<256. ba_active (re_assignments r ! i) \<and> ba_engine_id (re_assignments r ! i) = phys k \<and>
           (2 \<le> seqn r k \<longrightarrow> ba_active (re_previous_assignments r ! i)))) \<and>
     (\<forall>i<256. \<forall>j<256. ba_active (re_assignments r ! i) \<and> ba_active (re_assignments r ! j) \<and>
        ba_engine_id (re_assignments r ! i) = ba_engine_id (re_assignments r ! j) \<longrightarrow> i = j)"

definition log_ok :: "'c bzm_reactor_t \<Rightarrow> written list \<Rightarrow> bool" where
  "log_ok r ws \<longleftrightarrow> distinct (map (identity \<circ> fst) ws) \<and> (\<forall>k<engines r. seqn r k \<le> unat (sequence_space r)) \<and>
     (\<forall>e s. (e, s) \<in> set (map (identity \<circ> fst) ws) \<longleftrightarrow> (\<exists>k<engines r. e = phys k \<and> unat s < seqn r k))"

definition entries_ok :: "'c bzm_reactor_t \<Rightarrow> written list \<Rightarrow> bool" where
  "entries_ok r ws \<longleftrightarrow> (\<forall>(w, ctx)\<in>set ws. proper_work (re_config r) w \<and>
     (\<exists>job. aw_template (wk_source w) = Some job \<and>
        remembers (re_job_store r) (aw_handle (wk_source w)) (snd job, ctx)))"

definition records_ok :: "'c bzm_reactor_t \<Rightarrow> written list \<Rightarrow> bool" where
  "records_ok r ws \<longleftrightarrow> (\<forall>a\<in>set (re_assignments r) \<union> set (re_previous_assignments r). ba_active a \<longrightarrow>
     ba_state a = BZM_ENGINE_ASSIGNED \<and> (\<exists>(w, ctx)\<in>set ws. records (re_config r) a w))"

definition retired_ok :: "'c bzm_reactor_t \<Rightarrow> bool" where
  "retired_ok r \<longleftrightarrow>
     (\<forall>e s. unat e < 236 \<longrightarrow> retired_bit (re_retired_sequences r) e s \<longrightarrow>
        (\<exists>k<engines r. e = topo k \<and> unat s < seqn r k)) \<and>
     (\<forall>k<engines r. \<forall>s. unat s + 2 < seqn r k \<longrightarrow> retired_bit (re_retired_sequences r) (topo k) s)"

definition live_inv :: "'c bzm_reactor_t \<Rightarrow> written list \<Rightarrow> bool" where
  "live_inv r ws \<longleftrightarrow> slots_ok r \<and> log_ok r ws \<and> entries_ok r ws \<and> records_ok r ws \<and> retired_ok r"

definition base_inv :: "'c bzm_reactor_t \<Rightarrow> bool" where
  "base_inv r \<longleftrightarrow>
     0 < engines r \<and> engines r \<le> 236 \<and> rg_timestamp_count (re_config r) \<le> 0x7f \<and>
     length (re_assignments r) = 256 \<and> length (re_previous_assignments r) = 256 \<and>
     length (re_next_engine_sequence r) = 256 \<and> length (re_retired_sequences r) = 256 \<and>
     (\<forall>row\<in>set (re_retired_sequences r). length row = 4) \<and> store_inv (re_job_store r) \<and>
     unat (re_next_engine r) < engines r \<and> \<not> re_previous_batch_complete r \<and> \<not> re_current_batch_complete r"

definition rx_inv :: "'c bzm_reactor_t \<times> written list \<Rightarrow> bool" where
  "rx_inv s \<longleftrightarrow> base_inv (fst s) \<and> (\<not> re_flush_pending (fst s) \<longrightarrow> live_inv (fst s) (snd s))"

section \<open>Retired identities\<close>

lemma retired_bit_iff: "retired_bit R e s \<longleftrightarrow> bit (R ! unat e ! (unat s div 64)) (unat s mod 64)"
  using and_exp_eq_0_iff_not_bit[of "R ! unat e ! (unat s div 64)" "unat s mod 64"]
  by (simp add: retired_bit_def push_bit_eq_mult)

lemma length_retire: "length (retire_assignment a R) = length R"
  by (simp add: retire_assignment_def Let_def)

lemma rows_retire: "(\<forall>row\<in>set R. length row = 4) \<Longrightarrow> \<forall>row\<in>set (retire_assignment a R). length row = 4"
proof -
  assume R: "\<forall>row\<in>set R. length row = 4"
  show ?thesis
  proof (cases "ba_active a \<and> unat (ba_logical_engine_id a) < length R")
    case True
    then have "length (R ! unat (ba_logical_engine_id a)) = 4" using R by simp
    then show ?thesis using R set_update_subset_insert[of R] True
      by (fastforce simp: retire_assignment_def Let_def)
  next
    case False
    then show ?thesis using R by (auto simp: retire_assignment_def Let_def list_update_beyond not_less)
  qed
qed

lemma retired_bit_retire:
  assumes "\<forall>row\<in>set R. length row = 4" "unat e < length R"
  shows "retired_bit (retire_assignment a R) e s \<longleftrightarrow>
    retired_bit R e s \<or> (ba_active a \<and> ba_logical_engine_id a = e \<and> ba_logical_sequence a = s)"
proof -
  have s4: "unat s div 64 < 4" for s :: u8 using unsigned_less[of s, where ?'a = nat] by simp
  have row: "length (R ! unat e) = 4" using assms by simp
  have pos: "unat x div 64 = unat y div 64 \<and> unat x mod 64 = unat y mod 64 \<longleftrightarrow> x = y" for x y :: u8
    by (metis div_mult_mod_eq word_unat_eq_iff)
  have ne: "unat (ba_logical_engine_id a) = unat e \<longleftrightarrow> ba_logical_engine_id a = e"
    by (simp add: word_unat_eq_iff)
  have m: "unat x mod 64 < LENGTH(64)" for x :: u8 by simp
  show ?thesis
    using assms row s4[of s] s4[of "ba_logical_sequence a"] pos[of s "ba_logical_sequence a"] ne m[of s]
    by (auto simp: retired_bit_iff retire_assignment_def Let_def nth_list_update bit_or_iff bit_exp_iff
        split: if_splits)
qed

lemma retired_bit_retire_all:
  assumes "\<forall>row\<in>set R. length row = 4" "unat e < length R"
  shows "retired_bit (fold (\<lambda>i R. retire_assignment (ps ! i) (retire_assignment (as ! i) R)) is R) e s \<longleftrightarrow>
    retired_bit R e s \<or>
    (\<exists>i\<in>set is. \<exists>a\<in>{as ! i, ps ! i}. ba_active a \<and> ba_logical_engine_id a = e \<and> ba_logical_sequence a = s)"
  using assms
proof (induction "is" arbitrary: R)
  case (Cons i "is")
  let ?R = "retire_assignment (ps ! i) (retire_assignment (as ! i) R)"
  have "\<forall>row\<in>set ?R. length row = 4" "unat e < length ?R"
    using rows_retire[OF rows_retire[OF Cons.prems(1)]] Cons.prems(2) by (simp_all add: length_retire)
  then show ?case
    using Cons.IH[of ?R] Cons.prems rows_retire
    by (auto simp: retired_bit_retire length_retire)
qed simp

lemma retire_all_shape:
  "length R = n \<and> (\<forall>row\<in>set R. length row = 4) \<Longrightarrow>
   length (fold (\<lambda>i R. retire_assignment (ps ! i) (retire_assignment (as ! i) R)) is R) = n \<and>
   (\<forall>row\<in>set (fold (\<lambda>i R. retire_assignment (ps ! i) (retire_assignment (as ! i) R)) is R). length row = 4)"
proof (induction "is" arbitrary: R)
  case (Cons i "is")
  let ?R = "retire_assignment (ps ! i) (retire_assignment (as ! i) R)"
  have "length ?R = n \<and> (\<forall>row\<in>set ?R. length row = 4)"
    using Cons.prems rows_retire[OF rows_retire, of R] by (simp add: length_retire)
  then show ?case using Cons.IH by simp
qed simp

section \<open>Writing a work\<close>

lemma work_build_fields:
  assumes "bzm_work_build (Some source) engine q tc lz enhanced = Some w"
  shows "wk_source w = source" "wk_engine_id w = engine" "wk_logical_sequence w = q" "wk_timestamp_count w = tc"
    "\<exists>job. aw_template source = Some job \<and> wk_start_ntime w = aj_ntime (snd job) \<and> wk_target w = aj_nbits (snd job) \<and>
       (wk_midstate_count w, wk_versions w) = bzm_build_versions (aj_version (snd job)) (aj_version_mask (snd job)) enhanced \<and>
       wk_midstates w = map (work_midstate (snd job)) (take (wk_midstate_count w) (wk_versions w)) @
         replicate (4 - wk_midstate_count w) (replicate 32 0) \<and>
       wk_merkle_residue w = le_word (take 4 (drop 28 (aj_merkle_root (snd job))))"
  using assms by (auto simp: bzm_work_build_def split: option.splits if_splits prod.splits)

lemma update_active_cases:
  "i < length xs \<Longrightarrow> j < length xs \<Longrightarrow> xs[i := x] ! j = (if j = i then x else xs ! j)"
  by (simp add: nth_list_update)

text \<open>The situation in which an assignment \<open>a\<close> for the work \<open>w\<close> of schedule slot \<open>k\<close> is committed.\<close>

definition committing :: "'c bzm_reactor_t \<Rightarrow> written list \<Rightarrow> nat \<Rightarrow> nat \<Rightarrow> bzm_assignment_t \<Rightarrow> bzm_work_t \<Rightarrow> bool" where
  "committing r ws k i a w \<longleftrightarrow>
     base_inv r \<and> slots_ok r \<and> log_ok r ws \<and> records_ok r ws \<and> retired_ok r \<and>
     re_next_engine r = of_nat k \<and> k < engines r \<and> i < 256 \<and>
     (if ba_active (re_assignments r ! i) then ba_engine_id (re_assignments r ! i) = phys k else seqn r k = 0) \<and>
     seqn r k < unat (sequence_space r) \<and> ba_active a \<and> ba_engine_id a = phys k \<and> ba_logical_engine_id a = topo k \<and>
     ba_state a = BZM_ENGINE_ASSIGNED \<and> unat (ba_logical_sequence a) = seqn r k \<and> records (re_config r) a w"

lemma commit_fields:
  assumes "committing r ws k i a w"
  shows "re_assignments (commit_assign r i a) = (re_assignments r)[i := a]"
    "re_previous_assignments (commit_assign r i a) =
       (re_previous_assignments r)[i := if ba_active (re_assignments r ! i) then re_assignments r ! i else zero_assignment]"
    "seqn (commit_assign r i a) j = (if j = k then seqn r k + 1 else seqn r j)"
    "re_config (commit_assign r i a) = re_config r" "engines (commit_assign r i a) = engines r"
    "re_retired_sequences (commit_assign r i a) =
       (if ba_active (re_previous_assignments r ! i)
        then retire_assignment (re_previous_assignments r ! i) (re_retired_sequences r) else re_retired_sequences r)"
    "re_job_store (commit_assign r i a) = re_job_store r \<or>
     (\<exists>h. re_job_store (commit_assign r i a) = snd (asic_job_store_release (re_job_store r) h))"
    "re_flush_pending (commit_assign r i a) = re_flush_pending r"
proof -
  have k: "unat (of_nat k :: u16) = k" "k < 256" using assms by (auto simp: committing_def base_inv_def unat_of_nat)
  have q: "unat (ba_logical_sequence a + 1) = seqn r k + 1"
    using assms by (auto simp: committing_def sequence_space_def unat_word_ariths split: if_splits)
  have len: "length (re_next_engine_sequence r) = 256" using assms by (auto simp: committing_def base_inv_def)
  show "seqn (commit_assign r i a) j = (if j = k then seqn r k + 1 else seqn r j)"
    using assms k q len by (auto simp: commit_assign_def Let_def committing_def seqn_def nth_list_update)
qed (use assms in \<open>auto simp: commit_assign_def Let_def engines_def committing_def\<close>)

lemma slots_okD:
  assumes "slots_ok r" "i < 256"
  shows "ba_active (re_assignments r ! i) \<Longrightarrow> \<exists>k<engines r. ba_engine_id (re_assignments r ! i) = phys k \<and>
      ba_logical_engine_id (re_assignments r ! i) = topo k \<and> unat (ba_logical_sequence (re_assignments r ! i)) + 1 = seqn r k"
    and "ba_active (re_previous_assignments r ! i) \<Longrightarrow> ba_active (re_assignments r ! i) \<and>
      ba_engine_id (re_previous_assignments r ! i) = ba_engine_id (re_assignments r ! i) \<and>
      ba_logical_engine_id (re_previous_assignments r ! i) = ba_logical_engine_id (re_assignments r ! i) \<and>
      unat (ba_logical_sequence (re_previous_assignments r ! i)) + 1 = unat (ba_logical_sequence (re_assignments r ! i))"
  using assms by (auto simp: slots_ok_def Let_def)

lemma slots_ok_engine:
  "slots_ok r \<Longrightarrow> k < engines r \<Longrightarrow> 0 < seqn r k \<Longrightarrow> \<exists>i<256. ba_active (re_assignments r ! i) \<and>
     ba_engine_id (re_assignments r ! i) = phys k \<and> (2 \<le> seqn r k \<longrightarrow> ba_active (re_previous_assignments r ! i))"
  by (simp add: slots_ok_def)

lemma slots_ok_unique:
  "slots_ok r \<Longrightarrow> i < 256 \<Longrightarrow> j < 256 \<Longrightarrow> ba_active (re_assignments r ! i) \<Longrightarrow> ba_active (re_assignments r ! j) \<Longrightarrow>
     ba_engine_id (re_assignments r ! i) = ba_engine_id (re_assignments r ! j) \<Longrightarrow> i = j"
  by (simp add: slots_ok_def)

text \<open>The slot a commit goes to: its engine, and the sequences of its current and previous work.\<close>

lemma commit_slot:
  assumes c: "committing r ws k i a w"
  shows "ba_active (re_assignments r ! i) \<Longrightarrow> ba_engine_id (re_assignments r ! i) = phys k \<and>
      ba_logical_engine_id (re_assignments r ! i) = topo k \<and> unat (ba_logical_sequence (re_assignments r ! i)) + 1 = seqn r k"
    and "\<not> ba_active (re_assignments r ! i) \<Longrightarrow> seqn r k = 0"
    and "ba_active (re_previous_assignments r ! i) \<Longrightarrow> ba_active (re_assignments r ! i) \<and>
      ba_logical_engine_id (re_previous_assignments r ! i) = topo k \<and>
      unat (ba_logical_sequence (re_previous_assignments r ! i)) + 2 = seqn r k"
proof -
  have lt: "k < 236" "engines r \<le> 236" "i < 256" "slots_ok r" using c by (auto simp: committing_def base_inv_def)
  show act: "ba_engine_id (re_assignments r ! i) = phys k \<and> ba_logical_engine_id (re_assignments r ! i) = topo k \<and>
      unat (ba_logical_sequence (re_assignments r ! i)) + 1 = seqn r k" if active: "ba_active (re_assignments r ! i)"
  proof -
    obtain j where j: "j < engines r" "ba_engine_id (re_assignments r ! i) = phys j"
        "ba_logical_engine_id (re_assignments r ! i) = topo j" "unat (ba_logical_sequence (re_assignments r ! i)) + 1 = seqn r j"
      using slots_okD(1)[OF lt(4,3) active] by blast
    moreover have "phys j = phys k" using c j(2) active by (simp add: committing_def)
    ultimately show ?thesis using phys_inj[of j k] lt by simp
  qed
  show "\<not> ba_active (re_assignments r ! i) \<Longrightarrow> seqn r k = 0" using c by (simp add: committing_def)
  show "ba_active (re_previous_assignments r ! i) \<Longrightarrow> ba_active (re_assignments r ! i) \<and>
      ba_logical_engine_id (re_previous_assignments r ! i) = topo k \<and>
      unat (ba_logical_sequence (re_previous_assignments r ! i)) + 2 = seqn r k"
    using slots_okD(2)[OF lt(4,3)] act by auto
qed

lemma commit_slots:
  assumes c: "committing r ws k i a w"
  shows "slots_ok (commit_assign r i a)"
proof -
  note f = commit_fields[OF c] and slot = commit_slot[OF c]
  have b: "slots_ok r" "i < 256" "k < engines r" "engines r \<le> 236" "length (re_assignments r) = 256"
      "length (re_previous_assignments r) = 256" "ba_active a" "ba_engine_id a = phys k" "ba_logical_engine_id a = topo k"
      "unat (ba_logical_sequence a) = seqn r k"
    using c by (auto simp: committing_def base_inv_def)
  have free: "ba_engine_id (re_assignments r ! j) \<noteq> phys k" if j: "j < 256" "j \<noteq> i" "ba_active (re_assignments r ! j)" for j
  proof
    assume e: "ba_engine_id (re_assignments r ! j) = phys k"
    obtain l where l: "l < engines r" "ba_engine_id (re_assignments r ! j) = phys l"
        "unat (ba_logical_sequence (re_assignments r ! j)) + 1 = seqn r l"
      using slots_okD(1)[OF b(1) j(1,3)] by blast
    then have "l = k" using e phys_inj[of l k] b(3,4) by simp
    then have "ba_active (re_assignments r ! i)" using slot(2) l(3) by auto
    then have "i = j" using slot(1) e b(1,2) j(1,3) unfolding slots_ok_def by metis
    then show False using j(2) by simp
  qed
  let ?A = "(re_assignments r)[i := a]"
  let ?P = "(re_previous_assignments r)[i := if ba_active (re_assignments r ! i) then re_assignments r ! i else zero_assignment]"
  have A: "?A ! j = (if j = i then a else re_assignments r ! j)" if "j < 256" for j
    using that b(5) by (simp add: nth_list_update)
  have P: "?P ! j = (if j = i then if ba_active (re_assignments r ! i) then re_assignments r ! i else zero_assignment
      else re_previous_assignments r ! j)" if "j < 256" for j
    using that b(6) by (simp add: nth_list_update)
  have "\<exists>l<engines r. ba_engine_id (?A ! j) = phys l \<and> ba_logical_engine_id (?A ! j) = topo l \<and>
      unat (ba_logical_sequence (?A ! j)) + 1 = (if l = k then seqn r k + 1 else seqn r l)"
    if j: "j < 256" "ba_active (?A ! j)" for j
  proof (cases "j = i")
    case True
    then show ?thesis using A[OF j(1)] b by auto
  next
    case False
    then have act: "ba_active (re_assignments r ! j)" using A j by auto
    then obtain l where l: "l < engines r" "ba_engine_id (re_assignments r ! j) = phys l"
        "ba_logical_engine_id (re_assignments r ! j) = topo l" "unat (ba_logical_sequence (re_assignments r ! j)) + 1 = seqn r l"
      using slots_okD(1)[OF b(1) j(1)] by blast
    then have "l \<noteq> k" using free[OF j(1) False act] by auto
    then show ?thesis using l A[OF j(1)] False by auto
  qed
  moreover have "ba_active (?P ! j) \<longrightarrow> ba_active (?A ! j) \<and> ba_engine_id (?P ! j) = ba_engine_id (?A ! j) \<and>
      ba_logical_engine_id (?P ! j) = ba_logical_engine_id (?A ! j) \<and>
      unat (ba_logical_sequence (?P ! j)) + 1 = unat (ba_logical_sequence (?A ! j))" if j: "j < 256" for j
    using A[OF j] P[OF j] slot(1) b slots_okD(2)[OF b(1) j] by (cases "j = i") (auto simp: zero_assignment_def)
  moreover have "\<exists>j<256. ba_active (?A ! j) \<and> ba_engine_id (?A ! j) = phys l \<and>
      (2 \<le> (if l = k then seqn r k + 1 else seqn r l) \<longrightarrow> ba_active (?P ! j))"
    if l: "l < engines r" "0 < (if l = k then seqn r k + 1 else seqn r l)" for l
  proof (cases "l = k")
    case True
    then show ?thesis using A[OF b(2)] P[OF b(2)] b slot(2) by (intro exI[of _ i]) auto
  next
    case False
    then obtain j where j: "j < 256" "ba_active (re_assignments r ! j)" "ba_engine_id (re_assignments r ! j) = phys l"
        "2 \<le> seqn r l \<longrightarrow> ba_active (re_previous_assignments r ! j)"
      using b(1) l unfolding slots_ok_def Let_def by auto
    have "j \<noteq> i" using slot(1) j(2,3) phys_inj[of l k] l(1) b(3,4) False by auto
    then show ?thesis using A[OF j(1)] P[OF j(1)] j False by (intro exI[of _ j]) auto
  qed
  moreover have "j = l" if "j < 256" "l < 256" "ba_active (?A ! j) \<and> ba_active (?A ! l) \<and>
      ba_engine_id (?A ! j) = ba_engine_id (?A ! l)" for j l
  proof -
    have "j \<noteq> i \<Longrightarrow> l \<noteq> i \<Longrightarrow> j = l" using that A b(1) unfolding slots_ok_def by auto
    then show ?thesis using that A free[of j] free[of l] b(8) by (metis (full_types))
  qed
  ultimately show ?thesis unfolding slots_ok_def Let_def f by blast
qed

lemma records_identity: "records cfg a w \<Longrightarrow> identity w = (ba_engine_id a, ba_logical_sequence a)"
  by (simp add: records_def identity_def)

lemma commit_log:
  assumes c: "committing r ws k i a w"
  shows "log_ok (commit_assign r i a) (ws @ [(w, ctx)])"
proof -
  note f = commit_fields[OF c]
  have b: "log_ok r ws" "k < engines r" "engines r \<le> 236" "unat (ba_logical_sequence a) = seqn r k"
      "identity w = (phys k, ba_logical_sequence a)"
    using c records_identity by (auto simp: committing_def base_inv_def)
  have "identity w \<notin> set (map (identity \<circ> fst) ws)"
  proof
    assume "identity w \<in> set (map (identity \<circ> fst) ws)"
    then obtain l where "l < engines r" "phys k = phys l" "unat (ba_logical_sequence a) < seqn r l"
      using b(1,5) unfolding log_ok_def by metis
    then show False using b(2,3,4) phys_inj[of k l] by auto
  qed
  moreover have "(if l = k then seqn r k + 1 else seqn r l) \<le> unat (sequence_space r)" if "l < engines r" for l
    using that b(1) c by (auto simp: log_ok_def committing_def)
  moreover have "sequence_space (commit_assign r i a) = sequence_space r" by (simp add: sequence_space_def f)
  moreover have "(\<exists>l<engines r. e = phys l \<and> unat q < (if l = k then seqn r k + 1 else seqn r l)) \<longleftrightarrow>
      (e, q) = (phys k, ba_logical_sequence a) \<or> (\<exists>l<engines r. e = phys l \<and> unat q < seqn r l)" for e q
    using b(2,4) by (auto simp: less_Suc_eq word_unat_eq_iff)
  ultimately show ?thesis using b(1,5) by (auto simp: log_ok_def f)
qed

lemma commit_records:
  assumes c: "committing r ws k i a w"
  shows "records_ok (commit_assign r i a) (ws @ [(w, ctx)])"
proof -
  note f = commit_fields[OF c]
  have b: "records_ok r ws" "i < 256" "ba_state a = BZM_ENGINE_ASSIGNED" "records (re_config r) a w"
      "length (re_assignments r) = 256" "length (re_previous_assignments r) = 256"
    using c by (auto simp: committing_def base_inv_def)
  have "set ((re_assignments r)[i := a]) \<union>
      set ((re_previous_assignments r)[i := if ba_active (re_assignments r ! i) then re_assignments r ! i else zero_assignment]) \<subseteq>
      insert a (insert zero_assignment (set (re_assignments r) \<union> set (re_previous_assignments r)))"
    using b(2,5) set_update_subset_insert[of "re_assignments r" i a] nth_mem[of i "re_assignments r"]
      set_update_subset_insert[of "re_previous_assignments r" i
        "if ba_active (re_assignments r ! i) then re_assignments r ! i else zero_assignment"]
    by (auto split: if_splits)
  then show ?thesis using b(1,3,4) unfolding records_ok_def f by (fastforce simp: zero_assignment_def)
qed

lemma commit_retired:
  assumes c: "committing r ws k i a w"
  shows "retired_ok (commit_assign r i a)"
proof -
  note f = commit_fields[OF c] and slot = commit_slot[OF c]
  have b: "retired_ok r" "slots_ok r" "i < 256" "k < engines r" "engines r \<le> 236" "length (re_retired_sequences r) = 256"
      "\<forall>row\<in>set (re_retired_sequences r). length row = 4"
    using c by (auto simp: committing_def base_inv_def)
  have prev: "2 \<le> seqn r k \<Longrightarrow> ba_active (re_previous_assignments r ! i)"
  proof -
    assume two: "2 \<le> seqn r k"
    then obtain j where j: "j < 256" "ba_active (re_assignments r ! j)" "ba_engine_id (re_assignments r ! j) = phys k"
        "ba_active (re_previous_assignments r ! j)"
      using slots_ok_engine[OF b(2,4)] by auto
    moreover have "ba_active (re_assignments r ! i)" using two slot(2) by auto
    ultimately have "j = i" using slot(1) slots_ok_unique[OF b(2) j(1) b(3)] by simp
    then show ?thesis using j by simp
  qed
  have bit: "retired_bit (re_retired_sequences (commit_assign r i a)) e q \<longleftrightarrow>
      retired_bit (re_retired_sequences r) e q \<or> (e = topo k \<and> unat q + 2 = seqn r k)" if e: "unat e < 236" for e q
  proof -
    have "unat e < length (re_retired_sequences r)" using e b(6) by simp
    note r = retired_bit_retire[OF b(7) this, of "re_previous_assignments r ! i" q]
    have "ba_active (re_previous_assignments r ! i) \<and> ba_logical_sequence (re_previous_assignments r ! i) = q \<longleftrightarrow>
        unat q + 2 = seqn r k"
    proof
      assume "unat q + 2 = seqn r k"
      then show "ba_active (re_previous_assignments r ! i) \<and> ba_logical_sequence (re_previous_assignments r ! i) = q"
        using prev slot(3) by (auto simp: word_unat_eq_iff)
    qed (use slot(3) in auto)
    then show ?thesis using r slot(3) unfolding f by auto
  qed
  have t: "unat (topo l) < 236" if "l < engines r" for l using schedule(3)[of l] that b(5) by simp
  have "\<exists>l<engines r. e = topo l \<and> unat q < (if l = k then seqn r k + 1 else seqn r l)"
    if e: "unat e < 236" and q: "retired_bit (re_retired_sequences (commit_assign r i a)) e q" for e q
  proof -
    have "retired_bit (re_retired_sequences r) e q \<or> e = topo k \<and> unat q + 2 = seqn r k" using q unfolding bit[OF e] .
    then obtain l where "l < engines r" "e = topo l" "unat q < seqn r l"
    proof
      assume "retired_bit (re_retired_sequences r) e q"
      then show thesis using b(1) e that unfolding retired_ok_def by blast
    next
      assume "e = topo k \<and> unat q + 2 = seqn r k"
      then show thesis using that[of k] b(4) by simp
    qed
    then show ?thesis by (intro exI[of _ l]) auto
  qed
  moreover have "retired_bit (re_retired_sequences (commit_assign r i a)) (topo l) q"
    if l: "l < engines r" and q: "unat q + 2 < (if l = k then seqn r k + 1 else seqn r l)" for l q
  proof -
    have old: "unat q + 2 < seqn r l \<Longrightarrow> retired_bit (re_retired_sequences r) (topo l) q"
      using b(1) l by (simp add: retired_ok_def)
    have "unat q + 2 < seqn r l \<or> l = k \<and> unat q + 2 = seqn r k" using q by (auto split: if_splits)
    then show ?thesis unfolding bit[OF t[OF l]] using old by blast
  qed
  ultimately show ?thesis unfolding retired_ok_def f(3,5) by blast
qed

lemma store_invalidates:
  "store_inv s \<Longrightarrow> js_next_generation s < 0xFFFFFFFFFFFFFF \<Longrightarrow> store_inv (asic_job_store_invalidate_all s)"
  using store.inv_step[OF _ js_step.invalidate] .

lemma store_releases: "store_inv s \<Longrightarrow> store_inv (snd (asic_job_store_release s h))"
  using store.inv_step[OF _ js_step.release] .

lemma commit_inv:
  assumes c: "committing r ws k i a w" and e: "entries_ok r (ws @ [(w, ctx)])"
  shows "base_inv (commit_assign r i a)" and "live_inv (commit_assign r i a) (ws @ [(w, ctx)])"
proof -
  note f = commit_fields[OF c]
  have st: "store_inv (re_job_store r)" and n: "0 < engines r" "engines r \<le> 236"
    using c by (auto simp: committing_def base_inv_def)
  have st': "store_inv (re_job_store (commit_assign r i a))" using f(7) st store_releases[OF st] by auto
  have "unat (re_next_engine (commit_assign r i a)) < engines r"
    using n by (auto simp: commit_assign_def Let_def engines_def unat_mod)
  then show "base_inv (commit_assign r i a)"
    using c st' rows_retire[of "re_retired_sequences r"] unfolding base_inv_def f committing_def
    by (auto simp: length_retire commit_assign_def Let_def)
  have "entries_ok (commit_assign r i a) (ws @ [(w, ctx)])"
    using e f(7) remembers_step[OF st js_step.release] unfolding entries_ok_def f by fastforce
  then show "live_inv (commit_assign r i a) (ws @ [(w, ctx)])"
    using commit_slots[OF c] commit_log[OF c] commit_records[OF c] commit_retired[OF c] by (simp add: live_inv_def)
qed

section \<open>Flushing\<close>

text \<open>A reactor that has written nothing since the last flush.\<close>

lemma nothing_retired:
  assumes "unat e < 236"
  shows "\<not> retired_bit (replicate 256 (replicate 4 0)) e s"
proof -
  have "unat s div 64 < 4" using unsigned_less[of s, where ?'a = nat] by simp
  then show ?thesis using assms by (simp add: retired_bit_def)
qed

lemma fresh_live:
  assumes "engines r \<le> 236" "\<And>k. k < engines r \<Longrightarrow> seqn r k = 0" "\<And>e s. unat e < 236 \<Longrightarrow> \<not> retired_bit (re_retired_sequences r) e s"
    and "length (re_assignments r) = 256" "length (re_previous_assignments r) = 256"
    and "\<And>a. a \<in> set (re_assignments r @ re_previous_assignments r) \<Longrightarrow> \<not> ba_active a"
  shows "live_inv r []"
proof -
  have "\<not> ba_active (re_assignments r ! i)" "\<not> ba_active (re_previous_assignments r ! i)" if "i < 256" for i
    using assms(4-6) that by simp_all
  then have "slots_ok r" using assms(2) by (auto simp: slots_ok_def Let_def)
  moreover have "log_ok r []" using assms(2) by (auto simp: log_ok_def)
  moreover have "retired_ok r" using assms(2,3) by (auto simp: retired_ok_def)
  ultimately show ?thesis using assms(6) by (auto simp: live_inv_def entries_ok_def records_ok_def)
qed

text \<open>The store below its last generations.\<close>

definition room :: "'c bzm_reactor_t \<Rightarrow> bool" where
  "room r \<longleftrightarrow> js_next_generation (re_job_store r) < 0xFFFFFFFFFFFFF0"

lemma room_less: "room r \<Longrightarrow> js_next_generation (re_job_store r) < 0xFFFFFFFFFFFFFF"
  by (auto simp: room_def word_less_nat_alt)

lemma begin_flush_inv:
  assumes "base_inv r" "js_next_generation (re_job_store r) < 0xFFFFFFFFFFFFFF" "bzm_reactor_begin_flush r c = (ok, r', c')"
  shows "base_inv r' \<and> re_flush_pending r' \<and> re_flush_complete r' = ok"
proof -
  have "store_inv (asic_job_store_invalidate_all (re_job_store r))"
    using assms(1,2) by (simp add: base_inv_def store_invalidates)
  then show ?thesis
    using assms(1,3) by (auto simp: bzm_reactor_begin_flush_def Let_def base_inv_def engines_def split: if_splits prod.splits)
qed

lemma finish_flush_inv:
  assumes "base_inv r" "re_flush_pending r" "re_flush_complete r"
  shows "base_inv (bzm_reactor_finish_flush r)" "\<not> re_flush_pending (bzm_reactor_finish_flush r)"
    "live_inv (bzm_reactor_finish_flush r) []"
proof -
  have n: "engines r \<le> 236" using assms(1) by (auto simp: base_inv_def)
  let ?f = "bzm_reactor_finish_flush r"
  show "base_inv ?f" using assms by (auto simp: bzm_reactor_finish_flush_def base_inv_def engines_def)
  show "\<not> re_flush_pending ?f" using assms(2,3) by (simp add: bzm_reactor_finish_flush_def)
  show "live_inv ?f []"
    by (rule fresh_live)
      (use n assms(2,3) nothing_retired in
        \<open>auto simp: bzm_reactor_finish_flush_def zero_assignment_def engines_def seqn_def\<close>)
qed

lemma abort_inv:
  assumes "base_inv r" "js_next_generation (re_job_store r) < 0xFFFFFFFFFFFFFF" "abort_assign r c = (flushed, r', c')"
  shows "base_inv r' \<and> (re_flush_pending r' = (\<not> flushed)) \<and> (flushed \<longrightarrow> live_inv r' [])"
proof -
  obtain r1 c1 where b: "bzm_reactor_begin_flush r c = (flushed, r1, c1)"
      and r': "r' = (if flushed then bzm_reactor_finish_flush r1 else r1)"
    using assms(3) by (auto simp: abort_assign_def split: prod.splits)
  show ?thesis
    using begin_flush_inv[OF assms(1,2) b] finish_flush_inv[of r1] unfolding r' by (cases flushed) auto
qed

section \<open>Assignment by cases\<close>

text \<open>What an assignment can do: refuse, store and release, abort after a failed write, or commit.\<close>

lemma assign_cases:
  assumes "bzm_reactor_assign r template_opt c = (st, out, r', c')"
  obtains (refused) "out = None" "st \<noteq> BZM_ASSIGN_OK" "st \<noteq> BZM_ASSIGN_TRANSPORT_ERROR" "r' = r"
  | (unbuilt) template h s where "asic_job_store_store_generated (re_job_store r) template = Some (h, s)"
      "out = None" "st = BZM_ASSIGN_INVALID" "r' = r\<lparr> re_job_store := snd (asic_job_store_release s h) \<rparr>"
  | (aborted) template h s flushed c1 where "\<not> re_flush_pending r"
      "asic_job_store_store_generated (re_job_store r) template = Some (h, s)"
      "out = None" "st = BZM_ASSIGN_TRANSPORT_ERROR"
      "abort_assign (r\<lparr> re_job_store := snd (asic_job_store_release s h) \<rparr>) c1 = (flushed, r', c')"
  | (committed) template h s engine i w0 w where "template_opt = Some template" "\<not> re_flush_pending r"
      "asic_job_store_store_generated (re_job_store r) template = Some (h, s)"
      "ucast (re_next_engine_sequence r ! unat (re_next_engine r)) < sequence_space r"
      "scheduled_engine_at (re_next_engine r) = Some engine"
      "find_engine_assignment r (el_physical_id engine) = Some i \<or>
         find_engine_assignment r (el_physical_id engine) = None \<and> free_assignment r = Some i"
      "bzm_work_build (Some \<lparr> aw_handle = h, aw_template = Some template \<rparr>) (el_physical_id engine)
         (re_next_engine_sequence r ! unat (re_next_engine r)) (rg_timestamp_count (re_config r))
         (rg_lead_zeros (re_config r)) (rg_enhanced_mode (re_config r)) = Some w0"
      "w = w0\<lparr> wk_starting_nonce := 0, wk_end_nonce := UINT32_MAX \<rparr>" "out = Some w" "st = BZM_ASSIGN_OK"
      "r' = commit_assign (r\<lparr> re_job_store := s \<rparr>) i
         (assigned (r\<lparr> re_job_store := s \<rparr>) engine (re_next_engine_sequence r ! unat (re_next_engine r)) h
            (aj_version (snd template)) w)"
proof -
  let ?q = "re_next_engine_sequence r ! unat (re_next_engine r)"
  let ?slot = "\<lambda>e. case find_engine_assignment r (el_physical_id e) of Some i \<Rightarrow> Some i | None \<Rightarrow> free_assignment r"
  let ?build = "\<lambda>t e h. bzm_work_build (Some \<lparr> aw_handle = h, aw_template = Some t \<rparr>) (el_physical_id e) ?q
     (rg_timestamp_count (re_config r)) (rg_lead_zeros (re_config r)) (rg_enhanced_mode (re_config r))"
  show thesis
  proof (cases "template_opt = None \<or> re_flush_pending r \<or> sequence_space r \<le> ucast ?q \<or>
      scheduled_engine_at (re_next_engine r) = None \<or> ?slot (the (scheduled_engine_at (re_next_engine r))) = None \<or>
      asic_job_store_store_generated (re_job_store r) (the template_opt) = None")
    case True
    then have "out = None \<and> st \<noteq> BZM_ASSIGN_OK \<and> st \<noteq> BZM_ASSIGN_TRANSPORT_ERROR \<and> r' = r"
      using assms unfolding bzm_reactor_assign_def Let_def by (auto split: option.splits if_splits)
    then show thesis using refused by blast
  next
    case False
    then obtain t e i h s where t: "template_opt = Some t" and p: "\<not> re_flush_pending r"
      and q: "ucast ?q < sequence_space r" and e: "scheduled_engine_at (re_next_engine r) = Some e"
      and i: "?slot e = Some i" and h: "asic_job_store_store_generated (re_job_store r) t = Some (h, s)"
      by (auto simp: not_le)
    have i': "find_engine_assignment r (el_physical_id e) = Some i \<or>
         find_engine_assignment r (el_physical_id e) = None \<and> free_assignment r = Some i"
      using i by (auto split: option.splits)
    show thesis
    proof (cases "?build t e h")
      case None
      then have "out = None \<and> st = BZM_ASSIGN_INVALID \<and> r' = r\<lparr> re_job_store := snd (asic_job_store_release s h) \<rparr>"
        using assms t p q e i h unfolding bzm_reactor_assign_def Let_def by (simp add: not_le[symmetric])
      then show thesis using unbuilt[OF h] by blast
    next
      case (Some w0)
      let ?w = "w0\<lparr> wk_starting_nonce := 0, wk_end_nonce := UINT32_MAX \<rparr>"
      let ?r = "r\<lparr> re_job_store := s \<rparr>"
      obtain sent c1 where send: "send_engine ?r ?w c = (sent, c1)" by (cases "send_engine ?r ?w c")
      show thesis
      proof (cases sent)
        case True
        then have "out = Some ?w \<and> st = BZM_ASSIGN_OK \<and> r' = commit_assign ?r i (assigned ?r e ?q h (aj_version (snd t)) ?w)"
          using assms t p q e i h Some send unfolding bzm_reactor_assign_def Let_def by (simp add: not_le[symmetric])
        then show thesis using committed[OF t p h q e i' Some refl] by blast
      next
        case False
        obtain flushed r1 c2 where ab: "abort_assign (r\<lparr> re_job_store := snd (asic_job_store_release s h) \<rparr>) c1 = (flushed, r1, c2)"
          by (cases "abort_assign (r\<lparr> re_job_store := snd (asic_job_store_release s h) \<rparr>) c1")
        have "out = None \<and> st = BZM_ASSIGN_TRANSPORT_ERROR \<and> r' = r1 \<and> c' = c2"
          using assms t p q e i h Some send False ab unfolding bzm_reactor_assign_def Let_def by (simp add: not_le[symmetric])
        then show thesis using aborted[OF p h] ab by blast
      qed
    qed
  qed
qed

section \<open>Reachable reactors\<close>

text \<open>
  The steps of the reactor in production, together with what they leave on the hardware: a work is
  added when its writes succeeded, and only a completed flush empties the list. \<open>store\<close> is anything
  the rest of the program does to the shared job store. The transport context is arbitrary in every
  step. \<open>bzm_reactor_dispatch\<close>, the qualification-only batch path, is not among them.
\<close>

inductive rx_step :: "'c bzm_reactor_t \<times> written list \<Rightarrow> 'c bzm_reactor_t \<times> written list \<Rightarrow> bool" where
  assign: "room r \<Longrightarrow> bzm_reactor_assign r (Some template) c = (BZM_ASSIGN_OK, Some w, r', c') \<Longrightarrow>
     rx_step (r, ws) (r', ws @ [(w, context_for (re_job_store r) template)])"
| assign_failed: "room r \<Longrightarrow> bzm_reactor_assign r template_opt c = (st, None, r', c') \<Longrightarrow>
     rx_step (r, ws) (r', if st = BZM_ASSIGN_TRANSPORT_ERROR \<and> \<not> re_flush_pending r' then [] else ws)"
| begin_flush: "room r \<Longrightarrow> bzm_reactor_begin_flush r c = (ok, r', c') \<Longrightarrow> rx_step (r, ws) (r', ws)"
| finish_flush: "rx_step (r, ws) (bzm_reactor_finish_flush r, if re_flush_pending r \<and> re_flush_complete r then [] else ws)"
| invalidate: "room r \<Longrightarrow> rx_step (r, ws) (snd (bzm_reactor_invalidate_work r), ws)"
| clear: "room r \<Longrightarrow> bzm_reactor_clear_work r c = (ok, r', c') \<Longrightarrow>
     rx_step (r, ws) (r', if (re_flush_pending r \<or> has_active_assignment r) \<and> ok then [] else ws)"
| store: "js_step (re_job_store r) s \<Longrightarrow> rx_step (r, ws) (r\<lparr> re_job_store := s \<rparr>, ws)"

inductive_cases rx_stepE: "rx_step s t"

definition rx_start :: "'c bzm_reactor_t \<times> written list \<Rightarrow> bool" where
  "rx_start s \<longleftrightarrow> snd s = [] \<and>
     (\<exists>store config transport. reachable js_start js_step store \<and>
        bzm_reactor_init (Some store) (Some config) (Some transport) = Some (fst s))"

text \<open>Changing the store alone keeps the tables.\<close>

lemma store_change:
  assumes "rx_inv (r, ws)" "js_step (re_job_store r) s"
  shows "rx_inv (r\<lparr> re_job_store := s \<rparr>, ws)"
proof -
  let ?r = "r\<lparr> re_job_store := s \<rparr>"
  have st: "store_inv (re_job_store r)" using assms(1) by (simp add: rx_inv_def base_inv_def)
  then have "base_inv ?r" using assms store.inv_step[OF st assms(2)] by (simp add: rx_inv_def base_inv_def engines_def)
  moreover have "live_inv ?r ws" if "live_inv r ws"
  proof -
    have "slots_ok ?r" "log_ok ?r ws" "records_ok ?r ws" "retired_ok ?r"
      using that by (simp_all add: live_inv_def slots_ok_def log_ok_def records_ok_def retired_ok_def engines_def seqn_def
          sequence_space_def)
    moreover have "entries_ok ?r ws"
      using that remembers_step[OF st assms(2)] by (fastforce simp: live_inv_def entries_ok_def)
    ultimately show ?thesis by (simp add: live_inv_def)
  qed
  ultimately show ?thesis using assms(1) by (auto simp: rx_inv_def)
qed

lemma commit_reached:
  assumes inv: "rx_inv (r, ws)" and room: "room r"
    and ok: "bzm_reactor_assign r (Some template) c = (BZM_ASSIGN_OK, Some w, r', c')"
  shows "rx_inv (r', ws @ [(w, context_for (re_job_store r) template)])"
  using ok
proof (cases rule: assign_cases)
  case (committed t h s engine i w0 w1)
  let ?q = "re_next_engine_sequence r ! unat (re_next_engine r)" and ?r = "r\<lparr> re_job_store := s \<rparr>"
  let ?a = "assigned ?r engine ?q h (aj_version (snd t)) w"
  define k where "k = unat (re_next_engine r)"
  have base: "base_inv r" and live: "live_inv r ws" using inv committed(2) by (auto simp: rx_inv_def)
  have sok: "store_ok (re_job_store r)" using base room_less[OF room] by (simp add: base_inv_def store_ok_def)
  have step: "js_step (re_job_store r) s" using js_step.generate[OF room_less[OF room] committed(3)] .
  have inv1: "rx_inv (?r, ws)" using store_change[OF inv step] .
  then have base1: "base_inv ?r" and live1: "live_inv ?r ws" using committed(2) by (auto simp: rx_inv_def)
  have k: "k < engines r" "k < 236" "re_next_engine r = of_nat k" using base by (auto simp: base_inv_def k_def)
  have kk: "unat (of_nat k :: u16) = k" using k(2) by (simp add: unat_of_nat)
  have e: "el_physical_id engine = phys k" "el_topology_index engine = topo k"
    using schedule(1)[OF k(2)] committed(5) k(3) by auto
  have w: "w = w0\<lparr> wk_starting_nonce := 0, wk_end_nonce := UINT32_MAX \<rparr>" "w1 = w" "template = t"
    using committed by simp_all
  note bf = work_build_fields[OF committed(7)]
  have space: "seqn r k < unat (sequence_space r)"
  proof -
    have "unat (ucast ?q :: u16) < unat (sequence_space r)" using committed(4) by (simp add: word_less_nat_alt)
    moreover have "unat (ucast ?q :: u16) = unat ?q" using unsigned_less[of ?q, where ?'a = nat] 
      by (simp add: unsigned_ucast_eq take_bit_nat_eq_self)
    ultimately show ?thesis by (simp add: seqn_def k_def)
  qed
  have slot: "i < 256 \<and> (if ba_active (re_assignments r ! i) then ba_engine_id (re_assignments r ! i) = phys k else seqn r k = 0)"
    using committed(6)
  proof
    assume "find_engine_assignment r (el_physical_id engine) = Some i"
    then show ?thesis using base e find_index_Some[of _ "re_assignments r" i]
      by (auto simp: find_engine_assignment_def base_inv_def)
  next
    assume none: "find_engine_assignment r (el_physical_id engine) = None \<and> free_assignment r = Some i"
    then have i: "i < 256" "\<not> ba_active (re_assignments r ! i) \<or> ba_state (re_assignments r ! i) = BZM_ENGINE_IDLE"
      using base find_index_Some[of _ "re_assignments r" i] by (auto simp: free_assignment_def base_inv_def)
    have "\<not> ba_active (re_assignments r ! i)"
      using i live base nth_mem[of i "re_assignments r"] by (auto simp: live_inv_def records_ok_def base_inv_def)
    moreover have "seqn r k = 0"
    proof (rule ccontr)
      assume "seqn r k \<noteq> 0"
      then obtain j where "j < 256" "ba_active (re_assignments r ! j)" "ba_engine_id (re_assignments r ! j) = phys k"
        using slots_ok_engine[OF _ k(1)] live by (auto simp: live_inv_def)
      then show False
        using none e base nth_mem[of j "re_assignments r"]
        by (auto simp: find_engine_assignment_def find_index_None base_inv_def)
    qed
    ultimately show ?thesis using i by simp
  qed
  have rec: "records (re_config r) ?a w"
    using bf by (auto simp: records_def assigned_def w(1))
  have "committing ?r ws k i ?a w"
    unfolding committing_def
    using base1 live1 k slot space rec e kk
    by (cases "ba_active (re_assignments r ! i)") (simp_all add: live_inv_def engines_def seqn_def assigned_def sequence_space_def)
  moreover have "proper_work (re_config r) w"
    unfolding proper_work_def
  proof (rule exI[of _ w0], intro conjI)
    have "wk_source w = \<lparr> aw_handle = h, aw_template = Some t \<rparr>" "wk_engine_id w = el_physical_id engine"
        "wk_logical_sequence w = ?q"
      using bf w(1) by simp_all
    then show "bzm_work_build (Some (wk_source w)) (wk_engine_id w) (wk_logical_sequence w)
        (rg_timestamp_count (re_config r)) (rg_lead_zeros (re_config r)) (rg_enhanced_mode (re_config r)) = Some w0"
      using committed(7) by simp
  qed (rule w(1))
  then have "entries_ok ?r (ws @ [(w, context_for (re_job_store r) template)])"
    using live1 remembers_generated[OF sok committed(3)] bf(1) by (cases t) (auto simp: live_inv_def entries_ok_def w)
  ultimately have "base_inv r'" "live_inv r' (ws @ [(w, context_for (re_job_store r) template)])"
    using commit_inv committed(8,9,11) w by auto
  then show ?thesis by (simp add: rx_inv_def)
qed auto

lemma generated_released:
  assumes "rx_inv (r, ws)" "room r" "asic_job_store_store_generated (re_job_store r) template = Some (h, s)"
  shows "rx_inv (r\<lparr> re_job_store := snd (asic_job_store_release s h) \<rparr>, ws)"
    and "js_next_generation (snd (asic_job_store_release s h)) < 0xFFFFFFFFFFFFFF"
proof -
  have "rx_inv (r\<lparr> re_job_store := s \<rparr>, ws)"
    by (rule store_change[OF assms(1)]) (rule js_step.generate[OF room_less[OF assms(2)] assms(3)])
  from store_change[OF this, of "snd (asic_job_store_release s h)"] js_step.release[of s h]
  show "rx_inv (r\<lparr> re_job_store := snd (asic_job_store_release s h) \<rparr>, ws)" by simp
  have "js_next_generation s = js_next_generation (re_job_store r) + 1"
    using assms(3) next_generation(1,4)[OF room_less[OF assms(2)]]
    by (auto simp: asic_job_store_store_generated_def Let_def store_entry_def split: if_split_asm)
  moreover have "js_next_generation (re_job_store r) + 1 < 0xFFFFFFFFFFFFFF" if "js_next_generation (re_job_store r) < 0xFFFFFFFFFFFFF0"
    using that by (simp add: word_less_nat_alt unat_word_ariths)
  ultimately show "js_next_generation (snd (asic_job_store_release s h)) < 0xFFFFFFFFFFFFFF"
    using assms(2) by (simp add: asic_job_store_release_def room_def)
qed

lemma failed_reached:
  assumes inv: "rx_inv (r, ws)" and room: "room r" and fail: "bzm_reactor_assign r template_opt c = (st, None, r', c')"
  shows "rx_inv (r', if st = BZM_ASSIGN_TRANSPORT_ERROR \<and> \<not> re_flush_pending r' then [] else ws)"
  using fail
proof (cases rule: assign_cases)
  case (unbuilt template h s)
  then show ?thesis using generated_released(1)[OF inv room unbuilt(1)] by simp
next
  case (aborted template h s flushed c1)
  note g = generated_released[OF inv room aborted(2)]
  have "base_inv (r\<lparr> re_job_store := snd (asic_job_store_release s h) \<rparr>)" using g(1) by (simp add: rx_inv_def)
  then show ?thesis using abort_inv[OF _ _ aborted(5)] g(2) aborted(4) by (simp add: rx_inv_def)
qed (use inv in simp_all)

lemma invalidate_reached:
  assumes inv: "rx_inv (r, ws)" and room: "room r"
  shows "rx_inv (snd (bzm_reactor_invalidate_work r), ws)"
proof -
  let ?r = "snd (bzm_reactor_invalidate_work r)"
  let ?R = "fold (\<lambda>i R. retire_assignment (re_previous_assignments r ! i) (retire_assignment (re_assignments r ! i) R))
    [0..<256] (re_retired_sequences r)"
  have base: "base_inv r" using inv by (simp add: rx_inv_def)
  then have st: "store_inv (re_job_store r)" by (simp add: base_inv_def)
  have R: "length ?R = 256 \<and> (\<forall>row\<in>set ?R. length row = 4)"
    using base by (intro retire_all_shape) (simp add: base_inv_def)
  have r: "re_config ?r = re_config r" "re_assignments ?r = re_assignments r" "re_previous_assignments ?r = re_previous_assignments r"
      "re_next_engine_sequence ?r = re_next_engine_sequence r" "re_retired_sequences ?r = ?R"
      "re_job_store ?r = asic_job_store_invalidate_all (re_job_store r)" "re_next_engine ?r = re_next_engine r"
      "re_previous_batch_complete ?r = re_previous_batch_complete r" "re_current_batch_complete ?r = re_current_batch_complete r"
      "re_flush_pending ?r = re_flush_pending r"
    by (simp_all add: bzm_reactor_invalidate_work_def)
  have b: "base_inv ?r"
    using base R store_invalidates[OF st room_less[OF room]] unfolding base_inv_def r engines_def by blast
  have "live_inv ?r ws" if live: "live_inv r ws"
  proof -
    have ok: "slots_ok r" "retired_ok r" using live by (simp_all add: live_inv_def)
    have e: "engines ?r = engines r" "seqn ?r = seqn r" by (simp_all add: engines_def seqn_def r fun_eq_iff)
    have new: "retired_bit ?R e s \<longleftrightarrow> retired_bit (re_retired_sequences r) e s \<or>
        (\<exists>i\<in>set [0..<256]. \<exists>a\<in>{re_assignments r ! i, re_previous_assignments r ! i}.
           ba_active a \<and> ba_logical_engine_id a = e \<and> ba_logical_sequence a = s)" if "unat e < 236" for e s
      by (rule retired_bit_retire_all) (use base that in \<open>auto simp: base_inv_def\<close>)
    have lt: "\<exists>k<engines r. e = topo k \<and> unat s < seqn r k"
      if i: "i < 256" and a: "a \<in> {re_assignments r ! i, re_previous_assignments r ! i}"
        "ba_active a" "ba_logical_engine_id a = e" "ba_logical_sequence a = s" for e s i a
    proof -
      have act: "ba_active (re_assignments r ! i)" "ba_logical_engine_id (re_assignments r ! i) = e"
          "unat s \<le> unat (ba_logical_sequence (re_assignments r ! i))"
        using a slots_okD(2)[OF ok(1) i] by auto
      then show ?thesis using slots_okD(1)[OF ok(1) i act(1)] by (auto intro: exI)
    qed
    have "\<exists>k<engines r. e = topo k \<and> unat s < seqn r k" if e: "unat e < 236" and s: "retired_bit ?R e s" for e s
    proof -
      from s consider "retired_bit (re_retired_sequences r) e s"
        | i a where "i < 256" "a \<in> {re_assignments r ! i, re_previous_assignments r ! i}" "ba_active a"
            "ba_logical_engine_id a = e" "ba_logical_sequence a = s"
        unfolding new[OF e] by fastforce
      then show ?thesis
      proof cases
        case 1
        then show ?thesis using ok(2) e by (simp add: retired_ok_def)
      next
        case 2
        then show ?thesis by (rule lt)
      qed
    qed
    moreover have "retired_bit ?R (topo k) s" if "k < engines r" "unat s + 2 < seqn r k" for k s
      using that ok(2) new[of "topo k" s] schedule(3)[of k] base by (auto simp: retired_ok_def base_inv_def)
    ultimately have "retired_ok ?r" unfolding retired_ok_def r e by blast
    moreover have "entries_ok ?r ws"
      using live remembers_step[OF st js_step.invalidate[OF room_less[OF room]]]
      by (fastforce simp: live_inv_def entries_ok_def r)
    ultimately show ?thesis
      using live unfolding live_inv_def slots_ok_def log_ok_def records_ok_def sequence_space_def r e by blast
  qed
  then show ?thesis using inv b by (simp add: rx_inv_def r)
qed

lemma idle_fresh:
  assumes "base_inv r" "live_inv r ws" "\<not> has_active_assignment r"
  shows "ws = []" "k < engines r \<Longrightarrow> seqn r k = 0"
proof -
  have q: "seqn r k = 0" if "k < engines r" for k
    using slots_ok_engine[of r k] assms that nth_mem[of _ "re_assignments r"]
    by (fastforce simp: live_inv_def has_active_assignment_def base_inv_def)
  then show "k < engines r \<Longrightarrow> seqn r k = 0" by simp
  have "identity w \<notin> set (map (identity \<circ> fst) ws)" for w
    using assms(2) q by (cases "identity w") (auto simp: live_inv_def log_ok_def simp del: set_map)
  then show "ws = []" by (cases ws) auto
qed

lemma clear_reached:
  assumes inv: "rx_inv (r, ws)" and room: "room r" and clear: "bzm_reactor_clear_work r c = (ok, r', c')"
  shows "rx_inv (r', if (re_flush_pending r \<or> has_active_assignment r) \<and> ok then [] else ws)"
proof (cases "re_flush_pending r \<or> has_active_assignment r")
  case True
  obtain ok1 r1 c1 where b: "bzm_reactor_begin_flush r c = (ok1, r1, c1)" by (cases "bzm_reactor_begin_flush r c")
  have base: "base_inv r" using inv by (simp add: rx_inv_def)
  note f = begin_flush_inv[OF base room_less[OF room] b]
  show ?thesis
    using True clear b f finish_flush_inv[of r1]
    by (auto simp: bzm_reactor_clear_work_def bzm_reactor_is_flush_pending_def rx_inv_def Let_def split: if_splits)
next
  case False
  then have live: "base_inv r" "live_inv r ws" using inv by (auto simp: rx_inv_def)
  note idle = idle_fresh[OF live] 
  have retired: "\<not> retired_bit (re_retired_sequences r) e s" if "unat e < 236" for e s
    using live(2) idle(2) that False by (fastforce simp: live_inv_def retired_ok_def)
  have st: "store_inv (asic_job_store_invalidate_all (re_job_store r))"
    using live(1) store_invalidates[OF _ room_less[OF room]] by (simp add: base_inv_def)
  have "live_inv r' []"
    by (rule fresh_live)
      (use False clear live(1) retired in
        \<open>auto simp: bzm_reactor_clear_work_def base_inv_def engines_def seqn_def has_active_assignment_def\<close>)
  moreover have "base_inv r'"
    using False clear live(1) st by (auto simp: bzm_reactor_clear_work_def base_inv_def engines_def)
  ultimately show ?thesis using False idle(1) by (simp add: rx_inv_def)
qed

lemma start_reached:
  assumes "rx_start s"
  shows "rx_inv s"
proof -
  obtain r where s: "s = (r, [])" using assms by (cases s) (auto simp: rx_start_def)
  obtain store config transport where "reachable js_start js_step store"
      and init: "bzm_reactor_init (Some store) (Some config) (Some transport) = Some r"
    using assms s by (auto simp: rx_start_def)
  then have st: "store_inv store" using store.reachable_inv by blast
  have base: "base_inv r"
    using init st by (auto simp: bzm_reactor_init_def base_inv_def engines_def not_less word_le_nat_alt unat_gt_0 split: if_splits)
  have "live_inv r []"
    by (rule fresh_live)
      (use init nothing_retired base in \<open>auto simp: bzm_reactor_init_def seqn_def zero_assignment_def base_inv_def split: if_splits\<close>)
  then show ?thesis using base s by (simp add: rx_inv_def)
qed

interpretation rx: invariant_system rx_start rx_step rx_inv
proof
  fix s t :: "'a bzm_reactor_t \<times> written list"
  show "rx_start s \<Longrightarrow> rx_inv s" by (rule start_reached)
  assume inv: "rx_inv s" and "rx_step s t"
  from this(2) show "rx_inv t"
  proof cases
    case (begin_flush r c ok r' c' ws)
    then show ?thesis using begin_flush_inv[of r c ok r' c'] room_less[of r] inv by (simp add: rx_inv_def)
  next
    case (finish_flush r ws)
    then show ?thesis using finish_flush_inv[of r] inv
      by (cases "re_flush_pending r \<and> re_flush_complete r") (auto simp: rx_inv_def bzm_reactor_finish_flush_def)
  next
    case (assign r template c w r' c' ws)
    then show ?thesis using commit_reached[of r ws] inv by simp
  next
    case (assign_failed r template_opt c st r' c' ws)
    then show ?thesis using failed_reached[of r ws] inv by simp
  next
    case (invalidate r ws)
    then show ?thesis using invalidate_reached[of r ws] inv by simp
  next
    case (clear r c ok r' c' ws)
    then show ?thesis using clear_reached[of r ws] inv by simp
  next
    case (store r s ws)
    then show ?thesis using store_change[of r ws] inv by simp
  qed
qed

section \<open>Properties\<close>

text \<open>The micro job of a reported sequence identifier.\<close>

definition raw_micro_job :: "'c bzm_reactor_t \<Rightarrow> bzm_raw_result_t \<Rightarrow> u8" where
  "raw_micro_job r raw = (if rg_enhanced_mode (re_config r) then raw_sequence_id raw AND 0x03 else 0)"

text \<open>A work was written under the identity a result reports.\<close>

definition answers :: "bzm_raw_result_t \<Rightarrow> bzm_work_t \<Rightarrow> nat \<Rightarrow> bool" where
  "answers raw w i \<longleftrightarrow>
     wk_engine_id w = raw_engine_id raw \<and> i < wk_midstate_count w \<and> sequence_byte w i = raw_sequence_id raw"

lemma proper_count: "proper_work cfg w \<Longrightarrow> wk_midstate_count w = (if rg_enhanced_mode cfg then 4 else 1)"
  using work_build_fields(5)
  by (fastforce simp: proper_work_def bzm_build_versions_def Let_def split: if_splits)

text \<open>An identity below the sequence space is read back from the sequence byte.\<close>

lemma sequence_byte_inverse:
  assumes "unat q < 63" "i < 4"
  shows "push_bit 2 q OR of_nat i = (s :: u8) \<longleftrightarrow> drop_bit 2 s = q \<and> unat (s AND 3) = i"
proof -
  have "\<forall>j\<in>set [0..<63]. \<forall>i\<in>set [0..<4]. drop_bit 2 (push_bit 2 (of_nat j) OR of_nat i :: u8) = of_nat j \<and>
      unat ((push_bit 2 (of_nat j) OR of_nat i :: u8) AND 3) = i"
    by code_simp
  then have "drop_bit 2 (push_bit 2 (of_nat (unat q)) OR of_nat i :: u8) = of_nat (unat q) \<and>
      unat ((push_bit 2 (of_nat (unat q)) OR of_nat i :: u8) AND 3) = i"
    using assms by (metis atLeastLessThan_iff set_upt zero_le)
  then have "drop_bit 2 (push_bit 2 q OR of_nat i :: u8) = q \<and> unat ((push_bit 2 q OR of_nat i :: u8) AND 3) = i"
    by simp
  moreover have "push_bit 2 (drop_bit 2 s) OR of_nat (unat (s AND 3)) = s"
  proof -
    have "\<forall>j\<in>set [0..<256]. push_bit 2 (drop_bit 2 (of_nat j)) OR (of_nat j AND 3) = (of_nat j :: u8)" by code_simp
    then have "push_bit 2 (drop_bit 2 (of_nat (unat s))) OR (of_nat (unat s) AND 3) = (of_nat (unat s) :: u8)"
      by (rule bspec[where x = "unat s"]) (use unsigned_less[of s, where ?'a = nat] in simp)
    then show ?thesis by simp
  qed
  ultimately show ?thesis by metis
qed

lemma answers_iff:
  assumes "live_inv r ws" "(w, ctx) \<in> set ws"
  shows "answers raw w i \<longleftrightarrow> identity w = (raw_engine_id raw, raw_sequence r raw) \<and> i = unat (raw_micro_job r raw)"
proof -
  have p: "proper_work (re_config r) w" and l: "log_ok r ws"
    using assms by (auto simp: live_inv_def entries_ok_def)
  note n = proper_count[OF p]
  have "identity w \<in> set (map (identity \<circ> fst) ws)" using assms(2) by force
  then obtain k where "k < engines r" "unat (wk_logical_sequence w) < seqn r k"
    using l unfolding log_ok_def identity_def by blast
  then have q: "unat (wk_logical_sequence w) < unat (sequence_space r)" using l unfolding log_ok_def by fastforce
  show ?thesis
  proof (cases "rg_enhanced_mode (re_config r)")
    case True
    then have "unat (wk_logical_sequence w) < 63" using q by (simp add: sequence_space_def)
    moreover have "unat (raw_sequence_id raw AND 3) < 4"
      using word_and_le1[of "raw_sequence_id raw" 3] by (simp add: word_le_nat_alt)
    ultimately show ?thesis
      using n True sequence_byte_inverse[of "wk_logical_sequence w" i "raw_sequence_id raw"]
      by (auto simp: answers_def identity_def sequence_byte_def raw_sequence_def raw_micro_job_def)
  qed (use n in \<open>auto simp: answers_def identity_def sequence_byte_def raw_sequence_def raw_micro_job_def\<close>)
qed

lemma identity_unique: "log_ok r ws \<Longrightarrow> x \<in> set ws \<Longrightarrow> y \<in> set ws \<Longrightarrow> identity (fst x) = identity (fst y) \<Longrightarrow> x = y"
  by (auto simp: log_ok_def distinct_map inj_on_def)

text \<open>What the tables say about a written work.\<close>

lemma found_assignment:
  assumes inv: "rx_inv (r, ws)" and up: "\<not> re_flush_pending r" and a: "find_assignment r e q = Some a"
  obtains w ctx job k where "(w, ctx) \<in> set ws" "records (re_config r) a w" "identity w = (e, q)"
    "ba_state a = BZM_ENGINE_ASSIGNED" "ba_logical_engine_id a = topo k" "e = phys k" "k < engines r"
    "ba_logical_sequence a = q" "proper_work (re_config r) w" "aw_template (wk_source w) = Some job"
    "remembers (re_job_store r) (ba_handle a) (snd job, ctx)"
proof -
  have live: "live_inv r ws" and base: "base_inv r" using inv up by (auto simp: rx_inv_def)
  have a': "a \<in> set (re_assignments r) \<union> set (re_previous_assignments r)" "ba_active a" "ba_engine_id a = e"
      "ba_logical_sequence a = q"
    using a by (auto simp: find_assignment_def holds_work_def find_Some_iff split: option.splits)
  then obtain w ctx where w: "(w, ctx) \<in> set ws" "records (re_config r) a w" "ba_state a = BZM_ENGINE_ASSIGNED"
    using live unfolding live_inv_def records_ok_def by blast
  obtain job where job: "proper_work (re_config r) w" "aw_template (wk_source w) = Some job"
      "remembers (re_job_store r) (ba_handle a) (snd job, ctx)"
    using live w(1,2) by (fastforce simp: live_inv_def entries_ok_def records_def)
  obtain i where i: "i < 256" "a = re_assignments r ! i \<or> a = re_previous_assignments r ! i"
    using a'(1) base by (auto simp: in_set_conv_nth base_inv_def)
  have s: "slots_ok r" using live by (simp add: live_inv_def)
  obtain k where "k < engines r" "ba_engine_id a = phys k" "ba_logical_engine_id a = topo k"
    using slots_okD[OF s i(1)] i(2) a'(2) by metis
  then show thesis using that[OF w(1,2) _ w(3) _ _ _ a'(4) job] records_identity[OF w(2)] a' by simp
qed

lemma map_result_eq:
  assumes "\<not> re_flush_pending r" "\<not> re_results_quarantined r" "bzm_raw_result_has_valid_nonce (Some raw)"
    and "bzm_engine_logical_id (raw_engine_id raw) = Some (ba_logical_engine_id a)"
    and "find_assignment r (raw_engine_id raw) (raw_sequence r raw) = Some a" "ba_state a = BZM_ENGINE_ASSIGNED"
    and "ba_logical_sequence a = raw_sequence r raw" "unat (raw_micro_job r raw) < ba_version_count a"
  shows "bzm_reactor_map_result r raw =
    (if ba_epoch a \<noteq> re_epoch r \<or> raw_time raw > ba_timestamp_count a then None
     else
       (case bzm_topology_asic_index (raw_asic_id raw) of None \<Rightarrow> None
        | Some asic_index \<Rightarrow>
            map_option (\<lambda>(job, context). ASIC_EVENT_SHARE_RESULT \<lparr> rs_job_valid = True, rs_job = job, rs_context = context,
                rs_work_handle = ba_handle a, rs_nonce = bswap32 (raw_nonce raw - ba_nonce_offset a),
                rs_final_ntime = ba_base_ntime a + ucast (ba_timestamp_count a - raw_time raw),
                rs_final_version = ba_versions a ! unat (raw_micro_job r raw),
                rs_version_bits = ba_versions a ! unat (raw_micro_job r raw) XOR ba_base_version a,
                rs_timestamp_us = raw_timestamp_us raw, rs_asic_index = of_nat asic_index,
                rs_core_id = 0, rs_small_core_id = 0, rs_engine_id = ba_logical_engine_id a,
                rs_sequence_id = ba_logical_sequence a, rs_micro_job_id = raw_micro_job r raw, rs_generation = ba_epoch a \<rparr>)
              (asic_job_store_snapshot_with_context (re_job_store r) (ba_handle a))))"
  using assms
  by (simp add: bzm_reactor_map_result_def Let_def raw_micro_job_def[symmetric] not_le not_less split: option.split)

text \<open>A reported identity that is in the tables: its work, and the answer to the result.\<close>

lemma micro_job_bound: "proper_work (re_config r) w \<Longrightarrow> unat (raw_micro_job r raw) < wk_midstate_count w"
  using word_and_le1[of "raw_sequence_id raw" 3] by (auto simp: proper_count raw_micro_job_def word_le_nat_alt)

lemma found_result:
  assumes inv: "rx_inv (r, ws)" and up: "\<not> re_flush_pending r" "\<not> re_results_quarantined r"
    and valid: "bzm_raw_result_has_valid_nonce (Some raw)"
    and a: "find_assignment r (raw_engine_id raw) (raw_sequence r raw) = Some a"
  obtains w ctx job where "(w, ctx) \<in> set ws" "records (re_config r) a w" "proper_work (re_config r) w"
    "identity w = (raw_engine_id raw, raw_sequence r raw)" "aw_template (wk_source w) = Some job"
    "remembers (re_job_store r) (ba_handle a) (snd job, ctx)" "ba_state a = BZM_ENGINE_ASSIGNED"
    "bzm_engine_logical_id (raw_engine_id raw) = Some (ba_logical_engine_id a)"
    "ba_logical_sequence a = raw_sequence r raw" "unat (raw_micro_job r raw) < ba_version_count a"
proof -
  have base: "base_inv r" using inv by (simp add: rx_inv_def)
  obtain w ctx job k where w: "(w, ctx) \<in> set ws" "records (re_config r) a w"
      "identity w = (raw_engine_id raw, raw_sequence r raw)" "ba_state a = BZM_ENGINE_ASSIGNED"
      "ba_logical_engine_id a = topo k" "raw_engine_id raw = phys k"
      "k < engines r" "ba_logical_sequence a = raw_sequence r raw" "proper_work (re_config r) w"
      "aw_template (wk_source w) = Some job" "remembers (re_job_store r) (ba_handle a) (snd job, ctx)"
    by (rule found_assignment[OF inv up(1) a])
  have "bzm_engine_logical_id (raw_engine_id raw) = Some (ba_logical_engine_id a)"
    using schedule(2)[of k] w(5,6,7) base by (simp add: base_inv_def)
  moreover have "unat (raw_micro_job r raw) < ba_version_count a"
    using micro_job_bound[OF w(9)] w(2) by (simp add: records_def)
  ultimately show thesis using that[OF w(1,2,9,3,10,11,4) _ w(8)] by simp
qed

lemma logical_bound: "bzm_engine_logical_id p = Some e \<Longrightarrow> unat e < 236"
  using located(1) by (auto simp: bzm_engine_logical_id_def bzm_topology_from_physical_id_def Let_def split: if_splits)

text \<open>The two latest works of an engine are in the tables.\<close>

lemma find_assignment_None:
  assumes base: "base_inv r" and slots: "slots_ok r" and k: "k < engines r" and q: "unat q < seqn r k"
    and none: "find_assignment r (phys k) q = None"
  shows "unat q + 2 < seqn r k"
proof (rule ccontr)
  assume recent: "\<not> unat q + 2 < seqn r k"
  obtain i where i: "i < 256" "ba_active (re_assignments r ! i)" "ba_engine_id (re_assignments r ! i) = phys k"
      "2 \<le> seqn r k \<longrightarrow> ba_active (re_previous_assignments r ! i)"
    using slots_ok_engine[OF slots k] q by auto
  obtain j where "j < engines r" "ba_engine_id (re_assignments r ! i) = phys j"
      "unat (ba_logical_sequence (re_assignments r ! i)) + 1 = seqn r j"
    using slots_okD(1)[OF slots i(1,2)] by blast
  then have s: "unat (ba_logical_sequence (re_assignments r ! i)) + 1 = seqn r k"
    using i(3) phys_inj[of j k] k base by (simp add: base_inv_def)
  have "\<not> holds_work (phys k) q (re_assignments r ! i)" "\<not> holds_work (phys k) q (re_previous_assignments r ! i)"
    using none i(1) base nth_mem[of i "re_assignments r"] nth_mem[of i "re_previous_assignments r"]
    by (auto simp: find_assignment_def find_None_iff base_inv_def split: option.splits)
  then show False
    using i slots_okD(2)[OF slots i(1)] s q recent by (auto simp: holds_work_def word_unat_eq_iff)
qed

lemma mapped_is_found:
  assumes "base_inv r" "bzm_reactor_map_result r raw = Some ev"
  obtains a where "\<not> re_flush_pending r" "\<not> re_results_quarantined r" "bzm_raw_result_has_valid_nonce (Some raw)"
    "find_assignment r (raw_engine_id raw) (raw_sequence r raw) = Some a"
proof -
  have "\<not> re_previous_batch_complete r" using assms(1) by (simp add: base_inv_def)
  then show thesis
    using assms(2) that by (auto simp: bzm_reactor_map_result_def Let_def split: option.splits if_splits)
qed

text \<open>The work built for a micro job hashes the header of its version.\<close>

lemma proper_fields:
  assumes "proper_work cfg w" "aw_template (wk_source w) = Some job"
  shows "wk_start_ntime w = aj_ntime (snd job)" "wk_timestamp_count w = rg_timestamp_count cfg"
    "i < wk_midstate_count w \<Longrightarrow> wk_midstates w ! i = work_midstate (snd job) (wk_versions w ! i)"
proof -
  obtain w0 where b: "bzm_work_build (Some (wk_source w)) (wk_engine_id w) (wk_logical_sequence w) (rg_timestamp_count cfg)
      (rg_lead_zeros cfg) (rg_enhanced_mode cfg) = Some w0" and w: "w = w0\<lparr> wk_starting_nonce := 0, wk_end_nonce := UINT32_MAX \<rparr>"
    using assms(1) by (auto simp: proper_work_def)
  note f = work_build_fields[OF b]
  have eq: "wk_start_ntime w = wk_start_ntime w0" "wk_timestamp_count w = wk_timestamp_count w0"
      "wk_midstates w = wk_midstates w0" "wk_midstate_count w = wk_midstate_count w0" "wk_versions w = wk_versions w0"
    by (subst w, simp)+
  show "wk_start_ntime w = aj_ntime (snd job)" "wk_timestamp_count w = rg_timestamp_count cfg"
    using f(4,5) assms(2) by (auto simp: eq)
  have "length (wk_versions w0) = 4" "wk_midstate_count w0 \<le> 4"
    using f(5) assms(2) by (auto simp: bzm_build_versions_def Let_def split: if_splits)
  then show "i < wk_midstate_count w \<Longrightarrow> wk_midstates w ! i = work_midstate (snd job) (wk_versions w ! i)"
    using f(5) assms(2) by (auto simp: eq nth_append)
qed

text \<open>A reactor for the witnesses, its first work, and a result of that work.\<close>

definition demo_rconfig :: bzm_reactor_config_t where
  "demo_rconfig = \<lparr> rg_engine_count = 236, rg_timestamp_count = 0x3c, rg_lead_zeros = 0x2b, rg_nonce_offset = 0x4c,
     rg_enhanced_mode = True \<rparr>"

definition quiet_transport :: "unit bzm_transport_ops_t" where
  "quiet_transport = \<lparr> op_write_work = (\<lambda>_ c. (True, c)), op_dispatch_checkpoint = None, op_flush = None \<rparr>"

definition demo_rstore :: "cfloat asic_job_store_t" where
  "demo_rstore = snd (asic_job_store_init True True True)"

definition demo_reactor :: "unit bzm_reactor_t" where
  "demo_reactor = the (bzm_reactor_init (Some demo_rstore) (Some demo_rconfig) (Some quiet_transport))"

definition demo_template :: "cfloat job_ref" where
  "demo_template = (3, rs_job demo_result)"

definition demo_raw :: bzm_raw_result_t where
  "demo_raw = \<lparr> raw_asic_id = bzm_asic_wire_ids ! 0, raw_engine_id = phys 0, raw_status = 8, raw_nonce = 5,
     raw_sequence_id = 2, raw_time = 10, raw_timestamp_us = 0 \<rparr>"

lemma demo_rstore_ok: "reachable js_start js_step demo_rstore" "js_next_generation demo_rstore = 1"
  by (auto intro!: reachable.start
      simp: js_start_def demo_rstore_def asic_job_store_init_def asic_job_store_init_with_caps_def)

lemma demo_reactor_init: "bzm_reactor_init (Some demo_rstore) (Some demo_rconfig) (Some quiet_transport) = Some demo_reactor"
  by (simp add: demo_reactor_def bzm_reactor_init_def demo_rconfig_def)

lemma replicate_256: "replicate 256 x = x # replicate 255 x"
  by (simp add: replicate_Suc[symmetric] del: replicate_Suc)

lemma demo_reactor_fields: "re_job_store demo_reactor = demo_rstore" "re_config demo_reactor = demo_rconfig"
  "re_transport demo_reactor = quiet_transport" "re_assignments demo_reactor = zero_assignment # replicate 255 zero_assignment"
  "re_previous_assignments demo_reactor = zero_assignment # replicate 255 zero_assignment"
  "re_next_engine_sequence demo_reactor = 0 # replicate 255 0" "re_next_engine demo_reactor = 0" "re_epoch demo_reactor = 1"
  "\<not> re_flush_pending demo_reactor" "\<not> re_results_quarantined demo_reactor" "\<not> re_previous_batch_complete demo_reactor"
  by (simp_all add: demo_reactor_def bzm_reactor_init_def demo_rconfig_def replicate_256)

lemma demo_reactor_reachable: "reachable rx_start rx_step (demo_reactor, [])"
  by (rule reachable.start) (use demo_rstore_ok demo_reactor_init in \<open>auto simp: rx_start_def\<close>)

lemma demo_assigned:
  obtains w r' where "bzm_reactor_assign demo_reactor (Some demo_template) () = (BZM_ASSIGN_OK, Some w, r', ())"
    "bzm_reactor_map_result r' demo_raw \<noteq> None"
proof -
  have ok: "store_ok demo_rstore"
    using store.reachable_inv[OF demo_rstore_ok(1)] demo_rstore_ok(2) by (simp add: store_ok_def)
  then obtain h t where p: "asic_job_store_store_generated demo_rstore demo_template = Some (h, t)"
    by (auto simp: asic_job_store_store_generated_def Let_def store_ok_def store_inv_def)
  have look: "asic_job_store_snapshot_with_context t h = Some (snd demo_template, context_for demo_rstore demo_template)"
    using jobs.look_put_same[OF ok p] .
  then have h: "h \<noteq> ASIC_WORK_HANDLE_INVALID"
    by (auto simp: asic_job_store_snapshot_with_context_def find_entry_def split: option.splits)
  obtain e where e: "scheduled_engine_at 0 = Some e" "el_physical_id e = phys 0" "el_topology_index e = topo 0"
    using schedule(1)[of 0] by auto
  have id: "bzm_engine_logical_id (phys 0) = Some (topo 0)" by (rule schedule(2)) simp
  have "phys 0 < BZM_MAX_ENGINE_COUNT" by code_simp
  then have "bzm_work_build (Some \<lparr> aw_handle = h, aw_template = Some demo_template \<rparr>) (phys 0) 0 0x3c 0x2b True \<noteq> None"
    using h by (simp add: bzm_work_build_def demo_template_def not_le split: prod.split)
  then obtain w0 where b: "bzm_work_build (Some \<lparr> aw_handle = h, aw_template = Some demo_template \<rparr>) (phys 0) 0 0x3c 0x2b True = Some w0"
    by blast
  note f = work_build_fields[OF b]
  have n: "wk_midstate_count w0 = 4"
    using f(5) by (auto simp: bzm_build_versions_def Let_def split: if_splits)
  define w where "w = w0\<lparr> wk_starting_nonce := 0, wk_end_nonce := UINT32_MAX \<rparr>"
  define a where "a = assigned (demo_reactor\<lparr> re_job_store := t \<rparr>) e 0 h (aj_version (snd demo_template)) w"
  define r' where "r' = commit_assign (demo_reactor\<lparr> re_job_store := t \<rparr>) 0 a"
  have z: "\<not> ba_active zero_assignment" by (simp add: zero_assignment_def)
  have "find_index (\<lambda>a. ba_active a \<and> ba_engine_id a = phys 0) (replicate 255 zero_assignment) = None"
    by (simp add: find_index_None z)
  then have assign: "bzm_reactor_assign demo_reactor (Some demo_template) () = (BZM_ASSIGN_OK, Some w, r', ())"
    using p e b z unfolding bzm_reactor_assign_def Let_def
    by (simp add: demo_reactor_fields demo_rconfig_def sequence_space_def find_engine_assignment_def free_assignment_def
        send_engine_def quiet_transport_def w_def r'_def a_def)
  have a: "ba_active a" "ba_engine_id a = phys 0" "ba_logical_engine_id a = topo 0" "ba_logical_sequence a = 0" "ba_handle a = h"
      "ba_state a = BZM_ENGINE_ASSIGNED" "ba_epoch a = 1" "ba_version_count a = 4" "ba_timestamp_count a = 0x3c"
    using e f n by (simp_all add: a_def assigned_def w_def demo_reactor_fields)
  have r': "re_assignments r' ! 0 = a" "re_assignments r' = a # replicate 255 zero_assignment" "re_job_store r' = t" "re_epoch r' = 1"
      "re_config r' = demo_rconfig" "\<not> re_flush_pending r'" "\<not> re_results_quarantined r'"
    using z by (simp_all add: r'_def commit_assign_def Let_def demo_reactor_fields)
  have raw: "raw_sequence r' demo_raw = 0" "raw_micro_job r' demo_raw = 2" "bzm_raw_result_has_valid_nonce (Some demo_raw)"
      "bzm_topology_asic_index (raw_asic_id demo_raw) = Some 0"
    by (simp_all add: raw_sequence_def raw_micro_job_def r' demo_rconfig_def demo_raw_def bzm_raw_result_has_valid_nonce_def
        bzm_topology_asic_index_def bzm_asic_wire_ids_def)
  have found: "find_assignment r' (raw_engine_id demo_raw) (raw_sequence r' demo_raw) = Some a"
    using a unfolding raw(1) by (simp add: find_assignment_def r'(2) holds_work_def demo_raw_def)
  have "bzm_reactor_map_result r' demo_raw \<noteq> None"
    using map_result_eq[of r' demo_raw a] r' raw found a id look by (simp add: demo_raw_def)
  then show thesis using that assign by blast
qed

lemma demo_assigned_reachable:
  obtains r' :: "unit bzm_reactor_t" and w where "reachable rx_start rx_step (r', [(w, context_for demo_rstore demo_template)])"
    "bzm_reactor_map_result r' demo_raw \<noteq> None"
proof -
  obtain w r' where r': "bzm_reactor_assign demo_reactor (Some demo_template) () = (BZM_ASSIGN_OK, Some w, r', ())"
    "bzm_reactor_map_result r' demo_raw \<noteq> None"
    by (rule demo_assigned)
  have "room demo_reactor" by (simp add: room_def demo_reactor_fields demo_rstore_ok)
  from reachable.step[OF demo_reactor_reachable rx_step.assign[OF this r'(1)]]
  show thesis using that[of r' w] r'(2) by (simp add: demo_reactor_fields)
qed

text \<open>C3. A result is attributed to the work that produced it, and to no other: in every state the reactor reaches
  (while its store is below its last generations) a mapped result reports the identity of exactly one
  work and micro job written since the last flush, and the event carries that work's job and submission
  context as they were stored, the nonce with the hardware's byte order and offset undone, the time of
  the timestamp counter within the configured range and the version whose header's midstate was
  written for that micro job.\<close>

theorem result_attributed:
  assumes "reachable rx_start rx_step (r, ws)" and "bzm_reactor_map_result r raw = Some ev"
  shows "\<exists>w ctx job i res. ev = ASIC_EVENT_SHARE_RESULT res \<and> (w, ctx) \<in> set ws \<and> answers raw w i \<and>
    (\<forall>v c j. (v, c) \<in> set ws \<and> answers raw v j \<longrightarrow> v = w \<and> c = ctx \<and> j = i) \<and>
    aw_template (wk_source w) = Some job \<and> rs_job_valid res \<and> rs_job res = snd job \<and> rs_context res = ctx \<and>
    rs_nonce res = bswap32 (raw_nonce raw - rg_nonce_offset (re_config r)) \<and>
    raw_time raw \<le> rg_timestamp_count (re_config r) \<and>
    rs_final_ntime res = aj_ntime (snd job) + ucast (rg_timestamp_count (re_config r) - raw_time raw) \<and>
    wk_midstates w ! i = work_midstate (snd job) (rs_final_version res) \<and>
    rs_version_bits res = rs_final_version res XOR aj_version (snd job)"
proof -
  have inv: "rx_inv (r, ws)" using rx.reachable_inv[OF assms(1)] .
  then have base: "base_inv r" by (simp add: rx_inv_def)
  obtain a where up: "\<not> re_flush_pending r" "\<not> re_results_quarantined r" and valid: "bzm_raw_result_has_valid_nonce (Some raw)"
      and a: "find_assignment r (raw_engine_id raw) (raw_sequence r raw) = Some a"
    by (rule mapped_is_found[OF base assms(2)])
  obtain w ctx job where w: "(w, ctx) \<in> set ws" "records (re_config r) a w" "proper_work (re_config r) w"
      "identity w = (raw_engine_id raw, raw_sequence r raw)" "aw_template (wk_source w) = Some job"
      "remembers (re_job_store r) (ba_handle a) (snd job, ctx)" "ba_state a = BZM_ENGINE_ASSIGNED"
      "bzm_engine_logical_id (raw_engine_id raw) = Some (ba_logical_engine_id a)"
      "ba_logical_sequence a = raw_sequence r raw" "unat (raw_micro_job r raw) < ba_version_count a"
    by (rule found_result[OF inv up valid a])
  have live: "live_inv r ws" using inv up by (simp add: rx_inv_def)
  then have log: "log_ok r ws" by (simp add: live_inv_def)
  note eq = map_result_eq[OF up valid w(8) a w(7,9,10)]
  obtain n where n: "raw_time raw \<le> ba_timestamp_count a" "bzm_topology_asic_index (raw_asic_id raw) = Some n"
      and snap: "asic_job_store_snapshot_with_context (re_job_store r) (ba_handle a) = Some (snd job, ctx)"
    using assms(2) w(6) unfolding eq by (auto simp: remembers_def split: if_splits option.splits)
  have only: "v = w \<and> c = ctx \<and> j = unat (raw_micro_job r raw)" if "(v, c) \<in> set ws \<and> answers raw v j" for v c j
    using that answers_iff[OF live, of v c raw j] w(1,4) identity_unique[OF log, of "(v, c)" "(w, ctx)"] by auto
  have here: "answers raw w (unat (raw_micro_job r raw))" using answers_iff[OF live w(1)] w(4) by simp
  note f = proper_fields[OF w(3,5)]
  have "unat (raw_micro_job r raw) < wk_midstate_count w" using here by (simp add: answers_def)
  note mid = f(3)[OF this]
  have r: "ba_timestamp_count a = rg_timestamp_count (re_config r)" "ba_base_ntime a = aj_ntime (snd job)"
      "ba_nonce_offset a = rg_nonce_offset (re_config r)" "ba_versions a = wk_versions w" "ba_base_version a = aj_version (snd job)"
    using w(2,5) f(1,2) by (auto simp: records_def)
  from assms(2) obtain res where res: "ev = ASIC_EVENT_SHARE_RESULT res" "rs_job_valid res" "rs_job res = snd job"
      "rs_context res = ctx" "rs_nonce res = bswap32 (raw_nonce raw - rg_nonce_offset (re_config r))"
      "rs_final_ntime res = aj_ntime (snd job) + ucast (rg_timestamp_count (re_config r) - raw_time raw)"
      "rs_final_version res = wk_versions w ! unat (raw_micro_job r raw)"
      "rs_version_bits res = rs_final_version res XOR aj_version (snd job)"
    unfolding eq n(2) snap r by (auto split: if_splits)
  have mid': "wk_midstates w ! unat (raw_micro_job r raw) = work_midstate (snd job) (rs_final_version res)"
    using mid res(7) by simp
  show ?thesis
  proof (intro exI conjI allI impI)
    show "v = w" "c = ctx" "j = unat (raw_micro_job r raw)" if "(v, c) \<in> set ws \<and> answers raw v j" for v c j
      using only[OF that] by simp_all
    show "raw_time raw \<le> rg_timestamp_count (re_config r)" using n(1) by (simp add: r(1))
  qed (rule res(1) w(1) here w(5) res(2-6) mid' res(8) | assumption)+
qed

theorem result_attributed_witness:
  "\<exists>(r :: unit bzm_reactor_t) ws w ctx job i res. reachable rx_start rx_step (r, ws) \<and>
     bzm_reactor_map_result r demo_raw = Some (ASIC_EVENT_SHARE_RESULT res) \<and> (w, ctx) \<in> set ws \<and>
     answers demo_raw w i \<and> aw_template (wk_source w) = Some job \<and> rs_job res = snd job \<and> rs_context res = ctx"
proof -
  obtain r w where r: "reachable rx_start rx_step (r :: unit bzm_reactor_t, [(w, context_for demo_rstore demo_template)])"
      "bzm_reactor_map_result r demo_raw \<noteq> None"
    by (rule demo_assigned_reachable)
  then obtain ev where ev: "bzm_reactor_map_result r demo_raw = Some ev" by blast
  from result_attributed[OF r(1) ev] show ?thesis using r(1) ev by blast
qed

text \<open>C14. Late results are told from foreign ones: in every state the reactor reaches, outside flushes and
  quarantine, a valid result of a configured ASIC within the timestamp range is mapped or stale exactly
  when a work was written under the identity it reports since the last flush; a result nobody asked for
  is neither.\<close>

theorem results_accounted:
  assumes "reachable rx_start rx_step (r, ws)" and "\<not> re_flush_pending r" and "\<not> re_results_quarantined r"
    and "bzm_raw_result_has_valid_nonce (Some raw)" and "bzm_topology_asic_index (raw_asic_id raw) \<noteq> None"
    and "raw_time raw \<le> rg_timestamp_count (re_config r)"
  shows "(bzm_reactor_map_result r raw \<noteq> None \<or> bzm_reactor_result_is_stale r raw) \<longleftrightarrow>
    (\<exists>(w, ctx)\<in>set ws. \<exists>i. answers raw w i)"
proof -
  have inv: "rx_inv (r, ws)" using rx.reachable_inv[OF assms(1)] .
  then have base: "base_inv r" and live: "live_inv r ws" using assms(2) by (auto simp: rx_inv_def)
  then have log: "log_ok r ws" and slots: "slots_ok r" and ret: "retired_ok r" by (auto simp: live_inv_def)
  have "(\<exists>(w, ctx)\<in>set ws. \<exists>i. answers raw w i) \<longleftrightarrow>
      (raw_engine_id raw, raw_sequence r raw) \<in> set (map (identity \<circ> fst) ws)"
  proof -
    have "(\<exists>i. answers raw w i) \<longleftrightarrow> identity w = (raw_engine_id raw, raw_sequence r raw)" if "(w, ctx) \<in> set ws" for w ctx
      using answers_iff[OF live that] by blast
    then show ?thesis by (force simp: image_iff split: prod.splits)
  qed
  also have "\<dots> \<longleftrightarrow> (\<exists>k<engines r. raw_engine_id raw = phys k \<and> unat (raw_sequence r raw) < seqn r k)"
    using log by (simp add: log_ok_def)
  finally have written: "(\<exists>(w, ctx)\<in>set ws. \<exists>i. answers raw w i) \<longleftrightarrow>
      (\<exists>k<engines r. raw_engine_id raw = phys k \<and> unat (raw_sequence r raw) < seqn r k)" .
  show ?thesis
  proof (cases "find_assignment r (raw_engine_id raw) (raw_sequence r raw)")
    case (Some a)
    obtain w ctx job where w: "(w, ctx) \<in> set ws" "records (re_config r) a w" "proper_work (re_config r) w"
      "identity w = (raw_engine_id raw, raw_sequence r raw)" "aw_template (wk_source w) = Some job"
      "remembers (re_job_store r) (ba_handle a) (snd job, ctx)" "ba_state a = BZM_ENGINE_ASSIGNED"
      "bzm_engine_logical_id (raw_engine_id raw) = Some (ba_logical_engine_id a)"
      "ba_logical_sequence a = raw_sequence r raw" "unat (raw_micro_job r raw) < ba_version_count a"
      by (rule found_result[OF inv assms(2-4) Some])
    have "ba_timestamp_count a = rg_timestamp_count (re_config r)"
      using w(2) proper_fields(2)[OF w(3,5)] by (simp add: records_def)
    then have "bzm_reactor_map_result r raw \<noteq> None \<or> bzm_reactor_result_is_stale r raw"
      using map_result_eq[OF assms(2-4) w(8) Some w(7,9,10)] assms(4-6) w(8) Some
      by (auto simp: bzm_reactor_result_is_stale_def asic_job_store_contains_def asic_job_store_snapshot_with_context_def
          Let_def split: option.splits)
    moreover have "answers raw w (unat (raw_micro_job r raw))" using answers_iff[OF live w(1)] w(4) by simp
    ultimately show ?thesis using w(1) by blast
  next
    case None
    have "bzm_reactor_map_result r raw = None"
    proof (rule ccontr)
      assume "bzm_reactor_map_result r raw \<noteq> None"
      then obtain ev where "bzm_reactor_map_result r raw = Some ev" by blast
      from mapped_is_found[OF base this] show False using None by auto
    qed
    moreover have "bzm_reactor_result_is_stale r raw \<longleftrightarrow>
        (\<exists>k<engines r. raw_engine_id raw = phys k \<and> unat (raw_sequence r raw) < seqn r k)"
    proof
      assume "bzm_reactor_result_is_stale r raw"
      then obtain e where e: "bzm_engine_logical_id (raw_engine_id raw) = Some e"
          "retired_bit (re_retired_sequences r) e (raw_sequence r raw)"
        using None by (auto simp: bzm_reactor_result_is_stale_def Let_def split: option.splits if_splits)
      have "unat e < 236" using e(1) logical_bound by blast
      then obtain k where k: "k < engines r" "e = topo k" "unat (raw_sequence r raw) < seqn r k"
        using ret e(2) unfolding retired_ok_def by blast
      then have "raw_engine_id raw = phys k" using logical_inj[OF e(1)] schedule(2)[of k] base by (simp add: base_inv_def)
      then show "\<exists>k<engines r. raw_engine_id raw = phys k \<and> unat (raw_sequence r raw) < seqn r k" using k by blast
    next
      assume "\<exists>k<engines r. raw_engine_id raw = phys k \<and> unat (raw_sequence r raw) < seqn r k"
      then obtain k where k: "k < engines r" "raw_engine_id raw = phys k" "unat (raw_sequence r raw) < seqn r k" by blast
      have "unat (raw_sequence r raw) + 2 < seqn r k"
        using find_assignment_None[OF base slots k(1)] None k by simp
      then have "retired_bit (re_retired_sequences r) (topo k) (raw_sequence r raw)" using ret k(1) by (simp add: retired_ok_def)
      then show "bzm_reactor_result_is_stale r raw"
        using None assms(4,5) schedule(2)[of k] k(1,2) base
        by (simp add: bzm_reactor_result_is_stale_def Let_def base_inv_def)
    qed
    ultimately show ?thesis using written by simp
  qed
qed

theorem results_accounted_witness:
  "\<not> bzm_reactor_result_is_stale demo_reactor demo_raw \<and> bzm_reactor_map_result demo_reactor demo_raw = None"
proof -
  have "bzm_topology_asic_index (raw_asic_id demo_raw) \<noteq> None" "raw_time demo_raw \<le> rg_timestamp_count (re_config demo_reactor)"
      "bzm_raw_result_has_valid_nonce (Some demo_raw)"
    by (simp_all add: demo_raw_def demo_reactor_fields demo_rconfig_def bzm_raw_result_has_valid_nonce_def
        bzm_topology_asic_index_def bzm_asic_wire_ids_def)
  then show ?thesis
    using results_accounted[OF demo_reactor_reachable, of demo_raw] demo_reactor_fields by simp
qed

end
