(* ===== verification/Serial.thy ===== *)
theory Serial
  imports Bridge
begin

text \<open>
  The UART of the ASIC chain (\<open>components/asic/serial.c\<close>). The driver functions the file calls are
  parameters acting on a device state \<open>'w\<close>; debug printing is left out.
\<close>

abbreviation SERIAL_RX_BUFFER_BYTES :: nat where "SERIAL_RX_BUFFER_BYTES \<equiv> 32768"
abbreviation SERIAL_TX_BUFFER_BYTES :: nat where "SERIAL_TX_BUFFER_BYTES \<equiv> 2048"
abbreviation SERIAL_RX_FIFO_FULL_THRESHOLD :: nat where "SERIAL_RX_FIFO_FULL_THRESHOLD \<equiv> 32"

record 'w uart_driver =
  ud_param_config :: "'w \<Rightarrow> esp_err_t \<times> 'w"
  ud_set_pin :: "'w \<Rightarrow> esp_err_t \<times> 'w"
  ud_driver_install :: "nat \<Rightarrow> nat \<Rightarrow> 'w \<Rightarrow> esp_err_t \<times> 'w"
  ud_set_rx_full_threshold :: "nat \<Rightarrow> 'w \<Rightarrow> esp_err_t \<times> 'w"
  ud_driver_delete :: "'w \<Rightarrow> 'w"
  ud_is_driver_installed :: "'w \<Rightarrow> bool"
  ud_wait_tx_done :: "nat \<Rightarrow> 'w \<Rightarrow> esp_err_t \<times> 'w"
  ud_set_baudrate :: "int \<Rightarrow> 'w \<Rightarrow> esp_err_t \<times> 'w"
  ud_flush_input :: "'w \<Rightarrow> esp_err_t \<times> 'w"
  ud_flush :: "'w \<Rightarrow> 'w"
  ud_write_bytes :: "u8 list \<Rightarrow> 'w \<Rightarrow> int \<times> 'w"
  ud_read_bytes :: "nat \<Rightarrow> nat \<Rightarrow> 'w \<Rightarrow> u8 list option \<times> 'w"
  ud_timer :: "'w \<Rightarrow> int \<times> 'w"
  ud_delay :: "nat \<Rightarrow> 'w \<Rightarrow> 'w"
  ud_ms_to_ticks :: "nat \<Rightarrow> nat"
  ud_tick_period_ms :: nat

text \<open>Calls in order; the first error ends the sequence.\<close>

fun until_error :: "('w \<Rightarrow> esp_err_t \<times> 'w) list \<Rightarrow> 'w \<Rightarrow> esp_err_t \<times> 'w" where
  "until_error [] w = (ESP_OK, w)"
| "until_error (f # fs) w = (let (err, w) = f w in if err \<noteq> ESP_OK then (err, w) else until_error fs w)"

definition SERIAL_init :: "'w uart_driver \<Rightarrow> 'w \<Rightarrow> esp_err_t \<times> 'w" where
  "SERIAL_init ud =
     until_error [ud_param_config ud, ud_set_pin ud, ud_driver_install ud SERIAL_RX_BUFFER_BYTES SERIAL_TX_BUFFER_BYTES,
       \<lambda>w. (let (err, w) = ud_set_rx_full_threshold ud SERIAL_RX_FIFO_FULL_THRESHOLD w
            in if err \<noteq> ESP_OK then (err, ud_driver_delete ud w) else (ESP_OK, w))]"

definition SERIAL_is_initialized :: "'w uart_driver \<Rightarrow> 'w \<Rightarrow> bool" where
  "SERIAL_is_initialized ud w = ud_is_driver_installed ud w"

definition SERIAL_set_baud :: "'w uart_driver \<Rightarrow> int \<Rightarrow> 'w \<Rightarrow> esp_err_t \<times> 'w" where
  "SERIAL_set_baud ud baud = until_error [ud_wait_tx_done ud (1000 div ud_tick_period_ms ud), ud_set_baudrate ud baud]"

definition SERIAL_wait_tx_done :: "'w uart_driver \<Rightarrow> nat \<Rightarrow> 'w \<Rightarrow> esp_err_t \<times> 'w" where
  "SERIAL_wait_tx_done ud timeout_ms w =
     (if \<not> SERIAL_is_initialized ud w then (ESP_ERR_INVALID_STATE, w)
      else
        (let ticks = ud_ms_to_ticks ud timeout_ms
         in ud_wait_tx_done ud (if timeout_ms \<noteq> 0 \<and> ticks = 0 then 1 else ticks) w))"

definition SERIAL_ensure_initialized :: "'w uart_driver \<Rightarrow> int \<Rightarrow> 'w \<Rightarrow> esp_err_t \<times> 'w" where
  "SERIAL_ensure_initialized ud baud w =
     until_error [\<lambda>w. if \<not> SERIAL_is_initialized ud w then SERIAL_init ud w else (ESP_OK, w), SERIAL_set_baud ud baud] w"

definition SERIAL_prepare_session :: "'w uart_driver \<Rightarrow> int \<Rightarrow> 'w \<Rightarrow> esp_err_t \<times> 'w" where
  "SERIAL_prepare_session ud baud = until_error [SERIAL_ensure_initialized ud baud, ud_flush_input ud]"

definition SERIAL_send :: "'w uart_driver \<Rightarrow> u8 list \<Rightarrow> 'w \<Rightarrow> int \<times> 'w" where
  "SERIAL_send ud data w = ud_write_bytes ud data w"

definition timeout_ticks :: "'w uart_driver \<Rightarrow> nat \<Rightarrow> nat" where
  "timeout_ticks ud timeout_ms =
     (if timeout_ms = 0 then 0 else if ud_ms_to_ticks ud timeout_ms = 0 then 1 else ud_ms_to_ticks ud timeout_ms)"

text \<open>The result is the number of bytes as a 16-bit integer, and the bytes.\<close>

definition SERIAL_rx :: "'w uart_driver \<Rightarrow> nat \<Rightarrow> nat \<Rightarrow> 'w \<Rightarrow> (int \<times> u8 list) \<times> 'w" where
  "SERIAL_rx ud count timeout_ms w =
     (if count = 0 \<or> \<not> SERIAL_is_initialized ud w then ((-1, []), w)
      else
        (case ud_read_bytes ud count (timeout_ticks ud timeout_ms) w of
           (None, w) \<Rightarrow> ((-1, []), w)
         | (Some bytes, w) \<Rightarrow> ((sint (of_nat (length bytes) :: 16 word), bytes), w)))"

definition SERIAL_debug_rx :: "'w uart_driver \<Rightarrow> 'w \<Rightarrow> 'w" where
  "SERIAL_debug_rx ud w = snd (SERIAL_rx ud 100 20 w)"

definition SERIAL_clear_buffer :: "'w uart_driver \<Rightarrow> 'w \<Rightarrow> 'w" where
  "SERIAL_clear_buffer ud w = ud_flush ud w"

end
