(* ===== verification/SerialTransport.thy ===== *)
theory SerialTransport
  imports Transport Work Serial "HOL-Library.Monad_Syntax"
begin

text \<open>
  The serial transport of the ASIC chain (\<open>components/asic/bzm_transport.c\<close>): commands as 9-bit words,
  chain discovery, the division of the nonce range, the demultiplexing of received frames and the
  blocking operations on top of them. The lock is held by the whole operation. A transport that is
  NULL is refused by every operation and left out, and so are NULL output buffers; other pointers a
  function checks are options.
\<close>

section \<open>Model: wire format\<close>

text \<open>A 9-bit word is two bytes; \<open>None\<close> when the buffer is too small.\<close>

definition append_word :: "nat \<Rightarrow> u16 \<Rightarrow> u8 list \<Rightarrow> u8 list option" where
  "append_word capacity word encoded =
     (if length encoded + 2 > capacity then None
      else Some (encoded @ [ucast (word AND 0xff), ucast (drop_bit 8 word AND 0x01)]))"

fun append_words :: "nat \<Rightarrow> u16 list \<Rightarrow> u8 list \<Rightarrow> u8 list option" where
  "append_words capacity [] encoded = Some encoded"
| "append_words capacity (word # words) encoded =
     (case append_word capacity word encoded of None \<Rightarrow> None | Some encoded \<Rightarrow> append_words capacity words encoded)"

definition command_words :: "u16 \<Rightarrow> u8 \<Rightarrow> u16 \<Rightarrow> u8 \<Rightarrow> nat \<Rightarrow> u16 list" where
  "command_words opcode asic_id engine_id offset data_len =
     [0x100 OR ucast asic_id, opcode OR (drop_bit 8 engine_id AND 0x0f), engine_id AND 0xff, ucast offset,
      of_nat (data_len - 1)]"

text \<open>The encoded bytes; the empty list is the length 0 of a refusal.\<close>

definition bzm_transport_encode_write :: "u8 \<Rightarrow> u16 \<Rightarrow> u8 \<Rightarrow> u8 list option \<Rightarrow> nat \<Rightarrow> u8 list" where
  "bzm_transport_encode_write asic_id engine_id offset data_opt capacity =
     (case data_opt of None \<Rightarrow> []
      | Some data \<Rightarrow>
          if length data = 0 \<or> length data > 256 \<or> engine_id \<ge> BZM_MAX_ENGINE_COUNT then []
          else
            (case append_words capacity (command_words 0x020 asic_id engine_id offset (length data) @ map ucast data @ [0]) [] of
               None \<Rightarrow> [] | Some encoded \<Rightarrow> encoded))"

definition bzm_transport_encode_read :: "u8 \<Rightarrow> u16 \<Rightarrow> u8 \<Rightarrow> nat \<Rightarrow> nat \<Rightarrow> u8 list" where
  "bzm_transport_encode_read asic_id engine_id offset data_len capacity =
     (if data_len = 0 \<or> data_len > 256 \<or> engine_id \<ge> BZM_MAX_ENGINE_COUNT then []
      else
        (case append_words capacity (command_words 0x030 asic_id engine_id offset data_len @ [0]) [] of
           None \<Rightarrow> [] | Some encoded \<Rightarrow> encoded))"

definition bzm_transport_encode_noop :: "u8 \<Rightarrow> nat \<Rightarrow> u8 list" where
  "bzm_transport_encode_noop asic_id capacity =
     (case append_words capacity [0x100 OR ucast asic_id, 0x0f0] [] of None \<Rightarrow> [] | Some encoded \<Rightarrow> encoded)"

section \<open>Model: chain discovery and nonce ranges\<close>

abbreviation BZM_BROADCAST_ASIC :: u8 where "BZM_BROADCAST_ASIC \<equiv> 0xfa"
abbreviation BZM_ALL_ASICS :: u8 where "BZM_ALL_ASICS \<equiv> 0xff"
abbreviation BZM_CONTROL_ENGINE_ID :: u16 where "BZM_CONTROL_ENGINE_ID \<equiv> 0xfff"
abbreviation BZM_PENDING_RESULT_COUNT :: nat where "BZM_PENDING_RESULT_COUNT \<equiv> 256"

record 'c bzm_chain_ops_t =
  co_noop :: "(u8 \<Rightarrow> 'c \<Rightarrow> bool \<times> 'c) option"
  co_write_register :: "(u8 \<Rightarrow> u16 \<Rightarrow> u8 \<Rightarrow> u8 list \<Rightarrow> 'c \<Rightarrow> bool \<times> 'c) option"
  co_read_register :: "(u8 \<Rightarrow> u16 \<Rightarrow> u8 \<Rightarrow> nat \<Rightarrow> 'c \<Rightarrow> u8 list option \<times> 'c) option"
  co_delay_ms :: "(nat \<Rightarrow> 'c \<Rightarrow> 'c) option"

definition bzm_result_queue_capacity_covers :: "u32 \<Rightarrow> u32 \<Rightarrow> u32 \<Rightarrow> bool" where
  "bzm_result_queue_capacity_covers result_capacity results_per_second blackout_ms \<longleftrightarrow>
     (ucast result_capacity :: u64) * 1000 \<ge> ucast results_per_second * ucast blackout_ms"

definition bzm_partition_nonce_range :: "u32 \<Rightarrow> u32 \<Rightarrow> nat \<Rightarrow> nat \<Rightarrow> (u32 \<times> u32) option" where
  "bzm_partition_nonce_range starting_nonce end_nonce part partition_count =
     (if partition_count = 0 \<or> part \<ge> partition_count \<or> end_nonce < starting_nonce then None
      else
        (let nonce_count = ucast end_nonce - ucast starting_nonce + 1 :: u64;
             nonce_step = nonce_count div of_nat partition_count
         in if nonce_step = 0 then None
            else Some (ucast (ucast starting_nonce + nonce_step * of_nat part),
                       if part + 1 = partition_count then end_nonce
                       else ucast (ucast starting_nonce + nonce_step * of_nat (part + 1) - 1))))"

text \<open>The loop of the discovery over the ASIC numbers still to be assigned: the ids found so far.\<close>

fun discover_loop :: "'c bzm_chain_ops_t \<Rightarrow> nat list \<Rightarrow> u8 list \<Rightarrow> 'c \<Rightarrow> u8 list \<times> 'c" where
  "discover_loop ops [] detected c = (detected, c)"
| "discover_loop ops (i # rest) detected c =
     (let asic_id = bzm_asic_wire_ids ! i; id_config = [asic_id, if i = 0 then 0x00 else 0x01, 0x00, 0x00];
          (ok, c) = the (co_noop ops) BZM_BROADCAST_ASIC c
      in if \<not> ok then (detected, c)
         else
           (let (ok, c) = the (co_write_register ops) BZM_BROADCAST_ASIC BZM_CONTROL_ENGINE_ID BZM_REG_ASIC_ID id_config c
            in if \<not> ok then (detected, c)
               else
                 (let c = (case co_delay_ms ops of None \<Rightarrow> c | Some delay \<Rightarrow> delay 200 c);
                      (reply, c) = the (co_read_register ops) asic_id BZM_CONTROL_ENGINE_ID BZM_REG_ASIC_ID 4 c
                  in case reply of None \<Rightarrow> (detected, c)
                     | Some readback \<Rightarrow>
                         if readback ! 0 \<noteq> asic_id \<or> (readback ! 1 AND 0x01) \<noteq> (if i = 0 then 0 else 1) then (detected, c)
                         else discover_loop ops rest (detected @ [asic_id]) c)))"

definition bzm_discover_chain :: "nat \<Rightarrow> nat \<Rightarrow> 'c bzm_chain_ops_t option \<Rightarrow> 'c \<Rightarrow> u8 list \<times> 'c" where
  "bzm_discover_chain expected_count asic_ids_capacity ops_opt c =
     (case ops_opt of None \<Rightarrow> ([], c)
      | Some ops \<Rightarrow>
          if expected_count = 0 \<or> expected_count > BZM_MAX_ASIC_COUNT \<or> asic_ids_capacity < expected_count \<or>
             co_noop ops = None \<or> co_write_register ops = None \<or> co_read_register ops = None
          then ([], c)
          else discover_loop ops [0..<expected_count] [] c)"

section \<open>Model: received frames\<close>

record bzm_serial_io_state_t =
  io_initialized :: bool
  io_parser :: bzm_frame_parser_t
  io_telemetry :: bzm_telemetry_store_t
  io_pending_results :: "bzm_raw_result_t list"
  io_pending_result_head :: nat
  io_pending_result_length :: nat
  io_dropped_results :: u32
  io_rejected_result_frames :: u32
  io_register_pending :: bool
  io_register_ready :: bool
  io_register_asic_id :: u8
  io_register_length :: u8
  io_register_data :: "u8 list"
  io_unmatched_register_frames :: u32
  io_noop_pending :: bool
  io_noop_ready :: bool
  io_noop_asic_id :: u8
  io_unsolicited_noop_frames :: u32
  io_invalid_noop_frames :: u32
  io_telemetry_decode_failures :: u32

record bzm_serial_transport_t =
  tr_asic_ids :: "u8 list"
  tr_asic_count :: u8
  tr_engine_count :: u16
  tr_enhanced_mode :: bool
  tr_io :: bzm_serial_io_state_t

definition addressed_asic :: "u8 \<Rightarrow> bool" where
  "addressed_asic asic_id \<longleftrightarrow> bzm_topology_asic_index asic_id \<noteq> None"

definition queue_result_locked :: "bzm_raw_result_t \<Rightarrow> bzm_serial_io_state_t \<Rightarrow> bzm_serial_io_state_t" where
  "queue_result_locked result io =
     (let io = (if io_pending_result_length io = BZM_PENDING_RESULT_COUNT
                then io\<lparr> io_pending_result_head := (io_pending_result_head io + 1) mod BZM_PENDING_RESULT_COUNT,
                         io_pending_result_length := io_pending_result_length io - 1,
                         io_dropped_results := io_dropped_results io + 1 \<rparr>
                else io);
          tail = (io_pending_result_head io + io_pending_result_length io) mod BZM_PENDING_RESULT_COUNT
      in io\<lparr> io_pending_results := (io_pending_results io)[tail := result],
             io_pending_result_length := io_pending_result_length io + 1 \<rparr>)"

definition transport_frame_handler :: "bzm_frame_t \<Rightarrow> bzm_serial_io_state_t \<Rightarrow> bzm_serial_io_state_t" where
  "transport_frame_handler frame io =
     (case fr_type frame of
        BZM_FRAME_RESULT \<Rightarrow>
          (case (if addressed_asic (fr_asic_id frame) then bzm_result_decode (fr_payload frame) (fr_timestamp_us frame) else None) of
             None \<Rightarrow> io\<lparr> io_rejected_result_frames := io_rejected_result_frames io + 1 \<rparr>
           | Some result \<Rightarrow> queue_result_locked (result\<lparr> raw_asic_id := fr_asic_id frame \<rparr>) io)
      | BZM_FRAME_REGISTER \<Rightarrow>
          if \<not> io_register_pending io \<or> fr_asic_id frame \<noteq> io_register_asic_id io \<or>
             length (fr_payload frame) \<noteq> unat (io_register_length io)
          then io\<lparr> io_unmatched_register_frames := io_unmatched_register_frames io + 1 \<rparr>
          else io\<lparr> io_register_data := fr_payload frame @ drop (length (fr_payload frame)) (io_register_data io),
                  io_register_ready := True \<rparr>
      | BZM_FRAME_TELEMETRY \<Rightarrow>
          (case bzm_telemetry_store_apply_frame (io_telemetry io) (Some frame) of
             (ok, store) \<Rightarrow>
               if \<not> ok then io\<lparr> io_telemetry := store, io_telemetry_decode_failures := io_telemetry_decode_failures io + 1 \<rparr>
               else io\<lparr> io_telemetry := store \<rparr>)
      | BZM_FRAME_NOOP \<Rightarrow>
          if fr_payload frame \<noteq> [0x32, 0x5a, 0x42]
          then io\<lparr> io_invalid_noop_frames := io_invalid_noop_frames io + 1 \<rparr>
          else if \<not> io_noop_pending io \<or>
                  (io_noop_asic_id io \<noteq> BZM_BROADCAST_ASIC \<and> io_noop_asic_id io \<noteq> fr_asic_id frame)
          then io\<lparr> io_unsolicited_noop_frames := io_unsolicited_noop_frames io + 1 \<rparr>
          else io\<lparr> io_noop_ready := True \<rparr>)"

text \<open>\<open>memset\<close> of the state to zero.\<close>

definition zero_raw_result :: bzm_raw_result_t where
  "zero_raw_result = \<lparr> raw_asic_id = 0, raw_engine_id = 0, raw_status = 0, raw_nonce = 0, raw_sequence_id = 0, raw_time = 0,
     raw_timestamp_us = 0 \<rparr>"

definition zero_io :: bzm_serial_io_state_t where
  "zero_io = \<lparr> io_initialized = False, io_parser = bzm_frame_parser_init, io_telemetry = replicate BZM_MAX_ASIC_COUNT zero_sample,
     io_pending_results = replicate BZM_PENDING_RESULT_COUNT zero_raw_result, io_pending_result_head = 0,
     io_pending_result_length = 0, io_dropped_results = 0, io_rejected_result_frames = 0, io_register_pending = False,
     io_register_ready = False, io_register_asic_id = 0, io_register_length = 0,
     io_register_data = replicate BZM_TDM_MAX_REGISTER_PAYLOAD_SIZE 0, io_unmatched_register_frames = 0,
     io_noop_pending = False, io_noop_ready = False, io_noop_asic_id = 0, io_unsolicited_noop_frames = 0,
     io_invalid_noop_frames = 0, io_telemetry_decode_failures = 0 \<rparr>"

text \<open>\<open>mutex_created\<close> is the success of \<open>pthread_mutex_init\<close>.\<close>

definition bzm_serial_transport_init :: "bool \<Rightarrow> bzm_serial_transport_t \<Rightarrow> bool \<times> bzm_serial_transport_t" where
  "bzm_serial_transport_init mutex_created tr =
     (if io_initialized (tr_io tr) then (True, tr)
      else if \<not> mutex_created then (False, tr\<lparr> tr_io := zero_io \<rparr>)
      else (True, tr\<lparr> tr_io := zero_io\<lparr> io_initialized := True, io_parser := bzm_frame_parser_init,
                                      io_telemetry := bzm_telemetry_store_init \<rparr> \<rparr>))"

definition bzm_serial_transport_deinit :: "bzm_serial_transport_t \<Rightarrow> bzm_serial_transport_t" where
  "bzm_serial_transport_deinit tr = (if \<not> io_initialized (tr_io tr) then tr else tr\<lparr> tr_io := zero_io \<rparr>)"

definition reset_io_state :: "bool \<Rightarrow> bool \<Rightarrow> bzm_serial_transport_t \<Rightarrow> bzm_serial_transport_t" where
  "reset_io_state reset_telemetry reset_counters tr =
     (let io = tr_io tr;
          io = io\<lparr> io_pending_result_head := 0, io_pending_result_length := 0, io_register_pending := False,
                 io_register_ready := False, io_noop_pending := False, io_noop_ready := False,
                 io_parser := (io_parser io)\<lparr> fp_buffer := [],
                   fp_expected_register_length := replicate BZM_MAX_ASIC_COUNT 0 \<rparr> \<rparr>;
          io = (if reset_telemetry then io\<lparr> io_telemetry := bzm_telemetry_store_init \<rparr> else io);
          io = (if reset_counters
                then io\<lparr> io_parser := (io_parser io)\<lparr> fp_emitted_frames := 0, fp_discarded_bytes := 0,
                           fp_emitted_frames_at_last_discard := 0, fp_unexpected_register_headers := 0,
                           fp_discard_trace_next := 0, fp_discard_trace_length := 0 \<rparr>,
                         io_dropped_results := 0, io_rejected_result_frames := 0, io_unmatched_register_frames := 0,
                         io_unsolicited_noop_frames := 0, io_invalid_noop_frames := 0, io_telemetry_decode_failures := 0 \<rparr>
                else io)
      in tr\<lparr> tr_io := io \<rparr>)"

text \<open>The parser calls the handler for each frame it delivers; the handler does not touch the parser.\<close>

definition bzm_serial_transport_ingest_bytes ::
    "bzm_serial_transport_t \<Rightarrow> u8 list option \<Rightarrow> u64 \<Rightarrow> nat \<times> bzm_serial_transport_t" where
  "bzm_serial_transport_ingest_bytes tr data_opt timestamp_us =
     (if \<not> io_initialized (tr_io tr) then (0, tr)
      else
        (case data_opt of None \<Rightarrow> (0, tr)
         | Some data \<Rightarrow>
             (let (parser, frames) = bzm_frame_parser_feed (io_parser (tr_io tr)) data timestamp_us
              in (length frames, tr\<lparr> tr_io := fold transport_frame_handler frames ((tr_io tr)\<lparr> io_parser := parser \<rparr>) \<rparr>))))"

section \<open>Model: results, replies and statistics\<close>

definition dequeue_result :: "bzm_serial_transport_t \<Rightarrow> bzm_raw_result_t option \<times> bzm_serial_transport_t" where
  "dequeue_result tr =
     (let io = tr_io tr
      in if \<not> io_initialized io \<or> io_pending_result_length io = 0 then (None, tr)
         else (Some (io_pending_results io ! io_pending_result_head io),
               tr\<lparr> tr_io := io\<lparr> io_pending_result_head := (io_pending_result_head io + 1) mod BZM_PENDING_RESULT_COUNT,
                                io_pending_result_length := io_pending_result_length io - 1 \<rparr> \<rparr>))"

definition bzm_serial_discard_pending_results :: "bzm_serial_transport_t \<Rightarrow> bzm_serial_transport_t" where
  "bzm_serial_discard_pending_results tr =
     (if \<not> io_initialized (tr_io tr) then tr
      else tr\<lparr> tr_io := (tr_io tr)\<lparr> io_pending_result_head := 0, io_pending_result_length := 0 \<rparr> \<rparr>)"

definition bzm_serial_expect_register_reply ::
    "bzm_serial_transport_t \<Rightarrow> u8 \<Rightarrow> nat \<Rightarrow> bool \<times> bzm_serial_transport_t" where
  "bzm_serial_expect_register_reply tr asic_id payload_length =
     (let io = tr_io tr
      in if \<not> io_initialized io \<or> \<not> addressed_asic asic_id \<or> payload_length = 0 \<or>
            payload_length > BZM_TDM_MAX_REGISTER_PAYLOAD_SIZE
         then (False, tr)
         else if io_register_pending io then (False, tr)
         else
           (let (accepted, parser) = bzm_frame_parser_expect_register (io_parser io) asic_id payload_length;
                io = io\<lparr> io_parser := parser \<rparr>
            in (accepted, tr\<lparr> tr_io := (if accepted
                  then io\<lparr> io_register_pending := True, io_register_ready := False, io_register_asic_id := asic_id,
                          io_register_length := of_nat payload_length \<rparr>
                  else io) \<rparr>)))"

text \<open>The reply taken, if it is there.\<close>

definition bzm_serial_take_register_reply ::
    "bzm_serial_transport_t \<Rightarrow> u8 \<Rightarrow> nat \<Rightarrow> u8 list option \<times> bzm_serial_transport_t" where
  "bzm_serial_take_register_reply tr asic_id data_length =
     (let io = tr_io tr
      in if \<not> io_initialized io then (None, tr)
         else if io_register_pending io \<and> io_register_ready io \<and> io_register_asic_id io = asic_id \<and>
                 unat (io_register_length io) = data_length
         then (Some (take data_length (io_register_data io)),
               tr\<lparr> tr_io := io\<lparr> io_register_pending := False, io_register_ready := False, io_register_length := 0 \<rparr> \<rparr>)
         else (None, tr))"

definition bzm_serial_cancel_register_reply ::
    "bzm_serial_transport_t \<Rightarrow> u8 \<Rightarrow> bool \<times> bzm_serial_transport_t" where
  "bzm_serial_cancel_register_reply tr asic_id =
     (let io = tr_io tr
      in if \<not> io_initialized io then (False, tr)
         else if io_register_pending io \<and> io_register_asic_id io = asic_id
         then (True, tr\<lparr> tr_io := io\<lparr> io_parser := snd (bzm_frame_parser_cancel_register (io_parser io) asic_id),
                 io_register_pending := False, io_register_ready := False, io_register_length := 0 \<rparr> \<rparr>)
         else (False, tr))"

text \<open>The answer, and what is written to the caller's sample.\<close>

definition bzm_serial_get_telemetry :: "bzm_serial_transport_t \<Rightarrow> u8 \<Rightarrow> bool \<times> bzm_telemetry_sample_t option" where
  "bzm_serial_get_telemetry tr asic_id =
     (if \<not> io_initialized (tr_io tr) \<or> \<not> addressed_asic asic_id then (False, None)
      else
        (let stored = bzm_telemetry_store_get (Some (io_telemetry (tr_io tr))) asic_id
         in (case stored of None \<Rightarrow> False | Some sample \<Rightarrow> ts_received sample, stored)))"

definition bzm_serial_get_telemetry_snapshot :: "bzm_serial_transport_t \<Rightarrow> bzm_telemetry_store_t option" where
  "bzm_serial_get_telemetry_snapshot tr =
     (if \<not> io_initialized (tr_io tr) then None else Some (io_telemetry (tr_io tr)))"

definition bzm_serial_get_parser_stats :: "bzm_serial_transport_t \<Rightarrow> bzm_serial_parser_stats_t option" where
  "bzm_serial_get_parser_stats tr =
     (let io = tr_io tr; parser = io_parser io;
          recent = bzm_frame_parser_recent_discards parser BZM_FRAME_PARSER_DISCARD_TRACE_SIZE
      in if \<not> io_initialized io then None
         else Some \<lparr> ps_emitted_frames = fp_emitted_frames parser, ps_discarded_bytes = fp_discarded_bytes parser,
                ps_emitted_frames_at_last_discard = fp_emitted_frames_at_last_discard parser,
                ps_unexpected_register_headers = fp_unexpected_register_headers parser,
                ps_dropped_results = io_dropped_results io, ps_rejected_result_frames = io_rejected_result_frames io,
                ps_unmatched_register_frames = io_unmatched_register_frames io,
                ps_unsolicited_noop_frames = io_unsolicited_noop_frames io, ps_invalid_noop_frames = io_invalid_noop_frames io,
                ps_telemetry_decode_failures = io_telemetry_decode_failures io, ps_buffered_bytes = length (fp_buffer parser),
                ps_queued_results = io_pending_result_length io,
                ps_recent_discarded_bytes = recent @ replicate (BZM_FRAME_PARSER_DISCARD_TRACE_SIZE - length recent) 0,
                ps_recent_discarded_length = length recent \<rparr>)"

section \<open>Model: commands on the wire\<close>

definition serial_write_register_raw ::
    "'w uart_driver \<Rightarrow> u8 \<Rightarrow> u16 \<Rightarrow> u8 \<Rightarrow> u8 list \<Rightarrow> 'w \<Rightarrow> bool \<times> 'w" where
  "serial_write_register_raw ud asic_id engine_id offset data w =
     (if length data > 32 then (False, w)
      else
        (let encoded = bzm_transport_encode_write asic_id engine_id offset (Some data) 76
         in if encoded = [] then (False, w)
            else (let (sent, w) = SERIAL_send ud encoded w in (sent = int (length encoded), w))))"

definition bzm_serial_write_register ::
    "'w uart_driver \<Rightarrow> bzm_serial_transport_t \<Rightarrow> u16 \<Rightarrow> u8 \<Rightarrow> u8 list \<Rightarrow> 'w \<Rightarrow> bool \<times> 'w" where
  "bzm_serial_write_register ud tr engine_id offset data w =
     (if tr_asic_count tr = 0 then (False, w)
      else serial_write_register_raw ud (tr_asic_ids tr ! 0) engine_id offset data w)"

definition bzm_serial_write_register_to ::
    "'w uart_driver \<Rightarrow> u8 \<Rightarrow> u16 \<Rightarrow> u8 \<Rightarrow> u8 list \<Rightarrow> 'w \<Rightarrow> bool \<times> 'w" where
  "bzm_serial_write_register_to ud asic_id engine_id offset data w = serial_write_register_raw ud asic_id engine_id offset data w"

section \<open>Model: polling\<close>

type_synonym 'w serial_reader = "nat \<Rightarrow> nat \<Rightarrow> 'w \<Rightarrow> (int \<times> u8 list) \<times> 'w"

text \<open>The draining loop after a read of \<open>bytes\<close> that returned \<open>count\<close>.\<close>

function poll_loop ::
    "'w serial_reader \<Rightarrow> 'w uart_driver \<Rightarrow> int \<times> u8 list \<Rightarrow> nat \<Rightarrow> nat \<Rightarrow> bzm_serial_transport_t \<Rightarrow> 'w \<Rightarrow>
     nat \<times> bzm_serial_transport_t \<times> 'w" where
  "poll_loop reader ud (count, bytes) total_bytes emitted tr w =
     (if count > 0 \<and> total_bytes < SERIAL_RX_BUFFER_BYTES
      then
        (let accepted = nat count
         in if accepted > 128 \<or> accepted > SERIAL_RX_BUFFER_BYTES - total_bytes then (emitted, tr, w)
            else
              (let (now, w) = ud_timer ud w;
                   (delivered, tr) = bzm_serial_transport_ingest_bytes tr (Some (take accepted bytes)) (of_int now);
                   total_bytes = total_bytes + accepted;
                   capacity = (if SERIAL_RX_BUFFER_BYTES - total_bytes < 128 then SERIAL_RX_BUFFER_BYTES - total_bytes else 128)
               in if capacity = 0 then (emitted + delivered, tr, w)
                  else (let (received, w) = reader capacity 0 w
                        in poll_loop reader ud received total_bytes (emitted + delivered) tr w)))
      else (emitted, tr, w))"
  by pat_completeness auto
termination
  by (relation "measure (\<lambda>(reader, ud, received, total_bytes, emitted, tr, w). SERIAL_RX_BUFFER_BYTES - total_bytes)")
    (auto intro: diff_less_mono2)

definition bzm_serial_poll_with_reader ::
    "'w uart_driver \<Rightarrow> bzm_serial_transport_t \<Rightarrow> nat \<Rightarrow> 'w serial_reader option \<Rightarrow> 'w \<Rightarrow> nat \<times> bzm_serial_transport_t \<times> 'w" where
  "bzm_serial_poll_with_reader ud tr timeout_ms reader_opt w =
     (case reader_opt of None \<Rightarrow> (0, tr, w)
      | Some reader \<Rightarrow>
          if \<not> io_initialized (tr_io tr) \<or> timeout_ms = 0 then (0, tr, w)
          else (let (received, w) = reader 1 timeout_ms w in poll_loop reader ud received 0 0 tr w))"

definition bzm_serial_poll ::
    "'w uart_driver \<Rightarrow> bzm_serial_transport_t \<Rightarrow> nat \<Rightarrow> 'w \<Rightarrow> nat \<times> bzm_serial_transport_t \<times> 'w" where
  "bzm_serial_poll ud tr timeout_ms w =
     (if \<not> io_initialized (tr_io tr) \<or> timeout_ms = 0 then (0, tr, w)
      else (let (received, w) = SERIAL_rx ud 1 timeout_ms w in poll_loop (SERIAL_rx ud) ud received 0 0 tr w))"

definition remaining_ms :: "'w uart_driver \<Rightarrow> int \<Rightarrow> 'w \<Rightarrow> nat \<times> 'w" where
  "remaining_ms ud deadline_us w =
     (let (now, w) = ud_timer ud w; remaining_us = deadline_us - now
      in if remaining_us \<le> 0 then (0, w)
         else (let rounded_ms = nat ((remaining_us + 999) div 1000) in (if rounded_ms > 65535 then 65535 else rounded_ms, w)))"

definition clear_partial_frame :: "bzm_serial_transport_t \<Rightarrow> bzm_serial_transport_t" where
  "clear_partial_frame tr = tr\<lparr> tr_io := (tr_io tr)\<lparr> io_parser := (io_parser (tr_io tr))\<lparr> fp_buffer := [] \<rparr> \<rparr> \<rparr>"

text \<open>
  The waiting loops: poll until the deadline, and look after each poll. \<open>look\<close> takes what is waited for.
\<close>

partial_function (option) await ::
    "'w uart_driver \<Rightarrow> (bzm_serial_transport_t \<Rightarrow> 'r option \<times> bzm_serial_transport_t) \<Rightarrow> int \<Rightarrow>
     bzm_serial_transport_t \<Rightarrow> 'w \<Rightarrow> ('r option \<times> bzm_serial_transport_t \<times> 'w) option" where
  "await ud look deadline tr w =
     (let (wait_ms, w) = remaining_ms ud deadline w
      in if wait_ms = 0 then Some (None, tr, w)
         else
           (let (emitted, tr, w) = bzm_serial_poll ud tr wait_ms w
            in case look tr of (Some r, tr) \<Rightarrow> Some (Some r, tr, w)
               | (None, tr) \<Rightarrow> await ud look deadline tr w))"

definition look_and_await ::
    "'w uart_driver \<Rightarrow> (bzm_serial_transport_t \<Rightarrow> 'r option \<times> bzm_serial_transport_t) \<Rightarrow> int \<Rightarrow>
     bzm_serial_transport_t \<Rightarrow> 'w \<Rightarrow> ('r option \<times> bzm_serial_transport_t \<times> 'w) option" where
  "look_and_await ud look deadline tr w =
     (case look tr of (Some r, tr) \<Rightarrow> Some (Some r, tr, w) | (None, tr) \<Rightarrow> await ud look deadline tr w)"

section \<open>Model: blocking operations\<close>

datatype bzm_serial_probe_result_t = BZM_SERIAL_PROBE_RESPONSE | BZM_SERIAL_PROBE_NO_RESPONSE | BZM_SERIAL_PROBE_IO_ERROR

definition end_noop :: "bzm_serial_transport_t \<Rightarrow> bzm_serial_transport_t" where
  "end_noop tr = tr\<lparr> tr_io := (tr_io tr)\<lparr> io_noop_pending := False, io_noop_ready := False \<rparr> \<rparr>"

definition take_noop :: "bzm_serial_transport_t \<Rightarrow> unit option \<times> bzm_serial_transport_t" where
  "take_noop tr = (if io_noop_ready (tr_io tr) then (Some (), end_noop tr) else (None, tr))"

definition bzm_serial_probe_noop ::
    "'w uart_driver \<Rightarrow> u8 \<Rightarrow> bzm_serial_transport_t \<times> 'w \<Rightarrow> (bzm_serial_probe_result_t \<times> bzm_serial_transport_t \<times> 'w) option" where
  "bzm_serial_probe_noop ud asic_id = (\<lambda>(tr, w).
     let io = tr_io tr
     in if \<not> io_initialized io \<or> io_noop_pending io then Some (BZM_SERIAL_PROBE_IO_ERROR, tr, w)
        else
          (let tr = tr\<lparr> tr_io := io\<lparr> io_noop_pending := True, io_noop_ready := False, io_noop_asic_id := asic_id \<rparr> \<rparr>;
               request = bzm_transport_encode_noop asic_id 4;
               (sent, w) = (if request = [] then (-1, w) else SERIAL_send ud request w)
           in if sent \<noteq> int (length request)
              then Some (BZM_SERIAL_PROBE_IO_ERROR, clear_partial_frame (end_noop tr), SERIAL_clear_buffer ud w)
              else
                (let (now, w) = ud_timer ud w
                 in do {
                   (ready, tr, w) \<leftarrow> look_and_await ud take_noop (now + 150000) tr w;
                   Some (case ready of Some _ \<Rightarrow> (BZM_SERIAL_PROBE_RESPONSE, tr, w)
                     | None \<Rightarrow>
                         (let malformed = (fp_discarded_bytes (io_parser (tr_io tr)) \<noteq> fp_discarded_bytes (io_parser io) \<or>
                                io_invalid_noop_frames (tr_io tr) \<noteq> io_invalid_noop_frames io)
                          in (if malformed then BZM_SERIAL_PROBE_IO_ERROR else BZM_SERIAL_PROBE_NO_RESPONSE,
                              clear_partial_frame (end_noop tr), w)))
                 })))"

definition serial_read_register_op ::
    "'w uart_driver \<Rightarrow> u8 \<Rightarrow> u16 \<Rightarrow> u8 \<Rightarrow> nat \<Rightarrow> bzm_serial_transport_t \<times> 'w \<Rightarrow>
     (u8 list option \<times> bzm_serial_transport_t \<times> 'w) option" where
  "serial_read_register_op ud asic_id engine_id offset data_len = (\<lambda>(tr, w).
     if data_len = 0 \<or> data_len > BZM_TDM_MAX_REGISTER_PAYLOAD_SIZE then Some (None, tr, w)
     else
       (let (expected, tr) = bzm_serial_expect_register_reply tr asic_id data_len
        in if \<not> expected then Some (None, tr, w)
           else
             (let request = bzm_transport_encode_read asic_id engine_id offset data_len 12
              in if request = [] then Some (None, snd (bzm_serial_cancel_register_reply tr asic_id), w)
                 else
                   (let (sent, w) = SERIAL_send ud request w
                    in if sent \<noteq> int (length request) then Some (None, snd (bzm_serial_cancel_register_reply tr asic_id), w)
                       else
                         (let (now, w) = ud_timer ud w
                          in do {
                            (reply, tr, w) \<leftarrow> look_and_await ud (\<lambda>tr. bzm_serial_take_register_reply tr asic_id data_len)
                                                (now + 1000000) tr w;
                            Some (case reply of Some data \<Rightarrow> (Some data, tr, w)
                              | None \<Rightarrow> (None, clear_partial_frame (snd (bzm_serial_cancel_register_reply tr asic_id)),
                                         SERIAL_clear_buffer ud w))
                          })))))"

definition bzm_serial_read_register ::
    "'w uart_driver \<Rightarrow> u8 \<Rightarrow> u16 \<Rightarrow> u8 \<Rightarrow> nat \<Rightarrow> bzm_serial_transport_t \<times> 'w \<Rightarrow>
     (u8 list option \<times> bzm_serial_transport_t \<times> 'w) option" where
  "bzm_serial_read_register = serial_read_register_op"

definition bzm_serial_read_result ::
    "'w uart_driver \<Rightarrow> nat \<Rightarrow> bzm_serial_transport_t \<times> 'w \<Rightarrow> (bzm_raw_result_t option \<times> bzm_serial_transport_t \<times> 'w) option" where
  "bzm_serial_read_result ud timeout_ms = (\<lambda>(tr, w).
     if \<not> io_initialized (tr_io tr) then Some (None, tr, w)
     else
       (case dequeue_result tr of (Some result, tr) \<Rightarrow> Some (Some result, tr, w)
        | (None, tr) \<Rightarrow>
            (let (now, w) = ud_timer ud w in await ud dequeue_result (now + int timeout_ms * 1000) tr w)))"

section \<open>Model: the chain\<close>

text \<open>The operations of the discovery on the serial transport. A wait that never ends leaves no state.\<close>

type_synonym 'w serial_context = "(bzm_serial_transport_t \<times> 'w) option"

definition serial_noop :: "'w uart_driver \<Rightarrow> u8 \<Rightarrow> 'w serial_context \<Rightarrow> bool \<times> 'w serial_context" where
  "serial_noop ud asic_id c =
     (case Option.bind c (bzm_serial_probe_noop ud asic_id) of None \<Rightarrow> (False, None)
      | Some (r, s) \<Rightarrow> (r = BZM_SERIAL_PROBE_RESPONSE, Some s))"

definition serial_write_register_op ::
    "'w uart_driver \<Rightarrow> u8 \<Rightarrow> u16 \<Rightarrow> u8 \<Rightarrow> u8 list \<Rightarrow> 'w serial_context \<Rightarrow> bool \<times> 'w serial_context" where
  "serial_write_register_op ud asic_id engine_id offset data c =
     (case c of None \<Rightarrow> (False, None)
      | Some (tr, w) \<Rightarrow>
          (let (ok, w) = serial_write_register_raw ud asic_id engine_id offset data w in (ok, Some (tr, w))))"

definition serial_chain_ops :: "'w uart_driver \<Rightarrow> 'w serial_context bzm_chain_ops_t" where
  "serial_chain_ops ud =
     \<lparr> co_noop = Some (serial_noop ud), co_write_register = Some (serial_write_register_op ud),
       co_read_register = Some (\<lambda>asic_id engine_id offset data_len c.
         (case Option.bind c (serial_read_register_op ud asic_id engine_id offset data_len) of None \<Rightarrow> (None, None)
          | Some (reply, s) \<Rightarrow> (reply, Some s))),
       co_delay_ms = Some (\<lambda>ms. map_option (\<lambda>(tr, w). (tr, ud_delay ud (ud_ms_to_ticks ud ms) w))) \<rparr>"

definition bzm_serial_discover_chain ::
    "'w uart_driver \<Rightarrow> bool \<Rightarrow> nat \<Rightarrow> bzm_serial_transport_t \<times> 'w \<Rightarrow> (nat \<times> bzm_serial_transport_t \<times> 'w) option" where
  "bzm_serial_discover_chain ud mutex_created expected_count = (\<lambda>(tr, w).
     let (ok, tr) = bzm_serial_transport_init mutex_created tr
     in if \<not> ok then Some (0, tr, w)
        else
          (let w = SERIAL_clear_buffer ud w; tr = reset_io_state True True tr;
               (detected, c) = bzm_discover_chain expected_count (length (tr_asic_ids tr)) (Some (serial_chain_ops ud)) (Some (tr, w))
           in map_option (\<lambda>(tr, w).
                (length detected,
                 tr\<lparr> tr_asic_ids := detected @ drop (length detected) (tr_asic_ids tr), tr_asic_count := of_nat (length detected) \<rparr>,
                 w)) c))"

definition serial_register_writer :: "'w uart_driver \<Rightarrow> u8 \<Rightarrow> 'w register_writer" where
  "serial_register_writer ud asic_id engine_id offset data w = serial_write_register_raw ud asic_id engine_id offset data w"

text \<open>The nonce ranges of the ASICs still to be written.\<close>

fun write_ranges :: "'w uart_driver \<Rightarrow> bzm_serial_transport_t \<Rightarrow> bzm_work_t \<Rightarrow> nat list \<Rightarrow> 'w \<Rightarrow> bool \<times> 'w" where
  "write_ranges ud tr work [] w = (True, w)"
| "write_ranges ud tr work (i # rest) w =
     (case bzm_partition_nonce_range (wk_starting_nonce work) (wk_end_nonce work) i (unat (tr_asic_count tr)) of
        None \<Rightarrow> (False, w)
      | Some (starting_nonce, end_nonce) \<Rightarrow>
          (let (ok, w) = serial_write_register_raw ud (tr_asic_ids tr ! i) (wk_engine_id work) BZM_REG_START_NONCE
                 (le_bytes 4 starting_nonce) w
           in if \<not> ok then (False, w)
              else
                (let (ok, w) = serial_write_register_raw ud (tr_asic_ids tr ! i) (wk_engine_id work) BZM_REG_END_NONCE
                       (le_bytes 4 end_nonce) w
                 in if \<not> ok then (False, w) else write_ranges ud tr work rest w)))"

definition bzm_serial_write_work ::
    "'w uart_driver \<Rightarrow> bzm_work_t option \<Rightarrow> bzm_serial_transport_t \<times> 'w \<Rightarrow> bool \<times> bzm_serial_transport_t \<times> 'w" where
  "bzm_serial_write_work ud work_opt = (\<lambda>(tr, w).
     case work_opt of None \<Rightarrow> (False, tr, w)
     | Some work \<Rightarrow>
         if tr_asic_count tr = 0 then (False, tr, w)
         else
           (let (ok, w) = write_ranges ud tr work [0..<unat (tr_asic_count tr)] w
            in if \<not> ok then (False, tr, w)
               else
                 (let (ok, w) = bzm_transport_program_broadcast_work (Some work) (Some (serial_register_writer ud BZM_ALL_ASICS)) w
                  in (ok, tr, w))))"

definition bzm_serial_flush ::
    "'w uart_driver \<Rightarrow> bzm_serial_transport_t \<times> 'w \<Rightarrow> bool \<times> bzm_serial_transport_t \<times> 'w" where
  "bzm_serial_flush ud = (\<lambda>(tr, w).
     let (success, w) =
           (if tr_asic_count tr = 0 then (False, w)
            else bzm_transport_program_flush (tr_engine_count tr) (tr_enhanced_mode tr)
                   (Some (serial_register_writer ud BZM_ALL_ASICS)) w);
         w = SERIAL_clear_buffer ud w
     in (success, if io_initialized (tr_io tr) then reset_io_state False False tr else tr, w))"

end
