(* ===== verification/ChainWire.thy ===== *)
theory ChainWire
  imports SerialTransport
begin

text \<open>
  What reaches the ASICs (\<open>components/asic/bzm_transport.c\<close>): commands decode to what was encoded, a
  work written to the chain is the intended one, and the ASICs share its nonces.
\<close>

section \<open>Reading the wire\<close>

text \<open>What a sequence of 9-bit words commands, as the ASIC reads it.\<close>

datatype wire_command =
    WireWrite u8 u16 u8 "u8 list"
  | WireRead u8 u16 u8 nat
  | WireNoop u8

fun wire_words :: "u8 list \<Rightarrow> u16 list option" where
  "wire_words [] = Some []"
| "wire_words [_] = None"
| "wire_words (low # high # rest) =
     (if high \<le> 1 then map_option (Cons (push_bit 8 (ucast high) OR ucast low)) (wire_words rest) else None)"

function wire_commands :: "u16 list \<Rightarrow> wire_command list option" where
  "wire_commands words =
     (if words = [] then Some []
      else if length words < 2 \<or> \<not> bit (words ! 0) 8 then None
      else if words ! 1 = 0x0f0 then map_option (Cons (WireNoop (ucast (words ! 0)))) (wire_commands (drop 2 words))
      else if length words < 6 then None
      else
        (let asic_id = ucast (words ! 0); opcode = words ! 1 AND 0xf0; engine = push_bit 8 (words ! 1 AND 0x0f) OR words ! 2;
             offset = ucast (words ! 3); n = unat (words ! 4) + 1
         in if opcode = 0x020 \<and> n + 6 \<le> length words
            then map_option (Cons (WireWrite asic_id engine offset (map ucast (take n (drop 5 words)))))
                   (wire_commands (drop (n + 6) words))
            else if opcode = 0x030 then map_option (Cons (WireRead asic_id engine offset n)) (wire_commands (drop 6 words))
            else None))"
  by pat_completeness auto
termination
  by (relation "measure length") auto

declare wire_commands.simps [simp del]

definition wire_decode :: "u8 list \<Rightarrow> wire_command list option" where
  "wire_decode bytes = Option.bind (wire_words bytes) wire_commands"

definition word_bytes :: "u16 \<Rightarrow> u8 list" where
  "word_bytes w = [ucast w, ucast (drop_bit 8 w AND 1)]"

lemma append_word_bytes: "length encoded + 2 \<le> capacity \<Longrightarrow> append_word capacity w encoded = Some (encoded @ word_bytes w)"
proof -
  have "(ucast (w AND 0xff) :: u8) = ucast w"
    by (rule bit_word_eqI) (auto simp: bit_simps mask_eq_exp_minus_1[of 8, where ?'a = "16 word", simplified, symmetric] bit_mask_iff)
  then show "length encoded + 2 \<le> capacity \<Longrightarrow> append_word capacity w encoded = Some (encoded @ word_bytes w)"
    by (simp add: append_word_def word_bytes_def)
qed

lemma append_words_bytes:
  "length encoded + 2 * length ws \<le> capacity \<Longrightarrow>
   append_words capacity ws encoded = Some (encoded @ concat (map word_bytes ws))"
  by (induction ws arbitrary: encoded) (simp_all add: append_word_bytes word_bytes_def)

lemma append_words_full:
  "capacity < length encoded + 2 * length ws \<Longrightarrow> length encoded \<le> capacity \<Longrightarrow> append_words capacity ws encoded = None"
proof (induction ws arbitrary: encoded)
  case (Cons w ws)
  then show ?case
    using append_word_bytes[of encoded capacity w]
    by (cases "length encoded + 2 \<le> capacity") (auto simp: append_word_def word_bytes_def)
qed simp

lemma join_word:
  assumes "w < (0x200 :: u16)"
  shows "push_bit 8 (ucast (ucast (drop_bit 8 w AND 1) :: u8)) OR ucast (ucast w :: u8) = w" "(ucast (drop_bit 8 w AND 1) :: u8) \<le> 1"
proof -
  have "take_bit 9 w = w" using assms by (simp add: word_unat_eq_iff unsigned_take_bit_eq word_less_nat_alt take_bit_nat_eq_self)
  then have high: "\<not> bit w n" if "9 \<le> n" for n
    using that by (metis bit_take_bit_iff not_le)
  show "push_bit 8 (ucast (ucast (drop_bit 8 w AND 1) :: u8)) OR ucast (ucast w :: u8) = w"
  proof (rule bit_word_eqI)
    fix n
    assume "n < LENGTH(16)"
    then show "bit (push_bit 8 (ucast (ucast (drop_bit 8 w AND 1) :: u8)) OR ucast (ucast w :: u8) :: u16) n = bit w n"
      using high[of n] by (cases "n = 8") (auto simp: bit_simps)
  qed
  have "(drop_bit 8 w AND 1 :: u16) = 0 \<or> drop_bit 8 w AND 1 = (1 :: u16)" by (simp add: and_one_eq mod2_eq_if)
  then show "(ucast (drop_bit 8 w AND 1) :: u8) \<le> 1" by auto
qed

lemma wire_words_bytes:
  "\<forall>w\<in>set ws. w < 0x200 \<Longrightarrow> wire_words (concat (map word_bytes ws) @ rest) = map_option ((@) ws) (wire_words rest)"
  by (induction ws; cases "wire_words rest") (auto simp: word_bytes_def join_word)

section \<open>The nonce ranges\<close>

lemma partition_values:
  assumes "s \<le> e" "0 < n" "n \<le> unat e - unat s + 1" "i < n"
  shows "\<exists>a b. bzm_partition_nonce_range s e i n = Some (a, b) \<and>
    unat a = unat s + (unat e - unat s + 1) div n * i \<and>
    unat b = (if i + 1 = n then unat e else unat s + (unat e - unat s + 1) div n * (i + 1) - 1)"
proof -
  let ?m = "unat e - unat s + 1" and ?step = "(unat e - unat s + 1) div n"
  have se: "unat s \<le> unat e" "unat e < 2 ^ 32" using assms(1) unsigned_less[of e, where ?'a = nat] by (simp_all add: word_le_nat_alt)
  have n: "n \<le> 2 ^ 32" using assms(3) se by simp
  have step: "0 < ?step" "?step * (i + 1) \<le> ?m"
  proof -
    show "0 < ?step" using assms(2,3) by (simp add: div_greater_zero_iff)
    have "?step * (i + 1) \<le> ?step * n" using assms(4) by (intro mult_le_mono2) simp
    also have "\<dots> \<le> ?m" by simp
    finally show "?step * (i + 1) \<le> ?m" .
  qed
  have si: "?step * i \<le> unat e - unat s" using step by (simp add: algebra_simps)
  have m: "unat (ucast e - ucast s + 1 :: u64) = ?m"
    using se by (simp add: unat_word_ariths unsigned_ucast_eq take_bit_nat_eq_self unat_sub_if_size word_size)
  have un: "unat (of_nat n :: u64) = n" "unat (of_nat i :: u64) = i" "unat (of_nat (Suc i) :: u64) = Suc i"
    using n assms(4) by (simp_all add: unat_of_nat del: of_nat_Suc)
  have st: "unat ((ucast e - ucast s + 1 :: u64) div of_nat n) = ?step" using m un by (simp add: unat_div)
  define S where "S = (ucast e - ucast s + 1 :: u64) div of_nat n"
  have S: "unat S = ?step" using st by (simp add: S_def)
  have ss: "unat (ucast s :: u64) = unat s" using se by (simp add: unsigned_ucast_eq take_bit_nat_eq_self)
  have at: "unat (ucast s + S * of_nat j :: u64) = unat s + ?step * j" if "j \<le> Suc i" for j
  proof -
    have j: "unat (of_nat j :: u64) = j" using that n assms(4) by (simp add: unat_of_nat)
    have "?step * j \<le> ?step * (i + 1)" using that by (intro mult_le_mono2) simp
    then have "unat s + ?step * j \<le> unat e + 1" using step(2) se by simp
    then show ?thesis using se by (simp add: unat_word_ariths ss S j)
  qed
  have small: "unat (ucast v :: u32) = unat v" if "unat v < 2 ^ 32" for v :: u64
    using that by (simp add: unsigned_ucast_eq take_bit_nat_eq_self)
  have a: "unat (ucast (ucast s + S * of_nat i) :: u32) = unat s + ?step * i"
    using at[of i] si se by (subst small) auto
  have pos: "0 < unat (ucast s + S * of_nat (Suc i) :: u64)" unfolding at[OF order_refl] using step(1) by simp
  have "unat (ucast s + S * of_nat (Suc i) - 1 :: u64) = unat s + ?step * Suc i - 1"
  proof -
    have "ucast s + S * of_nat (Suc i) \<noteq> (0 :: u64)" using pos by (metis unsigned_0 less_irrefl)
    from unat_minus_one[OF this] show ?thesis unfolding at[OF order_refl] .
  qed
  moreover have "unat s + ?step * Suc i - 1 < 2 ^ 32" using step(2) se by simp
  ultimately have b: "unat (ucast (ucast s + S * of_nat (Suc i) - 1) :: u32) = unat s + ?step * Suc i - 1"
    by (subst small) auto
  have "S \<noteq> 0" using S step(1) by auto
  moreover have "\<not> e < s" using assms(1) by simp
  ultimately show ?thesis
    using assms(2,4) a b unfolding bzm_partition_nonce_range_def Let_def S_def[symmetric] by (simp del: of_nat_Suc)
qed

text \<open>The range a nonce belongs to.\<close>

definition range_has :: "u32 \<Rightarrow> u32 \<Rightarrow> nat \<Rightarrow> nat \<Rightarrow> u32 \<Rightarrow> bool" where
  "range_has s e n i nonce \<longleftrightarrow>
     (case bzm_partition_nonce_range s e i n of None \<Rightarrow> False | Some (a, b) \<Rightarrow> a \<le> nonce \<and> nonce \<le> b)"

lemma range_has_iff:
  assumes "s \<le> e" "0 < n" "n \<le> unat e - unat s + 1" "i < n"
  shows "range_has s e n i nonce \<longleftrightarrow> s \<le> nonce \<and> nonce \<le> e \<and>
    i = min ((unat nonce - unat s) div ((unat e - unat s + 1) div n)) (n - 1)"
proof -
  define m where "m = unat e - unat s + 1"
  define d where "d = m div n"
  have d: "0 < d" using assms(2,3) by (simp add: d_def m_def div_greater_zero_iff)
  obtain a b where p: "bzm_partition_nonce_range s e i n = Some (a, b)" and a: "unat a = unat s + d * i"
      and b: "unat b = (if i + 1 = n then unat e else unat s + d * (i + 1) - 1)"
    using partition_values[OF assms] unfolding d_def m_def by blast
  have se: "unat s \<le> unat e" using assms(1) by (simp add: word_le_nat_alt)
  have "d * n \<le> m" by (simp add: d_def)
  moreover have "d * (i + 1) \<le> d * n" using assms(4) by (intro mult_le_mono2) simp
  ultimately have di: "d * (i + 1) \<le> m" by simp
  have has: "range_has s e n i nonce \<longleftrightarrow> unat s + d * i \<le> unat nonce \<and>
      unat nonce \<le> (if i + 1 = n then unat e else unat s + d * (i + 1) - 1)"
    by (simp add: range_has_def p word_le_nat_alt a b)
  define x where "x = unat nonce - unat s"
  have div: "d * i \<le> x \<and> x < d * (i + 1) \<longleftrightarrow> x div d = i"
    using d by (metis div_less_iff_less_mult less_eq_div_iff_mult_less_eq less_Suc_eq_le mult.commute le_antisym order_refl Suc_eq_plus1)
  show ?thesis
  proof (cases "unat s \<le> unat nonce \<and> unat nonce \<le> unat e")
    case True
    then have nx: "unat nonce = unat s + x" by (simp add: x_def)
    show ?thesis
    proof (cases "i + 1 = n")
      case last: True
      then have "range_has s e n i nonce \<longleftrightarrow> d * i \<le> x" using True by (simp add: has nx)
      also have "\<dots> \<longleftrightarrow> i \<le> x div d" using d by (metis less_eq_div_iff_mult_less_eq mult.commute)
      finally show ?thesis using True last unfolding m_def[symmetric] d_def[symmetric] x_def[symmetric] word_le_nat_alt by auto
    next
      case False
      then have "range_has s e n i nonce \<longleftrightarrow> d * i \<le> x \<and> x < d * (i + 1)" using d by (auto simp: has nx)
      then show ?thesis using True False assms(4) div unfolding m_def[symmetric] d_def[symmetric] x_def[symmetric] word_le_nat_alt by auto
    qed
  next
    case False
    have "\<not> range_has s e n i nonce"
    proof
      assume h: "range_has s e n i nonce"
      then have "unat s \<le> unat nonce" "unat nonce \<le> unat s + d * (i + 1) - 1 \<or> unat nonce \<le> unat e"
        unfolding has by (auto split: if_splits)
      moreover have "unat s + d * (i + 1) - 1 \<le> unat e" using di se by (simp add: m_def)
      ultimately show False using False by linarith
    qed
    then show ?thesis using False by (auto simp: word_le_nat_alt)
  qed
qed

section \<open>Commands\<close>

lemma command_bits:
  fixes h :: u16
  assumes "h < 16"
  shows "(0x20 OR h) AND 0xf = h" "(0x20 OR h) AND 0xf0 = 0x20" "(0x30 OR h) AND 0xf = h" "(0x30 OR h) AND 0xf0 = 0x30"
    "0x20 OR h \<noteq> 0xf0" "0x30 OR h \<noteq> 0xf0"
proof -
  have "\<forall>j\<in>set [0..<16]. (0x20 OR of_nat j :: u16) AND 0xf = of_nat j \<and> (0x20 OR of_nat j :: u16) AND 0xf0 = 0x20 \<and>
      (0x30 OR of_nat j :: u16) AND 0xf = of_nat j \<and> (0x30 OR of_nat j :: u16) AND 0xf0 = 0x30 \<and>
      (0x20 OR of_nat j :: u16) \<noteq> 0xf0 \<and> (0x30 OR of_nat j :: u16) \<noteq> 0xf0"
    by code_simp
  from bspec[OF this, of "unat h"] assms
  show "(0x20 OR h) AND 0xf = h" "(0x20 OR h) AND 0xf0 = 0x20" "(0x30 OR h) AND 0xf = h" "(0x30 OR h) AND 0xf0 = 0x30"
    "0x20 OR h \<noteq> 0xf0" "0x30 OR h \<noteq> 0xf0"
    by (simp_all add: word_less_nat_alt)
qed

lemma address_bits: "bit (0x100 OR ucast a :: u16) 8" "(ucast (0x100 OR ucast a :: u16) :: u8) = a"
  "(0x100 OR ucast a :: u16) < 0x200" "(ucast a :: u16) < 0x200" "(ucast (ucast a :: u16) :: u8) = a"
proof -
  have "\<forall>j\<in>set [0..<256]. bit (0x100 OR ucast (of_nat j :: u8) :: u16) 8 \<and>
      (ucast (0x100 OR ucast (of_nat j :: u8) :: u16) :: u8) = of_nat j \<and> (0x100 OR ucast (of_nat j :: u8) :: u16) < 0x200 \<and>
      (ucast (of_nat j :: u8) :: u16) < 0x200 \<and> (ucast (ucast (of_nat j :: u8) :: u16) :: u8) = of_nat j"
    by code_simp
  from bspec[OF this, of "unat a"] unsigned_less[of a, where ?'a = nat]
  show "bit (0x100 OR ucast a :: u16) 8" "(ucast (0x100 OR ucast a :: u16) :: u8) = a"
    "(0x100 OR ucast a :: u16) < 0x200" "(ucast a :: u16) < 0x200" "(ucast (ucast a :: u16) :: u8) = a"
    by simp_all
qed

lemma engine_bits:
  fixes e :: u16
  assumes "e < BZM_MAX_ENGINE_COUNT"
  shows "drop_bit 8 e AND 0xf = drop_bit 8 e" "drop_bit 8 e < 16" "push_bit 8 (drop_bit 8 e) OR (e AND 0xff) = e"
    "(e AND 0xff) < 0x200"
proof -
  show small: "drop_bit 8 e < 16"
    using assms by (simp add: word_less_nat_alt unsigned_drop_bit_eq drop_bit_eq_div unat_div)
  have "\<forall>j\<in>set [0..<16]. (of_nat j AND 0xf :: u16) = of_nat j" by code_simp
  from bspec[OF this, of "unat (drop_bit 8 e)"] small show "drop_bit 8 e AND 0xf = drop_bit 8 e"
    by (simp add: word_less_nat_alt)
  have ff: "(0xff :: u16) = mask 8" by (simp add: mask_eq_exp_minus_1)
  show "push_bit 8 (drop_bit 8 e) OR (e AND 0xff) = e"
    unfolding ff by (rule bit_word_eqI) (auto simp: bit_simps)
  show "(e AND 0xff) < 0x200"
    using word_and_le1[of e "0xff"] by (simp add: word_le_nat_alt word_less_nat_alt)
qed

lemma wire_commands_write:
  assumes "data \<noteq> []" "length data \<le> 256" "engine < BZM_MAX_ENGINE_COUNT"
  shows "wire_commands (command_words 0x20 asic_id engine offset (length data) @ map ucast data @ 0 # rest) =
    map_option (Cons (WireWrite asic_id engine offset data)) (wire_commands rest)"
proof -
  let ?ws = "command_words 0x20 asic_id engine offset (length data) @ map ucast data @ 0 # rest"
  have n: "unat (of_nat (length data - 1) :: u16) + 1 = length data"
    using assms(1,2) by (cases data) (simp_all add: unat_of_nat)
  have len: "length ?ws = length data + 6 + length rest" by (simp add: command_words_def)
  have w: "?ws ! 0 = 0x100 OR ucast asic_id" "?ws ! 1 = 0x20 OR drop_bit 8 engine" "?ws ! 2 = engine AND 0xff"
      "?ws ! 3 = ucast offset"
    using engine_bits[OF assms(3)] by (simp_all add: command_words_def)
  have "?ws ! 4 = of_nat (length data - 1)" by (simp add: command_words_def)
  then have w5: "unat (?ws ! 4) + 1 = length data" by (simp only: n)
  have d5: "drop 5 ?ws = map ucast data @ 0 # rest" by (simp add: command_words_def)
  have "length (command_words 0x20 asic_id engine offset (length data) @ map ucast data @ [0]) = length data + 6"
    by (simp add: command_words_def)
  then have "drop (length data + 6) ((command_words 0x20 asic_id engine offset (length data) @ map ucast data @ [0]) @ rest) = rest"
    by simp
  then have d: "drop 5 ?ws = map ucast data @ 0 # rest" "drop (length data + 6) ?ws = rest" using d5 by simp_all
  have m: "map ucast (take (length data) (map ucast data @ 0 # rest :: u16 list)) = data"
    by (simp add: comp_def address_bits)
  note c = command_bits[OF engine_bits(2)[OF assms(3)]] and e = engine_bits(3)[OF assms(3)]
  have decode: "wire_commands ws = map_option (Cons (WireWrite asic_id engine offset data)) (wire_commands rest)"
    if ws: "ws = ?ws" for ws
  proof -
    have "ws \<noteq> []" "6 \<le> length ws" "length data + 6 \<le> length ws" using len by (auto simp: ws)
    then show ?thesis
      using w[folded ws] w5[folded ws] d[folded ws] m c e address_bits
      by (subst wire_commands.simps) (simp add: Let_def)
  qed
  show ?thesis by (rule decode) (rule refl)
qed

lemma command_words_small:
  fixes data :: "u8 list"
  assumes "engine < BZM_MAX_ENGINE_COUNT" "length data \<le> 256" "data \<noteq> []"
  shows "\<forall>w\<in>set (command_words 0x20 asic_id engine offset (length data) @ map ucast data @ [0]). w < 0x200"
proof -
  have "0x20 OR drop_bit 8 engine < 0x200"
  proof -
    have "\<forall>j\<in>set [0..<16]. (0x20 OR of_nat j :: u16) < 0x200" by code_simp
    from bspec[OF this, of "unat (drop_bit 8 engine)"] engine_bits(2)[OF assms(1)] show ?thesis
      by (simp add: word_less_nat_alt)
  qed
  moreover have "(of_nat (length data - 1) :: u16) < 0x200"
    using assms(2,3) by (cases data) (simp_all add: word_less_nat_alt unat_of_nat)
  ultimately show ?thesis
    using engine_bits[OF assms(1)] address_bits(3)[of asic_id] address_bits(4)[of offset] address_bits(4)
    by (auto simp: command_words_def simp del: of_nat_diff)
qed

text \<open>One write on the wire, followed by anything.\<close>

lemma wire_write:
  assumes "data \<noteq> []" "length data \<le> 256" "engine < BZM_MAX_ENGINE_COUNT" "2 * (length data + 6) \<le> capacity"
  shows "wire_decode (bzm_transport_encode_write asic_id engine offset (Some data) capacity @ rest) =
    map_option (Cons (WireWrite asic_id engine offset data)) (wire_decode rest)"
    and "bzm_transport_encode_write asic_id engine offset (Some data) capacity \<noteq> []"
proof -
  let ?ws = "command_words 0x20 asic_id engine offset (length data) @ map ucast data @ [0]"
  have "2 * length ?ws \<le> capacity" using assms(4) by (simp add: command_words_def)
  then have e: "bzm_transport_encode_write asic_id engine offset (Some data) capacity = concat (map word_bytes ?ws)"
    using append_words_bytes[of "[]" ?ws capacity] assms(1-3) leD[OF assms(3)[THEN less_imp_le]]
    unfolding bzm_transport_encode_write_def by (auto simp: not_le[symmetric] simp del: append_words.simps map_append)
  show "wire_decode (bzm_transport_encode_write asic_id engine offset (Some data) capacity @ rest) =
    map_option (Cons (WireWrite asic_id engine offset data)) (wire_decode rest)"
    unfolding e wire_decode_def wire_words_bytes[OF command_words_small[OF assms(3,2,1)]]
    using wire_commands_write[OF assms(1-3)] by (cases "wire_words rest") auto
  show "bzm_transport_encode_write asic_id engine offset (Some data) capacity \<noteq> []"
    unfolding e by (simp add: command_words_def word_bytes_def)
qed

section \<open>Programming the chain\<close>

text \<open>
  A driver that transmits everything it is given; \<open>sent\<close> is what went out so far. \<open>speaks\<close>: between two
  device states a list of commands went out, and nothing else.
\<close>

definition transmits :: "('w \<Rightarrow> u8 list) \<Rightarrow> 'w uart_driver \<Rightarrow> bool" where
  "transmits sent ud \<longleftrightarrow>
     (\<forall>data w. fst (ud_write_bytes ud data w) = int (length data) \<and> sent (snd (ud_write_bytes ud data w)) = sent w @ data)"

definition speaks :: "('w \<Rightarrow> u8 list) \<Rightarrow> 'w \<Rightarrow> wire_command list \<Rightarrow> 'w \<Rightarrow> bool" where
  "speaks sent w commands w' \<longleftrightarrow>
     (\<exists>bytes. sent w' = sent w @ bytes \<and> 
        (\<forall>rest ds. wire_decode rest = Some ds \<longrightarrow> wire_decode (bytes @ rest) = Some (commands @ ds)))"

lemma speaks_nil: "speaks sent w [] w"
  by (auto simp: speaks_def intro!: exI[of _ "[]"])

lemma speaks_trans:
  assumes "speaks sent u cs v" "speaks sent v ds w"
  shows "speaks sent u (cs @ ds) w"
proof -
  obtain xs where x: "sent v = sent u @ xs" "\<And>rest es. wire_decode rest = Some es \<Longrightarrow> wire_decode (xs @ rest) = Some (cs @ es)"
    using assms(1) by (auto simp: speaks_def)
  obtain ys where y: "sent w = sent v @ ys" "\<And>rest es. wire_decode rest = Some es \<Longrightarrow> wire_decode (ys @ rest) = Some (ds @ es)"
    using assms(2) by (auto simp: speaks_def)
  show ?thesis unfolding speaks_def using x y by (intro exI[of _ "xs @ ys"]) auto
qed

lemma speaks_decode:
  assumes "speaks sent w commands w'"
  shows "\<exists>bytes. sent w' = sent w @ bytes \<and> wire_decode bytes = Some commands"
proof -
  have "wire_decode [] = Some []" by (simp add: wire_decode_def wire_commands.simps)
  then show ?thesis using assms unfolding speaks_def by (metis append_Nil2)
qed

lemma raw_write_speaks:
  assumes t: "transmits sent ud" and d: "data \<noteq> []" "length data \<le> 32" "engine < BZM_MAX_ENGINE_COUNT"
  shows "\<exists>w'. serial_write_register_raw ud asic_id engine offset data w = (True, w') \<and>
    speaks sent w [WireWrite asic_id engine offset data] w'"
proof -
  let ?b = "bzm_transport_encode_write asic_id engine offset (Some data) 76"
  have b: "\<And>rest. wire_decode (?b @ rest) = map_option (Cons (WireWrite asic_id engine offset data)) (wire_decode rest)" "?b \<noteq> []"
    using wire_write[OF d(1) _ d(3), of 76] d(2) by simp_all
  obtain n w' where w: "ud_write_bytes ud ?b w = (n, w')" by fastforce
  then have "n = int (length ?b)" "sent w' = sent w @ ?b" using t unfolding transmits_def by (metis fst_conv snd_conv)+
  moreover from this have "serial_write_register_raw ud asic_id engine offset data w = (True, w')"
    using b(2) d(2) w by (simp add: serial_write_register_raw_def SERIAL_send_def)
  ultimately show ?thesis unfolding speaks_def using b(1) by auto
qed

lemma write_all_speaks:
  assumes t: "transmits sent ud" and e: "engine < BZM_MAX_ENGINE_COUNT"
    and "\<forall>(offset, data)\<in>set writes. data \<noteq> [] \<and> length data \<le> 32"
  shows "\<exists>w'. write_all (serial_register_writer ud asic_id) engine writes w = (True, w') \<and>
    speaks sent w (map (\<lambda>(offset, data). WireWrite asic_id engine offset data) writes) w'"
  using assms(3)
proof (induction writes arbitrary: w)
  case (Cons x writes)
  obtain offset data where x: "x = (offset, data)" by fastforce
  obtain u where u: "serial_write_register_raw ud asic_id engine offset data w = (True, u)"
      "speaks sent w [WireWrite asic_id engine offset data] u"
    using raw_write_speaks[OF t _ _ e, of data asic_id offset w] Cons.prems x by auto
  obtain v where "write_all (serial_register_writer ud asic_id) engine writes u = (True, v)"
      "speaks sent u (map (\<lambda>(offset, data). WireWrite asic_id engine offset data) writes) v"
    using Cons.IH[of u] Cons.prems by auto
  moreover have "serial_register_writer ud asic_id engine offset data w = (True, u)"
    using u(1) by (simp add: serial_register_writer_def)
  ultimately show ?case using speaks_trans[OF u(2)] by (simp add: x)
qed (simp add: speaks_nil)

text \<open>The commands that give ASIC \<open>i\<close> its nonce range.\<close>

definition range_commands :: "bzm_serial_transport_t \<Rightarrow> bzm_work_t \<Rightarrow> nat \<Rightarrow> wire_command list" where
  "range_commands tr work i =
     (case bzm_partition_nonce_range (wk_starting_nonce work) (wk_end_nonce work) i (unat (tr_asic_count tr)) of
        None \<Rightarrow> []
      | Some (a, b) \<Rightarrow> [WireWrite (tr_asic_ids tr ! i) (wk_engine_id work) BZM_REG_START_NONCE (le_bytes 4 a),
                       WireWrite (tr_asic_ids tr ! i) (wk_engine_id work) BZM_REG_END_NONCE (le_bytes 4 b)])"

lemma write_ranges_speaks:
  assumes t: "transmits sent ud" and e: "wk_engine_id work < BZM_MAX_ENGINE_COUNT"
    and "\<forall>i\<in>set is. bzm_partition_nonce_range (wk_starting_nonce work) (wk_end_nonce work) i (unat (tr_asic_count tr)) \<noteq> None"
  shows "\<exists>w'. write_ranges ud tr work is w = (True, w') \<and> speaks sent w (concat (map (range_commands tr work) is)) w'"
  using assms(3)
proof (induction "is" arbitrary: w)
  case (Cons i "is")
  obtain a b where p: "bzm_partition_nonce_range (wk_starting_nonce work) (wk_end_nonce work) i (unat (tr_asic_count tr)) = Some (a, b)"
    using Cons.prems by auto
  have l: "le_bytes 4 (v :: u32) \<noteq> []" "length (le_bytes 4 v) \<le> 32" for v :: u32
    by (simp_all add: length_0_conv[symmetric] del: length_0_conv)
  note raw = raw_write_speaks[OF t l e, of "tr_asic_ids tr ! i"]
  obtain u where u: "serial_write_register_raw ud (tr_asic_ids tr ! i) (wk_engine_id work) BZM_REG_START_NONCE (le_bytes 4 a) w = (True, u)"
      "speaks sent w [WireWrite (tr_asic_ids tr ! i) (wk_engine_id work) BZM_REG_START_NONCE (le_bytes 4 a)] u"
    using raw by blast
  obtain v where v: "serial_write_register_raw ud (tr_asic_ids tr ! i) (wk_engine_id work) BZM_REG_END_NONCE (le_bytes 4 b) u = (True, v)"
      "speaks sent u [WireWrite (tr_asic_ids tr ! i) (wk_engine_id work) BZM_REG_END_NONCE (le_bytes 4 b)] v"
    using raw by blast
  obtain w' where w': "write_ranges ud tr work is v = (True, w')" "speaks sent v (concat (map (range_commands tr work) is)) w'"
    using Cons.IH[of v] Cons.prems by auto
  have "speaks sent w (range_commands tr work i) v"
    using speaks_trans[OF u(2) v(2)] by (simp add: range_commands_def p)
  then show ?case using p u(1) v(1) w'(1) speaks_trans[OF _ w'(2)] by simp
qed (simp add: speaks_nil)

lemma length_midstate: "length (work_midstate job version) = 32"
  by (simp add: work_midstate_def reverse_endianness_per_word_def bytes_of_def Let_def)

lemma work_writes_sizes:
  assumes "bzm_work_build (Some source) engine q tc lz enhanced = Some w0"
    and "work = w0\<lparr> wk_starting_nonce := a, wk_end_nonce := b \<rparr>"
  shows "wk_engine_id work < BZM_MAX_ENGINE_COUNT" "wk_midstate_count work \<noteq> 0" "wk_midstate_count work \<le> 4"
    "\<forall>(offset, data)\<in>set (work_writes work False). data \<noteq> [] \<and> length data \<le> 32"
proof -
  obtain job where j: "aw_template source = Some job" "engine < BZM_MAX_ENGINE_COUNT"
    using assms(1) by (auto simp: bzm_work_build_def not_le split: option.splits if_splits)
  define versions where "versions = bzm_build_versions (aj_version (snd job)) (aj_version_mask (snd job)) enhanced"
  have v: "fst versions \<noteq> 0" "fst versions \<le> 4" "length (snd versions) = 4"
    by (simp_all add: versions_def bzm_build_versions_def Let_def)
  have w: "wk_engine_id work = engine" "wk_midstate_count work = fst versions"
      "wk_midstates work = map (work_midstate (snd job)) (take (fst versions) (snd versions)) @
         replicate (4 - fst versions) (replicate 32 0)"
    using assms j(1) by (auto simp: bzm_work_build_def versions_def split: prod.splits if_splits)
  show "wk_engine_id work < BZM_MAX_ENGINE_COUNT" "wk_midstate_count work \<noteq> 0" "wk_midstate_count work \<le> 4"
    using j(2) v w by simp_all
  have len: "length (wk_midstates work ! i) = 32" if "i < wk_midstate_count work" for i
    using that v by (simp add: w nth_append length_midstate)
  have len_pos: "wk_midstates work ! i \<noteq> []" if "i < wk_midstate_count work" for i
    using len[OF that] by auto
  have "\<forall>(offset, data)\<in>set (work_writes work False). 0 < length data \<and> length data \<le> 32"
    using len_pos by (auto simp: work_writes_def len simp del: length_greater_0_conv)
  then show "\<forall>(offset, data)\<in>set (work_writes work False). data \<noteq> [] \<and> length data \<le> 32" by auto
qed

section \<open>Properties\<close>

text \<open>C17. The ASICs share the nonces of a job: the range of a job with at least as many nonces as there are
  ASICs is divided so that every nonce of the range belongs to the part of exactly one ASIC and no
  other nonce to any; all parts but the last have the same size, and the last is at least as large.\<close>

theorem nonce_partition_exact:
  assumes "s \<le> e" and "0 < n" and "n \<le> unat e - unat s + 1"
  shows "(s \<le> nonce \<and> nonce \<le> e \<longleftrightarrow> (\<exists>!i. i < n \<and> range_has s e n i nonce)) \<and>
    (s \<le> nonce \<and> nonce \<le> e \<or> (\<forall>i<n. \<not> range_has s e n i nonce)) \<and>
    (\<forall>i<n. \<exists>a b. bzm_partition_nonce_range s e i n = Some (a, b) \<and>
       (if i + 1 < n then unat b - unat a + 1 = (unat e - unat s + 1) div n
        else (unat e - unat s + 1) div n \<le> unat b - unat a + 1))"
proof (intro conjI)
  let ?k = "min ((unat nonce - unat s) div ((unat e - unat s + 1) div n)) (n - 1)"
  have has: "i < n \<Longrightarrow> range_has s e n i nonce \<longleftrightarrow> s \<le> nonce \<and> nonce \<le> e \<and> i = ?k" for i
    by (rule range_has_iff[OF assms])
  have k: "?k < n" using assms(2) by simp
  show "s \<le> nonce \<and> nonce \<le> e \<longleftrightarrow> (\<exists>!i. i < n \<and> range_has s e n i nonce)"
    using has k by metis
  show "s \<le> nonce \<and> nonce \<le> e \<or> (\<forall>i<n. \<not> range_has s e n i nonce)" using has by blast
  let ?d = "(unat e - unat s + 1) div n"
  have se: "unat s \<le> unat e" using assms(1) by (simp add: word_le_nat_alt)
  have d: "0 < ?d" using assms(2,3) by (simp add: div_greater_zero_iff)
  show "\<forall>i<n. \<exists>a b. bzm_partition_nonce_range s e i n = Some (a, b) \<and>
       (if i + 1 < n then unat b - unat a + 1 = ?d else ?d \<le> unat b - unat a + 1)"
  proof (intro allI impI)
    fix i
    assume i: "i < n"
    obtain a b where p: "bzm_partition_nonce_range s e i n = Some (a, b)" "unat a = unat s + ?d * i"
        "unat b = (if i + 1 = n then unat e else unat s + ?d * (i + 1) - 1)"
      using partition_values[OF assms i] by blast
    have "?d * (i + 1) \<le> ?d * n" using i by (intro mult_le_mono2) simp
    also have "\<dots> \<le> unat e - unat s + 1" by simp
    finally have "?d * (i + 1) \<le> unat e - unat s + 1" .
    then show "\<exists>a b. bzm_partition_nonce_range s e i n = Some (a, b) \<and>
       (if i + 1 < n then unat b - unat a + 1 = ?d else ?d \<le> unat b - unat a + 1)"
      using p d i se by (intro exI[of _ a] exI[of _ b]) (auto simp: algebra_simps)
  qed
qed

theorem nonce_partition_exact_witness:
  "\<exists>!i. i < 4 \<and> range_has 0 UINT32_MAX 4 i 0xc0000000"
  using nonce_partition_exact[of 0 UINT32_MAX 4 "0xc0000000"] by simp

text \<open>C7. What reaches the wire is the intended work: with a driver that transmits what it is given, writing a
  work built for an engine succeeds for every chain that has an ASIC and no more ASICs than nonces, and
  the bytes sent decode, as the ASICs decode them, to exactly the nonce range of each ASIC in turn,
  followed by the register programming of the work addressed to all of them.\<close>

theorem work_on_the_wire:
  assumes "transmits sent ud" and "bzm_work_build (Some source) engine q tc lz enhanced = Some w0"
    and "work = w0\<lparr> wk_starting_nonce := a, wk_end_nonce := b \<rparr>" and "a \<le> b"
    and "0 < unat (tr_asic_count tr)" and "unat (tr_asic_count tr) \<le> unat b - unat a + 1"
  shows "\<exists>bytes w'. bzm_serial_write_work ud (Some work) (tr, w) = (True, tr, w') \<and> sent w' = sent w @ bytes \<and>
    wire_decode bytes = Some (concat (map (range_commands tr work) [0..<unat (tr_asic_count tr)]) @
      map (\<lambda>(offset, data). WireWrite BZM_ALL_ASICS engine offset data) (work_writes work False))"
proof -
  let ?n = "unat (tr_asic_count tr)"
  note sizes = work_writes_sizes[OF assms(2,3)]
  have e: "wk_engine_id work = engine"
    using assms(2,3) by (auto simp: bzm_work_build_def split: option.splits if_splits prod.splits)
  have r: "wk_starting_nonce work = a" "wk_end_nonce work = b" using assms(3) by simp_all
  have "\<forall>i\<in>set [0..<?n]. bzm_partition_nonce_range (wk_starting_nonce work) (wk_end_nonce work) i ?n \<noteq> None"
    using partition_values[OF assms(4-6)] by (fastforce simp: r)
  from write_ranges_speaks[OF assms(1) sizes(1) this] obtain u
    where u: "write_ranges ud tr work [0..<?n] w = (True, u)" "speaks sent w (concat (map (range_commands tr work) [0..<?n])) u"
    by blast
  obtain v where v: "write_all (serial_register_writer ud BZM_ALL_ASICS) engine (work_writes work False) u = (True, v)"
      "speaks sent u (map (\<lambda>(offset, data). WireWrite BZM_ALL_ASICS engine offset data) (work_writes work False)) v"
    using write_all_speaks[OF assms(1) sizes(1,4)] e by blast
  have "bzm_serial_write_work ud (Some work) (tr, w) = (True, tr, v)"
    using u(1) v(1) assms(5) sizes(2,3) e
    by (auto simp: bzm_serial_write_work_def bzm_transport_program_broadcast_work_def program_work_def)
  then show ?thesis using speaks_decode[OF speaks_trans[OF u(2) v(2)]] by blast
qed

text \<open>A driver that keeps what it sent and receives nothing, and a chain of two ASICs.\<close>

definition recording_driver :: "u8 list uart_driver" where
  "recording_driver = \<lparr> ud_param_config = (\<lambda>w. (ESP_OK, w)), ud_set_pin = (\<lambda>w. (ESP_OK, w)),
     ud_driver_install = (\<lambda>_ _ w. (ESP_OK, w)), ud_set_rx_full_threshold = (\<lambda>_ w. (ESP_OK, w)), ud_driver_delete = (\<lambda>w. w),
     ud_is_driver_installed = (\<lambda>w. True), ud_wait_tx_done = (\<lambda>_ w. (ESP_OK, w)), ud_set_baudrate = (\<lambda>_ w. (ESP_OK, w)),
     ud_flush_input = (\<lambda>w. (ESP_OK, w)), ud_flush = (\<lambda>w. w), ud_write_bytes = (\<lambda>data w. (int (length data), w @ data)),
     ud_read_bytes = (\<lambda>_ _ w. (Some [], w)), ud_timer = (\<lambda>w. (0, w)), ud_delay = (\<lambda>_ w. w), ud_ms_to_ticks = id,
     ud_tick_period_ms = 1 \<rparr>"

definition demo_chain :: bzm_serial_transport_t where
  "demo_chain = \<lparr> tr_asic_ids = [0x0a, 0x14, 0, 0], tr_asic_count = 2, tr_engine_count = 236, tr_enhanced_mode = True, tr_io = zero_io \<rparr>"

definition demo_source :: asic_work_t where
  "demo_source = \<lparr> aw_handle = 0x100, aw_template = Some (3, rs_job demo_result) \<rparr>"

theorem work_on_the_wire_witness:
  "\<exists>w0 work bytes w'. bzm_work_build (Some demo_source) 0x42 0 60 0x2b True = Some w0 \<and>
     work = w0\<lparr> wk_starting_nonce := 0, wk_end_nonce := UINT32_MAX \<rparr> \<and>
     bzm_serial_write_work recording_driver (Some work) (demo_chain, []) = (True, demo_chain, w') \<and>
     wire_decode w' = Some (concat (map (range_commands demo_chain work) [0..<2]) @
       map (\<lambda>(offset, data). WireWrite BZM_ALL_ASICS 0x42 offset data) (work_writes work False))"
proof -
  have "bzm_work_build (Some demo_source) 0x42 0 60 0x2b True \<noteq> None"
    by (simp add: bzm_work_build_def demo_source_def split: prod.split)
  then obtain w0 where w0: "bzm_work_build (Some demo_source) 0x42 0 60 0x2b True = Some w0" by blast
  have t: "transmits id recording_driver" by (simp add: transmits_def recording_driver_def)
  show ?thesis
    using work_on_the_wire[OF t w0 refl, of 0 UINT32_MAX demo_chain "[]"] w0
    by (auto simp: demo_chain_def)
qed

end
