(* ===== verification/ResultQueue.thy ===== *)
theory ResultQueue
  imports ChainWire
begin

text \<open>
  The queue of received results (\<open>components/asic/bzm_transport.c\<close>): a ring of 256 entries that drops its
  oldest entry when it is full. Every operation of the transport keeps it in shape.
\<close>

section \<open>The queue\<close>

definition queue_ok :: "bzm_serial_io_state_t \<Rightarrow> bool" where
  "queue_ok io \<longleftrightarrow> length (io_pending_results io) = 256 \<and> io_pending_result_head io < 256 \<and> io_pending_result_length io \<le> 256"

definition queued :: "bzm_serial_io_state_t \<Rightarrow> bzm_raw_result_t list" where
  "queued io = map (\<lambda>i. io_pending_results io ! ((io_pending_result_head io + i) mod 256)) [0..<io_pending_result_length io]"

lemma queued_ring:
  assumes "queue_ok io"
  shows "queued io = ring_view (io_pending_results io) ((io_pending_result_head io + io_pending_result_length io) mod 256)
    (io_pending_result_length io)"
proof -
  have "((h + n) mod 256 + 256 - n + i) mod 256 = (h + i) mod (256 :: nat)" if "n \<le> 256" for h n i
  proof -
    have "((h + n) mod 256 + (256 - n + i)) mod 256 = (h + n + (256 - n + i)) mod 256" by (rule mod_add_left_eq)
    also have "h + n + (256 - n + i) = h + i + 256" using that by simp
    finally have "((h + n) mod 256 + (256 - n + i)) mod 256 = (h + i) mod 256" by simp
    moreover have "(h + n) mod 256 + 256 - n + i = (h + n) mod 256 + (256 - n + i)" using that by arith
    ultimately show ?thesis by (simp only:)
  qed
  note shift = this[of "io_pending_result_length io" "io_pending_result_head io"]
  have "length (io_pending_results io) = 256" "io_pending_result_length io \<le> 256" using assms by (auto simp: queue_ok_def)
  then show ?thesis unfolding queued_def ring_view_def by (simp only: shift)
qed

lemma queue_push:
  assumes ok: "queue_ok io"
  shows "queue_ok (queue_result_locked r io)" "queued (queue_result_locked r io) = last_n 256 (queued io @ [r])"
    "io_dropped_results (queue_result_locked r io) =
       io_dropped_results io + (if length (queued io) = 256 then 1 else 0)"
proof -
  let ?h = "io_pending_result_head io" and ?n = "io_pending_result_length io" and ?a = "io_pending_results io"
  let ?q = "queue_result_locked r io"
  have b: "length ?a = 256" "?h < 256" "?n \<le> 256" using ok by (auto simp: queue_ok_def)
  show okq: "queue_ok ?q" using b by (auto simp: queue_ok_def queue_result_locked_def Let_def)
  show "io_dropped_results ?q = io_dropped_results io + (if length (queued io) = 256 then 1 else 0)"
    by (simp add: queue_result_locked_def Let_def queued_def)
  have q: "io_pending_results ?q = ?a[(?h + ?n) mod 256 := r]"
      "io_pending_result_length ?q = (if ?n < 256 then ?n + 1 else ?n)"
    using b by (auto simp: queue_result_locked_def Let_def mod_simps)
  have "(io_pending_result_head ?q + io_pending_result_length ?q) mod 256 = (?h + ?n + 1) mod 256"
  proof (cases "?n = 256")
    case True
    have "((?h + 1) mod 256 + 256) mod 256 = (?h + 256 + 1) mod 256" by presburger
    then show ?thesis using True by (simp add: queue_result_locked_def Let_def del: mod_add_self2 mod_add_self1)
  next
    case False
    then show ?thesis using b by (simp add: queue_result_locked_def Let_def)
  qed
  then have tail: "(io_pending_result_head ?q + io_pending_result_length ?q) mod 256 = ((?h + ?n) mod 256 + 1) mod 256"
    by (simp only: mod_add_left_eq)
  have "ring_ok ?a ((?h + ?n) mod 256) ?n" using b by (simp add: ring_ok_def)
  from ring_push_view[OF this, of r]
  show "queued ?q = last_n 256 (queued io @ [r])"
    unfolding queued_ring[OF okq] queued_ring[OF ok] tail unfolding q b(1) .
qed

interpretation results: bounded_history queue_result_locked queued 256 queue_ok
proof unfold_locales
  show "queue_ok s \<Longrightarrow> queue_ok (queue_result_locked x s)" for s x by (rule queue_push)
  show "queue_ok s \<Longrightarrow> queued (queue_result_locked x s) = last_n 256 (queued s @ [x])" for s x by (rule queue_push)
  show "queue_ok s \<Longrightarrow> length (queued s) \<le> 256" for s by (simp add: queue_ok_def queued_def)
qed

text \<open>Taking the oldest entry.\<close>

lemma dequeue_queued:
  assumes ok: "queue_ok (tr_io tr)" and up: "io_initialized (tr_io tr)" and d: "dequeue_result tr = (r, tr')"
  shows "queue_ok (tr_io tr') \<and> (case queued (tr_io tr) of [] \<Rightarrow> r = None \<and> tr' = tr
    | x # xs \<Rightarrow> r = Some x \<and> queued (tr_io tr') = xs)"
proof (cases "io_pending_result_length (tr_io tr) = 0")
  case True
  then show ?thesis using ok d by (simp add: dequeue_result_def Let_def queued_def)
next
  case False
  let ?io = "tr_io tr"
  obtain n where n: "io_pending_result_length ?io = Suc n" using False by (cases "io_pending_result_length ?io") auto
  have q: "queued ?io = io_pending_results ?io ! io_pending_result_head ?io #
      map (\<lambda>i. io_pending_results ?io ! ((io_pending_result_head ?io + Suc i) mod 256)) [0..<n]"
    using ok by (simp add: queued_def n queue_ok_def map_upt_Suc del: upt_Suc)
  have "((h + 1) mod 256 + i) mod 256 = (h + Suc i) mod (256 :: nat)" for h i by (simp add: mod_simps)
  then show ?thesis
    unfolding q using ok up d False n
    by (auto simp: dequeue_result_def Let_def queue_ok_def queued_def)
qed

section \<open>Received frames\<close>

definition result_of_frame :: "bzm_frame_t \<Rightarrow> bzm_raw_result_t option" where
  "result_of_frame frame =
     (if fr_type frame = BZM_FRAME_RESULT \<and> addressed_asic (fr_asic_id frame)
      then map_option (\<lambda>r. r\<lparr> raw_asic_id := fr_asic_id frame \<rparr>) (bzm_result_decode (fr_payload frame) (fr_timestamp_us frame))
      else None)"

lemma handler_queue:
  assumes "queue_ok io"
  shows "queue_ok (transport_frame_handler f io)"
    and "queued (transport_frame_handler f io) = (case result_of_frame f of None \<Rightarrow> queued io | Some r \<Rightarrow> last_n 256 (queued io @ [r]))"
    and "io_dropped_results (transport_frame_handler f io) =
      io_dropped_results io + (if result_of_frame f \<noteq> None \<and> length (queued io) = 256 then 1 else 0)"
    and "io_initialized (transport_frame_handler f io) = io_initialized io"
proof -
  have same: "queue_ok io' = queue_ok io \<and> queued io' = queued io"
    if "io_pending_results io' = io_pending_results io" "io_pending_result_head io' = io_pending_result_head io"
      "io_pending_result_length io' = io_pending_result_length io" for io'
    using that by (simp add: queue_ok_def queued_def)
  consider (result) r where "result_of_frame f = Some r" "transport_frame_handler f io = queue_result_locked r io"
    | (other) "result_of_frame f = None"
        "io_pending_results (transport_frame_handler f io) = io_pending_results io"
        "io_pending_result_head (transport_frame_handler f io) = io_pending_result_head io"
        "io_pending_result_length (transport_frame_handler f io) = io_pending_result_length io"
        "io_dropped_results (transport_frame_handler f io) = io_dropped_results io"
        "io_initialized (transport_frame_handler f io) = io_initialized io"
  proof (cases "fr_type f")
    case BZM_FRAME_RESULT
    then show thesis
      by (cases "addressed_asic (fr_asic_id f)"; cases "bzm_result_decode (fr_payload f) (fr_timestamp_us f)")
        (auto intro: result other simp: transport_frame_handler_def result_of_frame_def)
  qed (rule other; simp add: transport_frame_handler_def result_of_frame_def split: prod.split)+
  note c = this
  show "queue_ok (transport_frame_handler f io)"
    using assms same[of "transport_frame_handler f io"] queue_push(1) by (cases rule: c) auto
  show "queued (transport_frame_handler f io) = (case result_of_frame f of None \<Rightarrow> queued io | Some r \<Rightarrow> last_n 256 (queued io @ [r]))"
    using assms same[of "transport_frame_handler f io"] queue_push(2) by (cases rule: c) auto
  show "io_dropped_results (transport_frame_handler f io) =
      io_dropped_results io + (if result_of_frame f \<noteq> None \<and> length (queued io) = 256 then 1 else 0)"
    using queue_push(3)[OF assms] by (cases rule: c) auto
  show "io_initialized (transport_frame_handler f io) = io_initialized io"
    by (cases rule: c) (auto simp: queue_result_locked_def Let_def)
qed

lemma frames_queue:
  assumes "queue_ok io"
  shows "queue_ok (fold transport_frame_handler fs io) \<and>
    queued (fold transport_frame_handler fs io) = last_n 256 (queued io @ List.map_filter result_of_frame fs) \<and>
    io_dropped_results (fold transport_frame_handler fs io) =
      io_dropped_results io + of_nat (length (queued io) + length (List.map_filter result_of_frame fs) - 256) \<and>
    io_initialized (fold transport_frame_handler fs io) = io_initialized io"
  using assms
proof (induction fs arbitrary: io)
  case Nil
  then show ?case using results.view_bound[of io] by (simp add: map_filter_simps)
next
  case (Cons f fs)
  note h = handler_queue[OF Cons.prems, of f]
  note ih = Cons.IH[OF h(1)]
  show ?case
  proof (cases "result_of_frame f")
    case None
    then show ?thesis using ih h by (simp add: map_filter_simps)
  next
    case (Some r)
    have len: "length (queued io) \<le> 256" using results.view_bound[OF Cons.prems] .
    have "last_n 256 (last_n 256 (queued io @ [r]) @ List.map_filter result_of_frame fs) =
        last_n 256 (queued io @ r # List.map_filter result_of_frame fs)"
      using last_n_last_n_append[of 256 "queued io @ [r]"] by simp
    moreover have "(1 :: u32) + of_nat (256 + m - 256) = of_nat (256 + Suc m - 256)" for m by simp
    ultimately show ?thesis
      using ih h Some len by (cases "length (queued io) = 256") (simp_all add: map_filter_simps min_def add.assoc)
  qed
qed

section \<open>The queue under every operation of the transport\<close>

definition tr_ok :: "bzm_serial_transport_t \<Rightarrow> bool" where
  "tr_ok tr \<longleftrightarrow> (io_initialized (tr_io tr) \<longrightarrow> queue_ok (tr_io tr))"

lemma tr_ok_same:
  assumes "tr_ok tr" and "io_pending_results (tr_io tr') = io_pending_results (tr_io tr)"
    and "io_pending_result_head (tr_io tr') = io_pending_result_head (tr_io tr)"
    and "io_pending_result_length (tr_io tr') = io_pending_result_length (tr_io tr)"
    and "io_initialized (tr_io tr') \<longrightarrow> io_initialized (tr_io tr)"
  shows "tr_ok tr'"
  using assms by (auto simp: tr_ok_def queue_ok_def)

lemma zero_io_ok [simp]: "queue_ok zero_io" by (simp add: queue_ok_def zero_io_def)

lemma init_ok: "tr_ok tr \<Longrightarrow> tr_ok (snd (bzm_serial_transport_init created tr))"
  by (auto simp: bzm_serial_transport_init_def tr_ok_def queue_ok_def zero_io_def)

lemma deinit_ok: "tr_ok tr \<Longrightarrow> tr_ok (bzm_serial_transport_deinit tr)"
  by (simp add: bzm_serial_transport_deinit_def tr_ok_def)

lemma reset_ok: "tr_ok tr \<Longrightarrow> tr_ok (reset_io_state telemetry counters tr)"
  by (simp add: reset_io_state_def Let_def tr_ok_def queue_ok_def)

lemma ingest_queue:
  assumes ok: "tr_ok tr"
  shows "tr_ok (snd (bzm_serial_transport_ingest_bytes tr data ts))"
proof (cases "io_initialized (tr_io tr)")
  case True
  then have "queue_ok ((tr_io tr)\<lparr> io_parser := p \<rparr>)" for p using ok by (simp add: tr_ok_def queue_ok_def)
  from frames_queue[OF this] show ?thesis
    using ok by (auto simp: bzm_serial_transport_ingest_bytes_def tr_ok_def split: option.split prod.split)
qed (use ok in \<open>simp add: bzm_serial_transport_ingest_bytes_def\<close>)

lemma dequeue_ok:
  assumes "tr_ok tr" shows "tr_ok (snd (dequeue_result tr))"
proof (cases "io_initialized (tr_io tr)")
  case True
  obtain r tr' where d: "dequeue_result tr = (r, tr')" by (cases "dequeue_result tr")
  show ?thesis using dequeue_queued[OF _ True d] assms True d by (simp add: tr_ok_def)
qed (use assms in \<open>simp add: dequeue_result_def Let_def\<close>)

lemma discard_ok: "tr_ok tr \<Longrightarrow> tr_ok (bzm_serial_discard_pending_results tr)"
  by (simp add: bzm_serial_discard_pending_results_def tr_ok_def queue_ok_def)

lemma expect_ok: "tr_ok tr \<Longrightarrow> tr_ok (snd (bzm_serial_expect_register_reply tr asic n))"
  by (erule tr_ok_same) (simp_all add: bzm_serial_expect_register_reply_def Let_def split: prod.split)

lemma take_ok: "tr_ok tr \<Longrightarrow> tr_ok (snd (bzm_serial_take_register_reply tr asic n))"
  by (erule tr_ok_same) (simp_all add: bzm_serial_take_register_reply_def Let_def)

lemma cancel_ok: "tr_ok tr \<Longrightarrow> tr_ok (snd (bzm_serial_cancel_register_reply tr asic))"
  by (erule tr_ok_same) (simp_all add: bzm_serial_cancel_register_reply_def Let_def)

lemma clear_ok: "tr_ok tr \<Longrightarrow> tr_ok (clear_partial_frame tr)"
  by (erule tr_ok_same) (simp_all add: clear_partial_frame_def)

lemma end_noop_ok: "tr_ok tr \<Longrightarrow> tr_ok (end_noop tr)"
  by (erule tr_ok_same) (simp_all add: end_noop_def)

lemma take_noop_ok: "tr_ok tr \<Longrightarrow> tr_ok (snd (take_noop tr))"
  by (simp add: take_noop_def end_noop_ok)

lemma poll_loop_ok: "tr_ok tr \<Longrightarrow> tr_ok (fst (snd (poll_loop reader ud received tot emitted tr w)))"
proof (induction reader ud received tot emitted tr w rule: poll_loop.induct)
  case (1 reader ud count bytes tot emitted tr w)
  show ?case
  proof (cases "count > 0 \<and> tot < SERIAL_RX_BUFFER_BYTES \<and> \<not> (nat count > 128 \<or> nat count > SERIAL_RX_BUFFER_BYTES - tot)")
    case True
    let ?capacity = "if SERIAL_RX_BUFFER_BYTES - (tot + nat count) < 128 then SERIAL_RX_BUFFER_BYTES - (tot + nat count) else 128"
    obtain now w1 where t: "ud_timer ud w = (now, w1)" by (cases "ud_timer ud w")
    obtain d tr1 where i: "bzm_serial_transport_ingest_bytes tr (Some (take (nat count) bytes)) (of_int now) = (d, tr1)"
      by (cases "bzm_serial_transport_ingest_bytes tr (Some (take (nat count) bytes)) (of_int now)")
    obtain x w2 where r: "reader ?capacity 0 w1 = (x, w2)" by (cases "reader ?capacity 0 w1")
    have ok: "tr_ok tr1" using ingest_queue[OF 1(2), of "Some (take (nat count) bytes)" "of_int now"] i by simp
    show ?thesis
      using True ok t i r 1(1)[OF _ refl _ t[symmetric] refl i[symmetric] refl refl refl _ r[symmetric] refl ok]
      by (subst poll_loop.simps) (auto simp: Let_def)
  next
    case False
    then show ?thesis using 1(2) by (subst poll_loop.simps) (auto simp: Let_def)
  qed
qed

lemma poll_ok: "tr_ok tr \<Longrightarrow> tr_ok (fst (snd (bzm_serial_poll ud tr ms w)))"
  by (simp add: bzm_serial_poll_def poll_loop_ok split: prod.split)

lemma poll_with_reader_ok: "tr_ok tr \<Longrightarrow> tr_ok (fst (snd (bzm_serial_poll_with_reader ud tr ms reader w)))"
  by (simp add: bzm_serial_poll_with_reader_def poll_loop_ok split: prod.split option.split)

text \<open>The waiting loops and the blocking operations.\<close>

lemma await_ok:
  assumes look: "\<And>tr. tr_ok tr \<Longrightarrow> tr_ok (snd (look tr))" and "await ud look deadline tr w = Some (r, tr', w')" and "tr_ok tr"
  shows "tr_ok tr'"
proof -
  have "tr_ok (fst (snd y))" if "await ud look' deadline tr w = Some y" and "look' = look" and "tr_ok tr"
    for ud :: "'b uart_driver" and look' deadline tr w y
    using that
  proof (induction ud look' deadline tr w y rule: await.raw_induct[rotated, consumes 1, case_names step])
    case (step f ud look' deadline tr w y)
    obtain ms w1 where m: "remaining_ms ud deadline w = (ms, w1)" by (cases "remaining_ms ud deadline w")
    obtain n tr2 w2 where p: "bzm_serial_poll ud tr ms w1 = (n, tr2, w2)" by (cases "bzm_serial_poll ud tr ms w1")
    obtain l tr3 where l: "look tr2 = (l, tr3)" by (cases "look tr2")
    have "tr_ok tr2" using poll_ok[OF \<open>tr_ok tr\<close>, of ud ms w1] p by simp
    then have ok3: "tr_ok tr3" using look[of tr2] l by simp
    show ?case
      using step(2-) m p l ok3 step(1)[of ud look' deadline tr3 w2 y]
      by (auto simp: Let_def split: if_splits option.splits)
  qed
  from this[OF assms(2) refl assms(3)] show ?thesis by simp
qed

lemma look_and_await_ok:
  assumes look: "\<And>tr. tr_ok tr \<Longrightarrow> tr_ok (snd (look tr))" and "look_and_await ud look deadline tr w = Some (r, tr', w')"
    and "tr_ok tr"
  shows "tr_ok tr'"
proof (cases "look tr")
  case (Pair l tr1)
  then have "tr_ok tr1" using look[OF assms(3)] by simp
  then show ?thesis using assms(2) Pair await_ok[OF look, of _ ud deadline tr1 w r tr' w']
    by (auto simp: look_and_await_def split: option.splits)
qed

lemma probe_ok:
  assumes "bzm_serial_probe_noop ud asic (tr, w) = Some (r, tr', w')" and "tr_ok tr"
  shows "tr_ok tr'"
proof -
  let ?tr1 = "tr\<lparr> tr_io := (tr_io tr)\<lparr> io_noop_pending := True, io_noop_ready := False, io_noop_asic_id := asic \<rparr> \<rparr>"
  have ok1: "tr_ok ?tr1" using assms(2) by (rule tr_ok_same) simp_all
  have waited: "tr_ok tr2" if "look_and_await ud take_noop d ?tr1 w1 = Some (r, tr2, w2)" for d w1 r tr2 w2
    using look_and_await_ok[OF take_noop_ok that ok1] .
  show ?thesis
    using assms ok1 waited
    by (auto simp: bzm_serial_probe_noop_def Let_def bind_eq_Some_conv intro!: clear_ok end_noop_ok
        split: if_splits prod.splits option.splits)
qed

lemma read_register_ok:
  assumes "serial_read_register_op ud asic engine off len (tr, w) = Some (r, tr', w')" and "tr_ok tr"
  shows "tr_ok tr'"
proof (cases "bzm_serial_expect_register_reply tr asic len")
  case (Pair e tr1)
  then have ok1: "tr_ok tr1" using expect_ok[OF assms(2), of asic len] by simp
  have waited: "tr_ok tr2"
    if "look_and_await ud (\<lambda>tr. bzm_serial_take_register_reply tr asic len) d tr1 w1 = Some (r, tr2, w2)" for d w1 r tr2 w2
    using look_and_await_ok[OF take_ok that ok1] .
  show ?thesis
    using assms Pair ok1 waited
    by (auto simp: serial_read_register_op_def Let_def bind_eq_Some_conv intro!: clear_ok cancel_ok
        split: if_splits prod.splits option.splits)
qed

lemma read_result_ok:
  assumes "bzm_serial_read_result ud ms (tr, w) = Some (r, tr', w')" and "tr_ok tr"
  shows "tr_ok tr'"
proof (cases "dequeue_result tr")
  case (Pair d tr1)
  then have ok1: "tr_ok tr1" using dequeue_ok[OF assms(2)] by simp
  show ?thesis
    using assms Pair ok1 await_ok[of dequeue_result, OF dequeue_ok _ ok1]
    by (auto simp: bzm_serial_read_result_def Let_def split: if_splits prod.splits option.splits)
qed

definition context_ok :: "'w serial_context \<Rightarrow> bool" where
  "context_ok c \<longleftrightarrow> (case c of None \<Rightarrow> True | Some (tr, w) \<Rightarrow> tr_ok tr)"

lemma chain_ops_ok:
  assumes "context_ok c"
  shows "context_ok (snd (serial_noop ud asic c))"
    and "context_ok (snd (serial_write_register_op ud asic engine off data c))"
    and "context_ok (snd (the (co_read_register (serial_chain_ops ud)) asic engine off len c))"
    and "context_ok (the (co_delay_ms (serial_chain_ops ud)) ms c)"
  using assms
  by (auto simp: context_ok_def serial_noop_def serial_write_register_op_def serial_chain_ops_def probe_ok read_register_ok
      split: option.splits prod.splits bind_split)

lemma discover_loop_ok: "context_ok c \<Longrightarrow> context_ok (snd (discover_loop (serial_chain_ops ud) js found c))"
proof (induction js arbitrary: found c)
  case (Cons j js)
  have ops: "co_noop (serial_chain_ops ud) = Some (serial_noop ud)"
      "co_write_register (serial_chain_ops ud) = Some (serial_write_register_op ud)"
      "co_delay_ms (serial_chain_ops ud) = Some (the (co_delay_ms (serial_chain_ops ud)))"
      "co_read_register (serial_chain_ops ud) = Some (the (co_read_register (serial_chain_ops ud)))"
    by (simp_all add: serial_chain_ops_def)
  let ?asic = "bzm_asic_wire_ids ! j"
  obtain ok1 c1 where 1: "serial_noop ud BZM_BROADCAST_ASIC c = (ok1, c1)" by (cases "serial_noop ud BZM_BROADCAST_ASIC c")
  let ?wr = "serial_write_register_op ud BZM_BROADCAST_ASIC BZM_CONTROL_ENGINE_ID BZM_REG_ASIC_ID
    [?asic, if j = 0 then 0x00 else 0x01, 0x00, 0x00] c1"
  obtain ok2 c2 where 2: "?wr = (ok2, c2)" by (cases ?wr)
  let ?c3 = "the (co_delay_ms (serial_chain_ops ud)) 200 c2"
  let ?rd = "the (co_read_register (serial_chain_ops ud)) ?asic BZM_CONTROL_ENGINE_ID BZM_REG_ASIC_ID 4 ?c3"
  obtain reply c4 where 4: "?rd = (reply, c4)" by (cases ?rd)
  have "context_ok c1" using chain_ops_ok(1)[OF Cons.prems] 1 by (metis snd_conv)
  then have k2: "context_ok c2" using chain_ops_ok(2) 2 by (metis snd_conv)
  then have "context_ok c4" using chain_ops_ok(3)[OF chain_ops_ok(4)] 4 by (metis snd_conv)
  then show ?case
    using \<open>context_ok c1\<close> k2 Cons.IH 1 2 4 ops(3)
    by (cases "co_delay_ms (serial_chain_ops ud)"; cases reply) (simp_all add: Let_def ops(1,2))
qed simp

lemma discover_ok:
  assumes "bzm_serial_discover_chain ud created n (tr, w) = Some (r, tr', w')" and "tr_ok tr"
  shows "tr_ok tr'"
proof (cases "bzm_serial_transport_init created tr")
  case (Pair ok tr1)
  then have ok1: "tr_ok tr1" using init_ok[OF assms(2), of created] by simp
  show ?thesis
  proof (cases ok)
    case False
    then show ?thesis using assms Pair ok1 by (auto simp: bzm_serial_discover_chain_def)
  next
    case True
    let ?start = "Some (reset_io_state True True tr1, SERIAL_clear_buffer ud w)"
    let ?found = "bzm_discover_chain n (length (tr_asic_ids (reset_io_state True True tr1))) (Some (serial_chain_ops ud)) ?start"
    have "context_ok ?start" using reset_ok[OF ok1] by (simp add: context_ok_def)
    then have "context_ok (snd ?found)" by (simp add: bzm_discover_chain_def discover_loop_ok)
    moreover obtain found c where "?found = (found, c)" by (cases ?found)
    ultimately show ?thesis
      using assms(1) Pair True
      by (auto simp: bzm_serial_discover_chain_def Let_def context_ok_def tr_ok_def queue_ok_def)
  qed
qed

lemma write_work_same: "fst (snd (bzm_serial_write_work ud work (tr, w))) = tr"
  by (auto simp: bzm_serial_write_work_def Let_def split: option.split prod.split)

lemma flush_ok: "tr_ok tr \<Longrightarrow> tr_ok (fst (snd (bzm_serial_flush ud (tr, w))))"
  by (simp add: bzm_serial_flush_def Let_def reset_ok split: prod.split)

text \<open>The transport in use: any operation, on the transport and the device.\<close>

inductive transport_step :: "'w uart_driver \<Rightarrow> bzm_serial_transport_t \<times> 'w \<Rightarrow> bzm_serial_transport_t \<times> 'w \<Rightarrow> bool" for ud where
  "transport_step ud (tr, w) (snd (bzm_serial_transport_init created tr), w)"
| "transport_step ud (tr, w) (bzm_serial_transport_deinit tr, w)"
| "transport_step ud (tr, w) (snd (bzm_serial_transport_ingest_bytes tr data ts), w)"
| "transport_step ud (tr, w) (bzm_serial_discard_pending_results tr, w)"
| "transport_step ud (tr, w) (snd (bzm_serial_expect_register_reply tr asic n), w)"
| "transport_step ud (tr, w) (snd (bzm_serial_take_register_reply tr asic n), w)"
| "transport_step ud (tr, w) (snd (bzm_serial_cancel_register_reply tr asic), w)"
| "transport_step ud (tr, w) (snd (bzm_serial_poll ud tr ms w))"
| "transport_step ud (tr, w) (snd (bzm_serial_poll_with_reader ud tr ms reader w))"
| "bzm_serial_probe_noop ud asic (tr, w) = Some (r, s) \<Longrightarrow> transport_step ud (tr, w) s"
| "bzm_serial_read_register ud asic engine off n (tr, w) = Some (reply, s) \<Longrightarrow> transport_step ud (tr, w) s"
| "bzm_serial_read_result ud ms (tr, w) = Some (res, s) \<Longrightarrow> transport_step ud (tr, w) s"
| "bzm_serial_discover_chain ud created n (tr, w) = Some (count, s) \<Longrightarrow> transport_step ud (tr, w) s"
| "transport_step ud (tr, w) (snd (bzm_serial_write_work ud work (tr, w)))"
| "transport_step ud (tr, w) (snd (bzm_serial_flush ud (tr, w)))"
| "transport_step ud (tr, w) (tr, w')"

lemma transport_step_ok:
  assumes "transport_step ud s t" and "tr_ok (fst s)"
  shows "tr_ok (fst t)"
  using assms
proof (cases rule: transport_step.cases)
  case (10 asic tr w r)
  then show ?thesis using probe_ok[of ud asic tr w r "fst t" "snd t"] assms(2) by simp
next
  case (11 asic engine off n tr w reply)
  then show ?thesis
    using read_register_ok[of ud asic engine off n tr w reply "fst t" "snd t"] assms(2) by (simp add: bzm_serial_read_register_def)
next
  case (12 ms tr w res)
  then show ?thesis using read_result_ok[of ud ms tr w res "fst t" "snd t"] assms(2) by simp
next
  case (13 created n tr w count)
  then show ?thesis using discover_ok[of ud created n tr w count "fst t" "snd t"] assms(2) by simp
qed (simp_all add: init_ok deinit_ok ingest_queue discard_ok expect_ok take_ok cancel_ok poll_ok poll_with_reader_ok
      write_work_same flush_ok)

text \<open>The fields are zero until the transport is initialised for the first time.\<close>

definition fresh_transport :: "bzm_serial_transport_t \<times> 'w \<Rightarrow> bool" where
  "fresh_transport s \<longleftrightarrow> \<not> io_initialized (tr_io (fst s))"

interpretation transport: invariant_system fresh_transport "transport_step ud" "\<lambda>s. tr_ok (fst s)" for ud
  by unfold_locales (auto simp: fresh_transport_def tr_ok_def dest: transport_step_ok[unfolded tr_ok_def])

section \<open>Properties\<close>

text \<open>C16. The queue of results of an initialised transport is, whatever operations led to it, a bounded
  queue that keeps the newest 256 results in the order received: ingesting bytes appends the
  results of the frames the parser delivers, the oldest leave first when there is no room and are
  counted, and a read takes the oldest that is left.\<close>

theorem result_queue_keeps_the_newest:
  assumes "reachable fresh_transport (transport_step ud) (tr, w)" and "io_initialized (tr_io tr)"
    and "bzm_frame_parser_feed (io_parser (tr_io tr)) bytes ts = (parser, frames)"
    and "bzm_serial_transport_ingest_bytes tr (Some bytes) ts = (n, tr')"
  shows "n = length frames \<and>
    queued (tr_io tr') = last_n 256 (queued (tr_io tr) @ List.map_filter result_of_frame frames) \<and>
    io_dropped_results (tr_io tr') = io_dropped_results (tr_io tr) +
      of_nat (length (queued (tr_io tr)) + length (List.map_filter result_of_frame frames) - 256) \<and>
    (case queued (tr_io tr') of [] \<Rightarrow> dequeue_result tr' = (None, tr')
     | x # xs \<Rightarrow> \<exists>tr''. dequeue_result tr' = (Some x, tr'') \<and> queued (tr_io tr'') = xs)"
proof -
  have ok: "queue_ok ((tr_io tr)\<lparr> io_parser := parser \<rparr>)"
    using transport.reachable_inv[OF assms(1)] assms(2) by (simp add: tr_ok_def queue_ok_def)
  have q: "queued ((tr_io tr)\<lparr> io_parser := parser \<rparr>) = queued (tr_io tr)" by (simp add: queued_def)
  have n: "n = length frames" and tr': "tr_io tr' = fold transport_frame_handler frames ((tr_io tr)\<lparr> io_parser := parser \<rparr>)"
    using assms(2-4) by (auto simp: bzm_serial_transport_ingest_bytes_def)
  note after = frames_queue[OF ok, of frames, folded tr', unfolded q]
  obtain r tr'' where d: "dequeue_result tr' = (r, tr'')" by (cases "dequeue_result tr'")
  have "queue_ok (tr_io tr')" "io_initialized (tr_io tr')" using after assms(2) by auto
  from dequeue_queued[OF this d] show ?thesis using after n d by (auto split: list.splits)
qed

theorem result_queue_keeps_the_newest_witness:
  "\<exists>parser frames n tr'. bzm_frame_parser_feed (io_parser zero_io) [0x0a, 0x01, 0x80, 0x42, 1, 2, 3, 4, 5, 6] 9 = (parser, frames) \<and>
     bzm_serial_transport_ingest_bytes (snd (bzm_serial_transport_init True demo_chain))
       (Some [0x0a, 0x01, 0x80, 0x42, 1, 2, 3, 4, 5, 6]) 9 = (n, tr') \<and>
     queued (tr_io tr') = last_n 256 (List.map_filter result_of_frame frames)"
proof -
  let ?tr = "snd (bzm_serial_transport_init True demo_chain)"
  have reach: "reachable fresh_transport (transport_step recording_driver) (?tr, [])"
  proof (rule reachable.step)
    show "reachable fresh_transport (transport_step recording_driver) (demo_chain, [])"
      by (rule reachable.start) (simp add: fresh_transport_def demo_chain_def zero_io_def)
    show "transport_step recording_driver (demo_chain, []) (?tr, [])" by (rule transport_step.intros(1))
  qed
  have tr: "io_initialized (tr_io ?tr)" "io_parser (tr_io ?tr) = io_parser zero_io" "queued (tr_io ?tr) = []"
    by (simp_all add: bzm_serial_transport_init_def demo_chain_def zero_io_def queued_def)
  obtain parser frames where f: "bzm_frame_parser_feed (io_parser zero_io) [0x0a, 0x01, 0x80, 0x42, 1, 2, 3, 4, 5, 6] 9 = (parser, frames)"
    by (cases "bzm_frame_parser_feed (io_parser zero_io) [0x0a, 0x01, 0x80, 0x42, 1, 2, 3, 4, 5, 6] 9")
  obtain n tr' where i: "bzm_serial_transport_ingest_bytes ?tr (Some [0x0a, 0x01, 0x80, 0x42, 1, 2, 3, 4, 5, 6]) 9 = (n, tr')"
    by (cases "bzm_serial_transport_ingest_bytes ?tr (Some [0x0a, 0x01, 0x80, 0x42, 1, 2, 3, 4, 5, 6]) 9")
  show ?thesis using result_queue_keeps_the_newest[OF reach tr(1) _ i, of parser frames] f i tr by auto
qed

end
