(* ===== verification/BalancedRamp.thy ===== *)
theory BalancedRamp
  imports ParserWindows SerialTransport
begin

text \<open>
  The balanced ramp of the bring-up (\<open>components/asic/bzm_balanced_ramp.c\<close>): the engines of an ASIC are
  activated in pairs, one of each voltage stack, each with its configuration and a sentinel work.
  The operations are parameters that act on a device state \<open>'c\<close>; a read gets the buffer it fills. A
  ramp that is NULL is refused by every operation and left out.
\<close>

section \<open>Model\<close>

abbreviation BZM_BALANCED_RAMP_ENGINE_CONFIG :: u8 where "BZM_BALANCED_RAMP_ENGINE_CONFIG \<equiv> 0x04"
abbreviation BZM_BALANCED_RAMP_ENGINE_BUSY_MASK :: u8 where "BZM_BALANCED_RAMP_ENGINE_BUSY_MASK \<equiv> 0x01"
abbreviation BZM_BALANCED_RAMP_ENGINE_CONFIG_WRITABLE_MASK :: u8 where
  "BZM_BALANCED_RAMP_ENGINE_CONFIG_WRITABLE_MASK \<equiv> 0x67"
abbreviation BZM_BALANCED_RAMP_ENGINE_CONFIG_ALLOWED_MASK :: u8 where
  "BZM_BALANCED_RAMP_ENGINE_CONFIG_ALLOWED_MASK \<equiv> 0x77"
abbreviation BZM_BALANCED_RAMP_BUSY_POLL_ATTEMPTS :: nat where "BZM_BALANCED_RAMP_BUSY_POLL_ATTEMPTS \<equiv> 3"
abbreviation BZM_ENGINE_REG_STATUS :: u8 where "BZM_ENGINE_REG_STATUS \<equiv> 0x00"
abbreviation BZM_ENGINE_REG_CONFIG :: u8 where "BZM_ENGINE_REG_CONFIG \<equiv> 0x01"
abbreviation BZM_LOCAL_REG_ENGINE_SOFT_RESET :: u8 where "BZM_LOCAL_REG_ENGINE_SOFT_RESET \<equiv> 0x16"

datatype bzm_balanced_ramp_failure_t =
    BZM_BALANCED_RAMP_FAILURE_NONE
  | BZM_BALANCED_RAMP_FAILURE_ARGUMENT
  | BZM_BALANCED_RAMP_FAILURE_PARSER_BASELINE
  | BZM_BALANCED_RAMP_FAILURE_TELEMETRY
  | BZM_BALANCED_RAMP_FAILURE_LEASE
  | BZM_BALANCED_RAMP_FAILURE_ENGINE_RESET
  | BZM_BALANCED_RAMP_FAILURE_CONFIG_WRITE
  | BZM_BALANCED_RAMP_FAILURE_SENTINEL_WRITE
  | BZM_BALANCED_RAMP_FAILURE_STATUS_READ
  | BZM_BALANCED_RAMP_FAILURE_NOT_BUSY
  | BZM_BALANCED_RAMP_FAILURE_CONFIG_READBACK
  | BZM_BALANCED_RAMP_FAILURE_INCOMPLETE
  | BZM_BALANCED_RAMP_FAILURE_FINAL_BARRIER
  | BZM_BALANCED_RAMP_FAILURE_PARSER_FINAL

record bzm_balanced_ramp_t =
  rm_next_pair :: "u16 list"
  rm_prepared_asic :: "bool list"
  rm_completed_pairs :: u16
  rm_completed_engines :: u16
  rm_baseline_captured :: bool
  rm_failed :: bool
  rm_failure :: bzm_balanced_ramp_failure_t
  rm_failure_asic_id :: u8
  rm_failure_engine_id :: u16
  rm_failure_register_offset :: u8
  rm_failure_expected :: u32
  rm_failure_actual :: u32
  rm_parser_baseline :: bzm_serial_parser_stats_t

record 'c bzm_balanced_ramp_ops_t =
  ro_begin_engine :: "(u8 \<Rightarrow> u16 \<Rightarrow> 'c \<Rightarrow> bool \<times> 'c) option"
  ro_write_register :: "(u8 \<Rightarrow> u16 \<Rightarrow> u8 \<Rightarrow> u8 list \<Rightarrow> 'c \<Rightarrow> bool \<times> 'c) option"
  ro_read_register :: "(u8 \<Rightarrow> u16 \<Rightarrow> u8 \<Rightarrow> u8 list \<Rightarrow> 'c \<Rightarrow> (bool \<times> u8 list) \<times> 'c) option"
  ro_delay_ms :: "(nat \<Rightarrow> 'c \<Rightarrow> 'c) option"
  ro_telemetry_sample :: "(u8 \<Rightarrow> bzm_telemetry_sample_t \<Rightarrow> 'c \<Rightarrow> (bool \<times> bzm_telemetry_sample_t) \<times> 'c) option"
  ro_parser_stats :: "(bzm_serial_parser_stats_t \<Rightarrow> 'c \<Rightarrow> (bool \<times> bzm_serial_parser_stats_t) \<times> 'c) option"
  ro_final_barrier :: "('c \<Rightarrow> bool \<times> 'c) option"

definition ramp_addressed_write :: "'c bzm_balanced_ramp_ops_t \<Rightarrow> u8 \<Rightarrow> 'c register_writer" where
  "ramp_addressed_write ops asic_id engine_id offset data c = the (ro_write_register ops) asic_id engine_id offset data c"

definition ops_are_complete :: "'c bzm_balanced_ramp_ops_t option \<Rightarrow> bool" where
  "ops_are_complete ops_opt \<longleftrightarrow>
     (case ops_opt of None \<Rightarrow> False
      | Some ops \<Rightarrow> ro_begin_engine ops \<noteq> None \<and> ro_write_register ops \<noteq> None \<and> ro_read_register ops \<noteq> None \<and>
          ro_delay_ms ops \<noteq> None \<and> ro_telemetry_sample ops \<noteq> None \<and> ro_parser_stats ops \<noteq> None \<and>
          ro_final_barrier ops \<noteq> None)"

definition parser_is_clean_relative_to :: "bzm_serial_parser_stats_t \<Rightarrow> bzm_serial_parser_stats_t \<Rightarrow> bool" where
  "parser_is_clean_relative_to baseline current \<longleftrightarrow>
     ps_discarded_bytes current = ps_discarded_bytes baseline \<and>
     ps_unexpected_register_headers current = ps_unexpected_register_headers baseline \<and>
     ps_dropped_results current = ps_dropped_results baseline \<and>
     ps_rejected_result_frames current = ps_rejected_result_frames baseline \<and>
     ps_unmatched_register_frames current = ps_unmatched_register_frames baseline \<and>
     ps_telemetry_decode_failures current = ps_telemetry_decode_failures baseline \<and> ps_queued_results current = 0"

definition bzm_balanced_ramp_parser_window_is_clean ::
    "bzm_serial_parser_stats_t option \<Rightarrow> bzm_serial_parser_stats_t option \<Rightarrow> bool" where
  "bzm_balanced_ramp_parser_window_is_clean baseline_opt current_opt \<longleftrightarrow>
     (case (baseline_opt, current_opt) of
        (Some baseline, Some current) \<Rightarrow> parser_is_clean_relative_to baseline current \<and>
          ps_discarded_bytes current = ps_discarded_bytes baseline \<and> ps_buffered_bytes current = 0
      | _ \<Rightarrow> False)"

definition bzm_balanced_ramp_accept_transition_discards ::
    "bzm_balanced_ramp_t \<Rightarrow> bzm_serial_parser_stats_t option \<Rightarrow> bool \<times> bzm_balanced_ramp_t" where
  "bzm_balanced_ramp_accept_transition_discards ramp current_opt =
     (case current_opt of None \<Rightarrow> (False, ramp)
      | Some current \<Rightarrow>
          (let baseline = rm_parser_baseline ramp
           in if \<not> rm_baseline_captured ramp \<or> ps_discarded_bytes current < ps_discarded_bytes baseline \<or>
                 ps_unexpected_register_headers current \<noteq> ps_unexpected_register_headers baseline \<or>
                 ps_dropped_results current \<noteq> ps_dropped_results baseline \<or>
                 ps_rejected_result_frames current \<noteq> ps_rejected_result_frames baseline \<or>
                 ps_unmatched_register_frames current \<noteq> ps_unmatched_register_frames baseline \<or>
                 ps_telemetry_decode_failures current \<noteq> ps_telemetry_decode_failures baseline \<or>
                 ps_queued_results current \<noteq> 0
              then (False, ramp)
              else (True, ramp\<lparr> rm_parser_baseline := baseline\<lparr> ps_discarded_bytes := ps_discarded_bytes current \<rparr> \<rparr>)))"

definition bzm_balanced_ramp_get_parser_baseline :: "bzm_balanced_ramp_t \<Rightarrow> bzm_serial_parser_stats_t option" where
  "bzm_balanced_ramp_get_parser_baseline ramp =
     (if \<not> rm_baseline_captured ramp \<or> rm_failed ramp \<or> ps_queued_results (rm_parser_baseline ramp) \<noteq> 0 then None
      else Some (rm_parser_baseline ramp))"

definition ramp_fail ::
    "bzm_balanced_ramp_t \<Rightarrow> bzm_balanced_ramp_failure_t \<Rightarrow> u8 \<Rightarrow> u16 \<Rightarrow> u8 \<Rightarrow> u32 \<Rightarrow> u32 \<Rightarrow> bool \<times> bzm_balanced_ramp_t" where
  "ramp_fail ramp failure asic_id engine_id register_offset expected actual =
     (False, ramp\<lparr> rm_failed := True, rm_failure := failure, rm_failure_asic_id := asic_id,
        rm_failure_engine_id := engine_id, rm_failure_register_offset := register_offset,
        rm_failure_expected := expected, rm_failure_actual := actual \<rparr>)"

text \<open>The polling for a busy engine over the attempts still to come; \<open>None\<close> when the last read failed.\<close>

fun poll_busy ::
    "'c bzm_balanced_ramp_ops_t \<Rightarrow> u8 \<Rightarrow> u16 \<Rightarrow> nat list \<Rightarrow> u8 list \<Rightarrow> 'c \<Rightarrow> (bool \<times> u8 list) option \<times> 'c" where
  "poll_busy ops asic_id engine_id [] status_and_config c = (Some (False, status_and_config), c)"
| "poll_busy ops asic_id engine_id (attempt # rest) status_and_config c =
     (let c = (if attempt \<noteq> 0 then the (ro_delay_ms ops) 1 c else c);
          ((ok, status_and_config), c) = the (ro_read_register ops) asic_id engine_id BZM_ENGINE_REG_STATUS status_and_config c
      in if \<not> ok
         then if attempt + 1 = BZM_BALANCED_RAMP_BUSY_POLL_ATTEMPTS then (None, c)
              else poll_busy ops asic_id engine_id rest status_and_config c
         else if status_and_config ! 0 AND BZM_BALANCED_RAMP_ENGINE_BUSY_MASK \<noteq> 0 then (Some (True, status_and_config), c)
         else poll_busy ops asic_id engine_id rest status_and_config c)"

definition activate_engine ::
    "bzm_balanced_ramp_t \<Rightarrow> 'c bzm_balanced_ramp_ops_t \<Rightarrow> u8 \<Rightarrow> bzm_engine_location_t \<Rightarrow> 'c \<Rightarrow>
     (bool \<times> bzm_balanced_ramp_t) \<times> 'c" where
  "activate_engine ramp ops asic_id engine c =
     (let id = el_physical_id engine;
          (begun, c) = the (ro_begin_engine ops) asic_id id c
      in if \<not> begun then (ramp_fail ramp BZM_BALANCED_RAMP_FAILURE_LEASE asic_id id 0 1 0, c)
         else
           (let (ok, c) = the (ro_write_register ops) asic_id id BZM_ENGINE_REG_CONFIG [BZM_BALANCED_RAMP_ENGINE_CONFIG] c
            in if \<not> ok
               then (ramp_fail ramp BZM_BALANCED_RAMP_FAILURE_CONFIG_WRITE asic_id id BZM_ENGINE_REG_CONFIG
                       (ucast BZM_BALANCED_RAMP_ENGINE_CONFIG) 0, c)
               else
                 (let (ok, c) = bzm_transport_program_stage6_sentinel id (Some (ramp_addressed_write ops asic_id)) c
                  in if \<not> ok then (ramp_fail ramp BZM_BALANCED_RAMP_FAILURE_SENTINEL_WRITE asic_id id 0 1 0, c)
                     else
                       (case poll_busy ops asic_id id [0..<BZM_BALANCED_RAMP_BUSY_POLL_ATTEMPTS] [0, 0, 0, 0] c of
                          (None, c) \<Rightarrow>
                            (ramp_fail ramp BZM_BALANCED_RAMP_FAILURE_STATUS_READ asic_id id BZM_ENGINE_REG_STATUS 1 0, c)
                        | (Some (busy, status_and_config), c) \<Rightarrow>
                            if \<not> busy
                            then (ramp_fail ramp BZM_BALANCED_RAMP_FAILURE_NOT_BUSY asic_id id BZM_ENGINE_REG_STATUS
                                    (ucast BZM_BALANCED_RAMP_ENGINE_BUSY_MASK) (ucast (status_and_config ! 0)), c)
                            else
                              (let config_readback = status_and_config ! 1
                               in if config_readback AND BZM_BALANCED_RAMP_ENGINE_CONFIG_WRITABLE_MASK \<noteq>
                                       BZM_BALANCED_RAMP_ENGINE_CONFIG \<or>
                                     config_readback AND NOT BZM_BALANCED_RAMP_ENGINE_CONFIG_ALLOWED_MASK \<noteq> 0
                                  then (ramp_fail ramp BZM_BALANCED_RAMP_FAILURE_CONFIG_READBACK asic_id id
                                          BZM_ENGINE_REG_CONFIG (ucast BZM_BALANCED_RAMP_ENGINE_CONFIG)
                                          (ucast config_readback), c)
                                  else ((True, ramp\<lparr> rm_completed_engines := rm_completed_engines ramp + 1 \<rparr>), c))))))"

definition prepare_asic ::
    "bzm_balanced_ramp_t \<Rightarrow> 'c bzm_balanced_ramp_ops_t \<Rightarrow> u8 \<Rightarrow> nat \<Rightarrow> 'c \<Rightarrow> (bool \<times> bzm_balanced_ramp_t) \<times> 'c" where
  "prepare_asic ramp ops asic_id index c =
     (if rm_prepared_asic ramp ! index then ((True, ramp), c)
      else
        (let (begun, c) = the (ro_begin_engine ops) asic_id BZM_CONTROL_ENGINE_ID c
         in if \<not> begun
            then (ramp_fail ramp BZM_BALANCED_RAMP_FAILURE_LEASE asic_id BZM_CONTROL_ENGINE_ID
                    BZM_LOCAL_REG_ENGINE_SOFT_RESET 1 0, c)
            else
              (let (ok, c) = the (ro_write_register ops) asic_id BZM_CONTROL_ENGINE_ID BZM_LOCAL_REG_ENGINE_SOFT_RESET
                     (le_bytes 4 (0 :: u32)) c
               in if \<not> ok
                  then (ramp_fail ramp BZM_BALANCED_RAMP_FAILURE_ENGINE_RESET asic_id BZM_CONTROL_ENGINE_ID
                          BZM_LOCAL_REG_ENGINE_SOFT_RESET 0 1, c)
                  else
                    (let c = the (ro_delay_ms ops) 1 c;
                         (ok, c) = the (ro_write_register ops) asic_id BZM_CONTROL_ENGINE_ID BZM_LOCAL_REG_ENGINE_SOFT_RESET
                           (le_bytes 4 (1 :: u32)) c
                     in if \<not> ok
                        then (ramp_fail ramp BZM_BALANCED_RAMP_FAILURE_ENGINE_RESET asic_id BZM_CONTROL_ENGINE_ID
                                BZM_LOCAL_REG_ENGINE_SOFT_RESET 1 0, c)
                        else ((True, ramp\<lparr> rm_prepared_asic := (rm_prepared_asic ramp)[index := True] \<rparr>),
                              the (ro_delay_ms ops) 1 c)))))"

definition bzm_balanced_ramp_init :: bzm_balanced_ramp_t where
  "bzm_balanced_ramp_init = \<lparr> rm_next_pair = replicate BZM_BRINGUP_ASIC_COUNT 0,
     rm_prepared_asic = replicate BZM_BRINGUP_ASIC_COUNT False, rm_completed_pairs = 0, rm_completed_engines = 0,
     rm_baseline_captured = False, rm_failed = False, rm_failure = BZM_BALANCED_RAMP_FAILURE_NONE, rm_failure_asic_id = 0,
     rm_failure_engine_id = 0, rm_failure_register_offset = 0, rm_failure_expected = 0, rm_failure_actual = 0,
     rm_parser_baseline = zero_parser_stats \<rparr>"

definition bzm_balanced_ramp_failure_name :: "bzm_balanced_ramp_failure_t \<Rightarrow> string" where
  "bzm_balanced_ramp_failure_name failure =
     (case failure of
        BZM_BALANCED_RAMP_FAILURE_NONE \<Rightarrow> ''none''
      | BZM_BALANCED_RAMP_FAILURE_ARGUMENT \<Rightarrow> ''argument''
      | BZM_BALANCED_RAMP_FAILURE_PARSER_BASELINE \<Rightarrow> ''parser_baseline''
      | BZM_BALANCED_RAMP_FAILURE_TELEMETRY \<Rightarrow> ''telemetry''
      | BZM_BALANCED_RAMP_FAILURE_LEASE \<Rightarrow> ''lease''
      | BZM_BALANCED_RAMP_FAILURE_ENGINE_RESET \<Rightarrow> ''engine_reset''
      | BZM_BALANCED_RAMP_FAILURE_CONFIG_WRITE \<Rightarrow> ''config_write''
      | BZM_BALANCED_RAMP_FAILURE_SENTINEL_WRITE \<Rightarrow> ''sentinel_write''
      | BZM_BALANCED_RAMP_FAILURE_STATUS_READ \<Rightarrow> ''status_read''
      | BZM_BALANCED_RAMP_FAILURE_NOT_BUSY \<Rightarrow> ''not_busy''
      | BZM_BALANCED_RAMP_FAILURE_CONFIG_READBACK \<Rightarrow> ''config_readback''
      | BZM_BALANCED_RAMP_FAILURE_INCOMPLETE \<Rightarrow> ''incomplete''
      | BZM_BALANCED_RAMP_FAILURE_FINAL_BARRIER \<Rightarrow> ''final_barrier''
      | BZM_BALANCED_RAMP_FAILURE_PARSER_FINAL \<Rightarrow> ''parser_final'')"

text \<open>The first pair of a ramp captures the baseline of the parser.\<close>

definition capture_baseline ::
    "bzm_balanced_ramp_t \<Rightarrow> 'c bzm_balanced_ramp_ops_t \<Rightarrow> u8 \<Rightarrow> 'c \<Rightarrow> (bool \<times> bzm_balanced_ramp_t) \<times> 'c" where
  "capture_baseline ramp ops asic_id c =
     (if rm_baseline_captured ramp then ((True, ramp), c)
      else
        (let ((ok, stats), c) = the (ro_parser_stats ops) (rm_parser_baseline ramp) c;
             ramp = ramp\<lparr> rm_parser_baseline := stats \<rparr>
         in if \<not> ok \<or> ps_queued_results stats \<noteq> 0
            then (ramp_fail ramp BZM_BALANCED_RAMP_FAILURE_PARSER_BASELINE asic_id 0 0 0 (of_nat (ps_queued_results stats)), c)
            else ((True, ramp\<lparr> rm_baseline_captured := True \<rparr>), c)))"

text \<open>The engines of a pair, the one on the stack with the higher voltage first.\<close>

definition activate_pair ::
    "bzm_balanced_ramp_t \<Rightarrow> 'c bzm_balanced_ramp_ops_t \<Rightarrow> u8 \<Rightarrow> bzm_engine_pair_t \<Rightarrow> 'c \<Rightarrow>
     (bool \<times> bzm_balanced_ramp_t) \<times> 'c" where
  "activate_pair ramp ops asic_id pair c =
     (let ((ok, sample), c) = the (ro_telemetry_sample ops) asic_id zero_sample c
      in if \<not> ok \<or> \<not> ts_received sample \<or> \<not> ts_valid sample \<or> \<not> isfinite (ts_ch0_mv sample) \<or> \<not> isfinite (ts_ch1_mv sample)
         then (ramp_fail ramp BZM_BALANCED_RAMP_FAILURE_TELEMETRY asic_id 0 0 1 (of_bool (ts_valid sample)), c)
         else
           (let bottom_first = flt_le (ts_ch1_mv sample) (ts_ch0_mv sample);
                first = (if bottom_first then ep_bottom pair else ep_top pair);
                second = (if bottom_first then ep_top pair else ep_bottom pair);
                ((ok, ramp), c) = activate_engine ramp ops asic_id first c
            in if \<not> ok then ((False, ramp), c) else activate_engine ramp ops asic_id second c))"

text \<open>The commit of a pair that is the next of its ASIC.\<close>

definition commit_next_pair ::
    "bzm_balanced_ramp_t \<Rightarrow> 'c bzm_balanced_ramp_ops_t \<Rightarrow> u8 \<Rightarrow> nat \<Rightarrow> bzm_engine_pair_t \<Rightarrow> 'c \<Rightarrow>
     (bool \<times> bzm_balanced_ramp_t) \<times> 'c" where
  "commit_next_pair ramp ops asic_id index pair c =
     (let ((ok, ramp), c) = capture_baseline ramp ops asic_id c
      in if \<not> ok then ((False, ramp), c)
         else
           (let ((ok, ramp), c) = prepare_asic ramp ops asic_id index c
            in if \<not> ok then ((False, ramp), c)
               else
                 (let ((ok, ramp), c) = activate_pair ramp ops asic_id pair c
                  in if \<not> ok then ((False, ramp), c)
                     else ((True, ramp\<lparr> rm_next_pair := (rm_next_pair ramp)[index := rm_next_pair ramp ! index + 1],
                                       rm_completed_pairs := rm_completed_pairs ramp + 1 \<rparr>), c))))"

definition bzm_balanced_ramp_commit_pair ::
    "bzm_balanced_ramp_t \<Rightarrow> 'c bzm_balanced_ramp_ops_t option \<Rightarrow> u8 \<Rightarrow> bzm_engine_pair_t option \<Rightarrow> 'c \<Rightarrow>
     (bool \<times> bzm_balanced_ramp_t) \<times> 'c" where
  "bzm_balanced_ramp_commit_pair ramp ops_opt asic_id pair_opt c =
     (if rm_failed ramp then ((False, ramp), c)
      else
        (case (ops_opt, pair_opt, bzm_topology_asic_index asic_id) of
           (Some ops, Some pair, Some index) \<Rightarrow>
             if \<not> ops_are_complete (Some ops) \<or> ep_pair_index pair \<ge> BZM_TOPOLOGY_PAIR_COUNT \<or>
                el_stack (ep_bottom pair) \<noteq> BZM_ENGINE_STACK_BOTTOM \<or> el_stack (ep_top pair) \<noteq> BZM_ENGINE_STACK_TOP \<or>
                el_stack_index (ep_bottom pair) \<noteq> ep_pair_index pair \<or> el_stack_index (ep_top pair) \<noteq> ep_pair_index pair \<or>
                rm_next_pair ramp ! index \<noteq> ep_pair_index pair
             then (ramp_fail ramp BZM_BALANCED_RAMP_FAILURE_ARGUMENT asic_id (el_physical_id (ep_bottom pair)) 0 1 0, c)
             else commit_next_pair ramp ops asic_id index pair c
         | _ \<Rightarrow> (ramp_fail ramp BZM_BALANCED_RAMP_FAILURE_ARGUMENT asic_id
                   (case pair_opt of None \<Rightarrow> 0 | Some pair \<Rightarrow> el_physical_id (ep_bottom pair)) 0 1 0, c)))"

text \<open>The first ASIC whose pairs are not all committed.\<close>

definition incomplete_asic :: "bzm_balanced_ramp_t \<Rightarrow> nat option" where
  "incomplete_asic ramp = List.find (\<lambda>index. rm_next_pair ramp ! index \<noteq> BZM_TOPOLOGY_PAIR_COUNT) [0..<BZM_BRINGUP_ASIC_COUNT]"

definition bzm_balanced_ramp_barrier ::
    "bzm_balanced_ramp_t \<Rightarrow> 'c bzm_balanced_ramp_ops_t option \<Rightarrow> nat \<Rightarrow> nat \<Rightarrow> 'c \<Rightarrow> (bool \<times> bzm_balanced_ramp_t) \<times> 'c" where
  "bzm_balanced_ramp_barrier ramp ops_opt asic_count pairs_per_asic c =
     (case ops_opt of
        Some ops \<Rightarrow>
          if \<not> ops_are_complete ops_opt \<or> rm_failed ramp \<or> \<not> rm_baseline_captured ramp \<or>
             asic_count \<noteq> BZM_BRINGUP_ASIC_COUNT \<or> pairs_per_asic \<noteq> 118 \<or>
             rm_completed_pairs ramp \<noteq> 472 \<or> rm_completed_engines ramp \<noteq> 944
          then (ramp_fail ramp BZM_BALANCED_RAMP_FAILURE_INCOMPLETE 0 0 0 472 (ucast (rm_completed_pairs ramp)), c)
          else
            (case incomplete_asic ramp of
               Some index \<Rightarrow>
                 (ramp_fail ramp BZM_BALANCED_RAMP_FAILURE_INCOMPLETE (bzm_asic_wire_ids ! index) 0 0
                    (ucast BZM_TOPOLOGY_PAIR_COUNT) (ucast (rm_next_pair ramp ! index)), c)
             | None \<Rightarrow>
                 (let (ok, c) = the (ro_final_barrier ops) c
                  in if \<not> ok then (ramp_fail ramp BZM_BALANCED_RAMP_FAILURE_FINAL_BARRIER 0 0 0 1 0, c)
                     else
                       (let ((ok, current), c) = the (ro_parser_stats ops) zero_parser_stats c
                        in if \<not> ok \<or> \<not> parser_is_clean_relative_to (rm_parser_baseline ramp) current
                           then (ramp_fail ramp BZM_BALANCED_RAMP_FAILURE_PARSER_FINAL 0 0 0 0
                                   (if ps_queued_results current \<noteq> 0 then of_nat (ps_queued_results current) else 1), c)
                           else ((True, ramp), c))))
      | None \<Rightarrow> (ramp_fail ramp BZM_BALANCED_RAMP_FAILURE_INCOMPLETE 0 0 0 472 (ucast (rm_completed_pairs ramp)), c))"

section \<open>What a ramp writes\<close>

type_synonym register_write = "u8 \<times> u16 \<times> u8 \<times> u8 list"

text \<open>
  The contract of the operations: \<open>written\<close> observes the register writes that the chain has accepted;
  only a write changes it, and a write that succeeds is recorded.
\<close>

definition ramp_device :: "('c \<Rightarrow> register_write list) \<Rightarrow> 'c bzm_balanced_ramp_ops_t \<Rightarrow> bool" where
  "ramp_device written ops \<longleftrightarrow>
     (\<forall>f asic engine c. ro_begin_engine ops = Some f \<longrightarrow> written (snd (f asic engine c)) = written c) \<and>
     (\<forall>f asic engine offset data c. ro_write_register ops = Some f \<and> fst (f asic engine offset data c) \<longrightarrow>
        written (snd (f asic engine offset data c)) = written c @ [(asic, engine, offset, data)]) \<and>
     (\<forall>f asic engine offset buffer c. ro_read_register ops = Some f \<longrightarrow>
        written (snd (f asic engine offset buffer c)) = written c) \<and>
     (\<forall>f ms c. ro_delay_ms ops = Some f \<longrightarrow> written (f ms c) = written c) \<and>
     (\<forall>f asic sample c. ro_telemetry_sample ops = Some f \<longrightarrow> written (snd (f asic sample c)) = written c) \<and>
     (\<forall>f stats c. ro_parser_stats ops = Some f \<longrightarrow> written (snd (f stats c)) = written c) \<and>
     (\<forall>f c. ro_final_barrier ops = Some f \<longrightarrow> written (snd (f c)) = written c)"

text \<open>The writes that activate an engine, and the writes to the engines of an ASIC.\<close>

definition activation_writes :: "u16 \<Rightarrow> (u8 \<times> u8 list) list" where
  "activation_writes engine =
     (BZM_ENGINE_REG_CONFIG, [BZM_BALANCED_RAMP_ENGINE_CONFIG]) # work_writes (sentinel_work engine) True @ flush_writes True 1"

definition engine_block :: "u8 \<Rightarrow> u16 \<Rightarrow> register_write list" where
  "engine_block asic engine = map (\<lambda>(offset, data). (asic, engine, offset, data)) (activation_writes engine)"

definition engine_log :: "u8 \<Rightarrow> register_write list \<Rightarrow> register_write list" where
  "engine_log asic ws = filter (\<lambda>(a, e, _). a = asic \<and> e \<noteq> BZM_CONTROL_ENGINE_ID) ws"

lemma engine_log_append [simp]: "engine_log asic (xs @ ys) = engine_log asic xs @ engine_log asic ys"
  by (simp add: engine_log_def)

lemma engine_log_block:
  "engine \<noteq> BZM_CONTROL_ENGINE_ID \<Longrightarrow> engine_log asic (engine_block a engine) = (if a = asic then engine_block a engine else [])"
  by (auto simp: engine_log_def engine_block_def filter_map o_def case_prod_unfold filter_empty_conv)

lemma engine_log_control: "engine_log asic ((a, BZM_CONTROL_ENGINE_ID, off, data) # ws) = engine_log asic ws" "engine_log asic [] = []"
  by (simp_all add: engine_log_def)

lemma write_all_log:
  assumes "\<And>off data c. fst (writer engine off data c) \<Longrightarrow> written (snd (writer engine off data c)) = written c @ [(asic, engine, off, data)]"
    and "write_all writer engine writes c = (True, c')"
  shows "written c' = written c @ map (\<lambda>(off, data). (asic, engine, off, data)) writes"
  using assms(2)
proof (induction writes arbitrary: c)
  case (Cons w writes)
  obtain off data where w: "w = (off, data)" by (cases w)
  obtain ok c1 where s: "writer engine off data c = (ok, c1)" by (cases "writer engine off data c")
  with Cons.prems w have "ok" and r: "write_all writer engine writes c1 = (True, c')" by (auto split: if_splits)
  then show ?case using Cons.IH[OF r] assms(1)[of off data c] s w by simp
qed simp

lemma stage6_log:
  assumes "\<And>off data c. fst (writer engine off data c) \<Longrightarrow> written (snd (writer engine off data c)) = written c @ [(asic, engine, off, data)]"
    and "bzm_transport_program_stage6_sentinel engine (Some writer) c = (True, c')"
  shows "written c' = written c @ map (\<lambda>(off, data). (asic, engine, off, data)) (work_writes (sentinel_work engine) True @ flush_writes True 1)"
    and "engine < BZM_MAX_ENGINE_COUNT"
proof -
  show lt: "engine < BZM_MAX_ENGINE_COUNT"
    using assms(2) by (auto simp: bzm_transport_program_stage6_sentinel_def Let_def not_le split: if_splits)
  obtain ok c1 where p: "bzm_transport_program_work (Some (sentinel_work engine)) (Some writer) c = (ok, c1)"
    by (cases "bzm_transport_program_work (Some (sentinel_work engine)) (Some writer) c")
  have ok: ok and f: "program_flush_job engine True 1 writer c1 = (True, c')"
    using assms(2) lt p by (auto simp: bzm_transport_program_stage6_sentinel_def split: if_splits)
  have "write_all writer engine (work_writes (sentinel_work engine) True) c = (True, c1)"
    using p ok by (simp add: bzm_transport_program_work_def program_work_def sentinel_work_def)
  from write_all_log[OF assms(1) this] write_all_log[OF assms(1) f[unfolded program_flush_job_def]]
  show "written c' = written c @ map (\<lambda>(off, data). (asic, engine, off, data)) (work_writes (sentinel_work engine) True @ flush_writes True 1)"
    by simp
qed

text \<open>The operations of a complete device.\<close>

lemma ramp_device_simps:
  assumes "ramp_device written ops" and "ops_are_complete (Some ops)"
  shows "written (snd (the (ro_begin_engine ops) asic engine c)) = written c"
    and "fst (the (ro_write_register ops) asic engine off data c) \<Longrightarrow>
      written (snd (the (ro_write_register ops) asic engine off data c)) = written c @ [(asic, engine, off, data)]"
    and "written (snd (the (ro_read_register ops) asic engine off buffer c)) = written c"
    and "written (the (ro_delay_ms ops) ms c) = written c"
    and "written (snd (the (ro_telemetry_sample ops) asic sample c)) = written c"
    and "written (snd (the (ro_parser_stats ops) stats c)) = written c"
    and "written (snd (the (ro_final_barrier ops) c)) = written c"
  using assms by (auto simp: ramp_device_def ops_are_complete_def)

lemma poll_busy_log:
  assumes "ramp_device written ops" and "ops_are_complete (Some ops)"
  shows "written (snd (poll_busy ops asic engine attempts buffer c)) = written c"
proof (induction attempts arbitrary: buffer c)
  case (Cons attempt rest)
  let ?c1 = "if attempt \<noteq> 0 then the (ro_delay_ms ops) 1 c else c"
  obtain ok b c2 where rd: "the (ro_read_register ops) asic engine BZM_ENGINE_REG_STATUS buffer ?c1 = ((ok, b), c2)"
    by (metis prod.exhaust)
  have "written c2 = written ?c1" using ramp_device_simps(3)[OF assms, of asic engine BZM_ENGINE_REG_STATUS buffer ?c1] rd by simp
  then have "written c2 = written c" using ramp_device_simps(4)[OF assms] by simp
  then show ?case using Cons.IH rd by simp
qed simp

lemma ramp_fail_simps [simp]:
  "fst (ramp_fail ramp failure asic engine off e a) = False"
  "rm_failed (snd (ramp_fail ramp failure asic engine off e a))"
  "ramp_fail ramp failure asic engine off e a \<noteq> (True, r)"
  by (simp_all add: ramp_fail_def)

lemma activate_engine_result:
  assumes dev: "ramp_device written ops" "ops_are_complete (Some ops)"
    and run: "activate_engine ramp ops asic engine c = ((ok, ramp'), c')"
  shows "if ok then ramp' = ramp\<lparr> rm_completed_engines := rm_completed_engines ramp + 1 \<rparr> \<and>
      written c' = written c @ engine_block asic (el_physical_id engine) \<and> el_physical_id engine < BZM_MAX_ENGINE_COUNT
    else rm_failed ramp'"
proof -
  let ?id = "el_physical_id engine"
  note d = ramp_device_simps[OF dev]
  obtain begun c1 where 1: "the (ro_begin_engine ops) asic ?id c = (begun, c1)" by (cases "the (ro_begin_engine ops) asic ?id c")
  obtain ok2 c2 where 2: "the (ro_write_register ops) asic ?id BZM_ENGINE_REG_CONFIG [BZM_BALANCED_RAMP_ENGINE_CONFIG] c1 = (ok2, c2)"
    by (cases "the (ro_write_register ops) asic ?id BZM_ENGINE_REG_CONFIG [BZM_BALANCED_RAMP_ENGINE_CONFIG] c1")
  obtain ok3 c3 where 3: "bzm_transport_program_stage6_sentinel ?id (Some (ramp_addressed_write ops asic)) c2 = (ok3, c3)"
    by (cases "bzm_transport_program_stage6_sentinel ?id (Some (ramp_addressed_write ops asic)) c2")
  obtain p c4 where 4: "poll_busy ops asic ?id [0..<BZM_BALANCED_RAMP_BUSY_POLL_ATTEMPTS] [0, 0, 0, 0] c3 = (p, c4)"
    by (cases "poll_busy ops asic ?id [0..<BZM_BALANCED_RAMP_BUSY_POLL_ATTEMPTS] [0, 0, 0, 0] c3")
  show ?thesis
  proof (cases ok)
    case False
    then show ?thesis
      using run unfolding activate_engine_def Let_def 1 2 3 4 prod.case
      by (auto simp: prod_eq_iff split: if_splits option.splits prod.splits)
  next
    case True
    have all: "begun" "ok2" "ok3" "c' = c4" "ramp' = ramp\<lparr> rm_completed_engines := rm_completed_engines ramp + 1 \<rparr>"
      using run True unfolding activate_engine_def Let_def 1 2 3 4 prod.case
      by (auto simp: prod_eq_iff split: if_splits option.splits prod.splits)
    have "written c1 = written c" using d(1)[of asic ?id c] 1 by simp
    moreover have "written c2 = written c1 @ [(asic, ?id, BZM_ENGINE_REG_CONFIG, [BZM_BALANCED_RAMP_ENGINE_CONFIG])]"
      using d(2)[of asic ?id BZM_ENGINE_REG_CONFIG "[BZM_BALANCED_RAMP_ENGINE_CONFIG]" c1] 2 all by simp
    moreover have "written c4 = written c3"
      using poll_busy_log[OF dev, of asic ?id "[0..<BZM_BALANCED_RAMP_BUSY_POLL_ATTEMPTS]" "[0, 0, 0, 0]" c3]
      unfolding 4 by simp
    moreover have "bzm_transport_program_stage6_sentinel ?id (Some (ramp_addressed_write ops asic)) c2 = (True, c3)"
      using 3 all by simp
    note s = stage6_log[OF _ this, of written asic]
    have "written c3 = written c2 @ map (\<lambda>(off, data). (asic, ?id, off, data)) (work_writes (sentinel_work ?id) True @ flush_writes True 1)"
      "?id < BZM_MAX_ENGINE_COUNT"
      by (rule s; simp add: ramp_addressed_write_def d(2))+
    ultimately show ?thesis using all True by (simp add: engine_block_def activation_writes_def)
  qed
qed

lemma prepare_asic_result:
  assumes dev: "ramp_device written ops" "ops_are_complete (Some ops)"
    and run: "prepare_asic ramp ops asic index c = ((ok, ramp'), c')"
  shows "if ok then ramp' = ramp\<lparr> rm_prepared_asic := (rm_prepared_asic ramp)[index := True] \<rparr> \<and>
      engine_log a (written c') = engine_log a (written c)
    else rm_failed ramp'"
proof (cases "rm_prepared_asic ramp ! index")
  case True
  have "(rm_prepared_asic ramp)[index := True] = rm_prepared_asic ramp"
    using list_update_id[of "rm_prepared_asic ramp" index] True by simp
  then have "ramp\<lparr> rm_prepared_asic := (rm_prepared_asic ramp)[index := True] \<rparr> = ramp" by simp
  then show ?thesis using run True by (simp add: prepare_asic_def)
next
  case False
  note d = ramp_device_simps[OF dev]
  let ?w = "the (ro_write_register ops) asic BZM_CONTROL_ENGINE_ID BZM_LOCAL_REG_ENGINE_SOFT_RESET"
  obtain begun c1 where 1: "the (ro_begin_engine ops) asic BZM_CONTROL_ENGINE_ID c = (begun, c1)"
    by (cases "the (ro_begin_engine ops) asic BZM_CONTROL_ENGINE_ID c")
  obtain ok2 c2 where 2: "?w (le_bytes 4 (0 :: u32)) c1 = (ok2, c2)" by (cases "?w (le_bytes 4 (0 :: u32)) c1")
  let ?c3 = "the (ro_delay_ms ops) 1 c2"
  obtain ok4 c4 where 4: "?w (le_bytes 4 (1 :: u32)) ?c3 = (ok4, c4)" by (cases "?w (le_bytes 4 (1 :: u32)) ?c3")
  show ?thesis
  proof (cases ok)
    case F: False
    then show ?thesis
      using run False unfolding prepare_asic_def Let_def 1 2 4 prod.case
      by (auto simp: prod_eq_iff split: if_splits)
  next
    case True
    have all: "begun" "ok2" "ok4" "c' = the (ro_delay_ms ops) 1 c4"
        "ramp' = ramp\<lparr> rm_prepared_asic := (rm_prepared_asic ramp)[index := True] \<rparr>"
      using run True False unfolding prepare_asic_def Let_def 1 2 4 prod.case
      by (auto simp: prod_eq_iff split: if_splits)
    have "written c1 = written c" using d(1)[of asic BZM_CONTROL_ENGINE_ID c] 1 by simp
    moreover have "written c2 = written c1 @ [(asic, BZM_CONTROL_ENGINE_ID, BZM_LOCAL_REG_ENGINE_SOFT_RESET, le_bytes 4 (0 :: u32))]"
      using d(2)[of asic BZM_CONTROL_ENGINE_ID BZM_LOCAL_REG_ENGINE_SOFT_RESET "le_bytes 4 (0 :: u32)" c1] 2 all by simp
    moreover have "written c4 = written ?c3 @ [(asic, BZM_CONTROL_ENGINE_ID, BZM_LOCAL_REG_ENGINE_SOFT_RESET, le_bytes 4 (1 :: u32))]"
      using d(2)[of asic BZM_CONTROL_ENGINE_ID BZM_LOCAL_REG_ENGINE_SOFT_RESET "le_bytes 4 (1 :: u32)" ?c3] 4 all by simp
    ultimately have "engine_log a (written c') = engine_log a (written c)"
      using all(4) d(4) by (simp add: engine_log_control)
    then show ?thesis using all True by simp
  qed
qed

lemma capture_baseline_result:
  assumes dev: "ramp_device written ops" "ops_are_complete (Some ops)"
    and run: "capture_baseline ramp ops asic c = ((ok, ramp'), c')"
  shows "if ok then (\<exists>stats. ramp' = ramp\<lparr> rm_parser_baseline := stats, rm_baseline_captured := True \<rparr>) \<and> written c' = written c
    else rm_failed ramp'"
proof (cases "rm_baseline_captured ramp")
  case True
  then have "ramp = ramp\<lparr> rm_parser_baseline := rm_parser_baseline ramp, rm_baseline_captured := True \<rparr>" by simp
  then have "\<exists>stats. ramp = ramp\<lparr> rm_parser_baseline := stats, rm_baseline_captured := True \<rparr>" by (rule exI)
  then show ?thesis using run True by (simp add: capture_baseline_def)
next
  case False
  obtain ok1 stats c1 where 1: "the (ro_parser_stats ops) (rm_parser_baseline ramp) c = ((ok1, stats), c1)"
    by (metis prod.exhaust)
  have "written c1 = written c" using ramp_device_simps(6)[OF dev, of "rm_parser_baseline ramp" c] 1 by simp
  then show ?thesis
    using run False unfolding capture_baseline_def Let_def 1 prod.case by (auto simp: prod_eq_iff split: if_splits)
qed

lemma activate_pair_result:
  assumes dev: "ramp_device written ops" "ops_are_complete (Some ops)"
    and run: "activate_pair ramp ops asic pair c = ((ok, ramp'), c')"
  shows "if ok then ramp' = ramp\<lparr> rm_completed_engines := rm_completed_engines ramp + 2 \<rparr> \<and>
      (\<exists>bottom_first. written c' = written c @
         (if bottom_first
          then engine_block asic (el_physical_id (ep_bottom pair)) @ engine_block asic (el_physical_id (ep_top pair))
          else engine_block asic (el_physical_id (ep_top pair)) @ engine_block asic (el_physical_id (ep_bottom pair))))
    else rm_failed ramp'"
proof -
  obtain okt sample c1 where 1: "the (ro_telemetry_sample ops) asic zero_sample c = ((okt, sample), c1)" by (metis prod.exhaust)
  let ?bad = "\<not> okt \<or> \<not> ts_received sample \<or> \<not> ts_valid sample \<or> \<not> isfinite (ts_ch0_mv sample) \<or> \<not> isfinite (ts_ch1_mv sample)"
  let ?bf = "flt_le (ts_ch1_mv sample) (ts_ch0_mv sample)"
  let ?first = "if ?bf then ep_bottom pair else ep_top pair" and ?second = "if ?bf then ep_top pair else ep_bottom pair"
  obtain ok1 r1 c2 where 2: "activate_engine ramp ops asic ?first c1 = ((ok1, r1), c2)" by (metis prod.exhaust)
  obtain ok2 r2 c3 where 3: "activate_engine r1 ops asic ?second c2 = ((ok2, r2), c3)" by (metis prod.exhaust)
  note R1 = activate_engine_result[OF dev 2] and R2 = activate_engine_result[OF dev 3]
  have w1: "written c1 = written c" using ramp_device_simps(5)[OF dev, of asic zero_sample c] 1 by simp
  show ?thesis
  proof (cases "?bad \<or> \<not> ok1")
    case True
    then show ?thesis
      using run R1 unfolding activate_pair_def Let_def 1 prod.case 2 by (auto simp: prod_eq_iff split: if_splits)
  next
    case False
    then have e: "ok = ok2" "ramp' = r2" "c' = c3"
      using run unfolding activate_pair_def Let_def 1 prod.case 2 3 by auto
    show ?thesis using R1 R2 False e w1 by (cases ok2; cases ?bf) (auto intro: exI[of _ ?bf])
  qed
qed

section \<open>The order of activation\<close>

definition stack_phys :: "bzm_engine_stack_t \<Rightarrow> nat \<Rightarrow> u16" where
  "stack_phys stack p = el_physical_id (the (bzm_topology_stack_engine_at stack (of_nat p)))"

definition pair_engines :: "bool \<Rightarrow> nat \<Rightarrow> u16 list" where
  "pair_engines bottom_first p =
     (if bottom_first then [stack_phys BZM_ENGINE_STACK_BOTTOM p, stack_phys BZM_ENGINE_STACK_TOP p]
      else [stack_phys BZM_ENGINE_STACK_TOP p, stack_phys BZM_ENGINE_STACK_BOTTOM p])"

definition pair_order :: "bool list \<Rightarrow> u16 list" where
  "pair_order bs = concat (map (\<lambda>p. pair_engines (bs ! p) p) [0..<length bs])"

definition stack_of_id :: "u16 \<Rightarrow> bzm_engine_stack_t" where
  "stack_of_id engine = el_stack (the (bzm_topology_from_physical_id engine))"

lemma stack_phys_decode:
  assumes "stack_is_valid st" and "p < 118"
  shows "\<exists>e. bzm_topology_stack_engine_at st (of_nat p) = Some e \<and> el_stack e = st \<and> el_stack_index e = of_nat p \<and>
    el_physical_id e = stack_phys st p \<and> bzm_topology_from_physical_id (stack_phys st p) = Some e"
proof -
  obtain e where e: "bzm_topology_stack_engine_at st (of_nat p) = Some e" "el_stack e = st" "el_stack_index e = of_nat p"
    using stack_engine_at_Some[OF assms] by blast
  obtain r c where "usable_in st ! p = (r, c)" by (cases "usable_in st ! p")
  then have "locate_coordinate r c = Some e" using e(1) stack_engine_at_nth[of st p] assms by simp
  from located(3)[OF this] show ?thesis using e by (simp add: stack_phys_def)
qed

lemma stack_of_phys: "stack_is_valid st \<Longrightarrow> p < 118 \<Longrightarrow> stack_of_id (stack_phys st p) = st"
  using stack_phys_decode[of st p] by (auto simp: stack_of_id_def)

lemma stack_phys_inj:
  assumes "stack_is_valid st" "stack_is_valid st'" "p < 118" "p' < 118" "stack_phys st p = stack_phys st' p'"
  shows "st = st' \<and> p = p'"
proof -
  obtain e where e: "el_stack e = st" "el_stack_index e = of_nat p" "bzm_topology_from_physical_id (stack_phys st p) = Some e"
    using stack_phys_decode[OF assms(1,3)] by blast
  obtain e' where e': "el_stack e' = st'" "el_stack_index e' = of_nat p'" "bzm_topology_from_physical_id (stack_phys st' p') = Some e'"
    using stack_phys_decode[OF assms(2,4)] by blast
  have "e = e'" using e(3) e'(3) assms(5) by simp
  then have st: "st = st'" and "(of_nat p :: u16) = of_nat p'" using e e' by auto
  then have "unat (of_nat p :: u16) = unat (of_nat p' :: u16)" by simp
  then have "p = p'" using assms(3,4) unfolding unat_of_nat by simp
  then show ?thesis using st by simp
qed

lemma valid_stacks [simp]: "stack_is_valid BZM_ENGINE_STACK_BOTTOM" "stack_is_valid BZM_ENGINE_STACK_TOP"
  by (simp_all add: stack_is_valid_def)

lemma stack_phys_engine: "stack_is_valid st \<Longrightarrow> p < 118 \<Longrightarrow> stack_phys st p \<noteq> BZM_CONTROL_ENGINE_ID"
proof
  assume "stack_is_valid st" "p < 118" "stack_phys st p = BZM_CONTROL_ENGINE_ID"
  then have "bzm_topology_from_physical_id BZM_CONTROL_ENGINE_ID \<noteq> None" using stack_phys_decode[of st p] by auto
  moreover have "bzm_topology_from_physical_id BZM_CONTROL_ENGINE_ID = None" by code_simp
  ultimately show False by simp
qed

lemma pair_engines_simps:
  assumes "p < 118"
  shows "distinct (pair_engines b p)" and "set (pair_engines b p) = {stack_phys BZM_ENGINE_STACK_BOTTOM p, stack_phys BZM_ENGINE_STACK_TOP p}"
    and "BZM_CONTROL_ENGINE_ID \<notin> set (pair_engines b p)"
  using stack_phys_inj[of BZM_ENGINE_STACK_BOTTOM BZM_ENGINE_STACK_TOP p p] stack_phys_engine assms
  by (auto simp: pair_engines_def)

lemma pair_order_snoc: "pair_order (bs @ [b]) = pair_order bs @ pair_engines b (length bs)"
proof -
  have "map (\<lambda>p. pair_engines ((bs @ [b]) ! p) p) [0..<length bs] = map (\<lambda>p. pair_engines (bs ! p) p) [0..<length bs]"
    by (rule map_cong) (auto simp: nth_append)
  then have "concat (map (\<lambda>p. pair_engines ((bs @ [b]) ! p) p) [0..<length bs]) = pair_order bs"
    unfolding pair_order_def by (rule arg_cong)
  then show ?thesis by (simp add: pair_order_def[of "bs @ [b]"])
qed

lemma pair_order_Nil [simp]: "pair_order [] = []"
  by (simp add: pair_order_def)

lemma length_pair_engines [simp]: "length (pair_engines b p) = 2"
  by (simp add: pair_engines_def)

lemma set_pair_order:
  "length bs \<le> 118 \<Longrightarrow> set (pair_order bs) = {stack_phys st p | st p. stack_is_valid st \<and> p < length bs}"
proof (induction bs rule: rev_induct)
  case (snoc b bs)
  then show ?case
    by (auto simp: pair_order_snoc pair_engines_simps less_Suc_eq stack_is_valid_def)
qed simp

lemma distinct_pair_order: "length bs \<le> 118 \<Longrightarrow> distinct (pair_order bs)"
proof (induction bs rule: rev_induct)
  case (snoc b bs)
  then have "set (pair_order bs) \<inter> set (pair_engines b (length bs)) = {}"
    by (auto simp: set_pair_order pair_engines_simps dest!: stack_phys_inj[rotated 4])
  then show ?case using snoc by (simp add: pair_order_snoc pair_engines_simps)
qed simp

lemma length_pair_order: "length (pair_order bs) = 2 * length bs"
  by (induction bs rule: rev_induct) (simp_all add: pair_order_snoc)

text \<open>Every prefix of the order has the stacks in balance to within one engine.\<close>

definition stack_count :: "bzm_engine_stack_t \<Rightarrow> u16 list \<Rightarrow> int" where
  "stack_count st ids = int (length (filter (\<lambda>engine. stack_of_id engine = st) ids))"

lemma stack_count_append [simp]: "stack_count st (xs @ ys) = stack_count st xs + stack_count st ys"
  by (simp add: stack_count_def)

lemma pair_order_balanced:
  assumes "length bs \<le> 118"
  shows "\<bar>stack_count BZM_ENGINE_STACK_BOTTOM (take n (pair_order bs)) - stack_count BZM_ENGINE_STACK_TOP (take n (pair_order bs))\<bar> \<le> 1 \<and>
    stack_count BZM_ENGINE_STACK_BOTTOM (pair_order bs) = stack_count BZM_ENGINE_STACK_TOP (pair_order bs)"
  using assms
proof (induction bs rule: rev_induct)
  case (snoc b bs)
  let ?p = "length bs"
  have p: "stack_of_id (stack_phys BZM_ENGINE_STACK_BOTTOM ?p) = BZM_ENGINE_STACK_BOTTOM"
      "stack_of_id (stack_phys BZM_ENGINE_STACK_TOP ?p) = BZM_ENGINE_STACK_TOP"
    using snoc.prems by (simp_all add: stack_of_phys)
  have "\<bar>stack_count BZM_ENGINE_STACK_BOTTOM (take k (pair_engines b ?p)) -
      stack_count BZM_ENGINE_STACK_TOP (take k (pair_engines b ?p))\<bar> \<le> 1" for k
    using p by (cases k; cases "k - 1") (auto simp: pair_engines_def stack_count_def)
  moreover have "stack_count BZM_ENGINE_STACK_BOTTOM (pair_engines b ?p) = stack_count BZM_ENGINE_STACK_TOP (pair_engines b ?p)"
    using p by (simp add: pair_engines_def stack_count_def)
  ultimately show ?case
    using snoc by (cases "n \<le> length (pair_order bs)") (simp_all add: pair_order_snoc)
qed (simp add: stack_count_def)

section \<open>Ramps in progress\<close>

definition asic_ramped :: "('c \<Rightarrow> register_write list) \<Rightarrow> nat \<Rightarrow> nat \<Rightarrow> 'c \<Rightarrow> bool" where
  "asic_ramped written i n c \<longleftrightarrow> (\<exists>bs. length bs = n \<and>
     engine_log (bzm_asic_wire_ids ! i) (written c) = concat (map (engine_block (bzm_asic_wire_ids ! i)) (pair_order bs)))"

definition ramp_inv :: "('c \<Rightarrow> register_write list) \<Rightarrow> bzm_balanced_ramp_t \<times> 'c \<Rightarrow> bool" where
  "ramp_inv written s \<longleftrightarrow> (\<not> rm_failed (fst s) \<longrightarrow> length (rm_next_pair (fst s)) = 4 \<and>
     (\<forall>i<4. unat (rm_next_pair (fst s) ! i) \<le> 118 \<and> asic_ramped written i (unat (rm_next_pair (fst s) ! i)) (snd s)))"

text \<open>What a successful commit has done.\<close>

definition pair_block :: "u8 \<Rightarrow> bool \<Rightarrow> bzm_engine_pair_t \<Rightarrow> register_write list" where
  "pair_block asic bottom_first pair =
     (if bottom_first
      then engine_block asic (el_physical_id (ep_bottom pair)) @ engine_block asic (el_physical_id (ep_top pair))
      else engine_block asic (el_physical_id (ep_top pair)) @ engine_block asic (el_physical_id (ep_bottom pair)))"

lemma commit_next_pair_result:
  assumes dev: "ramp_device written ops" "ops_are_complete (Some ops)"
    and run: "commit_next_pair ramp ops asic index pair c = ((ok, ramp'), c')"
  shows "if ok
    then rm_next_pair ramp' = (rm_next_pair ramp)[index := rm_next_pair ramp ! index + 1] \<and>
      rm_completed_pairs ramp' = rm_completed_pairs ramp + 1 \<and> rm_completed_engines ramp' = rm_completed_engines ramp + 2 \<and>
      rm_failed ramp' = rm_failed ramp \<and> rm_baseline_captured ramp' \<and>
      (\<exists>bottom_first. \<forall>a. engine_log a (written c') = engine_log a (written c) @ engine_log a (pair_block asic bottom_first pair))
    else rm_failed ramp'"
proof -
  obtain ok1 r1 c1 where c1: "capture_baseline ramp ops asic c = ((ok1, r1), c1)" by (metis prod.exhaust)
  obtain ok2 r2 c2 where c2: "prepare_asic r1 ops asic index c1 = ((ok2, r2), c2)" by (metis prod.exhaust)
  obtain ok3 r3 c3 where c3: "activate_pair r2 ops asic pair c2 = ((ok3, r3), c3)" by (metis prod.exhaust)
  note R1 = capture_baseline_result[OF dev c1] and R2 = prepare_asic_result[OF dev c2]
    and R3 = activate_pair_result[OF dev c3, folded pair_block_def]
  note e = run[unfolded commit_next_pair_def c1 Let_def prod.case c2 c3]
  show ?thesis
  proof (cases "ok1 \<and> ok2 \<and> ok3")
    case True
    then have k: "ok" "c' = c3" "ramp' = r3\<lparr> rm_next_pair := (rm_next_pair r3)[index := rm_next_pair r3 ! index + 1],
        rm_completed_pairs := rm_completed_pairs r3 + 1 \<rparr>"
      using e by auto
    from True R1 obtain stats where r1: "r1 = ramp\<lparr> rm_parser_baseline := stats, rm_baseline_captured := True \<rparr>"
      "written c1 = written c" by auto
    have r2: "r2 = r1\<lparr> rm_prepared_asic := (rm_prepared_asic r1)[index := True] \<rparr>"
      "engine_log a (written c2) = engine_log a (written c1)" for a
      using True R2[of a] by auto
    from True R3 obtain b where r3: "r3 = r2\<lparr> rm_completed_engines := rm_completed_engines r2 + 2 \<rparr>"
      and w: "written c3 = written c2 @ pair_block asic b pair" by auto
    have "\<forall>a. engine_log a (written c') = engine_log a (written c) @ engine_log a (pair_block asic b pair)"
      using r2(2) r1(2) k(2) w by simp
    then show ?thesis using k(1,3) r1(1) r2(1) r3 by auto
  next
    case False
    then show ?thesis using e R1 R2 R3 by (auto split: if_splits)
  qed
qed

lemma commit_cases:
  assumes "bzm_balanced_ramp_commit_pair ramp (Some ops) asic pair_opt c = ((ok, ramp'), c')"
  obtains (failed) "\<not> ok" "rm_failed ramp'"
  | (run) pair index where "\<not> rm_failed ramp" "pair_opt = Some pair" "bzm_topology_asic_index asic = Some index"
      "ops_are_complete (Some ops)" "ep_pair_index pair < BZM_TOPOLOGY_PAIR_COUNT"
      "rm_next_pair ramp ! index = ep_pair_index pair" "commit_next_pair ramp ops asic index pair c = ((ok, ramp'), c')"
  using assms unfolding bzm_balanced_ramp_commit_pair_def ramp_fail_def
  by (cases "rm_failed ramp"; cases pair_opt; cases "bzm_topology_asic_index asic")
    (auto simp del: ramp_fail_simps simp: not_le split: if_splits)

lemma topology_pair:
  assumes "bzm_topology_balanced_pair_at p = Some pair"
  shows "ep_pair_index pair = p" "unat p < 118"
    "el_physical_id (ep_bottom pair) = stack_phys BZM_ENGINE_STACK_BOTTOM (unat p)"
    "el_physical_id (ep_top pair) = stack_phys BZM_ENGINE_STACK_TOP (unat p)"
    "el_stack (ep_bottom pair) = BZM_ENGINE_STACK_BOTTOM" "el_stack (ep_top pair) = BZM_ENGINE_STACK_TOP"
    "el_stack_index (ep_bottom pair) = p" "el_stack_index (ep_top pair) = p"
proof -
  show p: "unat p < 118" using assms by (simp add: bzm_topology_balanced_pair_at_def word_le_nat_alt split: if_splits)
  from stack_phys_decode[OF valid_stacks(1) this] stack_phys_decode[OF valid_stacks(2) this] assms
  show "ep_pair_index pair = p" "el_physical_id (ep_bottom pair) = stack_phys BZM_ENGINE_STACK_BOTTOM (unat p)"
    "el_physical_id (ep_top pair) = stack_phys BZM_ENGINE_STACK_TOP (unat p)"
    "el_stack (ep_bottom pair) = BZM_ENGINE_STACK_BOTTOM" "el_stack (ep_top pair) = BZM_ENGINE_STACK_TOP"
    "el_stack_index (ep_bottom pair) = p" "el_stack_index (ep_top pair) = p"
    by (auto simp: bzm_topology_balanced_pair_at_def split: if_splits option.splits)
qed

lemma pair_block_log:
  assumes "bzm_topology_balanced_pair_at p = Some pair"
  shows "engine_log a (pair_block asic b pair) =
    (if a = asic then concat (map (engine_block asic) (pair_engines b (unat p))) else [])"
  using topology_pair[OF assms] stack_phys_engine
  by (auto simp: pair_block_def pair_engines_def engine_log_block)

text \<open>
  A ramp in use: pairs of the topology are committed in any order on any ASIC, discards are
  accepted, the barrier is tried, and the chain does other work that writes no register.
\<close>

inductive ramp_step :: "('c \<Rightarrow> register_write list) \<Rightarrow> 'c bzm_balanced_ramp_ops_t \<Rightarrow>
    bzm_balanced_ramp_t \<times> 'c \<Rightarrow> bzm_balanced_ramp_t \<times> 'c \<Rightarrow> bool" for written ops where
  commit: "bzm_topology_balanced_pair_at p = Some pair \<Longrightarrow>
    bzm_balanced_ramp_commit_pair ramp (Some ops) asic (Some pair) c = ((ok, ramp'), c') \<Longrightarrow>
    ramp_step written ops (ramp, c) (ramp', c')"
| accept: "ramp_step written ops (ramp, c) (snd (bzm_balanced_ramp_accept_transition_discards ramp current), c)"
| barrier: "bzm_balanced_ramp_barrier ramp (Some ops) n m c = ((ok, ramp'), c') \<Longrightarrow> ramp_step written ops (ramp, c) (ramp', c')"
| other: "written c' = written c \<Longrightarrow> ramp_step written ops (ramp, c) (ramp, c')"

inductive_cases ramp_stepE: "ramp_step written ops s t"

definition ramp_start :: "('c \<Rightarrow> register_write list) \<Rightarrow> bzm_balanced_ramp_t \<times> 'c \<Rightarrow> bool" where
  "ramp_start written s \<longleftrightarrow> fst s = bzm_balanced_ramp_init \<and> written (snd s) = []"

lemma barrier_result:
  assumes "ramp_device written ops" and "bzm_balanced_ramp_barrier ramp (Some ops) n m c = ((ok, ramp'), c')"
  shows "if ok then ramp' = ramp \<and> \<not> rm_failed ramp \<and> written c' = written c \<and> (\<forall>i<4. rm_next_pair ramp ! i = 118)
    else rm_failed ramp'"
proof -
  obtain ok1 c1 where c1: "the (ro_final_barrier ops) c = (ok1, c1)" by (cases "the (ro_final_barrier ops) c")
  obtain ok2 current c2 where c2: "the (ro_parser_stats ops) zero_parser_stats c1 = ((ok2, current), c2)" by (metis prod.exhaust)
  have w: "written c2 = written c" if "ops_are_complete (Some ops)"
    using ramp_device_simps(6)[OF assms(1) that, of zero_parser_stats c1] ramp_device_simps(7)[OF assms(1) that, of c] c1 c2 by simp
  have inc: "rm_next_pair ramp ! i = 118" if "incomplete_asic ramp = None" "i < 4" for i
    using that by (auto simp: incomplete_asic_def find_None_iff)
  show ?thesis
    using assms(2) w inc unfolding bzm_balanced_ramp_barrier_def option.case c1 Let_def prod.case c2 ramp_fail_def
    by (cases "incomplete_asic ramp") (auto simp del: ramp_fail_simps split: if_splits)
qed

lemma commit_keeps_inv:
  assumes dev: "ramp_device written ops" and inv: "ramp_inv written (ramp, c)"
    and pair: "bzm_topology_balanced_pair_at p = Some pair"
    and run: "bzm_balanced_ramp_commit_pair ramp (Some ops) asic (Some pair) c = ((ok, ramp'), c')"
  shows "ramp_inv written (ramp', c')"
  using run
proof (cases rule: commit_cases)
  case failed
  then show ?thesis by (simp add: ramp_inv_def)
next
  case (run pair' index)
  then have i: "index < 4" "bzm_asic_wire_ids ! index = asic" "rm_next_pair ramp ! index = p"
    using topology_pair[OF pair] by (auto simp: asic_index_Some_iff)
  have inv': "length (rm_next_pair ramp) = 4" "k < 4 \<Longrightarrow> unat (rm_next_pair ramp ! k) \<le> 118"
      "k < 4 \<Longrightarrow> asic_ramped written k (unat (rm_next_pair ramp ! k)) c" for k
    using inv run(1) by (auto simp: ramp_inv_def)
  show ?thesis
  proof (cases ok)
    case False
    then show ?thesis using commit_next_pair_result[OF dev run(4,7)] by (simp add: ramp_inv_def)
  next
    case True
    from commit_next_pair_result[OF dev run(4,7)] True obtain b
      where n: "rm_next_pair ramp' = (rm_next_pair ramp)[index := p + 1]"
      and log: "\<And>a. engine_log a (written c') = engine_log a (written c) @ engine_log a (pair_block asic b pair)"
      using run(2) i(3) by auto
    have up: "unat (p + 1) = unat p + 1" using topology_pair(2)[OF pair] by (simp add: unat_word_ariths)
    have ids: "k = index" if "k < 4" "bzm_asic_wire_ids ! k = asic" for k
      using asic_index_wire_id[OF that(1)] run(3) that(2) by simp
    have "asic_ramped written k (unat (rm_next_pair ramp' ! k)) c'" if k: "k < 4" for k
    proof -
      obtain bs where bs: "length bs = unat (rm_next_pair ramp ! k)"
        "engine_log (bzm_asic_wire_ids ! k) (written c) = concat (map (engine_block (bzm_asic_wire_ids ! k)) (pair_order bs))"
        using inv'(3)[OF k] by (auto simp: asic_ramped_def)
      show ?thesis
      proof (cases "k = index")
        case True
        then have "length (bs @ [b]) = unat (rm_next_pair ramp' ! k)" using n bs(1) i inv'(1) up by simp
        moreover have "engine_log asic (written c') = concat (map (engine_block asic) (pair_order (bs @ [b])))"
          using log[of asic] bs i True pair_block_log[OF pair] by (simp add: pair_order_snoc)
        ultimately show ?thesis using True i(2) unfolding asic_ramped_def by metis
      next
        case False
        then have "rm_next_pair ramp' ! k = rm_next_pair ramp ! k" using n by simp
        moreover have "bzm_asic_wire_ids ! k \<noteq> asic" using ids[OF k] False by blast
        ultimately show ?thesis using bs log pair_block_log[OF pair] by (auto simp: asic_ramped_def)
      qed
    qed
    moreover have "unat (rm_next_pair ramp' ! k) \<le> 118" if "k < 4" for k
      using inv'(1) inv'(2)[of k] that n up topology_pair(2)[OF pair] i(1) by (cases "k = index") auto
    ultimately show ?thesis using inv'(1) n by (simp add: ramp_inv_def)
  qed
qed

lemma ramp_step_inv:
  assumes "ramp_device written ops" and "ramp_inv written s" and "ramp_step written ops s t"
  shows "ramp_inv written t"
  using assms(3,2)
proof (cases rule: ramp_step.cases)
  case (commit p pair ramp asic c ok ramp' c')
  then show ?thesis using commit_keeps_inv[OF assms(1)] assms(2) by blast
next
  case (accept ramp c current)
  then show ?thesis using assms(2)
    by (auto simp: ramp_inv_def bzm_balanced_ramp_accept_transition_discards_def Let_def split: option.split)
next
  case (barrier ramp n m c ok ramp' c')
  then show ?thesis using barrier_result[OF assms(1) barrier(3)] assms(2)
    by (auto simp: ramp_inv_def asic_ramped_def split: if_splits)
next
  case (other c' c ramp)
  then show ?thesis using assms(2) by (auto simp: ramp_inv_def asic_ramped_def)
qed

lemma ramp_start_inv: "ramp_start written s \<Longrightarrow> ramp_inv written s"
  by (auto simp: ramp_start_def ramp_inv_def asic_ramped_def bzm_balanced_ramp_init_def engine_log_def less_Suc_eq numeral_eq_Suc)

section \<open>A chain that answers\<close>

definition ready_sample :: bzm_telemetry_sample_t where
  "ready_sample = zero_sample\<lparr> ts_received := True, ts_valid := True, ts_ch0_mv := Fin 620, ts_ch1_mv := Fin 640 \<rparr>"

definition ready_chain :: "register_write list bzm_balanced_ramp_ops_t" where
  "ready_chain = \<lparr> ro_begin_engine = Some (\<lambda>asic engine w. (True, w)),
     ro_write_register = Some (\<lambda>asic engine off data w. (True, w @ [(asic, engine, off, data)])),
     ro_read_register = Some (\<lambda>asic engine off buffer w. ((True, [1, 0x14, 0, 0]), w)), ro_delay_ms = Some (\<lambda>ms w. w),
     ro_telemetry_sample = Some (\<lambda>asic sample w. ((True, ready_sample), w)),
     ro_parser_stats = Some (\<lambda>stats w. ((True, zero_parser_stats), w)), ro_final_barrier = Some (\<lambda>w. (True, w)) \<rparr>"

lemma ready_device: "ramp_device id ready_chain" "ops_are_complete (Some ready_chain)"
  by (simp_all add: ramp_device_def ready_chain_def ops_are_complete_def)

lemma write_all_True: "(\<And>off data c. fst (writer engine off data c)) \<Longrightarrow> fst (write_all writer engine writes c)"
proof (induction writes arbitrary: c)
  case (Cons w writes)
  then show ?case by (cases w) (auto split: prod.split, metis fst_conv)
qed simp

lemma ready_stage6:
  assumes "engine < BZM_MAX_ENGINE_COUNT"
  shows "\<exists>w'. bzm_transport_program_stage6_sentinel engine (Some (ramp_addressed_write ready_chain asic)) w = (True, w')"
proof -
  let ?writer = "ramp_addressed_write ready_chain asic"
  have ok: "fst (write_all ?writer engine ws c)" for ws c
    by (rule write_all_True) (simp add: ramp_addressed_write_def ready_chain_def)
  obtain w1 where "write_all ?writer engine (work_writes (sentinel_work engine) True) w = (True, w1)"
    using ok[of "work_writes (sentinel_work engine) True" w] by (metis prod.exhaust_sel)
  then have "bzm_transport_program_work (Some (sentinel_work engine)) (Some ?writer) w = (True, w1)"
    by (simp add: bzm_transport_program_work_def program_work_def sentinel_work_def)
  moreover obtain w2 where "program_flush_job engine True 1 ?writer w1 = (True, w2)"
    using ok[of "flush_writes True 1" w1] unfolding program_flush_job_def by (metis prod.exhaust_sel)
  ultimately show ?thesis using assms by (simp add: bzm_transport_program_stage6_sentinel_def not_le)
qed

lemma phys_bound: "stack_is_valid st \<Longrightarrow> p < 118 \<Longrightarrow> stack_phys st p < BZM_MAX_ENGINE_COUNT"
proof -
  assume "stack_is_valid st" "p < 118"
  then have some: "bzm_topology_from_physical_id (stack_phys st p) \<noteq> None" using stack_phys_decode[of st p] by auto
  have "unat (drop_bit 6 (stack_phys st p)) < 12"
    using some by (auto simp: bzm_topology_from_physical_id_def Let_def bzm_topology_from_coordinate_def split: if_splits)
  then show ?thesis by (simp add: word_less_nat_alt drop_bit_eq_div unat_div)
qed

lemma ready_activate:
  assumes "el_physical_id engine < BZM_MAX_ENGINE_COUNT"
  shows "\<exists>w'. activate_engine ramp ready_chain asic engine w = ((True, ramp\<lparr> rm_completed_engines := rm_completed_engines ramp + 1 \<rparr>), w')"
proof -
  obtain w' where "bzm_transport_program_stage6_sentinel (el_physical_id engine) (Some (ramp_addressed_write ready_chain asic))
      (w @ [(asic, el_physical_id engine, BZM_ENGINE_REG_CONFIG, [BZM_BALANCED_RAMP_ENGINE_CONFIG])]) = (True, w')"
    using ready_stage6[OF assms] by blast
  moreover have "poll_busy ready_chain asic (el_physical_id engine) [0..<BZM_BALANCED_RAMP_BUSY_POLL_ATTEMPTS] [0, 0, 0, 0] w' =
      (Some (True, [1, 0x14, 0, 0]), w')"
    by (simp add: ready_chain_def upt_rec)
  ultimately show ?thesis by (simp add: activate_engine_def ready_chain_def)
qed

definition ready_ramp :: "bzm_balanced_ramp_t \<Rightarrow> bool" where
  "ready_ramp ramp \<longleftrightarrow> \<not> rm_failed ramp \<and> rm_parser_baseline ramp = zero_parser_stats \<and> length (rm_next_pair ramp) = 4 \<and>
     (\<forall>i<4. unat (rm_next_pair ramp ! i) \<le> 118) \<and> rm_completed_pairs ramp = sum_list (rm_next_pair ramp) \<and>
     rm_completed_engines ramp = 2 * sum_list (rm_next_pair ramp) \<and>
     (rm_baseline_captured ramp \<or> rm_next_pair ramp = [0, 0, 0, 0])"

lemma ready_commit_next:
  assumes pair: "bzm_topology_balanced_pair_at p = Some pair" and base: "rm_parser_baseline ramp = zero_parser_stats"
    and run: "commit_next_pair ramp ready_chain asic index pair w = ((ok, ramp'), w')"
  shows "ok \<and> rm_parser_baseline ramp' = zero_parser_stats"
proof -
  obtain ok1 r1 c1 where c1: "capture_baseline ramp ready_chain asic w = ((ok1, r1), c1)" by (metis prod.exhaust)
  obtain ok2 r2 c2 where c2: "prepare_asic r1 ready_chain asic index c1 = ((ok2, r2), c2)" by (metis prod.exhaust)
  have 1: "ok1" "rm_parser_baseline r1 = zero_parser_stats"
    using c1 base by (auto simp: capture_baseline_def ready_chain_def zero_parser_stats_def Let_def split: if_splits)
  have 2: "ok2" "rm_parser_baseline r2 = rm_parser_baseline r1"
    using c2 by (auto simp: prepare_asic_def ready_chain_def Let_def split: if_splits)
  have tel: "the (ro_telemetry_sample ready_chain) asic zero_sample c = ((True, ready_sample), c)" for c
    by (simp add: ready_chain_def)
  have top: "el_physical_id (ep_top pair) < BZM_MAX_ENGINE_COUNT" "el_physical_id (ep_bottom pair) < BZM_MAX_ENGINE_COUNT"
    using topology_pair[OF pair] phys_bound by simp_all
  obtain c3 where c3: "activate_engine r2 ready_chain asic (ep_top pair) c2 = ((True, r2\<lparr> rm_completed_engines := rm_completed_engines r2 + 1 \<rparr>), c3)"
    using ready_activate[OF top(1)] by blast
  obtain c4 where c4: "activate_engine (r2\<lparr> rm_completed_engines := rm_completed_engines r2 + 1 \<rparr>) ready_chain asic (ep_bottom pair) c3 =
      ((True, r2\<lparr> rm_completed_engines := rm_completed_engines r2 + 1 + 1 \<rparr>), c4)"
    using ready_activate[OF top(2), of "r2\<lparr> rm_completed_engines := rm_completed_engines r2 + 1 \<rparr>" asic c3] by auto
  have "\<not> flt_le (ts_ch1_mv ready_sample) (ts_ch0_mv ready_sample)" "ts_received ready_sample" "ts_valid ready_sample"
      "isfinite (ts_ch0_mv ready_sample)" "isfinite (ts_ch1_mv ready_sample)"
    by (simp_all add: ready_sample_def)
  then have "activate_pair r2 ready_chain asic pair c2 = ((True, r2\<lparr> rm_completed_engines := rm_completed_engines r2 + 1 + 1 \<rparr>), c4)"
    unfolding activate_pair_def tel Let_def prod.case by (simp add: c3 c4)
  then show ?thesis using run c1 c2 1 2 unfolding commit_next_pair_def by auto
qed

lemma sum_list_bump: "i < length xs \<Longrightarrow> sum_list (xs[i := xs ! i + 1]) = sum_list xs + (1 :: 'a::len word)"
proof (induction xs arbitrary: i)
  case (Cons x xs)
  then show ?case by (cases i) (simp_all add: algebra_simps)
qed simp

lemma ready_commit:
  assumes good: "ready_ramp ramp" and i: "i < 4" "unat (rm_next_pair ramp ! i) < 118"
    and pair: "bzm_topology_balanced_pair_at (rm_next_pair ramp ! i) = Some pair"
    and run: "bzm_balanced_ramp_commit_pair ramp (Some ready_chain) (bzm_asic_wire_ids ! i) (Some pair) w = ((ok, ramp'), w')"
  shows "ready_ramp ramp' \<and> rm_next_pair ramp' = (rm_next_pair ramp)[i := rm_next_pair ramp ! i + 1]"
proof -
  let ?p = "rm_next_pair ramp ! i"
  note t = topology_pair[OF pair]
  have "\<not> BZM_TOPOLOGY_PAIR_COUNT \<le> ?p" "\<not> rm_failed ramp" using i(2) good by (simp_all add: word_le_nat_alt ready_ramp_def)
  then have step: "commit_next_pair ramp ready_chain (bzm_asic_wire_ids ! i) i pair w = ((ok, ramp'), w')"
    using run t ready_device(2) i(1) unfolding bzm_balanced_ramp_commit_pair_def by (simp add: asic_index_wire_id)
  have base: "rm_parser_baseline ramp = zero_parser_stats" using good by (simp add: ready_ramp_def)
  note ok = ready_commit_next[OF pair base step] and r = commit_next_pair_result[OF ready_device step]
  have sum: "sum_list ((rm_next_pair ramp)[i := ?p + 1]) = sum_list (rm_next_pair ramp) + 1"
    using good i(1) by (simp add: ready_ramp_def sum_list_bump)
  show ?thesis using ok r sum good i
    by (auto simp: ready_ramp_def nth_list_update unat_word_ariths)
qed

lemma ready_ramp_completes:
  assumes "reachable (ramp_start id) (ramp_step id ready_chain) (ramp, w)" and "ready_ramp ramp"
  shows "\<exists>ramp' w'. reachable (ramp_start id) (ramp_step id ready_chain) (ramp', w') \<and> ready_ramp ramp' \<and>
    (\<forall>i<4. rm_next_pair ramp' ! i = 118)"
  using assms
proof (induction "\<Sum>i<4. 118 - unat (rm_next_pair ramp ! i)" arbitrary: ramp w rule: less_induct)
  case (less ramp w)
  show ?case
  proof (cases "\<forall>i<4. rm_next_pair ramp ! i = 118")
    case True
    then show ?thesis using less.prems by blast
  next
    case False
    then obtain i where i: "i < 4" "rm_next_pair ramp ! i \<noteq> 118" by auto
    have len: "length (rm_next_pair ramp) = 4" "unat (rm_next_pair ramp ! i) \<le> 118" using less.prems(2) i(1) by (auto simp: ready_ramp_def)
    have lt: "unat (rm_next_pair ramp ! i) < 118" using len(2) i(2) by (simp add: word_unat_eq_iff)
    obtain pair where pair: "bzm_topology_balanced_pair_at (rm_next_pair ramp ! i) = Some pair"
      using stack_phys_decode[OF valid_stacks(1) lt] stack_phys_decode[OF valid_stacks(2) lt] lt
      by (auto simp: bzm_topology_balanced_pair_at_def word_le_nat_alt)
    obtain ok ramp' w' where run:
        "bzm_balanced_ramp_commit_pair ramp (Some ready_chain) (bzm_asic_wire_ids ! i) (Some pair) w = ((ok, ramp'), w')"
      by (metis prod.exhaust)
    note r = ready_commit[OF less.prems(2) i(1) lt pair run]
    have "reachable (ramp_start id) (ramp_step id ready_chain) (ramp', w')"
      by (rule reachable.step[OF less.prems(1) ramp_step.commit[OF pair run]])
    moreover have "(\<Sum>k<4. 118 - unat (rm_next_pair ramp' ! k)) < (\<Sum>k<4. 118 - unat (rm_next_pair ramp ! k))"
    proof (rule sum_strict_mono_ex1)
      show "\<forall>k\<in>{..<4}. 118 - unat (rm_next_pair ramp' ! k) \<le> 118 - unat (rm_next_pair ramp ! k)"
        using r lt len i by (auto simp: nth_list_update unat_word_ariths)
      show "\<exists>k\<in>{..<4}. 118 - unat (rm_next_pair ramp' ! k) < 118 - unat (rm_next_pair ramp ! k)"
        using r lt len i by (intro bexI[of _ i]) (auto simp: unat_word_ariths)
    qed simp
    ultimately show ?thesis using less.hyps r by blast
  qed
qed

lemma stack_engine_ids:
  "{stack_phys st p | st p. stack_is_valid st \<and> p < 118} = {el_physical_id e | st k e. bzm_topology_stack_engine_at st k = Some e}"
proof (intro equalityI subsetI)
  fix x
  assume "x \<in> {stack_phys st p | st p. stack_is_valid st \<and> p < 118}"
  then obtain st p where x: "x = stack_phys st p" "stack_is_valid st" "p < 118" by blast
  then obtain e where "bzm_topology_stack_engine_at st (of_nat p) = Some e" "el_physical_id e = x"
    using stack_phys_decode[OF x(2,3)] by blast
  then show "x \<in> {el_physical_id e | st k e. bzm_topology_stack_engine_at st k = Some e}" by blast
next
  fix x
  assume "x \<in> {el_physical_id e | st k e. bzm_topology_stack_engine_at st k = Some e}"
  then obtain st k e where e: "bzm_topology_stack_engine_at st k = Some e" "x = el_physical_id e" by blast
  then have "stack_is_valid st" "unat k < 118" "x = stack_phys st (unat k)"
    by (auto simp: stack_phys_def bzm_topology_stack_engine_at_def word_le_nat_alt split: if_splits)
  then show "x \<in> {stack_phys st p | st p. stack_is_valid st \<and> p < 118}" by blast
qed

section \<open>Properties\<close>

text \<open>C6. The ramp activates the whole chain in balance: with operations that record the writes the chain
  accepts, whatever pairs were committed in whatever order, when the final barrier passes every
  ASIC has had exactly the configuration and sentinel writes of each of its 236 engines, once each and
  engine after engine, and at no time were the numbers of active engines of its two voltage stacks apart
  by more than one.\<close>

theorem ramp_activates_in_balance:
  assumes "ramp_device written ops" and "reachable (ramp_start written) (ramp_step written ops) (ramp, c)"
    and "bzm_balanced_ramp_barrier ramp (Some ops) n m c = ((True, ramp'), c')" and "i < 4"
  shows "\<exists>engines. engine_log (bzm_asic_wire_ids ! i) (written c') = concat (map (engine_block (bzm_asic_wire_ids ! i)) engines) \<and>
    distinct engines \<and> length engines = 236 \<and>
    set engines = {el_physical_id e | st k e. bzm_topology_stack_engine_at st k = Some e} \<and>
    (\<forall>n. \<bar>stack_count BZM_ENGINE_STACK_BOTTOM (take n engines) - stack_count BZM_ENGINE_STACK_TOP (take n engines)\<bar> \<le> 1)"
proof -
  have "ramp_inv written (ramp, c)"
    using assms(2) by (induction rule: reachable.induct) (auto intro: ramp_start_inv ramp_step_inv[OF assms(1)])
  moreover have b: "\<not> rm_failed ramp" "written c' = written c" "rm_next_pair ramp ! i = 118"
    using barrier_result[OF assms(1,3)] assms(4) by auto
  ultimately obtain bs where bs: "length bs = 118"
    "engine_log (bzm_asic_wire_ids ! i) (written c') = concat (map (engine_block (bzm_asic_wire_ids ! i)) (pair_order bs))"
    using assms(4) by (auto simp: ramp_inv_def asic_ramped_def)
  have "set (pair_order bs) = {el_physical_id e | st k e. bzm_topology_stack_engine_at st k = Some e}"
    using set_pair_order[of bs] bs(1) stack_engine_ids by simp
  then show ?thesis
    using bs distinct_pair_order[of bs] length_pair_order[of bs] pair_order_balanced[of bs] by (intro exI[of _ "pair_order bs"]) simp
qed

theorem ramp_activates_in_balance_witness:
  "\<exists>ramp ws ramp' ws' engines. reachable (ramp_start id) (ramp_step id ready_chain) (ramp, ws) \<and>
    bzm_balanced_ramp_barrier ramp (Some ready_chain) 4 118 ws = ((True, ramp'), ws') \<and>
    engine_log 0x14 ws' = concat (map (engine_block 0x14) engines) \<and> distinct engines \<and> length engines = 236"
proof -
  have "reachable (ramp_start id) (ramp_step id ready_chain) (bzm_balanced_ramp_init, [])"
    by (rule reachable.start) (simp add: ramp_start_def)
  moreover have "ready_ramp bzm_balanced_ramp_init"
    by (simp add: ready_ramp_def bzm_balanced_ramp_init_def less_Suc_eq numeral_eq_Suc)
  ultimately obtain ramp ws where r: "reachable (ramp_start id) (ramp_step id ready_chain) (ramp, ws)"
    and good: "ready_ramp ramp" and all: "\<forall>i<4. rm_next_pair ramp ! i = 118" using ready_ramp_completes by blast
  have "rm_next_pair ramp = [118, 118, 118, 118]"
    using good all by (intro nth_equalityI) (auto simp: ready_ramp_def less_Suc_eq numeral_eq_Suc nth_Cons split: nat.splits)
  then have "bzm_balanced_ramp_barrier ramp (Some ready_chain) 4 118 ws = ((True, ramp), ws)"
    using good ready_device(2)
    by (simp add: bzm_balanced_ramp_barrier_def ready_ramp_def incomplete_asic_def ready_chain_def parser_is_clean_relative_to_def
        zero_parser_stats_def upt_rec)
  moreover from ramp_activates_in_balance[OF ready_device(1) r this, of 1] obtain engines
    where "engine_log 0x14 ws = concat (map (engine_block 0x14) engines)" "distinct engines" "length engines = 236"
    by (auto simp: bzm_asic_wire_ids_def)
  ultimately show ?thesis using r by (intro exI conjI) assumption+
qed

end
