(* ===== verification/FloatExact.thy ===== *)
theory FloatExact
  imports Floats
begin

text \<open>
  Rounding to single precision: the leading exponent of a rational, the values that are represented exactly
  and the error bound of the others.
\<close>

section \<open>Exactness and error of rounding\<close>

lemma exp2_powi: "exp2 k = 2 powi k"
  by (simp add: exp2_def power_int_def inverse_eq_divide power_one_over)

lemma exp2_add: "exp2 (a + b) = exp2 a * exp2 b"
  by (simp add: exp2_powi power_int_add)

lemma exp2_pos [simp]: "0 < exp2 k"
  by (simp add: exp2_powi)

lemma exp2_nonzero [simp]: "exp2 k \<noteq> 0"
  using exp2_pos[of k] by linarith

lemma abs_exp2 [simp]: "\<bar>exp2 k\<bar> = exp2 k"
  by (rule abs_of_pos[OF exp2_pos])

lemma exp2_strict_mono: "a < b \<Longrightarrow> exp2 a < exp2 b"
  by (simp add: exp2_powi power_int_strict_increasing)

lemma exp2_less_iff: "exp2 a < exp2 b \<longleftrightarrow> a < b"
  by (metis exp2_strict_mono linorder_less_linear order_less_asym)

lemma exp2_int: "0 \<le> k \<Longrightarrow> exp2 k = of_int (2 ^ nat k)"
  by (simp add: exp2_def)

lemma floorlog_bounds:
  assumes "0 < n" shows "2 ^ (floorlog 2 n - 1) \<le> n" "n < 2 ^ floorlog 2 n" "0 < floorlog 2 n"
  using floorlog_bounds[of n 2] assms by (auto simp: floorlog_def)

lemma lead_exp_bounds:
  assumes "0 < x"
  shows "exp2 (lead_exp x) \<le> x" "x < exp2 (lead_exp x + 1)"
proof -
  obtain n d where q: "quotient_of x = (n, d)" by (cases "quotient_of x")
  have d: "0 < d" using quotient_of_denom_pos[OF q] .
  have x: "x = of_int n / of_int d" using quotient_of_div[OF q] .
  have n: "0 < n" using assms x d by (simp add: zero_less_divide_iff)
  let ?a = "floorlog 2 (nat n)" and ?b = "floorlog 2 (nat d)"
  have a: "2 ^ (?a - 1) \<le> nat n" "nat n < 2 ^ ?a" "0 < ?a" using floorlog_bounds[of "nat n"] n by auto
  have b: "2 ^ (?b - 1) \<le> nat d" "nat d < 2 ^ ?b" "0 < ?b" using floorlog_bounds[of "nat d"] d by auto
  have N: "(2 :: rat) powi (int ?a - 1) \<le> of_int n" "(of_int n :: rat) < 2 powi int ?a"
  proof -
    have "(2 :: int) ^ (?a - 1) \<le> n" "n < 2 ^ ?a" using a(1,2) n by (simp_all add: nat_le_iff le_nat_iff nat_less_iff)
    then have "(of_int (2 ^ (?a - 1)) :: rat) \<le> of_int n" "(of_int n :: rat) < of_int (2 ^ ?a)" by (simp_all only: of_int_le_iff of_int_less_iff)
    moreover have "int ?a - 1 = int (?a - 1)" using a(3) by simp
    ultimately show "(2 :: rat) powi (int ?a - 1) \<le> of_int n" "(of_int n :: rat) < 2 powi int ?a"
      by (simp_all only: power_int_of_nat of_int_power of_int_numeral)
  qed
  have D: "(2 :: rat) powi (int ?b - 1) \<le> of_int d" "(of_int d :: rat) < 2 powi int ?b"
  proof -
    have "(2 :: int) ^ (?b - 1) \<le> d" "d < 2 ^ ?b" using b(1,2) d by (simp_all add: nat_le_iff le_nat_iff nat_less_iff)
    then have "(of_int (2 ^ (?b - 1)) :: rat) \<le> of_int d" "(of_int d :: rat) < of_int (2 ^ ?b)" by (simp_all only: of_int_le_iff of_int_less_iff)
    moreover have "int ?b - 1 = int (?b - 1)" using b(3) by simp
    ultimately show "(2 :: rat) powi (int ?b - 1) \<le> of_int d" "(of_int d :: rat) < 2 powi int ?b"
      by (simp_all only: power_int_of_nat of_int_power of_int_numeral)
  qed
  let ?k = "int ?a - int ?b"
  have low: "exp2 (?k - 1) \<le> x"
  proof -
    have "exp2 (?k - 1) = 2 powi (int ?a - 1) / 2 powi int ?b" by (simp add: exp2_powi power_int_diff)
    also have "\<dots> \<le> of_int n / of_int d" using N(1) D(2) d n by (intro frac_le) auto
    finally show ?thesis using x by simp
  qed
  have high: "x < exp2 (?k + 1)"
  proof -
    have "of_int n / of_int d < (2 :: rat) powi int ?a / 2 powi (int ?b - 1)"
      using N(2) D(1) n by (intro frac_less) auto
    also have "\<dots> = exp2 (?k + 1)" by (simp add: exp2_powi power_int_diff power_int_add)
    finally show ?thesis using x by simp
  qed
  show "exp2 (lead_exp x) \<le> x" "x < exp2 (lead_exp x + 1)"
    using low high by (auto simp: lead_exp_def q Let_def)
qed

lemma lead_exp_less: "0 < x \<Longrightarrow> x < exp2 k \<Longrightarrow> lead_exp x < k"
  using lead_exp_bounds(1)[of x] exp2_less_iff[of "lead_exp x" k] by linarith

lemma round_even_error: "\<bar>of_int (round_even x) - x\<bar> \<le> 1 / 2"
  by (auto simp: round_even_def Let_def abs_if field_simps) linarith+

text \<open>Multiples of a power of two with at most 24 significant bits are representable.\<close>

lemma round32_exact:
  assumes x: "x = of_int m * exp2 e" and m: "\<bar>m\<bar> < 2 ^ 24" and e: "- 149 \<le> e" "e \<le> 104"
  shows "round32 x = Fin x"
proof (cases "x = 0")
  case False
  have m24: "\<bar>of_int m :: rat\<bar> < exp2 24" using m by (simp add: exp2_def flip: of_int_abs)
  then have ax: "\<bar>x\<bar> < exp2 (24 + e)" unfolding exp2_add x by (simp add: abs_mult)
  then have "lead_exp \<bar>x\<bar> < 24 + e" using False by (intro lead_exp_less) auto
  then have le: "max (lead_exp \<bar>x\<bar> - 23) (- 149) \<le> e" using e by simp
  define e' where "e' = max (lead_exp \<bar>x\<bar> - 23) (- 149)"
  have "exp2 e = of_int (2 ^ nat (e - e')) * exp2 e'"
    using exp2_add[of "e - e'" e'] exp2_int[of "e - e'"] le by (simp add: e'_def)
  then have "x / exp2 e' = of_int (m * 2 ^ nat (e - e'))" by (simp add: x)
  then have "of_int (round_even (x / exp2 e')) * exp2 e' = x" by (metis round_even_int exp2_nonzero nonzero_divide_eq_eq)
  moreover have "\<bar>x\<bar> < exp2 128" using ax e exp2_less_iff[of "24 + e" 128] by (cases "24 + e = 128") auto
  ultimately show ?thesis using False by (auto simp: round32_def Let_def simp flip: e'_def)
qed (simp add: round32_def)

text \<open>The error is at most half a unit in the last place.\<close>

lemma round32_error:
  assumes "\<bar>x\<bar> < exp2 k" and "- 124 \<le> k" "k \<le> 126"
  obtains y where "round32 x = Fin y" "\<bar>y - x\<bar> \<le> exp2 (k - 25)"
proof (cases "x = 0")
  case True
  then show ?thesis using that[of 0] less_imp_le[OF exp2_pos[of "k - 25"]] by (simp add: round32_def)
next
  case False
  have "lead_exp \<bar>x\<bar> < k" using False assms by (intro lead_exp_less) auto
  define e where "e = max (lead_exp \<bar>x\<bar> - 23) (- 149)"
  have "e \<le> k - 24" using \<open>lead_exp \<bar>x\<bar> < k\<close> assms(2) by (simp add: e_def)
  then have e: "exp2 e \<le> exp2 (k - 24)" using exp2_less_iff[of "k - 24" e] by linarith
  define y where "y = of_int (round_even (x / exp2 e)) * exp2 e"
  have "\<bar>y - x\<bar> = \<bar>of_int (round_even (x / exp2 e)) - x / exp2 e\<bar> * exp2 e"
  proof -
    have "y - x = (of_int (round_even (x / exp2 e)) - x / exp2 e) * exp2 e" by (simp add: y_def left_diff_distrib)
    then show ?thesis by (simp add: abs_mult)
  qed
  also have "\<dots> \<le> 1 / 2 * exp2 (k - 24)"
    using round_even_error[of "x / exp2 e"] e less_imp_le[OF exp2_pos[of e]] by (intro mult_mono) auto
  also have "\<dots> = exp2 (k - 25)" using exp2_add[of 1 "k - 25"] by (simp add: exp2_def[of 1])
  finally have err: "\<bar>y - x\<bar> \<le> exp2 (k - 25)" .
  have "exp2 (k - 25) < exp2 k" by (rule exp2_strict_mono) simp
  then have "\<bar>y\<bar> < 2 * exp2 k" using assms(1) err by linarith
  also have "2 * exp2 k = exp2 (k + 1)" using exp2_add[of k 1] by (simp add: exp2_def[of 1])
  also have "\<dots> < exp2 128" using assms(3) by (intro exp2_strict_mono) simp
  finally have "round32 x = Fin y" using False by (auto simp: round32_def Let_def simp flip: e_def y_def)
  then show ?thesis using err that by blast
qed

end
