(* ===== verification/Frequency.thy ===== *)
theory Frequency
  imports FloatExact
begin

text \<open>
  Frequencies of the hash PLLs (\<open>components/asic/bzm_frequency.c\<close>): targets lie on the grid of the feedback
  divider, in steps of 6.25 MHz, and are approached in bounded steps. Output pointers that are NULL
  are left out.
\<close>

section \<open>Model\<close>

abbreviation BZM_FREQUENCY_POWER_ON_MHZ :: cfloat where "BZM_FREQUENCY_POWER_ON_MHZ \<equiv> Fin 800"
abbreviation BZM_FREQUENCY_TARGET_MIN_MHZ :: cfloat where "BZM_FREQUENCY_TARGET_MIN_MHZ \<equiv> Fin 800"
abbreviation BZM_FREQUENCY_TARGET_MAX_MHZ :: cfloat where "BZM_FREQUENCY_TARGET_MAX_MHZ \<equiv> Fin 2000"
abbreviation BZM_FREQUENCY_INITIAL_OFFSET_MHZ :: cfloat where "BZM_FREQUENCY_INITIAL_OFFSET_MHZ \<equiv> Fin 100"
abbreviation BZM_FREQUENCY_INITIAL_MAX_MHZ :: cfloat where "BZM_FREQUENCY_INITIAL_MAX_MHZ \<equiv> Fin 1425"
abbreviation BZM_FREQUENCY_RAMP_STEP_MHZ :: cfloat where "BZM_FREQUENCY_RAMP_STEP_MHZ \<equiv> Fin 25"

definition BZM_FREQUENCY_EPSILON_MHZ :: cfloat where
  "BZM_FREQUENCY_EPSILON_MHZ = round32 (1 / 1000)"

record bzm_frequency_target_t =
  ft_requested_mhz :: cfloat
  ft_actual_mhz :: cfloat
  ft_feedback_divider :: u16
  ft_postdiv_register :: u32

definition clamp_frequency :: "cfloat \<Rightarrow> cfloat \<Rightarrow> cfloat \<Rightarrow> cfloat" where
  "clamp_frequency frequency_mhz minimum_mhz maximum_mhz =
     (if flt_lt frequency_mhz minimum_mhz then minimum_mhz
      else if flt_lt maximum_mhz frequency_mhz then maximum_mhz else frequency_mhz)"

definition bzm_frequency_request_is_valid :: "cfloat \<Rightarrow> bool" where
  "bzm_frequency_request_is_valid requested_mhz \<longleftrightarrow>
     isfinite requested_mhz \<and> flt_le BZM_FREQUENCY_TARGET_MIN_MHZ requested_mhz \<and>
     flt_le requested_mhz BZM_FREQUENCY_TARGET_MAX_MHZ"

text \<open>Conversion to \<open>uint16_t\<close> of a value in its range: the fraction is dropped.\<close>

definition flt_to_u16 :: "cfloat \<Rightarrow> u16" where
  "flt_to_u16 x = (case x of Fin a \<Rightarrow> of_int (if a < 0 then \<lceil>a\<rceil> else \<lfloor>a\<rfloor>) | _ \<Rightarrow> 0)"

definition bzm_frequency_resolve_target :: "cfloat \<Rightarrow> bzm_frequency_target_t option" where
  "bzm_frequency_resolve_target requested_mhz =
     (if \<not> isfinite requested_mhz then None
      else
        (let clamped_mhz = clamp_frequency requested_mhz BZM_FREQUENCY_TARGET_MIN_MHZ BZM_FREQUENCY_TARGET_MAX_MHZ;
             feedback = flt_divc (flt_mul (flt_mul (flt_mul (Fin 2) (Fin 2)) (Fin 2)) clamped_mhz) 50;
             feedback_divider = flt_to_u16 feedback;
             feedback_divider = (if flt_lt (Fin (1 / 2)) (flt_sub feedback (Fin (of_nat (unat feedback_divider))))
                                 then feedback_divider + 1 else feedback_divider)
         in Some \<lparr> ft_requested_mhz = requested_mhz,
              ft_actual_mhz = flt_divc (flt_mul (Fin 50) (Fin (of_nat (unat feedback_divider)))) 8,
              ft_feedback_divider = feedback_divider,
              ft_postdiv_register = push_bit 12 1 OR push_bit 9 1 OR push_bit 6 1 OR 2 \<rparr>))"

definition bzm_frequency_initial_mhz :: "cfloat \<Rightarrow> cfloat" where
  "bzm_frequency_initial_mhz target_mhz =
     (case bzm_frequency_resolve_target target_mhz of None \<Rightarrow> NaN
      | Some resolved \<Rightarrow>
          (let initial_mhz = clamp_frequency (flt_sub (ft_actual_mhz resolved) BZM_FREQUENCY_INITIAL_OFFSET_MHZ)
                 BZM_FREQUENCY_TARGET_MIN_MHZ BZM_FREQUENCY_INITIAL_MAX_MHZ
           in case bzm_frequency_resolve_target initial_mhz of None \<Rightarrow> NaN | Some resolved \<Rightarrow> ft_actual_mhz resolved))"

definition bzm_frequency_next_ramp_mhz :: "cfloat \<Rightarrow> cfloat \<Rightarrow> cfloat option" where
  "bzm_frequency_next_ramp_mhz current_mhz target_mhz =
     (case bzm_frequency_resolve_target target_mhz of None \<Rightarrow> None
      | Some resolved_target \<Rightarrow>
          if \<not> isfinite current_mhz \<or> \<not> bzm_frequency_request_is_valid target_mhz \<or>
             flt_lt current_mhz (flt_sub BZM_FREQUENCY_POWER_ON_MHZ BZM_FREQUENCY_EPSILON_MHZ)
          then None
          else
            (let target_mhz = ft_actual_mhz resolved_target
             in if flt_le (flt_sub target_mhz BZM_FREQUENCY_EPSILON_MHZ) current_mhz then None
                else
                  (let candidate_mhz =
                         (if flt_le (fabsf (flt_sub current_mhz BZM_FREQUENCY_POWER_ON_MHZ)) BZM_FREQUENCY_EPSILON_MHZ
                          then (let candidate_mhz = bzm_frequency_initial_mhz target_mhz
                                in if \<not> isfinite candidate_mhz \<or>
                                      flt_le candidate_mhz (flt_add current_mhz BZM_FREQUENCY_EPSILON_MHZ)
                                   then flt_add current_mhz BZM_FREQUENCY_RAMP_STEP_MHZ else candidate_mhz)
                          else flt_add current_mhz BZM_FREQUENCY_RAMP_STEP_MHZ);
                       candidate_mhz = (if flt_lt target_mhz candidate_mhz then target_mhz else candidate_mhz)
                   in case bzm_frequency_resolve_target candidate_mhz of None \<Rightarrow> None
                      | Some resolved \<Rightarrow>
                          if flt_le (ft_actual_mhz resolved) (flt_add current_mhz BZM_FREQUENCY_EPSILON_MHZ) then None
                          else Some (ft_actual_mhz resolved))))"

definition bzm_frequency_next_live_ramp_mhz :: "cfloat \<Rightarrow> cfloat \<Rightarrow> cfloat option" where
  "bzm_frequency_next_live_ramp_mhz current_mhz target_mhz =
     (case (bzm_frequency_resolve_target current_mhz, bzm_frequency_resolve_target target_mhz) of
        (Some resolved_current, Some resolved_target) \<Rightarrow>
          if \<not> bzm_frequency_request_is_valid current_mhz \<or> \<not> bzm_frequency_request_is_valid target_mhz \<or>
             flt_le BZM_FREQUENCY_EPSILON_MHZ (fabsf (flt_sub (ft_actual_mhz resolved_current) current_mhz))
          then None
          else
            (let current_mhz = ft_actual_mhz resolved_current; target_mhz = ft_actual_mhz resolved_target;
                 delta_mhz = flt_sub target_mhz current_mhz
             in if flt_lt (fabsf delta_mhz) BZM_FREQUENCY_EPSILON_MHZ then None
                else
                  (let candidate_mhz = flt_add current_mhz
                         (if flt_lt (Fin 0) delta_mhz then BZM_FREQUENCY_RAMP_STEP_MHZ else flt_neg BZM_FREQUENCY_RAMP_STEP_MHZ);
                       candidate_mhz =
                         (if (flt_lt (Fin 0) delta_mhz \<and> flt_lt target_mhz candidate_mhz) \<or>
                             (flt_lt delta_mhz (Fin 0) \<and> flt_lt candidate_mhz target_mhz)
                          then target_mhz else candidate_mhz)
                   in case bzm_frequency_resolve_target candidate_mhz of None \<Rightarrow> None
                      | Some resolved_next \<Rightarrow>
                          if flt_lt (fabsf (flt_sub (ft_actual_mhz resolved_next) current_mhz)) BZM_FREQUENCY_EPSILON_MHZ
                          then None else Some (ft_actual_mhz resolved_next)))
      | _ \<Rightarrow> None)"

section \<open>The grid\<close>

text \<open>The frequency of a feedback divider.\<close>

definition grid :: "nat \<Rightarrow> cfloat" where
  "grid n = Fin (of_nat n * (25 / 4))"

definition on_grid :: "nat \<Rightarrow> bool" where
  "on_grid n \<longleftrightarrow> 128 \<le> n \<and> n \<le> 320"

lemma round32_quarters:
  assumes "x = of_int k / 4" and "\<bar>k\<bar> < 2 ^ 24"
  shows "round32 x = Fin x"
  by (rule round32_exact[of _ k "- 2"]) (use assms in \<open>simp_all add: exp2_def\<close>)

lemma round32_int: "\<bar>k\<bar> < 2 ^ 22 \<Longrightarrow> round32 (of_int k) = Fin (of_int k)"
  by (rule round32_quarters[of _ "4 * k"]) auto

lemma eps: obtains r where "BZM_FREQUENCY_EPSILON_MHZ = Fin r" "1 / 2000 < r" "r < 1 / 500"
proof -
  obtain r where r: "round32 (1 / 1000) = Fin r" "\<bar>r - 1 / 1000\<bar> \<le> 1 / 33554432"
    using round32_error[of "1 / 1000" 0] by (auto simp: exp2_def)
  from r(2) have "1 / 2000 < r" "r < 1 / 500" unfolding abs_le_iff by linarith+
  then show thesis using that[of r] r(1) by (simp add: BZM_FREQUENCY_EPSILON_MHZ_def)
qed

lemma unat_small: "n \<le> 400 \<Longrightarrow> unat (of_nat n :: u16) = n"
  by (simp add: unat_of_nat)

lemma grid_actual:
  assumes "n \<le> 400"
  shows "flt_divc (flt_mul (Fin 50) (Fin (of_nat (unat (of_nat n :: u16))))) 8 = grid n"
proof -
  have "(unsigned (of_nat n :: u16) :: rat) = of_nat n" using assms by (metis unat_small of_nat_unat)
  moreover have "round32 (of_nat (n * 50)) = Fin (of_nat (n * 50))" using assms round32_int[of "int (n * 50)"] by simp
  moreover have "round32 (of_nat n * (25 / 4)) = Fin (of_nat n * (25 / 4))"
    by (rule round32_quarters[of _ "25 * int n"]) (use assms in auto)
  ultimately show ?thesis by (simp add: flt_mul_def flt_divc_def grid_def mult.commute)
qed

lemma grid_resolve:
  assumes "on_grid n"
  shows "\<exists>t. bzm_frequency_resolve_target (grid n) = Some t \<and> ft_actual_mhz t = grid n \<and> ft_feedback_divider t = of_nat n"
proof -
  have n: "128 \<le> n" "n \<le> 320" using assms by (auto simp: on_grid_def)
  have f8: "round32 4 = Fin 4" "round32 8 = Fin 8" using round32_int[of 4] round32_int[of 8] by simp_all
  have f50: "round32 (of_nat (n * 50)) = Fin (of_nat (n * 50))" "round32 (of_nat n) = Fin (of_nat n)" "round32 0 = Fin 0"
    using n round32_int[of "int (n * 50)"] round32_int[of "int n"] round32_int[of 0] by simp_all
  have fg: "round32 (of_nat n * (25 / 4)) = Fin (of_nat n * (25 / 4))"
    by (rule round32_quarters[of _ "25 * int n"]) (use n in auto)
  have clamp: "clamp_frequency (grid n) (Fin 800) (Fin 2000) = grid n"
    using n by (simp add: clamp_frequency_def grid_def)
  have u: "unat (of_nat n :: u16) = n" using n by (simp add: unat_of_nat)
  then have fu: "(unsigned (of_nat n :: u16) :: rat) = of_nat n" by (metis of_nat_unat)
  have fb: "flt_divc (flt_mul (flt_mul (flt_mul (Fin 2) (Fin 2)) (Fin 2)) (grid n)) 50 = Fin (of_nat n)"
    using f8 f50 by (simp add: flt_mul_def flt_divc_def grid_def mult.commute)
  have act: "flt_divc (flt_mul (Fin 50) (Fin (of_nat n))) 8 = grid n"
    using f50 fg by (simp add: flt_mul_def flt_divc_def grid_def mult.commute)
  show ?thesis
    using clamp fb act fu f50(3)
    by (simp add: bzm_frequency_resolve_target_def Let_def flt_to_u16_def flt_sub_def) (simp add: grid_def)
qed

lemma grid_request: "bzm_frequency_request_is_valid (grid n) \<longleftrightarrow> on_grid n"
proof -
  have "(800 :: rat) \<le> of_nat n * (25 / 4) \<longleftrightarrow> 128 \<le> n" "of_nat n * (25 / 4) \<le> (2000 :: rat) \<longleftrightarrow> n \<le> 320" by linarith+
  then show ?thesis by (simp add: bzm_frequency_request_is_valid_def grid_def on_grid_def)
qed

lemma grid_less: "m < n \<Longrightarrow> of_nat m * (25 / 4) \<le> (of_nat n * (25 / 4) - 25 / 4 :: rat)"
proof -
  assume "m < n"
  then have "of_nat (m + 1) \<le> (of_nat n :: rat)" by (simp only: of_nat_le_iff)
  then show ?thesis by simp
qed

lemma grid_sub_eps:
  assumes "on_grid n"
  shows "flt_le (flt_sub (grid n) BZM_FREQUENCY_EPSILON_MHZ) (grid m) \<longleftrightarrow> n \<le> m"
proof -
  obtain r where r: "BZM_FREQUENCY_EPSILON_MHZ = Fin r" "1 / 2000 < r" "r < 1 / 500" by (rule eps)
  let ?x = "of_nat n * (25 / 4) + - r"
  have "of_nat n \<le> (320 :: rat)" "0 \<le> (of_nat n :: rat)" using assms by (simp_all add: on_grid_def)
  then have "\<bar>?x\<bar> < exp2 11" unfolding abs_less_iff using r by (simp add: exp2_def)
  then obtain y where y: "round32 ?x = Fin y" "\<bar>y - ?x\<bar> \<le> 1 / 16384" using round32_error[of ?x 11] by (auto simp: exp2_def)
  have "y < of_nat n * (25 / 4)" "of_nat n * (25 / 4) - 1 / 100 < y" using y(2) r(2,3) unfolding abs_le_iff by linarith+
  moreover have "flt_sub (grid n) BZM_FREQUENCY_EPSILON_MHZ = Fin y"
    unfolding flt_sub_def grid_def r(1) flt_neg.simps flt_add.simps by (rule y(1))
  moreover have "of_nat n * (25 / 4) \<le> (of_nat m * (25 / 4) :: rat) \<longleftrightarrow> n \<le> m" by simp
  moreover note grid_less[of m n]
  ultimately show ?thesis by (cases "n \<le> m") (simp_all only: grid_def[of m] flt_le.simps, linarith+)
qed

lemma grid_add_eps:
  assumes "on_grid n"
  shows "flt_le (grid m) (flt_add (grid n) BZM_FREQUENCY_EPSILON_MHZ) \<longleftrightarrow> m \<le> n"
proof -
  obtain r where r: "BZM_FREQUENCY_EPSILON_MHZ = Fin r" "1 / 2000 < r" "r < 1 / 500" by (rule eps)
  let ?x = "of_nat n * (25 / 4) + r"
  have "of_nat n \<le> (320 :: rat)" "0 \<le> (of_nat n :: rat)" using assms by (simp_all add: on_grid_def)
  then have "\<bar>?x\<bar> < exp2 11" unfolding abs_less_iff using r by (simp add: exp2_def)
  then obtain y where y: "round32 ?x = Fin y" "\<bar>y - ?x\<bar> \<le> 1 / 16384" using round32_error[of ?x 11] by (auto simp: exp2_def)
  have "of_nat n * (25 / 4) < y" "y < of_nat n * (25 / 4) + 1 / 100" using y(2) r(2,3) unfolding abs_le_iff by linarith+
  moreover have "flt_add (grid n) BZM_FREQUENCY_EPSILON_MHZ = Fin y"
    unfolding grid_def r(1) flt_add.simps by (rule y(1))
  moreover have "of_nat m * (25 / 4) \<le> (of_nat n * (25 / 4) :: rat) \<longleftrightarrow> m \<le> n" by simp
  moreover note grid_less[of n m]
  ultimately show ?thesis by (cases "m \<le> n") (simp_all only: grid_def[of m] flt_le.simps, linarith+)
qed

lemma grid_diff:
  assumes "m \<le> 400" "n \<le> 400"
  shows "flt_sub (grid m) (grid n) = Fin ((of_nat m - of_nat n) * (25 / 4))"
proof -
  have x: "of_nat m * (25 / 4) + - (of_nat n * (25 / 4)) = (of_nat m - of_nat n) * (25 / 4 :: rat)" by (simp add: left_diff_distrib)
  have "round32 ((of_nat m - of_nat n) * (25 / 4)) = Fin ((of_nat m - of_nat n) * (25 / 4))"
    by (rule round32_quarters[of _ "25 * (int m - int n)"]) (use assms in auto)
  then show ?thesis unfolding flt_sub_def grid_def flt_neg.simps flt_add.simps x .
qed

lemma grid_fabs:
  assumes "m \<le> 400" "n \<le> 400"
  shows "flt_le (fabsf (flt_sub (grid m) (grid n))) BZM_FREQUENCY_EPSILON_MHZ \<longleftrightarrow> m = n"
    and "flt_lt (fabsf (flt_sub (grid m) (grid n))) BZM_FREQUENCY_EPSILON_MHZ \<longleftrightarrow> m = n"
    and "flt_le BZM_FREQUENCY_EPSILON_MHZ (fabsf (flt_sub (grid m) (grid n))) \<longleftrightarrow> m \<noteq> n"
proof -
  obtain r where r: "BZM_FREQUENCY_EPSILON_MHZ = Fin r" "1 / 2000 < r" "r < 1 / 500" by (rule eps)
  have "1 \<le> \<bar>(of_nat m - of_nat n) * (25 / 4) :: rat\<bar>" if "m \<noteq> n"
  proof -
    consider "m < n" | "n < m" using \<open>m \<noteq> n\<close> by (meson nat_neq_iff)
    then show ?thesis using grid_less[of m n] grid_less[of n m] unfolding left_diff_distrib abs_if by cases auto
  qed
  note far = this
  show "flt_le (fabsf (flt_sub (grid m) (grid n))) BZM_FREQUENCY_EPSILON_MHZ \<longleftrightarrow> m = n"
    "flt_lt (fabsf (flt_sub (grid m) (grid n))) BZM_FREQUENCY_EPSILON_MHZ \<longleftrightarrow> m = n"
    "flt_le BZM_FREQUENCY_EPSILON_MHZ (fabsf (flt_sub (grid m) (grid n))) \<longleftrightarrow> m \<noteq> n"
    unfolding grid_diff[OF assms] r(1) fabsf.simps flt_le.simps flt_lt.simps using r(2,3) far by (cases "m = n"; simp; linarith)+
qed

lemma grid_steps:
  assumes "on_grid n"
  shows "flt_add (grid n) BZM_FREQUENCY_RAMP_STEP_MHZ = grid (n + 4)"
    and "flt_add (grid n) (flt_neg BZM_FREQUENCY_RAMP_STEP_MHZ) = grid (n - 4)"
    and "flt_sub (grid n) BZM_FREQUENCY_INITIAL_OFFSET_MHZ = grid (n - 16)"
proof -
  have n: "128 \<le> n" "n \<le> 320" using assms by (auto simp: on_grid_def)
  have "(of_nat (n - 4) :: rat) = of_nat n - 4" "(of_nat (n - 16) :: rat) = of_nat n - 16" using n by (simp_all add: of_nat_diff)
  then show "flt_add (grid n) BZM_FREQUENCY_RAMP_STEP_MHZ = grid (n + 4)"
    "flt_add (grid n) (flt_neg BZM_FREQUENCY_RAMP_STEP_MHZ) = grid (n - 4)"
    "flt_sub (grid n) BZM_FREQUENCY_INITIAL_OFFSET_MHZ = grid (n - 16)"
    unfolding flt_sub_def grid_def flt_neg.simps flt_add.simps
    by (subst round32_quarters[of _ "25 * int n + 100"] round32_quarters[of _ "25 * int n - 100"]
        round32_quarters[of _ "25 * int n - 400"]; use n in \<open>simp add: algebra_simps\<close>)+
qed

lemma grid_lt: "flt_lt (grid m) (grid n) \<longleftrightarrow> m < n"
  by (simp add: grid_def)

lemma grid_finite [simp]: "isfinite (grid n)"
  by (simp add: grid_def)

lemma grid_800: "Fin 800 = grid 128" "Fin 1425 = grid 228" "Fin 2000 = grid 320"
  by (simp_all add: grid_def)

definition initial_index :: "nat \<Rightarrow> nat" where
  "initial_index t = max 128 (min 228 (t - 16))"

lemma grid_initial:
  assumes "on_grid t"
  shows "bzm_frequency_initial_mhz (grid t) = grid (initial_index t)"
proof -
  obtain a where a: "bzm_frequency_resolve_target (grid t) = Some a" "ft_actual_mhz a = grid t" using grid_resolve[OF assms] by blast
  have "clamp_frequency (flt_sub (grid t) BZM_FREQUENCY_INITIAL_OFFSET_MHZ) (Fin 800) (Fin 1425) = grid (initial_index t)"
    unfolding grid_steps(3)[OF assms] grid_800 clamp_frequency_def grid_lt by (auto simp: initial_index_def)
  moreover have "on_grid (initial_index t)" using assms by (auto simp: initial_index_def on_grid_def)
  then obtain b where "bzm_frequency_resolve_target (grid (initial_index t)) = Some b" "ft_actual_mhz b = grid (initial_index t)"
    using grid_resolve by blast
  ultimately show ?thesis using a by (simp add: bzm_frequency_initial_mhz_def)
qed

text \<open>One step of the ramp.\<close>

definition ramp_index :: "nat \<Rightarrow> nat \<Rightarrow> nat" where
  "ramp_index c t = min t (if c = 128 \<and> 128 < initial_index t then initial_index t else c + 4)"

lemma next_ramp_on_grid:
  assumes "bzm_frequency_request_is_valid x" and "bzm_frequency_resolve_target x = Some r" and "ft_actual_mhz r = grid t"
    and c: "on_grid c" and t: "on_grid t"
  shows "bzm_frequency_next_ramp_mhz (grid c) x = (if t \<le> c then None else Some (grid (ramp_index c t)))"
proof -
  have low: "\<not> flt_lt (grid c) (flt_sub BZM_FREQUENCY_POWER_ON_MHZ BZM_FREQUENCY_EPSILON_MHZ)"
  proof -
    have "flt_le (flt_sub BZM_FREQUENCY_POWER_ON_MHZ BZM_FREQUENCY_EPSILON_MHZ) (grid c)"
      unfolding grid_800 using grid_sub_eps[of 128 c] c by (simp add: on_grid_def)
    then show ?thesis by (cases "flt_sub BZM_FREQUENCY_POWER_ON_MHZ BZM_FREQUENCY_EPSILON_MHZ") (auto simp: grid_def)
  qed
  have ce: "c \<le> 400" "128 \<le> (400 :: nat)" using c by (simp_all add: on_grid_def)
  let ?cand = "if flt_le (fabsf (flt_sub (grid c) BZM_FREQUENCY_POWER_ON_MHZ)) BZM_FREQUENCY_EPSILON_MHZ
     then (let candidate_mhz = bzm_frequency_initial_mhz (grid t)
           in if \<not> isfinite candidate_mhz \<or> flt_le candidate_mhz (flt_add (grid c) BZM_FREQUENCY_EPSILON_MHZ)
              then flt_add (grid c) BZM_FREQUENCY_RAMP_STEP_MHZ else candidate_mhz)
     else flt_add (grid c) BZM_FREQUENCY_RAMP_STEP_MHZ"
  have cand: "?cand = grid (if c = 128 \<and> 128 < initial_index t then initial_index t else c + 4)"
    unfolding grid_800 grid_fabs(1)[OF ce] grid_initial[OF t] grid_steps(1)[OF c] Let_def grid_add_eps[OF c]
    by (auto simp: not_le)
  have lim: "(if flt_lt (grid t) ?cand then grid t else ?cand) = grid (ramp_index c t)"
    unfolding cand grid_lt by (simp add: ramp_index_def min_def)
  have on: "on_grid (ramp_index c t)" using c t by (auto simp: ramp_index_def on_grid_def initial_index_def)
  then obtain b where b: "bzm_frequency_resolve_target (grid (ramp_index c t)) = Some b" "ft_actual_mhz b = grid (ramp_index c t)"
    using grid_resolve by blast
  have up: "c < ramp_index c t" if "c < t" using that by (auto simp: ramp_index_def)
  show ?thesis
    unfolding bzm_frequency_next_ramp_mhz_def assms(2) option.case assms(3) Let_def lim[unfolded Let_def] b
      grid_sub_eps[OF t] grid_add_eps[OF c]
    using assms(1) low up by (auto simp: not_le)
qed

text \<open>Every valid request resolves to the grid.\<close>

lemma request_resolves:
  assumes "bzm_frequency_request_is_valid x"
  shows "\<exists>r t a. x = Fin a \<and> bzm_frequency_resolve_target x = Some r \<and> on_grid t \<and> ft_actual_mhz r = grid t \<and>
    ft_feedback_divider r = of_nat t \<and> \<bar>of_nat t * (25 / 4) - a\<bar> < 16 / 5"
proof -
  obtain a where a: "x = Fin a" "800 \<le> a" "a \<le> 2000"
    using assms by (cases x) (auto simp: bzm_frequency_request_is_valid_def)
  have clamp: "clamp_frequency x (Fin 800) (Fin 2000) = x" using a by (simp add: clamp_frequency_def)
  have f8: "round32 4 = Fin 4" "round32 8 = Fin 8" using round32_int[of 4] round32_int[of 8] by simp_all
  have e: "exp2 14 = 16384" "exp2 9 = 512" "exp2 (- 11) = 1 / 2048" "exp2 (- 16) = 1 / 65536" by (simp_all add: exp2_def)
  obtain b where b: "round32 (8 * a) = Fin b" "\<bar>b - 8 * a\<bar> \<le> 1 / 2048"
    using round32_error[of "8 * a" 14] a(2,3) by (auto simp: e)
  have "\<bar>b / 50\<bar> < 512" using b(2) a(2,3) unfolding abs_less_iff abs_le_iff by linarith
  then obtain y where y: "round32 (b / 50) = Fin y" "\<bar>y - b / 50\<bar> \<le> 1 / 65536"
    using round32_error[of "b / 50" 9] by (auto simp: e)
  have yb: "127 < y" "y < 320 + 1 / 1000" "128 - 1 / 1000 < y" "\<bar>y - 4 * a / 25\<bar> < 1 / 10000"
    using y(2) b(2) a(2,3) unfolding abs_less_iff abs_le_iff by linarith+
  define f where "f = nat \<lfloor>y\<rfloor>"
  have f: "127 \<le> f" "f \<le> 320" "of_nat f \<le> y" "y < of_nat f + 1"
    using yb(1,2) by (auto simp: f_def le_nat_iff nat_le_iff) linarith+
  have fw: "of_int \<lfloor>y\<rfloor> = (of_nat f :: u16)" using yb(1) by (simp add: f_def of_nat_nat)
  have "unat (of_nat f :: u16) = f" by (rule unat_small) (use f in simp)
  then have u: "(unsigned (of_nat f :: u16) :: rat) = of_nat f" by (metis of_nat_unat)
  have "\<bar>y - of_nat f\<bar> < exp2 0" using f by (simp add: exp2_def)
  then obtain d where d: "round32 (y - of_nat f) = Fin d" "\<bar>d - (y - of_nat f)\<bar> \<le> 1 / 33554432"
    using round32_error[of "y - of_nat f" 0] by (auto simp: exp2_def)
  define t where "t = (if d > 1 / 2 then f + 1 else f)"
  have t: "\<bar>of_nat t - y\<bar> \<le> 1 / 2 + 1 / 33554432" using d(2) f(3,4) unfolding abs_le_iff by (auto simp: t_def)
  have "(of_nat t :: rat) < 321" "127 < (of_nat t :: rat)" using t yb(2,3) unfolding abs_le_iff by linarith+
  then have "t < 321" "127 < t" by (metis of_nat_less_iff of_nat_numeral)+
  then have on: "on_grid t" by (simp add: on_grid_def)
  have near: "\<bar>of_nat t * (25 / 4) - a\<bar> < 16 / 5" using t yb(4) unfolding abs_le_iff abs_less_iff by linarith
  have tw: "(of_nat t :: u16) = (if d > 1 / 2 then of_nat f + 1 else of_nat f)" by (simp add: t_def)
  have fb: "flt_divc (flt_mul (flt_mul (flt_mul (Fin 2) (Fin 2)) (Fin 2)) x) 50 = Fin y"
    using f8 b(1) y(1) a(1) by (simp add: flt_mul_def flt_divc_def)
  have conv: "flt_to_u16 (Fin y) = of_nat f" using yb(1) fw by (simp add: flt_to_u16_def)
  have act: "flt_divc (flt_mul (Fin 50) (Fin (of_nat (unat (of_nat t :: u16))))) 8 = grid t"
    using on by (intro grid_actual) (simp add: on_grid_def)
  have up: "(if flt_lt (Fin (1 / 2)) (flt_sub (Fin y) (Fin (of_nat (unat (of_nat f :: u16))))) then of_nat f + 1 else of_nat f) = (of_nat t :: u16)"
    using u d(1) by (simp add: tw flt_sub_def)
  have "bzm_frequency_resolve_target x = Some \<lparr> ft_requested_mhz = x, ft_actual_mhz = grid t, ft_feedback_divider = of_nat t,
      ft_postdiv_register = push_bit 12 1 OR push_bit 9 1 OR push_bit 6 1 OR 2 \<rparr>"
    unfolding bzm_frequency_resolve_target_def Let_def clamp fb conv up act by (simp add: a(1))
  then show ?thesis using a(1) on near by auto
qed

section \<open>Ramps\<close>

text \<open>The frequencies a ramp goes through until it answers that there is no further step.\<close>

fun ramp_path :: "(cfloat \<Rightarrow> cfloat option) \<Rightarrow> cfloat \<Rightarrow> cfloat list \<Rightarrow> bool" where
  "ramp_path next c [] \<longleftrightarrow> next c = None"
| "ramp_path next c (x # xs) \<longleftrightarrow> next c = Some x \<and> ramp_path next x xs"

text \<open>Steps of at most four divider counts, 25 MHz, upwards to the end.\<close>

fun small_steps :: "nat \<Rightarrow> nat list \<Rightarrow> bool" where
  "small_steps c [] \<longleftrightarrow> True"
| "small_steps c (n # ns) \<longleftrightarrow> c < n \<and> n \<le> c + 4 \<and> small_steps n ns"

lemma climb:
  assumes x: "bzm_frequency_request_is_valid x" "bzm_frequency_resolve_target x = Some r" "ft_actual_mhz r = grid t"
    and "on_grid c" "on_grid t" "128 < c" "c \<le> t"
  shows "\<exists>ns. ramp_path (\<lambda>c. bzm_frequency_next_ramp_mhz c x) (grid c) (map grid ns) \<and> last (c # ns) = t \<and>
    small_steps c ns \<and> length ns = (t - c + 3) div 4"
  using assms(4-)
proof (induction "t - c" arbitrary: c rule: less_induct)
  case less
  note step = next_ramp_on_grid[OF x less.prems(1,2)]
  show ?case
  proof (cases "c = t")
    case True
    then show ?thesis using step by (intro exI[of _ "[]"]) simp
  next
    case False
    let ?n = "min t (c + 4)"
    have n: "ramp_index c t = ?n" "c < ?n" "?n \<le> t" "on_grid ?n" "t - ?n < t - c" "(t - c + 3) div 4 = Suc ((t - ?n + 3) div 4)"
      using less.prems False by (auto simp: ramp_index_def on_grid_def min_def)
    obtain ns where "ramp_path (\<lambda>c. bzm_frequency_next_ramp_mhz c x) (grid ?n) (map grid ns)" "last (?n # ns) = t"
      "small_steps ?n ns" "length ns = (t - ?n + 3) div 4"
      using less.hyps[OF n(5,4) less.prems(2)] n less.prems by auto
    then show ?thesis using step n False less.prems by (intro exI[of _ "?n # ns"]) auto
  qed
qed

text \<open>C9. The frequency ramp arrives: every valid request resolves to a divider between 128 and 320 whose
  frequency is within 3.2 MHz of it, and from the power-on frequency of 800 MHz repeated steps reach
  exactly that frequency and then stop, after at most 24 steps; the first step goes to at most
  1425 MHz or by 25 MHz, every later one upwards by at most 25 MHz, and none exceeds the target.\<close>

theorem frequency_ramp_arrives:
  assumes "bzm_frequency_request_is_valid x"
  shows "\<exists>r t a ns. x = Fin a \<and> bzm_frequency_resolve_target x = Some r \<and> ft_actual_mhz r = grid t \<and>
    ft_feedback_divider r = of_nat t \<and> 128 \<le> t \<and> t \<le> 320 \<and> \<bar>of_nat t * (25 / 4) - a\<bar> < 16 / 5 \<and>
    ramp_path (\<lambda>c. bzm_frequency_next_ramp_mhz c x) BZM_FREQUENCY_POWER_ON_MHZ (map grid ns) \<and> last (128 # ns) = t \<and>
    length ns \<le> 24 \<and> (case ns of [] \<Rightarrow> True | n # ns \<Rightarrow> 128 < n \<and> n \<le> 228 \<and> small_steps n ns) \<and> (\<forall>n\<in>set ns. n \<le> t)"
proof -
  obtain r t a where r: "x = Fin a" "bzm_frequency_resolve_target x = Some r" "on_grid t" "ft_actual_mhz r = grid t"
    "ft_feedback_divider r = of_nat t" "\<bar>of_nat t * (25 / 4) - a\<bar> < 16 / 5" using request_resolves[OF assms] by blast
  have on: "on_grid 128" "128 \<le> t" "t \<le> 320" using r(3) by (simp_all add: on_grid_def)
  note step = next_ramp_on_grid[OF assms r(2,4) on(1) r(3), folded grid_800]
  have bound: "small_steps c ns \<Longrightarrow> last (c # ns) = t \<Longrightarrow> c \<le> t \<and> (\<forall>n\<in>set ns. n \<le> t)" for c ns
    by (induction c ns rule: small_steps.induct) (auto split: if_splits)
  show ?thesis
  proof (cases "t = 128")
    case True
    then show ?thesis using r on step by (intro exI[of _ r] exI[of _ t] exI[of _ a] exI[of _ "[]"]) simp
  next
    case False
    define n where "n = ramp_index 128 t"
    have n: "128 < n" "n \<le> t" "on_grid n" "n \<le> 228" "(t - n + 3) div 4 \<le> 23"
      using False on by (auto simp: n_def ramp_index_def on_grid_def initial_index_def)
    obtain ns where ns: "ramp_path (\<lambda>c. bzm_frequency_next_ramp_mhz c x) (grid n) (map grid ns)" "last (n # ns) = t"
      "small_steps n ns" "length ns = (t - n + 3) div 4"
      using climb[OF assms r(2,4) n(3) r(3) n(1,2)] by blast
    show ?thesis
      using r on step False ns n bound[OF ns(3,2)]
      by (intro exI[of _ r] exI[of _ t] exI[of _ a] exI[of _ "n # ns"]) (simp add: n_def)
  qed
qed

theorem frequency_ramp_arrives_witness:
  "\<exists>r t ns. bzm_frequency_resolve_target (Fin 1500) = Some r \<and> ft_actual_mhz r = grid t \<and>
    ramp_path (\<lambda>c. bzm_frequency_next_ramp_mhz c (Fin 1500)) (Fin 800) (map grid ns) \<and> last (128 # ns) = t \<and> length ns \<le> 24"
proof -
  have "bzm_frequency_request_is_valid (Fin 1500)" by (simp add: bzm_frequency_request_is_valid_def)
  from frequency_ramp_arrives[OF this] show ?thesis by blast
qed

text \<open>Live steps lead from any grid frequency to any other.\<close>

lemma next_live_ramp_on_grid:
  assumes "on_grid c" "on_grid t"
  shows "bzm_frequency_next_live_ramp_mhz (grid c) (grid t) =
    (if t = c then None else Some (grid (if c < t then min t (c + 4) else max t (c - 4))))"
proof -
  obtain a where a: "bzm_frequency_resolve_target (grid c) = Some a" "ft_actual_mhz a = grid c" using grid_resolve[OF assms(1)] by blast
  obtain b where b: "bzm_frequency_resolve_target (grid t) = Some b" "ft_actual_mhz b = grid t" using grid_resolve[OF assms(2)] by blast
  have le: "c \<le> 400" "t \<le> 400" using assms by (auto simp: on_grid_def)
  have sgn: "flt_lt (Fin 0) (flt_sub (grid t) (grid c)) \<longleftrightarrow> c < t" "flt_lt (flt_sub (grid t) (grid c)) (Fin 0) \<longleftrightarrow> t < c"
    unfolding grid_diff[OF le(2,1)] by (simp_all add: zero_less_mult_iff mult_less_0_iff)
  let ?n = "if c < t then min t (c + 4) else max t (c - 4)"
  let ?cand = "flt_add (grid c) (if flt_lt (Fin 0) (flt_sub (grid t) (grid c)) then BZM_FREQUENCY_RAMP_STEP_MHZ else flt_neg BZM_FREQUENCY_RAMP_STEP_MHZ)"
  have cand: "?cand = grid (if c < t then c + 4 else c - 4)" unfolding sgn using grid_steps[OF assms(1)] by simp
  have lim: "(if (flt_lt (Fin 0) (flt_sub (grid t) (grid c)) \<and> flt_lt (grid t) ?cand) \<or>
      (flt_lt (flt_sub (grid t) (grid c)) (Fin 0) \<and> flt_lt ?cand (grid t)) then grid t else ?cand) = grid ?n" if "t \<noteq> c"
    unfolding cand unfolding sgn grid_lt using that by (auto simp: min_def max_def)
  have "on_grid ?n" using assms by (auto simp: on_grid_def)
  then obtain d where d: "bzm_frequency_resolve_target (grid ?n) = Some d" "ft_actual_mhz d = grid ?n" using grid_resolve by blast
  have ne: "?n \<noteq> c" "?n \<le> 400" if "t \<noteq> c" using that assms by (auto simp: on_grid_def)
  show ?thesis
  proof (cases "t = c")
    case True
    then show ?thesis using a le by (simp add: bzm_frequency_next_live_ramp_mhz_def grid_fabs(2,3))
  next
    case False
    show ?thesis
      unfolding bzm_frequency_next_live_ramp_mhz_def a b option.case prod.case Let_def lim[OF False] d
        grid_fabs(2)[OF ne(2)[OF False] le(1)] grid_fabs(2)[OF le(2,1)] grid_fabs(3)[OF le(1,1)] grid_request
      using assms False ne(1)[OF False] by simp
  qed
qed

end
