(* ===== verification/PowerRail.thy ===== *)
theory PowerRail
  imports Frequency Bridge
begin

text \<open>
  Power sequencing of the hash rail (\<open>components/asic/bzm_power.c\<close>): the regulator profile, the voltages that are
  allowed, the voltage curves of tuning and the sequences that switch the rail. The regulator and the bridge are
  reached through \<open>bzm_power_ops_t\<close>, whose operations act on a device state.
\<close>

section \<open>Model: profile and voltages\<close>

record bzm_tps546_profile_t =
  pf_phase :: u8
  pf_smbalert_mask :: "u16 list"
  pf_frequency_switch_khz :: int
  pf_sync_config :: u8
  pf_stack_config :: u16
  pf_interleave :: u16
  pf_misc_options :: u16
  pf_pin_detect_override :: u16
  pf_compensation_config :: "u8 list"
  pf_power_stage_config :: u8
  pf_telemetry_config :: "u8 list"
  pf_vout_command :: cfloat
  pf_vout_trim :: u16
  pf_vout_max :: cfloat
  pf_vout_margin_high :: cfloat
  pf_vout_margin_low :: cfloat
  pf_vout_transition_rate :: u16
  pf_vout_scale_loop :: cfloat
  pf_vout_min :: cfloat
  pf_vin_on :: cfloat
  pf_vin_off :: cfloat
  pf_iout_cal_gain :: u16
  pf_iout_cal_offset :: u16
  pf_vout_ov_fault_limit :: cfloat
  pf_vout_ov_fault_response :: u8
  pf_vout_ov_warn_limit :: cfloat
  pf_vout_uv_warn_limit :: cfloat
  pf_vout_uv_fault_limit :: cfloat
  pf_vout_uv_fault_response :: u8
  pf_iout_oc_fault_limit :: cfloat
  pf_iout_oc_fault_response :: u8
  pf_iout_oc_warn_limit :: cfloat
  pf_ot_fault_limit :: int
  pf_ot_fault_response :: u8
  pf_ot_warn_limit :: int
  pf_vin_ov_fault_limit :: cfloat
  pf_vin_ov_fault_response :: u8
  pf_vin_uv_warn_limit :: cfloat
  pf_ton_delay :: int
  pf_ton_rise :: int
  pf_ton_max_fault_limit :: int
  pf_ton_max_fault_response :: u8
  pf_toff_delay :: int
  pf_toff_fall :: int

definition BZM_TPS546_FIXED_VOUT_V :: cfloat where "BZM_TPS546_FIXED_VOUT_V = round32 (28 / 10)"
definition BZM_TPS546_MIN_VOUT_V :: cfloat where "BZM_TPS546_MIN_VOUT_V = round32 (21 / 10)"
definition BZM_TPS546_MAX_VOUT_V :: cfloat where "BZM_TPS546_MAX_VOUT_V = round32 (32 / 10)"
definition BZM_TPS546_VOUT_TOLERANCE_V :: cfloat where "BZM_TPS546_VOUT_TOLERANCE_V = round32 (1 / 1000)"
definition BZM_TPS546_VOUT_READBACK_TOLERANCE_V :: cfloat where "BZM_TPS546_VOUT_READBACK_TOLERANCE_V = round32 (2 / 1000)"
definition BZM_TUNING_VOLTAGE_STEP_V :: cfloat where "BZM_TUNING_VOLTAGE_STEP_V = round32 (5 / 100)"
abbreviation BZM_TUNING_MAX_VOLTAGE_STEPS :: cfloat where "BZM_TUNING_MAX_VOLTAGE_STEPS \<equiv> Fin 9"

abbreviation BZM_TUNING_BASE_VOLTAGE_MV :: cfloat where "BZM_TUNING_BASE_VOLTAGE_MV \<equiv> Fin 2800"
abbreviation BZM_TUNING_CALIBRATION_VOLTAGE_MV :: cfloat where "BZM_TUNING_CALIBRATION_VOLTAGE_MV \<equiv> Fin 50"
abbreviation BZM_TUNING_AMBIENT_OFFSET_MV :: u32 where "BZM_TUNING_AMBIENT_OFFSET_MV \<equiv> 50"
abbreviation BZM_TUNING_CALIBRATION_FREQUENCY_MHZ :: rat where "BZM_TUNING_CALIBRATION_FREQUENCY_MHZ \<equiv> 25"
abbreviation BZM_TUNING_LOW_FREQUENCY_MHZ :: cfloat where "BZM_TUNING_LOW_FREQUENCY_MHZ \<equiv> Fin 1000"
abbreviation BZM_TUNING_BALANCED_FREQUENCY_MHZ :: cfloat where "BZM_TUNING_BALANCED_FREQUENCY_MHZ \<equiv> Fin 1150"
abbreviation BZM_TUNING_HIGH_FREQUENCY_MHZ :: cfloat where "BZM_TUNING_HIGH_FREQUENCY_MHZ \<equiv> Fin 1200"
abbreviation BZM_TUNING_HIGH_2_FREQUENCY_MHZ :: cfloat where "BZM_TUNING_HIGH_2_FREQUENCY_MHZ \<equiv> Fin 1425"

definition BZM_TPS546_BIRDS_PROFILE :: bzm_tps546_profile_t where
  "BZM_TPS546_BIRDS_PROFILE = \<lparr>
     pf_phase = 0xff,
     pf_smbalert_mask = [0x0200, 0x1800, 0xe800, 0x0000, 0x0000, 0x0100, 0x4200],
     pf_frequency_switch_khz = 325,
     pf_sync_config = 0x00,
     pf_stack_config = 0x0000,
     pf_interleave = 0x0010,
     pf_misc_options = 0x0000,
     pf_pin_detect_override = 0x0000,
     pf_compensation_config = [0x13, 0x11, 0x8c, 0x1d, 0x06],
     pf_power_stage_config = 0x70,
     pf_telemetry_config = [0x03, 0x03, 0x03, 0x03, 0x03, 0x00],
     pf_vout_command = BZM_TPS546_FIXED_VOUT_V,
     pf_vout_trim = 0x0000,
     pf_vout_max = BZM_TPS546_MAX_VOUT_V,
     pf_vout_margin_high = round32 (11 / 10),
     pf_vout_margin_low = round32 (90 / 100),
     pf_vout_transition_rate = 0xe010,
     pf_vout_scale_loop = Fin (1 / 8),
     pf_vout_min = BZM_TPS546_MIN_VOUT_V,
     pf_vin_on = Fin 11,
     pf_vin_off = Fin (21 / 2),
     pf_iout_cal_gain = 0xc880,
     pf_iout_cal_offset = 0xe000,
     pf_vout_ov_fault_limit = Fin (5 / 4),
     pf_vout_ov_fault_response = 0xbd,
     pf_vout_ov_warn_limit = round32 (116 / 100),
     pf_vout_uv_warn_limit = round32 (90 / 100),
     pf_vout_uv_fault_limit = Fin (3 / 4),
     pf_vout_uv_fault_response = 0xbe,
     pf_iout_oc_fault_limit = Fin 55,
     pf_iout_oc_fault_response = 0xc0,
     pf_iout_oc_warn_limit = Fin 50,
     pf_ot_fault_limit = 145,
     pf_ot_fault_response = 0xff,
     pf_ot_warn_limit = 105,
     pf_vin_ov_fault_limit = Fin 14,
     pf_vin_ov_fault_response = 0xb7,
     pf_vin_uv_warn_limit = Fin 11,
     pf_ton_delay = 0,
     pf_ton_rise = 3,
     pf_ton_max_fault_limit = 0,
     pf_ton_max_fault_response = 0x3b,
     pf_toff_delay = 0,
     pf_toff_fall = 0 \<rparr>"

definition bzm_power_voltage_is_allowed :: "cfloat \<Rightarrow> bool" where
  "bzm_power_voltage_is_allowed volts \<longleftrightarrow>
     isfinite volts \<and>
     (volts = Fin 0 \<or> flt_le (fabsf (flt_sub volts BZM_TPS546_FIXED_VOUT_V)) BZM_TPS546_VOUT_TOLERANCE_V)"

definition bzm_power_runtime_voltage_is_allowed :: "cfloat \<Rightarrow> bool" where
  "bzm_power_runtime_voltage_is_allowed volts \<longleftrightarrow>
     isfinite volts \<and> flt_le (pf_vout_min BZM_TPS546_BIRDS_PROFILE) volts \<and>
     flt_le volts (pf_vout_max BZM_TPS546_BIRDS_PROFILE)"

definition bzm_power_resolve_user_voltage :: "u16 \<Rightarrow> cfloat option" where
  "bzm_power_resolve_user_voltage millivolts =
     (let requested_v = flt_divc (Fin (of_nat (unat millivolts))) 1000
      in if \<not> bzm_power_runtime_voltage_is_allowed requested_v then None else Some requested_v)"

text \<open>\<open>fminf\<close> returns the other argument for a NaN.\<close>

definition fminf :: "cfloat \<Rightarrow> cfloat \<Rightarrow> cfloat" where
  "fminf x y = (if x = NaN then y else if y = NaN then x else if flt_le x y then x else y)"

text \<open>The slope of the voltage curve above a knee: \<open>(f - knee) / 25 * 50\<close>.\<close>

definition curve_mv :: "cfloat \<Rightarrow> cfloat \<Rightarrow> cfloat" where
  "curve_mv frequency_mhz knee =
     flt_mul (flt_divc (flt_sub frequency_mhz knee) BZM_TUNING_CALIBRATION_FREQUENCY_MHZ) BZM_TUNING_CALIBRATION_VOLTAGE_MV"

text \<open>Conversion to \<open>uint32_t\<close> of a value in its range: the fraction is dropped.\<close>

definition flt_to_u32 :: "cfloat \<Rightarrow> u32" where
  "flt_to_u32 x = (case x of Fin a \<Rightarrow> of_int (if a < 0 then \<lceil>a\<rceil> else \<lfloor>a\<rfloor>) | _ \<Rightarrow> 0)"

definition bzm_power_frequency_target_voltage :: "cfloat \<Rightarrow> cfloat option" where
  "bzm_power_frequency_target_voltage frequency_mhz =
     (if \<not> bzm_frequency_request_is_valid frequency_mhz then None
      else
        (let target_mv = flt_add BZM_TUNING_BASE_VOLTAGE_MV
               (if flt_le BZM_TUNING_HIGH_2_FREQUENCY_MHZ frequency_mhz
                then flt_mul (curve_mv frequency_mhz BZM_TUNING_HIGH_2_FREQUENCY_MHZ) (Fin (3 / 2))
                else if flt_le BZM_TUNING_HIGH_FREQUENCY_MHZ frequency_mhz
                then flt_mul (curve_mv frequency_mhz BZM_TUNING_HIGH_FREQUENCY_MHZ) (Fin (3 / 2))
                else if flt_le BZM_TUNING_BALANCED_FREQUENCY_MHZ frequency_mhz
                then curve_mv frequency_mhz BZM_TUNING_BALANCED_FREQUENCY_MHZ
                else if flt_le BZM_TUNING_LOW_FREQUENCY_MHZ frequency_mhz
                then curve_mv frequency_mhz BZM_TUNING_LOW_FREQUENCY_MHZ
                else flt_divc (curve_mv frequency_mhz BZM_TUNING_LOW_FREQUENCY_MHZ) 2);
             target_mv_truncated = flt_to_u32 target_mv;
             resolved_v = flt_divc (round32 (of_nat (unat (target_mv_truncated - BZM_TUNING_AMBIENT_OFFSET_MV)))) 1000;
             resolved_v = fminf resolved_v (pf_vout_max BZM_TPS546_BIRDS_PROFILE)
         in if \<not> bzm_power_runtime_voltage_is_allowed resolved_v then None else Some resolved_v))"

definition bzm_power_tuning_next_voltage :: "cfloat \<Rightarrow> cfloat \<Rightarrow> cfloat option" where
  "bzm_power_tuning_next_voltage initial_voltage_v current_voltage_v =
     (if \<not> bzm_power_runtime_voltage_is_allowed initial_voltage_v \<or> \<not> bzm_power_runtime_voltage_is_allowed current_voltage_v
      then None
      else
        (let adaptive_limit_v = fminf (pf_vout_max BZM_TPS546_BIRDS_PROFILE)
               (flt_add initial_voltage_v (flt_mul BZM_TUNING_VOLTAGE_STEP_V BZM_TUNING_MAX_VOLTAGE_STEPS))
         in if flt_le (flt_sub adaptive_limit_v BZM_TPS546_VOUT_READBACK_TOLERANCE_V) current_voltage_v then None
            else
              (let candidate_v = fminf adaptive_limit_v (flt_add current_voltage_v BZM_TUNING_VOLTAGE_STEP_V)
               in if \<not> bzm_power_runtime_voltage_is_allowed candidate_v then None else Some candidate_v)))"

section \<open>Model: sequences\<close>

record 'c bzm_power_ops_t =
  po_set_5v_enabled :: "bool \<Rightarrow> 'c \<Rightarrow> esp_err_t \<times> 'c"
  po_set_regulator_enabled :: "bool \<Rightarrow> 'c \<Rightarrow> esp_err_t \<times> 'c"
  po_set_vout :: "cfloat \<Rightarrow> 'c \<Rightarrow> esp_err_t \<times> 'c"
  po_validate_power :: "cfloat \<Rightarrow> 'c \<Rightarrow> esp_err_t \<times> 'c"
  po_delay_ms :: "u32 \<Rightarrow> 'c \<Rightarrow> 'c"

definition retain_first_error :: "esp_err_t \<Rightarrow> esp_err_t \<Rightarrow> esp_err_t" where
  "retain_first_error candidate result = (if result = ESP_OK \<and> candidate \<noteq> ESP_OK then candidate else result)"

definition power_down :: "'c bzm_power_ops_t \<Rightarrow> 'c \<Rightarrow> esp_err_t \<times> 'c" where
  "power_down ops c =
     (let result = ESP_OK;
          (err, c) = po_set_5v_enabled ops False c; result = retain_first_error err result;
          (err, c) = po_set_vout ops (Fin 0) c; result = retain_first_error err result;
          (err, c) = po_set_regulator_enabled ops False c; result = retain_first_error err result
      in (result, c))"

text \<open>\<open>if (err == ESP_OK) err = \<dots>\<close>\<close>

definition if_ok :: "('c \<Rightarrow> esp_err_t \<times> 'c) \<Rightarrow> esp_err_t \<times> 'c \<Rightarrow> esp_err_t \<times> 'c" where
  "if_ok f r = (case r of (err, c) \<Rightarrow> if err = ESP_OK then f c else (err, c))"

text \<open>A missing table of operations, or one with a NULL entry, is \<open>None\<close>.\<close>

definition bzm_power_set_rail_enabled :: "'c bzm_power_ops_t option \<Rightarrow> bool \<Rightarrow> 'c \<Rightarrow> esp_err_t \<times> 'c" where
  "bzm_power_set_rail_enabled ops enabled c =
     (case ops of None \<Rightarrow> (ESP_ERR_INVALID_ARG, c)
      | Some ops \<Rightarrow>
          if \<not> enabled then power_down ops c
          else
            (let r = po_set_5v_enabled ops False c;
                 r = if_ok (po_set_regulator_enabled ops True) r;
                 r = if_ok (\<lambda>c. po_set_vout ops (pf_vout_command BZM_TPS546_BIRDS_PROFILE) (po_delay_ms ops 100 c)) r;
                 r = if_ok (\<lambda>c. po_validate_power ops (pf_vout_command BZM_TPS546_BIRDS_PROFILE) (po_delay_ms ops 100 c)) r;
                 (err, c) = r
             in if err \<noteq> ESP_OK then (err, snd (power_down ops c)) else (err, c)))"

definition bzm_power_set_runtime_voltage :: "'c bzm_power_ops_t option \<Rightarrow> cfloat \<Rightarrow> 'c \<Rightarrow> esp_err_t \<times> 'c" where
  "bzm_power_set_runtime_voltage ops volts c =
     (case ops of None \<Rightarrow> (ESP_ERR_INVALID_ARG, c)
      | Some ops \<Rightarrow>
          if \<not> bzm_power_runtime_voltage_is_allowed volts then (ESP_ERR_INVALID_ARG, c)
          else
            (let r = po_set_vout ops volts c;
                 (err, c) = if_ok (\<lambda>c. po_validate_power ops volts (po_delay_ms ops 100 c)) r
             in if err \<noteq> ESP_OK then (err, snd (power_down ops c)) else (err, c)))"

definition bzm_power_set_enabled :: "'c bzm_power_ops_t option \<Rightarrow> bool \<Rightarrow> 'c \<Rightarrow> esp_err_t \<times> 'c" where
  "bzm_power_set_enabled ops enabled c =
     (case ops of None \<Rightarrow> (ESP_ERR_INVALID_ARG, c)
      | Some device \<Rightarrow>
          if \<not> enabled then bzm_power_set_rail_enabled ops False c
          else
            (let (err, c) = bzm_power_set_rail_enabled ops True c
             in if err \<noteq> ESP_OK then (err, c)
                else
                  (let (err, c) = po_set_5v_enabled device True c
                   in if err \<noteq> ESP_OK then (err, snd (power_down device c)) else (err, c))))"

section \<open>The sequences are transactions\<close>

datatype power_call = Set5V bool | SetRegulator bool | SetVout cfloat | Validate cfloat | Delay u32

fun perform :: "'c bzm_power_ops_t \<Rightarrow> power_call \<Rightarrow> 'c \<Rightarrow> esp_err_t \<times> 'c" where
  "perform ops (Set5V b) c = po_set_5v_enabled ops b c"
| "perform ops (SetRegulator b) c = po_set_regulator_enabled ops b c"
| "perform ops (SetVout v) c = po_set_vout ops v c"
| "perform ops (Validate v) c = po_validate_power ops v c"
| "perform ops (Delay ms) c = (ESP_OK, po_delay_ms ops ms c)"

text \<open>Calls up to the first error; all calls, with the first error kept; a sequence of calls that is rolled back.\<close>

fun until_failure :: "'c bzm_power_ops_t \<Rightarrow> power_call list \<Rightarrow> 'c \<Rightarrow> esp_err_t \<times> 'c" where
  "until_failure ops [] c = (ESP_OK, c)"
| "until_failure ops (call # calls) c =
     (case perform ops call c of (err, c) \<Rightarrow> if err = ESP_OK then until_failure ops calls c else (err, c))"

fun despite_failures :: "'c bzm_power_ops_t \<Rightarrow> power_call list \<Rightarrow> 'c \<Rightarrow> esp_err_t \<times> 'c" where
  "despite_failures ops [] c = (ESP_OK, c)"
| "despite_failures ops (call # calls) c =
     (case perform ops call c of (err, c) \<Rightarrow> case despite_failures ops calls c of
        (later, c) \<Rightarrow> (if err = ESP_OK then later else err, c))"

definition shutdown_calls :: "power_call list" where
  "shutdown_calls = [Set5V False, SetVout (Fin 0), SetRegulator False]"

definition power_up_calls :: "power_call list" where
  "power_up_calls = [Set5V False, SetRegulator True, Delay 100, SetVout BZM_TPS546_FIXED_VOUT_V,
     Delay 100, Validate BZM_TPS546_FIXED_VOUT_V, Set5V True]"

definition runtime_voltage_calls :: "cfloat \<Rightarrow> power_call list" where
  "runtime_voltage_calls v = [SetVout v, Delay 100, Validate v]"

definition power_transaction :: "'c bzm_power_ops_t \<Rightarrow> power_call list \<Rightarrow> 'c \<Rightarrow> esp_err_t \<times> 'c" where
  "power_transaction ops calls c =
     (case until_failure ops calls c of (err, c) \<Rightarrow>
        if err = ESP_OK then (ESP_OK, c) else (err, snd (despite_failures ops shutdown_calls c)))"

lemma profile_voltages [simp]:
  "pf_vout_command BZM_TPS546_BIRDS_PROFILE = BZM_TPS546_FIXED_VOUT_V"
  "pf_vout_min BZM_TPS546_BIRDS_PROFILE = BZM_TPS546_MIN_VOUT_V"
  "pf_vout_max BZM_TPS546_BIRDS_PROFILE = BZM_TPS546_MAX_VOUT_V"
  by (simp_all add: BZM_TPS546_BIRDS_PROFILE_def)

lemma power_down_calls: "power_down ops c = despite_failures ops shutdown_calls c"
  by (auto simp: power_down_def shutdown_calls_def retain_first_error_def Let_def split: prod.splits)

lemma until_failure_append:
  "until_failure ops (calls @ calls2) c = if_ok (until_failure ops calls2) (until_failure ops calls c)"
  by (induction ops calls c rule: until_failure.induct) (auto simp: if_ok_def split: prod.splits)

lemma until_failure_one: "until_failure ops [call] = perform ops call"
  by (rule ext) (auto split: prod.splits)

lemma until_failure_delayed: "until_failure ops [Delay ms, call] = (\<lambda>c. perform ops call (po_delay_ms ops ms c))"
  by (rule ext) (auto split: prod.splits)

lemma perform_op:
  "perform ops (Set5V b) = po_set_5v_enabled ops b" "perform ops (SetRegulator b) = po_set_regulator_enabled ops b"
  by (simp_all add: fun_eq_iff)

lemma rail_calls:
  "until_failure ops (butlast power_up_calls) c =
     if_ok (\<lambda>c. po_validate_power ops BZM_TPS546_FIXED_VOUT_V (po_delay_ms ops 100 c))
       (if_ok (\<lambda>c. po_set_vout ops BZM_TPS546_FIXED_VOUT_V (po_delay_ms ops 100 c))
         (if_ok (po_set_regulator_enabled ops True) (po_set_5v_enabled ops False c)))"
proof -
  have "butlast power_up_calls = (([Set5V False] @ [SetRegulator True]) @ [Delay 100, SetVout BZM_TPS546_FIXED_VOUT_V]) @
      [Delay 100, Validate BZM_TPS546_FIXED_VOUT_V]" by (simp add: power_up_calls_def)
  then show ?thesis by (simp only: until_failure_append until_failure_one until_failure_delayed perform.simps perform_op)
qed

lemma transaction_cases:
  "power_transaction ops calls c =
     (case until_failure ops calls c of (err, c) \<Rightarrow>
        if err \<noteq> ESP_OK then (err, snd (power_down ops c)) else (err, c))"
  by (auto simp: power_transaction_def power_down_calls split: prod.splits)

lemma rail_is_transaction:
  "bzm_power_set_rail_enabled (Some ops) True c = power_transaction ops (butlast power_up_calls) c"
  unfolding transaction_cases rail_calls by (simp add: bzm_power_set_rail_enabled_def Let_def)

lemma enabled_is_transaction:
  "bzm_power_set_enabled (Some ops) True c = power_transaction ops power_up_calls c"
proof -
  have calls: "power_up_calls = butlast power_up_calls @ [Set5V True]" by (simp add: power_up_calls_def)
  show ?thesis
    unfolding arg_cong[OF calls, of "\<lambda>calls. power_transaction ops calls c"]
    by (cases "until_failure ops (butlast power_up_calls) c")
      (simp add: bzm_power_set_enabled_def rail_is_transaction transaction_cases until_failure_append until_failure_one
        if_ok_def del: until_failure.simps)
qed

lemma runtime_voltage_is_transaction:
  "bzm_power_set_runtime_voltage (Some ops) v c =
     (if bzm_power_runtime_voltage_is_allowed v then power_transaction ops (runtime_voltage_calls v) c
      else (ESP_ERR_INVALID_ARG, c))"
proof -
  have "until_failure ops (runtime_voltage_calls v) c =
      if_ok (\<lambda>c. po_validate_power ops v (po_delay_ms ops 100 c)) (po_set_vout ops v c)"
    using until_failure_append[of ops "[SetVout v]" "[Delay 100, Validate v]" c]
    by (simp add: runtime_voltage_calls_def until_failure_one until_failure_delayed del: until_failure.simps)
  then show ?thesis by (simp add: bzm_power_set_runtime_voltage_def transaction_cases)
qed

lemma fixed_voltage_allowed:
  "bzm_power_voltage_is_allowed BZM_TPS546_FIXED_VOUT_V" "bzm_power_runtime_voltage_is_allowed BZM_TPS546_FIXED_VOUT_V"
  by code_simp+

text \<open>C10. Switching the rail on is a transaction: power-up keeps 5 V off, starts the regulator at the fixed voltage,
  validates the rail and only then enables 5 V; a runtime voltage is commanded only between the limits of the profile and
  then validated. The first call that fails ends such a sequence, decides the error and is followed by
  the complete shutdown. Switching off, by either function, is that shutdown alone: its three calls are made in order whatever each
  of them answers, and the first error is the result. The fixed voltage is an allowed one, also at run time, and missing
  operations change nothing.\<close>

theorem power_sequences_are_transactions:
  "bzm_power_set_enabled (Some ops) True c = power_transaction ops power_up_calls c \<and>
   bzm_power_set_rail_enabled (Some ops) True c = power_transaction ops (butlast power_up_calls) c \<and>
   bzm_power_set_enabled (Some ops) False c = despite_failures ops shutdown_calls c \<and>
   bzm_power_set_rail_enabled (Some ops) False c = despite_failures ops shutdown_calls c \<and>
   bzm_power_set_runtime_voltage (Some ops) v c =
     (if isfinite v \<and> flt_le BZM_TPS546_MIN_VOUT_V v \<and> flt_le v BZM_TPS546_MAX_VOUT_V
      then power_transaction ops (runtime_voltage_calls v) c else (ESP_ERR_INVALID_ARG, c)) \<and>
   bzm_power_voltage_is_allowed BZM_TPS546_FIXED_VOUT_V \<and> bzm_power_runtime_voltage_is_allowed BZM_TPS546_FIXED_VOUT_V \<and>
   bzm_power_set_enabled None b c = (ESP_ERR_INVALID_ARG, c) \<and>
   bzm_power_set_rail_enabled None b c = (ESP_ERR_INVALID_ARG, c) \<and>
   bzm_power_set_runtime_voltage None v c = (ESP_ERR_INVALID_ARG, c)"
proof (intro conjI)
  show "bzm_power_set_runtime_voltage (Some ops) v c =
     (if isfinite v \<and> flt_le BZM_TPS546_MIN_VOUT_V v \<and> flt_le v BZM_TPS546_MAX_VOUT_V
      then power_transaction ops (runtime_voltage_calls v) c else (ESP_ERR_INVALID_ARG, c))"
    by (simp only: runtime_voltage_is_transaction bzm_power_runtime_voltage_is_allowed_def profile_voltages)
qed (simp_all only: enabled_is_transaction rail_is_transaction fixed_voltage_allowed,
  simp_all add: bzm_power_set_enabled_def bzm_power_set_rail_enabled_def bzm_power_set_runtime_voltage_def power_down_calls)

section \<open>The voltage curve\<close>

text \<open>The curve in millivolts, before the offset, over the reals.\<close>

definition tuning_curve_mv :: "rat \<Rightarrow> rat" where
  "tuning_curve_mv f = 2800 +
     (if 1425 \<le> f then (f - 1425) * 3 else if 1200 \<le> f then (f - 1200) * 3
      else if 1150 \<le> f then (f - 1150) * 2 else if 1000 \<le> f then (f - 1000) * 2 else f - 1000)"

lemma rounded:
  assumes "\<bar>x\<bar> < 2 ^ k" "k \<le> 100"
  obtains y where "round32 x = Fin y" "\<bar>y - x\<bar> \<le> 2 ^ k / 2 ^ 25"
proof -
  have k: "exp2 (int k) = 2 ^ k" by (simp add: exp2_def)
  have "exp2 (- 25) = 1 / 2 ^ 25" by (simp add: exp2_def)
  then have "exp2 (int k - 25) = 2 ^ k / 2 ^ 25" using exp2_add[of "int k" "- 25"] k by simp
  moreover have "\<bar>x\<bar> < exp2 (int k)" "- 124 \<le> int k" "int k \<le> 126" using assms k by simp_all
  ultimately show ?thesis using round32_error[of x "int k"] that by metis
qed

lemma curve_mv_error:
  assumes "\<bar>f - k\<bar> \<le> 1200"
  obtains c where "curve_mv (Fin f) (Fin k) = Fin c" "\<bar>c - (f - k) * 2\<bar> \<le> 35 / 100000"
proof -
  obtain x where x: "round32 (f - k) = Fin x" "\<bar>x - (f - k)\<bar> \<le> 2 ^ 11 / 2 ^ 25"
    using rounded[of "f - k" 11] assms by auto
  then have "\<bar>x / 25\<bar> < 2 ^ 6" using assms unfolding abs_le_iff abs_less_iff by simp
  then obtain y where y: "round32 (x / 25) = Fin y" "\<bar>y - x / 25\<bar> \<le> 2 ^ 6 / 2 ^ 25" using rounded[of "x / 25" 6] by auto
  then have "\<bar>y * 50\<bar> < 2 ^ 12" using x(2) assms unfolding abs_le_iff abs_less_iff by simp
  then obtain z where z: "round32 (y * 50) = Fin z" "\<bar>z - y * 50\<bar> \<le> 2 ^ 12 / 2 ^ 25" using rounded[of "y * 50" 12] by auto
  have "\<bar>z - (f - k) * 2\<bar> \<le> 35 / 100000" using x(2) y(2) z(2) unfolding abs_le_iff by simp
  then show ?thesis using that x(1) y(1) z(1) by (simp add: curve_mv_def flt_sub_def flt_divc_def flt_mul_def)
qed

lemma target_mv_error:
  assumes f: "800 \<le> f" "f \<le> 2000"
  obtains m where
    "flt_add (Fin 2800)
       (if 1425 \<le> f then flt_mul (curve_mv (Fin f) (Fin 1425)) (Fin (3 / 2))
        else if 1200 \<le> f then flt_mul (curve_mv (Fin f) (Fin 1200)) (Fin (3 / 2))
        else if 1150 \<le> f then curve_mv (Fin f) (Fin 1150)
        else if 1000 \<le> f then curve_mv (Fin f) (Fin 1000)
        else flt_divc (curve_mv (Fin f) (Fin 1000)) 2) = Fin m"
    "\<bar>m - tuning_curve_mv f\<bar> \<le> 1 / 1000"
proof -
  let ?e = "if 1425 \<le> f then flt_mul (curve_mv (Fin f) (Fin 1425)) (Fin (3 / 2))
        else if 1200 \<le> f then flt_mul (curve_mv (Fin f) (Fin 1200)) (Fin (3 / 2))
        else if 1150 \<le> f then curve_mv (Fin f) (Fin 1150)
        else if 1000 \<le> f then curve_mv (Fin f) (Fin 1000)
        else flt_divc (curve_mv (Fin f) (Fin 1000)) 2"
  have steep: "\<exists>d. flt_mul (curve_mv (Fin f) (Fin k)) (Fin (3 / 2)) = Fin d \<and> \<bar>d - (f - k) * 3\<bar> \<le> 65 / 100000"
    if k: "0 \<le> f - k" "f - k \<le> 1200" for k
  proof -
    obtain c where c: "curve_mv (Fin f) (Fin k) = Fin c" "\<bar>c - (f - k) * 2\<bar> \<le> 35 / 100000"
      using curve_mv_error[of f k] k by auto
    then have "\<bar>c * (3 / 2)\<bar> < 2 ^ 12" using k unfolding abs_le_iff abs_less_iff by simp
    then obtain d where d: "round32 (c * (3 / 2)) = Fin d" "\<bar>d - c * (3 / 2)\<bar> \<le> 2 ^ 12 / 2 ^ 25"
      using rounded[of "c * (3 / 2)" 12] by auto
    have "\<bar>d - (f - k) * 3\<bar> \<le> 65 / 100000" using c(2) d(2) unfolding abs_le_iff by simp
    then show ?thesis using c(1) d(1) by (simp add: flt_mul_def)
  qed
  have plain: "\<exists>c. curve_mv (Fin f) (Fin k) = Fin c \<and> \<bar>c - (f - k) * 2\<bar> \<le> 65 / 100000" if near: "\<bar>f - k\<bar> \<le> 1200" for k
  proof -
    obtain c where c: "curve_mv (Fin f) (Fin k) = Fin c" "\<bar>c - (f - k) * 2\<bar> \<le> 35 / 100000" by (rule curve_mv_error[OF near])
    have "\<bar>c - (f - k) * 2\<bar> \<le> 65 / 100000" by (rule order_trans[OF c(2)]) simp
    then show ?thesis using c(1) by blast
  qed
  have half: "\<exists>d. flt_divc (curve_mv (Fin f) (Fin 1000)) 2 = Fin d \<and> \<bar>d - (f - 1000)\<bar> \<le> 65 / 100000" if "f < 1000"
  proof -
    obtain c where c: "curve_mv (Fin f) (Fin 1000) = Fin c" "\<bar>c - (f - 1000) * 2\<bar> \<le> 35 / 100000"
      using curve_mv_error[of f 1000] that f by (auto simp: abs_le_iff)
    then have "\<bar>c / 2\<bar> < 2 ^ 12" using f that unfolding abs_le_iff abs_less_iff by simp
    then obtain d where d: "round32 (c / 2) = Fin d" "\<bar>d - c / 2\<bar> \<le> 2 ^ 12 / 2 ^ 25" using rounded[of "c / 2" 12] by auto
    have "\<bar>d - (f - 1000)\<bar> \<le> 65 / 100000" using c(2) d(2) unfolding abs_le_iff by simp
    then show ?thesis using c(1) d(1) by (simp add: flt_divc_def)
  qed
  have "\<exists>d. ?e = Fin d \<and> \<bar>d - (tuning_curve_mv f - 2800)\<bar> \<le> 65 / 100000"
  proof -
    consider (a) "1425 \<le> f" | (b) "1200 \<le> f" "\<not> 1425 \<le> f" | (c) "1150 \<le> f" "\<not> 1200 \<le> f"
      | (d) "1000 \<le> f" "\<not> 1150 \<le> f" | (e) "\<not> 1000 \<le> f" by argo
    then show ?thesis
    proof cases
      case a
      then show ?thesis using steep[of 1425] f by (simp add: tuning_curve_mv_def)
    next
      case b
      then show ?thesis using steep[of 1200] by (simp add: tuning_curve_mv_def)
    next
      case c
      then show ?thesis using plain[of 1150] by (simp add: tuning_curve_mv_def abs_le_iff)
    next
      case d
      then show ?thesis using plain[of 1000] by (simp add: tuning_curve_mv_def abs_le_iff)
    next
      case e
      then show ?thesis using half by (simp add: tuning_curve_mv_def)
    qed
  qed
  then obtain d where d: "?e = Fin d" "\<bar>d - (tuning_curve_mv f - 2800)\<bar> \<le> 65 / 100000" by blast
  have t: "\<bar>tuning_curve_mv f\<bar> \<le> 5000" using f by (auto simp: tuning_curve_mv_def abs_le_iff)
  then have "\<bar>2800 + d\<bar> < 2 ^ 13" using d(2) unfolding abs_le_iff abs_less_iff by simp
  then obtain m where m: "round32 (2800 + d) = Fin m" "\<bar>m - (2800 + d)\<bar> \<le> 2 ^ 13 / 2 ^ 25" using rounded[of "2800 + d" 13] by auto
  have "\<bar>m - tuning_curve_mv f\<bar> \<le> 1 / 1000" using d(2) m(2) unfolding abs_le_iff by simp
  then show ?thesis using that m(1) unfolding d(1) by simp
qed

lemma voltage_limits:
  obtains lo hi where "BZM_TPS546_MIN_VOUT_V = Fin lo" "BZM_TPS546_MAX_VOUT_V = Fin hi"
    "\<bar>lo - 21 / 10\<bar> \<le> 1 / 1000000" "\<bar>hi - 32 / 10\<bar> \<le> 1 / 1000000"
proof -
  obtain lo where "round32 (21 / 10) = Fin lo" "\<bar>lo - 21 / 10\<bar> \<le> 2 ^ 2 / 2 ^ 25" using rounded[of "21 / 10" 2] by auto
  moreover obtain hi where "round32 (32 / 10) = Fin hi" "\<bar>hi - 32 / 10\<bar> \<le> 2 ^ 2 / 2 ^ 25" using rounded[of "32 / 10" 2] by auto
  ultimately show ?thesis using that unfolding BZM_TPS546_MIN_VOUT_V_def BZM_TPS546_MAX_VOUT_V_def by (simp add: abs_le_iff)
qed

lemma near_rounded: "\<bar>y - x\<bar> \<le> 2 ^ 3 / 2 ^ 25 \<Longrightarrow> x - 1 / 1000000 \<le> y \<and> y \<le> x + 1 / 1000000" for x y :: rat
  unfolding abs_le_iff by simp

lemma truncated_close:
  fixes m n r t :: rat
  assumes "\<bar>m - t\<bar> \<le> 1 / 1000" "n \<le> m" "m < n + 1" "(n - 50) / 1000 - 1 / 1000000 \<le> r" "r \<le> (n - 50) / 1000 + 1 / 1000000"
  shows "\<bar>r - (t - 50) / 1000\<bar> \<le> 11 / 10000 - 1 / 1000000"
proof -
  have "m \<le> t + 1 / 1000" "t - 1 / 1000 \<le> m" using assms(1) unfolding abs_le_iff by linarith+
  then have n: "n \<le> t + 1 / 1000" "t - 1001 / 1000 \<le> n" using assms(2,3) by linarith+
  have "r \<le> (t - 50) / 1000 + 11 / 10000 - 1 / 1000000" using assms(5) n(1) by (simp add: field_simps)
  moreover have "(t - 50) / 1000 - 11 / 10000 + 1 / 1000000 \<le> r" using assms(4) n(2) by (simp add: field_simps)
  ultimately show ?thesis unfolding abs_le_iff by linarith
qed

lemma min_close: "\<bar>a - b\<bar> \<le> e \<Longrightarrow> \<bar>c - d\<bar> \<le> e \<Longrightarrow> \<bar>min a c - min b d\<bar> \<le> e" for a b c d e :: rat
  by (auto simp: min_def abs_le_iff)

lemma fminf_Fin: "fminf (Fin a) (Fin b) = Fin (min a b)"
  by (simp add: fminf_def min_def)

text \<open>C38. Every frequency that may be requested has a tuning voltage. It follows the piecewise linear curve, less 50 mV and
  capped at the rail limit of 3.2 V, to within 1.1 mV, and is one that may be commanded at run time.\<close>

theorem target_voltage_follows_curve:
  assumes "bzm_frequency_request_is_valid (Fin f)"
  shows "\<exists>v. bzm_power_frequency_target_voltage (Fin f) = Some (Fin v) \<and>
    \<bar>v - min (32 / 10) ((tuning_curve_mv f - 50) / 1000)\<bar> \<le> 11 / 10000 \<and> bzm_power_runtime_voltage_is_allowed (Fin v)"
proof -
  have f: "800 \<le> f" "f \<le> 2000" using assms by (simp_all add: bzm_frequency_request_is_valid_def)
  let ?t = "tuning_curve_mv f"
  have t: "2600 \<le> ?t" "?t \<le> 5000" using f by (auto simp: tuning_curve_mv_def)
  note error = target_mv_error[OF f]
  obtain m where m: "flt_add (Fin 2800)
       (if 1425 \<le> f then flt_mul (curve_mv (Fin f) (Fin 1425)) (Fin (3 / 2))
        else if 1200 \<le> f then flt_mul (curve_mv (Fin f) (Fin 1200)) (Fin (3 / 2))
        else if 1150 \<le> f then curve_mv (Fin f) (Fin 1150)
        else if 1000 \<le> f then curve_mv (Fin f) (Fin 1000)
        else flt_divc (curve_mv (Fin f) (Fin 1000)) 2) = Fin m" "\<bar>m - ?t\<bar> \<le> 1 / 1000"
    by (rule error)
  define n where "n = nat \<lfloor>m\<rfloor>"
  have mb: "2599 \<le> m" "m \<le> 5001" using m(2) t unfolding abs_le_iff by linarith+
  have n: "of_nat n \<le> m" "m < of_nat n + 1" "2599 \<le> n" "n \<le> 5001"
    using mb floor_correct[of m] by (simp_all add: n_def le_nat_iff nat_le_iff le_floor_iff floor_le_iff)
  have "of_int \<lfloor>m\<rfloor> = (of_nat n :: u32)" using mb by (simp add: n_def of_nat_nat)
  then have trunc: "flt_to_u32 (Fin m) = of_nat n" using mb by (simp add: flt_to_u32_def)
  have sub: "unat (of_nat n - 50 :: u32) = n - 50"
  proof -
    have "unat (of_nat n :: u32) = n" using n by (simp add: unat_of_nat)
    moreover have "(50 :: u32) \<le> of_nat n" using n calculation by (simp add: word_le_nat_alt)
    ultimately show ?thesis by (simp add: unat_sub)
  qed
  have int32: "round32 (of_nat (n - 50)) = Fin (of_nat (n - 50))" using round32_int[of "int (n - 50)"] n by simp
  let ?q = "(of_nat (n - 50) :: rat) / 1000"
  have q: "?q = (of_nat n - 50) / 1000" using n by (simp add: of_nat_diff)
  have "(of_nat n :: rat) \<le> 5001" "(2599 :: rat) \<le> of_nat n" using n(3,4) by simp_all
  then have qb: "2549 / 1000 \<le> ?q" "?q \<le> 4951 / 1000" unfolding q by simp_all
  obtain r where r: "round32 ?q = Fin r" "\<bar>r - ?q\<bar> \<le> 2 ^ 3 / 2 ^ 25" using rounded[of ?q 3] qb by (auto simp: abs_less_iff)
  obtain lo hi where lim: "BZM_TPS546_MIN_VOUT_V = Fin lo" "BZM_TPS546_MAX_VOUT_V = Fin hi"
    "\<bar>lo - 21 / 10\<bar> \<le> 1 / 1000000" "\<bar>hi - 32 / 10\<bar> \<le> 1 / 1000000" by (rule voltage_limits)
  have allowed: "bzm_power_runtime_voltage_is_allowed (Fin (min r hi))"
  proof -
    have "lo \<le> 22 / 10" "lo \<le> hi" using lim(3,4) unfolding abs_le_iff by linarith+
    moreover have "22 / 10 \<le> r" using near_rounded[OF r(2)] qb(1) by linarith
    ultimately have "lo \<le> min r hi" "min r hi \<le> hi" by simp_all
    then show ?thesis by (simp add: bzm_power_runtime_voltage_is_allowed_def lim(1,2))
  qed
  have "bzm_power_frequency_target_voltage (Fin f) = Some (Fin (min r hi))"
  proof -
    have "round32 (of_nat (unat (flt_to_u32 (Fin m) - 50))) = Fin (of_nat (n - 50))" unfolding trunc sub by (rule int32)
    moreover have "flt_divc (Fin (of_nat (n - 50))) 1000 = Fin r" using r(1) by (simp add: flt_divc_def)
    ultimately show ?thesis
      unfolding bzm_power_frequency_target_voltage_def Let_def flt_le.simps m(1) profile_voltages lim(2)
      using assms allowed by (simp only: fminf_Fin if_False not_True_eq_False)
  qed
  moreover have "\<bar>min r hi - min (32 / 10) ((?t - 50) / 1000)\<bar> \<le> 11 / 10000"
  proof -
    have "\<bar>r - (?t - 50) / 1000\<bar> \<le> 11 / 10000 - 1 / 1000000"
      by (rule truncated_close[OF m(2) n(1,2)]) (use near_rounded[OF r(2)] in \<open>simp_all add: q\<close>)
    then have "\<bar>r - (?t - 50) / 1000\<bar> \<le> 11 / 10000" by (rule order_trans) simp
    moreover have "\<bar>hi - 32 / 10\<bar> \<le> 11 / 10000" by (rule order_trans[OF lim(4)]) simp
    ultimately show ?thesis by (subst (2) min.commute) (rule min_close)
  qed
  ultimately show ?thesis using allowed by blast
qed

theorem target_voltage_follows_curve_witness:
  "\<exists>v. bzm_power_frequency_target_voltage (Fin 1100) = Some (Fin v) \<and> \<bar>v - 295 / 100\<bar> \<le> 11 / 10000"
proof -
  have "bzm_frequency_request_is_valid (Fin 1100)" by (simp add: bzm_frequency_request_is_valid_def)
  from target_voltage_follows_curve[OF this] show ?thesis by (auto simp: tuning_curve_mv_def)
qed

section \<open>Raising the voltage while tuning\<close>

text \<open>Voltages each of which is the next one after its predecessor.\<close>

fun tuning_steps :: "cfloat \<Rightarrow> cfloat \<Rightarrow> cfloat list \<Rightarrow> bool" where
  "tuning_steps initial v [] \<longleftrightarrow> True"
| "tuning_steps initial v (w # ws) \<longleftrightarrow> bzm_power_tuning_next_voltage initial v = Some w \<and> tuning_steps initial w ws"

lemma near_8: "- 8 < x \<Longrightarrow> x < 8 \<Longrightarrow> \<bar>x\<bar> < 2 ^ 3" for x :: rat
  by (simp add: abs_less_iff)

lemma tuning_constants:
  obtains h t w where "BZM_TUNING_VOLTAGE_STEP_V = Fin h" "BZM_TPS546_VOUT_READBACK_TOLERANCE_V = Fin t"
    "flt_mul BZM_TUNING_VOLTAGE_STEP_V BZM_TUNING_MAX_VOLTAGE_STEPS = Fin w"
    "\<bar>h - 5 / 100\<bar> \<le> 1 / 1000000" "\<bar>t - 2 / 1000\<bar> \<le> 1 / 1000000" "\<bar>w - 45 / 100\<bar> \<le> 1 / 100000"
proof -
  obtain h where h: "round32 (5 / 100) = Fin h" "\<bar>h - 5 / 100\<bar> \<le> 2 ^ 0 / 2 ^ 25" using rounded[of "5 / 100" 0] by auto
  obtain t where t: "round32 (2 / 1000) = Fin t" "\<bar>t - 2 / 1000\<bar> \<le> 2 ^ 0 / 2 ^ 25" using rounded[of "2 / 1000" 0] by auto
  have hb: "\<bar>h - 5 / 100\<bar> \<le> 1 / 1000000" and tb: "\<bar>t - 2 / 1000\<bar> \<le> 1 / 1000000"
    using h(2) t(2) by (simp_all add: abs_le_iff)
  have "\<bar>h * 9\<bar> < 2 ^ 3" using hb unfolding abs_le_iff by (elim conjE, intro near_8) linarith+
  then obtain w where w: "round32 (h * 9) = Fin w" "\<bar>w - h * 9\<bar> \<le> 2 ^ 3 / 2 ^ 25" using rounded[of "h * 9" 3] by auto
  have "\<bar>w - 45 / 100\<bar> \<le> 1 / 100000" using near_rounded[OF w(2)] hb unfolding abs_le_iff by (elim conjE, intro conjI; linarith)
  then show ?thesis
    using that[of h t w] h(1) t(1) w(1) hb tb
    by (simp add: BZM_TUNING_VOLTAGE_STEP_V_def BZM_TPS546_VOUT_READBACK_TOLERANCE_V_def flt_mul_def)
qed

lemma tuning_next:
  assumes i: "2 \<le> i" "i \<le> 33 / 10" and v: "2 \<le> v" "v \<le> 33 / 10"
    and next_v: "bzm_power_tuning_next_voltage (Fin i) (Fin v) = Some w"
  obtains a x where "w = Fin x" "bzm_power_runtime_voltage_is_allowed w" "x \<le> a" "a \<le> i + 45 / 100 + 1 / 50000"
    "v < a - 19 / 10000" "x = a \<or> \<bar>x - (v + 5 / 100)\<bar> \<le> 1 / 100000"
    "\<And>v'. a \<le> v' \<Longrightarrow> bzm_power_tuning_next_voltage (Fin i) (Fin v') = None"
proof -
  obtain h t s where c: "BZM_TUNING_VOLTAGE_STEP_V = Fin h" "BZM_TPS546_VOUT_READBACK_TOLERANCE_V = Fin t"
    "flt_mul BZM_TUNING_VOLTAGE_STEP_V BZM_TUNING_MAX_VOLTAGE_STEPS = Fin s"
    "\<bar>h - 5 / 100\<bar> \<le> 1 / 1000000" "\<bar>t - 2 / 1000\<bar> \<le> 1 / 1000000" "\<bar>s - 45 / 100\<bar> \<le> 1 / 100000"
    by (rule tuning_constants)
  obtain lo hi where lim: "BZM_TPS546_MIN_VOUT_V = Fin lo" "BZM_TPS546_MAX_VOUT_V = Fin hi"
    "\<bar>lo - 21 / 10\<bar> \<le> 1 / 1000000" "\<bar>hi - 32 / 10\<bar> \<le> 1 / 1000000" by (rule voltage_limits)
  have "\<bar>i + s\<bar> < 2 ^ 3" using i c(6) unfolding abs_le_iff by (intro near_8) linarith+
  then obtain u where u: "round32 (i + s) = Fin u" "\<bar>u - (i + s)\<bar> \<le> 2 ^ 3 / 2 ^ 25" using rounded[of "i + s" 3] by auto
  define a where "a = min hi u"
  have a: "a \<le> i + 45 / 100 + 1 / 50000" "2 \<le> a" "a \<le> 33 / 10"
    using near_rounded[OF u(2)] c(6) lim(4) i unfolding abs_le_iff a_def min_def by (simp_all split: if_splits)
  have "\<bar>a - t\<bar> < 2 ^ 3" using a c(5) unfolding abs_le_iff by (intro near_8) linarith+
  then obtain b where b: "round32 (a - t) = Fin b" "\<bar>b - (a - t)\<bar> \<le> 2 ^ 3 / 2 ^ 25" using rounded[of "a - t" 3] by auto
  have "\<bar>v + h\<bar> < 2 ^ 3" using v c(4) unfolding abs_le_iff by (intro near_8) linarith+
  then obtain d where d: "round32 (v + h) = Fin d" "\<bar>d - (v + h)\<bar> \<le> 2 ^ 3 / 2 ^ 25" using rounded[of "v + h" 3] by auto
  have limit: "fminf (pf_vout_max BZM_TPS546_BIRDS_PROFILE)
      (flt_add (Fin i) (flt_mul BZM_TUNING_VOLTAGE_STEP_V BZM_TUNING_MAX_VOLTAGE_STEPS)) = Fin a"
    by (simp add: c(3) lim(2) u(1) fminf_Fin a_def)
  have stop: "flt_sub (Fin a) BZM_TPS546_VOUT_READBACK_TOLERANCE_V = Fin b" using b(1) by (simp add: c(2) flt_sub_def)
  have up: "flt_add (Fin v) BZM_TUNING_VOLTAGE_STEP_V = Fin d" using d(1) by (simp add: c(1))
  have w: "w = Fin (min a d)" "bzm_power_runtime_voltage_is_allowed w" "v < b"
    using next_v unfolding bzm_power_tuning_next_voltage_def Let_def limit stop up fminf_Fin
    by (simp_all split: if_splits)
  have none: "bzm_power_tuning_next_voltage (Fin i) (Fin v') = None" if "a \<le> v'" for v'
  proof -
    have "b \<le> v'" using near_rounded[OF b(2)] c(5) that unfolding abs_le_iff by linarith
    then show ?thesis unfolding bzm_power_tuning_next_voltage_def Let_def limit stop by simp
  qed
  have "v < a - 19 / 10000" using near_rounded[OF b(2)] c(5) w(3) unfolding abs_le_iff by linarith
  moreover have "min a d = a \<or> \<bar>min a d - (v + 5 / 100)\<bar> \<le> 1 / 100000"
    using near_rounded[OF d(2)] c(4) unfolding abs_le_iff min_def by (simp split: if_splits)
  ultimately show ?thesis using that[of "min a d" a] w a none by simp
qed

lemma allowed_bounds:
  assumes "bzm_power_runtime_voltage_is_allowed v"
  obtains x where "v = Fin x" "2 \<le> x" "x \<le> 33 / 10"
proof -
  obtain lo hi where lim: "BZM_TPS546_MIN_VOUT_V = Fin lo" "BZM_TPS546_MAX_VOUT_V = Fin hi"
    "\<bar>lo - 21 / 10\<bar> \<le> 1 / 1000000" "\<bar>hi - 32 / 10\<bar> \<le> 1 / 1000000" by (rule voltage_limits)
  obtain x where x: "v = Fin x" using assms by (auto simp: bzm_power_runtime_voltage_is_allowed_def elim: isfiniteE)
  then have "lo \<le> x" "x \<le> hi" using assms by (simp_all add: bzm_power_runtime_voltage_is_allowed_def lim(1,2))
  then have "2 \<le> x" "x \<le> 33 / 10" using lim(3,4) unfolding abs_le_iff by linarith+
  then show ?thesis using that x by blast
qed

lemma tuning_steps_bounded:
  assumes "2 \<le> i" "i \<le> 33 / 10"
  shows "tuning_steps (Fin i) (Fin v) ws \<Longrightarrow> 2 \<le> v \<Longrightarrow> v \<le> 33 / 10 \<Longrightarrow> i + of_nat n * (4999 / 100000) \<le> v \<Longrightarrow>
    (ws \<noteq> [] \<longrightarrow> n + length ws \<le> 9) \<and>
    (\<forall>w\<in>set ws. bzm_power_runtime_voltage_is_allowed w \<and> flt_le w (Fin (i + 45002 / 100000)))"
proof (induction ws arbitrary: v n)
  case (Cons w ws)
  have step: "bzm_power_tuning_next_voltage (Fin i) (Fin v) = Some w" and rest: "tuning_steps (Fin i) w ws"
    using Cons.prems(1) by simp_all
  obtain a x where x: "w = Fin x" "bzm_power_runtime_voltage_is_allowed w" "x \<le> a" "a \<le> i + 45 / 100 + 1 / 50000"
    "v < a - 19 / 10000" "x = a \<or> \<bar>x - (v + 5 / 100)\<bar> \<le> 1 / 100000"
    "\<And>v'. a \<le> v' \<Longrightarrow> bzm_power_tuning_next_voltage (Fin i) (Fin v') = None"
    by (rule tuning_next[OF assms Cons.prems(2,3) step]) blast
  have "of_nat n * (4999 / 100000) < (45 / 100 :: rat)" using Cons.prems(4) x(4,5) by linarith
  then have "(of_nat n :: rat) < of_nat 10" by simp
  then have n10: "n < 10" by (simp only: of_nat_less_iff)
  have n: "n \<le> 8"
  proof (rule ccontr)
    assume "\<not> n \<le> 8"
    then have "n = 9" using n10 by simp
    then show False using Cons.prems(4) x(4,5) by simp
  qed
  have xb: "2 \<le> x" "x \<le> 33 / 10" using allowed_bounds[OF x(2)] x(1) by auto
  have top: "flt_le w (Fin (i + 45002 / 100000))" using x(1,3,4) by simp
  show ?case
  proof (cases ws)
    case Nil
    then show ?thesis using n x(2) top by simp
  next
    case (Cons w' ws')
    then have "x \<noteq> a" using rest x(1) x(7)[of x] by auto
    then have "\<bar>x - (v + 5 / 100)\<bar> \<le> 1 / 100000" using x(6) by blast
    then have "v + 5 / 100 - 1 / 100000 \<le> x" unfolding abs_le_iff by linarith
    then have "i + of_nat (Suc n) * (4999 / 100000) \<le> x" using Cons.prems(4) unfolding of_nat_Suc distrib_right by linarith
    from Cons.IH[OF rest[unfolded x(1)] xb this] show ?thesis using Cons x(2) top by auto
  qed
qed simp

text \<open>C39. Raising the voltage while tuning ends: from the voltage it starts with at most nine steps are made, all to
  voltages that may be commanded, at most 0.45 V (and 20 uV of rounding) above the start.\<close>

theorem tuning_ramp_ends:
  assumes "bzm_power_runtime_voltage_is_allowed (Fin i)" and "tuning_steps (Fin i) (Fin i) ws"
  shows "length ws \<le> 9 \<and>
    (\<forall>w\<in>set ws. bzm_power_runtime_voltage_is_allowed w \<and> flt_le w (Fin (i + 45002 / 100000)))"
proof -
  have "2 \<le> i" "i \<le> 33 / 10" using allowed_bounds[OF assms(1)] by auto
  from tuning_steps_bounded[OF this assms(2) this, of 0] show ?thesis by (cases ws) auto
qed

lemma first_tuning_step: "\<exists>w. bzm_power_tuning_next_voltage (Fin (5 / 2)) (Fin (5 / 2)) = Some w"
proof -
  obtain h t s where c: "BZM_TUNING_VOLTAGE_STEP_V = Fin h" "BZM_TPS546_VOUT_READBACK_TOLERANCE_V = Fin t"
    "flt_mul BZM_TUNING_VOLTAGE_STEP_V BZM_TUNING_MAX_VOLTAGE_STEPS = Fin s"
    "\<bar>h - 5 / 100\<bar> \<le> 1 / 1000000" "\<bar>t - 2 / 1000\<bar> \<le> 1 / 1000000" "\<bar>s - 45 / 100\<bar> \<le> 1 / 100000"
    by (rule tuning_constants)
  obtain lo hi where lim: "BZM_TPS546_MIN_VOUT_V = Fin lo" "BZM_TPS546_MAX_VOUT_V = Fin hi"
    "\<bar>lo - 21 / 10\<bar> \<le> 1 / 1000000" "\<bar>hi - 32 / 10\<bar> \<le> 1 / 1000000" by (rule voltage_limits)
  have b: "lo \<le> 22 / 10" "31 / 10 \<le> hi" "44 / 100 \<le> s" "s \<le> 46 / 100" "4 / 100 \<le> h" "h \<le> 6 / 100" "t \<le> 1 / 100" "0 \<le> t"
    using c(4,5,6) lim(3,4) unfolding abs_le_iff by linarith+
  have "\<bar>5 / 2 + s\<bar> < 2 ^ 3" using b by (intro near_8) linarith+
  then obtain u where u: "round32 (5 / 2 + s) = Fin u" "\<bar>u - (5 / 2 + s)\<bar> \<le> 2 ^ 3 / 2 ^ 25" using rounded[of "5 / 2 + s" 3] by auto
  have ub: "29 / 10 \<le> u" "u \<le> 3" using near_rounded[OF u(2)] b by linarith+
  have "\<bar>u - t\<bar> < 2 ^ 3" using ub b by (intro near_8) linarith+
  then obtain w where w: "round32 (u - t) = Fin w" "\<bar>w - (u - t)\<bar> \<le> 2 ^ 3 / 2 ^ 25" using rounded[of "u - t" 3] by auto
  have "\<bar>5 / 2 + h\<bar> < 2 ^ 3" using b by (intro near_8) linarith+
  then obtain d where d: "round32 (5 / 2 + h) = Fin d" "\<bar>d - (5 / 2 + h)\<bar> \<le> 2 ^ 3 / 2 ^ 25" using rounded[of "5 / 2 + h" 3] by auto
  have wb: "28 / 10 \<le> w" using near_rounded[OF w(2)] ub b by linarith
  have db: "25 / 10 \<le> d" "d \<le> 26 / 10" using near_rounded[OF d(2)] b by linarith+
  have m: "min hi u = u" "min u d = d" using b ub db by simp_all
  have "lo \<le> 5 / 2" "5 / 2 \<le> hi" "lo \<le> d" "d \<le> hi" "\<not> w \<le> 5 / 2" using b db wb by linarith+
  then show ?thesis
    by (simp add: bzm_power_tuning_next_voltage_def bzm_power_runtime_voltage_is_allowed_def lim(1,2) c(1,2) c(3)[unfolded c(1)] u(1) Let_def
        fminf_Fin m flt_sub_def w(1) d(1))
qed

theorem tuning_ramp_ends_witness:
  "\<exists>w ws. tuning_steps (Fin (5 / 2)) (Fin (5 / 2)) (w # ws) \<and> length (w # ws) \<le> 9 \<and> flt_le w (Fin 3)"
proof -
  obtain w where w: "bzm_power_tuning_next_voltage (Fin (5 / 2)) (Fin (5 / 2)) = Some w" using first_tuning_step by blast
  then have "bzm_power_runtime_voltage_is_allowed (Fin (5 / 2))" by (auto simp: bzm_power_tuning_next_voltage_def split: if_splits)
  moreover have steps: "tuning_steps (Fin (5 / 2)) (Fin (5 / 2)) [w]" using w by simp
  ultimately have "flt_le w (Fin (5 / 2 + 45002 / 100000))" "length [w] \<le> 9"
    using tuning_ramp_ends[of "5 / 2" "[w]"] by simp_all
  then have "flt_le w (Fin 3)" by (cases w) auto
  then show ?thesis using steps by (intro exI[of _ w] exI[of _ "[]"]) simp
qed

end
