(* ===== verification/Safeguards.thy ===== *)
theory Safeguards
  imports Bridge
begin

text \<open>
  Three small guards of the powered board: the lease guard, which keeps the controller's lease alive during
  long operations (\<open>components/asic/bzm_lease_guard.c\<close>), the gate in front of work dispatch
  (\<open>bzm_dispatch_gate.c\<close>) and the recovery from overheating (\<open>bzm_overheat_recovery.c\<close>). Callbacks are
  functions on the device state; output pointers that are NULL are left out.
\<close>

section \<open>Model: lease guard\<close>

abbreviation BZM_LEASE_GUARD_MAX_DELAY_CHUNK_MS :: u32 where "BZM_LEASE_GUARD_MAX_DELAY_CHUNK_MS \<equiv> 250"

record bzm_lease_guard_schedule_t =
  ls_renewed :: bool
  ls_last_renewal_ms :: u64

definition lease_required_evidence :: u16 where
  "lease_required_evidence =
     BZM_BRIDGE_SAFETY_EVIDENCE_LEASE_VALID OR BZM_BRIDGE_SAFETY_EVIDENCE_TRIP_CLEAR OR BZM_BRIDGE_SAFETY_EVIDENCE_FAULT_CLEAR"

definition bzm_lease_guard_status_is_controlled :: "bzm_bridge_safety_status_t option \<Rightarrow> bool" where
  "bzm_lease_guard_status_is_controlled status =
     (case status of None \<Rightarrow> False
      | Some status \<Rightarrow>
          bs_valid status \<and> bs_state status = BZM_BRIDGE_SAFETY_STATE_CONTROLLED \<and>
          bs_fault status = BZM_BRIDGE_SAFETY_FAULT_NONE \<and>
          bs_runtime_verdict status = BZM_BRIDGE_SAFETY_RUNTIME_GOOD_CONTROLLED \<and>
          bs_lease_remaining_ms status > 0 \<and>
          bs_evidence status AND lease_required_evidence = lease_required_evidence \<and>
          \<not> bs_trip_input_asserted status)"

lemma chunk_shrinks:
  fixes d :: u32
  assumes "d \<noteq> 0"
  shows "unat (d - (if d > 250 then 250 else d)) = unat d - 250"
proof (cases "d > 250")
  case True
  then have "250 \<le> d" by simp
  then show ?thesis using True by (simp add: unat_sub)
next
  case False
  then have "unat d \<le> 250" by (simp add: not_less word_le_nat_alt)
  then show ?thesis using False by simp
qed

text \<open>The loop that sleeps.\<close>

function lease_delay_loop :: "('c \<Rightarrow> bool \<times> 'c) \<Rightarrow> (u32 \<Rightarrow> 'c \<Rightarrow> 'c) \<Rightarrow> u32 \<Rightarrow> 'c \<Rightarrow> bool \<times> 'c" where
  "lease_delay_loop renew sleep delay_ms c =
     (if delay_ms = 0 then (True, c)
      else
        (let (renewed, c) = renew c
         in if \<not> renewed then (False, c)
            else
              (let chunk = (if delay_ms > BZM_LEASE_GUARD_MAX_DELAY_CHUNK_MS then BZM_LEASE_GUARD_MAX_DELAY_CHUNK_MS
                            else delay_ms)
               in lease_delay_loop renew sleep (delay_ms - chunk) (sleep chunk c))))"
  by pat_completeness auto
termination
proof (relation "measure (\<lambda>(renew, sleep, d, c). unat d)", goal_cases)
  case (2 renew sleep d c r x c' chunk)
  then show ?case using chunk_shrinks[of d] unat_gt_0[of d] by simp
qed simp

declare lease_delay_loop.simps [simp del]

definition bzm_lease_guard_delay ::
    "u32 \<Rightarrow> ('c \<Rightarrow> bool \<times> 'c) option \<Rightarrow> (u32 \<Rightarrow> 'c \<Rightarrow> 'c) option \<Rightarrow> 'c \<Rightarrow> bool \<times> 'c" where
  "bzm_lease_guard_delay delay_ms renew sleep c =
     (case (renew, sleep) of
        (Some renew, Some sleep) \<Rightarrow> lease_delay_loop renew sleep delay_ms c
      | _ \<Rightarrow> (False, c))"

definition bzm_lease_guard_service_due ::
    "bzm_lease_guard_schedule_t \<Rightarrow> u64 \<Rightarrow> u32 \<Rightarrow> ('c \<Rightarrow> bool \<times> 'c) option \<Rightarrow> 'c
     \<Rightarrow> bool \<times> bzm_lease_guard_schedule_t \<times> 'c" where
  "bzm_lease_guard_service_due schedule now_ms interval_ms renew c =
     (case renew of
        None \<Rightarrow> (False, schedule, c)
      | Some renew \<Rightarrow>
          if interval_ms = 0 then (False, schedule, c)
          else
            (let due = \<not> ls_renewed schedule \<or> now_ms < ls_last_renewal_ms schedule \<or>
                   now_ms - ls_last_renewal_ms schedule \<ge> ucast interval_ms
             in if \<not> due then (True, schedule, c)
                else
                  (let (renewed, c) = renew c
                   in if \<not> renewed then (False, schedule, c)
                      else (True, schedule\<lparr> ls_renewed := True, ls_last_renewal_ms := now_ms \<rparr>, c))))"

definition bzm_lease_guard_service_authorized ::
    "bzm_lease_guard_schedule_t \<Rightarrow> bool \<Rightarrow> u64 \<Rightarrow> u32 \<Rightarrow> ('c \<Rightarrow> bool \<times> 'c) option \<Rightarrow> 'c
     \<Rightarrow> bool \<times> bzm_lease_guard_schedule_t \<times> 'c" where
  "bzm_lease_guard_service_authorized schedule authorized now_ms interval_ms renew c =
     (if authorized then bzm_lease_guard_service_due schedule now_ms interval_ms renew c else (False, schedule, c))"

definition bzm_lease_guard_deadline_allows :: "u64 \<Rightarrow> u64 \<Rightarrow> bool" where
  "bzm_lease_guard_deadline_allows deadline_ms now_ms \<longleftrightarrow> deadline_ms \<noteq> 0 \<and> now_ms < deadline_ms"

text \<open>The deadline that is written, if any, and the answer.\<close>

definition bzm_lease_guard_make_deadline :: "u64 \<Rightarrow> u32 \<Rightarrow> u64 option \<times> bool" where
  "bzm_lease_guard_make_deadline now_ms lease_ms =
     (if lease_ms = 0 \<or> now_ms > UINT64_MAX - ucast lease_ms then (None, False)
      else (let deadline_ms = now_ms + ucast lease_ms in (Some deadline_ms, deadline_ms \<noteq> 0)))"

section \<open>Model: dispatch gate\<close>

record 'x bzm_dispatch_gate_t =
  dg_authorize :: "('x option \<Rightarrow> bool) option"
  dg_context :: "'x option"

definition bzm_dispatch_gate_init :: "'x bzm_dispatch_gate_t" where
  "bzm_dispatch_gate_init = \<lparr> dg_authorize = None, dg_context = None \<rparr>"

definition bzm_dispatch_gate_set ::
    "'x bzm_dispatch_gate_t \<Rightarrow> ('x option \<Rightarrow> bool) option \<Rightarrow> 'x option \<Rightarrow> 'x bzm_dispatch_gate_t" where
  "bzm_dispatch_gate_set gate authorize ctx =
     gate\<lparr> dg_authorize := authorize, dg_context := (if authorize = None then None else ctx) \<rparr>"

definition bzm_dispatch_gate_is_authorized :: "'x bzm_dispatch_gate_t \<Rightarrow> bool" where
  "bzm_dispatch_gate_is_authorized gate =
     (case dg_authorize gate of None \<Rightarrow> False | Some authorize \<Rightarrow> authorize (dg_context gate))"

section \<open>Model: recovery from overheating\<close>

abbreviation BZM_OVERHEAT_MIN_COOLING_MS :: u64 where "BZM_OVERHEAT_MIN_COOLING_MS \<equiv> 30000"
abbreviation BZM_OVERHEAT_VREG_SAFE_C :: cfloat where "BZM_OVERHEAT_VREG_SAFE_C \<equiv> Fin 95"
abbreviation BZM_OVERHEAT_ASIC_SAFE_C :: cfloat where "BZM_OVERHEAT_ASIC_SAFE_C \<equiv> Fin 45"
abbreviation BZM_OVERHEAT_VOLTAGE_REDUCTION_MV :: u32 where "BZM_OVERHEAT_VOLTAGE_REDUCTION_MV \<equiv> 100"
abbreviation BZM_OVERHEAT_FREQUENCY_REDUCTION_MHZ :: cfloat where "BZM_OVERHEAT_FREQUENCY_REDUCTION_MHZ \<equiv> Fin 100"

datatype bzm_overheat_recovery_status_t =
    BZM_OVERHEAT_RECOVERY_INACTIVE | BZM_OVERHEAT_RECOVERY_WAIT_OFF_SAFE | BZM_OVERHEAT_RECOVERY_WAIT_TELEMETRY
  | BZM_OVERHEAT_RECOVERY_WAIT_ASIC | BZM_OVERHEAT_RECOVERY_WAIT_MINIMUM | BZM_OVERHEAT_RECOVERY_WAIT_VREG
  | BZM_OVERHEAT_RECOVERY_READY | BZM_OVERHEAT_RECOVERY_INVALID

record bzm_overheat_recovery_t =
  or_active :: bool
  or_started_at_ms :: u64
  or_cooling_since_ms :: u64
  or_original_voltage_mv :: u16
  or_original_frequency_mhz :: cfloat

definition bzm_overheat_recovery_begin ::
    "bzm_overheat_recovery_t \<Rightarrow> u64 \<Rightarrow> u16 \<Rightarrow> cfloat \<Rightarrow> bool \<times> bzm_overheat_recovery_t" where
  "bzm_overheat_recovery_begin recovery now_ms original_voltage_mv original_frequency_mhz =
     (if original_voltage_mv = 0 \<or> \<not> isfinite original_frequency_mhz \<or> flt_le original_frequency_mhz (Fin 0)
      then (False, recovery)
      else (True, \<lparr> or_active = True, or_started_at_ms = now_ms, or_cooling_since_ms = now_ms,
              or_original_voltage_mv = original_voltage_mv, or_original_frequency_mhz = original_frequency_mhz \<rparr>))"

definition bzm_overheat_recovery_evaluate ::
    "bzm_overheat_recovery_t \<Rightarrow> u64 \<Rightarrow> bool \<Rightarrow> bool \<Rightarrow> cfloat \<Rightarrow> bool \<Rightarrow> cfloat
     \<Rightarrow> bzm_overheat_recovery_status_t \<times> bzm_overheat_recovery_t" where
  "bzm_overheat_recovery_evaluate recovery now_ms off_safe_verified vreg_temperature_available vreg_temperature_c
       asic_temperature_available asic_temperature_c =
     (if \<not> or_active recovery then (BZM_OVERHEAT_RECOVERY_INACTIVE, recovery)
      else if now_ms < or_started_at_ms recovery \<or> now_ms < or_cooling_since_ms recovery
      then (BZM_OVERHEAT_RECOVERY_INVALID, recovery)
      else if \<not> off_safe_verified then (BZM_OVERHEAT_RECOVERY_WAIT_OFF_SAFE, recovery)
      else if \<not> vreg_temperature_available \<or> \<not> isfinite vreg_temperature_c
      then (BZM_OVERHEAT_RECOVERY_WAIT_TELEMETRY, recovery)
      else if asic_temperature_available \<and> \<not> isfinite asic_temperature_c
      then (BZM_OVERHEAT_RECOVERY_WAIT_TELEMETRY, recovery)
      else if asic_temperature_available \<and> flt_lt BZM_OVERHEAT_ASIC_SAFE_C asic_temperature_c
      then (BZM_OVERHEAT_RECOVERY_WAIT_ASIC, recovery\<lparr> or_cooling_since_ms := now_ms \<rparr>)
      else if now_ms - or_cooling_since_ms recovery < BZM_OVERHEAT_MIN_COOLING_MS
      then (BZM_OVERHEAT_RECOVERY_WAIT_MINIMUM, recovery)
      else if flt_lt BZM_OVERHEAT_VREG_SAFE_C vreg_temperature_c then (BZM_OVERHEAT_RECOVERY_WAIT_VREG, recovery)
      else (BZM_OVERHEAT_RECOVERY_READY, recovery))"

text \<open>The voltages are \<open>uint16_t\<close>; adding \<open>100U\<close> widens the comparison to 32 bits.\<close>

definition bzm_overheat_recovery_reduced_targets ::
    "bzm_overheat_recovery_t \<Rightarrow> u16 \<Rightarrow> cfloat \<Rightarrow> (u16 \<times> cfloat) option" where
  "bzm_overheat_recovery_reduced_targets recovery minimum_voltage_mv minimum_frequency_mhz =
     (if \<not> or_active recovery \<or> minimum_voltage_mv = 0 \<or> \<not> isfinite minimum_frequency_mhz \<or>
         flt_le minimum_frequency_mhz (Fin 0) \<or> or_original_voltage_mv recovery < minimum_voltage_mv \<or>
         \<not> isfinite (or_original_frequency_mhz recovery) \<or>
         flt_lt (or_original_frequency_mhz recovery) minimum_frequency_mhz
      then None
      else Some
        (if ucast (or_original_voltage_mv recovery) > (ucast minimum_voltage_mv :: u32) + BZM_OVERHEAT_VOLTAGE_REDUCTION_MV
         then ucast ((ucast (or_original_voltage_mv recovery) :: u32) - BZM_OVERHEAT_VOLTAGE_REDUCTION_MV)
         else minimum_voltage_mv,
         if flt_lt (flt_add minimum_frequency_mhz BZM_OVERHEAT_FREQUENCY_REDUCTION_MHZ) (or_original_frequency_mhz recovery)
         then flt_sub (or_original_frequency_mhz recovery) BZM_OVERHEAT_FREQUENCY_REDUCTION_MHZ
         else minimum_frequency_mhz))"

definition bzm_overheat_recovery_status_name :: "bzm_overheat_recovery_status_t \<Rightarrow> string" where
  "bzm_overheat_recovery_status_name status =
     (case status of
        BZM_OVERHEAT_RECOVERY_INACTIVE \<Rightarrow> ''INACTIVE''
      | BZM_OVERHEAT_RECOVERY_WAIT_OFF_SAFE \<Rightarrow> ''WAIT_OFF_SAFE''
      | BZM_OVERHEAT_RECOVERY_WAIT_TELEMETRY \<Rightarrow> ''WAIT_TELEMETRY''
      | BZM_OVERHEAT_RECOVERY_WAIT_ASIC \<Rightarrow> ''WAIT_ASIC''
      | BZM_OVERHEAT_RECOVERY_WAIT_MINIMUM \<Rightarrow> ''WAIT_MINIMUM''
      | BZM_OVERHEAT_RECOVERY_WAIT_VREG \<Rightarrow> ''WAIT_VREG''
      | BZM_OVERHEAT_RECOVERY_READY \<Rightarrow> ''READY''
      | BZM_OVERHEAT_RECOVERY_INVALID \<Rightarrow> ''INVALID'')"

section \<open>Delays under a lease\<close>

text \<open>The chunks of a delay: as many full ones as fit, then the rest.\<close>

definition delay_chunks :: "u32 \<Rightarrow> u32 list" where
  "delay_chunks d = replicate (unat d div 250) 250 @ (if unat d mod 250 = 0 then [] else [of_nat (unat d mod 250)])"

text \<open>A renewal before each of them; the first that fails ends the delay.\<close>

fun renewed_sleeps :: "('c \<Rightarrow> bool \<times> 'c) \<Rightarrow> (u32 \<Rightarrow> 'c \<Rightarrow> 'c) \<Rightarrow> u32 list \<Rightarrow> 'c \<Rightarrow> bool \<times> 'c" where
  "renewed_sleeps renew sleep [] c = (True, c)"
| "renewed_sleeps renew sleep (d # ds) c =
     (case renew c of (True, c) \<Rightarrow> renewed_sleeps renew sleep ds (sleep d c) | (False, c) \<Rightarrow> (False, c))"

lemma delay_chunks_Cons:
  assumes "d \<noteq> 0"
  shows "delay_chunks d = (if d > 250 then 250 else d) # delay_chunks (d - (if d > 250 then 250 else d))"
proof (cases "d > 250")
  case True
  then have u: "unat (d - 250) = unat d - 250" and ge: "250 < unat d"
    using chunk_shrinks[OF assms] by (simp_all add: word_less_nat_alt)
  then show ?thesis using True by (simp add: delay_chunks_def u le_div_geq le_mod_geq)
next
  case False
  then have "unat d \<le> 250" "unat d \<noteq> 0" using assms by (simp_all add: not_less word_le_nat_alt unat_eq_0)
  then consider "unat d = 250" | "unat d < 250" "unat d \<noteq> 0" by linarith
  then show ?thesis
  proof cases
    case 1
    then have "d = 250" by (simp add: word_unat_eq_iff)
    then show ?thesis by (simp add: delay_chunks_def)
  qed (use False in \<open>simp add: delay_chunks_def\<close>)
qed

lemma delay_loop_chunks: "lease_delay_loop renew sleep d c = renewed_sleeps renew sleep (delay_chunks d) c"
proof (induction renew sleep d c rule: lease_delay_loop.induct)
  case (1 renew sleep d c)
  show ?case
  proof (cases "d = 0")
    case True
    then show ?thesis by (simp add: lease_delay_loop.simps delay_chunks_def)
  next
    case False
    then show ?thesis using 1[OF False] delay_chunks_Cons[OF False]
      by (subst lease_delay_loop.simps) (auto simp: Let_def split: prod.splits bool.splits)
  qed
qed

lemma unat_rest: "unat (of_nat (unat d mod 250) :: u32) = unat d mod 250"
proof -
  have "unat d mod 250 < 250" by simp
  then show ?thesis by (simp add: unat_of_nat)
qed

lemma delay_chunks_sum: "sum_list (map unat (delay_chunks d)) = unat d"
  by (auto simp: delay_chunks_def sum_list_replicate unat_rest simp flip: minus_mod_eq_div_mult simp del: of_nat_mod)

lemma delay_chunks_small: "x \<in> set (delay_chunks d) \<Longrightarrow> 0 < x \<and> x \<le> 250"
proof -
  assume x: "x \<in> set (delay_chunks d)"
  have "unat d mod 250 < 250" by simp
  then show ?thesis using x
    by (auto simp: delay_chunks_def word_less_nat_alt word_le_nat_alt unat_rest simp del: of_nat_mod split: if_splits)
qed

text \<open>C40. A delay under a lease sleeps for exactly the requested time, in chunks of at most 250 ms, renews the
  lease immediately before every chunk, and stops without sleeping further at the first renewal that
  fails; without callbacks it is refused.\<close>

theorem lease_delay_exact:
  "bzm_lease_guard_delay d (Some renew) (Some sleep) c = renewed_sleeps renew sleep (delay_chunks d) c \<and>
   sum_list (map unat (delay_chunks d)) = unat d \<and> (\<forall>x. x \<in> set (delay_chunks d) \<longrightarrow> 0 < x \<and> x \<le> 250) \<and>
   bzm_lease_guard_delay d None (Some sleep) c = (False, c) \<and> bzm_lease_guard_delay d (Some renew) None c = (False, c)"
  by (simp add: bzm_lease_guard_delay_def delay_loop_chunks delay_chunks_sum delay_chunks_small)

theorem lease_delay_exact_witness:
  "bzm_lease_guard_delay 600 (Some (\<lambda>c. (True, c))) (Some (\<lambda>d log. log @ [d])) [] = (True, [250, 250, 100])"
proof -
  have "delay_chunks 600 = [250, 250, 100]" by code_simp
  then show ?thesis using lease_delay_exact[of 600 "\<lambda>c. (True, c)" "\<lambda>d log. log @ [d]" "[]"] by simp
qed

lemma make_deadline_exact:
  "bzm_lease_guard_make_deadline now lease = (Some d, True) \<longleftrightarrow>
     lease \<noteq> 0 \<and> unat now + unat lease < 2 ^ 64 \<and> unat d = unat now + unat lease"
proof -
  have lt: "unat lease < 2 ^ 32" "unat now < 2 ^ 64" using unsigned_less[of lease, where ?'a = nat] unsigned_less[of now, where ?'a = nat] by simp_all
  have b: "unat (UINT64_MAX - ucast lease) = 2 ^ 64 - 1 - unat lease"
    using lt by (subst unat_sub) (simp_all add: word_le_nat_alt)
  show ?thesis
    using lt
    by (auto simp: bzm_lease_guard_make_deadline_def Let_def word_less_nat_alt word_unat_eq_iff[of _ d] b unat_word_ariths
        word_unat_eq_iff[of "now + ucast lease" 0] unat_eq_0 split: if_splits)
qed

section \<open>Recovery from overheating\<close>

text \<open>What one evaluation is given.\<close>

record overheat_sample =
  os_now_ms :: u64
  os_off_safe :: bool
  os_vreg_available :: bool
  os_vreg_c :: cfloat
  os_asic_available :: bool
  os_asic_c :: cfloat

definition evaluate_sample :: "bzm_overheat_recovery_t \<Rightarrow> overheat_sample \<Rightarrow> bzm_overheat_recovery_status_t \<times> bzm_overheat_recovery_t" where
  "evaluate_sample r s = bzm_overheat_recovery_evaluate r (os_now_ms s) (os_off_safe s) (os_vreg_available s) (os_vreg_c s)
     (os_asic_available s) (os_asic_c s)"

definition observe_samples :: "bzm_overheat_recovery_t \<Rightarrow> overheat_sample list \<Rightarrow> bzm_overheat_recovery_t" where
  "observe_samples = foldl (\<lambda>r s. snd (evaluate_sample r s))"

text \<open>A powered-down board with readable sensors.\<close>

definition observable :: "overheat_sample \<Rightarrow> bool" where
  "observable s \<longleftrightarrow> os_off_safe s \<and> os_vreg_available s \<and> isfinite (os_vreg_c s) \<and> (os_asic_available s \<longrightarrow> isfinite (os_asic_c s))"

text \<open>A hot ASIC that the evaluation gets to see: only on a board that is off and whose regulator sensor can be read.\<close>

definition hot_asic :: "overheat_sample \<Rightarrow> bool" where
  "hot_asic s \<longleftrightarrow> observable s \<and> os_asic_available s \<and> flt_lt (Fin 45) (os_asic_c s)"

lemma evaluate_state:
  assumes "or_active r" "or_started_at_ms r \<le> or_cooling_since_ms r"
  shows "snd (evaluate_sample r s) =
    r\<lparr> or_cooling_since_ms := (if hot_asic s then max (or_cooling_since_ms r) (os_now_ms s) else or_cooling_since_ms r) \<rparr>"
  using assms by (auto simp: evaluate_sample_def bzm_overheat_recovery_evaluate_def hot_asic_def observable_def max_def)

lemma observe_state:
  assumes "or_active r" "or_started_at_ms r \<le> or_cooling_since_ms r"
  shows "observe_samples r ss =
    r\<lparr> or_cooling_since_ms := Max (set (or_cooling_since_ms r # map os_now_ms (filter hot_asic ss))) \<rparr>"
  using assms
proof (induction ss rule: rev_induct)
  case Nil
  then show ?case by (simp add: observe_samples_def)
next
  case (snoc s ss)
  let ?m = "Max (set (or_cooling_since_ms r # map os_now_ms (filter hot_asic ss)))"
  have ge: "or_cooling_since_ms r \<le> ?m" by simp
  have step: "observe_samples r (ss @ [s]) = snd (evaluate_sample (observe_samples r ss) s)" by (simp add: observe_samples_def)
  have "snd (evaluate_sample (r\<lparr> or_cooling_since_ms := ?m \<rparr>) s) =
      r\<lparr> or_cooling_since_ms := (if hot_asic s then max ?m (os_now_ms s) else ?m) \<rparr>"
    using snoc.prems ge by (subst evaluate_state) (auto intro: order_trans)
  moreover have "Max (set (or_cooling_since_ms r # map os_now_ms (filter hot_asic (ss @ [s])))) =
      (if hot_asic s then max ?m (os_now_ms s) else ?m)"
  proof (cases "hot_asic s")
    case True
    have "set (or_cooling_since_ms r # map os_now_ms (filter hot_asic (ss @ [s]))) =
        insert (os_now_ms s) (set (or_cooling_since_ms r # map os_now_ms (filter hot_asic ss)))" using True by auto
    then show ?thesis using True by (simp only: Max_insert List.finite_set) (simp add: max.commute)
  qed simp
  ultimately show ?case using step snoc.IH snoc.prems by simp
qed

lemma elapsed_since_all:
  fixes T :: "u64 set"
  assumes "finite T" "T \<noteq> {}"
  shows "(Max T \<le> n \<and> 30000 \<le> n - Max T) = (\<forall>t\<in>T. unat t + 30000 \<le> unat n)"
proof -
  obtain m where m: "m = Max T" by blast
  have "m \<in> T" "\<forall>t\<in>T. unat t \<le> unat m" using assms by (simp_all add: m flip: word_le_nat_alt)
  moreover have "(m \<le> n \<and> 30000 \<le> n - m) = (unat m + 30000 \<le> unat n)"
  proof (cases "m \<le> n")
    case True
    then show ?thesis by (auto simp: word_le_nat_alt unat_sub)
  qed (simp add: word_le_nat_alt)
  ultimately show ?thesis unfolding m[symmetric] by (meson add_le_mono1 order_trans)
qed

lemma ready_exactly:
  assumes begun: "bzm_overheat_recovery_begin r0 t0 mv mhz = (True, r)"
  shows "fst (evaluate_sample (observe_samples r ss) s) = BZM_OVERHEAT_RECOVERY_READY \<longleftrightarrow>
    observable s \<and> flt_le (os_vreg_c s) (Fin 95) \<and> (os_asic_available s \<longrightarrow> flt_le (os_asic_c s) (Fin 45)) \<and>
    (\<forall>t\<in>insert t0 (os_now_ms ` {x \<in> set ss. hot_asic x}). unat t + 30000 \<le> unat (os_now_ms s))"
proof -
  have r: "or_active r" "or_started_at_ms r = t0" "or_cooling_since_ms r = t0"
    using begun by (auto simp: bzm_overheat_recovery_begin_def split: if_splits)
  let ?T = "insert t0 (os_now_ms ` {x \<in> set ss. hot_asic x})"
  have obs: "observe_samples r ss = r\<lparr> or_cooling_since_ms := Max ?T \<rparr>"
    using observe_state[of r ss] r by simp
  have t0: "t0 \<le> Max ?T" by simp
  have old: "(Max ?T \<le> n \<and> 30000 \<le> n - Max ?T) = (\<forall>t\<in>?T. unat t + 30000 \<le> unat n)" for n
    by (rule elapsed_since_all) auto
  have le: "flt_le x (Fin c) \<longleftrightarrow> \<not> flt_lt (Fin c) x" if "isfinite x" for x c
    using flt_not_less[of "Fin c" x] that by simp
  have "fst (evaluate_sample (r\<lparr> or_cooling_since_ms := m \<rparr>) s) = BZM_OVERHEAT_RECOVERY_READY \<longleftrightarrow>
      observable s \<and> flt_le (os_vreg_c s) (Fin 95) \<and> (os_asic_available s \<longrightarrow> flt_le (os_asic_c s) (Fin 45)) \<and>
      m \<le> os_now_ms s \<and> 30000 \<le> os_now_ms s - m" if "t0 \<le> m" for m
  proof -
    have "\<not> os_now_ms s < t0" if "\<not> os_now_ms s < m" using that \<open>t0 \<le> m\<close> by (meson leD leI order_trans)
    then show ?thesis using r(1,2)
      by (simp add: evaluate_sample_def bzm_overheat_recovery_evaluate_def observable_def le not_less[symmetric] cong: conj_cong)
        blast
  qed
  from this[OF t0] show ?thesis unfolding obs old .
qed

lemma unseen_sample:
  "\<not> (os_off_safe s \<and> os_vreg_available s \<and> isfinite (os_vreg_c s)) \<Longrightarrow> snd (evaluate_sample r s) = r"
  by (auto simp: evaluate_sample_def bzm_overheat_recovery_evaluate_def)

text \<open>C11. The board is released from overheating exactly when it is proven off, its sensors are readable, the regulator
  is at most at 95 C, the ASIC, where its sensor is available, at most at 45 C, and 30 seconds have
  passed since the recovery began and since every earlier evaluation that saw the ASIC above 45 C. An evaluation sees the ASIC
  only when the board is proven off and the regulator sensor gives a number: any other evaluation leaves the cooling time
  as it was, however hot the ASIC is.\<close>

theorem overheat_ready_exactly_when_cooled:
  assumes begun: "bzm_overheat_recovery_begin r0 t0 mv mhz = (True, r)"
  shows "(fst (evaluate_sample (observe_samples r ss) s) = BZM_OVERHEAT_RECOVERY_READY \<longleftrightarrow>
     os_off_safe s \<and> os_vreg_available s \<and> isfinite (os_vreg_c s) \<and> flt_le (os_vreg_c s) (Fin 95) \<and>
     (os_asic_available s \<longrightarrow> isfinite (os_asic_c s) \<and> flt_le (os_asic_c s) (Fin 45)) \<and>
     unat t0 + 30000 \<le> unat (os_now_ms s) \<and>
     (\<forall>x\<in>set ss. os_off_safe x \<and> os_vreg_available x \<and> isfinite (os_vreg_c x) \<and>
        os_asic_available x \<and> isfinite (os_asic_c x) \<and> flt_lt (Fin 45) (os_asic_c x) \<longrightarrow>
        unat (os_now_ms x) + 30000 \<le> unat (os_now_ms s))) \<and>
   (\<not> (os_off_safe s \<and> os_vreg_available s \<and> isfinite (os_vreg_c s)) \<longrightarrow>
     observe_samples r (ss @ [s]) = observe_samples r ss)"
proof (rule conjI)
  show "fst (evaluate_sample (observe_samples r ss) s) = BZM_OVERHEAT_RECOVERY_READY \<longleftrightarrow>
     os_off_safe s \<and> os_vreg_available s \<and> isfinite (os_vreg_c s) \<and> flt_le (os_vreg_c s) (Fin 95) \<and>
     (os_asic_available s \<longrightarrow> isfinite (os_asic_c s) \<and> flt_le (os_asic_c s) (Fin 45)) \<and>
     unat t0 + 30000 \<le> unat (os_now_ms s) \<and>
     (\<forall>x\<in>set ss. os_off_safe x \<and> os_vreg_available x \<and> isfinite (os_vreg_c x) \<and>
        os_asic_available x \<and> isfinite (os_asic_c x) \<and> flt_lt (Fin 45) (os_asic_c x) \<longrightarrow>
        unat (os_now_ms x) + 30000 \<le> unat (os_now_ms s))"
    unfolding ready_exactly[OF begun] by (auto simp: observable_def hot_asic_def)
qed (simp add: observe_samples_def unseen_sample)

text \<open>A board that was still hot ten seconds after the recovery began, and is cold thirty seconds later.\<close>

definition cooled_sample :: "u64 \<Rightarrow> rat \<Rightarrow> overheat_sample" where
  "cooled_sample t c = \<lparr> os_now_ms = t, os_off_safe = True, os_vreg_available = True, os_vreg_c = Fin 60,
     os_asic_available = True, os_asic_c = Fin c \<rparr>"

definition begun_recovery :: bzm_overheat_recovery_t where
  "begun_recovery = \<lparr> or_active = True, or_started_at_ms = 0, or_cooling_since_ms = 0,
     or_original_voltage_mv = 2800, or_original_frequency_mhz = Fin 1000 \<rparr>"

theorem overheat_ready_exactly_when_cooled_witness:
  "fst (evaluate_sample (observe_samples begun_recovery [cooled_sample 10000 50]) (cooled_sample 40000 44))
     = BZM_OVERHEAT_RECOVERY_READY \<and>
   fst (evaluate_sample (observe_samples begun_recovery [cooled_sample 10000 50]) (cooled_sample 39999 44))
     \<noteq> BZM_OVERHEAT_RECOVERY_READY"
proof -
  have begun: "bzm_overheat_recovery_begin r 0 2800 (Fin 1000) = (True, begun_recovery)" for r
    by (simp add: bzm_overheat_recovery_begin_def begun_recovery_def)
  show ?thesis
    using overheat_ready_exactly_when_cooled[OF begun, of "[cooled_sample 10000 50]"]
    by (simp add: cooled_sample_def)
qed

text \<open>
  The documentation says that a hotter reading restarts the cooldown timer. A reading of 120 C that comes while the
  regulator sensor is not available does not: one millisecond later the board is released.
\<close>

lemma hot_reading_overlooked:
  "fst (evaluate_sample
      (observe_samples begun_recovery [(cooled_sample 29999 120)\<lparr> os_vreg_available := False \<rparr>]) (cooled_sample 30000 44))
     = BZM_OVERHEAT_RECOVERY_READY"
  by code_simp

end
