(* ===== verification/Registers.thy ===== *)
theory Registers
  imports Bridge CText
begin

text \<open>
  The names of the control registers of an ASIC (\<open>components/asic/bzm_registers.c\<close>) and the exact comparison of
  regulator registers with their read-back (\<open>bzm_tps546_verify.c\<close>). A NULL pointer is \<open>None\<close>, a buffer is the list of
  its bytes.
\<close>

section \<open>Model: register names\<close>

abbreviation BZM_LOCAL_REG_RESULT_STATUS_CONTROL :: u8 where "BZM_LOCAL_REG_RESULT_STATUS_CONTROL \<equiv> 0x00"
abbreviation BZM_LOCAL_REG_UART_TDM_CONTROL :: u8 where "BZM_LOCAL_REG_UART_TDM_CONTROL \<equiv> 0x07"
abbreviation BZM_LOCAL_REG_SLOW_CLOCK_DIVIDER :: u8 where "BZM_LOCAL_REG_SLOW_CLOCK_DIVIDER \<equiv> 0x08"
abbreviation BZM_LOCAL_REG_TDM_DELAY :: u8 where "BZM_LOCAL_REG_TDM_DELAY \<equiv> 0x09"
abbreviation BZM_LOCAL_REG_UART_TX :: u8 where "BZM_LOCAL_REG_UART_TX \<equiv> 0x0a"
abbreviation BZM_LOCAL_REG_ASIC_ID :: u8 where "BZM_LOCAL_REG_ASIC_ID \<equiv> 0x0b"
abbreviation BZM_LOCAL_REG_PLL0_CONTROL :: u8 where "BZM_LOCAL_REG_PLL0_CONTROL \<equiv> 0x0f"
abbreviation BZM_LOCAL_REG_PLL0_POSTDIV :: u8 where "BZM_LOCAL_REG_PLL0_POSTDIV \<equiv> 0x10"
abbreviation BZM_LOCAL_REG_PLL0_FBDIV :: u8 where "BZM_LOCAL_REG_PLL0_FBDIV \<equiv> 0x11"
abbreviation BZM_LOCAL_REG_PLL0_ENABLE :: u8 where "BZM_LOCAL_REG_PLL0_ENABLE \<equiv> 0x12"
abbreviation BZM_LOCAL_REG_PLL0_MISC :: u8 where "BZM_LOCAL_REG_PLL0_MISC \<equiv> 0x13"
abbreviation BZM_LOCAL_REG_PLL1_CONTROL :: u8 where "BZM_LOCAL_REG_PLL1_CONTROL \<equiv> 0x19"
abbreviation BZM_LOCAL_REG_PLL1_ENABLE :: u8 where "BZM_LOCAL_REG_PLL1_ENABLE \<equiv> 0x1c"
abbreviation BZM_LOCAL_REG_PLL1_MISC :: u8 where "BZM_LOCAL_REG_PLL1_MISC \<equiv> 0x1d"
abbreviation BZM_LOCAL_REG_SENSOR_TDM_GAP_COUNT :: u8 where "BZM_LOCAL_REG_SENSOR_TDM_GAP_COUNT \<equiv> 0x2d"
abbreviation BZM_LOCAL_REG_DTS_CONFIG :: u8 where "BZM_LOCAL_REG_DTS_CONFIG \<equiv> 0x2f"
abbreviation BZM_LOCAL_REG_SENSOR_THRESHOLD_COUNT :: u8 where "BZM_LOCAL_REG_SENSOR_THRESHOLD_COUNT \<equiv> 0x3c"
abbreviation BZM_LOCAL_REG_DLL0_CONTROL_5 :: u8 where "BZM_LOCAL_REG_DLL0_CONTROL_5 \<equiv> 0x59"
abbreviation BZM_LOCAL_REG_DLL1_CONTROL_5 :: u8 where "BZM_LOCAL_REG_DLL1_CONTROL_5 \<equiv> 0x61"
abbreviation BZM_LOCAL_REG_DTS_RESET_POWERDOWN :: u8 where "BZM_LOCAL_REG_DTS_RESET_POWERDOWN \<equiv> 0x2e"
abbreviation BZM_LOCAL_REG_TEMPERATURE_TUNE_CODE :: u8 where "BZM_LOCAL_REG_TEMPERATURE_TUNE_CODE \<equiv> 0x30"
abbreviation BZM_LOCAL_REG_THERMAL_TRIP_STATUS :: u8 where "BZM_LOCAL_REG_THERMAL_TRIP_STATUS \<equiv> 0x31"
abbreviation BZM_LOCAL_REG_TEMPERATURE_CODE_STATUS :: u8 where "BZM_LOCAL_REG_TEMPERATURE_CODE_STATUS \<equiv> 0x32"
abbreviation BZM_LOCAL_REG_SENSOR_CLOCK_DIVIDER :: u8 where "BZM_LOCAL_REG_SENSOR_CLOCK_DIVIDER \<equiv> 0x3d"
abbreviation BZM_LOCAL_REG_VSENSOR_RESET_POWERDOWN :: u8 where "BZM_LOCAL_REG_VSENSOR_RESET_POWERDOWN \<equiv> 0x3e"
abbreviation BZM_LOCAL_REG_VSENSOR_CONFIG :: u8 where "BZM_LOCAL_REG_VSENSOR_CONFIG \<equiv> 0x3f"
abbreviation BZM_LOCAL_REG_VSENSOR_CONTROL :: u8 where "BZM_LOCAL_REG_VSENSOR_CONTROL \<equiv> 0x40"
abbreviation BZM_LOCAL_REG_VSENSOR_CH0_STATUS :: u8 where "BZM_LOCAL_REG_VSENSOR_CH0_STATUS \<equiv> 0x41"
abbreviation BZM_LOCAL_REG_VSENSOR_CH1_CH2_STATUS :: u8 where "BZM_LOCAL_REG_VSENSOR_CH1_CH2_STATUS \<equiv> 0x44"
abbreviation BZM_LOCAL_REG_BANDGAP :: u8 where "BZM_LOCAL_REG_BANDGAP \<equiv> 0x45"
abbreviation BZM_LOCAL_REG_IO_PEPS_DRIVE_STRENGTH :: u8 where "BZM_LOCAL_REG_IO_PEPS_DRIVE_STRENGTH \<equiv> 0x51"
abbreviation BZM_LOCAL_REG_DLL0_LOCK_0 :: u8 where "BZM_LOCAL_REG_DLL0_LOCK_0 \<equiv> 0x5a"
abbreviation BZM_LOCAL_REG_DLL0_LOCK_1 :: u8 where "BZM_LOCAL_REG_DLL0_LOCK_1 \<equiv> 0x5b"
abbreviation BZM_LOCAL_REG_DLL1_LOCK_0 :: u8 where "BZM_LOCAL_REG_DLL1_LOCK_0 \<equiv> 0x62"
abbreviation BZM_LOCAL_REG_DLL1_LOCK_1 :: u8 where "BZM_LOCAL_REG_DLL1_LOCK_1 \<equiv> 0x63"

definition bzm_local_register_name :: "u8 \<Rightarrow> string" where
  "bzm_local_register_name offset =
     (if offset = BZM_LOCAL_REG_RESULT_STATUS_CONTROL then ''result_status_control''
      else if offset = BZM_LOCAL_REG_UART_TDM_CONTROL then ''uart_tdm_control''
      else if offset = BZM_LOCAL_REG_SLOW_CLOCK_DIVIDER then ''slow_clock_divider''
      else if offset = BZM_LOCAL_REG_TDM_DELAY then ''tdm_delay''
      else if offset = BZM_LOCAL_REG_UART_TX then ''uart_tx''
      else if offset = BZM_LOCAL_REG_ASIC_ID then ''asic_id''
      else if offset = BZM_LOCAL_REG_PLL0_CONTROL then ''pll0_control''
      else if offset = BZM_LOCAL_REG_PLL0_ENABLE then ''pll0_enable''
      else if offset = BZM_LOCAL_REG_PLL0_MISC then ''pll0_misc''
      else if offset = BZM_LOCAL_REG_PLL1_CONTROL then ''pll1_control''
      else if offset = BZM_LOCAL_REG_PLL1_ENABLE then ''pll1_enable''
      else if offset = BZM_LOCAL_REG_PLL1_MISC then ''pll1_misc''
      else if offset = BZM_LOCAL_REG_DTS_RESET_POWERDOWN then ''dts_reset_powerdown''
      else if offset = BZM_LOCAL_REG_TEMPERATURE_TUNE_CODE then ''temperature_tune_code''
      else if offset = BZM_LOCAL_REG_THERMAL_TRIP_STATUS then ''thermal_trip_status''
      else if offset = BZM_LOCAL_REG_TEMPERATURE_CODE_STATUS then ''temperature_code_status''
      else if offset = BZM_LOCAL_REG_SENSOR_CLOCK_DIVIDER then ''sensor_clock_divider''
      else if offset = BZM_LOCAL_REG_VSENSOR_RESET_POWERDOWN then ''vsensor_reset_powerdown''
      else if offset = BZM_LOCAL_REG_VSENSOR_CONFIG then ''vsensor_config''
      else if offset = BZM_LOCAL_REG_VSENSOR_CONTROL then ''vsensor_control''
      else if offset = BZM_LOCAL_REG_VSENSOR_CH0_STATUS then ''vsensor_ch0_status''
      else if offset = BZM_LOCAL_REG_VSENSOR_CH1_CH2_STATUS then ''vsensor_ch1_ch2_status''
      else if offset = BZM_LOCAL_REG_BANDGAP then ''bandgap''
      else if offset = BZM_LOCAL_REG_IO_PEPS_DRIVE_STRENGTH then ''io_peps_drive_strength''
      else if offset = BZM_LOCAL_REG_DLL0_LOCK_0 then ''dll0_lock_0''
      else if offset = BZM_LOCAL_REG_DLL0_LOCK_1 then ''dll0_lock_1''
      else if offset = BZM_LOCAL_REG_DLL1_LOCK_0 then ''dll1_lock_0''
      else if offset = BZM_LOCAL_REG_DLL1_LOCK_1 then ''dll1_lock_1''
      else ''unknown'')"

definition bzm_local_register_width :: "u8 \<Rightarrow> nat" where
  "bzm_local_register_width offset = 4"

section \<open>Model: read-back of regulator registers\<close>

text \<open>\<open>%0nX\<close>: upper-case hexadecimal.\<close>

definition upper_digit :: "nat \<Rightarrow> char" where
  "upper_digit d = char_of (if d < 10 then 48 + d else 55 + d)"

definition fmt_upper_x :: "nat \<Rightarrow> 'a::len word \<Rightarrow> string" where
  "fmt_upper_x width w = (let s = map upper_digit (digits 16 (unat w)) in replicate (width - length s) (CHR ''0'') @ s)"

record bzm_tps546_verify_field_t =
  tf_name :: "string option"
  tf_expected :: "u8 list option"
  tf_observed :: "u8 list option"

definition valid_field :: "bzm_tps546_verify_field_t \<Rightarrow> bool" where
  "valid_field field \<longleftrightarrow>
     tf_name field \<noteq> None \<and> tf_name field \<noteq> Some [] \<and> tf_expected field \<noteq> None \<and> tf_observed field \<noteq> None \<and>
     tf_expected field \<noteq> Some [] \<and> tf_observed field \<noteq> Some []"

text \<open>The first position from \<open>byte_index\<close> on at which the two buffers of the length of the first differ.\<close>

fun first_difference :: "nat \<Rightarrow> u8 list \<Rightarrow> u8 list \<Rightarrow> nat" where
  "first_difference byte_index (e # es) (b # bs) = (if e = b then first_difference (byte_index + 1) es bs else byte_index)"
| "first_difference byte_index es bs = byte_index"

definition mismatch_text :: "string \<Rightarrow> u8 list \<Rightarrow> u8 list \<Rightarrow> nat \<Rightarrow> string" where
  "mismatch_text name expected observed byte_index =
     (if length expected = 1 then
        name @ '' expected=0x'' @ fmt_upper_x 2 (expected ! 0) @ '' observed=0x'' @ fmt_upper_x 2 (observed ! 0)
      else if length expected = 2 then
        name @ '' expected=0x'' @ fmt_upper_x 4 (ucast (expected ! 0) OR push_bit 8 (ucast (expected ! 1)) :: u16) @
        '' observed=0x'' @ fmt_upper_x 4 (ucast (observed ! 0) OR push_bit 8 (ucast (observed ! 1)) :: u16)
      else
        name @ ''['' @ fmt_nat byte_index @ ''] expected=0x'' @ fmt_upper_x 2 (expected ! byte_index) @
        '' observed=0x'' @ fmt_upper_x 2 (observed ! byte_index))"

fun verify_loop :: "bzm_tps546_verify_field_t list \<Rightarrow> esp_err_t \<times> string" where
  "verify_loop [] = (ESP_OK, ''GOOD'')"
| "verify_loop (field # entries) =
     (if \<not> valid_field field then (ESP_ERR_INVALID_ARG, ''INVALID_ARGUMENT'')
      else
        (let name = the (tf_name field); expected = the (tf_expected field); observed = the (tf_observed field)
         in if length expected \<noteq> length observed
            then (ESP_ERR_INVALID_SIZE,
                  name @ '' length expected='' @ fmt_nat (length expected) @ '' observed='' @ fmt_nat (length observed))
            else
              (let byte_index = first_difference 0 expected observed
               in if byte_index = length expected then verify_loop entries
                  else (ESP_FAIL, mismatch_text name expected observed byte_index))))"

text \<open>The result and the text left in a buffer of the given size; without a buffer nothing is written.\<close>

definition bzm_tps546_verify_fields ::
    "bzm_tps546_verify_field_t list option \<Rightarrow> nat option \<Rightarrow> esp_err_t \<times> string option" where
  "bzm_tps546_verify_fields entries detail_len =
     (case detail_len of
        None \<Rightarrow> (ESP_ERR_INVALID_ARG, None)
      | Some n \<Rightarrow>
          if n = 0 then (ESP_ERR_INVALID_ARG, None)
          else
            (case entries of
               None \<Rightarrow> (ESP_ERR_INVALID_ARG, Some (snprintf n ''INVALID_ARGUMENT''))
             | Some entries \<Rightarrow>
                 if entries = [] then (ESP_ERR_INVALID_ARG, Some (snprintf n ''INVALID_ARGUMENT''))
                 else (case verify_loop entries of (err, text) \<Rightarrow> (err, Some (snprintf n text)))))"

section \<open>Exactness of the comparison\<close>

definition field_matches :: "bzm_tps546_verify_field_t \<Rightarrow> bool" where
  "field_matches field \<longleftrightarrow> valid_field field \<and> tf_expected field = tf_observed field"

lemma first_difference_le: "first_difference k es bs \<le> k + length es"
  by (induction k es bs rule: first_difference.induct) auto

lemma first_difference_end:
  "length es = length bs \<Longrightarrow> first_difference k es bs = k + length es \<longleftrightarrow> es = bs"
proof (induction k es bs rule: first_difference.induct)
  case (1 k e es b bs)
  then show ?case by auto
qed auto

lemma verify_loop_ok: "fst (verify_loop entries) = ESP_OK \<longleftrightarrow> (\<forall>f\<in>set entries. field_matches f)"
proof (induction entries)
  case (Cons f entries)
  then show ?case
    using first_difference_end[of "the (tf_expected f)" "the (tf_observed f)" 0]
    by (auto simp: field_matches_def Let_def valid_field_def)
qed simp

text \<open>The regulator is accepted exactly when every field is present and its registers read back the expected bytes.\<close>

lemma verify_exact:
  assumes "entries \<noteq> []" "0 < n"
  shows "fst (bzm_tps546_verify_fields (Some entries) (Some n)) = ESP_OK \<longleftrightarrow> (\<forall>f\<in>set entries. field_matches f)"
  using assms verify_loop_ok[of entries] by (cases "verify_loop entries") (simp add: bzm_tps546_verify_fields_def)

end
