(* ===== verification/Bringup.thy ===== *)
theory Bringup
  imports "HOL-Library.Sublist" Registers Telemetry Frequency SerialTransport
begin

text \<open>
  The staged bring-up of the ASIC chain (\<open>components/asic/bzm_bringup.c\<close>): discovery of the four ASICs, sensors, clocks, the
  balanced ramp of the engines, the check that mining may start and the live change of frequencies. The
  hardware is reached through \<open>bzm_bringup_ops_t\<close>, whose operations act on a device state; an operation the source
  tests against NULL is an option. A NULL state or table, which every stage refuses, is left out.
  A stage is a computation on the state, the report behind the caller's pointer (\<open>None\<close> for NULL) and the device; the
  left side of a sum is the outcome of an early return.
\<close>

section \<open>Model: data\<close>

datatype bzm_bringup_outcome_t = BZM_BRINGUP_GOOD | BZM_BRINGUP_BAD | BZM_BRINGUP_BLOCKED

datatype bzm_bringup_reason_t = BZM_BRINGUP_REASON_NONE | BZM_BRINGUP_REASON_INVALID_ARGUMENT
  | BZM_BRINGUP_REASON_PREREQUISITE | BZM_BRINGUP_REASON_CAPABILITY_UNAVAILABLE | BZM_BRINGUP_REASON_IO
  | BZM_BRINGUP_REASON_CHAIN_MISSING | BZM_BRINGUP_REASON_CHAIN_ID_MISMATCH | BZM_BRINGUP_REASON_CHAIN_EXTRA_ASIC
  | BZM_BRINGUP_REASON_REGISTER_READBACK | BZM_BRINGUP_REASON_TELEMETRY_MISSING | BZM_BRINGUP_REASON_TELEMETRY_PRECONFIG
  | BZM_BRINGUP_REASON_TELEMETRY_STALE | BZM_BRINGUP_REASON_TELEMETRY_UNSAFE | BZM_BRINGUP_REASON_PLL_UNLOCKED
  | BZM_BRINGUP_REASON_TOPOLOGY | BZM_BRINGUP_REASON_BALANCED_PAIR_UNAVAILABLE | BZM_BRINGUP_REASON_BALANCED_PAIR_COMMIT
  | BZM_BRINGUP_REASON_ACTIVATION_BARRIER | BZM_BRINGUP_REASON_BALANCED_BATCH

datatype bzm_bringup_probe_result_t = BZM_BRINGUP_PROBE_RESPONSE | BZM_BRINGUP_PROBE_NO_RESPONSE | BZM_BRINGUP_PROBE_IO_ERROR

record bzm_bringup_report_t =
  br_outcome :: bzm_bringup_outcome_t
  br_reason :: bzm_bringup_reason_t
  br_asic_id :: u8
  br_pll_index :: u8
  br_register_offset :: u8
  br_expected :: u32
  br_actual :: u32
  br_completed_items :: u16

record bzm_bringup_state_t =
  bu_chain_verified :: bool
  bu_sensors_verified :: bool
  bu_clocks_verified :: bool
  bu_balanced_ramp_verified :: bool
  bu_running_verified :: bool
  bu_sensors_configured_us :: u64
  bu_clocks_configured_us :: u64
  bu_clock_mhz :: cfloat
  bu_domain_clock_mhz :: "cfloat list"

record bzm_bringup_sensor_profile_t =
  sp_slow_clock_divider :: u8
  sp_tdm_slot_bit_count :: u8
  sp_tdm_slot_count :: u8
  sp_tdm_delay :: u8
  sp_sensor_clock_divider :: u8
  sp_tdm_gap_count :: u8
  sp_thermal_threshold_count :: u8
  sp_voltage_threshold_count :: u8
  sp_thermal_trip_code :: u16
  sp_voltage_ch0_shutdown_code :: u16
  sp_voltage_ch1_shutdown_code :: u16
  sp_settle_delay_ms :: u16

record bzm_bringup_pll_profile_t =
  pp_target_mhz :: u16
  pp_reference_mhz :: u8
  pp_reference_divider :: u8
  pp_post1_divider :: u8
  pp_post2_divider :: u8
  pp_feedback_divider :: u16
  pp_postdiv_register :: u32
  pp_lock_attempts :: u8
  pp_lock_poll_delay_ms :: u16

record bzm_bringup_telemetry_policy_t =
  py_bounds :: bzm_telemetry_bounds_t
  py_max_age_us :: u64
  py_ch2_confirm_samples :: u8

record 'c bzm_bringup_ops_t =
  bo_probe_noop :: "(u8 \<Rightarrow> 'c \<Rightarrow> bzm_bringup_probe_result_t \<times> 'c) option"
  bo_write_u32 :: "(u8 \<Rightarrow> u16 \<Rightarrow> u8 \<Rightarrow> u32 \<Rightarrow> 'c \<Rightarrow> bool \<times> 'c) option"
  bo_read_u32 :: "(u8 \<Rightarrow> u16 \<Rightarrow> u8 \<Rightarrow> 'c \<Rightarrow> u32 option \<times> 'c) option"
  bo_delay_ms :: "(u32 \<Rightarrow> 'c \<Rightarrow> 'c) option"
  bo_now_us :: "('c \<Rightarrow> u64 \<times> 'c) option"
  bo_telemetry_snapshot :: "(bzm_telemetry_store_t \<Rightarrow> 'c \<Rightarrow> (bool \<times> bzm_telemetry_store_t) \<times> 'c) option"
  bo_balanced_batch_begin :: "(u16 \<Rightarrow> 'c \<Rightarrow> bool \<times> 'c) option"
  bo_balanced_pair_commit :: "(u8 \<Rightarrow> bzm_engine_pair_t \<Rightarrow> 'c \<Rightarrow> bool \<times> 'c) option"
  bo_balanced_batch_end :: "(u16 \<Rightarrow> 'c \<Rightarrow> bool \<times> 'c) option"
  bo_activation_barrier :: "(nat \<Rightarrow> nat \<Rightarrow> 'c \<Rightarrow> bool \<times> 'c) option"

abbreviation BZM_BRINGUP_PLL_COUNT :: nat where "BZM_BRINGUP_PLL_COUNT \<equiv> 2"
abbreviation BZM_BRINGUP_CONTROL_ENGINE_ID :: u16 where "BZM_BRINGUP_CONTROL_ENGINE_ID \<equiv> 0x0fff"
abbreviation BZM_BRINGUP_LAST_ASIC_ID :: u8 where "BZM_BRINGUP_LAST_ASIC_ID \<equiv> 0x28"
abbreviation BZM_BRINGUP_FIRST_ASIC_ID :: u8 where "BZM_BRINGUP_FIRST_ASIC_ID \<equiv> 0x0a"
abbreviation BZM_REFERENCE_SLOW_CLOCK_DIVIDER :: "'a::len word" where "BZM_REFERENCE_SLOW_CLOCK_DIVIDER \<equiv> 2"
abbreviation BZM_REFERENCE_TDM_SLOT_BIT_COUNT :: "'a::len word" where "BZM_REFERENCE_TDM_SLOT_BIT_COUNT \<equiv> 0x7f"
abbreviation BZM_REFERENCE_TDM_SLOT_COUNT :: "'a::len word" where "BZM_REFERENCE_TDM_SLOT_COUNT \<equiv> 100"
abbreviation BZM_REFERENCE_TDM_DELAY :: "'a::len word" where "BZM_REFERENCE_TDM_DELAY \<equiv> 1"
abbreviation BZM_REFERENCE_SENSOR_DIVIDER :: "'a::len word" where "BZM_REFERENCE_SENSOR_DIVIDER \<equiv> 8"
abbreviation BZM_REFERENCE_THRESHOLD_COUNT :: u8 where "BZM_REFERENCE_THRESHOLD_COUNT \<equiv> 10"
abbreviation BZM_RESULT_REPORT_ENABLED :: u32 where "BZM_RESULT_REPORT_ENABLED \<equiv> 0"
abbreviation BZM_RESULT_REPORT_DISABLED :: u32 where "BZM_RESULT_REPORT_DISABLED \<equiv> 1"
abbreviation BZM_CHAIN_NOOP_ATTEMPTS :: nat where "BZM_CHAIN_NOOP_ATTEMPTS \<equiv> 5"
abbreviation BZM_CHAIN_NOOP_RETRY_DELAY_MS :: u32 where "BZM_CHAIN_NOOP_RETRY_DELAY_MS \<equiv> 200"
abbreviation BZM_TELEMETRY_ACQUIRE_ATTEMPTS :: nat where "BZM_TELEMETRY_ACQUIRE_ATTEMPTS \<equiv> 5"
abbreviation BZM_TELEMETRY_RETRY_DELAY_MS :: u32 where "BZM_TELEMETRY_RETRY_DELAY_MS \<equiv> 5"
abbreviation BZM_PLL_LOCK_MASK :: u32 where "BZM_PLL_LOCK_MASK \<equiv> 0x05"
abbreviation BZM_PLL_ENABLE_VALUE :: u32 where "BZM_PLL_ENABLE_VALUE \<equiv> 0x01"
abbreviation BZM_REFERENCE_BIRDS_IO_PEPS_DRIVE_STRENGTH :: u32 where "BZM_REFERENCE_BIRDS_IO_PEPS_DRIVE_STRENGTH \<equiv> 0x44464444"

text \<open>\<open>NO_RESPONSE\<close> and its neighbours as the numbers written to a report.\<close>

definition probe_code :: "bzm_bringup_probe_result_t \<Rightarrow> u32" where
  "probe_code probe =
     (case probe of BZM_BRINGUP_PROBE_RESPONSE \<Rightarrow> 0 | BZM_BRINGUP_PROBE_NO_RESPONSE \<Rightarrow> 1 | BZM_BRINGUP_PROBE_IO_ERROR \<Rightarrow> 2)"

section \<open>Model: computations\<close>

record 'c bringup_world =
  bw_state :: bzm_bringup_state_t
  bw_report :: "bzm_bringup_report_t option"
  bw_device :: 'c

type_synonym ('c, 'a) bringup = "'c bringup_world \<Rightarrow> (bzm_bringup_outcome_t + 'a) \<times> 'c bringup_world"

definition br_return :: "'a \<Rightarrow> ('c, 'a) bringup" where
  "br_return x w = (Inr x, w)"

definition br_bind :: "('c, 'a) bringup \<Rightarrow> ('a \<Rightarrow> ('c, 'b) bringup) \<Rightarrow> ('c, 'b) bringup" where
  "br_bind m f w = (case m w of (Inl outcome, w) \<Rightarrow> (Inl outcome, w) | (Inr x, w) \<Rightarrow> f x w)"

definition br_exit :: "bzm_bringup_outcome_t \<Rightarrow> ('c, 'a) bringup" where
  "br_exit outcome w = (Inl outcome, w)"

fun br_all :: "('c, unit) bringup list \<Rightarrow> ('c, unit) bringup" where
  "br_all [] = br_return ()"
| "br_all (m # ms) = br_bind m (\<lambda>_. br_all ms)"

fun br_fold :: "('x \<Rightarrow> 'a \<Rightarrow> ('c, 'a) bringup) \<Rightarrow> 'x list \<Rightarrow> 'a \<Rightarrow> ('c, 'a) bringup" where
  "br_fold f [] a = br_return a"
| "br_fold f (x # xs) a = br_bind (f x a) (br_fold f xs)"

definition br_for :: "'x list \<Rightarrow> ('x \<Rightarrow> ('c, unit) bringup) \<Rightarrow> ('c, unit) bringup" where
  "br_for xs f = br_all (map f xs)"

definition br_modify :: "(bzm_bringup_state_t \<Rightarrow> bzm_bringup_state_t) \<Rightarrow> ('c, unit) bringup" where
  "br_modify f w = (Inr (), w\<lparr> bw_state := f (bw_state w) \<rparr>)"

definition br_get :: "(bzm_bringup_state_t \<Rightarrow> 'a) \<Rightarrow> ('c, 'a) bringup" where
  "br_get f w = (Inr (f (bw_state w)), w)"

definition br_device :: "('c \<Rightarrow> 'a \<times> 'c) \<Rightarrow> ('c, 'a) bringup" where
  "br_device f w = (case f (bw_device w) of (x, c) \<Rightarrow> (Inr x, w\<lparr> bw_device := c \<rparr>))"

text \<open>The outcome of a helper the caller tests, and of a whole stage; a helper that runs to its end answers GOOD.\<close>

definition br_outcome_of :: "('c, unit) bringup \<Rightarrow> 'c bringup_world \<Rightarrow> bzm_bringup_outcome_t \<times> 'c bringup_world" where
  "br_outcome_of m w = (case m w of (Inl outcome, w) \<Rightarrow> (outcome, w) | (Inr _, w) \<Rightarrow> (BZM_BRINGUP_GOOD, w))"

text \<open>A helper whose outcome, and report, decide how to go on.\<close>

definition br_attempt ::
    "('c, unit) bringup \<Rightarrow> (bzm_bringup_outcome_t \<Rightarrow> bzm_bringup_report_t option \<Rightarrow> ('c, 'a) bringup) \<Rightarrow> ('c, 'a) bringup" where
  "br_attempt m f w = (case br_outcome_of m w of (outcome, w) \<Rightarrow> f outcome (bw_report w) w)"

definition set_report ::
    "bzm_bringup_outcome_t \<Rightarrow> bzm_bringup_reason_t \<Rightarrow> u8 \<Rightarrow> u8 \<Rightarrow> u8 \<Rightarrow> u32 \<Rightarrow> u32 \<Rightarrow> u16 \<Rightarrow> ('c, 'a) bringup" where
  "set_report outcome reason asic_id pll_index register_offset expected actual completed_items w =
     (Inl outcome, w\<lparr> bw_report := map_option (\<lambda>_. \<lparr> br_outcome = outcome, br_reason = reason, br_asic_id = asic_id,
        br_pll_index = pll_index, br_register_offset = register_offset, br_expected = expected, br_actual = actual,
        br_completed_items = completed_items \<rparr>) (bw_report w) \<rparr>)"

text \<open>Calls of the table; the stages test the members they call unconditionally before the first call.\<close>

definition br_write :: "'c bzm_bringup_ops_t \<Rightarrow> u8 \<Rightarrow> u8 \<Rightarrow> u32 \<Rightarrow> ('c, bool) bringup" where
  "br_write ops asic_id offset value =
     br_device (case bo_write_u32 ops of Some write \<Rightarrow> write asic_id BZM_BRINGUP_CONTROL_ENGINE_ID offset value
                | None \<Rightarrow> Pair False)"

definition br_read :: "'c bzm_bringup_ops_t \<Rightarrow> u8 \<Rightarrow> u8 \<Rightarrow> ('c, u32 option) bringup" where
  "br_read ops asic_id offset =
     br_device (case bo_read_u32 ops of Some read \<Rightarrow> read asic_id BZM_BRINGUP_CONTROL_ENGINE_ID offset | None \<Rightarrow> Pair None)"

definition br_probe :: "'c bzm_bringup_ops_t \<Rightarrow> u8 \<Rightarrow> ('c, bzm_bringup_probe_result_t) bringup" where
  "br_probe ops asic_id =
     br_device (case bo_probe_noop ops of Some probe \<Rightarrow> probe asic_id | None \<Rightarrow> Pair BZM_BRINGUP_PROBE_IO_ERROR)"

definition br_delay :: "'c bzm_bringup_ops_t \<Rightarrow> u32 \<Rightarrow> ('c, unit) bringup" where
  "br_delay ops ms = br_device (case bo_delay_ms ops of Some delay \<Rightarrow> (\<lambda>c. ((), delay ms c)) | None \<Rightarrow> Pair ())"

definition br_now :: "'c bzm_bringup_ops_t \<Rightarrow> ('c, u64) bringup" where
  "br_now ops = br_device (case bo_now_us ops of Some now \<Rightarrow> now | None \<Rightarrow> Pair 0)"

definition br_snapshot :: "'c bzm_bringup_ops_t \<Rightarrow> bzm_telemetry_store_t \<Rightarrow> ('c, bool \<times> bzm_telemetry_store_t) bringup" where
  "br_snapshot ops store =
     br_device (case bo_telemetry_snapshot ops of Some snapshot \<Rightarrow> snapshot store | None \<Rightarrow> Pair (False, store))"

definition br_batch_begin :: "'c bzm_bringup_ops_t \<Rightarrow> u16 \<Rightarrow> ('c, bool) bringup" where
  "br_batch_begin ops pair = br_device (case bo_balanced_batch_begin ops of Some f \<Rightarrow> f pair | None \<Rightarrow> Pair False)"

definition br_batch_end :: "'c bzm_bringup_ops_t \<Rightarrow> u16 \<Rightarrow> ('c, bool) bringup" where
  "br_batch_end ops pair = br_device (case bo_balanced_batch_end ops of Some f \<Rightarrow> f pair | None \<Rightarrow> Pair False)"

definition br_pair_commit :: "'c bzm_bringup_ops_t \<Rightarrow> u8 \<Rightarrow> bzm_engine_pair_t \<Rightarrow> ('c, bool) bringup" where
  "br_pair_commit ops asic_id pair =
     br_device (case bo_balanced_pair_commit ops of Some f \<Rightarrow> f asic_id pair | None \<Rightarrow> Pair False)"

definition br_barrier :: "'c bzm_bringup_ops_t \<Rightarrow> nat \<Rightarrow> nat \<Rightarrow> ('c, bool) bringup" where
  "br_barrier ops asic_count pairs =
     br_device (case bo_activation_barrier ops of Some f \<Rightarrow> f asic_count pairs | None \<Rightarrow> Pair False)"

section \<open>Model: state and profiles\<close>

definition clear_after_chain :: "bzm_bringup_state_t \<Rightarrow> bzm_bringup_state_t" where
  "clear_after_chain state = state\<lparr> bu_chain_verified := False, bu_sensors_verified := False, bu_clocks_verified := False,
     bu_balanced_ramp_verified := False, bu_running_verified := False, bu_sensors_configured_us := 0,
     bu_clocks_configured_us := 0 \<rparr>"

definition clear_after_sensors :: "bzm_bringup_state_t \<Rightarrow> bzm_bringup_state_t" where
  "clear_after_sensors state = state\<lparr> bu_sensors_verified := False, bu_clocks_verified := False,
     bu_balanced_ramp_verified := False, bu_running_verified := False, bu_sensors_configured_us := 0,
     bu_clocks_configured_us := 0 \<rparr>"

definition clear_after_clocks :: "bzm_bringup_state_t \<Rightarrow> bzm_bringup_state_t" where
  "clear_after_clocks state = state\<lparr> bu_clocks_verified := False, bu_balanced_ramp_verified := False,
     bu_running_verified := False, bu_clocks_configured_us := 0 \<rparr>"

text \<open>The clocks of the domains are the rows of \<open>domain_clock_mhz\<close>, one after the other.\<close>

definition bzm_bringup_init :: bzm_bringup_state_t where
  "bzm_bringup_init = \<lparr> bu_chain_verified = False, bu_sensors_verified = False, bu_clocks_verified = False,
     bu_balanced_ramp_verified = False, bu_running_verified = False, bu_sensors_configured_us = 0,
     bu_clocks_configured_us = 0, bu_clock_mhz = Fin 0, bu_domain_clock_mhz = replicate 8 (Fin 0) \<rparr>"

text \<open>The gap count is a build option, \<open>CONFIG_BZM_1002_SENSOR_TDM_GAP_COUNT\<close>.\<close>

definition bzm_bringup_reference_sensor_profile :: "u8 \<Rightarrow> bzm_bringup_sensor_profile_t" where
  "bzm_bringup_reference_sensor_profile config_gap_count = \<lparr>
     sp_slow_clock_divider = BZM_REFERENCE_SLOW_CLOCK_DIVIDER,
     sp_tdm_slot_bit_count = BZM_REFERENCE_TDM_SLOT_BIT_COUNT,
     sp_tdm_slot_count = BZM_REFERENCE_TDM_SLOT_COUNT,
     sp_tdm_delay = BZM_REFERENCE_TDM_DELAY,
     sp_sensor_clock_divider = BZM_REFERENCE_SENSOR_DIVIDER,
     sp_tdm_gap_count = config_gap_count,
     sp_thermal_threshold_count = BZM_REFERENCE_THRESHOLD_COUNT,
     sp_voltage_threshold_count = BZM_REFERENCE_THRESHOLD_COUNT,
     sp_thermal_trip_code = 2650,
     sp_voltage_ch0_shutdown_code = 7561,
     sp_voltage_ch1_shutdown_code = 7561,
     sp_settle_delay_ms = 10 \<rparr>"

definition bzm_bringup_pll_800_profile :: bzm_bringup_pll_profile_t where
  "bzm_bringup_pll_800_profile = \<lparr> pp_target_mhz = 800, pp_reference_mhz = 50, pp_reference_divider = 2, pp_post1_divider = 1,
     pp_post2_divider = 1, pp_feedback_divider = 128, pp_postdiv_register = 0x1242, pp_lock_attempts = 30,
     pp_lock_poll_delay_ms = 100 \<rparr>"

definition bzm_bringup_reference_tdm_control :: u32 where
  "bzm_bringup_reference_tdm_control =
     push_bit 9 BZM_REFERENCE_TDM_SLOT_BIT_COUNT OR push_bit 1 BZM_REFERENCE_TDM_SLOT_COUNT OR 1"

definition bzm_bringup_outcome_name :: "bzm_bringup_outcome_t \<Rightarrow> string" where
  "bzm_bringup_outcome_name outcome =
     (case outcome of BZM_BRINGUP_GOOD \<Rightarrow> ''GOOD'' | BZM_BRINGUP_BAD \<Rightarrow> ''BAD'' | BZM_BRINGUP_BLOCKED \<Rightarrow> ''BLOCKED'')"

definition bzm_bringup_reason_name :: "bzm_bringup_reason_t \<Rightarrow> string" where
  "bzm_bringup_reason_name reason =
     (case reason of
        BZM_BRINGUP_REASON_NONE \<Rightarrow> ''none''
      | BZM_BRINGUP_REASON_INVALID_ARGUMENT \<Rightarrow> ''invalid_argument''
      | BZM_BRINGUP_REASON_PREREQUISITE \<Rightarrow> ''prerequisite''
      | BZM_BRINGUP_REASON_CAPABILITY_UNAVAILABLE \<Rightarrow> ''capability_unavailable''
      | BZM_BRINGUP_REASON_IO \<Rightarrow> ''io''
      | BZM_BRINGUP_REASON_CHAIN_MISSING \<Rightarrow> ''chain_missing''
      | BZM_BRINGUP_REASON_CHAIN_ID_MISMATCH \<Rightarrow> ''chain_id_mismatch''
      | BZM_BRINGUP_REASON_CHAIN_EXTRA_ASIC \<Rightarrow> ''chain_extra_asic''
      | BZM_BRINGUP_REASON_REGISTER_READBACK \<Rightarrow> ''register_readback''
      | BZM_BRINGUP_REASON_TELEMETRY_MISSING \<Rightarrow> ''telemetry_missing''
      | BZM_BRINGUP_REASON_TELEMETRY_PRECONFIG \<Rightarrow> ''telemetry_preconfig''
      | BZM_BRINGUP_REASON_TELEMETRY_STALE \<Rightarrow> ''telemetry_stale''
      | BZM_BRINGUP_REASON_TELEMETRY_UNSAFE \<Rightarrow> ''telemetry_unsafe''
      | BZM_BRINGUP_REASON_PLL_UNLOCKED \<Rightarrow> ''pll_unlocked''
      | BZM_BRINGUP_REASON_TOPOLOGY \<Rightarrow> ''topology''
      | BZM_BRINGUP_REASON_BALANCED_PAIR_UNAVAILABLE \<Rightarrow> ''balanced_pair_unavailable''
      | BZM_BRINGUP_REASON_BALANCED_PAIR_COMMIT \<Rightarrow> ''balanced_pair_commit''
      | BZM_BRINGUP_REASON_ACTIVATION_BARRIER \<Rightarrow> ''activation_barrier''
      | BZM_BRINGUP_REASON_BALANCED_BATCH \<Rightarrow> ''balanced_batch'')"

definition basic_ops_are_valid :: "'c bzm_bringup_ops_t \<Rightarrow> bool" where
  "basic_ops_are_valid ops \<longleftrightarrow> bo_write_u32 ops \<noteq> None \<and> bo_read_u32 ops \<noteq> None"

definition telemetry_policy_is_valid :: "bzm_bringup_telemetry_policy_t option \<Rightarrow> bool" where
  "telemetry_policy_is_valid policy =
     (case policy of None \<Rightarrow> False
      | Some policy \<Rightarrow>
          (let b = py_bounds policy
           in py_max_age_us policy \<noteq> 0 \<and> py_ch2_confirm_samples policy \<noteq> 0 \<and>
              py_ch2_confirm_samples policy \<le> BZM_CH2_CONFIRM_MAX_SAMPLES \<and> isfinite (tb_temperature_min_c b) \<and>
              isfinite (tb_temperature_max_c b) \<and> isfinite (tb_ch0_min_mv b) \<and> isfinite (tb_ch0_max_mv b) \<and>
              isfinite (tb_ch1_min_mv b) \<and> isfinite (tb_ch1_max_mv b) \<and> isfinite (tb_ch2_abs_max_mv b) \<and>
              isfinite (tb_max_stack_spread_mv b) \<and> flt_le (tb_temperature_min_c b) (tb_temperature_max_c b) \<and>
              flt_le (tb_ch0_min_mv b) (tb_ch0_max_mv b) \<and> flt_le (tb_ch1_min_mv b) (tb_ch1_max_mv b) \<and>
              flt_le (Fin 0) (tb_ch2_abs_max_mv b) \<and> flt_le (Fin 0) (tb_max_stack_spread_mv b)))"

section \<open>Model: the chain\<close>

text \<open>The answer to the NOOP at the default address, asked for at most the given number of times.\<close>

fun probe_loop :: "'c bzm_bringup_ops_t \<Rightarrow> nat \<Rightarrow> ('c, bzm_bringup_probe_result_t) bringup" where
  "probe_loop ops 0 = br_return BZM_BRINGUP_PROBE_NO_RESPONSE"
| "probe_loop ops (Suc attempts) =
     br_bind (br_probe ops BZM_BROADCAST_ASIC)
       (\<lambda>probe. if probe \<noteq> BZM_BRINGUP_PROBE_NO_RESPONSE then br_return probe
                else if attempts = 0 then br_return probe
                else br_bind (br_delay ops BZM_CHAIN_NOOP_RETRY_DELAY_MS) (\<lambda>_. probe_loop ops attempts))"

definition assign_asic :: "'c bzm_bringup_ops_t \<Rightarrow> nat \<Rightarrow> ('c, unit) bringup" where
  "assign_asic ops index =
     (let asic_id = bzm_asic_wire_ids ! index;
          programmed_id = ucast asic_id OR (if index = 0 then 0 else push_bit 8 1);
          expected_readback = ucast asic_id OR push_bit 8 1
      in br_bind (probe_loop ops BZM_CHAIN_NOOP_ATTEMPTS)
           (\<lambda>probe.
              if probe \<noteq> BZM_BRINGUP_PROBE_RESPONSE
              then set_report BZM_BRINGUP_BAD
                     (if probe = BZM_BRINGUP_PROBE_NO_RESPONSE then BZM_BRINGUP_REASON_CHAIN_MISSING else BZM_BRINGUP_REASON_IO)
                     asic_id 0 BZM_LOCAL_REG_ASIC_ID (probe_code BZM_BRINGUP_PROBE_RESPONSE) (probe_code probe) (of_nat index)
              else br_bind (br_write ops BZM_BROADCAST_ASIC BZM_LOCAL_REG_ASIC_ID programmed_id)
                (\<lambda>ok.
                   if \<not> ok
                   then set_report BZM_BRINGUP_BAD BZM_BRINGUP_REASON_IO asic_id 0 BZM_LOCAL_REG_ASIC_ID programmed_id 0 (of_nat index)
                   else br_bind (br_delay ops 200)
                     (\<lambda>_. br_bind (br_read ops asic_id BZM_LOCAL_REG_ASIC_ID)
                       (\<lambda>readback.
                          case readback of
                            None \<Rightarrow> set_report BZM_BRINGUP_BAD BZM_BRINGUP_REASON_IO asic_id 0 BZM_LOCAL_REG_ASIC_ID
                                      expected_readback 0 (of_nat index)
                          | Some readback \<Rightarrow>
                              if readback \<noteq> expected_readback
                              then set_report BZM_BRINGUP_BAD BZM_BRINGUP_REASON_CHAIN_ID_MISMATCH asic_id 0
                                     BZM_LOCAL_REG_ASIC_ID expected_readback readback (of_nat index)
                              else br_return ())))))"

definition bzm_bringup_stage_chain4 :: "'c bzm_bringup_ops_t \<Rightarrow> 'c bringup_world \<Rightarrow> bzm_bringup_outcome_t \<times> 'c bringup_world" where
  "bzm_bringup_stage_chain4 ops = br_outcome_of
     (if \<not> basic_ops_are_valid ops \<or> bo_probe_noop ops = None
      then set_report BZM_BRINGUP_BAD BZM_BRINGUP_REASON_INVALID_ARGUMENT 0 0 0 0 0 0
      else br_bind (br_modify clear_after_chain)
        (\<lambda>_. br_bind (br_for [0..<BZM_BRINGUP_ASIC_COUNT] (assign_asic ops))
          (\<lambda>_. br_bind (br_probe ops BZM_BROADCAST_ASIC)
            (\<lambda>extra_probe.
               if extra_probe = BZM_BRINGUP_PROBE_RESPONSE
               then set_report BZM_BRINGUP_BAD BZM_BRINGUP_REASON_CHAIN_EXTRA_ASIC BZM_BROADCAST_ASIC 0 BZM_LOCAL_REG_ASIC_ID
                      (probe_code BZM_BRINGUP_PROBE_NO_RESPONSE) (probe_code extra_probe) 4
               else if extra_probe = BZM_BRINGUP_PROBE_IO_ERROR
               then set_report BZM_BRINGUP_BAD BZM_BRINGUP_REASON_IO BZM_BROADCAST_ASIC 0 BZM_LOCAL_REG_ASIC_ID
                      (probe_code BZM_BRINGUP_PROBE_NO_RESPONSE) (probe_code extra_probe) 4
               else br_bind (br_modify (\<lambda>state. state\<lparr> bu_chain_verified := True \<rparr>))
                 (\<lambda>_. set_report BZM_BRINGUP_GOOD BZM_BRINGUP_REASON_NONE BZM_BRINGUP_LAST_ASIC_ID 0 BZM_LOCAL_REG_ASIC_ID 4 4 4)))))"

section \<open>Model: registers and telemetry\<close>

definition sensor_profile_is_valid :: "bzm_bringup_sensor_profile_t option \<Rightarrow> bool" where
  "sensor_profile_is_valid profile =
     (case profile of None \<Rightarrow> False
      | Some profile \<Rightarrow>
          (sp_slow_clock_divider profile = 2 \<or> sp_slow_clock_divider profile = 4 \<or> sp_slow_clock_divider profile = 8 \<or>
           sp_slow_clock_divider profile = 16) \<and>
          sp_tdm_slot_bit_count profile \<ge> 100 \<and> sp_tdm_slot_count profile > BZM_BRINGUP_LAST_ASIC_ID \<and>
          sp_tdm_delay profile \<le> 3 \<and> sp_sensor_clock_divider profile \<ge> 2 \<and> sp_sensor_clock_divider profile \<le> 16 \<and>
          sp_tdm_gap_count profile \<le> 63 \<and> sp_thermal_trip_code profile \<le> 0x0fff \<and>
          sp_voltage_ch0_shutdown_code profile \<le> 0x3fff \<and> sp_voltage_ch1_shutdown_code profile \<le> 0x3fff)"

text \<open>One register read back; the report of a failure names the PLL given.\<close>

definition expect_register :: "'c bzm_bringup_ops_t \<Rightarrow> u8 \<Rightarrow> u8 \<Rightarrow> u16 \<Rightarrow> u8 \<times> u32 \<Rightarrow> ('c, unit) bringup" where
  "expect_register ops asic_id pll completed_items = (\<lambda>(offset, value).
     br_bind (br_read ops asic_id offset)
       (\<lambda>actual.
          case actual of
            None \<Rightarrow> set_report BZM_BRINGUP_BAD BZM_BRINGUP_REASON_IO asic_id pll offset value 0 completed_items
          | Some actual \<Rightarrow>
              if actual \<noteq> value
              then set_report BZM_BRINGUP_BAD BZM_BRINGUP_REASON_REGISTER_READBACK asic_id pll offset value actual completed_items
              else br_return ()))"

definition write_and_verify_registers :: "'c bzm_bringup_ops_t \<Rightarrow> u8 \<Rightarrow> (u8 \<times> u32) list \<Rightarrow> u16 \<Rightarrow> ('c, unit) bringup" where
  "write_and_verify_registers ops asic_id registers completed_items =
     br_bind
       (br_for registers (\<lambda>(offset, value). br_bind (br_write ops asic_id offset value)
          (\<lambda>ok. if \<not> ok then set_report BZM_BRINGUP_BAD BZM_BRINGUP_REASON_IO asic_id 0 offset value 0 completed_items
                else br_return ())))
       (\<lambda>_. br_for registers (expect_register ops asic_id 0 completed_items))"

definition verify_sample ::
    "bzm_telemetry_store_t \<Rightarrow> u64 \<Rightarrow> u64 \<Rightarrow> bzm_bringup_telemetry_policy_t \<Rightarrow> bool \<Rightarrow> nat \<Rightarrow> ('c, unit) bringup" where
  "verify_sample store now_us configured_after_us policy require_clock_locks index =
     (let asic_id = bzm_asic_wire_ids ! index
      in case bzm_telemetry_store_get (Some store) asic_id of
           None \<Rightarrow> set_report BZM_BRINGUP_BAD BZM_BRINGUP_REASON_TELEMETRY_MISSING asic_id 0 0 1 0 (of_nat index)
         | Some sample \<Rightarrow>
             if \<not> ts_received sample
             then set_report BZM_BRINGUP_BAD BZM_BRINGUP_REASON_TELEMETRY_MISSING asic_id 0 0 1 0 (of_nat index)
             else if ts_timestamp_us sample < configured_after_us
             then set_report BZM_BRINGUP_BAD BZM_BRINGUP_REASON_TELEMETRY_PRECONFIG asic_id 0 0 (ucast configured_after_us)
                    (ucast (ts_timestamp_us sample)) (of_nat index)
             else if \<not> bzm_telemetry_sample_is_fresh (Some sample) now_us (py_max_age_us policy)
             then set_report BZM_BRINGUP_BAD BZM_BRINGUP_REASON_TELEMETRY_STALE asic_id 0 0 (ucast (py_max_age_us policy))
                    (ucast (if now_us \<ge> ts_timestamp_us sample then now_us - ts_timestamp_us sample else UINT64_MAX)) (of_nat index)
             else if \<not> bzm_telemetry_sample_is_safe_except_ch2 (Some sample) now_us (py_max_age_us policy)
                        (Some (py_bounds policy)) require_clock_locks
             then set_report BZM_BRINGUP_BAD BZM_BRINGUP_REASON_TELEMETRY_UNSAFE asic_id 0 0 1 0 (of_nat index)
             else br_return ())"

definition verify_telemetry_snapshot ::
    "bzm_telemetry_store_t \<Rightarrow> u64 \<Rightarrow> u64 \<Rightarrow> bzm_bringup_telemetry_policy_t \<Rightarrow> bool \<Rightarrow> ('c, unit) bringup" where
  "verify_telemetry_snapshot store now_us configured_after_us policy require_clock_locks =
     br_for [0..<BZM_BRINGUP_ASIC_COUNT] (verify_sample store now_us configured_after_us policy require_clock_locks)"

definition all_post_configuration :: "bzm_telemetry_store_t \<Rightarrow> u64 \<Rightarrow> bool" where
  "all_post_configuration store configured_after_us =
     list_all (\<lambda>index. case bzm_telemetry_store_get (Some store) (bzm_asic_wire_ids ! index) of None \<Rightarrow> False
                | Some sample \<Rightarrow> ts_received sample \<and> \<not> ts_timestamp_us sample < configured_after_us)
       [0..<BZM_BRINGUP_ASIC_COUNT]"

text \<open>The snapshot taken last, after at most the given number of further ones.\<close>

fun acquire_loop :: "'c bzm_bringup_ops_t \<Rightarrow> u64 \<Rightarrow> nat \<Rightarrow> bzm_telemetry_store_t \<Rightarrow> ('c, bzm_telemetry_store_t) bringup" where
  "acquire_loop ops configured_after_us 0 store = br_return store"
| "acquire_loop ops configured_after_us (Suc attempts) store =
     br_bind (br_snapshot ops store)
       (\<lambda>(ok, store).
          if \<not> ok then set_report BZM_BRINGUP_BAD BZM_BRINGUP_REASON_IO 0 0 0 0 0 0
          else if all_post_configuration store configured_after_us then br_return store
          else if attempts = 0 then br_return store
          else br_bind (br_delay ops BZM_TELEMETRY_RETRY_DELAY_MS) (\<lambda>_. acquire_loop ops configured_after_us attempts store))"

text \<open>The polling loop: the confirmation, the store, the culprit and the count go from one attempt to the next. The argument is
  the number of attempts after the current one.\<close>

definition confirmable_report ::
    "bzm_telemetry_store_t \<Rightarrow> u64 \<Rightarrow> bzm_bringup_telemetry_policy_t \<Rightarrow> bool \<Rightarrow> bzm_bringup_report_t option \<Rightarrow> bool" where
  "confirmable_report store now_us policy require_clock_locks report =
     (case report of None \<Rightarrow> False
      | Some report \<Rightarrow>
          br_reason report = BZM_BRINGUP_REASON_TELEMETRY_UNSAFE \<and> require_clock_locks \<and>
          (let sample = bzm_telemetry_store_get (Some store) (br_asic_id report)
           in sample \<noteq> None \<and> \<not> ts_pll_locked (the sample) \<and> \<not> bzm_telemetry_sample_has_immediate_trip sample \<and>
              bzm_telemetry_sample_is_safe_except_ch2 sample now_us (py_max_age_us policy) (Some (py_bounds policy)) False))"

fun confirm_loop ::
    "'c bzm_bringup_ops_t \<Rightarrow> bzm_bringup_telemetry_policy_t \<Rightarrow> u64 \<Rightarrow> bool \<Rightarrow> nat \<Rightarrow>
     bzm_telemetry_confirmation_t option \<Rightarrow> bzm_telemetry_store_t \<Rightarrow> ('c, unit) bringup" where
  "confirm_loop ops policy configured_after_us require_clock_locks attempts confirmation store =
     br_bind (br_now ops)
       (\<lambda>snapshot_now_us. br_attempt
          (verify_telemetry_snapshot store snapshot_now_us configured_after_us policy require_clock_locks)
          (\<lambda>outcome report.
             if \<not> (outcome = BZM_BRINGUP_GOOD \<or> outcome = BZM_BRINGUP_BAD \<and>
                    confirmable_report store snapshot_now_us policy require_clock_locks report)
             then br_exit outcome
             else
               case bzm_telemetry_confirmation_observe confirmation (Some store) snapshot_now_us (py_max_age_us policy)
                      (Some (py_bounds policy)) require_clock_locks (py_ch2_confirm_samples policy) of
                 (confirmation, culprit_asic_id, observed_samples, result) \<Rightarrow>
                   let report_unsafe = set_report BZM_BRINGUP_BAD BZM_BRINGUP_REASON_TELEMETRY_UNSAFE culprit_asic_id 0 0
                         (ucast (py_ch2_confirm_samples policy)) (ucast observed_samples) 0
                   in if result = BZM_CH2_CONFIRMATION_GOOD then br_return ()
                      else if result = BZM_CH2_CONFIRMATION_CONTINUOUS \<or> result = BZM_CH2_CONFIRMATION_INVALID then report_unsafe
                      else if bo_delay_ms ops = None
                      then set_report BZM_BRINGUP_BLOCKED BZM_BRINGUP_REASON_CAPABILITY_UNAVAILABLE culprit_asic_id 0 0
                             (ucast (py_ch2_confirm_samples policy)) (ucast observed_samples) 0
                      else
                        (case attempts of
                           0 \<Rightarrow> report_unsafe
                         | Suc attempts \<Rightarrow>
                             br_bind (br_delay ops BZM_TELEMETRY_RETRY_DELAY_MS)
                               (\<lambda>_. br_bind (br_snapshot ops store)
                                 (\<lambda>(ok, store).
                                    if \<not> ok
                                    then set_report BZM_BRINGUP_BAD BZM_BRINGUP_REASON_IO culprit_asic_id 0 0
                                           (ucast (py_ch2_confirm_samples policy)) (ucast observed_samples) 0
                                    else confirm_loop ops policy configured_after_us require_clock_locks attempts
                                           confirmation store)))))"

declare confirm_loop.simps [simp del]

text \<open>The store begins as zeroes.\<close>

definition verify_telemetry ::
    "'c bzm_bringup_ops_t \<Rightarrow> bzm_bringup_telemetry_policy_t \<Rightarrow> u64 \<Rightarrow> bool \<Rightarrow> ('c, unit) bringup" where
  "verify_telemetry ops policy configured_after_us require_clock_locks =
     (if bo_telemetry_snapshot ops = None \<or> bo_now_us ops = None
      then set_report BZM_BRINGUP_BLOCKED BZM_BRINGUP_REASON_CAPABILITY_UNAVAILABLE 0 0 0 0 0 0
      else br_bind (acquire_loop ops configured_after_us BZM_TELEMETRY_ACQUIRE_ATTEMPTS (replicate BZM_MAX_ASIC_COUNT zero_sample))
        (\<lambda>store. confirm_loop ops policy configured_after_us require_clock_locks
                   (unat (py_ch2_confirm_samples policy) * BZM_BRINGUP_ASIC_COUNT) (Some bzm_telemetry_confirmation_init) store))"

section \<open>Model: sensors\<close>

definition sensor_tdm_control :: "bzm_bringup_sensor_profile_t \<Rightarrow> u32" where
  "sensor_tdm_control profile =
     push_bit 9 (ucast (sp_tdm_slot_bit_count profile)) OR push_bit 1 (ucast (sp_tdm_slot_count profile)) OR 1"

definition sensor_registers :: "bzm_bringup_sensor_profile_t \<Rightarrow> u32 \<Rightarrow> (u8 \<times> u32) list" where
  "sensor_registers profile bandgap =
     [(BZM_LOCAL_REG_UART_TDM_CONTROL, sensor_tdm_control profile AND NOT 1),
      (BZM_LOCAL_REG_UART_TX, 0x0f),
      (BZM_LOCAL_REG_SLOW_CLOCK_DIVIDER, ucast (sp_slow_clock_divider profile)),
      (BZM_LOCAL_REG_TDM_DELAY, ucast (sp_tdm_delay profile)),
      (BZM_LOCAL_REG_SENSOR_CLOCK_DIVIDER,
       push_bit 5 (ucast (sp_sensor_clock_divider profile)) OR ucast (sp_sensor_clock_divider profile)),
      (BZM_LOCAL_REG_DTS_RESET_POWERDOWN, push_bit 8 1),
      (BZM_LOCAL_REG_SENSOR_TDM_GAP_COUNT, ucast (sp_tdm_gap_count profile)),
      (BZM_LOCAL_REG_DTS_CONFIG, 0),
      (BZM_LOCAL_REG_SENSOR_THRESHOLD_COUNT,
       push_bit 16 (ucast (sp_thermal_threshold_count profile)) OR ucast (sp_voltage_threshold_count profile)),
      (BZM_LOCAL_REG_TEMPERATURE_TUNE_CODE, 0x8001 OR push_bit 1 (ucast (sp_thermal_trip_code profile))),
      (BZM_LOCAL_REG_BANDGAP, (bandgap AND NOT 0x0f) OR 0x03),
      (BZM_LOCAL_REG_VSENSOR_RESET_POWERDOWN, push_bit 8 1),
      (BZM_LOCAL_REG_VSENSOR_CONFIG, push_bit 28 8 OR push_bit 24 1),
      (BZM_LOCAL_REG_VSENSOR_CONTROL,
       push_bit 16 (ucast (sp_voltage_ch1_shutdown_code profile)) OR
       push_bit 1 (ucast (sp_voltage_ch0_shutdown_code profile)) OR 1)]"

definition configure_sensors :: "'c bzm_bringup_ops_t \<Rightarrow> bzm_bringup_sensor_profile_t \<Rightarrow> nat \<Rightarrow> ('c, unit) bringup" where
  "configure_sensors ops profile index =
     (let asic_id = bzm_asic_wire_ids ! index
      in br_bind (br_read ops asic_id BZM_LOCAL_REG_BANDGAP)
           (\<lambda>bandgap.
              case bandgap of
                None \<Rightarrow> set_report BZM_BRINGUP_BAD BZM_BRINGUP_REASON_IO asic_id 0 BZM_LOCAL_REG_BANDGAP 0 0 (of_nat index)
              | Some bandgap \<Rightarrow> write_and_verify_registers ops asic_id (sensor_registers profile bandgap) (of_nat index)))"

definition bzm_bringup_stage_sensors ::
    "'c bzm_bringup_ops_t \<Rightarrow> bzm_bringup_sensor_profile_t option \<Rightarrow> bzm_bringup_telemetry_policy_t option
     \<Rightarrow> 'c bringup_world \<Rightarrow> bzm_bringup_outcome_t \<times> 'c bringup_world" where
  "bzm_bringup_stage_sensors ops profile_opt policy_opt = br_outcome_of
     (if \<not> basic_ops_are_valid ops \<or> \<not> sensor_profile_is_valid profile_opt \<or> \<not> telemetry_policy_is_valid policy_opt
      then set_report BZM_BRINGUP_BAD BZM_BRINGUP_REASON_INVALID_ARGUMENT 0 0 0 0 0 0
      else
        (let profile = the profile_opt; policy = the policy_opt; tdm_control = sensor_tdm_control profile
         in br_bind (br_get bu_chain_verified)
              (\<lambda>chain_verified.
                 if \<not> chain_verified then set_report BZM_BRINGUP_BLOCKED BZM_BRINGUP_REASON_PREREQUISITE 0 0 0 1 0 0
                 else if bo_now_us ops = None \<or> bo_telemetry_snapshot ops = None
                 then set_report BZM_BRINGUP_BLOCKED BZM_BRINGUP_REASON_CAPABILITY_UNAVAILABLE 0 0 0 0 0 0
                 else br_all
                   [br_modify clear_after_sensors,
                    br_for [0..<BZM_BRINGUP_ASIC_COUNT] (configure_sensors ops profile),
                    write_and_verify_registers ops BZM_BRINGUP_FIRST_ASIC_ID
                      [(BZM_LOCAL_REG_IO_PEPS_DRIVE_STRENGTH, BZM_REFERENCE_BIRDS_IO_PEPS_DRIVE_STRENGTH)] 0,
                    br_bind (br_write ops BZM_ALL_ASICS BZM_LOCAL_REG_UART_TDM_CONTROL tdm_control)
                      (\<lambda>ok. if \<not> ok
                            then set_report BZM_BRINGUP_BAD BZM_BRINGUP_REASON_IO BZM_ALL_ASICS 0 BZM_LOCAL_REG_UART_TDM_CONTROL
                                   tdm_control 0 0
                            else br_return ()),
                    br_bind (br_now ops) (\<lambda>now_us. br_modify (\<lambda>state. state\<lparr> bu_sensors_configured_us := now_us \<rparr>)),
                    br_delay ops (ucast (sp_settle_delay_ms profile)),
                    br_bind (br_get bu_sensors_configured_us)
                      (\<lambda>configured_us. verify_telemetry ops policy configured_us False),
                    br_modify (\<lambda>state. state\<lparr> bu_sensors_verified := True \<rparr>),
                    set_report BZM_BRINGUP_GOOD BZM_BRINGUP_REASON_NONE BZM_BRINGUP_LAST_ASIC_ID 0 0 4 4 4])))"

section \<open>Model: clocks\<close>

definition pll_profile_is_exact_800 :: "bzm_bringup_pll_profile_t option \<Rightarrow> bool" where
  "pll_profile_is_exact_800 profile =
     (case profile of None \<Rightarrow> False
      | Some profile \<Rightarrow>
          pp_target_mhz profile = 800 \<and> pp_reference_mhz profile = 50 \<and> pp_reference_divider profile = 2 \<and>
          pp_post1_divider profile = 1 \<and> pp_post2_divider profile = 1 \<and> pp_feedback_divider profile = 128 \<and>
          pp_postdiv_register profile = 0x1242 \<and> pp_lock_attempts profile \<noteq> 0)"

definition pll_register :: "nat \<Rightarrow> u8 \<Rightarrow> u8" where
  "pll_register pll pll0_register = (if pll = 0 then pll0_register else pll0_register + 0x0a)"

definition set_all_domain_clocks :: "bzm_bringup_state_t \<Rightarrow> cfloat \<Rightarrow> bzm_bringup_state_t" where
  "set_all_domain_clocks state mhz =
     state\<lparr> bu_domain_clock_mhz := replicate (BZM_BRINGUP_ASIC_COUNT * BZM_BRINGUP_PLL_COUNT) mhz, bu_clock_mhz := mhz \<rparr>"

definition average_domain_clocks :: "bzm_bringup_state_t \<Rightarrow> cfloat" where
  "average_domain_clocks state = flt_divc (fold (\<lambda>mhz total. flt_add total mhz) (bu_domain_clock_mhz state) (Fin 0)) 8"

text \<open>The report of a failed write; the register it names need not be the one written.\<close>

definition write_or_fail :: "'c bzm_bringup_ops_t \<Rightarrow> u8 \<Rightarrow> nat \<Rightarrow> u16 \<Rightarrow> u8 \<times> u32 \<Rightarrow> u8 \<times> u32 \<Rightarrow> ('c, unit) bringup" where
  "write_or_fail ops asic_id pll completed = (\<lambda>(offset, value) (named_offset, named_value).
     br_bind (br_write ops asic_id offset value)
       (\<lambda>ok. if \<not> ok then set_report BZM_BRINGUP_BAD BZM_BRINGUP_REASON_IO asic_id (of_nat pll) named_offset named_value 0 completed
             else br_return ()))"

text \<open>Whether both PLLs are locked, and the last values of their enable registers.\<close>

fun lock_loop ::
    "'c bzm_bringup_ops_t \<Rightarrow> bzm_bringup_pll_profile_t \<Rightarrow> nat \<Rightarrow> nat \<Rightarrow> u32 list \<Rightarrow> ('c, u32 list) bringup" where
  "lock_loop ops profile index 0 enable_values = br_return enable_values"
| "lock_loop ops profile index (Suc attempts) enable_values =
     (let locked = (\<lambda>values. list_all (\<lambda>value. value AND BZM_PLL_LOCK_MASK = BZM_PLL_LOCK_MASK) values);
          asic_id = bzm_asic_wire_ids ! index
      in if locked enable_values then br_return enable_values
         else br_bind
           (br_fold (\<lambda>pll values.
              br_bind (br_read ops asic_id (pll_register pll BZM_LOCAL_REG_PLL0_ENABLE))
                (\<lambda>value.
                   case value of
                     None \<Rightarrow> set_report BZM_BRINGUP_BAD BZM_BRINGUP_REASON_IO asic_id (of_nat pll)
                               (pll_register pll BZM_LOCAL_REG_PLL0_ENABLE) BZM_PLL_LOCK_MASK 0 (of_nat index)
                   | Some value \<Rightarrow> br_return (values[pll := value])))
              [0..<BZM_BRINGUP_PLL_COUNT] enable_values)
           (\<lambda>values. br_bind (if locked values then br_return () else br_delay ops (ucast (pp_lock_poll_delay_ms profile)))
              (\<lambda>_. lock_loop ops profile index attempts values)))"

definition configure_clocks :: "'c bzm_bringup_ops_t \<Rightarrow> bzm_bringup_pll_profile_t \<Rightarrow> u8 \<Rightarrow> nat \<Rightarrow> ('c, unit) bringup" where
  "configure_clocks ops profile config_gap_count index =
     (let asic_id = bzm_asic_wire_ids ! index; plls = [0..<BZM_BRINGUP_PLL_COUNT];
          enable = (\<lambda>pll. pll_register pll BZM_LOCAL_REG_PLL0_ENABLE);
          feedback = (\<lambda>pll. (pll_register pll BZM_LOCAL_REG_PLL0_FBDIV, ucast (pp_feedback_divider profile) :: u32));
          postdiv = (\<lambda>pll. (pll_register pll BZM_LOCAL_REG_PLL0_POSTDIV, pp_postdiv_register profile));
          write = (\<lambda>pll. write_or_fail ops asic_id pll (of_nat index))
      in br_all
           [br_for plls (\<lambda>pll. write pll (enable pll, 0) (enable pll, 0)),
            br_for plls (\<lambda>pll. br_all [write pll (feedback pll) (feedback pll), write pll (postdiv pll) (feedback pll)]),
            br_delay ops 1,
            br_for plls (\<lambda>pll. write pll (enable pll, BZM_PLL_ENABLE_VALUE) (enable pll, BZM_PLL_ENABLE_VALUE)),
            br_for plls (\<lambda>pll. br_for [feedback pll, postdiv pll] (expect_register ops asic_id (of_nat pll) (of_nat index))),
            br_bind (lock_loop ops profile index (unat (pp_lock_attempts profile)) [0, 0])
              (\<lambda>values. br_for plls
                 (\<lambda>pll. if values ! pll AND BZM_PLL_LOCK_MASK \<noteq> BZM_PLL_LOCK_MASK
                        then set_report BZM_BRINGUP_BAD BZM_BRINGUP_REASON_PLL_UNLOCKED asic_id (of_nat pll) (enable pll)
                               BZM_PLL_LOCK_MASK (values ! pll AND BZM_PLL_LOCK_MASK) (of_nat index)
                        else br_return ())),
            write_and_verify_registers ops asic_id [(BZM_LOCAL_REG_DLL0_CONTROL_5, 0), (BZM_LOCAL_REG_DLL1_CONTROL_5, 0)] (of_nat index),
            br_for
              [(BZM_LOCAL_REG_UART_TDM_CONTROL, bzm_bringup_reference_tdm_control AND NOT 1),
               (BZM_LOCAL_REG_SLOW_CLOCK_DIVIDER, BZM_REFERENCE_SLOW_CLOCK_DIVIDER),
               (BZM_LOCAL_REG_TDM_DELAY, BZM_REFERENCE_TDM_DELAY),
               (BZM_LOCAL_REG_UART_TX, 0x0f),
               (BZM_LOCAL_REG_SENSOR_TDM_GAP_COUNT, ucast config_gap_count),
               (BZM_LOCAL_REG_SENSOR_CLOCK_DIVIDER, push_bit 5 BZM_REFERENCE_SENSOR_DIVIDER OR BZM_REFERENCE_SENSOR_DIVIDER)]
              (expect_register ops asic_id 0 (of_nat index))])"

definition quiet_tdm :: "'c bzm_bringup_ops_t \<Rightarrow> ('c, unit) bringup" where
  "quiet_tdm ops =
     (let quiet = bzm_bringup_reference_tdm_control AND NOT 1
      in br_bind (write_or_fail ops BZM_ALL_ASICS 0 0 (BZM_LOCAL_REG_UART_TDM_CONTROL, quiet) (BZM_LOCAL_REG_UART_TDM_CONTROL, quiet))
           (\<lambda>_. br_for [0..<BZM_BRINGUP_ASIC_COUNT]
              (\<lambda>index. expect_register ops (bzm_asic_wire_ids ! index) 0 (of_nat index) (BZM_LOCAL_REG_UART_TDM_CONTROL, quiet))))"

definition bzm_bringup_stage_clocks ::
    "'c bzm_bringup_ops_t \<Rightarrow> u8 \<Rightarrow> bzm_bringup_pll_profile_t option \<Rightarrow> bzm_bringup_telemetry_policy_t option
     \<Rightarrow> 'c bringup_world \<Rightarrow> bzm_bringup_outcome_t \<times> 'c bringup_world" where
  "bzm_bringup_stage_clocks ops config_gap_count profile_opt policy_opt = br_outcome_of
     (if \<not> basic_ops_are_valid ops \<or> \<not> pll_profile_is_exact_800 profile_opt \<or> \<not> telemetry_policy_is_valid policy_opt
      then set_report BZM_BRINGUP_BAD BZM_BRINGUP_REASON_INVALID_ARGUMENT 0 0 0 800
             (case profile_opt of None \<Rightarrow> 0 | Some profile \<Rightarrow> ucast (pp_target_mhz profile)) 0
      else
        (let profile = the profile_opt; policy = the policy_opt; tdm_control = bzm_bringup_reference_tdm_control
         in br_bind (br_get bu_sensors_verified)
              (\<lambda>sensors_verified.
                 if \<not> sensors_verified then set_report BZM_BRINGUP_BLOCKED BZM_BRINGUP_REASON_PREREQUISITE 0 0 0 1 0 0
                 else if bo_now_us ops = None \<or> bo_telemetry_snapshot ops = None
                 then set_report BZM_BRINGUP_BLOCKED BZM_BRINGUP_REASON_CAPABILITY_UNAVAILABLE 0 0 0 0 0 0
                 else br_all
                   [br_modify clear_after_clocks,
                    quiet_tdm ops,
                    br_for [0..<BZM_BRINGUP_ASIC_COUNT] (configure_clocks ops profile config_gap_count),
                    write_or_fail ops BZM_ALL_ASICS 0 0 (BZM_LOCAL_REG_UART_TDM_CONTROL, tdm_control)
                      (BZM_LOCAL_REG_UART_TDM_CONTROL, tdm_control),
                    br_bind (br_now ops) (\<lambda>now_us. br_modify (\<lambda>state. state\<lparr> bu_clocks_configured_us := now_us \<rparr>)),
                    br_bind (br_get bu_clocks_configured_us)
                      (\<lambda>configured_us. verify_telemetry ops policy configured_us True),
                    br_modify (\<lambda>state. state\<lparr> bu_clocks_verified := True \<rparr>),
                    br_modify (\<lambda>state. set_all_domain_clocks state BZM_FREQUENCY_POWER_ON_MHZ),
                    set_report BZM_BRINGUP_GOOD BZM_BRINGUP_REASON_NONE BZM_BRINGUP_LAST_ASIC_ID 1 0 800 800 4])))"

section \<open>Model: live frequency changes\<close>

definition live_frequency_report ::
    "bzm_bringup_outcome_t \<Rightarrow> bzm_bringup_reason_t \<Rightarrow> nat \<Rightarrow> nat \<Rightarrow> u8 \<Rightarrow> u32 \<Rightarrow> u32 \<Rightarrow> u16 \<Rightarrow> ('c, 'a) bringup" where
  "live_frequency_report outcome reason asic pll offset expected actual completed =
     set_report outcome reason (if asic < BZM_BRINGUP_ASIC_COUNT then bzm_asic_wire_ids ! asic else BZM_ALL_ASICS)
       (of_nat pll) offset expected actual completed"

abbreviation rounded_mhz :: "cfloat \<Rightarrow> u32" where "rounded_mhz x \<equiv> of_int (lroundf x)"

definition live_epsilon :: cfloat where "live_epsilon = round32 (1 / 1000)"

fun await_live_lock :: "'c bzm_bringup_ops_t \<Rightarrow> nat \<Rightarrow> nat \<Rightarrow> u16 \<Rightarrow> nat \<Rightarrow> u32 \<Rightarrow> ('c, unit) bringup" where
  "await_live_lock ops asic pll completed 0 enable_value =
     live_frequency_report BZM_BRINGUP_BAD BZM_BRINGUP_REASON_PLL_UNLOCKED asic pll (pll_register pll BZM_LOCAL_REG_PLL0_ENABLE)
       BZM_PLL_LOCK_MASK (enable_value AND BZM_PLL_LOCK_MASK) completed"
| "await_live_lock ops asic pll completed (Suc attempts) enable_value =
     br_bind (br_read ops (bzm_asic_wire_ids ! asic) (pll_register pll BZM_LOCAL_REG_PLL0_ENABLE))
       (\<lambda>value.
          case value of
            None \<Rightarrow> live_frequency_report BZM_BRINGUP_BAD BZM_BRINGUP_REASON_IO asic pll
                      (pll_register pll BZM_LOCAL_REG_PLL0_ENABLE) BZM_PLL_LOCK_MASK 0 completed
          | Some value \<Rightarrow>
              if value AND BZM_PLL_LOCK_MASK = BZM_PLL_LOCK_MASK then br_return ()
              else br_bind (br_delay ops 100) (\<lambda>_. await_live_lock ops asic pll completed attempts value))"

definition verify_live_frequency_domain ::
    "'c bzm_bringup_ops_t \<Rightarrow> nat \<Rightarrow> nat \<Rightarrow> bzm_frequency_target_t \<Rightarrow> u16 \<Rightarrow> ('c, unit) bringup" where
  "verify_live_frequency_domain ops asic pll target completed =
     br_bind
       (br_for [(pll_register pll BZM_LOCAL_REG_PLL0_FBDIV, ucast (ft_feedback_divider target)),
                (pll_register pll BZM_LOCAL_REG_PLL0_POSTDIV, ft_postdiv_register target)]
          (expect_register ops (bzm_asic_wire_ids ! asic) (of_nat pll) completed))
       (\<lambda>_. await_live_lock ops asic pll completed 30 0)"

text \<open>Both dividers of one PLL, at one ASIC or all of them; a failure names the feedback divider.\<close>

definition write_dividers ::
    "'c bzm_bringup_ops_t \<Rightarrow> u8 \<Rightarrow> nat \<Rightarrow> nat \<Rightarrow> bzm_frequency_target_t \<Rightarrow> u16 \<Rightarrow> ('c, unit) bringup" where
  "write_dividers ops asic_id asic pll target completed =
     (let feedback = pll_register pll BZM_LOCAL_REG_PLL0_FBDIV;
          failed = live_frequency_report BZM_BRINGUP_BAD BZM_BRINGUP_REASON_IO asic pll feedback
            (ucast (ft_feedback_divider target)) 0 completed
      in br_bind (br_write ops asic_id feedback (ucast (ft_feedback_divider target)))
           (\<lambda>ok. if \<not> ok then failed
                 else br_bind (br_write ops asic_id (pll_register pll BZM_LOCAL_REG_PLL0_POSTDIV) (ft_postdiv_register target))
                   (\<lambda>ok. if \<not> ok then failed else br_return ())))"

definition program_live_frequency_domain ::
    "'c bzm_bringup_ops_t \<Rightarrow> nat \<Rightarrow> nat \<Rightarrow> bzm_frequency_target_t \<Rightarrow> u16 \<Rightarrow> ('c, unit) bringup" where
  "program_live_frequency_domain ops asic pll target completed =
     br_all [write_dividers ops (bzm_asic_wire_ids ! asic) asic pll target completed,
             br_delay ops 1,
             verify_live_frequency_domain ops asic pll target completed]"

text \<open>The eight domains in the order of the nested loops, with the number of each.\<close>

definition live_domains :: "(nat \<times> nat \<times> nat) list" where
  "live_domains = [(0, 0, 0), (1, 0, 1), (2, 1, 0), (3, 1, 1), (4, 2, 0), (5, 2, 1), (6, 3, 0), (7, 3, 1)]"

definition program_live_broadcast_shortcut :: "'c bzm_bringup_ops_t \<Rightarrow> bzm_frequency_target_t \<Rightarrow> ('c, unit) bringup" where
  "program_live_broadcast_shortcut ops target =
     br_all
       [br_for [0..<BZM_BRINGUP_PLL_COUNT]
          (\<lambda>pll. br_all [write_dividers ops BZM_ALL_ASICS BZM_BRINGUP_ASIC_COUNT pll target (of_nat pll), br_delay ops 1]),
        br_for live_domains (\<lambda>(k, asic, pll). verify_live_frequency_domain ops asic pll target (of_nat k))]"

record live_plan =
  lp_targets :: "bzm_frequency_target_t list"
  lp_changed :: "bool list"
  lp_shortcut_target :: cfloat

text \<open>One iteration of the first pass, over the current clocks; its results are collected in order.\<close>

definition plan_domain ::
    "cfloat list \<Rightarrow> cfloat list \<Rightarrow> bool \<Rightarrow> nat \<times> nat \<times> nat \<Rightarrow> live_plan \<Rightarrow> ('c, live_plan) bringup" where
  "plan_domain clocks target_mhz allow_initial_jump = (\<lambda>(k, asic, pll) plan.
     let current = clocks ! k; wanted = target_mhz ! k;
         refuse = (\<lambda>expected actual. live_frequency_report BZM_BRINGUP_BLOCKED BZM_BRINGUP_REASON_INVALID_ARGUMENT asic pll 0
           expected actual 0)
     in case bzm_frequency_resolve_target wanted of
          None \<Rightarrow> refuse (rounded_mhz current) (rounded_mhz (if isfinite wanted then wanted else Fin 0))
        | Some target \<Rightarrow>
            if \<not> bzm_frequency_request_is_valid current \<or>
               flt_le live_epsilon (fabsf (flt_sub (ft_actual_mhz target) wanted))
            then refuse (rounded_mhz current) (rounded_mhz (if isfinite wanted then wanted else Fin 0))
            else
              (let delta = fabsf (flt_sub (ft_actual_mhz target) current);
                   changed = flt_le live_epsilon delta;
                   plan = plan\<lparr> lp_targets := lp_targets plan @ [target], lp_changed := lp_changed plan @ [changed] \<rparr>
               in if allow_initial_jump then
                    (if flt_le live_epsilon (fabsf (flt_sub current BZM_FREQUENCY_POWER_ON_MHZ)) \<or>
                        flt_lt (ft_actual_mhz target) BZM_FREQUENCY_POWER_ON_MHZ \<or>
                        flt_lt BZM_FREQUENCY_INITIAL_MAX_MHZ (ft_actual_mhz target)
                     then refuse 800 (rounded_mhz wanted)
                     else if k = 0 then br_return (plan\<lparr> lp_shortcut_target := ft_actual_mhz target \<rparr>)
                     else if flt_le live_epsilon (fabsf (flt_sub (lp_shortcut_target plan) (ft_actual_mhz target)))
                     then refuse (rounded_mhz (lp_shortcut_target plan)) (rounded_mhz wanted)
                     else br_return plan)
                  else if changed \<and> flt_lt (flt_add BZM_FREQUENCY_RAMP_STEP_MHZ live_epsilon) delta
                  then refuse (rounded_mhz current) (rounded_mhz wanted)
                  else br_return plan))"

definition set_domain_clock :: "nat \<Rightarrow> cfloat \<Rightarrow> bzm_bringup_state_t \<Rightarrow> bzm_bringup_state_t" where
  "set_domain_clock k mhz state = state\<lparr> bu_domain_clock_mhz := (bu_domain_clock_mhz state)[k := mhz] \<rparr>"

definition update_average :: "bzm_bringup_state_t \<Rightarrow> bzm_bringup_state_t" where
  "update_average state = state\<lparr> bu_clock_mhz := average_domain_clocks state \<rparr>"

text \<open>The second pass; the average is updated before an early return too.\<close>

definition change_domain :: "'c bzm_bringup_ops_t \<Rightarrow> live_plan \<Rightarrow> nat \<times> nat \<times> nat \<Rightarrow> ('c, unit) bringup" where
  "change_domain ops plan = (\<lambda>(k, asic, pll).
     if lp_changed plan ! k then
       br_attempt (program_live_frequency_domain ops asic pll (lp_targets plan ! k) (of_nat k))
         (\<lambda>outcome _.
            if outcome \<noteq> BZM_BRINGUP_GOOD then br_bind (br_modify update_average) (\<lambda>_. br_exit outcome)
            else br_modify (set_domain_clock k (ft_actual_mhz (lp_targets plan ! k))))
     else br_return ())"

definition live_frequency_domains_step_once ::
    "'c bzm_bringup_ops_t \<Rightarrow> cfloat list option \<Rightarrow> bool \<Rightarrow> ('c, unit) bringup" where
  "live_frequency_domains_step_once ops target_opt allow_initial_jump =
     br_bind (br_get (\<lambda>state. bu_clocks_verified state \<and> bu_running_verified state))
       (\<lambda>verified.
          if \<not> basic_ops_are_valid ops \<or> target_opt = None \<or> \<not> verified
          then live_frequency_report BZM_BRINGUP_BLOCKED BZM_BRINGUP_REASON_INVALID_ARGUMENT BZM_BRINGUP_ASIC_COUNT 0 0 0 0 0
          else br_bind (br_get bu_domain_clock_mhz)
            (\<lambda>clocks. br_bind
               (br_fold (plan_domain clocks (the target_opt) allow_initial_jump) live_domains
                  \<lparr> lp_targets = [], lp_changed = [], lp_shortcut_target = Fin 0 \<rparr>)
               (\<lambda>plan. br_all
                  [if allow_initial_jump \<and> flt_lt BZM_FREQUENCY_POWER_ON_MHZ (lp_shortcut_target plan)
                   then br_bind (program_live_broadcast_shortcut ops (lp_targets plan ! 0))
                          (\<lambda>_. br_modify (\<lambda>state. set_all_domain_clocks state (lp_shortcut_target plan)))
                   else br_bind (br_for live_domains (change_domain ops plan)) (\<lambda>_. br_modify update_average),
                   br_bind (br_now ops) (\<lambda>now_us. br_modify (\<lambda>state. state\<lparr> bu_clocks_configured_us := now_us \<rparr>)),
                   br_bind (br_get bu_clock_mhz)
                     (\<lambda>clock_mhz. live_frequency_report BZM_BRINGUP_GOOD BZM_BRINGUP_REASON_NONE (BZM_BRINGUP_ASIC_COUNT - 1)
                        (BZM_BRINGUP_PLL_COUNT - 1) 0 (rounded_mhz clock_mhz) (rounded_mhz clock_mhz) 8)])))"

text \<open>At most three attempts; without a report of the caller a local one is used.\<close>

definition zero_bringup_report :: bzm_bringup_report_t where
  "zero_bringup_report = \<lparr> br_outcome = BZM_BRINGUP_GOOD, br_reason = BZM_BRINGUP_REASON_NONE, br_asic_id = 0, br_pll_index = 0,
     br_register_offset = 0, br_expected = 0, br_actual = 0, br_completed_items = 0 \<rparr>"

fun live_attempts :: "'c bzm_bringup_ops_t \<Rightarrow> cfloat list option \<Rightarrow> bool \<Rightarrow> nat \<Rightarrow> 'c bringup_world
    \<Rightarrow> bzm_bringup_outcome_t \<times> 'c bringup_world" where
  "live_attempts ops target_mhz allow_initial_jump 0 w = (BZM_BRINGUP_BAD, w)"
| "live_attempts ops target_mhz allow_initial_jump (Suc attempts) w =
     (case br_outcome_of (live_frequency_domains_step_once ops target_mhz allow_initial_jump) w of
        (outcome, w) \<Rightarrow>
          let reason = br_reason (the (bw_report w));
              transient = (outcome = BZM_BRINGUP_BAD \<and>
                (reason = BZM_BRINGUP_REASON_IO \<or> reason = BZM_BRINGUP_REASON_REGISTER_READBACK))
          in if \<not> transient \<or> attempts = 0 then (outcome, w)
             else live_attempts ops target_mhz allow_initial_jump attempts (snd (br_delay ops 10 w)))"

definition bzm_bringup_live_frequency_domains_step ::
    "'c bzm_bringup_ops_t \<Rightarrow> cfloat list option \<Rightarrow> bool \<Rightarrow> 'c bringup_world \<Rightarrow> bzm_bringup_outcome_t \<times> 'c bringup_world" where
  "bzm_bringup_live_frequency_domains_step ops target_mhz allow_initial_jump w =
     (case bw_report w of
        Some _ \<Rightarrow> live_attempts ops target_mhz allow_initial_jump 3 w
      | None \<Rightarrow>
          (case live_attempts ops target_mhz allow_initial_jump 3 (w\<lparr> bw_report := Some zero_bringup_report \<rparr>) of
             (outcome, w) \<Rightarrow> (outcome, w\<lparr> bw_report := None \<rparr>)))"

section \<open>Model: balanced ramp and start of mining\<close>

text \<open>The physical identifiers seen so far are a list; the counts are those of the bottom and the top stack.\<close>

fun engines_exact :: "nat list \<Rightarrow> u16 list \<Rightarrow> nat \<times> nat \<Rightarrow> (nat \<times> nat) option" where
  "engines_exact [] physical_seen counts = Some counts"
| "engines_exact (index # is) physical_seen (lower, upper) =
     (case bzm_topology_engine_at (of_nat index) of
        None \<Rightarrow> None
      | Some engine \<Rightarrow>
          if el_topology_index engine \<noteq> of_nat index \<or>
             unat (el_physical_id engine) \<ge> BZM_TOPOLOGY_COLUMNS * 64 \<or> el_physical_id engine \<in> set physical_seen \<or>
             \<not> bzm_topology_coordinate_is_valid (el_row engine) (el_column engine) \<or> \<not> stack_is_valid (el_stack engine)
          then None
          else engines_exact is (el_physical_id engine # physical_seen)
                 (if el_stack engine = BZM_ENGINE_STACK_BOTTOM then (lower + 1, upper) else (lower, upper + 1)))"

definition pair_exact :: "nat \<Rightarrow> bool" where
  "pair_exact index =
     (case bzm_topology_balanced_pair_at (of_nat index) of
        None \<Rightarrow> False
      | Some pair \<Rightarrow>
          ep_pair_index pair = of_nat index \<and> el_stack (ep_bottom pair) = BZM_ENGINE_STACK_BOTTOM \<and>
          el_stack (ep_top pair) = BZM_ENGINE_STACK_TOP \<and> el_stack_index (ep_bottom pair) = of_nat index \<and>
          el_stack_index (ep_top pair) = of_nat index \<and> el_physical_id (ep_bottom pair) \<noteq> el_physical_id (ep_top pair))"

definition topology_is_exact :: bool where
  "topology_is_exact =
     (case engines_exact [0..<236] [] (0, 0) of
        None \<Rightarrow> False
      | Some (lower, upper) \<Rightarrow> lower = 118 \<and> upper = 118 \<and> list_all pair_exact [0..<118])"

definition report_results :: "'c bzm_bringup_ops_t \<Rightarrow> u32 \<Rightarrow> (nat \<Rightarrow> u16) \<Rightarrow> ('c, unit) bringup" where
  "report_results ops value completed =
     br_for [0..<BZM_BRINGUP_ASIC_COUNT]
       (\<lambda>index. write_and_verify_registers ops (bzm_asic_wire_ids ! index) [(BZM_LOCAL_REG_RESULT_STATUS_CONTROL, value)]
                  (completed index))"

text \<open>One pair on all ASICs; \<open>completed\<close> is four times the number of pairs before it.\<close>

definition set_completed :: "u16 \<Rightarrow> ('c, unit) bringup \<Rightarrow> ('c, unit) bringup" where
  "set_completed completed m w =
     (case m w of
        (Inl outcome, w) \<Rightarrow> (Inl outcome, w\<lparr> bw_report := map_option (\<lambda>r. r\<lparr> br_completed_items := completed \<rparr>) (bw_report w) \<rparr>)
      | r \<Rightarrow> r)"

definition commit_batch :: "'c bzm_bringup_ops_t \<Rightarrow> bzm_bringup_telemetry_policy_t \<Rightarrow> nat \<Rightarrow> ('c, unit) bringup" where
  "commit_batch ops policy pair_index =
     (let completed = 4 * pair_index;
          batch_failed = (\<lambda>done. set_report BZM_BRINGUP_BAD BZM_BRINGUP_REASON_BALANCED_BATCH 0 0 0 1 0 (of_nat done))
      in case bzm_topology_balanced_pair_at (of_nat pair_index) of
           None \<Rightarrow> set_report BZM_BRINGUP_BAD BZM_BRINGUP_REASON_TOPOLOGY 0 0 0 (of_nat pair_index) 0 (of_nat completed)
         | Some pair \<Rightarrow> br_all
             [br_bind (br_batch_begin ops (of_nat pair_index)) (\<lambda>ok. if \<not> ok then batch_failed completed else br_return ()),
              br_for [0..<BZM_BRINGUP_ASIC_COUNT]
                (\<lambda>asic_index. br_bind (br_pair_commit ops (bzm_asic_wire_ids ! asic_index) pair)
                   (\<lambda>ok. if \<not> ok
                         then set_report BZM_BRINGUP_BAD BZM_BRINGUP_REASON_BALANCED_PAIR_COMMIT (bzm_asic_wire_ids ! asic_index)
                                0 0 (of_nat pair_index) 0 (of_nat (completed + asic_index))
                         else br_return ())),
              br_bind (br_batch_end ops (of_nat pair_index))
                (\<lambda>ok. if \<not> ok then batch_failed (completed + 4) else br_return ()),
              br_bind (br_now ops)
                (\<lambda>committed_after_us. set_completed (of_nat (completed + 4)) (verify_telemetry ops policy committed_after_us True))])"

definition bzm_bringup_stage_balanced_ramp ::
    "'c bzm_bringup_ops_t \<Rightarrow> bzm_bringup_telemetry_policy_t option \<Rightarrow> 'c bringup_world \<Rightarrow> bzm_bringup_outcome_t \<times> 'c bringup_world" where
  "bzm_bringup_stage_balanced_ramp ops policy_opt = br_outcome_of
     (br_bind (br_modify (\<lambda>state. state\<lparr> bu_balanced_ramp_verified := False, bu_running_verified := False \<rparr>))
        (\<lambda>_. br_bind (br_get bu_clocks_verified)
          (\<lambda>clocks_verified.
             if \<not> clocks_verified then set_report BZM_BRINGUP_BLOCKED BZM_BRINGUP_REASON_PREREQUISITE 0 0 0 1 0 0
             else if \<not> topology_is_exact then set_report BZM_BRINGUP_BAD BZM_BRINGUP_REASON_TOPOLOGY 0 0 0 236 0 0
             else if bo_balanced_batch_begin ops = None \<or> bo_balanced_pair_commit ops = None \<or>
                     bo_balanced_batch_end ops = None \<or> bo_activation_barrier ops = None
             then set_report BZM_BRINGUP_BLOCKED BZM_BRINGUP_REASON_BALANCED_PAIR_UNAVAILABLE 0 0 0 1 0 0
             else if \<not> telemetry_policy_is_valid policy_opt
             then set_report BZM_BRINGUP_BAD BZM_BRINGUP_REASON_INVALID_ARGUMENT 0 0 0 0 0 0
             else if bo_write_u32 ops = None \<or> bo_read_u32 ops = None \<or> bo_now_us ops = None \<or> bo_telemetry_snapshot ops = None
             then set_report BZM_BRINGUP_BLOCKED BZM_BRINGUP_REASON_CAPABILITY_UNAVAILABLE 0 0 0 0 0 0
             else br_all
               [report_results ops BZM_RESULT_REPORT_DISABLED (\<lambda>_. 0),
                br_for [0..<118] (commit_batch ops (the policy_opt)),
                br_bind (br_barrier ops BZM_BRINGUP_ASIC_COUNT 118)
                  (\<lambda>ok. if \<not> ok
                        then set_report BZM_BRINGUP_BAD BZM_BRINGUP_REASON_ACTIVATION_BARRIER 0 0 0 472 472 472
                        else br_return ()),
                br_modify (\<lambda>state. state\<lparr> bu_balanced_ramp_verified := True \<rparr>),
                set_report BZM_BRINGUP_GOOD BZM_BRINGUP_REASON_NONE BZM_BRINGUP_LAST_ASIC_ID 0 0 472 472 472])))"

definition bzm_bringup_check_running ::
    "'c bzm_bringup_ops_t \<Rightarrow> bzm_bringup_telemetry_policy_t option \<Rightarrow> 'c bringup_world \<Rightarrow> bzm_bringup_outcome_t \<times> 'c bringup_world" where
  "bzm_bringup_check_running ops policy_opt = br_outcome_of
     (if \<not> telemetry_policy_is_valid policy_opt
      then set_report BZM_BRINGUP_BAD BZM_BRINGUP_REASON_INVALID_ARGUMENT 0 0 0 0 0 0
      else br_bind (br_modify (\<lambda>state. state\<lparr> bu_running_verified := False \<rparr>))
        (\<lambda>_. br_bind (br_get bu_balanced_ramp_verified)
          (\<lambda>ramp_verified.
             if \<not> ramp_verified then set_report BZM_BRINGUP_BLOCKED BZM_BRINGUP_REASON_PREREQUISITE 0 0 0 1 0 0
             else if \<not> topology_is_exact then set_report BZM_BRINGUP_BAD BZM_BRINGUP_REASON_TOPOLOGY 0 0 0 236 0 0
             else if bo_write_u32 ops = None \<or> bo_read_u32 ops = None \<or> bo_now_us ops = None \<or> bo_telemetry_snapshot ops = None
             then set_report BZM_BRINGUP_BLOCKED BZM_BRINGUP_REASON_CAPABILITY_UNAVAILABLE 0 0 0 0 0 0
             else br_all
               [report_results ops BZM_RESULT_REPORT_ENABLED of_nat,
                br_bind (br_now ops) (\<lambda>enabled_us. verify_telemetry ops (the policy_opt) enabled_us True),
                br_modify (\<lambda>state. state\<lparr> bu_running_verified := True \<rparr>),
                set_report BZM_BRINGUP_GOOD BZM_BRINGUP_REASON_NONE BZM_BRINGUP_LAST_ASIC_ID 0 0 1 1 4])))"

section \<open>The topology check always passes\<close>

definition site :: "nat \<Rightarrow> bzm_engine_location_t" where
  "site i = the (bzm_topology_engine_at (of_nat i))"

lemma site_facts:
  assumes "i < 236"
  shows "bzm_topology_engine_at (of_nat i) = Some (site i)" "el_topology_index (site i) = of_nat i"
    "unat (el_physical_id (site i)) < 768" "bzm_topology_coordinate_is_valid (el_row (site i)) (el_column (site i))"
    "el_stack (site i) = stack_for_row (fst (usable ! i))"
    "bzm_topology_from_physical_id (el_physical_id (site i)) = Some (site i)"
proof -
  obtain r c where rc: "usable ! i = (r, c)" by (cases "usable ! i")
  obtain j where loc: "locate_coordinate r c = Some (location_of (r, c) i j)" using usable_location[OF assms rc] by blast
  have e: "bzm_topology_engine_at (of_nat i) = Some (location_of (r, c) i j)" using engine_at_nth[OF assms] rc loc by simp
  then show "bzm_topology_engine_at (of_nat i) = Some (site i)" by (simp add: site_def)
  have s: "site i = location_of (r, c) i j" using e by (simp add: site_def)
  have mem: "(r, c) \<in> set usable" using assms rc nth_mem[of i usable] by (simp add: length_usable)
  note b = usable_coordinates[OF mem]
  show "el_topology_index (site i) = of_nat i" "el_stack (site i) = stack_for_row (fst (usable ! i))"
    by (simp_all add: s location_of_def rc)
  show "bzm_topology_coordinate_is_valid (el_row (site i)) (el_column (site i))" using mem by (simp add: s location_of_def set_usable)
  show "bzm_topology_from_physical_id (el_physical_id (site i)) = Some (site i)"
    using b loc by (simp add: s location_of_def decode_physical_id)
  have "unat (drop_bit 6 (el_physical_id (site i))) = c"
    using id_decoding b set_grid_scan[of r c] by (auto simp: s location_of_def list_all_iff)
  then have "unat (el_physical_id (site i)) div 64 < 12" using b by (simp add: drop_bit_eq_div unat_div)
  then show "unat (el_physical_id (site i)) < 768" by (simp add: div_less_iff_less_mult)
qed

lemma site_inj: "i < 236 \<Longrightarrow> k < 236 \<Longrightarrow> el_physical_id (site i) = el_physical_id (site k) \<Longrightarrow> i = k"
proof -
  assume b: "i < 236" "k < 236" and eq: "el_physical_id (site i) = el_physical_id (site k)"
  have "site i = site k" using site_facts(6)[OF b(1)] site_facts(6)[OF b(2)] eq by (metis option.inject)
  then have "(of_nat i :: u16) = of_nat k" using site_facts(2)[OF b(1)] site_facts(2)[OF b(2)] by metis
  then have "unat (of_nat i :: u16) = unat (of_nat k :: u16)" by (rule arg_cong)
  then show "i = k" using b unat_small[of i] unat_small[of k] by simp
qed

lemma engines_exact_from:
  assumes "i + n = 236" "set seen = (\<lambda>k. el_physical_id (site k)) ` {0..<i}"
  shows "engines_exact [i..<236] seen (b, u) =
    Some (b + length (filter (\<lambda>k. stack_for_row (fst (usable ! k)) = BZM_ENGINE_STACK_BOTTOM) [i..<236]),
          u + length (filter (\<lambda>k. stack_for_row (fst (usable ! k)) \<noteq> BZM_ENGINE_STACK_BOTTOM) [i..<236]))"
  using assms
proof (induction n arbitrary: i seen b u)
  case (Suc n)
  then have i: "i < 236" by simp
  have new: "el_physical_id (site i) \<notin> set seen" 
  proof
    assume "el_physical_id (site i) \<in> set seen"
    then obtain k where k: "k < i" "el_physical_id (site i) = el_physical_id (site k)" unfolding Suc.prems(2) by auto
    then show False using site_inj[OF i, of k] i by simp
  qed
  have valid: "stack_is_valid (el_stack (site i))" using site_facts(5)[OF i] by (simp add: stack_is_valid_def stack_for_row_def)
  have "set (el_physical_id (site i) # seen) = (\<lambda>k. el_physical_id (site k)) ` {0..<Suc i}"
    using Suc.prems(2) by (auto simp: less_Suc_eq)
  note IH = Suc.IH[of "Suc i", OF _ this]
  note facts = site_facts[OF i]
  have guard: "\<not> (el_topology_index (site i) \<noteq> of_nat i \<or> BZM_TOPOLOGY_COLUMNS * 64 \<le> unat (el_physical_id (site i)) \<or>
      el_physical_id (site i) \<in> set seen \<or> \<not> bzm_topology_coordinate_is_valid (el_row (site i)) (el_column (site i)) \<or>
      \<not> stack_is_valid (el_stack (site i)))" using facts(2-4) new valid by simp
  have "Suc i + n = 236" using Suc.prems(1) by simp
  note IH = IH[OF this]
  have range: "[i..<236] = i # [Suc i..<236]" using i by (rule upt_conv_Cons)
  show ?case
    unfolding range engines_exact.simps facts(1) option.case
    unfolding if_not_P[OF guard] unfolding facts(5)
    by (cases "stack_for_row (fst (usable ! i)) = BZM_ENGINE_STACK_BOTTOM") (simp_all add: IH del: One_nat_def)
qed simp

lemma stack_counts:
  "length (filter (\<lambda>k. stack_for_row (fst (usable ! k)) = BZM_ENGINE_STACK_BOTTOM) [0..<236]) = 118"
  "length (filter (\<lambda>k. stack_for_row (fst (usable ! k)) \<noteq> BZM_ENGINE_STACK_BOTTOM) [0..<236]) = 118"
proof -
  have all: "map ((!) usable) [0..<236] = usable" using map_nth[of usable] by (simp add: length_usable)
  have count: "length (filter (\<lambda>k. P (fst (usable ! k))) [0..<236]) = length (filter (\<lambda>x. P (fst x)) usable)" for P
  proof -
    have "filter (\<lambda>x. P (fst x)) usable = map ((!) usable) (filter (\<lambda>k. P (fst (usable ! k))) [0..<236])"
      using filter_map[of "\<lambda>x. P (fst x)" "(!) usable" "[0..<236]"] by (simp add: all o_def)
    then show ?thesis by simp
  qed
  have "usable_in st = filter (\<lambda>x. stack_for_row (fst x) = st) usable" for st by (auto simp: usable_in_def split_def)
  then have "length (filter (\<lambda>x. stack_for_row (fst x) = BZM_ENGINE_STACK_BOTTOM) usable) = 118"
    "length (filter (\<lambda>x. stack_for_row (fst x) = BZM_ENGINE_STACK_TOP) usable) = 118"
    using length_usable_in[of BZM_ENGINE_STACK_BOTTOM] length_usable_in[of BZM_ENGINE_STACK_TOP]
    by (simp_all add: stack_is_valid_def)
  moreover have "stack_for_row r \<noteq> BZM_ENGINE_STACK_BOTTOM \<longleftrightarrow> stack_for_row r = BZM_ENGINE_STACK_TOP" for r
    by (simp add: stack_for_row_def)
  ultimately show "length (filter (\<lambda>k. stack_for_row (fst (usable ! k)) = BZM_ENGINE_STACK_BOTTOM) [0..<236]) = 118"
    "length (filter (\<lambda>k. stack_for_row (fst (usable ! k)) \<noteq> BZM_ENGINE_STACK_BOTTOM) [0..<236]) = 118"
    using count[of "\<lambda>r. stack_for_row r = BZM_ENGINE_STACK_BOTTOM"] count[of "\<lambda>r. stack_for_row r \<noteq> BZM_ENGINE_STACK_BOTTOM"]
    by simp_all
qed

lemma pair_exact: "p < 118 \<Longrightarrow> pair_exact p"
proof -
  assume p: "p < 118"
  have v: "stack_is_valid BZM_ENGINE_STACK_BOTTOM" "stack_is_valid BZM_ENGINE_STACK_TOP" by (simp_all add: stack_is_valid_def)
  obtain b where b: "bzm_topology_stack_engine_at BZM_ENGINE_STACK_BOTTOM (of_nat p) = Some b" "el_stack b = BZM_ENGINE_STACK_BOTTOM"
    "el_stack_index b = of_nat p" using stack_engine_at_Some[OF v(1) p] by blast
  obtain t where t: "bzm_topology_stack_engine_at BZM_ENGINE_STACK_TOP (of_nat p) = Some t" "el_stack t = BZM_ENGINE_STACK_TOP"
    "el_stack_index t = of_nat p" using stack_engine_at_Some[OF v(2) p] by blast
  have decode: "bzm_topology_from_physical_id (el_physical_id e) = Some e"
    if "stack_is_valid st" "bzm_topology_stack_engine_at st (of_nat p) = Some e" for st e
  proof -
    obtain r c where "usable_in st ! p = (r, c)" by (cases "usable_in st ! p")
    then have "locate_coordinate r c = Some e" using that stack_engine_at_nth[of st p] p by simp
    then show ?thesis by (rule located(3))
  qed
  have "el_physical_id b \<noteq> el_physical_id t" 
    using decode[OF v(1) b(1)] decode[OF v(2) t(1)] b(2) t(2) by (metis option.inject bzm_engine_stack_t.distinct(1))
  moreover have range: "\<not> BZM_TOPOLOGY_PAIR_COUNT \<le> (of_nat p :: u16)" 
    using p unat_small[of p] by (simp only: word_le_nat_alt) simp
  ultimately show ?thesis
    unfolding pair_exact_def bzm_topology_balanced_pair_at_def if_not_P[OF range] b(1) t(1) option.case
    using b(2,3) t(2,3) by (simp only: bzm_engine_pair_t.simps) simp
qed

lemma topology_exact: topology_is_exact
  using engines_exact_from[of 0 236 "[]" 0 0] by (simp add: topology_is_exact_def stack_counts pair_exact list_all_iff)

section \<open>Rules for computations\<close>

text \<open>Started in \<open>P\<close>, a computation that goes on does so in \<open>Q\<close> of its result, and one that returns early leaves \<open>R\<close> of
  its outcome.\<close>

definition br_triple ::
    "('c bringup_world \<Rightarrow> bool) \<Rightarrow> ('c, 'a) bringup \<Rightarrow> ('a \<Rightarrow> 'c bringup_world \<Rightarrow> bool)
     \<Rightarrow> (bzm_bringup_outcome_t \<Rightarrow> 'c bringup_world \<Rightarrow> bool) \<Rightarrow> bool" where
  "br_triple P m Q R \<longleftrightarrow>
     (\<forall>w w'. P w \<longrightarrow> (\<forall>outcome. m w = (Inl outcome, w') \<longrightarrow> R outcome w') \<and> (\<forall>x. m w = (Inr x, w') \<longrightarrow> Q x w'))"

named_theorems br_rules \<open>triples of the computations that leave the state alone\<close>

lemma br_tripleD:
  assumes "br_triple P m Q R" "P w"
  shows "m w = (Inl outcome, w') \<Longrightarrow> R outcome w'" "m w = (Inr x, w') \<Longrightarrow> Q x w'"
  using assms by (auto simp: br_triple_def)

lemma br_triple_cases:
  assumes "br_triple P m Q R" "P w"
  obtains outcome w' where "m w = (Inl outcome, w')" "R outcome w'" | x w' where "m w = (Inr x, w')" "Q x w'"
proof (cases "m w")
  case (Pair r w')
  then show ?thesis using that br_tripleD[OF assms] by (cases r) auto
qed

lemma br_triple_bind:
  assumes "br_triple P m Q' R" and "\<And>x. br_triple (Q' x) (f x) Q R"
  shows "br_triple P (br_bind m f) Q R"
  unfolding br_triple_def
proof (intro allI impI)
  fix w w'
  assume "P w"
  from br_triple_cases[OF assms(1) this]
  show "(\<forall>outcome. br_bind m f w = (Inl outcome, w') \<longrightarrow> R outcome w') \<and> (\<forall>x. br_bind m f w = (Inr x, w') \<longrightarrow> Q x w')"
  proof cases
    case (2 x v)
    then show ?thesis using br_tripleD[OF assms(2) 2(2)] by (simp add: br_bind_def)
  qed (auto simp: br_bind_def)
qed

lemma br_triple_weaken:
  assumes "br_triple P' m Q' R'" "\<And>w. P w \<Longrightarrow> P' w" "\<And>x w. Q' x w \<Longrightarrow> Q x w" "\<And>out w. R' out w \<Longrightarrow> R out w"
  shows "br_triple P m Q R"
  using assms unfolding br_triple_def by blast

lemma br_triple_return: "br_triple (Q x) (br_return x) Q R"
  by (simp add: br_triple_def br_return_def)

lemma br_triple_exit: "(\<And>w. P w \<Longrightarrow> R outcome w) \<Longrightarrow> br_triple P (br_exit outcome) Q R"
  by (simp add: br_triple_def br_exit_def)

lemma br_triple_modify: "(\<And>w. P w \<Longrightarrow> Q () (w\<lparr> bw_state := f (bw_state w) \<rparr>)) \<Longrightarrow> br_triple P (br_modify f) Q R"
  by (simp add: br_triple_def br_modify_def)

lemma br_triple_get: "(\<And>w. P w \<Longrightarrow> Q (f (bw_state w)) w) \<Longrightarrow> br_triple P (br_get f) Q R"
  by (simp add: br_triple_def br_get_def)

lemma br_triple_all_Nil: "br_triple (Q ()) (br_all []) Q R"
  by (simp add: br_triple_return)

lemma br_triple_all_Cons:
  "br_triple P m Q' R \<Longrightarrow> br_triple (Q' ()) (br_all ms) Q R \<Longrightarrow> br_triple P (br_all (m # ms)) Q R"
  by (auto intro: br_triple_bind)

lemma br_triple_for:
  "(\<And>x. x \<in> set xs \<Longrightarrow> br_triple P (f x) (\<lambda>_. P) R) \<Longrightarrow> br_triple P (br_for xs f) (\<lambda>_. P) R"
  unfolding br_for_def by (induction xs) (auto intro: br_triple_bind br_triple_return)

lemma br_triple_fold:
  "(\<And>x a. x \<in> set xs \<Longrightarrow> br_triple (I a) (f x a) I R) \<Longrightarrow> br_triple (I a) (br_fold f xs a) I R"
  by (induction xs arbitrary: a) (auto intro: br_triple_bind br_triple_return)

lemma br_outcome_triple:
  assumes "br_triple P m (\<lambda>_. R BZM_BRINGUP_GOOD) R" "P w" "br_outcome_of m w = (outcome, w')"
  shows "R outcome w'"
  using br_triple_cases[OF assms(1,2)] assms(3) by (cases) (auto simp: br_outcome_of_def)

text \<open>A property of the state alone is kept by everything that only talks to the device and writes the report.\<close>

abbreviation on_state :: "(bzm_bringup_state_t \<Rightarrow> bool) \<Rightarrow> 'c bringup_world \<Rightarrow> bool" where
  "on_state F w \<equiv> F (bw_state w)"

text \<open>A computation that keeps the state, and never returns GOOD early.\<close>

definition br_still :: "('c, 'a) bringup \<Rightarrow> bool" where
  "br_still m \<longleftrightarrow> (\<forall>F. br_triple (on_state F) m (\<lambda>_. on_state F) (\<lambda>outcome w. outcome \<noteq> BZM_BRINGUP_GOOD \<and> on_state F w))"

lemma br_stillD:
  "br_still m \<Longrightarrow> br_triple (on_state F) m (\<lambda>_. on_state F) (\<lambda>outcome w. outcome \<noteq> BZM_BRINGUP_GOOD \<and> on_state F w)"
  by (simp add: br_still_def)

lemma br_still_step:
  "br_still m \<Longrightarrow> m w = (r, w') \<Longrightarrow> bw_state w' = bw_state w \<and> r \<noteq> Inl BZM_BRINGUP_GOOD"
  using br_triple_cases[OF br_stillD, of m "\<lambda>s. s = bw_state w" w] by fastforce

lemma br_stillI:
  assumes "\<And>w r w'. m w = (r, w') \<Longrightarrow> bw_state w' = bw_state w \<and> r \<noteq> Inl BZM_BRINGUP_GOOD"
  shows "br_still m"
  unfolding br_still_def br_triple_def using assms by fastforce

lemma br_still_bind [br_rules]:
  assumes "br_still m" "\<And>x. br_still (f x)"
  shows "br_still (br_bind m f)"
proof (rule br_stillI)
  fix w r w'
  assume run: "br_bind m f w = (r, w')"
  show "bw_state w' = bw_state w \<and> r \<noteq> Inl BZM_BRINGUP_GOOD"
  proof (cases "m w")
    case (Pair r1 w1)
    then show ?thesis
      using run br_still_step[OF assms(1) Pair] br_still_step[OF assms(2), of _ w1 r w'] by (cases r1) (auto simp: br_bind_def)
  qed
qed

lemma br_still_return [br_rules]: "br_still (br_return x)"
  by (rule br_stillI) (simp add: br_return_def)

lemma br_still_get [br_rules]: "br_still (br_get f)"
  by (rule br_stillI) (auto simp: br_get_def)

lemma br_still_all [br_rules]: "(\<And>m. m \<in> set ms \<Longrightarrow> br_still m) \<Longrightarrow> br_still (br_all ms)"
  by (induction ms) (auto intro: br_rules)

lemma br_still_for [br_rules]: "(\<And>x. x \<in> set xs \<Longrightarrow> br_still (f x)) \<Longrightarrow> br_still (br_for xs f)"
  unfolding br_for_def by (rule br_still_all) auto

lemma br_still_fold [br_rules]: "(\<And>x a. br_still (f x a)) \<Longrightarrow> br_still (br_fold f xs a)"
  by (induction xs arbitrary: a) (auto intro: br_rules)

lemma br_still_device [br_rules]: "br_still (br_device f)"
  by (rule br_stillI) (auto simp: br_device_def split: prod.splits)

lemma br_still_calls [br_rules]:
  "br_still (br_write ops a r v)" "br_still (br_read ops a r)" "br_still (br_probe ops a)" "br_still (br_delay ops ms)"
  "br_still (br_now ops)" "br_still (br_snapshot ops st)" "br_still (br_batch_begin ops p)" "br_still (br_batch_end ops p)"
  "br_still (br_pair_commit ops a pair)" "br_still (br_barrier ops n k)"
  by (simp_all add: br_write_def br_read_def br_probe_def br_delay_def br_now_def br_snapshot_def br_batch_begin_def
      br_batch_end_def br_pair_commit_def br_barrier_def br_still_device)

lemma br_still_report [br_rules]: "outcome \<noteq> BZM_BRINGUP_GOOD \<Longrightarrow> br_still (set_report outcome reason a p r e c n)"
  by (rule br_stillI) (auto simp: set_report_def)

lemma br_still_live_report [br_rules]: "outcome \<noteq> BZM_BRINGUP_GOOD \<Longrightarrow> br_still (live_frequency_report outcome reason a p r e c n)"
  by (simp add: live_frequency_report_def br_still_report)

lemma br_still_if [br_rules]: "(b \<Longrightarrow> br_still m) \<Longrightarrow> (\<not> b \<Longrightarrow> br_still m') \<Longrightarrow> br_still (if b then m else m')"
  by simp

lemma br_still_option [br_rules]:
  "(x = None \<Longrightarrow> br_still m) \<Longrightarrow> (\<And>y. x = Some y \<Longrightarrow> br_still (f y)) \<Longrightarrow> br_still (case x of None \<Rightarrow> m | Some y \<Rightarrow> f y)"
  by (cases x) auto

lemma br_still_prod [br_rules]: "(\<And>a b. x = (a, b) \<Longrightarrow> br_still (f a b)) \<Longrightarrow> br_still (case x of (a, b) \<Rightarrow> f a b)"
  by (cases x) auto

lemma br_still_outcome:
  assumes "br_still m" "br_outcome_of m w = (outcome, w')"
  shows "bw_state w' = bw_state w"
  using br_still_step[OF assms(1), of w] assms(2) by (auto simp: br_outcome_of_def split: prod.splits sum.splits)

lemma br_still_probe_loop [br_rules]: "br_still (probe_loop ops n)"
  by (induction n) (auto intro!: br_rules)

lemma br_still_assign [br_rules]: "br_still (assign_asic ops i)"
  unfolding assign_asic_def Let_def by (intro br_rules) auto

lemma br_still_expect [br_rules]: "br_still (expect_register ops a p n x)"
  unfolding expect_register_def by (intro br_rules) auto

lemma br_still_registers [br_rules]: "br_still (write_and_verify_registers ops a rs n)"
  unfolding write_and_verify_registers_def by (intro br_rules) auto

lemma br_still_verify_sample [br_rules]: "br_still (verify_sample st now conf policy locks i)"
  unfolding verify_sample_def Let_def by (intro br_rules) auto

lemma br_still_verify_snapshot [br_rules]: "br_still (verify_telemetry_snapshot st now conf policy locks)"
  unfolding verify_telemetry_snapshot_def by (intro br_rules)

lemma br_still_acquire [br_rules]: "br_still (acquire_loop ops conf n st)"
  by (induction n arbitrary: st) (auto intro!: br_rules)

lemma br_still_attempt [br_rules]:
  assumes "br_still m" "\<And>outcome r. br_still (f outcome r)"
  shows "br_still (br_attempt m f)"
proof (rule br_stillI)
  fix w r w'
  assume run: "br_attempt m f w = (r, w')"
  obtain out w1 where out: "br_outcome_of m w = (out, w1)" by (cases "br_outcome_of m w")
  then show "bw_state w' = bw_state w \<and> r \<noteq> Inl BZM_BRINGUP_GOOD"
    using run br_still_outcome[OF assms(1) out] br_still_step[OF assms(2), of out "bw_report w1" w1 r w']
    by (simp add: br_attempt_def)
qed

lemma br_still_exit [br_rules]: "outcome \<noteq> BZM_BRINGUP_GOOD \<Longrightarrow> br_still (br_exit outcome)"
  by (rule br_stillI) (auto simp: br_exit_def)

lemma br_still_confirm [br_rules]: "br_still (confirm_loop ops policy conf locks n cf st)"
proof (induction n arbitrary: cf st)
  case 0
  show ?case
    by (subst confirm_loop.simps, unfold Let_def nat.case) (intro br_rules; auto)
next
  case (Suc n)
  show ?case
    by (subst confirm_loop.simps, unfold Let_def nat.case) (intro br_rules Suc; auto)
qed

lemma br_still_telemetry [br_rules]: "br_still (verify_telemetry ops policy conf locks)"
  unfolding verify_telemetry_def by (intro br_rules) auto

lemma br_still_sensors [br_rules]: "br_still (configure_sensors ops profile i)"
  unfolding configure_sensors_def Let_def by (intro br_rules) auto

lemma br_still_write_or_fail [br_rules]: "br_still (write_or_fail ops a p n x y)"
  unfolding write_or_fail_def by (cases x; cases y) (auto intro!: br_rules)

lemma br_still_lock_loop [br_rules]: "br_still (lock_loop ops profile i n vs)"
  by (induction n arbitrary: vs) (auto simp: Let_def intro!: br_rules)

lemma br_still_clocks [br_rules]: "br_still (configure_clocks ops profile gap i)"
  unfolding configure_clocks_def Let_def
  by (rule br_still_all) (auto intro!: br_rules)

lemma br_still_quiet [br_rules]: "br_still (quiet_tdm ops)"
  unfolding quiet_tdm_def Let_def by (intro br_rules)

lemma br_still_results [br_rules]: "br_still (report_results ops v f)"
  unfolding report_results_def by (intro br_rules)

lemma br_still_completed [br_rules]:
  assumes "br_still m"
  shows "br_still (set_completed n m)"
proof (rule br_stillI)
  fix w r w'
  assume run: "set_completed n m w = (r, w')"
  show "bw_state w' = bw_state w \<and> r \<noteq> Inl BZM_BRINGUP_GOOD"
  proof (cases "m w")
    case (Pair r1 w1)
    then show ?thesis using run br_still_step[OF assms Pair] by (cases r1) (auto simp: set_completed_def)
  qed
qed

lemma br_still_batch [br_rules]: "br_still (commit_batch ops policy p)"
  unfolding commit_batch_def Let_def by (intro br_rules) (auto intro!: br_rules)

section \<open>The ladder of stages\<close>

definition bringup_flags :: "bzm_bringup_state_t \<Rightarrow> bool list" where
  "bringup_flags s = [bu_chain_verified s, bu_sensors_verified s, bu_clocks_verified s, bu_balanced_ramp_verified s,
     bu_running_verified s]"

text \<open>The first \<open>n\<close> stages are verified, and no other; there is a clock for each of the eight domains.\<close>

definition verified_up_to :: "nat \<Rightarrow> bzm_bringup_state_t \<Rightarrow> bool" where
  "verified_up_to n s \<longleftrightarrow> n \<le> 5 \<and> length (bu_domain_clock_mhz s) = 8 \<and> bringup_flags s = replicate n True @ replicate (5 - n) False"

text \<open>A call of a stage with all of its arguments, the table of operations included.\<close>

datatype 'c bringup_call =
    CallChain "'c bzm_bringup_ops_t"
  | CallSensors "'c bzm_bringup_ops_t" "bzm_bringup_sensor_profile_t option" "bzm_bringup_telemetry_policy_t option"
  | CallClocks "'c bzm_bringup_ops_t" u8 "bzm_bringup_pll_profile_t option" "bzm_bringup_telemetry_policy_t option"
  | CallRamp "'c bzm_bringup_ops_t" "bzm_bringup_telemetry_policy_t option"
  | CallRunning "'c bzm_bringup_ops_t" "bzm_bringup_telemetry_policy_t option"
  | CallLive "'c bzm_bringup_ops_t" "cfloat list option" bool

fun bringup_perform :: "'c bringup_call \<Rightarrow> 'c bringup_world \<Rightarrow> bzm_bringup_outcome_t \<times> 'c bringup_world" where
  "bringup_perform (CallChain ops) = bzm_bringup_stage_chain4 ops"
| "bringup_perform (CallSensors ops profile policy) = bzm_bringup_stage_sensors ops profile policy"
| "bringup_perform (CallClocks ops gap profile policy) = bzm_bringup_stage_clocks ops gap profile policy"
| "bringup_perform (CallRamp ops policy) = bzm_bringup_stage_balanced_ramp ops policy"
| "bringup_perform (CallRunning ops policy) = bzm_bringup_check_running ops policy"
| "bringup_perform (CallLive ops targets jump) = bzm_bringup_live_frequency_domains_step ops targets jump"

text \<open>The rung a stage leads to; a live frequency change leads to none.\<close>

fun rung :: "'c bringup_call \<Rightarrow> nat" where
  "rung (CallChain ops) = 1"
| "rung (CallSensors ops profile policy) = 2"
| "rung (CallClocks ops gap profile policy) = 3"
| "rung (CallRamp ops policy) = 4"
| "rung (CallRunning ops policy) = 5"
| "rung (CallLive ops targets jump) = 0"

lemma verified_flags:
  "verified_up_to n s \<longleftrightarrow> n \<le> 5 \<and> length (bu_domain_clock_mhz s) = 8 \<and> bu_chain_verified s = (1 \<le> n) \<and> bu_sensors_verified s = (2 \<le> n) \<and>
     bu_clocks_verified s = (3 \<le> n) \<and> bu_balanced_ramp_verified s = (4 \<le> n) \<and> bu_running_verified s = (5 \<le> n)"
proof (cases "n \<le> 5")
  case True
  then consider "n = 0" | "n = 1" | "n = 2" | "n = 3" | "n = 4" | "n = 5" by linarith
  then show ?thesis by cases (simp_all add: verified_up_to_def bringup_flags_def numeral_eq_Suc)
qed (simp add: verified_up_to_def)

text \<open>A call that is turned down for its arguments alone, before it has touched a mark. The balanced ramp turns down none: it takes
  the marks away first. A missing prerequisite needs no case here, for then there is no mark to take away.\<close>

fun turned_down :: "'c bringup_call \<Rightarrow> bool" where
  "turned_down (CallChain ops) \<longleftrightarrow> bo_write_u32 ops = None \<or> bo_read_u32 ops = None \<or> bo_probe_noop ops = None"
| "turned_down (CallSensors ops profile policy) \<longleftrightarrow>
     bo_write_u32 ops = None \<or> bo_read_u32 ops = None \<or> bo_now_us ops = None \<or> bo_telemetry_snapshot ops = None \<or>
     \<not> sensor_profile_is_valid profile \<or> \<not> telemetry_policy_is_valid policy"
| "turned_down (CallClocks ops gap profile policy) \<longleftrightarrow>
     bo_write_u32 ops = None \<or> bo_read_u32 ops = None \<or> bo_now_us ops = None \<or> bo_telemetry_snapshot ops = None \<or>
     \<not> pll_profile_is_exact_800 profile \<or> \<not> telemetry_policy_is_valid policy"
| "turned_down (CallRamp ops policy) \<longleftrightarrow> False"
| "turned_down (CallRunning ops policy) \<longleftrightarrow> \<not> telemetry_policy_is_valid policy"
| "turned_down (CallLive ops targets jump) \<longleftrightarrow> False"

text \<open>
  The ladder, as a machine of its own. A stage for rung \<open>k\<close> passes only from rung \<open>k - 1\<close> or above, and then the board stands on
  rung \<open>k\<close>, also when it stood higher: the marks above are gone. When it does not pass, the board is below rung \<open>k\<close>, unless
  the call was turned down, which changes nothing. A live frequency change moves nothing, and passes on the top rung only.
  \<open>None\<close> is an answer the ladder does not allow.
\<close>

definition ladder_step :: "nat \<Rightarrow> 'c bringup_call \<Rightarrow> bzm_bringup_outcome_t \<Rightarrow> nat option" where
  "ladder_step n call outcome =
     (let k = rung call; passed = (outcome = BZM_BRINGUP_GOOD)
      in if k = 0 then (if passed \<and> n \<noteq> 5 then None else Some n)
         else if turned_down call then (if passed then None else Some n)
         else if passed then (if k - 1 \<le> n then Some k else None)
         else Some (min n (k - 1)))"

fun ladder :: "nat \<Rightarrow> ('c bringup_call \<times> bzm_bringup_outcome_t) list \<Rightarrow> nat option" where
  "ladder n [] = Some n"
| "ladder n ((call, outcome) # history) =
     (case ladder_step n call outcome of None \<Rightarrow> None | Some m \<Rightarrow> ladder m history)"

text \<open>A call refines the ladder: its outcome is allowed, and the marks are those of the rung it leads to.\<close>

definition climbs :: "nat \<Rightarrow> 'c bringup_call \<Rightarrow> bzm_bringup_outcome_t \<Rightarrow> bzm_bringup_state_t \<Rightarrow> bool" where
  "climbs n call outcome s \<longleftrightarrow> (case ladder_step n call outcome of None \<Rightarrow> False | Some m \<Rightarrow> verified_up_to m s)"

text \<open>The same triples read backwards: what must hold of the state before a computation.\<close>

definition br_wp :: "('c, 'a) bringup \<Rightarrow> ('a \<Rightarrow> bzm_bringup_state_t \<Rightarrow> bool) \<Rightarrow> (bzm_bringup_outcome_t \<Rightarrow> bzm_bringup_state_t \<Rightarrow> bool)
    \<Rightarrow> bzm_bringup_state_t \<Rightarrow> bool" where
  "br_wp m Q R s \<longleftrightarrow> br_triple (on_state (\<lambda>t. t = s)) m (\<lambda>x. on_state (Q x)) (\<lambda>outcome. on_state (R outcome))"

named_theorems wp_rules \<open>what must hold before a computation\<close>

lemma wp_bind [wp_rules]:
  assumes "br_wp m (\<lambda>x. br_wp (f x) Q R) R s"
  shows "br_wp (br_bind m f) Q R s"
  unfolding br_wp_def
proof (rule br_triple_bind)
  show "br_triple (on_state (\<lambda>t. t = s)) m (\<lambda>x w. on_state (br_wp (f x) Q R) w) (\<lambda>outcome. on_state (R outcome))"
    using assms by (simp add: br_wp_def)
  show "br_triple (on_state (br_wp (f x) Q R)) (f x) (\<lambda>x. on_state (Q x)) (\<lambda>outcome. on_state (R outcome))" for x
    unfolding br_wp_def br_triple_def by blast
qed

lemma wp_modify [wp_rules]: "Q () (f s) \<Longrightarrow> br_wp (br_modify f) Q R s"
  unfolding br_wp_def by (rule br_triple_modify) simp

lemma wp_get [wp_rules]: "Q (f s) s \<Longrightarrow> br_wp (br_get f) Q R s"
  unfolding br_wp_def by (rule br_triple_get) simp

lemma wp_return [wp_rules]: "Q x s \<Longrightarrow> br_wp (br_return x) Q R s"
  by (simp add: br_wp_def br_triple_def br_return_def)

lemma wp_report [wp_rules]: "R outcome s \<Longrightarrow> br_wp (set_report outcome reason a p r e c n) Q R s"
  unfolding br_wp_def br_triple_def set_report_def by simp

lemma wp_exit [wp_rules]: "R outcome s \<Longrightarrow> br_wp (br_exit outcome) Q R s"
  unfolding br_wp_def by (rule br_triple_exit) simp

lemma wp_if [wp_rules]: "(b \<Longrightarrow> br_wp m Q R s) \<Longrightarrow> (\<not> b \<Longrightarrow> br_wp m' Q R s) \<Longrightarrow> br_wp (if b then m else m') Q R s"
  by simp

lemma wp_all_Nil [wp_rules]: "Q () s \<Longrightarrow> br_wp (br_all []) Q R s"
  by (simp add: wp_return)

lemma wp_all_Cons [wp_rules]: "br_wp m (\<lambda>_. br_wp (br_all ms) Q R) R s \<Longrightarrow> br_wp (br_all (m # ms)) Q R s"
  by (simp add: wp_bind)

lemma wp_still:
  assumes "br_still m" "\<And>x. Q x s" "\<And>outcome. outcome \<noteq> BZM_BRINGUP_GOOD \<Longrightarrow> R outcome s"
  shows "br_wp m Q R s"
proof -
  have "br_triple (on_state (\<lambda>t. t = s)) m (\<lambda>_. on_state (\<lambda>t. t = s))
      (\<lambda>outcome w. outcome \<noteq> BZM_BRINGUP_GOOD \<and> on_state (\<lambda>t. t = s) w)"
    by (rule br_stillD[OF assms(1)])
  then show ?thesis unfolding br_wp_def
    by (rule br_triple_weaken) (simp_all add: assms(2,3))
qed

lemma wp_outcome:
  assumes "br_wp m (\<lambda>_. R BZM_BRINGUP_GOOD) R (bw_state w)" "br_outcome_of m w = (outcome, w')"
  shows "R outcome (bw_state w')"
  by (rule br_outcome_triple[OF assms(1)[unfolded br_wp_def] _ assms(2)]) simp

text \<open>The stages, each from an arbitrary rung.\<close>

lemmas climb_simps = climbs_def ladder_step_def verified_flags clear_after_chain_def clear_after_sensors_def clear_after_clocks_def
  basic_ops_are_valid_def

lemma chain_climbs:
  assumes "verified_up_to n (bw_state w)" "bzm_bringup_stage_chain4 ops w = (out, w')"
  shows "climbs n (CallChain ops) out (bw_state w')"
proof (rule wp_outcome[OF _ assms(2)[unfolded bzm_bringup_stage_chain4_def]], goal_cases)
  case 1
  show ?case using assms(1)
    by - (rule wp_rules | (rule wp_still, (intro br_rules; (simp; fail))[1]) | (simp add: climb_simps; fail) | (auto simp: climb_simps; fail))+
qed

lemma sensors_climb:
  assumes "verified_up_to n (bw_state w)" "bzm_bringup_stage_sensors ops profile policy w = (out, w')"
  shows "climbs n (CallSensors ops profile policy) out (bw_state w')"
proof (rule wp_outcome[OF _ assms(2)[unfolded bzm_bringup_stage_sensors_def Let_def]], goal_cases)
  case 1
  show ?case using assms(1)
    by - (rule wp_rules | (rule wp_still, (intro br_rules; (simp; fail))[1]) | (simp add: climb_simps; fail) | (auto simp: climb_simps; fail))+
qed

lemma clocks_climb:
  assumes "verified_up_to n (bw_state w)" "bzm_bringup_stage_clocks ops gap profile policy w = (out, w')"
  shows "climbs n (CallClocks ops gap profile policy) out (bw_state w')"
proof (rule wp_outcome[OF _ assms(2)[unfolded bzm_bringup_stage_clocks_def Let_def]], goal_cases)
  case 1
  show ?case using assms(1)
    by - (rule wp_rules | (rule wp_still, (intro br_rules; (simp; fail))[1]) | (simp add: climb_simps set_all_domain_clocks_def; fail) |
        (auto simp: climb_simps set_all_domain_clocks_def; fail))+
qed

lemma ramp_climbs:
  assumes "verified_up_to n (bw_state w)" "bzm_bringup_stage_balanced_ramp ops policy w = (out, w')"
  shows "climbs n (CallRamp ops policy) out (bw_state w')"
proof (rule wp_outcome[OF _ assms(2)[unfolded bzm_bringup_stage_balanced_ramp_def]], goal_cases)
  case 1
  show ?case using assms(1)
    by - (rule wp_rules | (rule wp_still, (intro br_rules; (simp; fail))[1]) | (simp add: climb_simps; fail) | (auto simp: climb_simps; fail))+
qed

lemma running_climbs:
  assumes "verified_up_to n (bw_state w)" "bzm_bringup_check_running ops policy w = (out, w')"
  shows "climbs n (CallRunning ops policy) out (bw_state w')"
proof (rule wp_outcome[OF _ assms(2)[unfolded bzm_bringup_check_running_def]], goal_cases)
  case 1
  show ?case using assms(1)
    by - (rule wp_rules | (rule wp_still, (intro br_rules; (simp; fail))[1]) | (simp add: climb_simps; fail) | (auto simp: climb_simps; fail))+
qed

section \<open>Live frequency changes\<close>

lemma wp_for:
  assumes "\<And>x s. x \<in> set xs \<Longrightarrow> I s \<Longrightarrow> br_wp (f x) (\<lambda>_. I) R s" "I s"
  shows "br_wp (br_for xs f) (\<lambda>_. I) R s"
  unfolding br_for_def using assms
proof (induction xs arbitrary: s)
  case Nil
  then show ?case by (simp add: wp_return)
next
  case (Cons x xs)
  have "br_wp (f x) (\<lambda>_. I) R s" by (rule Cons.prems) (simp_all add: Cons.prems)
  moreover have "br_wp (br_all (map f xs)) (\<lambda>_. I) R t" if "I t" for t
    by (rule Cons.IH) (use Cons.prems(1) that in auto)
  ultimately have "br_wp (f x) (\<lambda>_. br_wp (br_all (map f xs)) (\<lambda>_. I) R) R s"
    unfolding br_wp_def by (auto elim: br_triple_weaken)
  then show ?case by (simp add: wp_bind)
qed

lemma wp_weaken:
  assumes "br_wp m Q' R' s" "\<And>x t. Q' x t \<Longrightarrow> Q x t" "\<And>out t. R' out t \<Longrightarrow> R out t"
  shows "br_wp m Q R s"
  using assms unfolding br_wp_def by (auto elim: br_triple_weaken)

lemma wp_attempt:
  assumes "br_still m" "\<And>outcome r. br_wp (f outcome r) Q R s"
  shows "br_wp (br_attempt m f) Q R s"
proof -
  have "(\<forall>outcome. br_attempt m f w = (Inl outcome, w') \<longrightarrow> R outcome (bw_state w')) \<and>
      (\<forall>x. br_attempt m f w = (Inr x, w') \<longrightarrow> Q x (bw_state w'))" if w: "bw_state w = s" for w w'
  proof -
    obtain out v where v: "br_outcome_of m w = (out, v)" by (cases "br_outcome_of m w")
    then have "bw_state v = s" using br_still_outcome[OF assms(1) v] w by simp
    then show ?thesis using assms(2)[of out "bw_report v"] v by (simp add: br_attempt_def br_wp_def br_triple_def)
  qed
  then show ?thesis by (simp add: br_wp_def br_triple_def)
qed

lemma round32_not_NaN [simp]: "round32 x \<noteq> NaN"
  by (simp add: round32_def Let_def)

lemma resolved_not_NaN: "bzm_frequency_resolve_target x = Some t \<Longrightarrow> ft_actual_mhz t \<noteq> NaN"
proof -
  assume t: "bzm_frequency_resolve_target x = Some t"
  have "\<exists>n. ft_actual_mhz t = flt_divc (flt_mul (Fin 50) (Fin n)) 8"
    using t unfolding bzm_frequency_resolve_target_def Let_def option.inject
    by (metis bzm_frequency_target_t.select_convs(2) option.distinct(1) option.inject)
  moreover have "flt_divc y c \<noteq> NaN" if "y \<noteq> NaN" for y c using that by (cases y) (simp_all add: flt_divc_def)
  moreover have "flt_mul (Fin 50) (Fin n) \<noteq> NaN" for n by (simp add: flt_mul_def)
  ultimately show ?thesis by metis
qed

lemma flt_not_less_number: "x \<noteq> NaN \<Longrightarrow> y \<noteq> NaN \<Longrightarrow> \<not> flt_lt x y \<Longrightarrow> flt_le y x"
  by (cases x; cases y) auto

lemma fabs_sub_number: "x \<noteq> NaN \<Longrightarrow> isfinite y \<Longrightarrow> fabsf (flt_sub x y) \<noteq> NaN"
  by (cases x; cases y) (auto simp: flt_sub_def round32_def Let_def)

lemma flt_not_le_number: "x \<noteq> NaN \<Longrightarrow> y \<noteq> NaN \<Longrightarrow> \<not> flt_le x y \<Longrightarrow> flt_lt y x"
  by (cases x; cases y) auto

text \<open>Where a domain may end: untouched, or at the clock its target (any target, for the shortcut) resolves to, at most one ramp
  step from where it was; in the initial jump between 800 and 1425 MHz, if it was at the 800 MHz of power-on.\<close>

definition within_step :: "bool \<Rightarrow> cfloat \<Rightarrow> cfloat \<Rightarrow> bool" where
  "within_step jump before after \<longleftrightarrow>
     (if jump then flt_lt (fabsf (flt_sub before (Fin 800))) live_epsilon \<and> flt_le (Fin 800) after \<and> flt_le after (Fin 1425)
      else flt_le (fabsf (flt_sub after before)) (flt_add BZM_FREQUENCY_RAMP_STEP_MHZ live_epsilon))"

definition domain_moves :: "cfloat list \<Rightarrow> bool \<Rightarrow> cfloat list \<Rightarrow> cfloat list \<Rightarrow> bool" where
  "domain_moves targets jump before after \<longleftrightarrow>
     (\<forall>k<8. after ! k = before ! k \<or>
        (\<exists>j<8. (jump \<or> j = k) \<and> (\<exists>t. bzm_frequency_resolve_target (targets ! j) = Some t \<and> after ! k = ft_actual_mhz t) \<and>
           within_step jump (before ! k) (after ! k)))"

lemma domain_moves_refl: "domain_moves targets jump cs cs"
  by (simp add: domain_moves_def)

lemma domain_moves_trans:
  assumes "domain_moves targets jump a b" "domain_moves targets jump b c"
  shows "domain_moves targets jump a c"
  unfolding domain_moves_def
proof (intro allI impI)
  fix k :: nat
  assume k: "k < 8"
  show "c ! k = a ! k \<or> (\<exists>j<8. (jump \<or> j = k) \<and>
      (\<exists>t. bzm_frequency_resolve_target (targets ! j) = Some t \<and> c ! k = ft_actual_mhz t) \<and> within_step jump (a ! k) (c ! k))"
  proof (cases "c ! k = b ! k \<or> b ! k = a ! k")
    case True
    then show ?thesis using assms k unfolding domain_moves_def by (metis (no_types))
  next
    case False
    then obtain j t where j: "j < 8" "jump \<or> j = k" "bzm_frequency_resolve_target (targets ! j) = Some t" "c ! k = ft_actual_mhz t"
      "within_step jump (b ! k) (c ! k)" using assms(2) k unfolding domain_moves_def by blast
    from False obtain i u where i: "jump \<or> i = k" "bzm_frequency_resolve_target (targets ! i) = Some u" "b ! k = ft_actual_mhz u"
      using assms(1) k unfolding domain_moves_def by blast
    have jump
    proof (rule ccontr)
      assume "\<not> jump"
      then have "u = t" using i(1,2) j(2,3) by simp
      then show False using False i(3) j(4) by simp
    qed
    then have "within_step jump (a ! k) (c ! k)"
      using j(5) assms(1) k False by (auto simp: within_step_def domain_moves_def)
    then show ?thesis using j by blast
  qed
qed

text \<open>What the first pass has established about the first \<open>n\<close> domains.\<close>

definition planned :: "cfloat list \<Rightarrow> cfloat list \<Rightarrow> bool \<Rightarrow> nat \<Rightarrow> live_plan \<Rightarrow> bool" where
  "planned clocks targets jump n plan \<longleftrightarrow>
     length (lp_targets plan) = n \<and> length (lp_changed plan) = n \<and>
     (\<forall>j<n. bzm_frequency_resolve_target (targets ! j) = Some (lp_targets plan ! j) \<and>
        (jump \<or> lp_changed plan ! j \<longrightarrow> within_step jump (clocks ! j) (ft_actual_mhz (lp_targets plan ! j)))) \<and>
     (jump \<and> 0 < n \<longrightarrow> lp_shortcut_target plan = ft_actual_mhz (lp_targets plan ! 0))"

lemma planned_next:
  assumes plan: "planned clocks targets jump n plan"
    and t: "bzm_frequency_resolve_target (targets ! n) = Some t"
    and close: "jump \<or> changed \<Longrightarrow> within_step jump (clocks ! n) (ft_actual_mhz t)"
    and shortcut: "if n = 0 \<and> jump then sc = ft_actual_mhz t else sc = lp_shortcut_target plan"
  shows "planned clocks targets jump (Suc n) \<lparr> lp_targets = lp_targets plan @ [t], lp_changed = lp_changed plan @ [changed],
    lp_shortcut_target = sc \<rparr>"
proof -
  have len: "length (lp_targets plan) = n" "length (lp_changed plan) = n" using plan by (auto simp: planned_def)
  show ?thesis
    unfolding planned_def
  proof (intro conjI allI impI)
    fix j
    assume j: "j < Suc n"
    show "bzm_frequency_resolve_target (targets ! j) = Some (lp_targets \<lparr> lp_targets = lp_targets plan @ [t],
        lp_changed = lp_changed plan @ [changed], lp_shortcut_target = sc \<rparr> ! j)"
      using j plan t len by (cases "j = n") (auto simp: planned_def nth_append)
    assume "jump \<or> lp_changed \<lparr> lp_targets = lp_targets plan @ [t], lp_changed = lp_changed plan @ [changed],
        lp_shortcut_target = sc \<rparr> ! j"
    then show "within_step jump (clocks ! j) (ft_actual_mhz (lp_targets \<lparr> lp_targets = lp_targets plan @ [t],
        lp_changed = lp_changed plan @ [changed], lp_shortcut_target = sc \<rparr> ! j))"
      using j plan close len by (cases "j = n") (auto simp: planned_def nth_append)
  qed (use plan shortcut len in \<open>auto simp: planned_def nth_append split: if_splits\<close>)
qed

lemma wp_live_report [wp_rules]: "R outcome s \<Longrightarrow> br_wp (live_frequency_report outcome reason a p r e c n) Q R s"
  by (simp add: live_frequency_report_def wp_report)

lemma plan_domain_planned:
  assumes plan: "planned clocks targets jump n plan"
    and Q: "\<And>plan'. planned clocks targets jump (Suc n) plan' \<Longrightarrow> Q plan' s" and R: "R BZM_BRINGUP_BLOCKED s"
  shows "br_wp (plan_domain clocks targets jump (n, a, p) plan) Q R s"
proof (cases "bzm_frequency_resolve_target (targets ! n)")
  case None
  then show ?thesis by (simp add: plan_domain_def Let_def wp_live_report R)
next
  case (Some t)
  have t: "ft_actual_mhz t \<noteq> NaN" using resolved_not_NaN[OF Some] .
  define delta where "delta = fabsf (flt_sub (ft_actual_mhz t) (clocks ! n))"
  note next' = planned_next[OF plan Some]
  have eps: "live_epsilon \<noteq> NaN" "flt_add BZM_FREQUENCY_RAMP_STEP_MHZ live_epsilon \<noteq> NaN"
    by (simp add: live_epsilon_def, cases live_epsilon, simp_all add: live_epsilon_def)
  show ?thesis
    unfolding plan_domain_def Let_def prod.case Some option.case delta_def[symmetric]
  proof ((rule wp_if wp_live_report R)+, goal_cases)
    case 1
    then have bounds: "\<not> flt_lt (ft_actual_mhz t) BZM_FREQUENCY_POWER_ON_MHZ"
        "\<not> flt_lt BZM_FREQUENCY_INITIAL_MAX_MHZ (ft_actual_mhz t)"
        "\<not> flt_le live_epsilon (fabsf (flt_sub (clocks ! n) (Fin 800)))" "isfinite (clocks ! n)"
      by (simp_all add: bzm_frequency_request_is_valid_def)
    have start: "flt_lt (fabsf (flt_sub (clocks ! n) (Fin 800))) live_epsilon"
      by (rule flt_not_le_number[OF eps(1) _ bounds(3)], rule fabs_sub_number) (use bounds(4) in auto)
    have "within_step jump (clocks ! n) (ft_actual_mhz t)"
      using bounds(1,2)[THEN flt_not_less_number[rotated 2]] t 1 start by (simp add: within_step_def)
    then show ?case
      using next'[of "flt_le live_epsilon delta" "ft_actual_mhz t"] 1 by (intro wp_return Q) (cases plan, simp)
  next
    case 2
    then have bounds: "\<not> flt_lt (ft_actual_mhz t) BZM_FREQUENCY_POWER_ON_MHZ"
        "\<not> flt_lt BZM_FREQUENCY_INITIAL_MAX_MHZ (ft_actual_mhz t)"
        "\<not> flt_le live_epsilon (fabsf (flt_sub (clocks ! n) (Fin 800)))" "isfinite (clocks ! n)"
      by (simp_all add: bzm_frequency_request_is_valid_def)
    have start: "flt_lt (fabsf (flt_sub (clocks ! n) (Fin 800))) live_epsilon"
      by (rule flt_not_le_number[OF eps(1) _ bounds(3)], rule fabs_sub_number) (use bounds(4) in auto)
    have "within_step jump (clocks ! n) (ft_actual_mhz t)"
      using bounds(1,2)[THEN flt_not_less_number[rotated 2]] t 2 start by (simp add: within_step_def)
    then show ?case
      using next'[of "flt_le live_epsilon delta" "lp_shortcut_target plan"] 2 by (intro wp_if wp_live_report R wp_return Q) (cases plan, simp)
  next
    case 3
    have "isfinite (clocks ! n)" using 3(1) by (simp add: bzm_frequency_request_is_valid_def)
    then have "delta \<noteq> NaN" unfolding delta_def by (rule fabs_sub_number[OF t])
    then have "within_step jump (clocks ! n) (ft_actual_mhz t)" if "\<not> flt_lt (flt_add BZM_FREQUENCY_RAMP_STEP_MHZ live_epsilon) delta"
      using 3(2) that flt_not_less_number[OF eps(2)] by (simp add: within_step_def delta_def)
    then show ?case
      using next'[of "flt_le live_epsilon delta" "lp_shortcut_target plan"] 3
      by (intro wp_if wp_live_report R wp_return Q) (cases plan, auto)
  qed
qed

lemma br_still_live [br_rules]:
  "br_still (await_live_lock ops a p c n v)"
  "br_still (verify_live_frequency_domain ops a p t c)"
  "br_still (write_dividers ops i a p t c)"
  "br_still (program_live_frequency_domain ops a p t c)"
  "br_still (program_live_broadcast_shortcut ops t)"
proof -
  show await: "br_still (await_live_lock ops a p c n v)" for a p c n v
    by (induction n arbitrary: v) (auto intro!: br_rules)
  show verify: "br_still (verify_live_frequency_domain ops a p t c)" for a p c
    unfolding verify_live_frequency_domain_def by (intro br_rules await)
  show dividers: "br_still (write_dividers ops i a p t c)" for i a p c
    unfolding write_dividers_def Let_def by (intro br_rules) auto
  show "br_still (program_live_frequency_domain ops a p t c)"
    unfolding program_live_frequency_domain_def
    by (rule br_still_all) (auto intro: dividers verify br_rules)
  show "br_still (program_live_broadcast_shortcut ops t)"
    unfolding program_live_broadcast_shortcut_def
    by (rule br_still_all) (auto intro!: dividers verify br_rules)
qed


lemma live_domains_for: "br_for live_domains f = br_all [f (0, 0, 0), f (1, 0, 1), f (2, 1, 0), f (3, 1, 1), f (4, 2, 0), f (5, 2, 1),
    f (6, 3, 0), f (7, 3, 1)]"
  by (simp add: br_for_def live_domains_def)

lemma plan_all:
  assumes "\<And>plan. planned clocks targets jump 8 plan \<Longrightarrow> Q plan s" "R BZM_BRINGUP_BLOCKED s"
  shows "br_wp (br_fold (plan_domain clocks targets jump) live_domains \<lparr> lp_targets = [], lp_changed = [], lp_shortcut_target = Fin 0 \<rparr>)
     Q R s"
proof -
  note step = wp_bind[OF plan_domain_planned[where R = R and s = s, OF _ _ assms(2)]]
  have first: "planned clocks targets jump 0 \<lparr> lp_targets = [], lp_changed = [], lp_shortcut_target = Fin 0 \<rparr>"
    by (simp add: planned_def)
  have last: "br_wp (br_return plan) Q R s" if "planned clocks targets jump 8 plan" for plan
    using assms(1)[OF that] by (rule wp_return)
  have run: "br_wp (br_fold (plan_domain clocks targets jump) (map (\<lambda>k. (k, f k, g k)) [n..<8]) plan) Q R s"
    if "n \<le> 8" "planned clocks targets jump n plan" for n plan f g
    using that
  proof (induction "8 - n" arbitrary: n plan)
    case 0
    then show ?case using last by simp
  next
    case (Suc m)
    then have n: "[n..<8] = n # [Suc n..<8]" by (simp add: upt_conv_Cons)
    show ?case unfolding n list.map br_fold.simps
      by (rule step[OF Suc.prems(2)], rule Suc.hyps) (use Suc.hyps(2) in auto)
  qed
  have "live_domains = map (\<lambda>k. (k, k div 2, k mod 2)) [0..<8]" by (simp add: live_domains_def upt_rec)
  then show ?thesis using run[OF _ first, of "\<lambda>k. k div 2" "\<lambda>k. k mod 2"] by simp
qed

text \<open>What one attempt may leave of the state.\<close>

definition live_result :: "cfloat list \<Rightarrow> bool \<Rightarrow> bzm_bringup_state_t \<Rightarrow> bzm_bringup_state_t \<Rightarrow> bool" where
  "live_result targets jump before s \<longleftrightarrow>
     bringup_flags s = bringup_flags before \<and> length (bu_domain_clock_mhz s) = length (bu_domain_clock_mhz before) \<and>
     domain_moves targets jump (bu_domain_clock_mhz before) (bu_domain_clock_mhz s)"

lemma live_result_refl: "live_result targets jump s s"
  by (simp add: live_result_def domain_moves_refl)

lemma live_result_trans: "live_result targets jump a b \<Longrightarrow> live_result targets jump b c \<Longrightarrow> live_result targets jump a c"
  using domain_moves_trans unfolding live_result_def by metis

lemma live_result_average: "live_result targets jump before s \<Longrightarrow> live_result targets jump before (update_average s)"
  by (simp add: live_result_def update_average_def bringup_flags_def)

lemma live_result_stamp: "live_result targets jump before s \<Longrightarrow> live_result targets jump before (s\<lparr> bu_clocks_configured_us := t \<rparr>)"
  by (simp add: live_result_def bringup_flags_def)

lemma live_result_domain:
  assumes s: "live_result targets jump before s" and k: "k < 8"
    and t: "bzm_frequency_resolve_target (targets ! k) = Some t" "within_step jump (bu_domain_clock_mhz before ! k) (ft_actual_mhz t)"
  shows "live_result targets jump before (set_domain_clock k (ft_actual_mhz t) s)"
proof -
  have "domain_moves targets jump (bu_domain_clock_mhz before) ((bu_domain_clock_mhz s)[k := ft_actual_mhz t])"
    using s t k unfolding live_result_def domain_moves_def
    by (metis (no_types, lifting) nth_list_update_eq nth_list_update_neq list_update_beyond not_le)
  then show ?thesis using s by (simp add: live_result_def set_domain_clock_def bringup_flags_def)
qed


lemma br_wp_mono:
  assumes "br_wp m Q R s" "\<And>x t. Q x t \<Longrightarrow> Q' x t"
  shows "br_wp m Q' R s"
  by (rule wp_weaken[OF assms])

lemma live_domain_number: "(k, a, p) \<in> set live_domains \<Longrightarrow> k < 8"
  by (auto simp: live_domains_def)

lemma change_domain_result:
  assumes plan: "planned (bu_domain_clock_mhz before) targets jump 8 plan" and k: "k < 8"
    and s: "live_result targets jump before s"
  shows "br_wp (change_domain ops plan (k, a, p)) (\<lambda>_. live_result targets jump before) (\<lambda>_. live_result targets jump before) s"
proof -
  have moved: "live_result targets jump before (set_domain_clock k (ft_actual_mhz (lp_targets plan ! k)) s)" if "lp_changed plan ! k"
    by (rule live_result_domain[OF s k]) (use plan k that in \<open>auto simp: planned_def\<close>)
  show ?thesis
    unfolding change_domain_def prod.case
    by (intro wp_if wp_attempt br_rules wp_bind wp_modify wp_exit wp_return s live_result_average moved)
qed

lemma shortcut_result:
  assumes plan: "planned (bu_domain_clock_mhz before) targets True 8 plan" and len: "length (bu_domain_clock_mhz before) = 8"
    and s: "live_result targets True before s"
  shows "live_result targets True before (set_all_domain_clocks s (lp_shortcut_target plan))"
proof -
  have sc: "bzm_frequency_resolve_target (targets ! 0) = Some (lp_targets plan ! 0)"
      "lp_shortcut_target plan = ft_actual_mhz (lp_targets plan ! 0)"
      "within_step True (bu_domain_clock_mhz before ! k) (ft_actual_mhz (lp_targets plan ! 0))" if "k < 8" for k
    using plan that by (auto simp: planned_def within_step_def)
  have len': "length (bu_domain_clock_mhz s) = 8" using s len by (simp add: live_result_def)
  have "domain_moves targets True (bu_domain_clock_mhz before) (replicate 8 (lp_shortcut_target plan))"
    unfolding domain_moves_def
  proof (intro allI impI disjI2)
    fix k :: nat
    assume k: "k < 8"
    then have "replicate 8 (lp_shortcut_target plan) ! k = ft_actual_mhz (lp_targets plan ! 0)" using sc(2) by simp
    moreover have "within_step True (bu_domain_clock_mhz before ! k) (ft_actual_mhz (lp_targets plan ! 0))"
      by (rule sc(3)[OF k])
    ultimately show "\<exists>j<8. (True \<or> j = k) \<and> (\<exists>t. bzm_frequency_resolve_target (targets ! j) = Some t \<and>
        replicate 8 (lp_shortcut_target plan) ! k = ft_actual_mhz t) \<and>
        within_step True (bu_domain_clock_mhz before ! k) (replicate 8 (lp_shortcut_target plan) ! k)"
      using sc(1)[OF k] by (intro exI[of _ 0]) auto
  qed
  then show ?thesis using s len len' by (simp add: live_result_def set_all_domain_clocks_def bringup_flags_def)
qed

text \<open>An attempt that succeeds has found the chain running.\<close>

lemma live_step_result:
  assumes len: "length (bu_domain_clock_mhz s) = 8"
  shows "br_wp (live_frequency_domains_step_once ops (Some targets) jump) Q
     (\<lambda>out t. live_result targets jump s t \<and> (out = BZM_BRINGUP_GOOD \<longrightarrow> bu_running_verified s)) s"
    (is "br_wp _ _ ?R s")
proof -
  have bad: "?R out t" if "live_result targets jump s t" "out \<noteq> BZM_BRINGUP_GOOD \<or> bu_running_verified s" for out t
    using that by simp
  show ?thesis
    unfolding live_frequency_domains_step_once_def option.sel
  proof (rule wp_bind, rule wp_get, rule wp_if, goal_cases)
    case 1
    show ?case by (intro wp_live_report bad live_result_refl) simp
  next
    case 2
    then have running: "bu_running_verified s" by simp
    have all: "?R out t" if "live_result targets jump s t" for out t using that running by simp
    have change: "br_wp (br_for live_domains (change_domain ops plan)) (\<lambda>_. live_result targets jump s) ?R t"
      if "planned (bu_domain_clock_mhz s) targets jump 8 plan" "live_result targets jump s t" for plan t
    proof (rule wp_for[where I = "live_result targets jump s"], goal_cases)
      case 2
      show ?case by (rule that(2))
    next
      case (1 x u)
      obtain k a p where k: "x = (k, a, p)" by (cases x rule: prod_cases3)
      have "k < 8" using 1(1) k live_domain_number by blast
      from change_domain_result[OF that(1) this 1(2), of ops a p] show ?case
        unfolding k by (rule wp_weaken) (simp_all add: all)
    qed
    have finish: "br_wp (br_all [br_bind (br_now ops) (\<lambda>now_us. br_modify (\<lambda>state. state\<lparr> bu_clocks_configured_us := now_us \<rparr>)),
         br_bind (br_get bu_clock_mhz)
           (\<lambda>clock_mhz. live_frequency_report BZM_BRINGUP_GOOD BZM_BRINGUP_REASON_NONE (BZM_BRINGUP_ASIC_COUNT - 1)
              (BZM_BRINGUP_PLL_COUNT - 1) 0 (rounded_mhz clock_mhz) (rounded_mhz clock_mhz) 8)]) Q ?R t"
      if "live_result targets jump s t" for t
      by (intro wp_all_Cons wp_bind, rule wp_still[OF br_still_calls(5)], intro wp_modify wp_all_Cons wp_bind wp_get wp_live_report all,
          rule live_result_stamp[OF that], rule all[OF that])
    show ?case
    proof (rule wp_bind, rule wp_get, rule wp_bind, rule plan_all, goal_cases)
      case (1 plan)
      note plan = this
      show ?case
      proof (rule wp_all_Cons, rule wp_if, goal_cases)
        case 1
        then have j: "jump" by simp
        show ?case
          by (rule wp_bind, rule wp_still[OF br_still_live(5)], rule wp_modify, rule finish)
            (use shortcut_result[OF _ len live_result_refl] plan j in \<open>auto intro: all live_result_refl\<close>)
      next
        case 2
        show ?case
          by (rule wp_bind, rule br_wp_mono[OF change[OF plan live_result_refl]], rule wp_modify, rule finish,
              rule live_result_average)
      qed
    next
      case 2
      show ?case by (intro bad live_result_refl) simp
    qed
  qed
qed

lemma live_step_none:
  "br_wp (live_frequency_domains_step_once ops None jump) Q (\<lambda>out t. t = s \<and> out \<noteq> BZM_BRINGUP_GOOD) s"
  unfolding live_frequency_domains_step_once_def by (rule wp_bind, rule wp_get, rule wp_if, rule wp_live_report, simp, simp only: simp_thms)

lemma live_attempts_result:
  assumes "length (bu_domain_clock_mhz (bw_state w)) = 8" "live_attempts ops (Some targets) jump n w = (out, w')"
  shows "live_result targets jump (bw_state w) (bw_state w') \<and> (out = BZM_BRINGUP_GOOD \<longrightarrow> bu_running_verified (bw_state w))"
  using assms
proof (induction n arbitrary: w)
  case 0
  then show ?case by (simp add: live_result_refl)
next
  case (Suc n)
  obtain o1 w1 where one: "br_outcome_of (live_frequency_domains_step_once ops (Some targets) jump) w = (o1, w1)"
    by (cases "br_outcome_of (live_frequency_domains_step_once ops (Some targets) jump) w")
  have r1: "live_result targets jump (bw_state w) (bw_state w1) \<and> (o1 = BZM_BRINGUP_GOOD \<longrightarrow> bu_running_verified (bw_state w))"
    by (rule wp_outcome[where R = "\<lambda>out t. live_result targets jump (bw_state w) t \<and>
      (out = BZM_BRINGUP_GOOD \<longrightarrow> bu_running_verified (bw_state w))", OF live_step_result[OF Suc.prems(1)] one])
  consider "(out, w') = (o1, w1)"
    | "live_attempts ops (Some targets) jump n (snd (br_delay ops 10 w1)) = (out, w')"
    using Suc.prems(2) unfolding live_attempts.simps one prod.case Let_def by (metis (no_types))
  then show ?case
  proof cases
    case 1
    then show ?thesis using r1 by simp
  next
    case 2
    have st: "bw_state (snd (br_delay ops 10 w1)) = bw_state w1"
      using br_still_step[OF br_still_calls(4)] by (metis prod.collapse)
    have "length (bu_domain_clock_mhz (bw_state (snd (br_delay ops 10 w1)))) = 8"
      using r1 Suc.prems(1) st by (simp add: live_result_def)
    from Suc.IH[OF this 2] have r2: "live_result targets jump (bw_state w1) (bw_state w')"
        "out = BZM_BRINGUP_GOOD \<longrightarrow> bu_running_verified (bw_state w1)" unfolding st by blast+
    have "bu_running_verified (bw_state w1) = bu_running_verified (bw_state w)"
      using r1 by (simp add: live_result_def bringup_flags_def)
    then show ?thesis using live_result_trans[OF r1[THEN conjunct1] r2(1)] r2(2) by simp
  qed
qed


lemma live_attempts_none:
  "live_attempts ops None jump n w = (out, w') \<Longrightarrow> bw_state w' = bw_state w \<and> out \<noteq> BZM_BRINGUP_GOOD"
proof (induction n arbitrary: w)
  case (Suc n)
  obtain o1 w1 where one: "br_outcome_of (live_frequency_domains_step_once ops None jump) w = (o1, w1)"
    by (cases "br_outcome_of (live_frequency_domains_step_once ops None jump) w")
  have r1: "bw_state w1 = bw_state w \<and> o1 \<noteq> BZM_BRINGUP_GOOD"
    by (rule wp_outcome[where R = "\<lambda>out t. t = bw_state w \<and> out \<noteq> BZM_BRINGUP_GOOD", OF live_step_none one])
  have st: "bw_state (snd (br_delay ops 10 w1)) = bw_state w1"
    using br_still_step[OF br_still_calls(4)] by (metis prod.collapse)
  consider "(out, w') = (o1, w1)" | "live_attempts ops None jump n (snd (br_delay ops 10 w1)) = (out, w')"
    using Suc.prems unfolding live_attempts.simps one prod.case Let_def by (metis (no_types))
  then show ?case using Suc.IH r1 st by cases auto
qed simp

lemma live_call:
  assumes "length (bu_domain_clock_mhz (bw_state w)) = 8"
    "bzm_bringup_live_frequency_domains_step ops targets jump w = (out, w')"
  obtains v v' where "bw_state v = bw_state w" "bw_state w' = bw_state v'" "live_attempts ops targets jump 3 v = (out, v')"
proof (cases "bw_report w")
  case None
  obtain o1 w1 where one: "live_attempts ops targets jump 3 (w\<lparr> bw_report := Some zero_bringup_report \<rparr>) = (o1, w1)"
    by (cases "live_attempts ops targets jump 3 (w\<lparr> bw_report := Some zero_bringup_report \<rparr>)")
  show ?thesis
    by (rule that[of "w\<lparr> bw_report := Some zero_bringup_report \<rparr>" w1])
      (use assms(2) None one in \<open>auto simp: bzm_bringup_live_frequency_domains_step_def\<close>)
next
  case (Some r)
  show ?thesis
    by (rule that[of w w']) (use assms(2) Some in \<open>auto simp: bzm_bringup_live_frequency_domains_step_def\<close>)
qed

lemma live_climbs:
  assumes level: "verified_up_to n (bw_state w)" and "bzm_bringup_live_frequency_domains_step ops targets jump w = (out, w')"
  shows "climbs n (CallLive ops targets jump) out (bw_state w')"
proof -
  have len: "length (bu_domain_clock_mhz (bw_state w)) = 8" using level by (simp add: verified_flags)
  obtain v v' where v: "bw_state v = bw_state w" "bw_state w' = bw_state v'" "live_attempts ops targets jump 3 v = (out, v')"
    by (rule live_call[OF len assms(2)])
  show ?thesis
  proof (cases targets)
    case None
    then have "bw_state w' = bw_state w" "out \<noteq> BZM_BRINGUP_GOOD" using live_attempts_none v by metis+
    then show ?thesis using level by (simp add: climbs_def ladder_step_def)
  next
    case (Some ts)
    have "live_result ts jump (bw_state v) (bw_state v') \<and> (out = BZM_BRINGUP_GOOD \<longrightarrow> bu_running_verified (bw_state v))"
      by (rule live_attempts_result) (use v len Some in simp_all)
    then show ?thesis
      using v level by (auto simp: climbs_def ladder_step_def live_result_def bringup_flags_def verified_flags)
  qed
qed


section \<open>Sequences of calls\<close>

text \<open>One step, from any rung.\<close>

lemma perform_climbs:
  assumes "verified_up_to n (bw_state w)" "bringup_perform call w = (out, w')"
  shows "climbs n call out (bw_state w')"
  using assms
  by (cases call) (auto dest: chain_climbs sensors_climb clocks_climb ramp_climbs running_climbs live_climbs)

text \<open>The calls with their outcomes, in order, and the state they leave. The report may be given or withheld, and the device
  may change, between two calls: the caller's part of the world is replaced before each call.\<close>

fun bringup_run :: "('c bringup_call \<times> bzm_bringup_report_t option \<times> 'c) list \<Rightarrow> bzm_bringup_state_t
    \<Rightarrow> ('c bringup_call \<times> bzm_bringup_outcome_t) list \<times> bzm_bringup_state_t" where
  "bringup_run [] s = ([], s)"
| "bringup_run ((call, report, device) # calls) s =
     (case bringup_perform call \<lparr> bw_state = s, bw_report = report, bw_device = device \<rparr> of
        (outcome, w) \<Rightarrow> (case bringup_run calls (bw_state w) of (history, s) \<Rightarrow> ((call, outcome) # history, s)))"

lemma run_refines_ladder:
  assumes "verified_up_to n s" "bringup_run calls s = (history, t)"
  shows "map fst history = map fst calls \<and> (\<exists>m. ladder n history = Some m \<and> verified_up_to m t)"
  using assms
proof (induction calls arbitrary: n s history)
  case (Cons c calls)
  obtain call report device where c: "c = (call, report, device)" by (cases c rule: prod_cases3)
  obtain out w where one: "bringup_perform call \<lparr> bw_state = s, bw_report = report, bw_device = device \<rparr> = (out, w)"
    by (cases "bringup_perform call \<lparr> bw_state = s, bw_report = report, bw_device = device \<rparr>")
  obtain rest where rest: "bringup_run calls (bw_state w) = (rest, t)" "history = (call, out) # rest"
    using Cons.prems(2) one c by (auto split: prod.splits)
  have "climbs n call out (bw_state w)" using perform_climbs[OF _ one] Cons.prems(1) by simp
  then obtain m where "ladder_step n call out = Some m" "verified_up_to m (bw_state w)"
    by (auto simp: climbs_def split: option.splits)
  then show ?case using Cons.IH[OF _ rest(1)] rest(2) c by auto
qed simp

text \<open>The rungs passed, in order.\<close>

definition rungs_passed :: "('c bringup_call \<times> bzm_bringup_outcome_t) list \<Rightarrow> nat list" where
  "rungs_passed history = map (\<lambda>(call, outcome). rung call) (filter (\<lambda>(call, outcome). outcome = BZM_BRINGUP_GOOD) history)"

lemma subseq_rungs: "k \<le> n \<Longrightarrow> subseq [1..<n + 1] hist \<Longrightarrow> subseq [1..<k + 1] hist"
proof -
  assume k: "k \<le> n" and hist: "subseq [1..<n + 1] hist"
  have "[1..<n + 1] = [1..<k + 1] @ [k + 1..<n + 1]" using upt_add_eq_append[of 1 "k + 1" "n - k"] k by simp
  then show ?thesis using hist by (metis subseq_order.trans subseq_rev_drop_many subseq_order.refl)
qed

lemma ladder_step_subseq:
  assumes "ladder_step n call outcome = Some m" "subseq [1..<n + 1] hist"
  shows "subseq [1..<m + 1] (hist @ rungs_passed [(call, outcome)])"
proof (cases "outcome = BZM_BRINGUP_GOOD \<and> rung call \<noteq> 0")
  case True
  then have k: "rung call - 1 \<le> n" "m = rung call"
    using assms(1) by (auto simp: ladder_step_def Let_def split: if_splits)
  have "[1..<rung call + 1] = [1..<rung call - 1 + 1] @ [rung call]" using True by simp
  moreover have "subseq ([1..<rung call - 1 + 1] @ [rung call]) (hist @ [rung call])"
    by (rule list_emb_append_mono[OF subseq_rungs[OF k(1) assms(2)]]) simp
  ultimately show ?thesis using k(2) True by (simp add: rungs_passed_def)
next
  case False
  then have "m \<le> n" using assms(1) by (auto simp: ladder_step_def Let_def split: if_splits)
  from subseq_rungs[OF this assms(2)] show ?thesis by (rule subseq_rev_drop_many)
qed

lemma ladder_subseq:
  "ladder n history = Some m \<Longrightarrow> subseq [1..<n + 1] hist \<Longrightarrow> subseq [1..<m + 1] (hist @ rungs_passed history)"
proof (induction history arbitrary: n hist)
  case (Cons h history)
  obtain call outcome where h: "h = (call, outcome)" by (cases h)
  obtain k where k: "ladder_step n call outcome = Some k" "ladder k history = Some m"
    using Cons.prems(1) h by (auto split: option.splits)
  have "rungs_passed (h # history) = rungs_passed [(call, outcome)] @ rungs_passed history"
    by (simp add: rungs_passed_def h)
  then show ?case using Cons.IH[OF k(2) ladder_step_subseq[OF k(1) Cons.prems(2)]] by simp
qed (simp add: rungs_passed_def)

text \<open>C8. However often and in whatever order the stages are called from a fresh state, with whatever tables of operations,
  profiles, reports and device behaviour, the marks of the verified stages are those of the ladder machine fed with the
  calls and their outcomes: always the first ones of the sequence chain, sensors, clocks, balanced ramp, running. A stage
  passes only when the one below it is verified, and leaves its own mark as the highest; a stage that does not pass takes away
  its own mark and those above it, unless the call was turned down for its arguments; a live frequency change leaves the marks alone
  and succeeds on a running board only. So each verified stage has passed after the one below it, and the board counts as
  running only after all five stages passed in this order.\<close>

theorem bringup_climbs_ladder:
  "case bringup_run calls bzm_bringup_init of (history, s) \<Rightarrow>
     map fst history = map fst calls \<and>
     (\<exists>n. ladder 0 history = Some n \<and> verified_up_to n s \<and> subseq [1..<n + 1] (rungs_passed history))"
proof (cases "bringup_run calls bzm_bringup_init")
  case (Pair history s)
  have "verified_up_to 0 bzm_bringup_init" by (simp add: verified_flags bzm_bringup_init_def)
  from run_refines_ladder[OF this Pair] obtain n where
    n: "map fst history = map fst calls" "ladder 0 history = Some n" "verified_up_to n s" by blast
  moreover have "subseq [1..<n + 1] (rungs_passed history)" using ladder_subseq[OF n(2), of "[]"] by simp
  ultimately show ?thesis by (auto simp: Pair)
qed

text \<open>C37. A live change of frequencies, with its up to three attempts, leaves each of the eight domains at its clock or moves it.
  Outside the initial jump it moves a domain only to the clock its own target resolves to, at most one ramp step and the tolerance
  (25.001 MHz) away. In the initial jump, which may be far longer, it moves a domain only from 800 MHz (within 0.001 MHz)
  to a clock one of the targets resolves to, between 800 and 1425 MHz. It succeeds only on a running board, and keeps these
  bounds when it fails half way.\<close>

theorem live_frequency_stays_close:
  assumes "length (bu_domain_clock_mhz (bw_state w)) = 8"
    and "bzm_bringup_live_frequency_domains_step ops (Some targets) jump w = (out, w')"
  shows "domain_moves targets jump (bu_domain_clock_mhz (bw_state w)) (bu_domain_clock_mhz (bw_state w')) \<and>
     (out = BZM_BRINGUP_GOOD \<longrightarrow> bu_running_verified (bw_state w))"
proof -
  obtain v v' where v: "bw_state v = bw_state w" "bw_state w' = bw_state v'" "live_attempts ops (Some targets) jump 3 v = (out, v')"
    by (rule live_call[OF assms])
  have "live_result targets jump (bw_state v) (bw_state v') \<and> (out = BZM_BRINGUP_GOOD \<longrightarrow> bu_running_verified (bw_state v))"
    by (rule live_attempts_result) (use v assms(1) in simp_all)
  then show ?thesis unfolding v live_result_def by blast
qed


text \<open>A chain that answers every call, with all PLLs locked and set to 806.25 MHz, and its state after the last stage.\<close>

definition answering_ops :: "unit bzm_bringup_ops_t" where
  "answering_ops = \<lparr> bo_probe_noop = Some (\<lambda>a c. (BZM_BRINGUP_PROBE_RESPONSE, c)), bo_write_u32 = Some (\<lambda>a e r v c. (True, c)),
     bo_read_u32 = Some (\<lambda>a e r c. (Some (if r = BZM_LOCAL_REG_PLL0_FBDIV \<or> r = pll_register 1 BZM_LOCAL_REG_PLL0_FBDIV then 129
        else if r = BZM_LOCAL_REG_PLL0_POSTDIV \<or> r = pll_register 1 BZM_LOCAL_REG_PLL0_POSTDIV then 0x1242 else 5), c)),
     bo_delay_ms = Some (\<lambda>ms c. c), bo_now_us = Some (\<lambda>c. (7, c)), bo_telemetry_snapshot = None,
     bo_balanced_batch_begin = None, bo_balanced_pair_commit = None, bo_balanced_batch_end = None, bo_activation_barrier = None \<rparr>"

definition running_world :: "unit bringup_world" where
  "running_world = \<lparr> bw_state = bzm_bringup_init\<lparr> bu_clocks_verified := True, bu_running_verified := True, bu_clock_mhz := Fin 800,
     bu_domain_clock_mhz := replicate 8 (Fin 800) \<rparr>, bw_report = None, bw_device = () \<rparr>"

theorem live_frequency_stays_close_witness:
  "\<exists>out w'. bzm_bringup_live_frequency_domains_step answering_ops (Some (replicate 8 (Fin (3225 / 4)))) False running_world = (out, w') \<and>
     domain_moves (replicate 8 (Fin (3225 / 4))) False (replicate 8 (Fin 800)) (bu_domain_clock_mhz (bw_state w'))"
proof -
  obtain out w' where r: "bzm_bringup_live_frequency_domains_step answering_ops (Some (replicate 8 (Fin (3225 / 4)))) False
      running_world = (out, w')"
    by (cases "bzm_bringup_live_frequency_domains_step answering_ops (Some (replicate 8 (Fin (3225 / 4)))) False running_world")
  then show ?thesis using live_frequency_stays_close[OF _ r] by (simp add: running_world_def bzm_bringup_init_def)
qed

end
