(* ===== verification/PowerPolicy.thy ===== *)
theory PowerPolicy
  imports Floats
begin

text \<open>
  The owner of the board's power (\<open>components/power_management/power_policy.c\<close>) and the task that is its only caller
  (\<open>main/tasks/power_management_task.c\<close>): start, stop, pause, resume, maintenance, cooling down after overheating, and the
  order in which the task serves requests, stop intents and one policy step per iteration.
  The board's operations are functions on a device state of any type; a pointer that may be NULL is an option.
  The two counters of the stop intent are parts of the device, which other tasks and the board's operations reach as well; what an
  iteration reads of the settings and of the rest of the system is its input.
\<close>

section \<open>Model: data\<close>

record power_target_t =
  pwt_voltage_mv :: u16
  pwt_frequency_mhz :: cfloat

datatype power_health_t = POWER_HEALTH_OK | POWER_HEALTH_OVERHEAT | POWER_HEALTH_FAULT

datatype power_start_result_t = POWER_START_OK | POWER_START_FAILED | POWER_START_OVERHEAT

datatype power_owner_t = POWER_OWNER_NONE | POWER_OWNER_OTA | POWER_OWNER_BRIDGE | POWER_OWNER_RESTART

record power_sample_t =
  pws_health :: power_health_t
  pws_vreg_valid :: bool
  pws_vreg_c :: cfloat
  pws_off_asic_sensor_required :: bool
  pws_asic_valid :: bool
  pws_asic_c :: cfloat
  pws_detail :: string

record 'c power_operations_t =
  pwo_start :: "('c \<Rightarrow> power_start_result_t \<times> 'c) option"
  pwo_stop :: "('c \<Rightarrow> bool \<times> 'c) option"
  pwo_apply :: "(power_target_t \<Rightarrow> 'c \<Rightarrow> bool \<times> 'c) option"
  pwo_maintenance :: "(power_owner_t \<Rightarrow> bool \<Rightarrow> 'c \<Rightarrow> bool \<times> 'c) option"
  pwo_overheat :: "(bool \<Rightarrow> 'c \<Rightarrow> 'c) option"
  pwo_save_target :: "(power_target_t \<Rightarrow> 'c \<Rightarrow> bool \<times> 'c) option"
  pwo_cancelled :: "('c \<Rightarrow> bool \<times> 'c) option"
  pwo_minimum_voltage_mv :: u16
  pwo_minimum_frequency_mhz :: cfloat

record 'c power_policy_t =
  pw_operations :: "'c power_operations_t"
  pw_ready :: bool
  pw_running :: bool
  pw_stopped :: bool
  pw_paused :: bool
  pw_fault :: bool
  pw_cooling :: bool
  pw_reduced_target_saved :: bool
  pw_pool_unavailable :: bool
  pw_target :: power_target_t
  pw_owner :: power_owner_t
  pw_cooling_since_ms :: u64
  pw_cooling_target :: power_target_t

section \<open>Model: calls of the table\<close>

text \<open>\<open>power_policy_init\<close> refuses a table without one of the first six members.\<close>

definition call_start :: "'c power_policy_t \<Rightarrow> 'c \<Rightarrow> power_start_result_t \<times> 'c" where
  "call_start policy c = (case pwo_start (pw_operations policy) of Some f \<Rightarrow> f c | None \<Rightarrow> (POWER_START_FAILED, c))"

definition call_stop :: "'c power_policy_t \<Rightarrow> 'c \<Rightarrow> bool \<times> 'c" where
  "call_stop policy c = (case pwo_stop (pw_operations policy) of Some f \<Rightarrow> f c | None \<Rightarrow> (False, c))"

definition call_apply :: "'c power_policy_t \<Rightarrow> power_target_t \<Rightarrow> 'c \<Rightarrow> bool \<times> 'c" where
  "call_apply policy target c = (case pwo_apply (pw_operations policy) of Some f \<Rightarrow> f target c | None \<Rightarrow> (False, c))"

definition call_maintenance :: "'c power_policy_t \<Rightarrow> power_owner_t \<Rightarrow> bool \<Rightarrow> 'c \<Rightarrow> bool \<times> 'c" where
  "call_maintenance policy owner acquire c =
     (case pwo_maintenance (pw_operations policy) of Some f \<Rightarrow> f owner acquire c | None \<Rightarrow> (False, c))"

definition call_overheat :: "'c power_policy_t \<Rightarrow> bool \<Rightarrow> 'c \<Rightarrow> 'c" where
  "call_overheat policy enabled c = (case pwo_overheat (pw_operations policy) of Some f \<Rightarrow> f enabled c | None \<Rightarrow> c)"

definition call_save_target :: "'c power_policy_t \<Rightarrow> power_target_t \<Rightarrow> 'c \<Rightarrow> bool \<times> 'c" where
  "call_save_target policy target c =
     (case pwo_save_target (pw_operations policy) of Some f \<Rightarrow> f target c | None \<Rightarrow> (False, c))"

section \<open>Model: the policy\<close>

text \<open>\<open>stop\<close>; the answer comes first.\<close>

definition stop_board :: "'c power_policy_t \<Rightarrow> 'c \<Rightarrow> bool \<times> 'c power_policy_t \<times> 'c" where
  "stop_board policy c =
     (case call_stop policy c of
        (stopped, c) \<Rightarrow>
          (stopped, policy\<lparr> pw_running := False, pw_stopped := stopped, pw_fault := pw_fault policy \<or> \<not> stopped \<rparr>, c))"

definition cancelled :: "'c power_policy_t \<Rightarrow> 'c \<Rightarrow> bool \<times> 'c" where
  "cancelled policy c = (case pwo_cancelled (pw_operations policy) of None \<Rightarrow> (False, c) | Some f \<Rightarrow> f c)"

definition begin_cooling :: "u64 \<Rightarrow> power_target_t \<Rightarrow> 'c power_policy_t \<Rightarrow> 'c \<Rightarrow> 'c power_policy_t \<times> 'c" where
  "begin_cooling now_ms target policy c =
     (let policy = policy\<lparr> pw_cooling := True, pw_cooling_since_ms := now_ms, pw_cooling_target := target,
            pw_reduced_target_saved := False \<rparr>
      in snd (stop_board policy (call_overheat policy True c)))"

definition power_policy_init :: "'c power_operations_t \<Rightarrow> 'c power_policy_t option" where
  "power_policy_init operations =
     (if pwo_start operations = None \<or> pwo_stop operations = None \<or> pwo_apply operations = None \<or>
         pwo_maintenance operations = None \<or> pwo_overheat operations = None \<or> pwo_save_target operations = None \<or>
         pwo_minimum_voltage_mv operations = 0 \<or> \<not> isfinite (pwo_minimum_frequency_mhz operations) \<or>
         flt_le (pwo_minimum_frequency_mhz operations) (Fin 0)
      then None
      else Some \<lparr> pw_operations = operations, pw_ready = False, pw_running = False, pw_stopped = False, pw_paused = False,
        pw_fault = False, pw_cooling = False, pw_reduced_target_saved = False, pw_pool_unavailable = False,
        pw_target = \<lparr> pwt_voltage_mv = 0, pwt_frequency_mhz = Fin 0 \<rparr>, pw_owner = POWER_OWNER_NONE, pw_cooling_since_ms = 0,
        pw_cooling_target = \<lparr> pwt_voltage_mv = 0, pwt_frequency_mhz = Fin 0 \<rparr> \<rparr>)"

definition power_policy_pause :: "'c power_policy_t \<Rightarrow> 'c \<Rightarrow> bool \<times> 'c power_policy_t \<times> 'c" where
  "power_policy_pause policy c =
     (let policy = policy\<lparr> pw_paused := True \<rparr>
      in if pw_owner policy \<noteq> POWER_OWNER_NONE then (False, policy, c) else stop_board policy c)"

text \<open>Starting the board, the same in a resume and at the end of cooling: the answer says whether it runs. \<open>cancelled\<close> is
  asked anew each time.\<close>

definition start_board :: "u64 \<Rightarrow> power_target_t \<Rightarrow> 'c power_policy_t \<Rightarrow> 'c \<Rightarrow> bool \<times> 'c power_policy_t \<times> 'c" where
  "start_board cooling_since target policy c =
     (case call_start policy c of
        (started, c) \<Rightarrow>
          (case (if started = POWER_START_OVERHEAT then cancelled policy c else (True, c)) of
             (overheat_cancelled, c) \<Rightarrow>
               if \<not> overheat_cancelled then (False, begin_cooling cooling_since target policy c)
               else
                 (case (if started \<noteq> POWER_START_OK then (True, c) else cancelled policy c) of
                    (failed, c) \<Rightarrow>
                      if failed
                      then (case cancelled policy c of
                              (intended, c) \<Rightarrow> (False, snd (stop_board (policy\<lparr> pw_fault := \<not> intended \<rparr>) c)))
                      else (True, policy\<lparr> pw_running := True, pw_stopped := False \<rparr>, c))))"

definition power_policy_resume :: "'c power_policy_t \<Rightarrow> 'c \<Rightarrow> bool \<times> 'c power_policy_t \<times> 'c" where
  "power_policy_resume policy c =
     (if \<not> pw_ready policy \<or> pw_fault policy \<or> pw_owner policy \<noteq> POWER_OWNER_NONE then (False, policy, c)
      else
        (let policy = policy\<lparr> pw_paused := False \<rparr>
         in if pw_cooling policy \<or> pw_pool_unavailable policy then (True, policy, c)
            else if pw_running policy then (True, policy, c)
            else start_board UINT64_MAX (pw_target policy) policy c))"

definition power_policy_maintenance ::
    "power_owner_t \<Rightarrow> bool \<Rightarrow> 'c power_policy_t \<Rightarrow> 'c \<Rightarrow> bool \<times> 'c power_policy_t \<times> 'c" where
  "power_policy_maintenance owner acquire policy c =
     (if owner = POWER_OWNER_NONE then (False, policy, c)
      else if acquire then
        (if pw_owner policy \<noteq> POWER_OWNER_NONE then (False, policy, c)
         else
           (let policy = policy\<lparr> pw_paused := True, pw_running := False \<rparr>
            in case call_maintenance policy owner True c of
                 (safe, c) \<Rightarrow>
                   if \<not> safe then (False, policy\<lparr> pw_fault := True, pw_stopped := False \<rparr>, c)
                   else (True, policy\<lparr> pw_owner := owner, pw_stopped := True \<rparr>, c)))
      else if pw_owner policy \<noteq> owner then (False, policy, c)
      else
        (case call_maintenance policy owner False c of
           (released, c) \<Rightarrow>
             let policy = policy\<lparr> pw_owner := POWER_OWNER_NONE \<rparr>
             in if \<not> released then (False, policy\<lparr> pw_fault := True, pw_stopped := False \<rparr>, c) else (True, policy, c)))"

definition fmaxf :: "cfloat \<Rightarrow> cfloat \<Rightarrow> cfloat" where
  "fmaxf x y = (if x = NaN then y else if y = NaN then x else if flt_le x y then y else x)"

text \<open>The reduced target of a cooled board; \<open>None\<close> when the target it is derived from is below the minimum.\<close>

definition reduced_target :: "'c power_policy_t \<Rightarrow> power_target_t option" where
  "reduced_target policy =
     (let reduced = pw_cooling_target policy;
          minimum_mv = pwo_minimum_voltage_mv (pw_operations policy);
          minimum_mhz = pwo_minimum_frequency_mhz (pw_operations policy)
      in if \<not> isfinite (pwt_frequency_mhz reduced) \<or> flt_lt (pwt_frequency_mhz reduced) minimum_mhz \<or>
            pwt_voltage_mv reduced < minimum_mv
         then None
         else Some \<lparr> pwt_voltage_mv = (if (ucast (pwt_voltage_mv reduced) :: u32) > ucast minimum_mv + 100
                                      then pwt_voltage_mv reduced - 100 else minimum_mv),
                pwt_frequency_mhz = fmaxf minimum_mhz (flt_sub (pwt_frequency_mhz reduced) (Fin 100)) \<rparr>)"

text \<open>Saving it once per cooling; the answer says whether to go on.\<close>

definition save_reduced_target :: "'c power_policy_t \<Rightarrow> 'c \<Rightarrow> bool \<times> 'c power_policy_t \<times> 'c" where
  "save_reduced_target policy c =
     (if pw_reduced_target_saved policy then (True, policy, c)
      else
        (case reduced_target policy of
           None \<Rightarrow> (False, policy\<lparr> pw_fault := True \<rparr>, c)
         | Some reduced \<Rightarrow>
             (case call_save_target policy reduced c of
                (saved, c) \<Rightarrow>
                  if \<not> saved then (False, policy\<lparr> pw_fault := True \<rparr>, c)
                  else (True, policy\<lparr> pw_reduced_target_saved := True \<rparr>, c))))"

text \<open>The sensors of a cooling board: whether it may be recovered, and the policy with the start of the cooling time.\<close>

definition cooled_down :: "u64 \<Rightarrow> power_sample_t \<Rightarrow> 'c power_policy_t \<Rightarrow> bool \<times> 'c power_policy_t" where
  "cooled_down now_ms sample policy =
     (let policy = (if pw_cooling_since_ms policy = UINT64_MAX then policy\<lparr> pw_cooling_since_ms := now_ms \<rparr> else policy)
      in if \<not> pw_stopped policy \<or> \<not> pws_vreg_valid sample \<or> \<not> isfinite (pws_vreg_c sample) then (False, policy)
         else if pws_off_asic_sensor_required sample \<and> (\<not> pws_asic_valid sample \<or> \<not> isfinite (pws_asic_c sample))
         then (False, policy)
         else if pws_off_asic_sensor_required sample \<and> flt_lt (Fin 45) (pws_asic_c sample)
         then (False, policy\<lparr> pw_cooling_since_ms := now_ms \<rparr>)
         else if now_ms < pw_cooling_since_ms policy \<or> now_ms - pw_cooling_since_ms policy < 30000 \<or>
                 flt_lt (Fin 95) (pws_vreg_c sample)
         then (False, policy)
         else (True, policy))"

definition cooling_step ::
    "u64 \<Rightarrow> power_target_t \<Rightarrow> power_sample_t \<Rightarrow> bool \<Rightarrow> 'c power_policy_t \<Rightarrow> 'c \<Rightarrow> 'c power_policy_t \<times> 'c" where
  "cooling_step now_ms target sample pools_unavailable policy c =
     (case cooled_down now_ms sample policy of
        (cooled, policy) \<Rightarrow>
          if \<not> cooled then (policy, c)
          else
            (case save_reduced_target policy c of
               (saved, policy, c) \<Rightarrow>
                 if \<not> saved then (policy, c)
                 else if \<not> pw_ready policy \<or> pw_paused policy \<or> pools_unavailable then (policy, c)
                 else
                   (case start_board now_ms target policy c of
                      (started, policy, c) \<Rightarrow>
                        if \<not> started then (policy, c)
                        else (let policy = policy\<lparr> pw_cooling := False \<rparr> in (policy, call_overheat policy False c)))))"

text \<open>The part of a step without a fault and without cooling.\<close>

definition mining_step :: "power_target_t \<Rightarrow> bool \<Rightarrow> 'c power_policy_t \<Rightarrow> 'c \<Rightarrow> 'c power_policy_t \<times> 'c" where
  "mining_step target pools_unavailable policy c =
     (if pw_paused policy \<or> pools_unavailable \<or> \<not> pw_ready policy
      then (if \<not> pw_stopped policy then snd (stop_board policy c) else (policy, c))
      else
        (case (if \<not> pw_running policy then power_policy_resume policy c else (True, policy, c)) of
           (resumed, policy, c) \<Rightarrow>
             if \<not> resumed then (policy, c)
             else
               (case call_apply policy target c of
                  (applied, c) \<Rightarrow>
                    (case (if \<not> applied then (True, c) else cancelled policy c) of
                       (failed, c) \<Rightarrow>
                         if \<not> failed then (policy, c)
                         else (case cancelled policy c of
                                 (intended, c) \<Rightarrow> snd (stop_board (policy\<lparr> pw_fault := \<not> intended \<rparr>) c))))))"

definition power_policy_step ::
    "u64 \<Rightarrow> power_target_t \<Rightarrow> power_sample_t \<Rightarrow> bool \<Rightarrow> bool \<Rightarrow> bool \<Rightarrow> 'c power_policy_t \<Rightarrow> 'c \<Rightarrow> 'c power_policy_t \<times> 'c" where
  "power_policy_step now_ms target sample pools_unavailable hardware_fault persisted_overheat policy c =
     (let policy = policy\<lparr> pw_target := target, pw_pool_unavailable := pools_unavailable \<rparr>
      in if pw_owner policy \<noteq> POWER_OWNER_NONE then (policy, c)
         else
           (let policy = (if hardware_fault \<or> pws_health sample = POWER_HEALTH_FAULT then policy\<lparr> pw_fault := True \<rparr> else policy)
            in if pw_fault policy then (if \<not> pw_stopped policy then snd (stop_board policy c) else (policy, c))
               else
                 (case (if \<not> pw_cooling policy \<and> (pws_health sample = POWER_HEALTH_OVERHEAT \<or> persisted_overheat)
                        then begin_cooling now_ms target policy c else (policy, c)) of
                    (policy', c) \<Rightarrow>
                      if pw_cooling policy' \<and> \<not> pw_cooling policy \<and> \<not> pw_stopped policy' then (policy', c)
                      else if pw_cooling policy' then cooling_step now_ms target sample pools_unavailable policy' c
                      else mining_step target pools_unavailable policy' c)))"

section \<open>Model: the task\<close>

datatype power_request_kind_t = POWER_REQUEST_PAUSE | POWER_REQUEST_RESUME | POWER_REQUEST_ACQUIRE | POWER_REQUEST_RELEASE

text \<open>A queued request: its caller may have cancelled it before the task takes it, or while the task serves it.\<close>

record power_request_t =
  prq_kind :: power_request_kind_t
  prq_owner :: power_owner_t
  prq_epoch :: u32
  prq_cancelled_before :: bool
  prq_cancelled_after :: bool

text \<open>What the task owns and publishes. The flag that permits fan control is part of the device of the wrapped
  operations, which clear it before they touch the board.\<close>

record 'c power_task =
  ptk_policy :: "('c \<times> bool) power_policy_t"
  ptk_maintenance :: bool
  ptk_cooling :: bool
  ptk_boot_complete :: bool
  ptk_boot_success :: bool
  ptk_mining_paused :: bool
  ptk_hardware_fault :: bool
  ptk_hardware_fault_msg :: string
  ptk_expected_hashrate :: cfloat

text \<open>What an iteration reads of the outside besides the requests; \<open>finished\<close> is the end of the self test, \<open>reported_fault\<close> the
  message of a hardware fault that another task has reported since.\<close>

record power_inputs =
  pin_ready :: bool
  pin_target :: power_target_t
  pin_pools_unavailable :: bool
  pin_pools_unavailable_at_step :: bool
  pin_sample :: power_sample_t
  pin_finished :: bool
  pin_reported_fault :: "string option"
  pin_now_ms :: u64
  pin_persisted_overheat :: bool

definition no_sample :: power_sample_t where
  "no_sample = \<lparr> pws_health = POWER_HEALTH_OK, pws_vreg_valid = False, pws_vreg_c = Fin 0, pws_off_asic_sensor_required = False,
     pws_asic_valid = False, pws_asic_c = Fin 0, pws_detail = [] \<rparr>"

text \<open>\<open>board_start\<close>, \<open>board_stop\<close> and \<open>board_maintenance\<close>; the lock makes each of them one step.\<close>

definition task_operations :: "'c power_operations_t \<Rightarrow> ('c \<times> bool) power_operations_t" where
  "task_operations board =
     \<lparr> pwo_start = map_option (\<lambda>f (c, fan_allowed). case f c of (r, c) \<Rightarrow> (r, c, False)) (pwo_start board),
       pwo_stop = map_option (\<lambda>f (c, fan_allowed). case f c of (r, c) \<Rightarrow> (r, c, False)) (pwo_stop board),
       pwo_apply = map_option (\<lambda>f target (c, fan_allowed). case f target c of (r, c) \<Rightarrow> (r, c, fan_allowed)) (pwo_apply board),
       pwo_maintenance = map_option (\<lambda>f owner acquire (c, fan_allowed). case f owner acquire c of (r, c) \<Rightarrow> (r, c, False))
         (pwo_maintenance board),
       pwo_overheat = map_option (\<lambda>f enabled (c, fan_allowed). (f enabled c, fan_allowed)) (pwo_overheat board),
       pwo_save_target = map_option (\<lambda>f target (c, fan_allowed). case f target c of (r, c) \<Rightarrow> (r, c, fan_allowed))
         (pwo_save_target board),
       pwo_cancelled = map_option (\<lambda>f (c, fan_allowed). case f c of (r, c) \<Rightarrow> (r, c, fan_allowed)) (pwo_cancelled board),
       pwo_minimum_voltage_mv = pwo_minimum_voltage_mv board, pwo_minimum_frequency_mhz = pwo_minimum_frequency_mhz board \<rparr>"

text \<open>The two atomics of the stop intent, as parts of the device that other tasks and the board's operations reach.\<close>

record 'c power_atomics =
  pat_stop_epoch :: "'c \<Rightarrow> u32"
  pat_accepted_epoch :: "'c \<Rightarrow> u32"
  pat_accept :: "u32 \<Rightarrow> 'c \<Rightarrow> 'c"

definition stop_requested :: "'c power_atomics \<Rightarrow> 'c \<times> bool \<Rightarrow> bool" where
  "stop_requested atomics c \<longleftrightarrow> pat_stop_epoch atomics (fst c) \<noteq> pat_accepted_epoch atomics (fst c)"

definition fan_control_allowed :: "'c power_atomics \<Rightarrow> 'c \<times> bool \<Rightarrow> bool" where
  "fan_control_allowed atomics c \<longleftrightarrow> snd c \<and> \<not> stop_requested atomics c"

text \<open>The switch over the kind of a request that is not a pause; the answer is the success of the request.\<close>

definition serve_request ::
    "'c power_atomics \<Rightarrow> power_request_t \<Rightarrow> 'c power_task \<Rightarrow> 'c \<times> bool \<Rightarrow> bool \<times> 'c power_task \<times> 'c \<times> bool" where
  "serve_request atomics request task c =
     (case prq_kind request of
        POWER_REQUEST_RESUME \<Rightarrow>
          if prq_epoch request = pat_stop_epoch atomics (fst c)
          then (case power_policy_resume (ptk_policy task) (pat_accept atomics (prq_epoch request) (fst c), snd c) of
                  (success, policy, c) \<Rightarrow> (success, task\<lparr> ptk_policy := policy \<rparr>, c))
          else (False, task, c)
      | POWER_REQUEST_ACQUIRE \<Rightarrow>
          (case power_policy_maintenance (prq_owner request) True (ptk_policy task) c of
             (success, policy, c) \<Rightarrow> (success, task\<lparr> ptk_maintenance := True, ptk_policy := policy \<rparr>, c))
      | POWER_REQUEST_RELEASE \<Rightarrow>
          (case power_policy_maintenance (prq_owner request) False (ptk_policy task) c of
             (success, policy, c) \<Rightarrow>
               (success, task\<lparr> ptk_policy := policy, ptk_maintenance := (if success then False else ptk_maintenance task) \<rparr>, c))
      | POWER_REQUEST_PAUSE \<Rightarrow> (False, task, c))"

definition process_request ::
    "'c power_atomics \<Rightarrow> power_request_t \<Rightarrow> 'c power_task \<times> 'c \<times> bool \<Rightarrow> 'c power_task \<times> 'c \<times> bool" where
  "process_request atomics request = (\<lambda>(task, c).
     case (if prq_kind request = POWER_REQUEST_PAUSE
           then (case power_policy_pause (ptk_policy task) c of
                   (success, policy, c) \<Rightarrow> (success, task\<lparr> ptk_policy := policy \<rparr>, c))
           else if \<not> prq_cancelled_before request \<or> prq_kind request = POWER_REQUEST_RELEASE
           then serve_request atomics request task c
           else (False, task, c)) of
       (success, task, c) \<Rightarrow>
         case (if prq_cancelled_before request \<or> prq_cancelled_after request
               then
                 (case (if success \<and> prq_kind request = POWER_REQUEST_ACQUIRE
                        then snd (power_policy_maintenance (prq_owner request) False (ptk_policy task) c)
                        else (ptk_policy task, c)) of
                    (policy, c) \<Rightarrow> if pw_owner policy = POWER_OWNER_NONE then snd (power_policy_pause policy c) else (policy, c))
               else (ptk_policy task, c)) of
           (policy, c) \<Rightarrow> (task\<lparr> ptk_policy := policy, ptk_maintenance := pw_owner policy \<noteq> POWER_OWNER_NONE \<rparr>, c))"

text \<open>The state before the first iteration; \<open>board_ok\<close> tells whether \<open>BoardPower_init\<close> succeeded.\<close>

definition power_task_init :: "'c power_operations_t \<Rightarrow> bool \<Rightarrow> 'c power_task option" where
  "power_task_init board board_ok =
     (case power_policy_init (task_operations board) of
        None \<Rightarrow> None
      | Some policy \<Rightarrow>
          Some \<lparr> ptk_policy = policy\<lparr> pw_fault := \<not> board_ok \<rparr>, ptk_maintenance = False, ptk_cooling = False,
            ptk_boot_complete = False, ptk_boot_success = False, ptk_mining_paused = False, ptk_hardware_fault = False,
            ptk_hardware_fault_msg = [], ptk_expected_hashrate = Fin 0 \<rparr>)"

text \<open>The end of an iteration: what is published about the policy.\<close>

definition publish :: "power_sample_t \<Rightarrow> 'c power_task \<Rightarrow> 'c power_task" where
  "publish sample task =
     (let policy = ptk_policy task;
          task = task\<lparr> ptk_mining_paused := pw_paused policy, ptk_cooling := pw_cooling policy \<rparr>;
          task = (if pw_ready policy \<and> (pw_running policy \<or> pw_fault policy \<or> pw_paused policy \<or> pw_cooling policy)
                  then task\<lparr> ptk_boot_success := pw_running policy, ptk_boot_complete := True \<rparr> else task)
      in if pw_fault policy
         then task\<lparr> ptk_expected_hashrate := Fin 0, ptk_hardware_fault := True,
                ptk_hardware_fault_msg :=
                  (if \<not> ptk_hardware_fault task \<or> ptk_hardware_fault_msg task = []
                   then take 63 (if pws_detail sample \<noteq> [] then pws_detail sample
                                 else ''Board startup, shutdown or power transition failed'')
                   else ptk_hardware_fault_msg task) \<rparr>
         else task)"

text \<open>The requests and the stop intent.\<close>

definition serve_requests ::
    "'c power_atomics \<Rightarrow> power_inputs \<Rightarrow> power_request_t list \<Rightarrow> 'c power_task \<times> 'c \<times> bool \<Rightarrow> 'c power_task \<times> 'c \<times> bool" where
  "serve_requests atomics inputs requests = (\<lambda>(task, c).
     let task = task\<lparr> ptk_policy := (ptk_policy task)\<lparr> pw_ready := pin_ready inputs, pw_target := pin_target inputs,
                  pw_pool_unavailable := pin_pools_unavailable inputs \<rparr> \<rparr>
     in case fold (process_request atomics) requests (task, c) of
          (task, c) \<Rightarrow>
            if stop_requested atomics c \<and> \<not> pw_paused (ptk_policy task) \<and>
               pw_owner (ptk_policy task) = POWER_OWNER_NONE
            then (case snd (power_policy_pause (ptk_policy task) c) of (policy, c) \<Rightarrow> (task\<lparr> ptk_policy := policy \<rparr>, c))
            else (task, c))"

text \<open>One iteration. The self test's end pauses the policy directly.\<close>

definition power_task_iteration ::
    "'c power_atomics \<Rightarrow> power_inputs \<Rightarrow> power_request_t list \<Rightarrow> 'c power_task \<times> 'c \<times> bool \<Rightarrow> 'c power_task \<times> 'c \<times> bool" where
  "power_task_iteration atomics inputs requests state =
     (case serve_requests atomics inputs requests state of
        (task, c) \<Rightarrow>
          let task = (case pin_reported_fault inputs of None \<Rightarrow> task
                      | Some message \<Rightarrow> task\<lparr> ptk_hardware_fault := True, ptk_hardware_fault_msg := message \<rparr>);
              sample = (if pw_owner (ptk_policy task) = POWER_OWNER_NONE then pin_sample inputs else no_sample);
              policy = (if pin_finished inputs then (ptk_policy task)\<lparr> pw_paused := True \<rparr> else ptk_policy task)
          in case power_policy_step (pin_now_ms inputs) (pin_target inputs) sample (pin_pools_unavailable_at_step inputs)
                    (ptk_hardware_fault task) (pin_persisted_overheat inputs) policy c of
               (policy, c, fan_allowed) \<Rightarrow>
                 (publish sample (task\<lparr> ptk_policy := policy \<rparr>),
                  c, pw_running policy \<and> \<not> pw_fault policy \<and> \<not> pw_cooling policy))"

section \<open>Invariant of the policy\<close>

text \<open>A running board is not stopped, faulted, cooling or owned; an owned board is verified off; a cooling board is off or faulted.\<close>

definition power_ok :: "'c power_policy_t \<Rightarrow> bool" where
  "power_ok policy \<longleftrightarrow>
     (pw_running policy \<longrightarrow> \<not> pw_stopped policy \<and> \<not> pw_fault policy \<and> \<not> pw_cooling policy \<and> pw_owner policy = POWER_OWNER_NONE) \<and>
     (pw_owner policy \<noteq> POWER_OWNER_NONE \<longrightarrow> pw_stopped policy) \<and>
     (pw_cooling policy \<longrightarrow> pw_stopped policy \<or> pw_fault policy)"

text \<open>What an operation may do to the policy: it keeps the invariant, the fault, the table and what only the task writes.\<close>

definition keeps_power :: "'c power_policy_t \<Rightarrow> 'c power_policy_t \<Rightarrow> bool" where
  "keeps_power p q \<longleftrightarrow> (power_ok p \<longrightarrow> power_ok q) \<and> (pw_fault p \<longrightarrow> pw_fault q) \<and> pw_operations q = pw_operations p \<and>
     pw_ready q = pw_ready p"

named_theorems power_intro \<open>operations that keep the policy sound\<close>

lemma keeps_refl [power_intro]: "keeps_power p p"
  by (simp add: keeps_power_def)

lemma keeps_trans: "keeps_power p q \<Longrightarrow> keeps_power q r \<Longrightarrow> keeps_power p r"
  by (auto simp: keeps_power_def)

lemma stop_board_state:
  obtains stopped d where "stop_board p c = (stopped, p\<lparr> pw_running := False, pw_stopped := stopped, pw_fault := pw_fault p \<or> \<not> stopped \<rparr>, d)"
    "call_stop p c = (stopped, d)"
  by (cases "call_stop p c") (auto simp: stop_board_def)

lemma stop_keeps:
  assumes "stop_board p c = (ok, q, d)" "pw_owner p = POWER_OWNER_NONE"
  shows "keeps_power p q \<and> \<not> pw_running q \<and> (pw_stopped q \<or> pw_fault q) \<and> pw_owner q = POWER_OWNER_NONE \<and>
    pw_paused q = pw_paused p \<and> pw_cooling q = pw_cooling p \<and> power_ok q"
  by (rule stop_board_state[of p c]) (use assms in \<open>auto simp: keeps_power_def power_ok_def\<close>)

lemma begin_cooling_keeps:
  assumes "begin_cooling now target p c = (q, d)" "pw_owner p = POWER_OWNER_NONE"
  shows "keeps_power p q \<and> \<not> pw_running q \<and> (pw_stopped q \<or> pw_fault q) \<and> pw_owner q = POWER_OWNER_NONE \<and>
    pw_paused q = pw_paused p \<and> pw_cooling q \<and> power_ok q"
  by (rule stop_board_state[of "p\<lparr> pw_cooling := True, pw_cooling_since_ms := now, pw_cooling_target := target,
        pw_reduced_target_saved := False \<rparr>" "call_overheat p True c"])
    (use assms in \<open>auto simp: begin_cooling_def call_overheat_def keeps_power_def power_ok_def Let_def\<close>)

text \<open>The cases of a start: an overheated board begins to cool, a failed or cancelled start stops it, otherwise it runs.\<close>

lemma start_cases:
  assumes "start_board since target p c = (started, q, d)"
  obtains (overheated) c1 where "\<not> started" "begin_cooling since target p c1 = (q, d)"
    | (failed) ok c1 intended where "\<not> started" "stop_board (p\<lparr> pw_fault := \<not> intended \<rparr>) c1 = (ok, q, d)"
    | (running) "started" "q = p\<lparr> pw_running := True, pw_stopped := False \<rparr>"
proof -
  obtain r c1 where r: "call_start p c = (r, c1)" by (cases "call_start p c")
  obtain b c2 where b: "(if r = POWER_START_OVERHEAT then cancelled p c1 else (True, c1)) = (b, c2)"
    by (cases "if r = POWER_START_OVERHEAT then cancelled p c1 else (True, c1)")
  obtain f c3 where f: "(if r \<noteq> POWER_START_OK then (True, c2) else cancelled p c2) = (f, c3)"
    by (cases "if r \<noteq> POWER_START_OK then (True, c2) else cancelled p c2")
  obtain i c4 where i: "cancelled p c3 = (i, c4)" by (cases "cancelled p c3")
  have run: "start_board since target p c =
      (if \<not> b then (False, begin_cooling since target p c2)
       else if f then (False, snd (stop_board (p\<lparr> pw_fault := \<not> i \<rparr>) c4))
       else (True, p\<lparr> pw_running := True, pw_stopped := False \<rparr>, c3))"
    unfolding start_board_def r prod.case b f i by simp
  show thesis
  proof (cases b)
    case False
    then show thesis using overheated[of c2] assms run by simp
  next
    case True
    show thesis
    proof (cases f)
      case True
      obtain ok q' d' where "stop_board (p\<lparr> pw_fault := \<not> i \<rparr>) c4 = (ok, q', d')" by (cases "stop_board (p\<lparr> pw_fault := \<not> i \<rparr>) c4")
      then show thesis using failed[of i c4 ok] assms run \<open>b\<close> True by simp
    next
      case False
      then show thesis using running assms run \<open>b\<close> by simp
    qed
  qed
qed

lemma start_keeps:
  assumes "start_board since target p c = (started, q, d)" "pw_owner p = POWER_OWNER_NONE" "\<not> pw_fault p"
  shows "pw_owner q = POWER_OWNER_NONE \<and> pw_paused q = pw_paused p \<and> pw_operations q = pw_operations p \<and> pw_ready q = pw_ready p \<and>
    (if started then q = p\<lparr> pw_running := True, pw_stopped := False \<rparr>
     else power_ok q \<and> \<not> pw_running q \<and> (pw_stopped q \<or> pw_fault q))"
  using assms(1)
proof (cases rule: start_cases)
  case (overheated c1)
  then show ?thesis using begin_cooling_keeps[OF overheated(2) assms(2)] by (simp add: keeps_power_def)
next
  case (failed ok c1 intended)
  then show ?thesis using stop_keeps[OF failed(2)] assms(2) by (simp add: keeps_power_def)
qed (use assms(2) in simp)

lemma pause_keeps:
  assumes "power_policy_pause p c = (ok, q, d)"
  shows "keeps_power p q \<and> pw_owner q = pw_owner p \<and> pw_paused q \<and> (pw_owner p = POWER_OWNER_NONE \<longrightarrow> \<not> pw_running q)"
proof (cases "pw_owner p = POWER_OWNER_NONE")
  case True
  then have "stop_board (p\<lparr> pw_paused := True \<rparr>) c = (ok, q, d)" using assms by (simp add: power_policy_pause_def)
  from stop_keeps[OF this] True show ?thesis by (simp add: keeps_power_def power_ok_def)
next
  case False
  then show ?thesis using assms by (auto simp: power_policy_pause_def keeps_power_def power_ok_def)
qed

lemma resume_keeps:
  assumes "power_policy_resume p c = (ok, q, d)"
  shows "keeps_power p q \<and> pw_owner q = pw_owner p \<and>
    (ok \<longrightarrow> \<not> pw_paused q \<and> (\<not> pw_cooling p \<and> \<not> pw_pool_unavailable p \<longrightarrow> pw_running q)) \<and>
    (\<not> ok \<and> pw_ready p \<and> \<not> pw_fault p \<and> pw_owner p = POWER_OWNER_NONE \<longrightarrow> \<not> pw_running q \<and> (pw_stopped q \<or> pw_fault q))"
proof (cases "\<not> pw_ready p \<or> pw_fault p \<or> pw_owner p \<noteq> POWER_OWNER_NONE")
  case True
  then show ?thesis using assms by (auto simp: power_policy_resume_def keeps_power_def)
next
  case False
  let ?p = "p\<lparr> pw_paused := False \<rparr>"
  show ?thesis
  proof (cases "pw_cooling p \<or> pw_pool_unavailable p \<or> pw_running p")
    case True
    then have "ok" "q = ?p" using assms False True by (auto simp: power_policy_resume_def Let_def split: if_splits)
    then show ?thesis using True by (auto simp: keeps_power_def power_ok_def)
  next
    case not: False
    then have "start_board UINT64_MAX (pw_target p) ?p c = (ok, q, d)"
      using assms False unfolding power_policy_resume_def by simp
    from start_keeps[OF this] False not show ?thesis
      by (cases ok) (auto simp: keeps_power_def power_ok_def)
  qed
qed

lemma maintenance_keeps:
  assumes "power_policy_maintenance owner acquire p c = (ok, q, d)"
  shows "keeps_power p q"
proof -
  obtain r e where r: "call_maintenance (if acquire then p\<lparr> pw_paused := True, pw_running := False \<rparr> else p) owner acquire c = (r, e)"
    by (cases "call_maintenance (if acquire then p\<lparr> pw_paused := True, pw_running := False \<rparr> else p) owner acquire c")
  show ?thesis using assms r
    by (cases acquire) (auto simp: power_policy_maintenance_def keeps_power_def power_ok_def Let_def split: if_splits)
qed

section \<open>One step of the policy\<close>

text \<open>A policy a step may leave: sound, and running only with everything granted, otherwise verified off or faulted.\<close>

definition settled :: "bool \<Rightarrow> 'c power_policy_t \<Rightarrow> bool" where
  "settled pools_unavailable q \<longleftrightarrow>
     power_ok q \<and> (pw_running q \<longrightarrow> pw_ready q \<and> \<not> pw_paused q \<and> \<not> pools_unavailable) \<and>
     (pw_running q \<or> pw_stopped q \<or> pw_fault q)"

lemma settled_off: "power_ok q \<Longrightarrow> \<not> pw_running q \<Longrightarrow> pw_stopped q \<or> pw_fault q \<Longrightarrow> settled pools q"
  by (auto simp: settled_def)

lemma cooled_down_state:
  assumes "cooled_down now sample p = (cooled, q)"
  shows "\<exists>t. q = p\<lparr> pw_cooling_since_ms := t \<rparr>"
proof -
  have same: "p = p\<lparr> pw_cooling_since_ms := pw_cooling_since_ms p \<rparr>" by (rule power_policy_t.equality) simp_all
  obtain t where "(if pw_cooling_since_ms p = UINT64_MAX then p\<lparr> pw_cooling_since_ms := now \<rparr> else p) = p\<lparr> pw_cooling_since_ms := t \<rparr>"
  proof (cases "pw_cooling_since_ms p = UINT64_MAX")
    case False
    then show ?thesis using that[of "pw_cooling_since_ms p"] same by (simp only: if_False)
  qed (use that in simp)
  then show ?thesis using assms by (auto simp: cooled_down_def Let_def split: if_splits)
qed

lemma save_reduced_state:
  assumes "save_reduced_target p c = (saved, q, d)"
  shows "if saved then q = p\<lparr> pw_reduced_target_saved := True \<rparr> else q = p\<lparr> pw_fault := True \<rparr>"
proof (cases "pw_reduced_target_saved p")
  case True
  then have "p\<lparr> pw_reduced_target_saved := True \<rparr> = p" by (intro power_policy_t.equality) simp_all
  then show ?thesis using assms True by (auto simp: save_reduced_target_def)
next
  case False
  then show ?thesis using assms by (auto simp: save_reduced_target_def split: option.splits prod.splits if_splits)
qed

lemma cooling_step_settled:
  assumes run: "cooling_step now target sample pools p c = (q, d)"
    and p: "pw_owner p = POWER_OWNER_NONE" "\<not> pw_fault p" "pw_cooling p" "pw_stopped p" "\<not> pw_running p"
  shows "settled pools q \<and> pw_operations q = pw_operations p"
proof -
  obtain cooled p1 where p1: "cooled_down now sample p = (cooled, p1)" by (cases "cooled_down now sample p")
  obtain t where t: "p1 = p\<lparr> pw_cooling_since_ms := t \<rparr>" using cooled_down_state[OF p1] by blast
  obtain saved p2 c2 where p2: "save_reduced_target p1 c = (saved, p2, c2)" by (cases "save_reduced_target p1 c")
  note p2' = save_reduced_state[OF p2]
  have off1: "settled pools p1" "pw_operations p1 = pw_operations p" using p unfolding t by (auto simp: settled_def power_ok_def)
  have off2: "settled pools p2" "pw_operations p2 = pw_operations p"
    using p p2' unfolding t by (auto simp: settled_def power_ok_def split: if_splits)
  have run': "(q, d) = (if \<not> cooled then (p1, c) else if \<not> saved then (p2, c2)
      else if \<not> pw_ready p2 \<or> pw_paused p2 \<or> pools then (p2, c2)
      else (case start_board now target p2 c2 of (started, policy, c) \<Rightarrow>
              if \<not> started then (policy, c)
              else (let policy = policy\<lparr> pw_cooling := False \<rparr> in (policy, call_overheat policy False c))))"
    using run unfolding cooling_step_def p1 prod.case p2 by simp
  show ?thesis
  proof (cases "\<not> cooled \<or> \<not> saved \<or> \<not> pw_ready p2 \<or> pw_paused p2 \<or> pools")
    case True
    then have "q = p1 \<or> q = p2" using run' by (auto split: if_splits)
    then show ?thesis using off1 off2 by blast
  next
    case False
    then have ready: "saved" "pw_ready p2" "\<not> pw_paused p2" "\<not> pools" by auto
    obtain started p3 c3 where p3: "start_board now target p2 c2 = (started, p3, c3)" by (cases "start_board now target p2 c2")
    have p2'': "pw_owner p2 = POWER_OWNER_NONE" "\<not> pw_fault p2" using p2' p(1,2) ready(1) unfolding t by simp_all
    note start = start_keeps[OF p3 p2'']
    show ?thesis
    proof (cases started)
      case True
      then have q: "q = p3\<lparr> pw_cooling := False \<rparr>" using run' False p3 by (simp add: Let_def)
      have p3': "p3 = p2\<lparr> pw_running := True, pw_stopped := False \<rparr>" using start True by simp
      show ?thesis unfolding q p3' using ready p2'' off2(2) by (simp add: settled_def power_ok_def)
    next
      case not: False
      then have "q = p3" using run' False p3 by simp
      then show ?thesis using start not off2(2) by (auto intro: settled_off)
    qed
  qed
qed

lemma mining_step_settled:
  assumes run: "mining_step target pools p c = (q, d)"
    and p: "power_ok p" "pw_owner p = POWER_OWNER_NONE" "\<not> pw_fault p" "\<not> pw_cooling p" "pw_pool_unavailable p = pools"
  shows "settled pools q \<and> pw_operations q = pw_operations p"
proof (cases "pw_paused p \<or> pools \<or> \<not> pw_ready p")
  case True
  show ?thesis
  proof (cases "pw_stopped p")
    case True
    then have "q = p" using run \<open>pw_paused p \<or> pools \<or> \<not> pw_ready p\<close> by (simp add: mining_step_def)
    then show ?thesis using p(1) True by (auto simp: settled_def power_ok_def)
  next
    case False
    then obtain ok where "stop_board p c = (ok, q, d)"
      using run True by (cases "stop_board p c") (simp add: mining_step_def)
    from stop_keeps[OF this p(2)] show ?thesis using settled_off by (auto simp: keeps_power_def)
  qed
next
  case False
  obtain resumed p1 c1 where p1: "(if \<not> pw_running p then power_policy_resume p c else (True, p, c)) = (resumed, p1, c1)"
    by (cases "if \<not> pw_running p then power_policy_resume p c else (True, p, c)")
  have k: "keeps_power p p1 \<and> pw_owner p1 = pw_owner p \<and> (resumed \<longrightarrow> pw_running p1 \<and> \<not> pw_paused p1)"
  proof (cases "pw_running p")
    case True
    then show ?thesis using p1 False by (simp add: keeps_refl)
  next
    case not: False
    then have "power_policy_resume p c = (resumed, p1, c1)" using p1 by simp
    from resume_keeps[OF this] p(4,5) False show ?thesis by simp
  qed
  have keep: "pw_operations p1 = pw_operations p" "pw_owner p1 = POWER_OWNER_NONE" "pw_ready p1" "power_ok p1"
    using k p(1,2) False by (simp_all add: keeps_power_def)
  show ?thesis
  proof (cases resumed)
    case not: False
    have "power_policy_resume p c = (False, p1, c1)" using p1 not by (auto split: if_splits)
    from resume_keeps[OF this] have "\<not> pw_running p1" "pw_stopped p1 \<or> pw_fault p1" using p False by auto
    moreover have "q = p1" using run False not p1 by (simp add: mining_step_def)
    ultimately show ?thesis using keep settled_off by auto
  next
    case True
    have on: "pw_running p1" "\<not> pw_paused p1" using k True by simp_all
    obtain applied c2 where c2: "call_apply p1 target c1 = (applied, c2)" by (cases "call_apply p1 target c1")
    obtain failed c3 where c3: "(if \<not> applied then (True, c2) else cancelled p1 c2) = (failed, c3)"
      by (cases "if \<not> applied then (True, c2) else cancelled p1 c2")
    obtain intended c4 where c4: "cancelled p1 c3 = (intended, c4)" by (cases "cancelled p1 c3")
    have run': "(q, d) = (if \<not> failed then (p1, c3) else snd (stop_board (p1\<lparr> pw_fault := \<not> intended \<rparr>) c4))"
      using run False True unfolding mining_step_def p1 prod.case c2 c3 c4 by simp
    show ?thesis
    proof (cases failed)
      case False
      then show ?thesis using run' keep on \<open>\<not> (pw_paused p \<or> pools \<or> \<not> pw_ready p)\<close> by (simp add: settled_def)
    next
      case True
      then obtain ok where "stop_board (p1\<lparr> pw_fault := \<not> intended \<rparr>) c4 = (ok, q, d)"
        using run' by (cases "stop_board (p1\<lparr> pw_fault := \<not> intended \<rparr>) c4") simp
      from stop_keeps[OF this] show ?thesis using keep settled_off by (auto simp: keeps_power_def)
    qed
  qed
qed

lemma step_settled:
  assumes run: "power_policy_step now target sample pools hw persisted p c = (q, d)" and p: "power_ok p"
  shows "settled pools q \<and> (pw_fault p \<or> hw \<and> pw_owner p = POWER_OWNER_NONE \<longrightarrow> pw_fault q) \<and> pw_operations q = pw_operations p"
proof -
  let ?p = "p\<lparr> pw_target := target, pw_pool_unavailable := pools \<rparr>"
  show ?thesis
  proof (cases "pw_owner p = POWER_OWNER_NONE")
    case False
    then have "q = ?p" using run by (simp add: power_policy_step_def)
    then show ?thesis using p False by (auto simp: settled_def power_ok_def)
  next
    case owner: True
    define faulty where "faulty = (hw \<or> pws_health sample = POWER_HEALTH_FAULT)"
    define p1 where "p1 = (if faulty then ?p\<lparr> pw_fault := True \<rparr> else ?p)"
    show ?thesis
    proof (cases "pw_fault p1")
      case True
      show ?thesis
      proof (cases "pw_stopped p1")
        case stopped: True
        then have "q = p1" using run owner True by (simp add: power_policy_step_def p1_def faulty_def Let_def)
        then show ?thesis using p owner True stopped by (cases faulty) (auto simp: p1_def settled_def power_ok_def)
      next
        case False
        then obtain ok where "stop_board p1 c = (ok, q, d)"
          using run owner True unfolding power_policy_step_def p1_def faulty_def Let_def
          by (cases "stop_board p1 c") (simp add: p1_def faulty_def)
        from stop_keeps[OF this] show ?thesis
          using owner True by (cases faulty) (auto simp: keeps_power_def p1_def intro: settled_off)
      qed
    next
      case False
      then have p1: "p1 = ?p" "\<not> pw_fault p" "\<not> faulty" by (auto simp: p1_def split: if_splits)
      have ok1: "power_ok ?p" using p by (simp add: power_ok_def)
      have run1: "(case (if \<not> pw_cooling ?p \<and> (pws_health sample = POWER_HEALTH_OVERHEAT \<or> persisted)
                        then begin_cooling now target ?p c else (?p, c)) of
                    (policy', c) \<Rightarrow>
                      if pw_cooling policy' \<and> \<not> pw_cooling ?p \<and> \<not> pw_stopped policy' then (policy', c)
                      else if pw_cooling policy' then cooling_step now target sample pools policy' c
                      else mining_step target pools policy' c) = (q, d)"
      proof -
        have "(if hw \<or> pws_health sample = POWER_HEALTH_FAULT then ?p\<lparr> pw_fault := True \<rparr> else ?p) = ?p"
          using p1(3) by (simp add: faulty_def)
        moreover have "\<not> pw_fault ?p" "pw_owner ?p = POWER_OWNER_NONE" using p1(2) owner by simp_all
        ultimately show ?thesis
          using run unfolding power_policy_step_def Let_def by (simp only: if_False simp_thms)
      qed
      show ?thesis
      proof (cases "\<not> pw_cooling p \<and> (pws_health sample = POWER_HEALTH_OVERHEAT \<or> persisted)")
        case True
        obtain r c1 where r: "begin_cooling now target ?p c = (r, c1)" by (cases "begin_cooling now target ?p c")
        have ops: "pw_fault r = (\<not> pw_stopped r)"
          using r p1(2) by (auto simp: begin_cooling_def stop_board_def Let_def split: prod.splits)
        note k = begin_cooling_keeps[OF r]
        show ?thesis
        proof (cases "pw_stopped r")
          case stopped: True
          then have "cooling_step now target sample pools r c1 = (q, d)" using run1 True r k owner by simp
          from cooling_step_settled[OF this] k ops stopped owner p1 show ?thesis by (auto simp: keeps_power_def faulty_def)
        next
          case False
          then have "q = r" using run1 True r k owner by simp
          then show ?thesis using k owner p1 settled_off by (auto simp: keeps_power_def faulty_def)
        qed
      next
        case False
        show ?thesis
        proof (cases "pw_cooling p")
          case True
          then have "cooling_step now target sample pools ?p c = (q, d)" using run1 by simp
          from cooling_step_settled[OF this] True p p1 owner show ?thesis by (auto simp: power_ok_def faulty_def)
        next
          case not: False
          then have "mining_step target pools ?p c = (q, d)" using run1 False by simp
          from mining_step_settled[OF this ok1] not p1 owner show ?thesis by (auto simp: faulty_def)
        qed
      qed
    qed
  qed
qed

section \<open>Iterations of the task\<close>

text \<open>Between two iterations the policy is sound, and the fans may be controlled exactly while the board runs.\<close>

definition task_ok :: "'c power_operations_t \<Rightarrow> 'c power_task \<times> 'c \<times> bool \<Rightarrow> bool" where
  "task_ok board = (\<lambda>(task, c, fan_allowed). power_ok (ptk_policy task) \<and> pw_operations (ptk_policy task) = task_operations board \<and>
     fan_allowed = (pw_running (ptk_policy task) \<and> \<not> pw_fault (ptk_policy task) \<and> \<not> pw_cooling (ptk_policy task)))"

lemma serve_request_keeps:
  assumes "serve_request atomics request task c = (success, task', d)"
  shows "keeps_power (ptk_policy task) (ptk_policy task')"
  using assms resume_keeps[of "ptk_policy task" "(pat_accept atomics (prq_epoch request) (fst c), snd c)"] maintenance_keeps[of "prq_owner request" _ "ptk_policy task" c]
  by (cases "prq_kind request") (auto simp: serve_request_def keeps_refl split: if_splits prod.splits)

lemma process_request_keeps:
  assumes "process_request atomics request (task, c) = (task', d)"
  shows "keeps_power (ptk_policy task) (ptk_policy task')"
proof -
  obtain success t1 c1 where one: "(if prq_kind request = POWER_REQUEST_PAUSE
      then (case power_policy_pause (ptk_policy task) c of (success, policy, c) \<Rightarrow> (success, task\<lparr> ptk_policy := policy \<rparr>, c))
      else if \<not> prq_cancelled_before request \<or> prq_kind request = POWER_REQUEST_RELEASE then serve_request atomics request task c
      else (False, task, c)) = (success, t1, c1)" by (rule prod_cases3)
  have k1: "keeps_power (ptk_policy task) (ptk_policy t1)"
    using one pause_keeps[of "ptk_policy task" c] serve_request_keeps[of atomics request task c]
    by (auto simp: keeps_refl split: if_splits prod.splits)
  obtain p2 c2 where two: "(if success \<and> prq_kind request = POWER_REQUEST_ACQUIRE
      then snd (power_policy_maintenance (prq_owner request) False (ptk_policy t1) c1) else (ptk_policy t1, c1)) = (p2, c2)" by (rule prod.exhaust)
  have k2: "keeps_power (ptk_policy t1) p2"
    using two maintenance_keeps[of "prq_owner request" False "ptk_policy t1" c1]
    by (cases "power_policy_maintenance (prq_owner request) False (ptk_policy t1) c1") (auto simp: keeps_refl split: if_splits)
  obtain p3 c3 where three: "(if pw_owner p2 = POWER_OWNER_NONE then snd (power_policy_pause p2 c2) else (p2, c2)) = (p3, c3)" by (rule prod.exhaust)
  have k3: "keeps_power p2 p3"
    using three pause_keeps[of p2 c2] by (cases "power_policy_pause p2 c2") (auto simp: keeps_refl split: if_splits)
  have "ptk_policy task' = p3 \<or> ptk_policy task' = ptk_policy t1"
    using assms unfolding process_request_def prod.case one two three by (auto split: if_splits)
  then show ?thesis using k1 k2 k3 keeps_trans by metis
qed

lemma process_requests_keep:
  "fold (process_request atomics) requests (task, c) = (task', d) \<Longrightarrow> keeps_power (ptk_policy task) (ptk_policy task')"
proof (induction requests arbitrary: task c)
  case (Cons request requests)
  obtain t1 c1 where one: "process_request atomics request (task, c) = (t1, c1)" by (rule prod.exhaust)
  then have "fold (process_request atomics) requests (t1, c1) = (task', d)" using Cons.prems by simp
  from keeps_trans[OF process_request_keeps[OF one] Cons.IH[OF this]] show ?case .
qed (auto simp: keeps_refl)

lemma serve_requests_keep:
  assumes "serve_requests atomics inputs requests (task, c) = (task', d)" "power_ok (ptk_policy task)"
  shows "power_ok (ptk_policy task') \<and> (pw_fault (ptk_policy task) \<longrightarrow> pw_fault (ptk_policy task')) \<and>
    pw_operations (ptk_policy task') = pw_operations (ptk_policy task)"
proof -
  let ?t = "task\<lparr> ptk_policy := (ptk_policy task)\<lparr> pw_ready := pin_ready inputs, pw_target := pin_target inputs,
                  pw_pool_unavailable := pin_pools_unavailable inputs \<rparr> \<rparr>"
  obtain t1 c1 where one: "fold (process_request atomics) requests (?t, c) = (t1, c1)" by (rule prod.exhaust)
  have k1: "keeps_power (ptk_policy ?t) (ptk_policy t1)" by (rule process_requests_keep[OF one])
  obtain ok p2 c2 where two: "power_policy_pause (ptk_policy t1) c1 = (ok, p2, c2)" by (rule prod_cases3)
  have "ptk_policy task' = ptk_policy t1 \<or> ptk_policy task' = p2"
    using assms(1) one two by (auto simp: serve_requests_def Let_def split: if_splits)
  then have "keeps_power (ptk_policy ?t) (ptk_policy task')" using k1 pause_keeps[OF two] keeps_trans by metis
  then show ?thesis using assms(2) by (auto simp: keeps_power_def power_ok_def)
qed

lemma publish_policy [simp]: "ptk_policy (publish sample task) = ptk_policy task"
  by (simp add: publish_def Let_def)

lemma publish_fault: "pw_fault (ptk_policy task) \<Longrightarrow> ptk_hardware_fault (publish sample task)"
  by (simp add: publish_def Let_def)

text \<open>One iteration, from its parts.\<close>

lemma iteration_cases:
  assumes "power_task_iteration atomics inputs requests (task, c) = (task', d)"
  obtains t1 c1 sample persisted p1 p2 where
    "serve_requests atomics inputs requests (task, c) = (t1, c1)"
    "p1 = (if pin_finished inputs then (ptk_policy t1)\<lparr> pw_paused := True \<rparr> else ptk_policy t1)"
    "sample = (if pw_owner (ptk_policy t1) = POWER_OWNER_NONE then pin_sample inputs else no_sample)"
    "power_policy_step (pin_now_ms inputs) (pin_target inputs) sample (pin_pools_unavailable_at_step inputs)
       (ptk_hardware_fault t1 \<or> pin_reported_fault inputs \<noteq> None) (pin_persisted_overheat inputs) p1 c1 = (p2, fst d, persisted)"
    "ptk_policy task' = p2" "snd d = (pw_running p2 \<and> \<not> pw_fault p2 \<and> \<not> pw_cooling p2)"
proof -
  obtain t1 c1 where one: "serve_requests atomics inputs requests (task, c) = (t1, c1)" by (rule prod.exhaust)
  define t2 where "t2 = (case pin_reported_fault inputs of None \<Rightarrow> t1
      | Some message \<Rightarrow> t1\<lparr> ptk_hardware_fault := True, ptk_hardware_fault_msg := message \<rparr>)"
  have t2: "ptk_policy t2 = ptk_policy t1" "ptk_hardware_fault t2 = (ptk_hardware_fault t1 \<or> pin_reported_fault inputs \<noteq> None)"
    by (auto simp: t2_def split: option.splits)
  define p1 where "p1 = (if pin_finished inputs then (ptk_policy t1)\<lparr> pw_paused := True \<rparr> else ptk_policy t1)"
  define sample where "sample = (if pw_owner (ptk_policy t1) = POWER_OWNER_NONE then pin_sample inputs else no_sample)"
  obtain p2 e fan where step: "power_policy_step (pin_now_ms inputs) (pin_target inputs) sample (pin_pools_unavailable_at_step inputs)
       (ptk_hardware_fault t2) (pin_persisted_overheat inputs) p1 c1 = (p2, e, fan)" by (rule prod_cases3)
  have run: "(task', d) = (publish sample (t2\<lparr> ptk_policy := p2 \<rparr>), e, pw_running p2 \<and> \<not> pw_fault p2 \<and> \<not> pw_cooling p2)"
    using assms step unfolding power_task_iteration_def one prod.case t2_def[symmetric] Let_def t2(1) p1_def sample_def by simp
  show thesis
    by (rule that[OF one p1_def sample_def, of p2 fan]) (use run step t2 in simp_all)
qed

lemma iteration_settled:
  assumes run: "power_task_iteration atomics inputs requests (task, c) = (task', d)" and ok: "power_ok (ptk_policy task)"
  shows "settled (pin_pools_unavailable_at_step inputs) (ptk_policy task') \<and>
    pw_operations (ptk_policy task') = pw_operations (ptk_policy task) \<and>
    (pw_fault (ptk_policy task) \<longrightarrow> pw_fault (ptk_policy task')) \<and>
    snd d = (pw_running (ptk_policy task') \<and> \<not> pw_fault (ptk_policy task') \<and> \<not> pw_cooling (ptk_policy task'))"
  using run
proof (cases rule: iteration_cases)
  case (1 t1 c1 sample fan p1 p2)
  note kept = serve_requests_keep[OF 1(1) ok]
  have "power_ok p1" "pw_operations p1 = pw_operations (ptk_policy task)" "pw_fault (ptk_policy task) \<Longrightarrow> pw_fault p1"
    using kept 1(2) by (auto simp: power_ok_def)
  then show ?thesis using step_settled[OF 1(4)] 1(5,6) by auto
qed

text \<open>A requested stop, or a self test that has ended, leaves the board paused or owned by maintenance before the step.\<close>

lemma stop_before_step:
  assumes "serve_requests atomics inputs requests (task, c) = (t1, c1)"
    and "fold (process_request atomics) requests (task\<lparr> ptk_policy := (ptk_policy task)\<lparr> pw_ready := pin_ready inputs,
           pw_target := pin_target inputs, pw_pool_unavailable := pin_pools_unavailable inputs \<rparr> \<rparr>, c) = (t0, c0)"
    and "stop_requested atomics c0"
  shows "pw_paused (ptk_policy t1) \<or> pw_owner (ptk_policy t1) \<noteq> POWER_OWNER_NONE"
proof -
  obtain ok p d where p: "power_policy_pause (ptk_policy t0) c0 = (ok, p, d)" by (rule prod_cases3)
  have run: "(t1, c1) = (if stop_requested atomics c0 \<and> \<not> pw_paused (ptk_policy t0) \<and>
      pw_owner (ptk_policy t0) = POWER_OWNER_NONE then (t0\<lparr> ptk_policy := p \<rparr>, d) else (t0, c0))"
    using assms(1) unfolding serve_requests_def prod.case Let_def assms(2) p by (auto split: if_splits)
  then have "pw_paused (ptk_policy t0) \<or> pw_owner (ptk_policy t0) \<noteq> POWER_OWNER_NONE \<or> ptk_policy t1 = p"
    "t1 = t0 \<or> ptk_policy t1 = p" using assms(3) by (auto split: if_splits)
  then show ?thesis using pause_keeps[OF p] by auto
qed

inductive power_task_step :: "'c power_atomics \<Rightarrow> 'c power_task \<times> 'c \<times> bool \<Rightarrow> 'c power_task \<times> 'c \<times> bool \<Rightarrow> bool" for atomics where
  iteration: "power_task_iteration atomics inputs requests (task, c) = s \<Longrightarrow> power_task_step atomics (task, c) s"
| others: "power_task_step atomics (task, c, fan_allowed) (task, c', fan_allowed)"

inductive_cases power_task_stepE: "power_task_step atomics s t"

definition power_task_start :: "'c power_operations_t \<Rightarrow> 'c power_task \<times> 'c \<times> bool \<Rightarrow> bool" where
  "power_task_start board = (\<lambda>(task, c, fan_allowed). \<not> fan_allowed \<and> (\<exists>board_ok. power_task_init board board_ok = Some task))"

lemma power_task_start_ok: "power_task_start board s \<Longrightarrow> task_ok board s"
  by (auto simp: power_task_start_def task_ok_def power_task_init_def power_policy_init_def power_ok_def
      split: option.splits if_splits prod.splits)

interpretation power_task: invariant_system "power_task_start board" "power_task_step atomics" "task_ok board"
  for board :: "'c power_operations_t" and atomics
proof
  show "power_task_start board s \<Longrightarrow> task_ok board s" for s by (rule power_task_start_ok)
next
  fix s t
  assume ok: "task_ok board s" and step: "power_task_step atomics s t"
  show "task_ok board t"
    using step
  proof cases
    case (iteration inputs requests task c)
    obtain task' d where "t = (task', d)" by (cases t)
    then show ?thesis using iteration ok iteration_settled[of atomics inputs requests task c task' d]
      by (auto simp: task_ok_def settled_def)
  qed (use ok in \<open>auto simp: task_ok_def\<close>)
qed

text \<open>Whatever is requested, sensed and answered: a running board has no fault, is not cooling and is nobody's; an owned board is
  stopped; and the fans may be controlled only while the board runs.\<close>

lemma running_board_is_granted:
  assumes "reachable (power_task_start board) (power_task_step atomics) (task, c, fan_allowed)"
  shows "(pw_running (ptk_policy task) \<longrightarrow> \<not> pw_stopped (ptk_policy task) \<and> \<not> pw_fault (ptk_policy task) \<and>
       \<not> pw_cooling (ptk_policy task) \<and> pw_owner (ptk_policy task) = POWER_OWNER_NONE) \<and>
    (pw_owner (ptk_policy task) \<noteq> POWER_OWNER_NONE \<longrightarrow> pw_stopped (ptk_policy task)) \<and>
    (fan_control_allowed atomics (c, fan_allowed) \<longrightarrow> pw_running (ptk_policy task))"
  using power_task.reachable_inv[OF assms] by (auto simp: task_ok_def power_ok_def fan_control_allowed_def)

end
