(* ===== verification/Spec2Isabelle.thy ===== *)
theory Spec2Isabelle
  imports FrameParser Supervisor Results RunningEvidence RuntimeHealth Reactor ResultQueue BalancedRamp Frequency PowerRail Safeguards Registers Bringup PowerPolicy
begin

text \<open>
  A verification development of ESP-Miner for the Bonanza board: an ESP32-S3 that drives a chain of four ASICs with
  236 engines each over a 9-bit UART, with an RP2040 bridge that owns power, reset and the safety lease.

  \<^bold>\<open>The program and its parts.\<close> A pool's notification becomes a job (Mining), which the job store keeps under a handle with a
  generation (JobStore). The reactor gives every engine work of its own under a hardware identity (Work, Reactor);
  the serial transport writes it to the chain (Serial, SerialTransport, ChainWire) and splits what comes back into
  register replies, results and telemetry (FrameParser, Transport, Telemetry). A result passes the result queue
  (ResultQueue), is attributed by the reactor, checked, deduplicated and submitted (Results). The board is powered up in stages
  under a policy (Validation), by a supervisor that owns it, holds the lease and latches faults (Supervisor); the stages that
  concern the chain are those of Bringup, with the engines activated in voltage balance (Topology, BalancedRamp). The bridge is
  reached over its command protocol (Bridge), the rail is switched by PowerRail, the clocks follow Frequency. While mining, the
  runtime health interlock (RuntimeHealth, ParserWindows), the evidence of real mining (RunningEvidence) and
  the guards of Safeguards decide whether the board may stay energised; Registers compares what regulators and ASICs read back.
  Above all of this the power task (PowerPolicy) decides when the board runs at all: it serves pause, resume and maintenance,
  stops the board when a stop is asked for, and cools it down after overheating.

  \<^bold>\<open>Theories and sources\<close> (below \<open>components\<close>; \<open>asic/\<close> unless another directory is named).
  Prelude: integer widths, little-endian bytes, reachability, the interfaces \<open>invariant_system\<close>, \<open>bounded_history\<close>, \<open>run_counter\<close>.
  Floats, FloatExact: \<open>float\<close> as rationals with infinities and a NaN, rounding to nearest even, exactness and error bounds.
  CText: \<open>snprintf\<close> into fixed buffers.
  Topology: \<open>bzm_topology.c\<close>. FrameParser: \<open>bzm_frame_parser.c\<close>. Telemetry: \<open>bzm_telemetry.c\<close>. Work: \<open>bzm.c\<close>, \<open>bzm_work.c\<close>.
  Reactor: \<open>bzm_reactor.c\<close>. Serial: \<open>serial.c\<close>. Transport, SerialTransport, ChainWire, ResultQueue: \<open>bzm_transport.c\<close>.
  BalancedRamp: \<open>bzm_balanced_ramp.c\<close>. Bringup: \<open>bzm_bringup.c\<close>. Frequency: \<open>bzm_frequency.c\<close>. PowerRail: \<open>bzm_power.c\<close>.
  Bridge: \<open>bzm_bridge.c\<close>. Validation: \<open>bzm_validation.c\<close>. Supervisor: \<open>bzm_supervisor.c\<close>.
  ParserWindows, RuntimeHealth: \<open>bzm_runtime_health.c\<close>. RunningEvidence: \<open>bzm_running_evidence.c\<close>.
  Safeguards: \<open>bzm_lease_guard.c\<close>, \<open>bzm_dispatch_gate.c\<close>, \<open>bzm_overheat_recovery.c\<close>.
  Registers: \<open>bzm_registers.c\<close>, \<open>bzm_tps546_verify.c\<close>.
  JobStore: \<open>mining_job/asic_job.c\<close>, \<open>asic_job_store.c\<close>. Mining: \<open>stratum/utils.c\<close>, \<open>hash_bytes.c\<close>, \<open>mining.c\<close>.
  PowerPolicy: \<open>power_management/power_policy.c\<close>, \<open>main/tasks/power_management_task.c\<close>.
  Results: \<open>asic_result_handler.c\<close>, \<open>asic_share.c\<close>, \<open>bm_result.c\<close>, \<open>bzm_result_dedup.c\<close>.

  \<^bold>\<open>How the code is modelled.\<close> A struct is a record, an enum a datatype, an integer a word of its width, a fixed array a list of
  its length; a pointer that may be NULL is an option. A function that changes its argument returns the
  new record. An operation behind a function pointer, a driver or a clock is a parameter: a function on a device state of
  arbitrary type, so that nothing is assumed of the hardware; where a theorem needs a law of it (time advances at
  a read, a write is recorded) the law is a named hypothesis with a witness. Errors are the enumeration or \<open>bool\<close>
  of the source, or the left side of a sum where it returns early. An operation under a lock is atomic. Functions keep the names of the
  source, with a suffix or prefix where two files use the same name. Log output is left out.

  \<^bold>\<open>What the groups of lemmas show.\<close> Invariants over all reachable states by rule induction (\<open>parser_step\<close>, \<open>sup_step\<close>, \<open>js_step\<close>,
  \<open>rx_step\<close>, \<open>transport_step\<close>, \<open>ramp_step\<close>); refinements of abstract histories, maps and queues through the locales of Prelude and
  JobStore; exact characterisations of the decisions (GOOD exactly if, accepted exactly if); round trips of the wire
  formats; equivalences with reference definitions; what remains on every error path. The references do not use the code's
  own tables and decisions: SHA-256 takes its constants from the roots of the first primes, the verdicts of the bridge's status
  and of the health interlock are decision tables of their own, the bring-up refines an abstract ladder on which a stage takes
  away its own mark and those above it before it acts, and granting maintenance is tied to the hardware calls of that very call.
  The numbered properties follow these groups; each names its claim where it stands.

  \<^bold>\<open>Bounds.\<close> Loops with a constant bound recurse over it. Loops that wait for the clock or the UART may run for ever: they are
  \<open>partial_function\<close>s, and that they return is a theorem under the law that time advances. Generations of the
  job store are counted below \<open>2 ^ 56\<close>, which the hypothesis of the theorems on handles states.
  Single-precision results assume rounding to nearest after each operation, without fused multiply-add.

  \<^bold>\<open>Not modelled.\<close> Code that only drives devices or the network through libraries: the regulator and sensor drivers
  (\<open>main/power\<close>, \<open>main/thermal\<close>), the bridge's update over SWD, the display, storage, connectivity and web interface, the Stratum
  sockets and JSON, encrypted Stratum V2 sessions, the tasks of FreeRTOS other than the power task (its wake-ups and the copying of
  its status for other tasks are left out too), the glue that wires the modules to their devices, and the drivers of other
  chips (\<open>bm13xx\<close>) that this board does not use.
\<close>

end
